(* ===== verification/Prelude.thy ===== *)
theory Prelude
  imports
    Complex_Main
    "HOL-Library.AList"
    "HOL-Library.List_Lexorder"
    "HOL-Library.Char_ord"
    "HOL-Library.Product_Lexorder"
    "HOL-Library.Word"
begin

text \<open>
  What the component theories share: the parts of the Rust standard library that the program
  uses (orderings and \<open>min_by\<close>, string trimming, decimal numbers, integer casts), generic
  lemmas on lists and association lists, and the development's fact collections.

  A Rust \<open>String\<close> is the list of its UTF-8 bytes, so \<open>length\<close> is \<open>str::len\<close>, equality is
  byte equality and the lexicographic order on \<open>string\<close> is the order of \<open>str::cmp\<close>.
  A \<open>HashMap\<close> that the program only looks up is a function into \<open>option\<close>; one that it
  iterates over is an association list, whose order stands for the unspecified iteration order.
  Unsigned counters are natural numbers; casts that truncate go through words.
\<close>

named_theorems op_defs \<open>definitions of operations, unfolded by the lemmas on their branches\<close>
named_theorems frame_simps \<open>fields an operation leaves alone\<close>
named_theorems eval_defs \<open>definitions to unfold when a closed term is evaluated\<close>

section \<open>Orderings\<close>

text \<open>\<open>std::cmp::Ordering\<close> with \<open>then_with\<close>, and \<open>Ord::cmp\<close> of a linearly ordered type.\<close>

datatype ordering = Less | Equal | Greater

fun then_with :: "ordering \<Rightarrow> ordering \<Rightarrow> ordering" where
  "then_with Equal r = r"
| "then_with Less r = Less"
| "then_with Greater r = Greater"

definition cmp :: "'a::linorder \<Rightarrow> 'a \<Rightarrow> ordering" where
  "cmp a b = (if a < b then Less else if a = b then Equal else Greater)"

lemma cmp_eq_iff [simp]:
  "cmp a b = Less \<longleftrightarrow> a < b"
  "cmp a b = Equal \<longleftrightarrow> a = b"
  "cmp a b = Greater \<longleftrightarrow> b < a"
  by (auto simp: cmp_def)

lemma then_with_eq_iff [simp]:
  "then_with a b = Less \<longleftrightarrow> a = Less \<or> a = Equal \<and> b = Less"
  "then_with a b = Equal \<longleftrightarrow> a = Equal \<and> b = Equal"
  "then_with a b = Greater \<longleftrightarrow> a = Greater \<or> a = Equal \<and> b = Greater"
  by (cases a; simp)+

text \<open>\<open>Iterator::min_by\<close>: of equally small elements the first one.\<close>

definition min_step :: "('a \<Rightarrow> 'a \<Rightarrow> ordering) \<Rightarrow> 'a \<Rightarrow> 'a \<Rightarrow> 'a" where
  "min_step c x y = (if c x y = Greater then y else x)"

definition min_by :: "('a \<Rightarrow> 'a \<Rightarrow> ordering) \<Rightarrow> 'a list \<Rightarrow> 'a option" where
  "min_by c xs = (case xs of [] \<Rightarrow> None | x # r \<Rightarrow> Some (foldl (min_step c) x r))"

lemma foldl_min_step_in: "foldl (min_step c) x xs \<in> insert x (set xs)"
proof (induction xs arbitrary: x)
  case (Cons y ys)
  then show ?case using Cons.IH [of "min_step c x y"] by (auto simp: min_step_def)
qed simp

lemma min_by_Nil [simp]: "min_by c [] = None"
  by (simp add: min_by_def)

lemma min_by_None_iff [simp]: "min_by c xs = None \<longleftrightarrow> xs = []"
  by (simp add: min_by_def split: list.splits)

lemma min_by_in: "min_by c xs = Some m \<Longrightarrow> m \<in> set xs"
  using foldl_min_step_in by (fastforce simp: min_by_def split: list.splits)

text \<open>On elements where \<open>c\<close> is a total preorder the result is a least element.\<close>

lemma foldl_min_step_le:
  assumes "\<And>a b d. a \<in> A \<Longrightarrow> b \<in> A \<Longrightarrow> d \<in> A \<Longrightarrow>
      c a b \<noteq> Greater \<Longrightarrow> c b d \<noteq> Greater \<Longrightarrow> c a d \<noteq> Greater"
    and "\<And>a b. a \<in> A \<Longrightarrow> b \<in> A \<Longrightarrow> c a b = Greater \<Longrightarrow> c b a \<noteq> Greater"
    and "\<And>a. a \<in> A \<Longrightarrow> c a a \<noteq> Greater"
    and "insert x (set xs) \<subseteq> A" and "y \<in> insert x (set xs)"
  shows "c (foldl (min_step c) x xs) y \<noteq> Greater"
  using assms(4,5)
proof (induction xs arbitrary: x y)
  case Nil
  then show ?case using assms(3) by simp
next
  case (Cons z zs)
  let ?m = "min_step c x z"
  have m: "?m \<in> A" "insert ?m (set zs) \<subseteq> A"
    using Cons.prems(1) by (auto simp: min_step_def)
  have xz: "x \<in> A" "z \<in> A" using Cons.prems(1) by simp_all
  have le_m: "c ?m x \<noteq> Greater \<and> c ?m z \<noteq> Greater"
    unfolding min_step_def
    using assms(2) [OF xz] assms(3) [OF xz(1)] assms(3) [OF xz(2)] by presburger
  have fm: "c (foldl (min_step c) ?m zs) w \<noteq> Greater" if "w \<in> insert ?m (set zs)" for w
    by (rule Cons.IH [OF m(2) that])
  have inA: "foldl (min_step c) ?m zs \<in> A"
    by (rule subsetD [OF m(2) foldl_min_step_in])
  show ?case
  proof (cases "y \<in> set zs")
    case True
    then have "y \<in> insert ?m (set zs)" by simp
    then show ?thesis unfolding foldl.simps by (rule fm)
  next
    case False
    then have y: "y = x \<or> y = z" using Cons.prems(2) by auto
    then have "c ?m y \<noteq> Greater" and yA: "y \<in> A" using le_m xz by blast+
    then show ?thesis
      unfolding foldl.simps by (intro assms(1) [OF inA m(1) yA fm [OF insertI1]])
  qed
qed

lemma min_by_le:
  assumes "\<And>a b d. a \<in> A \<Longrightarrow> b \<in> A \<Longrightarrow> d \<in> A \<Longrightarrow>
      c a b \<noteq> Greater \<Longrightarrow> c b d \<noteq> Greater \<Longrightarrow> c a d \<noteq> Greater"
    and "\<And>a b. a \<in> A \<Longrightarrow> b \<in> A \<Longrightarrow> c a b = Greater \<Longrightarrow> c b a \<noteq> Greater"
    and "\<And>a. a \<in> A \<Longrightarrow> c a a \<noteq> Greater"
    and "set xs \<subseteq> A" and "min_by c xs = Some m" and "y \<in> set xs"
  shows "c m y \<noteq> Greater"
proof -
  from assms(5) obtain x r where xs: "xs = x # r" and m: "m = foldl (min_step c) x r"
    by (auto simp: min_by_def split: list.splits)
  show ?thesis
    unfolding m
  proof (rule foldl_min_step_le [where A = A and c = c, OF assms(1-3)])
    show "insert x (set r) \<subseteq> A" using assms(4) xs by simp
    show "y \<in> insert x (set r)" using assms(6) xs by simp
  qed
qed


section \<open>Strings\<close>

text \<open>
  \<open>str::trim\<close> removes the characters with the Unicode property White_Space at both ends.
  On UTF-8 bytes these are the ASCII bytes 9 to 13 and 32 and the multi-byte encodings of
  U+0085, U+00A0, U+1680, U+2000 to U+200A, U+2028, U+2029, U+202F, U+205F and U+3000.
  UTF-8 is self-synchronising, so a suffix with these bytes is such a character.
\<close>

definition ws1 :: "char \<Rightarrow> bool" where
  "ws1 a \<longleftrightarrow> a \<in> {CHR 0x09, CHR 0x0A, CHR 0x0B, CHR 0x0C, CHR 0x0D, CHR '' ''}"

definition ws2 :: "char \<Rightarrow> char \<Rightarrow> bool" where
  "ws2 a b \<longleftrightarrow> a = CHR 0xC2 \<and> b \<in> {CHR 0x85, CHR 0xA0}"

definition ws3 :: "char \<Rightarrow> char \<Rightarrow> char \<Rightarrow> bool" where
  "ws3 a b c \<longleftrightarrow>
     (a, b, c) \<in> {(CHR 0xE1, CHR 0x9A, CHR 0x80), (CHR 0xE2, CHR 0x81, CHR 0x9F),
                   (CHR 0xE3, CHR 0x80, CHR 0x80)} \<or>
     a = CHR 0xE2 \<and> b = CHR 0x80 \<and>
     c \<in> {CHR 0x80, CHR 0x81, CHR 0x82, CHR 0x83, CHR 0x84, CHR 0x85, CHR 0x86, CHR 0x87,
           CHR 0x88, CHR 0x89, CHR 0x8A, CHR 0xA8, CHR 0xA9, CHR 0xAF}"

text \<open>The number of bytes of a white-space character at the start, and at the end.\<close>

fun ws_prefix :: "string \<Rightarrow> nat" where
  "ws_prefix (a # b # c # s) =
     (if ws1 a then 1 else if ws2 a b then 2 else if ws3 a b c then 3 else 0)"
| "ws_prefix [a, b] = (if ws1 a then 1 else if ws2 a b then 2 else 0)"
| "ws_prefix [a] = (if ws1 a then 1 else 0)"
| "ws_prefix [] = 0"

fun ws_suffix_rev :: "string \<Rightarrow> nat" where
  "ws_suffix_rev (c # b # a # s) =
     (if ws1 c then 1 else if ws2 b c then 2 else if ws3 a b c then 3 else 0)"
| "ws_suffix_rev [c, b] = (if ws1 c then 1 else if ws2 b c then 2 else 0)"
| "ws_suffix_rev [c] = (if ws1 c then 1 else 0)"
| "ws_suffix_rev [] = 0"

function trim_start :: "string \<Rightarrow> string" where
  "trim_start s = (if ws_prefix s = 0 \<or> s = [] then s else trim_start (drop (ws_prefix s) s))"
  by pat_completeness auto
termination
  by (relation "measure length") auto

function trim_rev :: "string \<Rightarrow> string" where
  "trim_rev s = (if ws_suffix_rev s = 0 \<or> s = [] then s else trim_rev (drop (ws_suffix_rev s) s))"
  by pat_completeness auto
termination
  by (relation "measure length") auto

declare trim_start.simps [simp del] trim_rev.simps [simp del]

definition trim_end :: "string \<Rightarrow> string" where
  "trim_end s = rev (trim_rev (rev s))"

definition trim :: "string \<Rightarrow> string" where
  "trim s = trim_end (trim_start s)"

lemmas trim_eval = trim_def trim_end_def trim_start.simps trim_rev.simps ws1_def ws2_def ws3_def

declare trim_eval [eval_defs]

lemma ws_prefix_Nil_iff: "ws_prefix s \<noteq> 0 \<Longrightarrow> s \<noteq> []"
  by auto

lemma ws_prefix_trim_start: "ws_prefix (trim_start s) = 0"
  by (induction s rule: trim_start.induct) (subst trim_start.simps, auto)

lemma ws_suffix_trim_rev: "ws_suffix_rev (trim_rev s) = 0"
  by (induction s rule: trim_rev.induct) (subst trim_rev.simps, auto)

lemma trim_start_fixed: "ws_prefix s = 0 \<Longrightarrow> trim_start s = s"
  by (subst trim_start.simps) simp

lemma trim_rev_fixed: "ws_suffix_rev s = 0 \<Longrightarrow> trim_rev s = s"
  by (subst trim_rev.simps) simp

lemma trim_rev_suffix: "\<exists>t. s = t @ trim_rev s"
proof (induction s rule: trim_rev.induct)
  case (1 s)
  show ?case
  proof (cases "ws_suffix_rev s = 0 \<or> s = []")
    case True
    then show ?thesis by (subst trim_rev.simps) simp
  next
    case False
    with "1.IH" obtain t where "drop (ws_suffix_rev s) s = t @ trim_rev (drop (ws_suffix_rev s) s)"
      by blast
    then have "s = (take (ws_suffix_rev s) s @ t) @ trim_rev (drop (ws_suffix_rev s) s)"
      by (metis append_assoc append_take_drop_id)
    moreover from False have "trim_rev s = trim_rev (drop (ws_suffix_rev s) s)"
      by (subst trim_rev.simps) simp
    ultimately show ?thesis by metis
  qed
qed

lemma ws_prefix_append: "ws_prefix s \<noteq> 0 \<Longrightarrow> ws_prefix (s @ t) \<noteq> 0"
  by (cases s rule: ws_prefix.cases; cases t rule: ws_prefix.cases) (auto split: if_splits)

lemma trim_trim [simp]: "trim (trim s) = trim s"
proof -
  obtain t where t: "rev (trim_start s) = t @ trim_rev (rev (trim_start s))"
    using trim_rev_suffix by blast
  then have "trim_start s = trim s @ rev t"
    unfolding trim_def trim_end_def by (metis rev_append rev_rev_ident)
  then have "ws_prefix (trim s) = 0"
    using ws_prefix_append [of "trim s" "rev t"] ws_prefix_trim_start [of s] by metis
  then have "trim_start (trim s) = trim s" by (rule trim_start_fixed)
  then show ?thesis
    using ws_suffix_trim_rev by (simp add: trim_def trim_end_def trim_rev_fixed)
qed

text \<open>\<open>starts_with\<close>, \<open>strip_prefix\<close>, \<open>trim_start_matches\<close> and \<open>trim_end_matches\<close> of one character, \<open>split\<close>.\<close>

definition starts_with :: "string \<Rightarrow> string \<Rightarrow> bool" where
  "starts_with s p \<longleftrightarrow> take (length p) s = p"

definition strip_prefix :: "string \<Rightarrow> string \<Rightarrow> string option" where
  "strip_prefix s p = (if starts_with s p then Some (drop (length p) s) else None)"

definition trim_start_matches :: "char \<Rightarrow> string \<Rightarrow> string" where
  "trim_start_matches c s = dropWhile (\<lambda>x. x = c) s"

definition trim_end_matches :: "char \<Rightarrow> string \<Rightarrow> string" where
  "trim_end_matches c s = rev (dropWhile (\<lambda>x. x = c) (rev s))"

fun split_on :: "char \<Rightarrow> string \<Rightarrow> string list" where
  "split_on c [] = [[]]"
| "split_on c (x # s) =
     (if x = c then [] # split_on c s
      else case split_on c s of [] \<Rightarrow> [[x]] | p # ps \<Rightarrow> (x # p) # ps)"

text \<open>
  \<open>to_lowercase\<close> and \<open>eq_ignore_ascii_case\<close> on ASCII letters. The program only compares the
  result with ASCII literals.
\<close>

definition lower_char :: "char \<Rightarrow> char" where
  "lower_char c = (let n = of_char c :: nat in if 65 \<le> n \<and> n \<le> 90 then char_of (n + 32) else c)"

definition to_lowercase :: "string \<Rightarrow> string" where
  "to_lowercase s = map lower_char s"

text \<open>\<open>unwrap_or("")\<close> of an optional string.\<close>

definition opt_str :: "string option \<Rightarrow> string" where
  "opt_str x = (case x of None \<Rightarrow> [] | Some s \<Rightarrow> s)"

text \<open>\<open>join\<close> of a list of strings.\<close>

fun join_with :: "string \<Rightarrow> string list \<Rightarrow> string" where
  "join_with sep [] = []"
| "join_with sep [s] = s"
| "join_with sep (s # t # ss) = s @ sep @ join_with sep (t # ss)"

definition quoted :: "string \<Rightarrow> string" where
  "quoted s = [CHR 0x27] @ s @ [CHR 0x27]"

lemma starts_with_append [simp]: "starts_with (p @ s) p"
  by (simp add: starts_with_def)

lemma strip_prefix_append [simp]: "strip_prefix (p @ s) p = Some s"
  by (simp add: strip_prefix_def)

declare starts_with_def [eval_defs] strip_prefix_def [eval_defs] to_lowercase_def [eval_defs]
  lower_char_def [eval_defs]


section \<open>Decimal numbers and casts\<close>

text \<open>\<open>to_string\<close> of an unsigned integer, and \<open>str::parse::<u64>\<close> (a leading \<open>+\<close> is accepted).\<close>

definition digit_char :: "nat \<Rightarrow> char" where
  "digit_char d = char_of (48 + d)"

fun nat_to_string :: "nat \<Rightarrow> string" where
  "nat_to_string n =
     (if n < 10 then [digit_char n] else nat_to_string (n div 10) @ [digit_char (n mod 10)])"

declare nat_to_string.simps [simp del]

definition digit_val :: "char \<Rightarrow> nat option" where
  "digit_val c = (let n = of_char c :: nat in if 48 \<le> n \<and> n \<le> 57 then Some (n - 48) else None)"

fun parse_digits :: "nat \<Rightarrow> nat \<Rightarrow> string \<Rightarrow> nat option" where
  "parse_digits bound acc [] = Some acc"
| "parse_digits bound acc (c # s) =
     (case digit_val c of None \<Rightarrow> None
      | Some d \<Rightarrow> if acc * 10 + d < bound then parse_digits bound (acc * 10 + d) s else None)"

definition parse_uint :: "nat \<Rightarrow> string \<Rightarrow> nat option" where
  "parse_uint bound s =
     (let t = (case s of [] \<Rightarrow> [] | c # r \<Rightarrow> if c = CHR ''+'' then r else s)
      in if t = [] then None else parse_digits bound 0 t)"

abbreviation u64_bound :: nat where
  "u64_bound \<equiv> 2 ^ 64"

lemma digit_val_char [simp]: "d < 10 \<Longrightarrow> digit_val (digit_char d) = Some d"
  by (simp add: digit_val_def digit_char_def)

lemma digit_char_not_plus: "d < 10 \<Longrightarrow> digit_char d \<noteq> CHR ''+''"
  using digit_val_char [of d] by (auto simp: digit_val_def Let_def split: if_splits)

lemma parse_digits_append:
  "parse_digits b acc (s @ t) =
     (case parse_digits b acc s of None \<Rightarrow> None | Some n \<Rightarrow> parse_digits b n t)"
  by (induction s arbitrary: acc) (auto split: option.splits)

lemma nat_to_string_not_Nil [simp]: "nat_to_string n \<noteq> []"
  by (subst nat_to_string.simps) simp

lemma parse_digits_nat_to_string: "n < b \<Longrightarrow> parse_digits b 0 (nat_to_string n) = Some n"
proof (induction n rule: nat_to_string.induct)
  case (1 n)
  show ?case
  proof (cases "n < 10")
    case True
    with 1 show ?thesis by (subst nat_to_string.simps) simp
  next
    case False
    with 1 have "parse_digits b 0 (nat_to_string (n div 10)) = Some (n div 10)" by simp
    with False 1 show ?thesis
      by (subst nat_to_string.simps) (simp add: parse_digits_append)
  qed
qed

lemma nat_to_string_hd_digit: "\<exists>d r. d < 10 \<and> nat_to_string n = digit_char d # r"
proof (induction n rule: nat_to_string.induct)
  case (1 n)
  show ?case
  proof (cases "n < 10")
    case True
    then show ?thesis by (subst nat_to_string.simps) auto
  next
    case False
    with 1 obtain d r where "d < 10" "nat_to_string (n div 10) = digit_char d # r" by blast
    with False show ?thesis by (subst nat_to_string.simps) auto
  qed
qed

lemma parse_uint_nat_to_string: "n < b \<Longrightarrow> parse_uint b (nat_to_string n) = Some n"
proof -
  assume n: "n < b"
  obtain d r where d: "d < 10" "nat_to_string n = digit_char d # r"
    using nat_to_string_hd_digit by blast
  then show ?thesis
    using parse_digits_nat_to_string [OF n] digit_char_not_plus [OF d(1)]
    by (simp add: parse_uint_def)
qed

lemma nat_to_string_inject [simp]: "nat_to_string m = nat_to_string n \<longleftrightarrow> m = n"
proof
  assume eq: "nat_to_string m = nat_to_string n"
  have "parse_uint (Suc (max m n)) (nat_to_string m) = Some m"
    by (rule parse_uint_nat_to_string) simp
  moreover have "parse_uint (Suc (max m n)) (nat_to_string n) = Some n"
    by (rule parse_uint_nat_to_string) simp
  ultimately show "m = n" unfolding eq by (metis option.inject)
qed simp

text \<open>The casts \<open>u128 as i64\<close>, \<open>i64 as u128\<close> and \<open>i64 as u32\<close>.\<close>

definition u128_as_i64 :: "nat \<Rightarrow> int" where
  "u128_as_i64 n = sint (of_nat n :: 64 word)"

definition i64_as_u128 :: "int \<Rightarrow> nat" where
  "i64_as_u128 i = unat (of_int i :: 128 word)"

definition i64_as_u32 :: "int \<Rightarrow> nat" where
  "i64_as_u32 i = unat (of_int i :: 32 word)"

lemma u128_as_i64_small: "n < 2 ^ 63 \<Longrightarrow> u128_as_i64 n = int n"
  unfolding u128_as_i64_def
  by (simp add: signed_of_nat signed_take_bit_int_eq_self)

lemma i64_as_u128_of_nat: "n < 2 ^ 128 \<Longrightarrow> i64_as_u128 (int n) = n"
  unfolding i64_as_u128_def
  by (simp add: unsigned_of_nat take_bit_nat_eq_self)

lemma i64_as_u32_of_nat: "n < 2 ^ 32 \<Longrightarrow> i64_as_u32 (int n) = n"
  unfolding i64_as_u32_def
  by (simp add: unsigned_of_nat take_bit_nat_eq_self)

section \<open>Lists, maps and association lists\<close>

text \<open>\<open>iter().enumerate().filter_map\<close> to the indices of the elements with a property.\<close>

definition indices_where :: "('a \<Rightarrow> bool) \<Rightarrow> 'a list \<Rightarrow> nat list" where
  "indices_where P xs = filter (\<lambda>i. P (xs ! i)) [0..<length xs]"

lemma set_indices_where [simp]: "set (indices_where P xs) = {i. i < length xs \<and> P (xs ! i)}"
  by (auto simp: indices_where_def)

lemma distinct_indices_where [simp]: "distinct (indices_where P xs)"
  by (simp add: indices_where_def)

lemma sorted_indices_where [simp]: "sorted (indices_where P xs)"
  by (simp add: indices_where_def sorted_wrt_filter)

text \<open>\<open>slice::get\<close>.\<close>

definition get_at :: "'a list \<Rightarrow> nat \<Rightarrow> 'a option" where
  "get_at xs i = (if i < length xs then Some (xs ! i) else None)"

lemma get_at_eq_Some [simp]: "get_at xs i = Some x \<longleftrightarrow> i < length xs \<and> x = xs ! i"
  by (auto simp: get_at_def)

lemma get_at_eq_None [simp]: "get_at xs i = None \<longleftrightarrow> length xs \<le> i"
  by (auto simp: get_at_def)

lemma find_None_iff_filter: "find P xs = None \<longleftrightarrow> filter P xs = []"
  by (auto simp: find_None_iff filter_empty_conv)

lemma find_in: "find P xs = Some x \<Longrightarrow> x \<in> set xs \<and> P x"
  by (auto simp: find_Some_iff)

lemma find_append: "find P (xs @ ys) = (case find P xs of None \<Rightarrow> find P ys | Some x \<Rightarrow> Some x)"
  by (induction xs) auto

lemma find_cong_set: "(\<And>x. x \<in> set xs \<Longrightarrow> P x = Q x) \<Longrightarrow> find P xs = find Q xs"
  by (induction xs) auto

lemma set_remove1_distinct: "distinct xs \<Longrightarrow> set (remove1 x xs) = set xs - {x}"
  by (rule set_remove1_eq)

lemma length_filter_remove1:
  "distinct xs \<Longrightarrow> x \<in> set xs \<Longrightarrow>
     length (filter P xs) = length (filter P (remove1 x xs)) + (if P x then 1 else 0)"
  by (induction xs) auto

lemma distinct_filter_length:
  "distinct xs \<Longrightarrow> length (filter P xs) = card {x \<in> set xs. P x}"
  by (metis distinct_card distinct_filter set_filter)

lemma length_filter_single_change:
  assumes "distinct xs" "x \<in> set xs" "\<And>y. y \<in> set xs \<Longrightarrow> y \<noteq> x \<Longrightarrow> P y = Q y"
  shows "length (filter P xs) + (if Q x then 1 else 0) = length (filter Q xs) + (if P x then 1 else 0)"
proof -
  have "filter P (remove1 x xs) = filter Q (remove1 x xs)"
    using assms by (intro filter_cong) (auto simp: set_remove1_distinct)
  then show ?thesis
    using length_filter_remove1 [OF assms(1,2), of P] length_filter_remove1 [OF assms(1,2), of Q]
    by simp
qed

lemma map_of_update [simp]: "map_of (AList.update k v al) = (map_of al)(k \<mapsto> v)"
  by (rule ext) (simp add: update_conv')

lemma map_of_delete [simp]: "map_of (AList.delete k al) = (map_of al)(k := None)"
  by (rule ext) (simp add: delete_conv')


text \<open>\<open>Iterator::find_map\<close>.\<close>

fun find_map :: "('a \<Rightarrow> 'b option) \<Rightarrow> 'a list \<Rightarrow> 'b option" where
  "find_map f [] = None"
| "find_map f (x # xs) = (case f x of Some y \<Rightarrow> Some y | None \<Rightarrow> find_map f xs)"

lemma find_map_guard: "find_map (\<lambda>x. if P x then Some x else None) xs = find P xs"
  by (induction xs) auto

lemma find_map_SomeD: "find_map f xs = Some y \<Longrightarrow> \<exists>x \<in> set xs. f x = Some y"
  by (induction xs) (auto split: option.splits)

lemma find_map_NoneD: "find_map f xs = None \<longleftrightarrow> (\<forall>x \<in> set xs. f x = None)"
  by (induction xs) (auto split: option.splits)

lemma find_map_find: "find_map (\<lambda>x. find P (f x)) xs = find P (concat (map f xs))"
  by (induction xs) (auto simp: find_append split: option.splits)

text \<open>
  Groups with a counter, as the program keeps them in a vector that it searches with
  \<open>iter_mut().find\<close>: the first entry that matches is updated, else a new one is pushed.
\<close>

fun upsert :: "('a \<Rightarrow> bool) \<Rightarrow> ('a \<Rightarrow> 'a) \<Rightarrow> 'a \<Rightarrow> 'a list \<Rightarrow> 'a list" where
  "upsert P f new [] = [new]"
| "upsert P f new (x # xs) = (if P x then f x # xs else x # upsert P f new xs)"

text \<open>A \<open>BTreeMap\<close> is the list of its entries in ascending key order.\<close>

fun btree_insert :: "'k::linorder \<Rightarrow> 'v \<Rightarrow> ('k \<times> 'v) list \<Rightarrow> ('k \<times> 'v) list" where
  "btree_insert k v [] = [(k, v)]"
| "btree_insert k v ((k', v') # m) =
     (if k < k' then (k, v) # (k', v') # m
      else if k = k' then (k, v) # m
      else (k', v') # btree_insert k v m)"

lemma map_of_btree_insert [simp]: "map_of (btree_insert k v m) = (map_of m)(k \<mapsto> v)"
proof (induction m)
  case (Cons e m)
  then show ?case by (cases e) (auto simp: fun_eq_iff)
qed simp

lemma keys_btree_insert [simp]: "fst ` set (btree_insert k v m) = insert k (fst ` set m)"
  by (induction k v m rule: btree_insert.induct) auto

lemma sorted_btree_insert:
  "sorted_wrt (<) (map fst m) \<Longrightarrow> sorted_wrt (<) (map fst (btree_insert k v m))"
proof (induction k v m rule: btree_insert.induct)
  case (2 k v k' v' m)
  then have "\<forall>a \<in> fst ` set (btree_insert k v m). a = k \<or> a \<in> fst ` set m"
    by (metis insert_iff keys_btree_insert)
  with 2 show ?case by (fastforce simp: image_iff)
qed simp

text \<open>A \<open>BTreeSet\<close> is the ascending list of its elements.\<close>

definition btree_set :: "'a::linorder list \<Rightarrow> 'a list" where
  "btree_set xs = sort (remdups xs)"

lemma set_btree_set [simp]: "set (btree_set xs) = set xs"
  by (simp add: btree_set_def)

lemma distinct_btree_set [simp]: "distinct (btree_set xs)"
  by (simp add: btree_set_def)


lemma sort_key_map: "(\<And>x. k (h x) = k' x) \<Longrightarrow> map h (sort_key k' xs) = sort_key k (map h xs)"
proof -
  assume k: "\<And>x. k (h x) = k' x"
  have ins: "map h (insort_key k' x ys) = insort_key k (h x) (map h ys)" for x ys
    by (induction ys) (auto simp: k)
  show ?thesis by (induction xs) (auto simp: ins)
qed

lemma sort_key_map_id: "map k (sort_key k xs) = sort (map k xs)"
  by (rule sort_key_map) simp

section \<open>Results\<close>

text \<open>A Rust \<open>Result<A, E>\<close> is \<open>'e + 'a\<close>; \<open>and_then\<close> is the operator \<open>?\<close>, and \<open>collect_results\<close>
  runs a fallible function over a list and stops at the first error.\<close>

fun and_then :: "'e + 'a \<Rightarrow> ('a \<Rightarrow> 'e + 'b) \<Rightarrow> 'e + 'b" where
  "and_then (Inl e) f = Inl e"
| "and_then (Inr x) f = f x"

fun collect_results :: "('a \<Rightarrow> 'e + 'b) \<Rightarrow> 'a list \<Rightarrow> 'e + 'b list" where
  "collect_results f [] = Inr []"
| "collect_results f (x # xs) = and_then (f x) (\<lambda>y. and_then (collect_results f xs) (\<lambda>ys. Inr (y # ys)))"

text \<open>\<open>Option<Result>\<close> to \<open>Result<Option>\<close>: \<open>map(..).transpose()\<close>.\<close>

fun map_transpose :: "('a \<Rightarrow> 'e + 'b) \<Rightarrow> 'a option \<Rightarrow> 'e + 'b option" where
  "map_transpose f None = Inr None"
| "map_transpose f (Some x) = and_then (f x) (\<lambda>y. Inr (Some y))"

lemma and_then_Inr [simp]: "and_then r f = Inr y \<longleftrightarrow> (\<exists>x. r = Inr x \<and> f x = Inr y)"
  by (cases r) auto

lemma collect_results_total:
  "(\<And>x. x \<in> set xs \<Longrightarrow> f x = Inr (g x)) \<Longrightarrow> collect_results f xs = Inr (map g xs)"
  by (induction xs) auto

lemma collect_results_Inr:
  "collect_results f xs = Inr ys \<Longrightarrow> length ys = length xs \<and> (\<forall>i < length xs. f (xs ! i) = Inr (ys ! i))"
  by (induction xs arbitrary: ys) (auto simp: nth_Cons split: nat.splits)

end
