(* ===== verification/Config_Types.thy ===== *)
theory Config_Types
  imports Prelude
begin

text \<open>
  The configuration types of \<open>src/src/config.rs\<close> that the other components use: priorities,
  workloads and their routes, pools and the workload-to-pool policy, backend configurations.
  The reading of the environment is in the theory \<open>Config\<close>.
\<close>

section \<open>Priorities\<close>

datatype priority = Realtime | Batch | Background

definition priority_default :: priority where
  "priority_default = Realtime"

fun priority_as_str :: "priority \<Rightarrow> string" where
  "priority_as_str Realtime = ''realtime''"
| "priority_as_str Batch = ''batch''"
| "priority_as_str Background = ''background''"

definition priority_parse :: "string \<Rightarrow> priority option" where
  "priority_parse value =
     (let v = to_lowercase (trim value) in
      if v = ''realtime'' then Some Realtime
      else if v = ''batch'' then Some Batch
      else if v = ''background'' then Some Background
      else None)"

text \<open>Priorities are ordered as the schedulers serve them.\<close>

fun priority_rank :: "priority \<Rightarrow> nat" where
  "priority_rank Realtime = 0"
| "priority_rank Batch = 1"
| "priority_rank Background = 2"

lemma priority_rank_inject [simp]: "priority_rank p = priority_rank q \<longleftrightarrow> p = q"
  by (cases p; cases q) simp_all

instantiation priority :: linorder
begin

definition less_eq_priority :: "priority \<Rightarrow> priority \<Rightarrow> bool" where
  "less_eq_priority p q \<longleftrightarrow> priority_rank p \<le> priority_rank q"

definition less_priority :: "priority \<Rightarrow> priority \<Rightarrow> bool" where
  "less_priority p q \<longleftrightarrow> priority_rank p < priority_rank q"

instance
  by standard (auto simp: less_eq_priority_def less_priority_def)

end

lemma priority_as_str_inject [simp]: "priority_as_str p = priority_as_str q \<longleftrightarrow> p = q"
  by (cases p; cases q) simp_all

lemma all_priorities: "p \<in> {Realtime, Batch, Background}"
  by (cases p) simp_all

section \<open>Workloads and routes\<close>

datatype workload_kind = ChatCompletions | Embeddings

datatype backend_pool_policy = Any | Named string

fun backend_pool_allows :: "backend_pool_policy \<Rightarrow> string \<Rightarrow> bool" where
  "backend_pool_allows Any pool = True"
| "backend_pool_allows (Named expected) pool = (pool = expected)"

record workload_route =
  route_kind :: workload_kind
  upstream_path :: string
  backend_pool :: backend_pool_policy
  retry_server_errors :: bool

definition default_proxy_workloads :: "workload_kind list" where
  "default_proxy_workloads = [ChatCompletions, Embeddings]"

fun workload_as_str :: "workload_kind \<Rightarrow> string" where
  "workload_as_str ChatCompletions = ''chat_completions''"
| "workload_as_str Embeddings = ''embeddings''"

fun route :: "workload_kind \<Rightarrow> workload_route" where
  "route ChatCompletions =
     \<lparr>route_kind = ChatCompletions, upstream_path = ''chat/completions'',
      backend_pool = Any, retry_server_errors = True\<rparr>"
| "route Embeddings =
     \<lparr>route_kind = Embeddings, upstream_path = ''embeddings'',
      backend_pool = Any, retry_server_errors = True\<rparr>"

section \<open>Pools\<close>

record pool_config =
  pool_id :: string

text \<open>\<open>BTreeMap<String, Vec<String>>\<close>: the policy of each workload that has one.\<close>

record workload_pool_policy =
  pools_by_workload :: "(string \<times> string list) list"

definition policy_new :: "(string \<times> string list) list \<Rightarrow> workload_pool_policy" where
  "policy_new m = \<lparr>pools_by_workload = m\<rparr>"

definition policy_default :: workload_pool_policy where
  "policy_default = \<lparr>pools_by_workload = []\<rparr>"

definition pools_for :: "workload_pool_policy \<Rightarrow> string \<Rightarrow> string list option" where
  "pools_for policy workload = map_of (pools_by_workload policy) workload"

definition allows :: "workload_pool_policy \<Rightarrow> string \<Rightarrow> string \<Rightarrow> bool" where
  "allows policy workload pool =
     (case map_of (pools_by_workload policy) workload of
        None \<Rightarrow> True
      | Some pools \<Rightarrow> list_ex (\<lambda>allowed. allowed = pool) pools)"

definition policy_len :: "workload_pool_policy \<Rightarrow> nat" where
  "policy_len policy = length (pools_by_workload policy)"

lemma allows_iff:
  "allows policy workload pool \<longleftrightarrow>
     (\<forall>pools. pools_for policy workload = Some pools \<longrightarrow> pool \<in> set pools)"
  by (auto simp: allows_def pools_for_def list_ex_iff split: option.splits)

lemma allows_default [simp]: "allows policy_default workload pool"
  by (simp add: allows_def policy_default_def)

section \<open>Backends\<close>

definition DEFAULT_BACKEND_POOL :: string where
  "DEFAULT_BACKEND_POOL = ''default''"

record backend_config =
  bc_id :: string
  bc_url :: string
  bc_node_id :: "string option"
  bc_pool :: string
  bc_workloads :: "workload_kind list"
  bc_health_path :: "string option"

definition from_legacy_url :: "nat \<Rightarrow> string \<Rightarrow> backend_config" where
  "from_legacy_url index url =
     \<lparr>bc_id = ''backend-'' @ nat_to_string index, bc_url = url, bc_node_id = None,
      bc_pool = DEFAULT_BACKEND_POOL, bc_workloads = default_proxy_workloads,
      bc_health_path = None\<rparr>"

declare policy_default_def [eval_defs] allows_def [eval_defs] policy_new_def [eval_defs]

end
