(* ===== verification/Job_Types.thy ===== *)
theory Job_Types
  imports Config_Types
begin

text \<open>
  The data of the async job API, \<open>src/src/jobs.rs\<close>: job kinds and states, requests, records
  and reports. The type variable \<open>'v\<close> stands for \<open>serde_json::Value\<close>, of which the program
  only uses equality. Times are milliseconds since the Unix epoch, read by the caller and
  passed to each operation.
\<close>

section \<open>Kinds and states\<close>

datatype job_kind = VisionAnalysis | EmbedBatch | IndexBuild | Cluster

fun kind_as_str :: "job_kind \<Rightarrow> string" where
  "kind_as_str VisionAnalysis = ''vision_analysis''"
| "kind_as_str EmbedBatch = ''embed_batch''"
| "kind_as_str IndexBuild = ''index_build''"
| "kind_as_str Cluster = ''cluster''"

datatype job_status = Queued | Running | Complete | Failed | Cancelled

fun is_terminal :: "job_status \<Rightarrow> bool" where
  "is_terminal Complete = True"
| "is_terminal Failed = True"
| "is_terminal Cancelled = True"
| "is_terminal _ = False"

fun status_as_str :: "job_status \<Rightarrow> string" where
  "status_as_str Queued = ''queued''"
| "status_as_str Running = ''running''"
| "status_as_str Complete = ''complete''"
| "status_as_str Failed = ''failed''"
| "status_as_str Cancelled = ''cancelled''"

lemma kind_as_str_inject [simp]: "kind_as_str a = kind_as_str b \<longleftrightarrow> a = b"
  by (cases a; cases b) simp_all

lemma status_as_str_inject [simp]: "status_as_str a = status_as_str b \<longleftrightarrow> a = b"
  by (cases a; cases b) simp_all

text \<open>The ranks by which the metric snapshots are sorted.\<close>

definition priority_str_rank :: "string \<Rightarrow> nat" where
  "priority_str_rank s =
     (if s = ''realtime'' then 0 else if s = ''batch'' then 1
      else if s = ''background'' then 2 else 3)"

definition kind_rank :: "string \<Rightarrow> nat" where
  "kind_rank s =
     (if s = ''vision_analysis'' then 0 else if s = ''embed_batch'' then 1
      else if s = ''index_build'' then 2 else if s = ''cluster'' then 3 else 4)"

definition status_rank :: "string \<Rightarrow> nat" where
  "status_rank s =
     (if s = ''queued'' then 0 else if s = ''running'' then 1 else if s = ''complete'' then 2
      else if s = ''failed'' then 3 else if s = ''cancelled'' then 4 else 5)"

section \<open>Requests\<close>

record 'v submit_job_request =
  req_kind :: job_kind
  req_priority :: priority
  req_payload :: 'v
  req_callback_url :: "string option"
  req_idempotency_key :: "string option"

section \<open>Records\<close>

datatype job_callback_status = Pending | Delivered

fun callback_status_as_str :: "job_callback_status \<Rightarrow> string" where
  "callback_status_as_str Pending = ''pending''"
| "callback_status_as_str Delivered = ''delivered''"

record job_callback_state =
  cb_status :: job_callback_status
  cb_attempts :: nat
  cb_last_attempt_at :: "nat option"
  cb_delivered_at :: "nat option"
  cb_last_http_status :: "nat option"
  cb_last_error :: "string option"

record job_failure =
  message :: string
  retryable :: bool

record job_lease =
  lease_worker_id :: string
  lease_attempt :: nat
  lease_claimed_at :: nat
  lease_expires_at :: nat

record job_terminal_attempt =
  ta_worker_id :: string
  ta_attempt :: nat

record 'v job_record =
  job_id :: string
  job_kind :: job_kind
  job_priority :: priority
  job_status :: job_status
  payload :: 'v
  callback_url :: "string option"
  idempotency_key :: "string option"
  job_result :: "'v option"
  job_error :: "job_failure option"
  job_callback :: "job_callback_state option"
  attempts :: nat
  max_attempts :: nat
  job_lease :: "job_lease option"
  terminal_attempt :: "job_terminal_attempt option"
  created_at :: nat
  updated_at :: nat

definition ATTEMPT_TIMEOUT_ERROR :: string where
  "ATTEMPT_TIMEOUT_ERROR = ''attempt timed out''"

section \<open>Reports\<close>

record job_retention_policy =
  terminal_retention_ms :: nat
  max_pruned_jobs :: nat

definition retention_default :: job_retention_policy where
  "retention_default = \<lparr>terminal_retention_ms = 86400000, max_pruned_jobs = 1000\<rparr>"

record job_prune_status_snapshot =
  ps_status :: string
  ps_removed :: nat

record job_prune_report =
  removed :: nat
  retained_pending_callbacks :: nat
  by_status :: "job_prune_status_snapshot list"

definition prune_report_default :: job_prune_report where
  "prune_report_default = \<lparr>removed = 0, retained_pending_callbacks = 0, by_status = []\<rparr>"

definition record_removed :: "job_status \<Rightarrow> job_prune_report \<Rightarrow> job_prune_report" where
  "record_removed st report =
     report\<lparr>removed := removed report + 1,
       by_status := upsert (\<lambda>s. ps_status s = status_as_str st)
         (\<lambda>s. s\<lparr>ps_removed := ps_removed s + 1\<rparr>)
         \<lparr>ps_status = status_as_str st, ps_removed = 1\<rparr> (by_status report)\<rparr>"

record 'v lease_expiry_report =
  requeued :: nat
  failed :: nat
  released_workers :: "string list"
  failed_jobs :: "'v job_record list"

definition expiry_report_default :: "'v lease_expiry_report" where
  "expiry_report_default =
     \<lparr>requeued = 0, failed = 0, released_workers = [], failed_jobs = []\<rparr>"

section \<open>Results of the registry's operations\<close>

datatype 'v cancel_job_result =
    Cancel_Cancelled "'v job_record"
  | Cancel_AlreadyTerminal "'v job_record"
  | Cancel_NotFound

datatype 'v renew_job_lease_result =
    Renew_Renewed "'v job_record"
  | Renew_NotRunning "'v job_record"
  | Renew_LeaseNotHeld "'v job_record"
  | Renew_Expired "'v job_record"
  | Renew_NotFound

datatype 'v finish_job_result =
    Finish_Completed "'v job_record"
  | Finish_IdempotentCompleted "'v job_record"
  | Finish_Requeued "'v job_record"
  | Finish_Failed "'v job_record"
  | Finish_IdempotentFailed "'v job_record"
  | Finish_NotRunning "'v job_record"
  | Finish_LeaseNotHeld "'v job_record"
  | Finish_Expired "'v job_record"
  | Finish_NotFound

end
