(* ===== verification/Job_Queues.thy ===== *)
theory Job_Queues
  imports Job_Types
begin

text \<open>
  \<open>JobQueues\<close> of \<open>src/src/jobs.rs\<close>: one FIFO queue of job ids per priority. The locale
  \<open>keyed_queues\<close> is the contract the job registry uses: how the queue of each key changes
  when an entry is pushed at its back or dropped from it.
\<close>

section \<open>The interface\<close>

locale keyed_queues =
  fixes contents :: "'k \<Rightarrow> 'q \<Rightarrow> 'a list"
    and push :: "'k \<Rightarrow> 'a \<Rightarrow> 'q \<Rightarrow> 'q"
    and drop_entry :: "'k \<Rightarrow> 'a \<Rightarrow> 'q \<Rightarrow> 'q"
  assumes contents_push:
      "contents k (push k' x q) = (if k = k' then contents k q @ [x] else contents k q)"
    and contents_drop:
      "contents k (drop_entry k' x q) =
         (if k = k' then remove1 x (contents k q) else contents k q)"
begin

text \<open>
  The queues hold exactly the sets \<open>S k\<close>, each entry once: pushing a new entry and dropping
  an entry keep this.
\<close>

lemma push_holds:
  assumes "\<And>k. distinct (contents k q) \<and> set (contents k q) = S k" and "x \<notin> S k'"
  shows "distinct (contents k (push k' x q)) \<and>
         set (contents k (push k' x q)) = (S(k' := insert x (S k'))) k"
  using assms by (auto simp: contents_push)

lemma drop_holds:
  assumes "\<And>k. distinct (contents k q) \<and> set (contents k q) = S k"
  shows "distinct (contents k (drop_entry k' x q)) \<and>
         set (contents k (drop_entry k' x q)) = (S(k' := S k' - {x})) k"
  using assms by (auto simp: contents_drop set_remove1_distinct)

text \<open>Pushing a list of entries in order.\<close>

lemma contents_fold_push:
  "contents k (fold (\<lambda>(k', x) q. push k' x q) es q) =
     contents k q @ map snd (filter (\<lambda>e. fst e = k) es)"
  by (induction es arbitrary: q) (auto simp: contents_push)

lemma contents_fold_drop:
  "contents k (fold (\<lambda>(k', x) q. drop_entry k' x q) es q) =
     fold remove1 (map snd (filter (\<lambda>e. fst e = k) es)) (contents k q)"
  by (induction es arbitrary: q) (auto simp: contents_drop)

lemma drop_absent: "x \<notin> set (contents k q) \<Longrightarrow> contents k' (drop_entry k x q) = contents k' q"
  by (auto simp: contents_drop remove1_idem)

end

section \<open>The queues of the registry\<close>

record job_queues =
  q_realtime :: "string list"
  q_batch :: "string list"
  q_background :: "string list"

definition queues_default :: job_queues where
  "queues_default = \<lparr>q_realtime = [], q_batch = [], q_background = []\<rparr>"

fun for_priority :: "priority \<Rightarrow> job_queues \<Rightarrow> string list" where
  "for_priority Realtime qs = q_realtime qs"
| "for_priority Batch qs = q_batch qs"
| "for_priority Background qs = q_background qs"

text \<open>An update through \<open>for_priority_mut\<close>.\<close>

fun for_priority_mut :: "priority \<Rightarrow> (string list \<Rightarrow> string list) \<Rightarrow> job_queues \<Rightarrow> job_queues" where
  "for_priority_mut Realtime f qs = qs\<lparr>q_realtime := f (q_realtime qs)\<rparr>"
| "for_priority_mut Batch f qs = qs\<lparr>q_batch := f (q_batch qs)\<rparr>"
| "for_priority_mut Background f qs = qs\<lparr>q_background := f (q_background qs)\<rparr>"

definition queues_iter :: "job_queues \<Rightarrow> (priority \<times> string list) list" where
  "queues_iter qs =
     [(Realtime, q_realtime qs), (Batch, q_batch qs), (Background, q_background qs)]"

definition push_back :: "priority \<Rightarrow> string \<Rightarrow> job_queues \<Rightarrow> job_queues" where
  "push_back p jid qs = for_priority_mut p (\<lambda>q. q @ [jid]) qs"

text \<open>\<open>iter().position(..)\<close>, then \<open>VecDeque::remove\<close> at that position.\<close>

definition position :: "('a \<Rightarrow> bool) \<Rightarrow> 'a list \<Rightarrow> nat option" where
  "position P xs = find (\<lambda>i. P (xs ! i)) [0..<length xs]"

definition remove_at :: "nat \<Rightarrow> 'a list \<Rightarrow> 'a list" where
  "remove_at i xs = take i xs @ drop (Suc i) xs"

definition queues_remove :: "priority \<Rightarrow> string \<Rightarrow> job_queues \<Rightarrow> job_queues" where
  "queues_remove p jid qs =
     for_priority_mut p
       (\<lambda>q. case position (\<lambda>queued_id. queued_id = jid) q of
              None \<Rightarrow> q | Some pos \<Rightarrow> remove_at pos q) qs"

lemma position_Cons:
  "position P (x # xs) = (if P x then Some 0 else map_option Suc (position P xs))"
proof -
  have "find (\<lambda>i. P ((x # xs) ! i)) (map Suc is) = map_option Suc (find (\<lambda>i. P (xs ! i)) is)" for "is"
    by (induction "is") auto
  moreover have "[0..<length (x # xs)] = 0 # map Suc [0..<length xs]"
    using upt_conv_Cons [of 0 "length (x # xs)"] by (simp add: map_Suc_upt del: upt_Suc)
  ultimately show ?thesis
    unfolding position_def by (metis (no_types, lifting) find.simps(2) nth_Cons_0)
qed

lemma remove_at_position:
  "(case position (\<lambda>y. y = x) xs of None \<Rightarrow> xs | Some i \<Rightarrow> remove_at i xs) = remove1 x xs"
proof (induction xs)
  case (Cons y ys)
  then show ?case
    by (auto simp: position_Cons remove_at_def split: option.splits)
qed (simp add: position_def)

lemma for_priority_mut [simp]:
  "for_priority p (for_priority_mut p' f qs) = (if p = p' then f (for_priority p qs) else for_priority p qs)"
  by (cases p; cases p') simp_all

interpretation jq: keyed_queues for_priority push_back queues_remove
  by unfold_locales (auto simp: push_back_def queues_remove_def remove_at_position)

lemmas queue_simps [simp] = jq.contents_push jq.contents_drop

text \<open>\<open>queues_iter\<close> lists the queues in the order of the priorities.\<close>

lemma queues_iter_eq: "queues_iter qs = map (\<lambda>p. (p, for_priority p qs)) [Realtime, Batch, Background]"
  by (simp add: queues_iter_def)

lemma for_priority_default [simp]: "for_priority p queues_default = []"
  by (cases p) (simp_all add: queues_default_def)

text \<open>All queued ids in the order in which the scheduler looks at them.\<close>

definition scan_order :: "job_queues \<Rightarrow> string list" where
  "scan_order qs = concat (map snd (queues_iter qs))"

lemma scan_order_eq:
  "scan_order qs = for_priority Realtime qs @ for_priority Batch qs @ for_priority Background qs"
  by (simp add: scan_order_def queues_iter_def)

lemma set_scan_order: "set (scan_order qs) = (\<Union>p. set (for_priority p qs))"
proof -
  have u: "(UNIV :: priority set) = {Realtime, Batch, Background}"
    using all_priorities by blast
  show ?thesis unfolding u by (simp add: scan_order_eq Un_assoc)
qed

declare queues_default_def [eval_defs] queues_iter_def [eval_defs] push_back_def [eval_defs]
  queues_remove_def [eval_defs] position_def [eval_defs] remove_at_def [eval_defs]

end
