(* ===== verification/Jobs.thy ===== *)
theory Jobs
  imports Job_Queues
begin

text \<open>
  The job registry, \<open>src/src/jobs.rs\<close>. Every public method of \<open>JobRegistry\<close> takes the write
  lock for its whole body, so it is one atomic function of the registry. The registry is the
  record \<open>job_registry\<close>: the guarded \<open>inner\<close> state, the optional durable store and the
  retention policy. The store is reached only through the parameter \<open>db\<close>, which stands for
  \<open>SqliteJobStore::replace_registry_snapshot\<close>: \<open>Inr\<close> the new content of the store, or \<open>Inl\<close> the
  error the call returns (theory \<open>Storage\<close> defines it). \<open>now\<close> is the value \<open>unix_ms()\<close> returns.
\<close>

section \<open>State\<close>

record 'v job_registry_inner =
  next_id :: nat
  jobs :: "string \<Rightarrow> 'v job_record option"
  idempotency_keys :: "string \<Rightarrow> string option"
  job_order :: "string list"
  queues :: job_queues

record ('v, 's) job_registry =
  inner :: "'v job_registry_inner"
  store :: "'s option"
  retention_policy :: job_retention_policy

type_synonym ('v, 's) persist = "'v job_registry_inner \<Rightarrow> 's \<Rightarrow> string + 's"

definition inner_default :: "'v job_registry_inner" where
  "inner_default =
     \<lparr>next_id = 0, jobs = Map.empty, idempotency_keys = Map.empty, job_order = [],
      queues = queues_default\<rparr>"

definition registry_new :: "job_retention_policy \<Rightarrow> ('v, 's) job_registry" where
  "registry_new policy = \<lparr>inner = inner_default, store = None, retention_policy = policy\<rparr>"

text \<open>A write through \<open>jobs.get_mut(id)\<close>.\<close>

definition put_job :: "string \<Rightarrow> 'v job_record \<Rightarrow> 'v job_registry_inner \<Rightarrow> 'v job_registry_inner" where
  "put_job jid job i = i\<lparr>jobs := (jobs i)(jid \<mapsto> job)\<rparr>"

text \<open>\<open>persist_locked\<close>: \<open>None\<close> is \<open>Ok(())\<close>, \<open>Some e\<close> the text of the error.\<close>

definition persist_locked ::
  "('v, 's) persist \<Rightarrow> ('v, 's) job_registry \<Rightarrow> ('v, 's) job_registry \<times> string option" where
  "persist_locked db reg =
     (case store reg of
        None \<Rightarrow> (reg, None)
      | Some s \<Rightarrow>
          (case db (inner reg) s of
             Inl e \<Rightarrow> (reg, Some e)
           | Inr s' \<Rightarrow> (reg\<lparr>store := Some s'\<rparr>, None)))"

text \<open>Every mutating method ends like this: the new inner state is kept, then persisted.\<close>

definition commit ::
  "('v, 's) persist \<Rightarrow> ('v, 's) job_registry \<Rightarrow> 'v job_registry_inner \<Rightarrow> 'r \<Rightarrow> (string \<Rightarrow> 'r)
     \<Rightarrow> ('v, 's) job_registry \<times> 'r" where
  "commit db reg i ok err =
     (case persist_locked db (reg\<lparr>inner := i\<rparr>) of
        (reg', None) \<Rightarrow> (reg', ok)
      | (reg', Some e) \<Rightarrow> (reg', err e))"

section \<open>Submission\<close>

definition normalize_callback_url :: "string option \<Rightarrow> string + string option" where
  "normalize_callback_url raw =
     (case raw of
        None \<Rightarrow> Inr None
      | Some url \<Rightarrow>
          let trimmed = trim url in
          if trimmed = [] then Inl ''callback_url cannot be empty'' else Inr (Some trimmed))"

definition normalize_idempotency_key :: "string option \<Rightarrow> string + string option" where
  "normalize_idempotency_key key =
     (case key of
        None \<Rightarrow> Inr None
      | Some k \<Rightarrow>
          let trimmed = trim k in
          if trimmed = [] then Inl ''idempotency_key cannot be empty''
          else if length trimmed > 256 then Inl ''idempotency_key cannot exceed 256 bytes''
          else Inr (Some trimmed))"

definition same_request :: "'v job_record \<Rightarrow> 'v submit_job_request \<Rightarrow> string option \<Rightarrow> bool" where
  "same_request existing request url \<longleftrightarrow>
     job_kind existing = req_kind request \<and> job_priority existing = req_priority request \<and>
     payload existing = req_payload request \<and> callback_url existing = url"

definition job_id_of :: "nat \<Rightarrow> string" where
  "job_id_of n = ''job-'' @ nat_to_string n"

definition new_job ::
  "nat \<Rightarrow> nat \<Rightarrow> 'v submit_job_request \<Rightarrow> string option \<Rightarrow> string option \<Rightarrow> 'v job_record" where
  "new_job now n request url key =
     \<lparr>job_id = job_id_of n, job_kind = req_kind request, job_priority = req_priority request,
      job_status = Queued, payload = req_payload request, callback_url = url,
      idempotency_key = key, job_result = None, job_error = None, job_callback = None,
      attempts = 0, max_attempts = 3, job_lease = None, terminal_attempt = None,
      created_at = now, updated_at = now\<rparr>"

definition insert_new_job ::
  "nat \<Rightarrow> 'v submit_job_request \<Rightarrow> string option \<Rightarrow> string option \<Rightarrow> 'v job_registry_inner
     \<Rightarrow> 'v job_registry_inner \<times> 'v job_record" where
  "insert_new_job now request url key i =
     (let n = next_id i + 1;
          job = new_job now n request url key;
          keys = (case key of None \<Rightarrow> idempotency_keys i
                  | Some k \<Rightarrow> (idempotency_keys i)(k \<mapsto> job_id job))
      in (i\<lparr>next_id := n, jobs := (jobs i)(job_id job \<mapsto> job), idempotency_keys := keys,
            job_order := job_order i @ [job_id job],
            queues := push_back (job_priority job) (job_id job) (queues i)\<rparr>, job))"

definition submit ::
  "('v, 's) persist \<Rightarrow> nat \<Rightarrow> 'v submit_job_request \<Rightarrow> ('v, 's) job_registry
     \<Rightarrow> ('v, 's) job_registry \<times> (string + 'v job_record)" where
  "submit db now request reg =
     (case normalize_callback_url (req_callback_url request) of
        Inl e \<Rightarrow> (reg, Inl e)
      | Inr url \<Rightarrow>
     (case normalize_idempotency_key (req_idempotency_key request) of
        Inl e \<Rightarrow> (reg, Inl e)
      | Inr key \<Rightarrow>
          let i = inner reg;
              fresh = (\<lambda>i. case insert_new_job now request url key i of
                             (i', job) \<Rightarrow> commit db reg i' (Inr job) Inl)
          in (case key of
                None \<Rightarrow> fresh i
              | Some k \<Rightarrow>
                  (case idempotency_keys i k of
                     None \<Rightarrow> fresh i
                   | Some existing_id \<Rightarrow>
                       (case jobs i existing_id of
                          None \<Rightarrow> fresh (i\<lparr>idempotency_keys := (idempotency_keys i)(k := None)\<rparr>)
                        | Some existing \<Rightarrow>
                            if same_request existing request url then (reg, Inr existing)
                            else (reg, Inl ''idempotency_key already used for a different job request''))))))"

section \<open>Reads\<close>

definition get_job_record :: "string \<Rightarrow> ('v, 's) job_registry \<Rightarrow> 'v job_record option" where
  "get_job_record jid reg = jobs (inner reg) jid"

definition list_jobs :: "('v, 's) job_registry \<Rightarrow> 'v job_record list" where
  "list_jobs reg = List.map_filter (jobs (inner reg)) (job_order (inner reg))"

definition queued_jobs_by_priority :: "('v, 's) job_registry \<Rightarrow> 'v job_record list" where
  "queued_jobs_by_priority reg =
     concat (map (\<lambda>(_, queue).
       List.map_filter (\<lambda>jid. case jobs (inner reg) jid of
           None \<Rightarrow> None
         | Some job \<Rightarrow> if job_status job = Queued then Some job else None) queue)
       (queues_iter (queues (inner reg))))"

definition callback_pending :: "'v job_record \<Rightarrow> bool" where
  "callback_pending job \<longleftrightarrow>
     (case job_callback job of None \<Rightarrow> False | Some cb \<Rightarrow> cb_status cb = Pending)"

definition pending_callback_jobs :: "('v, 's) job_registry \<Rightarrow> 'v job_record list" where
  "pending_callback_jobs reg =
     filter callback_pending
       (filter (\<lambda>job. callback_url job \<noteq> None \<and> is_terminal (job_status job)) (list_jobs reg))"

section \<open>Callback bookkeeping\<close>

definition callback_delivered :: "'v job_record \<Rightarrow> bool" where
  "callback_delivered job \<longleftrightarrow>
     (case job_callback job of None \<Rightarrow> False | Some cb \<Rightarrow> cb_status cb = Delivered)"

definition fresh_callback :: job_callback_state where
  "fresh_callback =
     \<lparr>cb_status = Pending, cb_attempts = 0, cb_last_attempt_at = None, cb_delivered_at = None,
      cb_last_http_status = None, cb_last_error = None\<rparr>"

definition prepare_callback :: "'v job_record \<Rightarrow> 'v job_record" where
  "prepare_callback job =
     (if callback_url job = None \<or> \<not> is_terminal (job_status job) then job
      else if callback_delivered job then job
      else
        let cb = (case job_callback job of None \<Rightarrow> fresh_callback | Some cb \<Rightarrow> cb)
        in job\<lparr>job_callback := Some (cb\<lparr>cb_status := Pending, cb_delivered_at := None,
             cb_last_error := None, cb_last_http_status := None\<rparr>)\<rparr>)"

definition begin_callback_attempt ::
  "('v, 's) persist \<Rightarrow> nat \<Rightarrow> string \<Rightarrow> ('v, 's) job_registry
     \<Rightarrow> ('v, 's) job_registry \<times> 'v job_record option" where
  "begin_callback_attempt db now jid reg =
     (case jobs (inner reg) jid of
        None \<Rightarrow> (reg, None)
      | Some job \<Rightarrow>
          if callback_url job = None \<or> \<not> is_terminal (job_status job) then (reg, None)
          else (case job_callback job of
             None \<Rightarrow> (reg, None)
           | Some cb \<Rightarrow>
               if cb_status cb \<noteq> Pending then (reg, None)
               else
                 let job' = job\<lparr>job_callback := Some (cb\<lparr>cb_attempts := cb_attempts cb + 1,
                       cb_last_attempt_at := Some now\<rparr>)\<rparr>
                 in commit db reg (put_job jid job' (inner reg)) (Some job') (\<lambda>_. None)))"

definition record_callback_success ::
  "('v, 's) persist \<Rightarrow> nat \<Rightarrow> string \<Rightarrow> nat \<Rightarrow> ('v, 's) job_registry
     \<Rightarrow> ('v, 's) job_registry \<times> 'v job_record option" where
  "record_callback_success db now jid http_status reg =
     (case jobs (inner reg) jid of
        None \<Rightarrow> (reg, None)
      | Some job \<Rightarrow>
          (case job_callback job of
             None \<Rightarrow> (reg, None)
           | Some cb \<Rightarrow>
               let job' = job\<lparr>job_callback := Some (cb\<lparr>cb_status := Delivered,
                     cb_delivered_at := Some now, cb_last_http_status := Some http_status,
                     cb_last_error := None\<rparr>)\<rparr>
               in commit db reg (put_job jid job' (inner reg)) (Some job') (\<lambda>_. None)))"

definition record_callback_failure ::
  "('v, 's) persist \<Rightarrow> string \<Rightarrow> nat option \<Rightarrow> string option \<Rightarrow> ('v, 's) job_registry
     \<Rightarrow> ('v, 's) job_registry \<times> 'v job_record option" where
  "record_callback_failure db jid http_status err reg =
     (case jobs (inner reg) jid of
        None \<Rightarrow> (reg, None)
      | Some job \<Rightarrow>
          (case job_callback job of
             None \<Rightarrow> (reg, None)
           | Some cb \<Rightarrow>
               if cb_status cb \<noteq> Pending then (reg, None)
               else
                 let job' = job\<lparr>job_callback := Some (cb\<lparr>cb_last_http_status := http_status,
                       cb_last_error := err\<rparr>)\<rparr>
                 in commit db reg (put_job jid job' (inner reg)) (Some job') (\<lambda>_. None)))"


section \<open>Claiming\<close>

definition claimable ::
  "job_kind list \<Rightarrow> string \<Rightarrow> workload_pool_policy \<Rightarrow> 'v job_record \<Rightarrow> bool" where
  "claimable worker_job_types worker_pool workload_pools job \<longleftrightarrow>
     job_status job = Queued \<and> job_kind job \<in> set worker_job_types \<and>
     allows workload_pools (kind_as_str (job_kind job)) worker_pool"

definition next_claimable ::
  "job_kind list \<Rightarrow> string \<Rightarrow> workload_pool_policy \<Rightarrow> 'v job_registry_inner \<Rightarrow> string option" where
  "next_claimable worker_job_types worker_pool workload_pools i =
     find_map (\<lambda>(_, queue).
       find_map (\<lambda>jid. case jobs i jid of
           None \<Rightarrow> None
         | Some job \<Rightarrow>
             if claimable worker_job_types worker_pool workload_pools job then Some jid else None)
         queue) (queues_iter (queues i))"

definition claim_job :: "nat \<Rightarrow> string \<Rightarrow> nat \<Rightarrow> 'v job_record \<Rightarrow> 'v job_record" where
  "claim_job now worker_id lease_duration_ms job =
     job\<lparr>job_status := Running, attempts := attempts job + 1, job_result := None,
       terminal_attempt := None,
       job_lease := Some \<lparr>lease_worker_id = worker_id, lease_attempt = attempts job + 1,
         lease_claimed_at = now, lease_expires_at = now + lease_duration_ms\<rparr>,
       updated_at := now\<rparr>"

definition claim_next_for_worker_in_pool ::
  "('v, 's) persist \<Rightarrow> nat \<Rightarrow> string \<Rightarrow> job_kind list \<Rightarrow> string \<Rightarrow> workload_pool_policy \<Rightarrow> nat
     \<Rightarrow> ('v, 's) job_registry \<Rightarrow> ('v, 's) job_registry \<times> 'v job_record option" where
  "claim_next_for_worker_in_pool db now worker_id worker_job_types worker_pool workload_pools
       lease_duration_ms reg =
     (case next_claimable worker_job_types worker_pool workload_pools (inner reg) of
        None \<Rightarrow> (reg, None)
      | Some jid \<Rightarrow>
          (case jobs (inner reg) jid of
             None \<Rightarrow> (reg, None)
           | Some job \<Rightarrow>
               let job' = claim_job now worker_id lease_duration_ms job;
                   i = (put_job jid job' (inner reg))
                         \<lparr>queues := queues_remove (job_priority job) jid (queues (inner reg))\<rparr>
               in commit db reg i (Some job') (\<lambda>_. None)))"

definition claim_next_for_worker ::
  "('v, 's) persist \<Rightarrow> nat \<Rightarrow> string \<Rightarrow> job_kind list \<Rightarrow> nat
     \<Rightarrow> ('v, 's) job_registry \<Rightarrow> ('v, 's) job_registry \<times> 'v job_record option" where
  "claim_next_for_worker db now worker_id worker_job_types lease_duration_ms reg =
     claim_next_for_worker_in_pool db now worker_id worker_job_types ''default'' policy_default
       lease_duration_ms reg"

section \<open>Leases: renewal, completion, failure\<close>

definition renew_lease ::
  "('v, 's) persist \<Rightarrow> nat \<Rightarrow> string \<Rightarrow> string \<Rightarrow> nat \<Rightarrow> ('v, 's) job_registry
     \<Rightarrow> ('v, 's) job_registry \<times> 'v renew_job_lease_result" where
  "renew_lease db now jid worker_id lease_duration_ms reg =
     (case jobs (inner reg) jid of
        None \<Rightarrow> (reg, Renew_NotFound)
      | Some job \<Rightarrow>
          if job_status job \<noteq> Running then (reg, Renew_NotRunning job)
          else (case job_lease job of
             None \<Rightarrow> (reg, Renew_NotRunning job)
           | Some lease \<Rightarrow>
               if lease_worker_id lease \<noteq> worker_id then (reg, Renew_LeaseNotHeld job)
               else if lease_expires_at lease \<le> now then (reg, Renew_Expired job)
               else
                 let job' = job\<lparr>job_lease := Some (lease\<lparr>lease_expires_at := now + lease_duration_ms\<rparr>),
                       updated_at := now\<rparr>
                 in commit db reg (put_job jid job' (inner reg)) (Renew_Renewed job')
                      (\<lambda>_. Renew_NotFound)))"

definition terminal_attempt_matches :: "'v job_record \<Rightarrow> string \<Rightarrow> nat option \<Rightarrow> bool" where
  "terminal_attempt_matches job worker_id att =
     (case att of
        None \<Rightarrow> False
      | Some reported_attempt \<Rightarrow>
          (case terminal_attempt job of
             None \<Rightarrow> False
           | Some term \<Rightarrow> ta_worker_id term = worker_id \<and> ta_attempt term = reported_attempt))"

definition attempt_differs :: "nat option \<Rightarrow> job_lease \<Rightarrow> bool" where
  "attempt_differs att lease \<longleftrightarrow>
     (case att of None \<Rightarrow> False | Some reported \<Rightarrow> reported \<noteq> lease_attempt lease)"

definition completed_job :: "nat \<Rightarrow> string \<Rightarrow> job_lease \<Rightarrow> 'v \<Rightarrow> 'v job_record \<Rightarrow> 'v job_record" where
  "completed_job now worker_id lease result job =
     prepare_callback (job\<lparr>job_status := Complete, job_result := Some result, job_error := None,
       job_lease := None,
       terminal_attempt := Some \<lparr>ta_worker_id = worker_id, ta_attempt = lease_attempt lease\<rparr>,
       updated_at := now\<rparr>)"

definition complete_lease ::
  "('v, 's) persist \<Rightarrow> nat \<Rightarrow> string \<Rightarrow> string \<Rightarrow> nat option \<Rightarrow> 'v \<Rightarrow> ('v, 's) job_registry
     \<Rightarrow> ('v, 's) job_registry \<times> 'v finish_job_result" where
  "complete_lease db now jid worker_id att result reg =
     (case jobs (inner reg) jid of
        None \<Rightarrow> (reg, Finish_NotFound)
      | Some job \<Rightarrow>
          if job_status job \<noteq> Running then
            (if job_status job = Complete \<and> terminal_attempt_matches job worker_id att \<and>
                job_result job = Some result
             then (reg, Finish_IdempotentCompleted job)
             else (reg, Finish_NotRunning job))
          else (case job_lease job of
             None \<Rightarrow> (reg, Finish_NotRunning job)
           | Some lease \<Rightarrow>
               if lease_worker_id lease \<noteq> worker_id then (reg, Finish_LeaseNotHeld job)
               else if attempt_differs att lease then (reg, Finish_LeaseNotHeld job)
               else if lease_expires_at lease \<le> now then (reg, Finish_Expired job)
               else
                 let job' = completed_job now worker_id lease result job
                 in commit db reg (put_job jid job' (inner reg)) (Finish_Completed job')
                      (\<lambda>_. Finish_NotFound)))"

definition failed_attempt :: "nat \<Rightarrow> job_failure \<Rightarrow> 'v job_record \<Rightarrow> 'v job_record" where
  "failed_attempt now failure job =
     job\<lparr>job_result := None, job_error := Some failure, job_lease := None, updated_at := now\<rparr>"

definition requeue_job :: "'v job_record \<Rightarrow> 'v job_record" where
  "requeue_job job = job\<lparr>job_status := Queued, terminal_attempt := None\<rparr>"

definition fail_job :: "string \<Rightarrow> nat \<Rightarrow> 'v job_record \<Rightarrow> 'v job_record" where
  "fail_job worker_id att job =
     prepare_callback (job\<lparr>job_status := Failed,
       terminal_attempt := Some \<lparr>ta_worker_id = worker_id, ta_attempt = att\<rparr>\<rparr>)"

definition fail_lease ::
  "('v, 's) persist \<Rightarrow> nat \<Rightarrow> string \<Rightarrow> string \<Rightarrow> nat option \<Rightarrow> job_failure \<Rightarrow> ('v, 's) job_registry
     \<Rightarrow> ('v, 's) job_registry \<times> 'v finish_job_result" where
  "fail_lease db now jid worker_id att failure reg =
     (case jobs (inner reg) jid of
        None \<Rightarrow> (reg, Finish_NotFound)
      | Some job \<Rightarrow>
          if job_status job \<noteq> Running then
            (if job_status job = Failed \<and> terminal_attempt_matches job worker_id att \<and>
                job_error job = Some failure
             then (reg, Finish_IdempotentFailed job)
             else (reg, Finish_NotRunning job))
          else (case job_lease job of
             None \<Rightarrow> (reg, Finish_NotRunning job)
           | Some lease \<Rightarrow>
               if lease_worker_id lease \<noteq> worker_id then (reg, Finish_LeaseNotHeld job)
               else if attempt_differs att lease then (reg, Finish_LeaseNotHeld job)
               else if lease_expires_at lease \<le> now then (reg, Finish_Expired job)
               else
                 let job1 = failed_attempt now failure job in
                 if retryable failure \<and> attempts job1 < max_attempts job1 then
                   let job' = requeue_job job1;
                       i = (put_job jid job' (inner reg))
                             \<lparr>queues := push_back (job_priority job1) (job_id job1) (queues (inner reg))\<rparr>
                   in commit db reg i (Finish_Requeued job') (\<lambda>_. Finish_NotFound)
                 else
                   let job' = fail_job worker_id (lease_attempt lease) job1
                   in commit db reg (put_job jid job' (inner reg)) (Finish_Failed job')
                        (\<lambda>_. Finish_NotFound)))"

definition cancelled_job :: "nat \<Rightarrow> 'v job_record \<Rightarrow> 'v job_record" where
  "cancelled_job now job =
     prepare_callback (job\<lparr>job_status := Cancelled, updated_at := now, terminal_attempt := None\<rparr>)"

definition cancel ::
  "('v, 's) persist \<Rightarrow> nat \<Rightarrow> string \<Rightarrow> ('v, 's) job_registry
     \<Rightarrow> ('v, 's) job_registry \<times> 'v cancel_job_result" where
  "cancel db now jid reg =
     (case jobs (inner reg) jid of
        None \<Rightarrow> (reg, Cancel_NotFound)
      | Some job \<Rightarrow>
          if is_terminal (job_status job) then (reg, Cancel_AlreadyTerminal job)
          else
            let job' = cancelled_job now job;
                i = (put_job jid job' (inner reg))
                      \<lparr>queues := queues_remove (job_priority job) jid (queues (inner reg))\<rparr>
            in commit db reg i (Cancel_Cancelled job') (\<lambda>_. Cancel_NotFound))"


section \<open>Expired leases\<close>

text \<open>
  \<open>requeue_expired_leases_locked\<close>: a pass over the jobs in submission order that changes each
  running job whose lease has expired, collecting the report and the jobs to requeue; then
  the requeued jobs are pushed, unless their queue already has them.
\<close>

definition expired_attempt :: "nat \<Rightarrow> 'v job_record \<Rightarrow> 'v job_record" where
  "expired_attempt now job =
     job\<lparr>job_result := None,
       job_error := Some \<lparr>message = ATTEMPT_TIMEOUT_ERROR,
                          retryable = (attempts job < max_attempts job)\<rparr>,
       job_lease := None, updated_at := now\<rparr>"

definition expire_step ::
  "nat \<Rightarrow> string \<Rightarrow> 'v job_registry_inner \<times> 'v lease_expiry_report \<times> (priority \<times> string) list
     \<Rightarrow> 'v job_registry_inner \<times> 'v lease_expiry_report \<times> (priority \<times> string) list" where
  "expire_step now jid acc =
     (case acc of (i, report, requeued_jobs) \<Rightarrow>
       (case jobs i jid of
          None \<Rightarrow> acc
        | Some job \<Rightarrow>
            if job_status job \<noteq> Running then acc
            else (case job_lease job of
               None \<Rightarrow> acc
             | Some lease \<Rightarrow>
                 if lease_expires_at lease > now then acc
                 else
                   let report1 = report\<lparr>released_workers :=
                         released_workers report @ [lease_worker_id lease]\<rparr>;
                       job1 = expired_attempt now job
                   in if attempts job < max_attempts job then
                        (put_job jid (job1\<lparr>job_status := Queued\<rparr>) i,
                         report1\<lparr>requeued := requeued report1 + 1\<rparr>,
                         requeued_jobs @ [(job_priority job1, jid)])
                      else
                        let job2 = prepare_callback (job1\<lparr>job_status := Failed\<rparr>)
                        in (put_job jid job2 i,
                            report1\<lparr>failed_jobs := failed_jobs report1 @ [job2],
                                    failed := failed report1 + 1\<rparr>,
                            requeued_jobs))))"

definition requeue_push :: "priority \<times> string \<Rightarrow> job_queues \<Rightarrow> job_queues" where
  "requeue_push e qs =
     (case e of (p, jid) \<Rightarrow>
        if list_ex (\<lambda>queued_id. queued_id = jid) (for_priority p qs) then qs
        else push_back p jid qs)"

definition requeue_expired_leases_locked ::
  "nat \<Rightarrow> 'v job_registry_inner \<Rightarrow> 'v job_registry_inner \<times> 'v lease_expiry_report" where
  "requeue_expired_leases_locked now i =
     (case fold (expire_step now) (job_order i) (i, expiry_report_default, []) of
        (i', report, requeued_jobs) \<Rightarrow>
          (i'\<lparr>queues := fold requeue_push requeued_jobs (queues i')\<rparr>, report))"

definition requeue_expired_leases ::
  "('v, 's) persist \<Rightarrow> nat \<Rightarrow> ('v, 's) job_registry
     \<Rightarrow> ('v, 's) job_registry \<times> 'v lease_expiry_report" where
  "requeue_expired_leases db now reg =
     (case requeue_expired_leases_locked now (inner reg) of
        (i, report) \<Rightarrow> commit db reg i report (\<lambda>_. report))"

section \<open>Pruning\<close>

definition has_pending_callback :: "'v job_record \<Rightarrow> bool" where
  "has_pending_callback job \<longleftrightarrow>
     (if callback_url job = None then False else \<not> callback_delivered job)"

text \<open>
  The first loop of \<open>prune_terminal_jobs_locked\<close>: the jobs to remove, oldest submission first
  and at most \<open>max_pruned_jobs\<close>, and the number of old jobs kept for their callback. The loop
  breaks once the limit is reached.
\<close>

fun prune_scan ::
  "nat \<Rightarrow> job_retention_policy \<Rightarrow> 'v job_registry_inner \<Rightarrow> string list
     \<Rightarrow> (string \<times> priority \<times> job_status) list \<Rightarrow> nat
     \<Rightarrow> (string \<times> priority \<times> job_status) list \<times> nat" where
  "prune_scan now policy i [] remove_ids retained = (remove_ids, retained)"
| "prune_scan now policy i (jid # rest) remove_ids retained =
     (if length remove_ids \<ge> max_pruned_jobs policy then (remove_ids, retained)
      else case jobs i jid of
         None \<Rightarrow> prune_scan now policy i rest remove_ids retained
       | Some job \<Rightarrow>
           if \<not> is_terminal (job_status job) then prune_scan now policy i rest remove_ids retained
           else if now - updated_at job < terminal_retention_ms policy then
             prune_scan now policy i rest remove_ids retained
           else if has_pending_callback job then
             prune_scan now policy i rest remove_ids (retained + 1)
           else
             prune_scan now policy i rest
               (remove_ids @ [(job_id job, job_priority job, job_status job)]) retained)"

definition prune_remove ::
  "string \<times> priority \<times> job_status \<Rightarrow> 'v job_registry_inner \<times> job_prune_report
     \<Rightarrow> 'v job_registry_inner \<times> job_prune_report" where
  "prune_remove e acc =
     (case e of (jid, p, st) \<Rightarrow> case acc of (i, report) \<Rightarrow>
        let keys = (case jobs i jid of
               None \<Rightarrow> idempotency_keys i
             | Some job \<Rightarrow>
                 (case idempotency_key job of
                    None \<Rightarrow> idempotency_keys i
                  | Some key \<Rightarrow> (idempotency_keys i)(key := None)))
        in (i\<lparr>jobs := (jobs i)(jid := None), idempotency_keys := keys,
              queues := queues_remove p jid (queues i)\<rparr>, record_removed st report))"

definition prune_terminal_jobs_locked ::
  "nat \<Rightarrow> job_retention_policy \<Rightarrow> 'v job_registry_inner
     \<Rightarrow> 'v job_registry_inner \<times> job_prune_report" where
  "prune_terminal_jobs_locked now policy i =
     (case prune_scan now policy i (job_order i) [] 0 of
        (remove_ids, retained) \<Rightarrow>
     (case fold prune_remove remove_ids
             (i, prune_report_default\<lparr>retained_pending_callbacks := retained\<rparr>) of
        (i', report) \<Rightarrow>
          (i'\<lparr>job_order := filter (\<lambda>jid. jobs i' jid \<noteq> None) (job_order i')\<rparr>,
           report\<lparr>by_status := sort_key (\<lambda>s. status_rank (ps_status s)) (by_status report)\<rparr>)))"

definition prune_terminal_jobs ::
  "('v, 's) persist \<Rightarrow> nat \<Rightarrow> ('v, 's) job_registry \<Rightarrow> ('v, 's) job_registry \<times> job_prune_report" where
  "prune_terminal_jobs db now reg =
     (case prune_terminal_jobs_locked now (retention_policy reg) (inner reg) of
        (i, report) \<Rightarrow> commit db reg i report (\<lambda>_. report))"

section \<open>Persistence leaves the inner state alone\<close>

lemma persist_locked_inner [simp]: "inner (fst (persist_locked db reg)) = inner reg"
  by (auto simp: persist_locked_def split: option.splits sum.splits)

lemma commit_inner [simp]: "inner (fst (commit db reg i ok err)) = i"
  by (auto simp: commit_def persist_locked_def split: option.splits sum.splits)

lemma commit_retention [simp]:
  "retention_policy (fst (commit db reg i ok err)) = retention_policy reg"
  by (auto simp: commit_def persist_locked_def split: option.splits sum.splits)

lemma put_job_simps [simp]:
  "jobs (put_job jid job i) = (jobs i)(jid \<mapsto> job)"
  "job_order (put_job jid job i) = job_order i"
  "queues (put_job jid job i) = queues i"
  "idempotency_keys (put_job jid job i) = idempotency_keys i"
  "next_id (put_job jid job i) = next_id i"
  by (simp_all add: put_job_def)

text \<open>A registry without a store, or with a store that accepts the state: the call succeeds.\<close>

definition persists :: "('v, 's) persist \<Rightarrow> ('v, 's) job_registry \<Rightarrow> 'v job_registry_inner \<Rightarrow> bool" where
  "persists db reg i \<longleftrightarrow> (case store reg of None \<Rightarrow> True | Some s \<Rightarrow> (\<exists>s'. db i s = Inr s'))"

lemma commit_result:
  "persists db reg i \<Longrightarrow> snd (commit db reg i ok err) = ok"
  by (auto simp: persists_def commit_def persist_locked_def split: option.splits)

lemma commit_result_cases:
  "snd (commit db reg i ok err) = ok \<or> (\<exists>e. snd (commit db reg i ok err) = err e)"
  by (auto simp: commit_def persist_locked_def split: option.splits sum.splits)

lemma commit_fst_snd: "commit db reg i ok err = (reg', r) \<Longrightarrow> inner reg' = i \<and> (r = ok \<or> (\<exists>e. r = err e))"
  using commit_inner [of db reg i ok err] commit_result_cases [of db reg i ok err] by simp

definition store_ok :: "('v, 's) persist \<Rightarrow> ('v, 's) job_registry \<Rightarrow> bool" where
  "store_ok db reg \<longleftrightarrow> (\<forall>i. persists db reg i)"

lemma store_ok_commit:
  "store_ok db reg \<Longrightarrow> snd (commit db reg i ok err) = ok"
  by (simp add: store_ok_def commit_result)

lemma store_ok_None [simp]: "store reg = None \<Longrightarrow> store_ok db reg"
  by (simp add: store_ok_def persists_def)

end
