(* ===== verification/Jobs_Inv.thy ===== *)
theory Jobs_Inv
  imports Jobs
begin

text \<open>
  The well-formedness of the job registry and its preservation by the operations on one job.
  \<open>job_ok\<close> says which fields each state of a job determines, \<open>registry_inv\<close> how the map of
  jobs, the submission order, the queues and the idempotency keys agree.
\<close>

section \<open>The invariant\<close>

definition callback_ok :: "'v job_record \<Rightarrow> bool" where
  "callback_ok job \<longleftrightarrow>
     (if is_terminal (job_status job) then callback_url job = None \<longleftrightarrow> job_callback job = None
      else job_callback job = None)"

definition job_ok :: "'v job_record \<Rightarrow> bool" where
  "job_ok job \<longleftrightarrow> attempts job \<le> max_attempts job \<and> callback_ok job \<and>
     (case job_status job of
        Queued \<Rightarrow> attempts job < max_attempts job \<and> job_lease job = None \<and>
          job_result job = None \<and> terminal_attempt job = None
      | Running \<Rightarrow> 0 < attempts job \<and> job_result job = None \<and> terminal_attempt job = None \<and>
          (case job_lease job of None \<Rightarrow> False | Some l \<Rightarrow> lease_attempt l = attempts job)
      | Complete \<Rightarrow> 0 < attempts job \<and> job_lease job = None \<and> job_result job \<noteq> None \<and>
          job_error job = None \<and>
          (case terminal_attempt job of None \<Rightarrow> False | Some t \<Rightarrow> ta_attempt t = attempts job)
      | Failed \<Rightarrow> 0 < attempts job \<and> job_lease job = None \<and> job_result job = None \<and>
          job_error job \<noteq> None \<and>
          (case terminal_attempt job of None \<Rightarrow> True | Some t \<Rightarrow> ta_attempt t = attempts job)
      | Cancelled \<Rightarrow> job_result job = None \<and> terminal_attempt job = None)"

definition job_sat :: "('v job_record \<Rightarrow> bool) \<Rightarrow> 'v job_registry_inner \<Rightarrow> string \<Rightarrow> bool" where
  "job_sat P i jid \<longleftrightarrow> (case jobs i jid of None \<Rightarrow> False | Some job \<Rightarrow> P job)"

definition queued_set :: "'v job_registry_inner \<Rightarrow> priority \<Rightarrow> string set" where
  "queued_set i p = {jid. job_sat (\<lambda>job. job_status job = Queued \<and> job_priority job = p) i jid}"

definition queues_ok :: "'v job_registry_inner \<Rightarrow> bool" where
  "queues_ok i \<longleftrightarrow> (\<forall>p. distinct (for_priority p (queues i)) \<and>
     set (for_priority p (queues i)) = queued_set i p)"

definition order_ok :: "'v job_registry_inner \<Rightarrow> bool" where
  "order_ok i \<longleftrightarrow> (\<exists>ns. job_order i = map job_id_of ns \<and> sorted_wrt (<) ns \<and>
     (\<forall>n \<in> set ns. 1 \<le> n \<and> n \<le> next_id i)) \<and> set (job_order i) = dom (jobs i)"

definition keys_ok :: "'v job_registry_inner \<Rightarrow> bool" where
  "keys_ok i \<longleftrightarrow> (\<forall>k jid. idempotency_keys i k = Some jid \<longleftrightarrow>
     job_sat (\<lambda>job. idempotency_key job = Some k) i jid)"

definition records_ok :: "'v job_registry_inner \<Rightarrow> bool" where
  "records_ok i \<longleftrightarrow> (\<forall>jid job. jobs i jid = Some job \<longrightarrow> job_id job = jid \<and> job_ok job)"

definition registry_inv :: "'v job_registry_inner \<Rightarrow> bool" where
  "registry_inv i \<longleftrightarrow> records_ok i \<and> order_ok i \<and> queues_ok i \<and> keys_ok i"

lemma job_id_of_inject [simp]: "job_id_of m = job_id_of n \<longleftrightarrow> m = n"
  by (simp add: job_id_of_def)

lemma inj_job_id_of: "inj job_id_of"
  by (auto simp: inj_def)

lemma registry_invD:
  assumes "registry_inv i"
  shows "records_ok i" "order_ok i" "queues_ok i" "keys_ok i"
  using assms by (simp_all add: registry_inv_def)

lemma inv_job:
  assumes "registry_inv i" "jobs i jid = Some job"
  shows "job_id job = jid" "job_ok job"
  using assms by (simp_all add: registry_inv_def records_ok_def)

lemma inv_order:
  assumes "registry_inv i"
  shows "distinct (job_order i)" "set (job_order i) = dom (jobs i)"
  using registry_invD(2) [OF assms]
  by (auto simp: order_ok_def distinct_map strict_sorted_iff inj_on_def)

lemma inv_queue:
  assumes "registry_inv i"
  shows "distinct (for_priority p (queues i))" "set (for_priority p (queues i)) = queued_set i p"
  using registry_invD(3) [OF assms] by (simp_all add: queues_ok_def)

lemma queue_job:
  assumes "registry_inv i" "jid \<in> set (for_priority p (queues i))"
  obtains job where "jobs i jid = Some job" "job_status job = Queued" "job_priority job = p"
  using assms inv_queue(2) [OF assms(1), of p]
  by (auto simp: queued_set_def job_sat_def split: option.splits)

lemma inv_fresh_id:
  assumes "registry_inv i" shows "jobs i (job_id_of (Suc (next_id i))) = None"
proof (rule ccontr)
  assume a: "jobs i (job_id_of (Suc (next_id i))) \<noteq> None"
  from registry_invD(2) [OF assms] obtain ns
    where ns: "job_order i = map job_id_of ns" "\<forall>n \<in> set ns. 1 \<le> n \<and> n \<le> next_id i"
      "set (job_order i) = dom (jobs i)"
    unfolding order_ok_def by blast
  from a have "job_id_of (Suc (next_id i)) \<in> set (job_order i)"
    unfolding ns(3) by blast
  then have "Suc (next_id i) \<in> set ns" by (auto simp: ns(1))
  with ns(2) show False by fastforce
qed

lemma inv_in_order: "registry_inv i \<Longrightarrow> jobs i jid = Some job \<Longrightarrow> jid \<in> set (job_order i)"
  using inv_order(2) by blast

lemma registry_inv_default: "registry_inv inner_default"
  by (auto simp: registry_inv_def records_ok_def order_ok_def queues_ok_def keys_ok_def
      inner_default_def queued_set_def job_sat_def)

section \<open>Changing one job\<close>

lemma job_sat_put [simp]:
  "job_sat P (put_job jid job i) k \<longleftrightarrow> (if k = jid then P job else job_sat P i k)"
  by (simp add: job_sat_def)

lemma job_sat_queues [simp]: "job_sat P (i\<lparr>queues := qs\<rparr>) = job_sat P i"
  by (simp add: job_sat_def fun_eq_iff)

lemma queued_set_queues [simp]: "queued_set (i\<lparr>queues := qs\<rparr>) = queued_set i"
  by (simp add: queued_set_def fun_eq_iff)

text \<open>The general case: the caller shows what the queues hold afterwards.\<close>

lemma put_job_inv:
  assumes inv: "registry_inv i" and old: "jobs i jid = Some job"
    and new: "job_id job' = jid" "job_ok job'" "idempotency_key job' = idempotency_key job"
    and qs: "\<And>p. distinct (for_priority p qs) \<and>
               set (for_priority p qs) = queued_set (put_job jid job' i) p"
  shows "registry_inv ((put_job jid job' i)\<lparr>queues := qs\<rparr>)"
proof -
  have "records_ok ((put_job jid job' i)\<lparr>queues := qs\<rparr>)"
    using registry_invD(1) [OF inv] new by (auto simp: records_ok_def)
  moreover have "order_ok ((put_job jid job' i)\<lparr>queues := qs\<rparr>)"
    using registry_invD(2) [OF inv] old by (auto simp: order_ok_def)
  moreover have "keys_ok ((put_job jid job' i)\<lparr>queues := qs\<rparr>)"
    using registry_invD(4) [OF inv] old new(3) by (auto simp: keys_ok_def job_sat_def)
  moreover have "queues_ok ((put_job jid job' i)\<lparr>queues := qs\<rparr>)"
    using qs by (simp add: queues_ok_def)
  ultimately show ?thesis by (simp add: registry_inv_def)
qed

lemma put_job_same_inv:
  assumes inv: "registry_inv i" and old: "jobs i jid = Some job"
    and new: "job_id job' = jid" "job_ok job'" "idempotency_key job' = idempotency_key job"
    and st: "job_status job' = Queued \<longleftrightarrow> job_status job = Queued" "job_priority job' = job_priority job"
  shows "registry_inv (put_job jid job' i)"
proof -
  have "queued_set (put_job jid job' i) = queued_set i"
    using old st by (auto simp: queued_set_def job_sat_def fun_eq_iff)
  then have "registry_inv ((put_job jid job' i)\<lparr>queues := queues i\<rparr>)"
    using inv_queue [OF inv] by (intro put_job_inv [OF inv old new]) simp
  then show ?thesis by (simp add: put_job_def)
qed

lemma put_job_dequeue_inv:
  assumes inv: "registry_inv i" and old: "jobs i jid = Some job"
    and new: "job_id job' = jid" "job_ok job'" "idempotency_key job' = idempotency_key job"
    and st: "job_status job' \<noteq> Queued"
  shows "registry_inv ((put_job jid job' i)\<lparr>queues := queues_remove (job_priority job) jid (queues i)\<rparr>)"
proof (rule put_job_inv [OF inv old new])
  have "queued_set (put_job jid job' i) =
          (queued_set i)(job_priority job := queued_set i (job_priority job) - {jid})"
    using old st by (auto simp: queued_set_def job_sat_def fun_eq_iff)
  then show "distinct (for_priority p (queues_remove (job_priority job) jid (queues i))) \<and>
      set (for_priority p (queues_remove (job_priority job) jid (queues i))) =
      queued_set (put_job jid job' i) p" for p
    using jq.drop_holds [of "queues i" "queued_set i"] inv_queue [OF inv] by metis
qed

lemma put_job_enqueue_inv:
  assumes inv: "registry_inv i" and old: "jobs i jid = Some job"
    and new: "job_id job' = jid" "job_ok job'" "idempotency_key job' = idempotency_key job"
    and st: "job_status job \<noteq> Queued" "job_status job' = Queued" "job_priority job' = job_priority job"
  shows "registry_inv ((put_job jid job' i)\<lparr>queues := push_back (job_priority job) jid (queues i)\<rparr>)"
proof (rule put_job_inv [OF inv old new])
  have q: "queued_set (put_job jid job' i) =
          (queued_set i)(job_priority job := insert jid (queued_set i (job_priority job)))"
    using old st by (auto simp: queued_set_def job_sat_def fun_eq_iff)
  have "jid \<notin> queued_set i (job_priority job)"
    using old st by (simp add: queued_set_def job_sat_def)
  then show "distinct (for_priority p (push_back (job_priority job) jid (queues i))) \<and>
      set (for_priority p (push_back (job_priority job) jid (queues i))) =
      queued_set (put_job jid job' i) p" for p
    using jq.push_holds [of "queues i" "queued_set i"] inv_queue [OF inv] unfolding q by metis
qed

section \<open>The jobs the operations write\<close>

lemma prepare_callback_frame [simp]:
  "job_id (prepare_callback job) = job_id job"
  "job_kind (prepare_callback job) = job_kind job"
  "job_priority (prepare_callback job) = job_priority job"
  "job_status (prepare_callback job) = job_status job"
  "payload (prepare_callback job) = payload job"
  "callback_url (prepare_callback job) = callback_url job"
  "idempotency_key (prepare_callback job) = idempotency_key job"
  "job_result (prepare_callback job) = job_result job"
  "job_error (prepare_callback job) = job_error job"
  "attempts (prepare_callback job) = attempts job"
  "max_attempts (prepare_callback job) = max_attempts job"
  "job_lease (prepare_callback job) = job_lease job"
  "terminal_attempt (prepare_callback job) = terminal_attempt job"
  "created_at (prepare_callback job) = created_at job"
  "updated_at (prepare_callback job) = updated_at job"
  by (simp_all add: prepare_callback_def Let_def)

lemma callback_ok_prepare:
  "is_terminal (job_status job) \<Longrightarrow> (callback_url job = None \<Longrightarrow> job_callback job = None) \<Longrightarrow>
     callback_ok (prepare_callback job)"
  by (auto simp: callback_ok_def prepare_callback_def callback_delivered_def Let_def
      split: option.splits)

lemma job_ok_callback_None: "job_ok job \<Longrightarrow> \<not> is_terminal (job_status job) \<Longrightarrow> job_callback job = None"
  by (simp add: job_ok_def callback_ok_def)


lemma job_ok_claim:
  "job_ok job \<Longrightarrow> job_status job = Queued \<Longrightarrow> job_ok (claim_job now w d job)"
  by (auto simp: job_ok_def callback_ok_def claim_job_def)

lemma job_ok_renew:
  "job_ok job \<Longrightarrow> job_status job = Running \<Longrightarrow> job_lease job = Some l \<Longrightarrow>
     job_ok (job\<lparr>job_lease := Some (l\<lparr>lease_expires_at := e\<rparr>), updated_at := now\<rparr>)"
  by (auto simp: job_ok_def callback_ok_def)

lemma job_ok_completed:
  assumes "job_ok job" "job_status job = Running" "job_lease job = Some l"
  shows "job_ok (completed_job now w l r job)"
proof -
  have "callback_ok (completed_job now w l r job)"
    unfolding completed_job_def
    using job_ok_callback_None [OF assms(1)] assms(2) by (intro callback_ok_prepare) auto
  then show ?thesis using assms by (auto simp: job_ok_def completed_job_def)
qed

lemma job_ok_requeued:
  assumes "job_ok job" "job_status job = Running" "attempts job < max_attempts job"
  shows "job_ok (requeue_job (failed_attempt now f job))"
  using assms by (auto simp: job_ok_def callback_ok_def requeue_job_def failed_attempt_def)

lemma job_ok_failed:
  assumes "job_ok job" "job_status job = Running" "job_lease job = Some l"
  shows "job_ok (fail_job w (lease_attempt l) (failed_attempt now f job))"
proof -
  have "callback_ok (fail_job w (lease_attempt l) (failed_attempt now f job))"
    unfolding fail_job_def failed_attempt_def
    using job_ok_callback_None [OF assms(1)] assms(2) by (intro callback_ok_prepare) auto
  then show ?thesis using assms by (auto simp: job_ok_def fail_job_def failed_attempt_def)
qed

lemma job_ok_cancelled:
  assumes "job_ok job" "\<not> is_terminal (job_status job)"
  shows "job_ok (cancelled_job now job)"
proof -
  have "callback_ok (cancelled_job now job)"
    unfolding cancelled_job_def
    using job_ok_callback_None [OF assms] by (intro callback_ok_prepare) auto
  moreover have "job_result job = None \<and> attempts job \<le> max_attempts job"
    using assms by (cases "job_status job") (auto simp: job_ok_def)
  ultimately show ?thesis by (auto simp: job_ok_def cancelled_job_def)
qed

lemma job_ok_callback_update:
  assumes "job_ok job" "is_terminal (job_status job)" "job_callback job = Some cb"
  shows "job_ok (job\<lparr>job_callback := Some cb'\<rparr>)"
  using assms by (auto simp: job_ok_def callback_ok_def split: job_status.splits option.splits)

lemma job_ok_callback_terminal:
  "job_ok job \<Longrightarrow> job_callback job = Some cb \<Longrightarrow> is_terminal (job_status job)"
  by (auto simp: job_ok_def callback_ok_def split: if_splits)

lemma transition_frames [simp]:
  "job_id (claim_job now w d job) = job_id job"
  "idempotency_key (claim_job now w d job) = idempotency_key job"
  "job_status (claim_job now w d job) = Running"
  "job_priority (claim_job now w d job) = job_priority job"
  "job_id (completed_job now w l r job) = job_id job"
  "idempotency_key (completed_job now w l r job) = idempotency_key job"
  "job_status (completed_job now w l r job) = Complete"
  "job_priority (completed_job now w l r job) = job_priority job"
  "job_id (fail_job w att job) = job_id job"
  "idempotency_key (fail_job w att job) = idempotency_key job"
  "job_status (fail_job w att job) = Failed"
  "job_priority (fail_job w att job) = job_priority job"
  "job_id (requeue_job job) = job_id job"
  "idempotency_key (requeue_job job) = idempotency_key job"
  "job_status (requeue_job job) = Queued"
  "job_priority (requeue_job job) = job_priority job"
  "job_id (cancelled_job now job) = job_id job"
  "idempotency_key (cancelled_job now job) = idempotency_key job"
  "job_status (cancelled_job now job) = Cancelled"
  "job_priority (cancelled_job now job) = job_priority job"
  "job_id (failed_attempt now f job) = job_id job"
  "idempotency_key (failed_attempt now f job) = idempotency_key job"
  "job_priority (failed_attempt now f job) = job_priority job"
  "attempts (failed_attempt now f job) = attempts job"
  "max_attempts (failed_attempt now f job) = max_attempts job"
  by (simp_all add: claim_job_def completed_job_def fail_job_def requeue_job_def
      cancelled_job_def failed_attempt_def)

section \<open>Preservation by the operations on one job\<close>

lemma insert_new_job_inv:
  assumes inv: "registry_inv i"
    and key: "\<And>k. key = Some k \<Longrightarrow> idempotency_keys i k = None"
    and ins: "insert_new_job now request url key i = (i', job)"
  shows "registry_inv i'"
proof -
  let ?id = "job_id_of (Suc (next_id i))"
  have job: "job = new_job now (Suc (next_id i)) request url key" and
    i': "jobs i' = (jobs i)(?id \<mapsto> job)" "job_order i' = job_order i @ [?id]"
      "next_id i' = Suc (next_id i)"
      "queues i' = push_back (req_priority request) ?id (queues i)"
      "idempotency_keys i' = (case key of None \<Rightarrow> idempotency_keys i
                              | Some k \<Rightarrow> (idempotency_keys i)(k \<mapsto> ?id))"
    using ins by (auto simp: insert_new_job_def Let_def new_job_def split: option.splits)
  have fresh: "jobs i ?id = None" by (rule inv_fresh_id [OF inv])
  have okj: "job_id job = ?id" "job_ok job" "idempotency_key job = key" "job_status job = Queued"
      "job_priority job = req_priority request"
    by (simp_all add: job new_job_def job_ok_def callback_ok_def)
  have "records_ok i'"
    using registry_invD(1) [OF inv] okj by (auto simp: records_ok_def i')
  moreover have "order_ok i'"
  proof -
    from registry_invD(2) [OF inv] obtain ns
      where ns: "job_order i = map job_id_of ns" "sorted_wrt (<) ns"
        "\<forall>n \<in> set ns. 1 \<le> n \<and> n \<le> next_id i" "set (job_order i) = dom (jobs i)"
      unfolding order_ok_def by blast
    have "job_order i' = map job_id_of (ns @ [Suc (next_id i)])" by (simp add: i' ns)
    moreover have "sorted_wrt (<) (ns @ [Suc (next_id i)])"
      using ns(2,3) by (auto simp: sorted_wrt_append)
    moreover have "\<forall>n \<in> set (ns @ [Suc (next_id i)]). 1 \<le> n \<and> n \<le> next_id i'"
      using ns(3) by (auto simp: i')
    moreover have "set (job_order i') = dom (jobs i')" using ns(4) by (auto simp: i')
    ultimately show ?thesis unfolding order_ok_def by blast
  qed
  moreover have "queues_ok i'"
  proof -
    have q: "queued_set i' =
        (queued_set i)(req_priority request := insert ?id (queued_set i (req_priority request)))"
      using fresh okj by (auto simp: queued_set_def job_sat_def i' fun_eq_iff)
    have "?id \<notin> queued_set i (req_priority request)"
      using fresh by (simp add: queued_set_def job_sat_def)
    then show ?thesis
      using jq.push_holds [of "queues i" "queued_set i"] inv_queue [OF inv]
      unfolding queues_ok_def q i'(4) by metis
  qed
  moreover have "keys_ok i'"
  proof -
    have sat: "job_sat P i' k \<longleftrightarrow> (if k = ?id then P job else job_sat P i k)" for P k
      by (simp add: job_sat_def i'(1))
    have no: "\<not> job_sat P i ?id" for P by (simp add: job_sat_def fresh)
    have keys: "idempotency_keys i k = Some jid \<longleftrightarrow>
        job_sat (\<lambda>job. idempotency_key job = Some k) i jid" for k jid
      using registry_invD(4) [OF inv] by (simp add: keys_ok_def)
    show ?thesis
    proof (cases key)
      case None
      then show ?thesis using okj(3) no by (auto simp: keys_ok_def sat i'(5) keys)
    next
      case (Some k)
      have "\<not> job_sat (\<lambda>job. idempotency_key job = Some k) i jid" for jid
        using key [OF Some] keys [of k jid] by simp
      with Some show ?thesis using okj(3) no by (auto simp: keys_ok_def sat i'(5) keys)
    qed
  qed
  ultimately show ?thesis by (simp add: registry_inv_def)
qed

lemma inv_key_job:
  assumes "registry_inv i" "idempotency_keys i k = Some jid"
  obtains job where "jobs i jid = Some job" "idempotency_key job = Some k"
  using registry_invD(4) [OF assms(1)] assms(2)
  by (auto simp: keys_ok_def job_sat_def split: option.splits)

text \<open>
  In a well-formed registry the entry of an idempotency key always has its job, so a submission
  is refused, replays that job, or inserts a new one under an unused key.
\<close>

definition submit_new ::
  "('v, 's) persist \<Rightarrow> nat \<Rightarrow> 'v submit_job_request \<Rightarrow> string option \<Rightarrow> string option
     \<Rightarrow> ('v, 's) job_registry \<Rightarrow> ('v, 's) job_registry \<times> (string + 'v job_record)" where
  "submit_new db now request url key reg =
     (case insert_new_job now request url key (inner reg) of
        (i', job) \<Rightarrow> commit db reg i' (Inr job) Inl)"

lemma submit_cases:
  assumes "registry_inv (inner reg)"
  obtains (refused) e where "submit db now request reg = (reg, Inl e)"
  | (replayed) url k jid job where
      "normalize_callback_url (req_callback_url request) = Inr url"
      "normalize_idempotency_key (req_idempotency_key request) = Inr (Some k)"
      "idempotency_keys (inner reg) k = Some jid" "jobs (inner reg) jid = Some job"
      "same_request job request url" "submit db now request reg = (reg, Inr job)"
  | (fresh) url key where
      "normalize_callback_url (req_callback_url request) = Inr url"
      "normalize_idempotency_key (req_idempotency_key request) = Inr key"
      "\<And>k. key = Some k \<Longrightarrow> idempotency_keys (inner reg) k = None"
      "submit db now request reg = submit_new db now request url key reg"
proof (cases "normalize_callback_url (req_callback_url request)")
  case (Inl e)
  then show ?thesis by (intro refused [of e]) (simp add: submit_def)
next
  case url: (Inr url)
  show ?thesis
  proof (cases "normalize_idempotency_key (req_idempotency_key request)")
    case (Inl e)
    with url show ?thesis by (intro refused [of e]) (simp add: submit_def)
  next
    case key: (Inr key)
    consider "\<And>k. key = Some k \<Longrightarrow> idempotency_keys (inner reg) k = None"
      | k jid where "key = Some k" "idempotency_keys (inner reg) k = Some jid"
      by (cases key) auto
    then show ?thesis
    proof cases
      case 1
      then show ?thesis using url key
        by (intro fresh [of url key])
          (auto simp: submit_def submit_new_def Let_def split: option.splits)
    next
      case (2 k jid)
      from inv_key_job [OF assms 2(2)] obtain job where job: "jobs (inner reg) jid = Some job"
        by blast
      show ?thesis
      proof (cases "same_request job request url")
        case True
        with url key 2 job show ?thesis
          by (intro replayed [of url k jid job]) (simp_all add: submit_def)
      next
        case False
        with url key 2 job show ?thesis
          by (intro refused) (simp add: submit_def)
      qed
    qed
  qed
qed

lemma submit_new_inv:
  assumes "registry_inv (inner reg)" "\<And>k. key = Some k \<Longrightarrow> idempotency_keys (inner reg) k = None"
  shows "registry_inv (inner (fst (submit_new db now request url key reg)))"
  using insert_new_job_inv [OF assms, where now = now and request = request and url = url]
  by (simp add: submit_new_def split: prod.splits)

lemma submit_inv:
  assumes "registry_inv (inner reg)"
  shows "registry_inv (inner (fst (submit db now request reg)))"
  by (rule submit_cases [OF assms, of db now request]) (simp_all add: assms submit_new_inv)

text \<open>The nested search of a claim looks at all queued ids in scan order.\<close>

lemma next_claimable_eq:
  "next_claimable kinds pool policy i =
     find (job_sat (claimable kinds pool policy) i) (scan_order (queues i))"
proof -
  have "(\<lambda>jid. case jobs i jid of None \<Rightarrow> None
           | Some job \<Rightarrow> if claimable kinds pool policy job then Some jid else None) =
        (\<lambda>jid. if job_sat (claimable kinds pool policy) i jid then Some jid else None)"
    by (auto simp: job_sat_def fun_eq_iff split: option.splits)
  then show ?thesis
    by (simp add: next_claimable_def case_prod_unfold find_map_guard find_map_find scan_order_def
        del: find_map.simps)
qed

lemma next_claimable_Some:
  assumes "next_claimable kinds pool policy i = Some jid"
  obtains job where "jobs i jid = Some job" "claimable kinds pool policy job"
    "jid \<in> set (scan_order (queues i))"
  using find_in [OF assms [unfolded next_claimable_eq]]
  by (auto simp: job_sat_def split: option.splits)

lemma claim_inv:
  assumes inv: "registry_inv (inner reg)"
  shows "registry_inv (inner (fst (claim_next_for_worker_in_pool db now w kinds pool policy d reg)))"
proof (cases "next_claimable kinds pool policy (inner reg)")
  case (Some jid)
  then obtain job where job: "jobs (inner reg) jid = Some job" "claimable kinds pool policy job"
    by (rule next_claimable_Some)
  then have "registry_inv ((put_job jid (claim_job now w d job) (inner reg))
      \<lparr>queues := queues_remove (job_priority job) jid (queues (inner reg))\<rparr>)"
    using inv_job [OF inv job(1)]
    by (intro put_job_dequeue_inv [OF inv job(1)] job_ok_claim) (simp_all add: claimable_def)
  with Some job show ?thesis by (simp add: claim_next_for_worker_in_pool_def Let_def)
qed (use inv in \<open>simp add: claim_next_for_worker_in_pool_def\<close>)

lemma renew_inv:
  assumes inv: "registry_inv (inner reg)"
  shows "registry_inv (inner (fst (renew_lease db now jid w d reg)))"
proof (cases "jobs (inner reg) jid")
  case job: (Some job)
  have "registry_inv (put_job jid (job\<lparr>job_lease := Some (l\<lparr>lease_expires_at := e\<rparr>),
          updated_at := now\<rparr>) (inner reg))"
    if "job_status job = Running" "job_lease job = Some l" for l e
    using that inv_job [OF inv job] by (intro put_job_same_inv [OF inv job] job_ok_renew) simp_all
  then show ?thesis
    using inv job by (simp add: renew_lease_def Let_def split: option.split)
qed (use inv in \<open>simp add: renew_lease_def\<close>)

lemma complete_inv:
  assumes inv: "registry_inv (inner reg)"
  shows "registry_inv (inner (fst (complete_lease db now jid w att r reg)))"
proof (cases "jobs (inner reg) jid")
  case job: (Some job)
  have "registry_inv (put_job jid (completed_job now w l r job) (inner reg))"
    if "job_status job = Running" "job_lease job = Some l" for l
    using that inv_job [OF inv job]
    by (intro put_job_same_inv [OF inv job] job_ok_completed) simp_all
  then show ?thesis
    using inv job by (simp add: complete_lease_def Let_def split: option.split)
qed (use inv in \<open>simp add: complete_lease_def\<close>)

lemma fail_inv:
  assumes inv: "registry_inv (inner reg)"
  shows "registry_inv (inner (fst (fail_lease db now jid w att f reg)))"
proof (cases "jobs (inner reg) jid")
  case job: (Some job)
  note j = inv_job [OF inv job]
  have "registry_inv ((put_job jid (requeue_job (failed_attempt now f job)) (inner reg))
        \<lparr>queues := push_back (job_priority job) jid (queues (inner reg))\<rparr>)"
    if "job_status job = Running" "attempts job < max_attempts job"
    using that j by (intro put_job_enqueue_inv [OF inv job] job_ok_requeued) simp_all
  moreover have "registry_inv (put_job jid (fail_job w (lease_attempt l) (failed_attempt now f job)) (inner reg))"
    if "job_status job = Running" "job_lease job = Some l" for l
    using that j by (intro put_job_same_inv [OF inv job] job_ok_failed) simp_all
  ultimately show ?thesis
    using inv job j by (auto simp: fail_lease_def Let_def split: option.splits)
qed (use inv in \<open>simp add: fail_lease_def\<close>)

lemma cancel_inv:
  assumes inv: "registry_inv (inner reg)"
  shows "registry_inv (inner (fst (cancel db now jid reg)))"
proof (cases "jobs (inner reg) jid")
  case job: (Some job)
  have "registry_inv ((put_job jid (cancelled_job now job) (inner reg))
          \<lparr>queues := queues_remove (job_priority job) jid (queues (inner reg))\<rparr>)"
    if "\<not> is_terminal (job_status job)"
    using that inv_job [OF inv job]
    by (intro put_job_dequeue_inv [OF inv job] job_ok_cancelled) simp_all
  then show ?thesis using inv job by (simp add: cancel_def Let_def)
qed (use inv in \<open>simp add: cancel_def\<close>)

lemma put_callback_inv:
  assumes inv: "registry_inv i" and job: "jobs i jid = Some job" and cb: "job_callback job = Some cb"
  shows "registry_inv (put_job jid (job\<lparr>job_callback := Some cb'\<rparr>) i)"
  using inv_job [OF inv job] job_ok_callback_terminal [of job cb] cb
  by (intro put_job_same_inv [OF inv job] job_ok_callback_update) auto

lemma begin_callback_inv:
  assumes "registry_inv (inner reg)"
  shows "registry_inv (inner (fst (begin_callback_attempt db now jid reg)))"
  using assms by (auto simp: begin_callback_attempt_def Let_def split: option.splits
      intro: put_callback_inv)

lemma callback_success_inv:
  assumes "registry_inv (inner reg)"
  shows "registry_inv (inner (fst (record_callback_success db now jid h reg)))"
  using assms by (auto simp: record_callback_success_def Let_def split: option.splits
      intro: put_callback_inv)

lemma callback_failure_inv:
  assumes "registry_inv (inner reg)"
  shows "registry_inv (inner (fst (record_callback_failure db jid h e reg)))"
  using assms by (auto simp: record_callback_failure_def Let_def split: option.splits
      intro: put_callback_inv)

end
