(* ===== verification/Jobs_Sweep.thy ===== *)
theory Jobs_Sweep
  imports Jobs_Inv
begin

text \<open>
  The two passes over the whole registry, \<open>requeue_expired_leases_locked\<close> and
  \<open>prune_terminal_jobs_locked\<close> of \<open>src/src/jobs.rs\<close>: a closed form of what each loop computes,
  and the preservation of the registry's invariant.
\<close>

section \<open>The sweep of expired leases, job by job\<close>

definition is_expired :: "nat \<Rightarrow> 'v job_record \<Rightarrow> bool" where
  "is_expired now job \<longleftrightarrow> job_status job = Running \<and>
     (case job_lease job of None \<Rightarrow> False | Some l \<Rightarrow> lease_expires_at l \<le> now)"

definition expire_job :: "nat \<Rightarrow> 'v job_record \<Rightarrow> 'v job_record" where
  "expire_job now job =
     (if \<not> is_expired now job then job
      else if attempts job < max_attempts job then (expired_attempt now job)\<lparr>job_status := Queued\<rparr>
      else prepare_callback ((expired_attempt now job)\<lparr>job_status := Failed\<rparr>))"

definition retries_left :: "'v job_record \<Rightarrow> bool" where
  "retries_left job \<longleftrightarrow> attempts job < max_attempts job"

definition holder :: "'v job_registry_inner \<Rightarrow> string \<Rightarrow> string" where
  "holder i jid =
     (case jobs i jid of None \<Rightarrow> [] | Some job \<Rightarrow>
        (case job_lease job of None \<Rightarrow> [] | Some l \<Rightarrow> lease_worker_id l))"

definition prio_of :: "'v job_registry_inner \<Rightarrow> string \<Rightarrow> priority" where
  "prio_of i jid = (case jobs i jid of None \<Rightarrow> Realtime | Some job \<Rightarrow> job_priority job)"

definition expired_ids :: "nat \<Rightarrow> 'v job_registry_inner \<Rightarrow> string list \<Rightarrow> string list" where
  "expired_ids now i ids = filter (job_sat (is_expired now) i) ids"

definition expire_all :: "nat \<Rightarrow> 'v job_registry_inner \<Rightarrow> string list \<Rightarrow> 'v job_registry_inner" where
  "expire_all now i ids =
     i\<lparr>jobs := (\<lambda>k. if k \<in> set ids then map_option (expire_job now) (jobs i k) else jobs i k)\<rparr>"

definition sweep_report ::
  "nat \<Rightarrow> 'v job_registry_inner \<Rightarrow> string list \<Rightarrow> 'v lease_expiry_report \<Rightarrow> 'v lease_expiry_report" where
  "sweep_report now i ids report =
     (let ex = expired_ids now i ids;
          back = filter (job_sat retries_left i) ex;
          dead = filter (\<lambda>jid. \<not> job_sat retries_left i jid) ex
      in report\<lparr>requeued := requeued report + length back,
           failed := failed report + length dead,
           released_workers := released_workers report @ map (holder i) ex,
           failed_jobs := failed_jobs report @
             map (\<lambda>jid. expire_job now (the (jobs i jid))) dead\<rparr>)"

definition sweep_requeued :: "nat \<Rightarrow> 'v job_registry_inner \<Rightarrow> string list \<Rightarrow> (priority \<times> string) list" where
  "sweep_requeued now i ids =
     map (\<lambda>jid. (prio_of i jid, jid)) (filter (job_sat retries_left i) (expired_ids now i ids))"

lemma expire_step_eq:
  "expire_step now jid (i, report, rq) =
     (expire_all now i [jid], sweep_report now i [jid] report, rq @ sweep_requeued now i [jid])"
proof (cases "jobs i jid")
  case None
  then show ?thesis
    by (auto simp: expire_step_def expire_all_def sweep_report_def sweep_requeued_def
        expired_ids_def job_sat_def Let_def fun_eq_iff)
next
  case (Some job)
  show ?thesis
  proof (cases "is_expired now job")
    case False
    then have "expire_step now jid (i, report, rq) = (i, report, rq)"
      using Some by (auto simp: expire_step_def is_expired_def split: option.splits)
    moreover have "expire_all now i [jid] = i"
      using Some False by (auto simp: expire_all_def expire_job_def fun_eq_iff)
    ultimately show ?thesis
      using Some False
      by (simp add: sweep_report_def sweep_requeued_def expired_ids_def job_sat_def)
  next
    case True
    then obtain l where l: "job_status job = Running" "job_lease job = Some l"
        "\<not> lease_expires_at l > now"
      by (auto simp: is_expired_def split: option.splits)
    have "put_job jid (expire_job now job) i = expire_all now i [jid]"
      using Some by (auto simp: put_job_def expire_all_def fun_eq_iff)
    moreover have "job_priority (expired_attempt now job) = job_priority job"
      by (simp add: expired_attempt_def)
    ultimately show ?thesis
      using Some True l
      by (cases "attempts job < max_attempts job")
        (simp_all add: expire_step_def expire_job_def sweep_report_def sweep_requeued_def
          expired_ids_def job_sat_def retries_left_def holder_def prio_of_def Let_def)
  qed
qed

lemma expire_all_job_sat:
  "jid \<notin> set ids \<Longrightarrow> job_sat P (expire_all now i ids) jid = job_sat P i jid"
  by (simp add: expire_all_def job_sat_def)

lemma expired_ids_cong:
  "(\<And>jid. jid \<in> set ids \<Longrightarrow> jobs i jid = jobs i' jid) \<Longrightarrow> expired_ids now i ids = expired_ids now i' ids"
  by (auto simp: expired_ids_def job_sat_def intro: filter_cong)

lemma sweep_cong:
  assumes "\<And>jid. jid \<in> set ids \<Longrightarrow> jobs i jid = jobs i' jid"
  shows "sweep_report now i ids = sweep_report now i' ids"
    "sweep_requeued now i ids = sweep_requeued now i' ids"
proof -
  have ex: "expired_ids now i ids = expired_ids now i' ids" using assms by (rule expired_ids_cong)
  have sub: "set (expired_ids now i' ids) \<subseteq> set ids" by (auto simp: expired_ids_def)
  have f: "filter (job_sat Q i) (expired_ids now i' ids) = filter (job_sat Q i') (expired_ids now i' ids)"
      "filter (\<lambda>jid. \<not> job_sat Q i jid) (expired_ids now i' ids) =
       filter (\<lambda>jid. \<not> job_sat Q i' jid) (expired_ids now i' ids)" for Q
    using assms sub by (auto simp: job_sat_def intro!: filter_cong)
  have h: "map (holder i) (expired_ids now i' ids) = map (holder i') (expired_ids now i' ids)"
    using assms sub by (auto simp: holder_def)
  have m: "map g xs = map g' xs"
    if "set xs \<subseteq> set ids" "\<And>jid. jobs i jid = jobs i' jid \<Longrightarrow> g jid = g' jid" for xs g g'
    using that assms by (intro map_cong) auto
  have d: "map (\<lambda>jid. expire_job now (the (jobs i jid)))
             (filter (\<lambda>jid. \<not> job_sat retries_left i' jid) (expired_ids now i' ids)) =
           map (\<lambda>jid. expire_job now (the (jobs i' jid)))
             (filter (\<lambda>jid. \<not> job_sat retries_left i' jid) (expired_ids now i' ids))"
    by (rule m) (use sub in auto)
  show "sweep_report now i ids = sweep_report now i' ids"
    unfolding sweep_report_def Let_def ex f h d ..
  show "sweep_requeued now i ids = sweep_requeued now i' ids"
    unfolding sweep_requeued_def ex f by (rule m) (use sub in \<open>auto simp: prio_of_def\<close>)
qed

lemma sweep_report_Cons:
  "sweep_report now i (x # ids) report = sweep_report now i ids (sweep_report now i [x] report)"
  by (simp add: sweep_report_def Let_def expired_ids_def)

lemma sweep_requeued_Cons:
  "sweep_requeued now i (x # ids) = sweep_requeued now i [x] @ sweep_requeued now i ids"
  by (simp add: sweep_requeued_def expired_ids_def)

lemma expire_all_Cons:
  "x \<notin> set ids \<Longrightarrow> expire_all now (expire_all now i [x]) ids = expire_all now i (x # ids)"
  by (auto simp: expire_all_def fun_eq_iff)

text \<open>The loop, started anywhere, on distinct ids.\<close>

lemma expire_loop:
  "distinct ids \<Longrightarrow>
     fold (expire_step now) ids (i, report, rq) =
       (expire_all now i ids, sweep_report now i ids report, rq @ sweep_requeued now i ids)"
proof (induction ids arbitrary: i report rq)
  case Nil
  have "expire_all now i [] = i" by (simp add: expire_all_def)
  then show ?case
    by (simp add: sweep_report_def sweep_requeued_def expired_ids_def)
next
  case (Cons x ids)
  let ?i = "expire_all now i [x]"
  have same: "jobs ?i jid = jobs i jid" if "jid \<in> set ids" for jid
    using that Cons.prems by (auto simp: expire_all_def)
  have "fold (expire_step now) (x # ids) (i, report, rq) =
      (expire_all now ?i ids, sweep_report now ?i ids (sweep_report now i [x] report),
       (rq @ sweep_requeued now i [x]) @ sweep_requeued now ?i ids)"
    using Cons by (simp add: expire_step_eq)
  moreover have "sweep_report now ?i ids = sweep_report now i ids"
    "sweep_requeued now ?i ids = sweep_requeued now i ids"
    using sweep_cong [of ids ?i i] same by blast+
  moreover have "expire_all now ?i ids = expire_all now i (x # ids)"
    using Cons.prems by (simp add: expire_all_Cons)
  ultimately show ?case
    unfolding sweep_report_Cons [of now i x ids] sweep_requeued_Cons [of now i x ids]
    by simp
qed


section \<open>The sweep of expired leases as a whole\<close>

lemma requeue_push_absent:
  "x \<notin> set (for_priority p qs) \<Longrightarrow> requeue_push (p, x) qs = push_back p x qs"
  by (auto simp: requeue_push_def list_ex_iff)

lemma fold_requeue_push:
  "distinct (map snd es) \<Longrightarrow> (\<And>p x. (p, x) \<in> set es \<Longrightarrow> x \<notin> set (for_priority p qs)) \<Longrightarrow>
     fold requeue_push es qs = fold (\<lambda>(p, x). push_back p x) es qs"
proof (induction es arbitrary: qs)
  case (Cons e es)
  obtain p x where e: "e = (p, x)" by fastforce
  have "requeue_push e qs = push_back p x qs"
    using Cons.prems(2) [of p x] unfolding e by (intro requeue_push_absent) simp
  moreover have "fold requeue_push es (push_back p x qs) =
      fold (\<lambda>(p, x). push_back p x) es (push_back p x qs)"
  proof (rule Cons.IH)
    show "y \<notin> set (for_priority p' (push_back p x qs))" if y: "(p', y) \<in> set es" for p' y
    proof -
      have "x \<notin> snd ` set es" using Cons.prems(1) by (simp add: e)
      moreover have "y \<in> snd ` set es" using y by (rule image_eqI [rotated]) simp
      moreover have "y \<notin> set (for_priority p' qs)" using Cons.prems(2) [of p' y] y by simp
      ultimately show ?thesis by auto
    qed
  qed (use Cons.prems in simp)
  ultimately show ?case by (simp add: e)
qed simp

definition sweep_back :: "nat \<Rightarrow> 'v job_registry_inner \<Rightarrow> priority \<Rightarrow> string list" where
  "sweep_back now i p =
     filter (job_sat (\<lambda>job. is_expired now job \<and> retries_left job \<and> job_priority job = p) i)
       (job_order i)"

lemma sweep_requeued_snd:
  "map snd (filter (\<lambda>e. fst e = p) (sweep_requeued now i (job_order i))) = sweep_back now i p"
proof -
  have "filter ((\<lambda>e. fst e = p) \<circ> (\<lambda>jid. (prio_of i jid, jid)))
          (filter (job_sat retries_left i) (expired_ids now i ids)) =
        filter (job_sat (\<lambda>job. is_expired now job \<and> retries_left job \<and> job_priority job = p) i) ids" for ids
    unfolding expired_ids_def filter_filter
    by (rule filter_cong [OF refl]) (simp add: job_sat_def prio_of_def conj_ac split: option.split)
  then show ?thesis
    by (simp add: sweep_requeued_def sweep_back_def filter_map o_def)
qed

lemma sweep_eq:
  assumes inv: "registry_inv i" and sw: "requeue_expired_leases_locked now i = (i', report)"
  shows "report = sweep_report now i (job_order i) expiry_report_default"
    "jobs i' = (\<lambda>k. map_option (expire_job now) (jobs i k))"
    "job_order i' = job_order i" "idempotency_keys i' = idempotency_keys i" "next_id i' = next_id i"
    "\<And>p. for_priority p (queues i') = for_priority p (queues i) @ sweep_back now i p"
proof -
  let ?rq = "sweep_requeued now i (job_order i)"
  note ord = inv_order [OF inv]
  have sw': "i' = (expire_all now i (job_order i))\<lparr>queues := fold requeue_push ?rq (queues i)\<rparr>"
    "report = sweep_report now i (job_order i) expiry_report_default"
    using sw expire_loop [OF ord(1), of now i expiry_report_default "[]"]
    by (simp_all add: requeue_expired_leases_locked_def expire_all_def)
  show "report = sweep_report now i (job_order i) expiry_report_default" by (rule sw'(2))
  have "jobs i k = None" if "k \<notin> set (job_order i)" for k
    using ord(2) that by (metis domIff)
  then show "jobs i' = (\<lambda>k. map_option (expire_job now) (jobs i k))"
    by (auto simp: sw' expire_all_def fun_eq_iff)
  show "job_order i' = job_order i" "idempotency_keys i' = idempotency_keys i" "next_id i' = next_id i"
    by (simp_all add: sw' expire_all_def)
  have "map snd ?rq = filter (job_sat retries_left i) (expired_ids now i (job_order i))"
    by (simp add: sweep_requeued_def o_def)
  then have "distinct (map snd ?rq)" using ord(1) by (simp add: expired_ids_def)
  moreover have "x \<notin> set (for_priority p (queues i))" if "(p, x) \<in> set ?rq" for p x
    using that inv_queue(2) [OF inv, of p]
    by (auto simp: sweep_requeued_def expired_ids_def queued_set_def job_sat_def is_expired_def
        split: option.splits)
  ultimately have "fold requeue_push ?rq (queues i) = fold (\<lambda>(p, x). push_back p x) ?rq (queues i)"
    by (rule fold_requeue_push)
  then show "for_priority p (queues i') = for_priority p (queues i) @ sweep_back now i p" for p
    by (simp add: sw' jq.contents_fold_push sweep_requeued_snd)
qed

lemma expire_job_frame [simp]:
  "job_id (expire_job now job) = job_id job"
  "job_priority (expire_job now job) = job_priority job"
  "job_kind (expire_job now job) = job_kind job"
  "idempotency_key (expire_job now job) = idempotency_key job"
  "callback_url (expire_job now job) = callback_url job"
  "payload (expire_job now job) = payload job"
  "attempts (expire_job now job) = attempts job"
  "max_attempts (expire_job now job) = max_attempts job"
  "terminal_attempt (expire_job now job) = terminal_attempt job"
  "created_at (expire_job now job) = created_at job"
  by (simp_all add: expire_job_def expired_attempt_def)

lemma expire_job_status:
  "job_status (expire_job now job) =
     (if is_expired now job then if retries_left job then Queued else Failed else job_status job)"
  by (simp add: expire_job_def retries_left_def)

lemma is_expired_Running: "is_expired now job \<Longrightarrow> job_status job = Running"
  by (simp add: is_expired_def)

lemma job_ok_expire:
  assumes "job_ok job" shows "job_ok (expire_job now job)"
proof (cases "is_expired now job \<and> \<not> retries_left job")
  case True
  then have run: "job_status job = Running" by (simp add: is_expired_def)
  have "callback_ok (expire_job now job)"
    using True job_ok_callback_None [OF assms] run
    by (auto simp: expire_job_def retries_left_def expired_attempt_def intro!: callback_ok_prepare)
  then show ?thesis
    using assms True run
    by (auto simp: job_ok_def expire_job_def expired_attempt_def retries_left_def)
next
  case False
  then show ?thesis
    using assms
    by (auto simp: job_ok_def callback_ok_def expire_job_def expired_attempt_def retries_left_def
        is_expired_def)
qed

lemma sweep_locked_inv:
  assumes inv: "registry_inv i" and sw: "requeue_expired_leases_locked now i = (i', report)"
  shows "registry_inv i'"
proof -
  note eq = sweep_eq [OF inv sw]
  have "records_ok i'"
    using registry_invD(1) [OF inv] by (auto simp: records_ok_def eq(2) job_ok_expire)
  moreover have "order_ok i'"
  proof -
    have "dom (jobs i') = dom (jobs i)" by (auto simp: eq(2))
    then show ?thesis using registry_invD(2) [OF inv] by (simp add: order_ok_def eq(3,5))
  qed
  moreover have "job_sat (\<lambda>job. idempotency_key job = Some k) i' jid =
      job_sat (\<lambda>job. idempotency_key job = Some k) i jid" for k jid
    by (cases "jobs i jid") (simp_all add: job_sat_def eq(2))
  then have "keys_ok i'"
    using registry_invD(4) [OF inv] by (simp add: keys_ok_def eq(4))
  moreover have "queues_ok i'"
    unfolding queues_ok_def
  proof (intro allI conjI)
    fix p
    have disj: "set (sweep_back now i p) \<inter> queued_set i p = {}"
      by (auto simp: sweep_back_def queued_set_def job_sat_def is_expired_def split: option.splits)
    then show "distinct (for_priority p (queues i'))"
      using inv_queue [OF inv, of p] inv_order(1) [OF inv] by (auto simp: eq(6) sweep_back_def)
    have "k \<in> queued_set i' p \<longleftrightarrow> k \<in> queued_set i p \<or> k \<in> set (sweep_back now i p)" for k
    proof (cases "jobs i k")
      case (Some job)
      then have "k \<in> set (job_order i)" by (rule inv_in_order [OF inv])
      then show ?thesis
        using Some is_expired_Running [of now job]
        by (cases "is_expired now job")
          (simp_all add: queued_set_def job_sat_def sweep_back_def eq(2) expire_job_status)
    qed (simp add: queued_set_def job_sat_def sweep_back_def eq(2))
    then have "queued_set i' p = queued_set i p \<union> set (sweep_back now i p)" by blast
    then show "set (for_priority p (queues i')) = queued_set i' p"
      using inv_queue [OF inv, of p] by (simp add: eq(6))
  qed
  ultimately show ?thesis by (simp add: registry_inv_def)
qed

lemma sweep_inv:
  assumes "registry_inv (inner reg)"
  shows "registry_inv (inner (fst (requeue_expired_leases db now reg)))"
  using sweep_locked_inv [OF assms, of now]
  by (simp add: requeue_expired_leases_def split: prod.splits)

lemma count_list_map_filter:
  "count_list (map f xs) w = length (filter (\<lambda>x. f x = w) xs)"
  by (induction xs) auto

definition expired_in :: "nat \<Rightarrow> 'v job_registry_inner \<Rightarrow> string \<Rightarrow> bool" where
  "expired_in now i = job_sat (is_expired now) i"

lemma expired_card:
  assumes "registry_inv i"
  shows "length (filter P (expired_ids now i (job_order i))) = card {jid. expired_in now i jid \<and> P jid}"
proof -
  have "{x \<in> set (job_order i). P x \<and> expired_in now i x} = {jid. expired_in now i jid \<and> P jid}"
    using inv_order(2) [OF assms] by (auto simp: expired_in_def job_sat_def split: option.splits)
  then show ?thesis
    using distinct_filter_length [OF inv_order(1) [OF assms], of "\<lambda>x. P x \<and> expired_in now i x"]
    by (simp add: expired_ids_def expired_in_def filter_filter conj_commute)
qed

lemma sweep_released:
  assumes inv: "registry_inv i" and sw: "requeue_expired_leases_locked now i = (i', report)"
  shows "count_list (released_workers report) w = card {k. expired_in now i k \<and> holder i k = w}"
  unfolding sweep_eq(1) [OF inv sw]
  by (simp add: Let_def sweep_report_def expiry_report_default_def count_list_map_filter
      expired_card [OF inv])

section \<open>Pruning\<close>

definition prunable :: "nat \<Rightarrow> job_retention_policy \<Rightarrow> 'v job_record \<Rightarrow> bool" where
  "prunable now policy job \<longleftrightarrow> is_terminal (job_status job) \<and>
     terminal_retention_ms policy \<le> now - updated_at job \<and> \<not> has_pending_callback job"

definition prune_entry :: "'v job_registry_inner \<Rightarrow> string \<Rightarrow> string \<times> priority \<times> job_status" where
  "prune_entry i jid =
     (case jobs i jid of None \<Rightarrow> (jid, Realtime, Queued)
      | Some job \<Rightarrow> (job_id job, job_priority job, job_status job))"

definition pruned_ids :: "nat \<Rightarrow> job_retention_policy \<Rightarrow> 'v job_registry_inner \<Rightarrow> string list" where
  "pruned_ids now policy i =
     take (max_pruned_jobs policy) (filter (job_sat (prunable now policy) i) (job_order i))"

lemma prune_scan_eq:
  "length rem \<le> max_pruned_jobs policy \<Longrightarrow>
   fst (prune_scan now policy i ids rem n) =
     rem @ take (max_pruned_jobs policy - length rem)
       (map (prune_entry i) (filter (job_sat (prunable now policy) i) ids))"
proof (induction now policy i ids rem n rule: prune_scan.induct)
  case (2 now policy i jid rest rem n)
  show ?case
  proof (cases "length rem \<ge> max_pruned_jobs policy")
    case False
    then have "max_pruned_jobs policy - length rem =
        Suc (max_pruned_jobs policy - Suc (length rem))" by simp
    then show ?thesis
      using 2 False
      by (cases "jobs i jid") (simp_all add: job_sat_def prunable_def prune_entry_def)
  qed (use 2 in simp)
qed simp

lemma prune_scan_pruned:
  "fst (prune_scan now policy i (job_order i) [] 0) = map (prune_entry i) (pruned_ids now policy i)"
  by (simp add: prune_scan_eq pruned_ids_def take_map)

lemma set_pruned_ids:
  "jid \<in> set (pruned_ids now policy i) \<Longrightarrow> job_sat (prunable now policy) i jid \<and> jid \<in> set (job_order i)"
  by (auto simp: pruned_ids_def dest: in_set_takeD)

lemma record_removed_simps [simp]:
  "removed (record_removed st report) = removed report + 1"
  "retained_pending_callbacks (record_removed st report) = retained_pending_callbacks report"
  by (simp_all add: record_removed_def)

lemma prune_remove_simps:
  assumes "prune_remove (jid, p, st) (i, report) = (i', report')"
  shows "jobs i' = (jobs i)(jid := None)" "job_order i' = job_order i" "next_id i' = next_id i"
    "queues i' = queues_remove p jid (queues i)" "report' = record_removed st report"
  using assms by (auto simp: prune_remove_def Let_def)

lemma keys_ok_remove:
  assumes "keys_ok i" "jobs i jid = Some job" "prune_remove (jid, p, st) (i, report) = (i', report')"
  shows "keys_ok i'"
proof -
  have sat: "job_sat P i' k \<longleftrightarrow> k \<noteq> jid \<and> job_sat P i k" for P k
    by (simp add: job_sat_def prune_remove_simps(1) [OF assms(3)])
  have keys: "idempotency_keys i k = Some x \<longleftrightarrow> job_sat (\<lambda>job. idempotency_key job = Some k) i x" for k x
    using assms(1) by (simp add: keys_ok_def)
  have keys': "idempotency_keys i' k =
      (if idempotency_key job = Some k then None else idempotency_keys i k)" for k
    using assms(2,3) by (auto simp: prune_remove_def Let_def split: option.splits)
  have uniq: "x = jid"
    if "idempotency_key job = Some k" "job_sat (\<lambda>job. idempotency_key job = Some k) i x" for k x
  proof -
    have "idempotency_keys i k = Some jid"
      using that(1) assms(2) by (simp add: keys job_sat_def)
    moreover have "idempotency_keys i k = Some x" using that(2) by (simp add: keys)
    ultimately show ?thesis by simp
  qed
  show ?thesis
    unfolding keys_ok_def
  proof (intro allI)
    fix k x
    show "idempotency_keys i' k = Some x \<longleftrightarrow> job_sat (\<lambda>job. idempotency_key job = Some k) i' x"
      using uniq [of k x] assms(2)
      by (auto simp: sat keys' keys) (simp add: job_sat_def)
  qed
qed

lemma prune_loop:
  assumes "keys_ok i" "distinct ids"
    and "\<And>jid. jid \<in> set ids \<Longrightarrow> job_sat (\<lambda>job. job_id job = jid) i jid"
    and "\<And>jid p. jid \<in> set ids \<Longrightarrow> jid \<notin> set (for_priority p (queues i))"
    and "fold prune_remove (map (prune_entry i) ids) (i, report) = (i', report')"
  shows "jobs i' = jobs i |` (- set ids) \<and> job_order i' = job_order i \<and> next_id i' = next_id i \<and>
    (\<forall>p. for_priority p (queues i') = for_priority p (queues i)) \<and> keys_ok i' \<and>
    removed report' = removed report + length ids \<and>
    retained_pending_callbacks report' = retained_pending_callbacks report"
  using assms
proof (induction ids arbitrary: i report)
  case Nil
  then show ?case by (simp add: restrict_map_def)
next
  case (Cons x ids)
  from Cons.prems(3) [of x] obtain job where job: "jobs i x = Some job" "job_id job = x"
    by (auto simp: job_sat_def split: option.splits)
  obtain i1 r1 where step: "prune_remove (x, job_priority job, job_status job) (i, report) = (i1, r1)"
    by fastforce
  note s = prune_remove_simps [OF step]
  have other: "jobs i1 y = jobs i y" if "y \<in> set ids" for y
    using that Cons.prems(2) by (auto simp: s(1))
  then have same: "map (prune_entry i1) ids = map (prune_entry i) ids"
    by (simp add: prune_entry_def)
  have "prune_entry i x = (x, job_priority job, job_status job)"
    using job by (simp add: prune_entry_def)
  then have rest: "fold prune_remove (map (prune_entry i1) ids) (i1, r1) = (i', report')"
    using Cons.prems(5) step unfolding same by simp
  have q: "for_priority p (queues i1) = for_priority p (queues i)" for p
    using Cons.prems(4) [of x "job_priority job"] unfolding s(4) by (intro jq.drop_absent) simp
  have "jobs i' = jobs i1 |` (- set ids) \<and> job_order i' = job_order i1 \<and> next_id i' = next_id i1 \<and>
    (\<forall>p. for_priority p (queues i') = for_priority p (queues i1)) \<and> keys_ok i' \<and>
    removed report' = removed r1 + length ids \<and>
    retained_pending_callbacks report' = retained_pending_callbacks r1"
  proof (rule Cons.IH [OF _ _ _ _ rest])
    show "keys_ok i1" by (rule keys_ok_remove [OF Cons.prems(1) job(1) step])
    show "distinct ids" using Cons.prems(2) by simp
    show "job_sat (\<lambda>job. job_id job = y) i1 y" if "y \<in> set ids" for y
      using Cons.prems(3) [of y] other [OF that] that by (simp add: job_sat_def)
    show "y \<notin> set (for_priority p (queues i1))" if "y \<in> set ids" for y p
      using Cons.prems(4) [of y p] that by (simp add: q)
  qed
  moreover have "(jobs i)(x := None) |` (- set ids) = jobs i |` (- set (x # ids))"
    by (auto simp: restrict_map_def fun_eq_iff)
  ultimately show ?case by (simp add: s(1-3) s(5) q)
qed

text \<open>What \<open>prune_terminal_jobs_locked\<close> does to a well-formed registry.\<close>

lemma prune_eq:
  assumes inv: "registry_inv i" and pr: "prune_terminal_jobs_locked now policy i = (i', report)"
  shows "jobs i' = jobs i |` (- set (pruned_ids now policy i))"
    "job_order i' = filter (\<lambda>jid. jid \<notin> set (pruned_ids now policy i)) (job_order i)"
    "next_id i' = next_id i" "\<And>p. for_priority p (queues i') = for_priority p (queues i)"
    "keys_ok i'" "removed report = length (pruned_ids now policy i)"
proof -
  let ?ids = "pruned_ids now policy i"
  obtain n where scan: "prune_scan now policy i (job_order i) [] 0 = (map (prune_entry i) ?ids, n)"
    using prune_scan_pruned [of now policy i] by (metis prod.collapse)
  obtain i1 r1 where loop: "fold prune_remove (map (prune_entry i) ?ids)
      (i, prune_report_default\<lparr>retained_pending_callbacks := n\<rparr>) = (i1, r1)"
    by fastforce
  have "distinct ?ids" using inv_order(1) [OF inv] by (simp add: pruned_ids_def)
  moreover have "job_sat (\<lambda>job. job_id job = jid) i jid" if "jid \<in> set ?ids" for jid
    using set_pruned_ids [OF that] inv_job(1) [OF inv] by (auto simp: job_sat_def split: option.splits)
  moreover have "jid \<notin> set (for_priority p (queues i))" if "jid \<in> set ?ids" for jid p
    using set_pruned_ids [OF that] inv_queue(2) [OF inv, of p]
    by (auto simp: queued_set_def job_sat_def prunable_def split: option.splits)
  ultimately have l: "jobs i1 = jobs i |` (- set ?ids) \<and> job_order i1 = job_order i \<and>
    next_id i1 = next_id i \<and> (\<forall>p. for_priority p (queues i1) = for_priority p (queues i)) \<and>
    keys_ok i1 \<and> removed r1 =
      removed (prune_report_default\<lparr>retained_pending_callbacks := n\<rparr>) + length ?ids \<and>
    retained_pending_callbacks r1 =
      retained_pending_callbacks (prune_report_default\<lparr>retained_pending_callbacks := n\<rparr>)"
    by (intro prune_loop [OF registry_invD(4) [OF inv] _ _ _ loop])
  have i': "i' = i1\<lparr>job_order := filter (\<lambda>jid. jobs i1 jid \<noteq> None) (job_order i1)\<rparr>"
    "report = r1\<lparr>by_status := sort_key (\<lambda>s. status_rank (ps_status s)) (by_status r1)\<rparr>"
    using pr scan loop by (simp_all add: prune_terminal_jobs_locked_def)
  show "jobs i' = jobs i |` (- set ?ids)" "next_id i' = next_id i"
    "for_priority p (queues i') = for_priority p (queues i)" for p
    using l by (simp_all add: i')
  show "keys_ok i'" using l by (simp add: i' keys_ok_def job_sat_def)
  show "removed report = length ?ids" using l by (simp add: i' prune_report_default_def)
  have "(jobs i1 jid \<noteq> None) = (jid \<notin> set ?ids)" if "jid \<in> set (job_order i)" for jid
    using that l inv_order(2) [OF inv] by (auto simp: restrict_map_def)
  then have "filter (\<lambda>jid. jobs i1 jid \<noteq> None) (job_order i) =
      filter (\<lambda>jid. jid \<notin> set ?ids) (job_order i)"
    by (rule filter_cong [OF refl])
  then show "job_order i' = filter (\<lambda>jid. jid \<notin> set ?ids) (job_order i)"
    using l unfolding i' by simp
qed

lemma job_sat_restrict: "jobs i' = jobs i |` A \<Longrightarrow> job_sat P i' jid \<longleftrightarrow> jid \<in> A \<and> job_sat P i jid"
  by (simp add: job_sat_def restrict_map_def)

lemma prune_locked_inv:
  assumes inv: "registry_inv i" and pr: "prune_terminal_jobs_locked now policy i = (i', report)"
  shows "registry_inv i'"
proof -
  note eq = prune_eq [OF inv pr]
  have "records_ok i'"
    using registry_invD(1) [OF inv] by (auto simp: records_ok_def eq(1) restrict_map_def)
  moreover have "order_ok i'"
  proof -
    from registry_invD(2) [OF inv] obtain ns
      where ns: "job_order i = map job_id_of ns" "sorted_wrt (<) ns"
        "\<forall>n \<in> set ns. 1 \<le> n \<and> n \<le> next_id i" "set (job_order i) = dom (jobs i)"
      unfolding order_ok_def by blast
    let ?ns = "filter (\<lambda>n. job_id_of n \<notin> set (pruned_ids now policy i)) ns"
    have "job_order i' = map job_id_of ?ns" by (simp add: eq(2) ns(1) filter_map o_def)
    moreover have "sorted_wrt (<) ?ns" using ns(2) by (rule sorted_wrt_filter)
    moreover have "\<forall>n \<in> set ?ns. 1 \<le> n \<and> n \<le> next_id i'" using ns(3) by (simp add: eq(3))
    moreover have "set (job_order i') = dom (jobs i')"
      using ns(4) by (auto simp: eq(1,2) restrict_map_def split: if_splits)
    ultimately show ?thesis unfolding order_ok_def by blast
  qed
  moreover have "queued_set i' p = queued_set i p" for p
  proof -
    have "k \<in> queued_set i' p \<longleftrightarrow> k \<in> queued_set i p" for k
      using set_pruned_ids [of k now policy i]
      by (cases "jobs i k")
        (auto simp: queued_set_def job_sat_def eq(1) restrict_map_def prunable_def)
    then show ?thesis by blast
  qed
  then have "queues_ok i'"
    using registry_invD(3) [OF inv] by (simp add: queues_ok_def eq(4))
  ultimately show ?thesis using eq(5) by (simp add: registry_inv_def)
qed

lemma prune_inv:
  assumes "registry_inv (inner reg)"
  shows "registry_inv (inner (fst (prune_terminal_jobs db now reg)))"
  using prune_locked_inv [OF assms, of now "retention_policy reg"]
  by (simp add: prune_terminal_jobs_def split: prod.splits)

lemma queues_eqI: "(\<And>p. for_priority p qs = for_priority p qs') \<Longrightarrow> qs = qs'"
proof -
  assume eq: "\<And>p. for_priority p qs = for_priority p qs'"
  show "qs = qs'"
    using eq [of Realtime] eq [of Batch] eq [of Background] by (cases qs; cases qs') simp
qed

lemma sweep_nothing:
  assumes inv: "registry_inv i" and sw: "requeue_expired_leases_locked now i = (i', report)"
    and none: "expired_ids now i (job_order i) = []"
  shows "i' = i"
proof -
  note eq = sweep_eq [OF inv sw]
  have "sweep_back now i p = []" for p
    using none by (auto simp: sweep_back_def expired_ids_def filter_empty_conv job_sat_def split: option.splits)
  then have "queues i' = queues i" using eq(6) by (intro queues_eqI) simp
  moreover have "jobs i' = jobs i"
  proof (rule ext)
    fix k
    show "jobs i' k = jobs i k"
    proof (cases "jobs i k")
      case (Some job)
      then have "\<not> is_expired now job"
        using none inv_in_order [OF inv Some]
        by (auto simp: expired_ids_def filter_empty_conv job_sat_def)
      then show ?thesis using Some by (simp add: eq(2) expire_job_def)
    qed (simp add: eq(2))
  qed
  ultimately show ?thesis using eq(3-5) by simp
qed

lemma sweep_quiet:
  assumes inv: "registry_inv (inner reg)" and quiet: "\<And>jid. \<not> expired_in now (inner reg) jid"
  shows "\<exists>reg'. requeue_expired_leases db now reg = (reg', expiry_report_default) \<and> inner reg' = inner reg"
proof -
  obtain i' report where sw: "requeue_expired_leases_locked now (inner reg) = (i', report)" by fastforce
  have none: "expired_ids now (inner reg) (job_order (inner reg)) = []"
    using quiet by (simp add: expired_ids_def expired_in_def)
  have "i' = inner reg" by (rule sweep_nothing [OF inv sw none])
  moreover have "report = expiry_report_default"
    using sweep_eq(1) [OF inv sw] by (simp add: sweep_report_def none Let_def)
  ultimately have "requeue_expired_leases db now reg =
      commit db reg (inner reg) expiry_report_default (\<lambda>_. expiry_report_default)"
    using sw by (simp add: requeue_expired_leases_def)
  then show ?thesis
    using commit_fst_snd [OF surjective_pairing, of db reg "inner reg" "expiry_report_default" "\<lambda>_. expiry_report_default"]
    by (metis surjective_pairing)
qed

end
