(* ===== verification/Jobs_Steps.thy ===== *)
theory Jobs_Steps
  imports Jobs_Sweep
begin

text \<open>
  The registry as a state machine. \<open>registry_step\<close> has one rule per mutating method of
  \<open>JobRegistry\<close>; the store may fail at any step (each rule has its own \<open>db\<close>).
  \<open>registry_run\<close> is a history from a state, with the claims and deliveries it made. \<open>job_change\<close>
  lists what a step may do to one job, and \<open>lifecycle_step\<close> is the abstract life of a job that
  the registry implements.
\<close>

section \<open>Steps and runs\<close>

datatype registry_event =
    Ev_Claimed string string nat
  | Ev_Delivered string
  | Ev_Callback string
  | Ev_Internal

inductive registry_step ::
  "('v, 's) job_registry \<Rightarrow> registry_event \<Rightarrow> ('v, 's) job_registry \<Rightarrow> bool" where
  step_submit:
    "submit db now request reg = (reg', r) \<Longrightarrow> registry_step reg Ev_Internal reg'"
| step_claim:
    "claim_next_for_worker_in_pool db now w kinds pool policy d reg = (reg', Some job) \<Longrightarrow>
     registry_step reg (Ev_Claimed (job_id job) w (attempts job)) reg'"
| step_no_claim:
    "claim_next_for_worker_in_pool db now w kinds pool policy d reg = (reg', None) \<Longrightarrow>
     registry_step reg Ev_Internal reg'"
| step_renew:
    "renew_lease db now jid w d reg = (reg', r) \<Longrightarrow> registry_step reg Ev_Internal reg'"
| step_complete:
    "complete_lease db now jid w att result reg = (reg', r2) \<Longrightarrow>
     registry_step reg Ev_Internal reg'"
| step_fail:
    "fail_lease db now jid w att failure reg = (reg', r2) \<Longrightarrow> registry_step reg Ev_Internal reg'"
| step_cancel:
    "cancel db now jid reg = (reg', r3) \<Longrightarrow> registry_step reg Ev_Internal reg'"
| step_sweep:
    "requeue_expired_leases db now reg = (reg', report) \<Longrightarrow> registry_step reg Ev_Internal reg'"
| step_prune:
    "prune_terminal_jobs db now reg = (reg', pruned) \<Longrightarrow> registry_step reg Ev_Internal reg'"
| step_begin_callback:
    "begin_callback_attempt db now jid reg = (reg', r4) \<Longrightarrow> registry_step reg (Ev_Callback jid) reg'"
| step_callback_success:
    "record_callback_success db now jid http reg = (reg', r4) \<Longrightarrow>
     registry_step reg (Ev_Delivered jid) reg'"
| step_callback_failure:
    "record_callback_failure db jid status err reg = (reg', r4) \<Longrightarrow>
     registry_step reg (Ev_Callback jid) reg'"

inductive registry_run ::
  "('v, 's) job_registry \<Rightarrow> registry_event list \<Rightarrow> ('v, 's) job_registry \<Rightarrow> bool" where
  run_start: "registry_run reg [] reg"
| run_step: "registry_run reg es reg' \<Longrightarrow> registry_step reg' e reg'' \<Longrightarrow> registry_run reg (es @ [e]) reg''"

text \<open>A registry just started: no jobs, on an empty store or without one.\<close>

definition started :: "('v, 's) job_registry \<Rightarrow> bool" where
  "started reg \<longleftrightarrow> inner reg = inner_default"

inductive_cases registry_stepE [elim?]: "registry_step reg e reg'"

lemma registry_step_inv:
  "registry_step reg e reg' \<Longrightarrow> registry_inv (inner reg) \<Longrightarrow> registry_inv (inner reg')"
proof (induction rule: registry_step.induct)
  case (step_submit db now request reg reg' r)
  then show ?case using submit_inv [of reg db now request] by simp
next
  case (step_claim db now w kinds pool policy d reg reg' job)
  then show ?case using claim_inv [of reg db now w kinds pool policy d] by simp
next
  case (step_no_claim db now w kinds pool policy d reg reg')
  then show ?case using claim_inv [of reg db now w kinds pool policy d] by simp
next
  case (step_renew db now jid w d reg reg' r)
  then show ?case using renew_inv [of reg db now jid w d] by simp
next
  case (step_complete db now jid w att result reg reg' r2)
  then show ?case using complete_inv [of reg db now jid w att result] by simp
next
  case (step_fail db now jid w att failure reg reg' r2)
  then show ?case using fail_inv [of reg db now jid w att failure] by simp
next
  case (step_cancel db now jid reg reg' r3)
  then show ?case using cancel_inv [of reg db now jid] by simp
next
  case (step_sweep db now reg reg' report)
  then show ?case using sweep_inv [of reg db now] by simp
next
  case (step_prune db now reg reg' pruned)
  then show ?case using prune_inv [of reg db now] by simp
next
  case (step_begin_callback db now jid reg reg' r4)
  then show ?case using begin_callback_inv [of reg db now jid] by simp
next
  case (step_callback_success db now jid http reg reg' r4)
  then show ?case using callback_success_inv [of reg db now jid http] by simp
next
  case (step_callback_failure db jid status err reg reg' r4)
  then show ?case using callback_failure_inv [of reg db jid status err] by simp
qed

lemma registry_run_inv:
  "registry_run reg es reg' \<Longrightarrow> registry_inv (inner reg) \<Longrightarrow> registry_inv (inner reg')"
  by (induction rule: registry_run.induct) (auto intro: registry_step_inv)

lemma started_inv: "started reg \<Longrightarrow> registry_inv (inner reg)"
  by (simp add: started_def registry_inv_default)

section \<open>What a step does to one job\<close>

text \<open>What a step does with the callback of a job: nothing, bookkeeping, or recording its delivery.\<close>

datatype callback_use = Untouched | Noted | Recorded

fun use_of :: "string \<Rightarrow> registry_event \<Rightarrow> callback_use" where
  "use_of k (Ev_Delivered jid) = (if jid = k then Recorded else Untouched)"
| "use_of k (Ev_Callback jid) = (if jid = k then Noted else Untouched)"
| "use_of k _ = Untouched"

lemma use_of_Recorded [simp]: "use_of k e = Recorded \<longleftrightarrow> e = Ev_Delivered k"
  by (cases e) auto

inductive job_change :: "callback_use \<Rightarrow> 'v job_record option \<Rightarrow> 'v job_record option \<Rightarrow> bool" where
  change_none: "job_change dlv x x"
| change_new: "job_change dlv None (Some (new_job now n request url key))"
| change_claim:
    "job_status job = Queued \<Longrightarrow> job_change dlv (Some job) (Some (claim_job now w d job))"
| change_renew:
    "job_status job = Running \<Longrightarrow> job_lease job = Some l \<Longrightarrow>
     job_change dlv (Some job) (Some (job\<lparr>job_lease := Some (l\<lparr>lease_expires_at := e\<rparr>), updated_at := now\<rparr>))"
| change_complete:
    "job_status job = Running \<Longrightarrow> job_lease job = Some l \<Longrightarrow>
     job_change dlv (Some job) (Some (completed_job now (lease_worker_id l) l result job))"
| change_requeue:
    "job_status job = Running \<Longrightarrow> attempts job < max_attempts job \<Longrightarrow>
     job_change dlv (Some job) (Some (requeue_job (failed_attempt now failure job)))"
| change_fail:
    "job_status job = Running \<Longrightarrow> job_lease job = Some l \<Longrightarrow>
     job_change dlv (Some job) (Some (fail_job (lease_worker_id l) (lease_attempt l) (failed_attempt now failure job)))"
| change_cancel:
    "\<not> is_terminal (job_status job) \<Longrightarrow> job_change dlv (Some job) (Some (cancelled_job now job))"
| change_expire:
    "is_expired now job \<Longrightarrow> job_change dlv (Some job) (Some (expire_job now job))"
| change_prune:
    "prunable now policy job \<Longrightarrow> job_change dlv (Some job) None"
| change_callback:
    "job_callback job = Some cb \<Longrightarrow> cb_status cb' = cb_status cb \<Longrightarrow>
     job_change Noted (Some job) (Some (job\<lparr>job_callback := Some cb'\<rparr>))"
| change_deliver:
    "job_callback job = Some cb \<Longrightarrow> cb_status cb' = Delivered \<Longrightarrow>
     job_change Recorded (Some job) (Some (job\<lparr>job_callback := Some cb'\<rparr>))"

lemma new_job_simps [simp]:
  "job_id (new_job now n request url key) = job_id_of n"
  "job_priority (new_job now n request url key) = req_priority request"
  "job_status (new_job now n request url key) = Queued"
  "attempts (new_job now n request url key) = 0"
  "max_attempts (new_job now n request url key) = 3"
  by (simp_all add: new_job_def)

lemma job_change_put:
  "jobs i jid = Some job \<Longrightarrow> job_change dlv (Some job) (Some job') \<Longrightarrow>
   job_change dlv (jobs i k) (jobs (put_job jid job' i) k)"
  by (auto intro: change_none)

lemma submit_change:
  assumes inv: "registry_inv (inner reg)"
  shows "job_change dlv (jobs (inner reg) k) (jobs (inner (fst (submit db now request reg))) k)"
proof (rule submit_cases [OF inv, of db now request])
  fix url key
  assume s: "submit db now request reg = submit_new db now request url key reg"
  have "job_change dlv (jobs (inner reg) k)
    (((jobs (inner reg))(job_id_of (Suc (next_id (inner reg))) \<mapsto>
        new_job now (Suc (next_id (inner reg))) request url key)) k)"
    using inv_fresh_id [OF inv] by (auto intro: change_none change_new)
  then show ?thesis
    by (simp add: s submit_new_def insert_new_job_def Let_def)
qed (auto intro: change_none)

lemma claim_change:
  "job_change dlv (jobs (inner reg) k)
     (jobs (inner (fst (claim_next_for_worker_in_pool db now w kinds pool policy d reg))) k)"
proof (cases "next_claimable kinds pool policy (inner reg)")
  case (Some jid)
  then obtain job where job: "jobs (inner reg) jid = Some job" "claimable kinds pool policy job"
    by (rule next_claimable_Some)
  then have "job_change dlv (Some job) (Some (claim_job now w d job))"
    by (intro change_claim) (simp add: claimable_def)
  with Some job show ?thesis
    by (auto simp: claim_next_for_worker_in_pool_def Let_def intro: change_none)
qed (simp add: claim_next_for_worker_in_pool_def change_none)

lemma renew_change:
  "job_change dlv (jobs (inner reg) k) (jobs (inner (fst (renew_lease db now jid w d reg))) k)"
  by (auto simp: renew_lease_def Let_def intro: change_none change_renew split: option.split)

lemma complete_change:
  "job_change dlv (jobs (inner reg) k) (jobs (inner (fst (complete_lease db now jid w att r reg))) k)"
  by (auto simp: complete_lease_def Let_def intro: change_none change_complete split: option.split)

lemma fail_change:
  "job_change dlv (jobs (inner reg) k) (jobs (inner (fst (fail_lease db now jid w att f reg))) k)"
  by (auto simp: fail_lease_def Let_def intro: change_none change_fail change_requeue split: option.split)

lemma cancel_change:
  "job_change dlv (jobs (inner reg) k) (jobs (inner (fst (cancel db now jid reg))) k)"
  by (auto simp: cancel_def Let_def intro: change_none change_cancel split: option.split)

lemma sweep_change:
  assumes inv: "registry_inv (inner reg)"
  shows "job_change dlv (jobs (inner reg) k) (jobs (inner (fst (requeue_expired_leases db now reg))) k)"
proof -
  obtain i' report where sw: "requeue_expired_leases_locked now (inner reg) = (i', report)"
    by fastforce
  have "job_change dlv x (map_option (expire_job now) x)" for x :: "'a job_record option"
  proof (cases x)
    case (Some job)
    then show ?thesis
      using change_expire [of now job dlv] change_none [of dlv "Some job"]
      by (cases "is_expired now job") (simp_all add: expire_job_def)
  qed (simp add: change_none)
  then show ?thesis
    using sweep_eq(2) [OF inv sw] sw by (simp add: requeue_expired_leases_def)
qed

lemma prune_change:
  assumes inv: "registry_inv (inner reg)"
  shows "job_change dlv (jobs (inner reg) k) (jobs (inner (fst (prune_terminal_jobs db now reg))) k)"
proof -
  obtain i' report where pr: "prune_terminal_jobs_locked now (retention_policy reg) (inner reg) = (i', report)"
    by fastforce
  have "job_change dlv (jobs (inner reg) k)
      ((jobs (inner reg) |` (- set (pruned_ids now (retention_policy reg) (inner reg)))) k)"
  proof (cases "k \<in> set (pruned_ids now (retention_policy reg) (inner reg))")
    case True
    then obtain job where "jobs (inner reg) k = Some job" "prunable now (retention_policy reg) job"
      using set_pruned_ids [OF True] by (auto simp: job_sat_def split: option.splits)
    then show ?thesis using True by (auto intro: change_prune)
  qed (simp add: change_none)
  then show ?thesis
    using prune_eq(1) [OF inv pr] pr by (simp add: prune_terminal_jobs_def)
qed

lemma begin_callback_change:
  "job_change (use_of k (Ev_Callback jid)) (jobs (inner reg) k)
     (jobs (inner (fst (begin_callback_attempt db now jid reg))) k)"
  by (auto simp: begin_callback_attempt_def Let_def intro: change_none intro!: change_callback
      split: option.split)

lemma callback_success_change:
  "job_change (use_of k (Ev_Delivered jid)) (jobs (inner reg) k)
     (jobs (inner (fst (record_callback_success db now jid h reg))) k)"
  by (auto simp: record_callback_success_def Let_def intro: change_none change_deliver
      split: option.split)

lemma callback_failure_change:
  "job_change (use_of k (Ev_Callback jid)) (jobs (inner reg) k)
     (jobs (inner (fst (record_callback_failure db jid h e reg))) k)"
  by (auto simp: record_callback_failure_def Let_def intro: change_none intro!: change_callback
      split: option.split)

lemma step_job_change:
  assumes step: "registry_step reg e reg'" and inv: "registry_inv (inner reg)"
  shows "job_change (use_of k e) (jobs (inner reg) k) (jobs (inner reg') k)"
  using step
proof cases
  case (step_submit db now request r)
  then show ?thesis using submit_change [OF inv, of Untouched k db now request] by simp
next
  case (step_claim db now w kinds pool policy d job)
  then show ?thesis using claim_change [of Untouched reg k db now w kinds pool policy d] by simp
next
  case (step_no_claim db now w kinds pool policy d)
  then show ?thesis using claim_change [of Untouched reg k db now w kinds pool policy d] by simp
next
  case (step_renew db now jid w d r)
  then show ?thesis using renew_change [of Untouched reg k db now jid w d] by simp
next
  case (step_complete db now jid w att result r2)
  then show ?thesis using complete_change [of Untouched reg k db now jid w att result] by simp
next
  case (step_fail db now jid w att failure r2)
  then show ?thesis using fail_change [of Untouched reg k db now jid w att failure] by simp
next
  case (step_cancel db now jid r3)
  then show ?thesis using cancel_change [of Untouched reg k db now jid] by simp
next
  case (step_sweep db now report)
  then show ?thesis using sweep_change [OF inv, of Untouched k db now] by simp
next
  case (step_prune db now pruned)
  then show ?thesis using prune_change [OF inv, of Untouched k db now] by simp
next
  case (step_begin_callback db now jid r4)
  then show ?thesis using begin_callback_change [of k jid reg db now] by simp
next
  case (step_callback_success db now jid http r4)
  then show ?thesis using callback_success_change [of k jid reg db now http] by simp
next
  case (step_callback_failure db jid status err r4)
  then show ?thesis using callback_failure_change [of k jid reg db status err] by simp
qed

section \<open>Ids are never reused\<close>

definition ids_kept :: "'v job_registry_inner \<Rightarrow> 'v job_registry_inner \<Rightarrow> bool" where
  "ids_kept i i' \<longleftrightarrow> next_id i' = next_id i \<and> dom (jobs i') \<subseteq> dom (jobs i)"

definition id_added :: "'v job_registry_inner \<Rightarrow> 'v job_registry_inner \<Rightarrow> bool" where
  "id_added i i' \<longleftrightarrow> next_id i' = Suc (next_id i) \<and>
     dom (jobs i') = insert (job_id_of (Suc (next_id i))) (dom (jobs i))"

lemma ids_kept_refl [simp]: "ids_kept i i"
  by (simp add: ids_kept_def)

lemma ids_kept_put [simp]: "jobs i jid = Some job \<Longrightarrow> ids_kept i (put_job jid job' i)"
  by (auto simp: ids_kept_def)

lemma ids_kept_queues [simp]: "ids_kept i (i'\<lparr>queues := qs\<rparr>) = ids_kept i i'"
  by (simp add: ids_kept_def)

lemma submit_ids:
  assumes "registry_inv (inner reg)"
  shows "ids_kept (inner reg) (inner (fst (submit db now request reg))) \<or>
    id_added (inner reg) (inner (fst (submit db now request reg)))"
  by (rule submit_cases [OF assms, of db now request])
    (auto simp: submit_new_def insert_new_job_def Let_def id_added_def)

lemma claim_ids:
  "ids_kept (inner reg) (inner (fst (claim_next_for_worker_in_pool db now w kinds pool policy d reg)))"
  by (auto simp: claim_next_for_worker_in_pool_def Let_def split: option.split)

lemma lease_ids:
  "ids_kept (inner reg) (inner (fst (renew_lease db now jid w d reg)))"
  "ids_kept (inner reg) (inner (fst (complete_lease db now jid w att r reg)))"
  "ids_kept (inner reg) (inner (fst (fail_lease db now jid w att f reg)))"
  "ids_kept (inner reg) (inner (fst (cancel db now jid reg)))"
  by (auto simp: renew_lease_def complete_lease_def fail_lease_def cancel_def Let_def split: option.split)

lemma callback_ids:
  "ids_kept (inner reg) (inner (fst (begin_callback_attempt db now jid reg)))"
  "ids_kept (inner reg) (inner (fst (record_callback_success db now jid h reg)))"
  "ids_kept (inner reg) (inner (fst (record_callback_failure db jid st e reg)))"
  by (auto simp: begin_callback_attempt_def record_callback_success_def
      record_callback_failure_def Let_def split: option.split)

lemma sweep_ids:
  assumes inv: "registry_inv (inner reg)"
  shows "ids_kept (inner reg) (inner (fst (requeue_expired_leases db now reg)))"
proof -
  obtain i' report where sw: "requeue_expired_leases_locked now (inner reg) = (i', report)"
    by fastforce
  then show ?thesis
    using sweep_eq(2,5) [OF inv sw]
    by (auto simp: requeue_expired_leases_def ids_kept_def)
qed

lemma prune_ids:
  assumes inv: "registry_inv (inner reg)"
  shows "ids_kept (inner reg) (inner (fst (prune_terminal_jobs db now reg)))"
proof -
  obtain i' report where pr: "prune_terminal_jobs_locked now (retention_policy reg) (inner reg) = (i', report)"
    by fastforce
  then show ?thesis
    using prune_eq(1,3) [OF inv pr]
    by (auto simp: prune_terminal_jobs_def ids_kept_def restrict_map_def split: if_splits)
qed

lemma step_ids:
  assumes step: "registry_step reg e reg'" and inv: "registry_inv (inner reg)"
  shows "ids_kept (inner reg) (inner reg') \<or> id_added (inner reg) (inner reg')"
  using step
  by (cases rule: registry_step.cases)
    (metis fst_conv submit_ids [OF inv] claim_ids lease_ids sweep_ids [OF inv]
      prune_ids [OF inv] callback_ids)+

section \<open>The life of a job\<close>

datatype phase = Absent | Waiting nat | Active nat string | Done job_status nat

definition phase_of :: "'v job_record option \<Rightarrow> phase" where
  "phase_of x =
     (case x of None \<Rightarrow> Absent
      | Some job \<Rightarrow>
          (case job_status job of
             Queued \<Rightarrow> Waiting (attempts job)
           | Running \<Rightarrow>
               Active (attempts job)
                 (case job_lease job of None \<Rightarrow> [] | Some l \<Rightarrow> lease_worker_id l)
           | st \<Rightarrow> Done st (attempts job)))"

inductive lifecycle_step :: "phase \<Rightarrow> phase \<Rightarrow> bool" where
  life_submit: "lifecycle_step Absent (Waiting 0)"
| life_claim: "n < 3 \<Longrightarrow> lifecycle_step (Waiting n) (Active (Suc n) w)"
| life_requeue: "n < 3 \<Longrightarrow> lifecycle_step (Active n w) (Waiting n)"
| life_finish: "st \<in> {Complete, Failed, Cancelled} \<Longrightarrow> lifecycle_step (Active n w) (Done st n)"
| life_cancel: "lifecycle_step (Waiting n) (Done Cancelled n)"
| life_forget: "lifecycle_step (Done st n) Absent"

inductive_simps lifecycle_step_Done: "lifecycle_step (Done st n) p"
inductive_simps lifecycle_step_Active: "lifecycle_step (Active n w) p"
inductive_simps lifecycle_step_Waiting: "lifecycle_step (Waiting n) p"
inductive_simps lifecycle_step_Absent: "lifecycle_step Absent p"

definition max_three :: "'v job_registry_inner \<Rightarrow> bool" where
  "max_three i \<longleftrightarrow> (\<forall>k job. jobs i k = Some job \<longrightarrow> max_attempts job = 3)"

lemma transition_max [simp]:
  "max_attempts (claim_job now w d job) = max_attempts job"
  "max_attempts (completed_job now w l r job) = max_attempts job"
  "max_attempts (fail_job w att job) = max_attempts job"
  "max_attempts (requeue_job job) = max_attempts job"
  "max_attempts (cancelled_job now job) = max_attempts job"
  "attempts (claim_job now w d job) = Suc (attempts job)"
  "attempts (completed_job now w l r job) = attempts job"
  "attempts (fail_job w att job) = attempts job"
  "attempts (requeue_job job) = attempts job"
  "attempts (cancelled_job now job) = attempts job"
  by (simp_all add: claim_job_def completed_job_def fail_job_def requeue_job_def cancelled_job_def)

lemma job_change_max:
  "job_change dlv x y \<Longrightarrow> y = Some job' \<Longrightarrow>
     max_attempts job' = (case x of None \<Rightarrow> max_attempts job' | Some job \<Rightarrow> max_attempts job) \<and>
     (x = None \<longrightarrow> max_attempts job' = 3)"
  by (induction rule: job_change.induct) auto

lemma step_max_three:
  assumes "registry_step reg e reg'" "registry_inv (inner reg)" "max_three (inner reg)"
  shows "max_three (inner reg')"
  unfolding max_three_def
proof (intro allI impI)
  fix k job' assume "jobs (inner reg') k = Some job'"
  then show "max_attempts job' = 3"
    using job_change_max [OF step_job_change [OF assms(1,2), of k]] assms(3)
    by (cases "jobs (inner reg) k") (simp_all add: max_three_def)
qed

lemma job_change_lifecycle:
  assumes "job_change dlv x y" and "\<And>job. x = Some job \<Longrightarrow> job_ok job \<and> max_attempts job = 3"
  shows "phase_of x = phase_of y \<or> lifecycle_step (phase_of x) (phase_of y)"
  using assms
proof (induction rule: job_change.induct)
  case (change_claim job now w d)
  then show ?case
    by (auto simp: phase_of_def claim_job_def job_ok_def lifecycle_step_Waiting)
next
  case (change_cancel job now)
  then show ?case
    by (cases "job_status job") (auto simp: phase_of_def intro: lifecycle_step.intros)
next
  case (change_expire now job)
  then show ?case
    by (auto simp: phase_of_def is_expired_def expire_job_def expired_attempt_def
        lifecycle_step_Active split: option.splits)
next
  case (change_prune now policy job)
  then show ?case
    by (cases "job_status job") (auto simp: phase_of_def prunable_def intro: lifecycle_step.intros)
next
  case (change_callback job cb cb')
  then show ?case by (cases "job_status job") (simp_all add: phase_of_def)
next
  case (change_deliver job cb cb')
  then show ?case by (cases "job_status job") (simp_all add: phase_of_def)
qed (auto simp: phase_of_def intro: lifecycle_step.intros)

lemma step_lifecycle:
  assumes "registry_step reg e reg'" "registry_inv (inner reg)" "max_three (inner reg)"
  shows "phase_of (jobs (inner reg) k) = phase_of (jobs (inner reg') k) \<or>
    lifecycle_step (phase_of (jobs (inner reg) k)) (phase_of (jobs (inner reg') k))"
  using job_change_lifecycle [OF step_job_change [OF assms(1,2), of k]]
    inv_job [OF assms(2)] assms(3)
  by (simp add: max_three_def)

lemma run_max_three:
  "registry_run reg es reg' \<Longrightarrow> registry_inv (inner reg) \<Longrightarrow> max_three (inner reg) \<Longrightarrow>
     max_three (inner reg')"
  by (induction rule: registry_run.induct) (auto intro: step_max_three registry_run_inv)

lemma started_max_three: "started reg \<Longrightarrow> max_three (inner reg)"
  by (simp add: started_def max_three_def inner_default_def)

end
