(* ===== verification/Jobs_History.thy ===== *)
theory Jobs_History
  imports Jobs_Steps
begin

text \<open>
  Facts about whole histories of the job registry: which claims a job can have, who may still
  finish it, what of a job never changes, and that an undelivered callback is kept.
\<close>

section \<open>The claims of one job\<close>

fun claims_of :: "string \<Rightarrow> registry_event list \<Rightarrow> (string \<times> nat) list" where
  "claims_of jid [] = []"
| "claims_of jid (Ev_Claimed k w n # es) = (if k = jid then (w, n) # claims_of jid es else claims_of jid es)"
| "claims_of jid (_ # es) = claims_of jid es"

lemma claims_of_append [simp]: "claims_of jid (es @ fs) = claims_of jid es @ claims_of jid fs"
  by (induction jid es rule: claims_of.induct) auto

definition holder_of :: "'v job_record \<Rightarrow> string option" where
  "holder_of job = map_option lease_worker_id (job_lease job)"

text \<open>The claims so far against the present state of the job.\<close>

definition history_ok :: "'v job_registry_inner \<Rightarrow> string \<Rightarrow> (string \<times> nat) list \<Rightarrow> bool" where
  "history_ok i jid cs \<longleftrightarrow>
     (\<forall>c \<in> set cs. 1 \<le> snd c \<and> snd c \<le> 3) \<and> sorted_wrt (<) (map snd cs) \<and>
     (\<forall>job. jobs i jid = Some job \<longrightarrow> (\<forall>c \<in> set cs. snd c \<le> attempts job \<and>
        (snd c = attempts job \<and> job_status job = Running \<longrightarrow> holder_of job = Some (fst c)))) \<and>
     (cs \<noteq> [] \<longrightarrow> (\<exists>n. n \<le> next_id i \<and> jid = job_id_of n))"

lemma claim_event:
  assumes "claim_next_for_worker_in_pool db now w kinds pool policy d reg = (reg', Some job')"
  obtains jid job where "jobs (inner reg) jid = Some job" "claimable kinds pool policy job"
    "job' = claim_job now w d job" "jobs (inner reg') = (jobs (inner reg))(jid \<mapsto> job')"
    "next_claimable kinds pool policy (inner reg) = Some jid"
    "inner reg' = (put_job jid job' (inner reg))
       \<lparr>queues := queues_remove (job_priority job) jid (queues (inner reg))\<rparr>"
proof (cases "next_claimable kinds pool policy (inner reg)")
  case (Some jid)
  then obtain job where job: "jobs (inner reg) jid = Some job" "claimable kinds pool policy job"
    by (rule next_claimable_Some)
  let ?i = "(put_job jid (claim_job now w d job) (inner reg))
       \<lparr>queues := queues_remove (job_priority job) jid (queues (inner reg))\<rparr>"
  have c: "commit db reg ?i (Some (claim_job now w d job)) (\<lambda>_. None) = (reg', Some job')"
    using assms Some job by (simp add: claim_next_for_worker_in_pool_def Let_def)
  then have "inner reg' = ?i" by (metis commit_inner fst_conv)
  moreover have "job' = claim_job now w d job"
    using c commit_result_cases [of db reg ?i "Some (claim_job now w d job)" "\<lambda>_. None"] by simp
  ultimately show thesis using that [of jid job] job Some by simp
qed (use assms in \<open>simp add: claim_next_for_worker_in_pool_def\<close>)

lemma step_claimed:
  assumes step: "registry_step reg (Ev_Claimed jid w n) reg'" and inv: "registry_inv (inner reg)"
  obtains job now d where "jobs (inner reg) jid = Some job" "job_status job = Queued"
    "n = Suc (attempts job)" "jobs (inner reg') jid = Some (claim_job now w d job)"
    "next_id (inner reg') = next_id (inner reg)"
  using step
proof cases
  case (step_claim db now kinds pool policy d job')
  from step_claim(3) obtain k job where k: "jobs (inner reg) k = Some job"
      "claimable kinds pool policy job" "job' = claim_job now w d job"
      "jobs (inner reg') = (jobs (inner reg))(k \<mapsto> job')"
      "inner reg' = (put_job k job' (inner reg))
         \<lparr>queues := queues_remove (job_priority job) k (queues (inner reg))\<rparr>"
    by (rule claim_event)
  have "k = jid" using step_claim(1) k inv_job(1) [OF inv k(1)] by simp
  then show thesis
    using that [of job now d] k step_claim(2) by (simp add: claimable_def)
qed

lemma job_change_attempts:
  "job_change dlv x y \<Longrightarrow> x = Some job \<Longrightarrow> y = Some job' \<Longrightarrow>
     attempts job \<le> attempts job' \<and>
     (attempts job' = attempts job \<and> job_status job' = Running \<longrightarrow>
        job_status job = Running \<and> holder_of job' = holder_of job)"
  by (induction rule: job_change.induct)
    (auto simp: holder_of_def expire_job_status dest: is_expired_Running split: if_splits)

lemma order_id:
  assumes "registry_inv i" "jobs i jid = Some job"
  obtains n where "n \<le> next_id i" "jid = job_id_of n"
proof -
  from registry_invD(2) [OF assms(1)] obtain ns
    where "job_order i = map job_id_of ns" "\<forall>n \<in> set ns. 1 \<le> n \<and> n \<le> next_id i"
    unfolding order_ok_def by blast
  then show thesis using inv_in_order [OF assms] that by auto
qed

lemma history_claim:
  assumes h: "history_ok (inner reg) jid cs" and step: "registry_step reg (Ev_Claimed jid w n) reg'"
    and inv: "registry_inv (inner reg)" and three: "max_three (inner reg)"
  shows "history_ok (inner reg') jid (cs @ [(w, n)])"
proof -
  obtain job now d where s: "jobs (inner reg) jid = Some job" "job_status job = Queued"
      "n = Suc (attempts job)" "jobs (inner reg') jid = Some (claim_job now w d job)"
      "next_id (inner reg') = next_id (inner reg)"
    using step_claimed [OF step inv] by blast
  have "attempts job < 3"
    using inv_job(2) [OF inv s(1)] s(1,2) three by (auto simp: job_ok_def max_three_def)
  moreover have le: "\<forall>c \<in> set cs. snd c \<le> attempts job"
    using h s(1) by (simp add: history_ok_def)
  then have "\<forall>c \<in> set cs. snd c < n \<and> snd c \<noteq> n" using s(3) by fastforce
  moreover have "\<exists>m. m \<le> next_id (inner reg') \<and> jid = job_id_of m"
    using order_id [OF inv s(1)] s(5) by metis
  moreover have "holder_of (claim_job now w d job) = Some w"
    by (simp add: holder_of_def claim_job_def)
  ultimately show ?thesis
    using h s le by (auto simp: history_ok_def sorted_wrt_append intro: le_SucI)
qed

lemma history_other:
  assumes h: "history_ok (inner reg) jid cs" and step: "registry_step reg e reg'"
    and inv: "registry_inv (inner reg)"
  shows "history_ok (inner reg') jid cs"
proof -
  note ids = step_ids [OF step inv]
  have le: "next_id (inner reg) \<le> next_id (inner reg')"
    using ids by (auto simp: ids_kept_def id_added_def)
  have "\<forall>c \<in> set cs. snd c \<le> attempts job' \<and>
      (snd c = attempts job' \<and> job_status job' = Running \<longrightarrow> holder_of job' = Some (fst c))"
    if job': "jobs (inner reg') jid = Some job'" for job'
  proof (cases "jobs (inner reg) jid")
    case None
    then have "jid = job_id_of (Suc (next_id (inner reg)))"
      using ids job' by (auto simp: ids_kept_def id_added_def)
    then have "cs = []" using h by (auto simp: history_ok_def)
    then show ?thesis by simp
  next
    case (Some job)
    have ch: "attempts job \<le> attempts job'"
      "attempts job' = attempts job \<Longrightarrow> job_status job' = Running \<Longrightarrow>
         job_status job = Running \<and> holder_of job' = holder_of job"
      using job_change_attempts [OF step_job_change [OF step inv, of jid] Some job'] by blast+
    have "\<forall>c \<in> set cs. snd c \<le> attempts job \<and>
        (snd c = attempts job \<and> job_status job = Running \<longrightarrow> holder_of job = Some (fst c))"
      using h Some by (simp add: history_ok_def)
    then show ?thesis using ch by (metis le_antisym le_trans)
  qed
  moreover have "\<exists>n. n \<le> next_id (inner reg') \<and> jid = job_id_of n" if "cs \<noteq> []"
    using h le that unfolding history_ok_def by (blast intro: le_trans)
  ultimately show ?thesis using h unfolding history_ok_def by blast
qed

lemma run_history:
  assumes "registry_run reg es reg'" "started reg"
  shows "history_ok (inner reg') jid (claims_of jid es) \<and> registry_inv (inner reg') \<and> max_three (inner reg')"
  using assms
proof (induction rule: registry_run.induct)
  case (run_start reg)
  then show ?case
    using started_inv [of reg] started_max_three [of reg]
    by (simp add: history_ok_def)
next
  case (run_step reg es reg' e reg'')
  then have h: "history_ok (inner reg') jid (claims_of jid es)" "registry_inv (inner reg')"
    "max_three (inner reg')" by simp_all
  note rest = registry_step_inv [OF run_step.hyps(2) h(2)] step_max_three [OF run_step.hyps(2) h(2,3)]
  show ?case
  proof (cases "\<exists>w n. e = Ev_Claimed jid w n")
    case True
    then obtain w n where "e = Ev_Claimed jid w n" by blast
    then show ?thesis using history_claim [of reg' jid _ w n reg''] h rest run_step.hyps(2) by simp
  next
    case False
    then have "claims_of jid [e] = []" by (cases e) auto
    then show ?thesis using history_other [OF h(1) run_step.hyps(2) h(2)] rest by simp
  qed
qed

section \<open>What never changes\<close>

definition same_origin :: "'v job_record \<Rightarrow> 'v job_record \<Rightarrow> bool" where
  "same_origin job job' \<longleftrightarrow> job_id job' = job_id job \<and> job_kind job' = job_kind job \<and>
     job_priority job' = job_priority job \<and> payload job' = payload job \<and>
     callback_url job' = callback_url job \<and> idempotency_key job' = idempotency_key job \<and>
     max_attempts job' = max_attempts job \<and> created_at job' = created_at job"

definition same_outcome :: "'v job_record \<Rightarrow> 'v job_record \<Rightarrow> bool" where
  "same_outcome job job' \<longleftrightarrow> job_status job' = job_status job \<and> job_result job' = job_result job \<and>
     job_error job' = job_error job \<and> attempts job' = attempts job \<and>
     job_lease job' = job_lease job \<and> terminal_attempt job' = terminal_attempt job \<and>
     updated_at job' = updated_at job"

lemma transition_origin:
  "same_origin job (claim_job now w d job)"
  "same_origin job (completed_job now w l r job)"
  "same_origin job (fail_job w att (failed_attempt now f job))"
  "same_origin job (requeue_job (failed_attempt now f job))"
  "same_origin job (cancelled_job now job)"
  by (simp_all add: same_origin_def claim_job_def completed_job_def fail_job_def requeue_job_def
      failed_attempt_def cancelled_job_def)

lemma job_change_origin:
  "job_change dlv x y \<Longrightarrow> x = Some job \<Longrightarrow> y = Some job' \<Longrightarrow> same_origin job job'"
  by (induction rule: job_change.induct) (auto simp: transition_origin, auto simp: same_origin_def)

lemma job_change_terminal:
  "job_change dlv x y \<Longrightarrow> x = Some job \<Longrightarrow> is_terminal (job_status job) \<Longrightarrow>
     (case y of None \<Rightarrow> \<not> has_pending_callback job
      | Some job' \<Rightarrow> same_outcome job job' \<and> (dlv = Recorded \<or> (callback_delivered job' \<longleftrightarrow> callback_delivered job)))"
  by (induction rule: job_change.induct)
    (auto simp: same_outcome_def is_expired_def prunable_def callback_delivered_def)

section \<open>Terminal jobs along a run\<close>

lemma run_terminal:
  assumes "registry_run reg es reg'" "registry_inv (inner reg)"
    and "jobs (inner reg) jid = Some job" "is_terminal (job_status job)"
    and "\<exists>m. jid = job_id_of m \<and> m \<le> next_id (inner reg)"
  shows "case jobs (inner reg') jid of
      None \<Rightarrow> \<exists>m. jid = job_id_of m \<and> m \<le> next_id (inner reg')
    | Some job' \<Rightarrow> same_outcome job job' \<and> same_origin job job' \<and>
        (\<exists>m. jid = job_id_of m \<and> m \<le> next_id (inner reg'))"
  using assms
proof (induction rule: registry_run.induct)
  case (run_start reg)
  then show ?case by (simp add: same_outcome_def same_origin_def)
next
  case (run_step reg es reg' e reg'')
  have inv': "registry_inv (inner reg')" using run_step.hyps(1) run_step.prems(1) by (rule registry_run_inv)
  note ch = step_job_change [OF run_step.hyps(2) inv', of jid]
  note ids = step_ids [OF run_step.hyps(2) inv']
  note IH = run_step.IH [OF run_step.prems]
  have le: "next_id (inner reg') \<le> next_id (inner reg'')"
    using ids by (auto simp: ids_kept_def id_added_def)
  have m: "\<exists>m. jid = job_id_of m \<and> m \<le> next_id (inner reg')"
    using IH by (cases "jobs (inner reg') jid") simp_all
  have m': "\<exists>m. jid = job_id_of m \<and> m \<le> next_id (inner reg'')"
    using m le by (blast intro: le_trans)
  show ?case
  proof (cases "jobs (inner reg') jid")
    case None
    have "jid \<noteq> job_id_of (Suc (next_id (inner reg')))" using m by auto
    then have "jobs (inner reg'') jid = None"
      using ids None by (auto simp: ids_kept_def id_added_def)
    then show ?thesis using m' by simp
  next
    case (Some job')
    then have s: "same_outcome job job'" "same_origin job job'" "is_terminal (job_status job')"
      using IH run_step.prems(3) by (auto simp: same_outcome_def)
    show ?thesis
    proof (cases "jobs (inner reg'') jid")
      case (Some job'')
      then show ?thesis
        using job_change_terminal [OF ch, OF \<open>jobs (inner reg') jid = Some job'\<close> s(3)]
          job_change_origin [OF ch, OF \<open>jobs (inner reg') jid = Some job'\<close> Some] s m'
        by (simp add: same_outcome_def same_origin_def)
    qed (use m' in simp)
  qed
qed

section \<open>Without a store, every attempt was handed out\<close>

text \<open>Without a store no write fails: a job starts to run only in a claim that hands it out.\<close>

definition stays_queued :: "('v, 's) job_registry \<Rightarrow> ('v, 's) job_registry \<Rightarrow> string \<Rightarrow> bool" where
  "stays_queued reg reg' jid \<longleftrightarrow> store reg' = None \<and>
     (job_sat (\<lambda>job. job_status job = Queued) (inner reg) jid \<longrightarrow>
      \<not> job_sat (\<lambda>job. job_status job = Running) (inner reg') jid)"

lemma commit_memory: "store reg = None \<Longrightarrow> commit db reg i ok err = (reg\<lparr>inner := i\<rparr>, ok)"
  by (simp add: commit_def persist_locked_def)

lemma stays_queued_refl: "store reg = None \<Longrightarrow> stays_queued reg reg jid"
  by (auto simp: stays_queued_def job_sat_def split: option.splits)

lemma stays_queued_ops:
  assumes m: "store reg = None"
  shows "stays_queued reg (fst (renew_lease db now k w d reg)) jid"
    "stays_queued reg (fst (complete_lease db now k w att r reg)) jid"
    "stays_queued reg (fst (fail_lease db now k w att f reg)) jid"
    "stays_queued reg (fst (cancel db now k reg)) jid"
    "stays_queued reg (fst (begin_callback_attempt db now k reg)) jid"
    "stays_queued reg (fst (record_callback_success db now k h reg)) jid"
    "stays_queued reg (fst (record_callback_failure db k st e reg)) jid"
  using m by (auto simp: commit_memory renew_lease_def complete_lease_def fail_lease_def cancel_def begin_callback_attempt_def
      record_callback_success_def record_callback_failure_def Let_def completed_job_def fail_job_def requeue_job_def
      cancelled_job_def job_sat_def stays_queued_def failed_attempt_def split: option.splits)

lemma stays_queued_submit:
  assumes m: "store reg = None" and inv: "registry_inv (inner reg)"
  shows "stays_queued reg (fst (submit db now request reg)) jid"
proof (rule submit_cases [OF inv, of db now request])
  fix url key
  assume s: "submit db now request reg = submit_new db now request url key reg"
  then show ?thesis
    using m by (auto simp: commit_memory s submit_new_def insert_new_job_def Let_def stays_queued_def job_sat_def split: option.splits)
qed (auto intro: stays_queued_refl m)

lemma stays_queued_sweep:
  assumes m: "store reg = None" and inv: "registry_inv (inner reg)"
  shows "stays_queued reg (fst (requeue_expired_leases db now reg)) jid"
proof -
  obtain i' report where sw: "requeue_expired_leases_locked now (inner reg) = (i', report)" by fastforce
  have "stays_queued reg (reg\<lparr>inner := i'\<rparr>) jid"
    using m by (auto simp: commit_memory stays_queued_def job_sat_def sweep_eq(2) [OF inv sw] expire_job_def
        dest: is_expired_Running split: option.splits)
  then show ?thesis using m sw stays_queued_refl by (auto simp: requeue_expired_leases_def commit_memory)
qed

lemma stays_queued_prune:
  assumes m: "store reg = None" and inv: "registry_inv (inner reg)"
  shows "stays_queued reg (fst (prune_terminal_jobs db now reg)) jid"
proof -
  obtain i' report where pr: "prune_terminal_jobs_locked now (retention_policy reg) (inner reg) = (i', report)" by fastforce
  have "stays_queued reg (reg\<lparr>inner := i'\<rparr>) jid"
    using m by (auto simp: commit_memory stays_queued_def job_sat_def prune_eq(1) [OF inv pr] restrict_map_def split: option.splits if_splits)
  then show ?thesis using m pr stays_queued_refl by (auto simp: prune_terminal_jobs_def commit_memory)
qed

lemma claim_memory:
  assumes m: "store reg = None"
    and c: "claim_next_for_worker_in_pool db now w kinds pool policy d reg = (reg', r)"
  shows "store reg' = None \<and> (r = None \<longrightarrow> reg' = reg)"
proof (cases "next_claimable kinds pool policy (inner reg)")
  case (Some k)
  then obtain job where "jobs (inner reg) k = Some job" by (rule next_claimable_Some)
  then show ?thesis using c m Some by (auto simp: claim_next_for_worker_in_pool_def Let_def commit_memory)
qed (use c m in \<open>simp add: claim_next_for_worker_in_pool_def\<close>)

lemma step_stays_queued:
  assumes step: "registry_step reg e reg'" and inv: "registry_inv (inner reg)" and m: "store reg = None"
    and other: "\<And>w n. e \<noteq> Ev_Claimed jid w n"
  shows "stays_queued reg reg' jid"
  using step
proof cases
  case (step_submit db now request r)
  then show ?thesis using stays_queued_submit [OF m inv, of db now request jid] by simp
next
  case (step_claim db now w kinds pool policy d job)
  from step_claim(2) obtain k where k: "jobs (inner reg) k \<noteq> None" "jobs (inner reg') = (jobs (inner reg))(k \<mapsto> job)"
      "job_id job = k"
    by (rule claim_event) (use inv_job(1) [OF inv] in \<open>fastforce simp: claim_job_def\<close>)
  then have "k \<noteq> jid" using other step_claim(1) by blast
  then show ?thesis
    using claim_memory [OF m step_claim(2)] k(2) by (auto simp: stays_queued_def job_sat_def split: option.splits)
next
  case (step_no_claim db now w kinds pool policy d)
  then show ?thesis using claim_memory [OF m step_no_claim(2)] stays_queued_refl [OF m] by simp
next
  case (step_sweep db now report)
  then show ?thesis using stays_queued_sweep [OF m inv, of db now jid] by simp
next
  case (step_prune db now pruned)
  then show ?thesis using stays_queued_prune [OF m inv, of db now jid] by simp
qed (use stays_queued_ops [OF m, where jid = jid] in \<open>metis fst_conv\<close>)+

definition told :: "'v job_registry_inner \<Rightarrow> string \<Rightarrow> (string \<times> nat) list \<Rightarrow> bool" where
  "told i jid cs \<longleftrightarrow> (\<forall>job. jobs i jid = Some job \<and> job_status job = Running \<longrightarrow>
     cs \<noteq> [] \<and> holder_of job = Some (fst (last cs)) \<and> attempts job = snd (last cs))"

lemma running_keeps_attempt:
  "job_change dlv x y \<Longrightarrow> x = Some job \<Longrightarrow> y = Some job' \<Longrightarrow> job_status job = Running \<Longrightarrow> job_status job' = Running \<Longrightarrow>
     attempts job' = attempts job \<and> holder_of job' = holder_of job"
  by (induction rule: job_change.induct)
    (auto simp: holder_of_def expire_job_status completed_job_def fail_job_def requeue_job_def cancelled_job_def
      split: if_splits)

lemma running_from: "job_change dlv x (Some job) \<Longrightarrow> job_status job = Running \<Longrightarrow> \<exists>job0. x = Some job0"
  by (auto elim: job_change.cases)

lemma told_run:
  assumes "registry_run reg es reg'" "started reg" "store reg = None"
  shows "told (inner reg') jid (claims_of jid es) \<and> store reg' = None"
  using assms
proof (induction rule: registry_run.induct)
  case (run_start reg)
  then show ?case by (simp add: told_def started_def inner_default_def)
next
  case (run_step reg es reg' e reg'')
  then have h: "told (inner reg') jid (claims_of jid es)" "store reg' = None" by simp_all
  have inv: "registry_inv (inner reg')" using run_history [OF run_step.hyps(1) run_step.prems(1)] by blast
  note step = run_step.hyps(2)
  show ?case
  proof (cases "\<exists>w n. e = Ev_Claimed jid w n")
    case True
    then obtain w n where e: "e = Ev_Claimed jid w n" by blast
    obtain job now d where "jobs (inner reg'') jid = Some (claim_job now w d job)" "n = Suc (attempts job)"
      using step_claimed [OF step [unfolded e] inv] by metis
    then have "told (inner reg'') jid (claims_of jid es @ [(w, n)])"
      by (simp add: told_def holder_of_def claim_job_def)
    moreover have "store reg'' = None" using step [unfolded e] claim_memory [OF h(2)] by cases blast
    ultimately show ?thesis by (simp add: e)
  next
    case False
    then have "claims_of jid [e] = []" by (cases e) auto
    have st: "stays_queued reg' reg'' jid" using step_stays_queued [OF step inv h(2)] False by blast
    have "cs \<noteq> [] \<and> holder_of job = Some (fst (last cs)) \<and> attempts job = snd (last cs)"
      if job: "jobs (inner reg'') jid = Some job" and running: "job_status job = Running" and cs: "cs = claims_of jid es" for job cs
    proof -
      note ch = step_job_change [OF step inv, of jid, unfolded job]
      obtain job0 where j0: "jobs (inner reg') jid = Some job0" using running_from [OF ch running] by blast
      moreover have "job_status job0 = Running"
        using st j0 job running ch by (auto simp: stays_queued_def job_sat_def dest: is_expired_Running elim!: job_change.cases)
      ultimately show ?thesis
        using h(1) running_keeps_attempt [OF ch j0 refl _ running] cs by (simp add: told_def)
    qed
    then show ?thesis using st \<open>claims_of jid [e] = []\<close> by (simp add: told_def stays_queued_def)
  qed
qed

end
