(* ===== verification/Jobs_Example.thy ===== *)
theory Jobs_Example
  imports Jobs_History
begin

text \<open>
  A small history of the job registry, evaluated once, that the witnesses use: one job with a
  callback and an idempotency key is submitted, claimed by worker \<open>w1\<close>, completed, and its
  callback delivered; or its lease expires and is swept.
\<close>

definition ex_db :: "(nat, unit) persist" where
  "ex_db = (\<lambda>_ s. Inr s)"

definition ex_request :: "nat submit_job_request" where
  "ex_request =
     \<lparr>req_kind = Cluster, req_priority = Batch, req_payload = 7,
      req_callback_url = Some ''http://cb'', req_idempotency_key = Some ''k1''\<rparr>"

definition ex_job :: "nat job_record" where
  "ex_job = new_job 10 1 ex_request (Some ''http://cb'') (Some ''k1'')"

definition ex_running :: "nat job_record" where
  "ex_running = claim_job 20 ''w1'' 100 ex_job"

definition ex_lease :: job_lease where
  "ex_lease = \<lparr>lease_worker_id = ''w1'', lease_attempt = 1, lease_claimed_at = 20, lease_expires_at = 120\<rparr>"

definition ex_complete :: "nat job_record" where
  "ex_complete = completed_job 50 ''w1'' ex_lease 9 ex_running"

definition ex_failure :: job_failure where
  "ex_failure = \<lparr>message = ''boom'', retryable = False\<rparr>"

text \<open>The registry with one job in a given queue state.\<close>

definition ex_reg :: "nat job_record \<Rightarrow> string list \<Rightarrow> (nat, unit) job_registry" where
  "ex_reg job batch =
     \<lparr>inner = \<lparr>next_id = 1, jobs = [''job-1'' \<mapsto> job], idempotency_keys = [''k1'' \<mapsto> ''job-1''],
        job_order = [''job-1''], queues = \<lparr>q_realtime = [], q_batch = batch, q_background = []\<rparr>\<rparr>,
      store = None, retention_policy = retention_default\<rparr>"

definition ex_new :: "(nat, unit) job_registry" where
  "ex_new = registry_new retention_default"

lemma ex_reg_simps [simp]:
  "jobs (inner (ex_reg job batch)) = [''job-1'' \<mapsto> job]"
  "queues (inner (ex_reg job batch)) = \<lparr>q_realtime = [], q_batch = batch, q_background = []\<rparr>"
  "job_order (inner (ex_reg job batch)) = [''job-1'']"
  "idempotency_keys (inner (ex_reg job batch)) = [''k1'' \<mapsto> ''job-1'']"
  "store (ex_reg job batch) = None"
  "retention_policy (ex_reg job batch) = retention_default"
  by (simp_all add: ex_reg_def)

lemma job_id_of_1: "job_id_of (Suc 0) = ''job-1''"
proof -
  have "(char_of (49::nat) :: char) = CHR ''1''" by code_simp
  then show ?thesis by (simp add: job_id_of_def nat_to_string.simps digit_char_def)
qed

lemma ex_normalized [simp]:
  "normalize_callback_url (Some ''http://cb'') = Inr (Some ''http://cb'')"
  "normalize_idempotency_key (Some ''k1'') = Inr (Some ''k1'')"
  by (simp_all add: normalize_callback_url_def normalize_idempotency_key_def eval_defs)

lemma ex_job_simps [simp]:
  "job_id ex_job = ''job-1''" "job_status ex_job = Queued" "job_kind ex_job = Cluster"
  "job_priority ex_job = Batch" "attempts ex_job = 0" "max_attempts ex_job = 3"
  "callback_url ex_job = Some ''http://cb''" "idempotency_key ex_job = Some ''k1''"
  "payload ex_job = 7" "job_callback ex_job = None" "job_lease ex_job = None"
  by (simp_all add: ex_job_def new_job_def ex_request_def job_id_of_1)

lemma ex_running_simps [simp]:
  "job_id ex_running = ''job-1''" "job_status ex_running = Running" "callback_url ex_running = Some ''http://cb''"
  "job_callback ex_running = None" "job_priority ex_running = Batch"
  "attempts ex_running = 1" "max_attempts ex_running = 3" "job_lease ex_running = Some ex_lease"
  by (simp_all add: ex_running_def claim_job_def ex_lease_def)

lemma ex_lease_simps [simp]:
  "lease_worker_id ex_lease = ''w1''" "lease_attempt ex_lease = 1" "lease_expires_at ex_lease = 120"
  by (simp_all add: ex_lease_def)

lemma ex_complete_simps [simp]:
  "job_id ex_complete = ''job-1''" "job_status ex_complete = Complete"
  "attempts ex_complete = 1" "job_result ex_complete = Some 9"
  "callback_url ex_complete = Some ''http://cb''" "updated_at ex_complete = 50"
  by (simp_all add: ex_complete_def completed_job_def prepare_callback_def callback_delivered_def)

lemma ex_submit: "submit ex_db 10 ex_request ex_new = (ex_reg ex_job [''job-1''], Inr ex_job)"
  by (simp add: submit_def ex_request_def ex_new_def registry_new_def inner_default_def
      insert_new_job_def Let_def commit_def persist_locked_def ex_job_def job_id_of_1 ex_reg_def
      push_back_def queues_default_def)

lemma ex_claim:
  "claim_next_for_worker_in_pool ex_db 20 ''w1'' [Cluster] ''default'' policy_default 100
     (ex_reg ex_job [''job-1'']) = (ex_reg ex_running [], Some ex_running)"
  by (simp add: claim_next_for_worker_in_pool_def next_claimable_def queues_iter_def claimable_def
      Let_def commit_def persist_locked_def ex_running_def put_job_def eval_defs)
    (simp add: ex_reg_def)

lemma ex_complete_lease:
  "complete_lease ex_db 50 ''job-1'' ''w1'' (Some 1) 9 (ex_reg ex_running []) =
     (ex_reg ex_complete [], Finish_Completed ex_complete)"
  by (simp add: complete_lease_def Let_def commit_def persist_locked_def put_job_def
      attempt_differs_def ex_complete_def) (simp add: ex_reg_def ex_lease_def)

definition ex_failed :: "nat job_record" where
  "ex_failed = fail_job ''w1'' 1 (failed_attempt 50 ex_failure ex_running)"

lemma ex_fail_lease:
  "fail_lease ex_db 50 ''job-1'' ''w1'' None ex_failure (ex_reg ex_running []) =
     (ex_reg ex_failed [], Finish_Failed ex_failed)"
  by (simp add: fail_lease_def Let_def commit_def persist_locked_def put_job_def
      attempt_differs_def ex_failed_def) (simp add: ex_reg_def ex_failure_def)

lemma ex_started: "started ex_new"
  by (simp add: started_def ex_new_def registry_new_def)

lemma ex_run1: "registry_run ex_new [Ev_Internal] (ex_reg ex_job [''job-1''])"
  using run_step [OF run_start step_submit [OF ex_submit]] by simp

lemma ex_run2: "registry_run ex_new [Ev_Internal, Ev_Claimed ''job-1'' ''w1'' 1] (ex_reg ex_running [])"
  using run_step [OF ex_run1 step_claim [OF ex_claim]] by simp

lemma ex_run3:
  "registry_run ex_new [Ev_Internal, Ev_Claimed ''job-1'' ''w1'' 1, Ev_Internal] (ex_reg ex_complete [])"
  using run_step [OF ex_run2 step_complete [OF ex_complete_lease]] by simp

lemma ex_inv:
  "registry_inv (inner (ex_reg ex_job [''job-1'']))"
  "registry_inv (inner (ex_reg ex_running []))"
  "registry_inv (inner (ex_reg ex_complete []))"
  using ex_run1 ex_run2 ex_run3 ex_started by (auto intro: registry_run_inv started_inv)

definition ex_begun :: "nat job_record" where
  "ex_begun = ex_complete\<lparr>job_callback := Some (fresh_callback\<lparr>cb_attempts := 1,
     cb_last_attempt_at := Some 60\<rparr>)\<rparr>"

lemma ex_begin:
  "begin_callback_attempt ex_db 60 ''job-1'' (ex_reg ex_complete []) = (ex_reg ex_begun [], Some ex_begun)"
proof -
  have "job_callback ex_complete = Some fresh_callback"
    by (simp add: ex_complete_def completed_job_def prepare_callback_def callback_delivered_def
        fresh_callback_def)
  then show ?thesis
    by (simp add: begin_callback_attempt_def Let_def commit_def persist_locked_def put_job_def
        ex_begun_def fresh_callback_def) (simp add: ex_reg_def)
qed

lemma ex_run_begin: "registry_run (ex_reg ex_complete []) [Ev_Callback ''job-1''] (ex_reg ex_begun [])"
  using run_step [OF run_start step_begin_callback [OF ex_begin]] by simp

end
