(* ===== verification/Jobs_Finish.thy ===== *)
theory Jobs_Finish
  imports Jobs_Inv
begin

text \<open>
  Who may finish a running job (\<open>may_finish\<close>), and what \<open>complete_lease\<close> and \<open>fail_lease\<close> of
  \<open>src/src/jobs.rs\<close> do to the registry when the report is accepted and when it is refused.
\<close>

definition may_finish :: "nat \<Rightarrow> string \<Rightarrow> nat option \<Rightarrow> 'v job_record \<Rightarrow> bool" where
  "may_finish now w att job \<longleftrightarrow> job_status job = Running \<and> att \<in> {None, Some (attempts job)} \<and>
     (case job_lease job of None \<Rightarrow> False | Some l \<Rightarrow> lease_worker_id l = w \<and> now < lease_expires_at l)"

lemma may_finish_lease:
  assumes "job_ok job" "job_lease job = Some l" "job_status job = Running"
  shows "may_finish now w att job \<longleftrightarrow>
    lease_worker_id l = w \<and> \<not> attempt_differs att l \<and> \<not> lease_expires_at l \<le> now"
  using assms by (auto simp: may_finish_def attempt_differs_def job_ok_def split: option.splits)

lemma may_finishE:
  assumes inv: "registry_inv i" and fin: "job_sat (may_finish now w att) i jid"
  obtains job l where "jobs i jid = Some job" "job_status job = Running" "job_lease job = Some l"
    "lease_worker_id l = w" "\<not> attempt_differs att l" "\<not> lease_expires_at l \<le> now"
    "lease_attempt l = attempts job" "job_ok job" "job_id job = jid"
proof -
  obtain job where job: "jobs i jid = Some job" "may_finish now w att job"
    using fin by (auto simp: job_sat_def split: option.splits)
  note j = inv_job [OF inv job(1)]
  have run: "job_status job = Running" using job(2) by (simp add: may_finish_def)
  then obtain l where l: "job_lease job = Some l" "lease_attempt l = attempts job"
    using j(2) by (auto simp: job_ok_def split: option.splits)
  show thesis
    using that [OF job(1) run l(1) _ _ _ l(2) j(2,1)] may_finish_lease [OF j(2) l(1) run] job(2)
    by blast
qed

lemma not_may_finish:
  assumes "registry_inv i" "\<not> job_sat (may_finish now w att) i jid" "jobs i jid = Some job"
    "job_status job = Running" "job_lease job = Some l"
  shows "lease_worker_id l \<noteq> w \<or> attempt_differs att l \<or> lease_expires_at l \<le> now"
  using may_finish_lease [OF inv_job(2) [OF assms(1,3)] assms(5,4), of now w att] assms(2,3)
  by (simp add: job_sat_def)

lemma complete_refused:
  assumes "registry_inv (inner reg)" "\<not> job_sat (may_finish now w att) (inner reg) jid"
    and call: "complete_lease db now jid w att result reg = (reg', r)"
  shows "reg' = reg \<and> (\<forall>job'. r \<noteq> Finish_Completed job')"
proof (cases "jobs (inner reg) jid")
  case job: (Some job)
  show ?thesis
  proof (cases "job_lease job")
    case (Some l)
    then show ?thesis
      using call job not_may_finish [OF assms(1,2) job]
      by (auto simp: complete_lease_def split: if_splits)
  qed (use call job in \<open>auto simp: complete_lease_def split: if_splits\<close>)
qed (use call in \<open>auto simp: complete_lease_def\<close>)

lemma prepare_callback_pending:
  "is_terminal (job_status job) \<Longrightarrow> callback_url job \<noteq> None \<Longrightarrow> \<not> callback_delivered job \<Longrightarrow>
     callback_pending (prepare_callback job)"
  by (auto simp: prepare_callback_def callback_pending_def Let_def)

lemma completed_pending:
  assumes "job_ok job" "job_status job = Running" "callback_url job \<noteq> None"
  shows "callback_pending (completed_job now w l result job)"
  unfolding completed_job_def
  using job_ok_callback_None [OF assms(1)] assms(2,3)
  by (intro prepare_callback_pending) (simp_all add: callback_delivered_def)

lemma fail_refused:
  assumes "registry_inv (inner reg)" "\<not> job_sat (may_finish now w att) (inner reg) jid"
    and call: "fail_lease db now jid w att failure reg = (reg', r)"
  shows "reg' = reg \<and> (\<forall>job'. r \<noteq> Finish_Requeued job' \<and> r \<noteq> Finish_Failed job')"
proof (cases "jobs (inner reg) jid")
  case job: (Some job)
  show ?thesis
  proof (cases "job_lease job")
    case (Some l)
    then show ?thesis
      using call job not_may_finish [OF assms(1,2) job]
      by (auto simp: fail_lease_def split: if_splits)
  qed (use call job in \<open>auto simp: fail_lease_def split: if_splits\<close>)
qed (use call in \<open>auto simp: fail_lease_def\<close>)

lemma fail_effect:
  assumes inv: "registry_inv (inner reg)" and ok: "store_ok db reg"
    and fin: "job_sat (may_finish now w att) (inner reg) jid"
    and call: "fail_lease db now jid w att failure reg = (reg', r)"
  obtains job job1 and l :: job_lease where "jobs (inner reg) jid = Some job" "job_ok job" "job_status job = Running"
    "job1 = failed_attempt now failure job"
    "if retryable failure \<and> attempts job < max_attempts job
     then jobs (inner reg') = (jobs (inner reg))(jid \<mapsto> requeue_job job1) \<and>
       queues (inner reg') = push_back (job_priority job) jid (queues (inner reg)) \<and>
       r = Finish_Requeued (requeue_job job1)
     else jobs (inner reg') = (jobs (inner reg))(jid \<mapsto> fail_job w (lease_attempt l) job1) \<and>
       queues (inner reg') = queues (inner reg) \<and> r = Finish_Failed (fail_job w (lease_attempt l) job1)"
  using inv fin
proof (rule may_finishE)
  fix job l
  assume j: "jobs (inner reg) jid = Some job" "job_status job = Running" "job_lease job = Some l"
    "lease_worker_id l = w" "\<not> attempt_differs att l" "\<not> lease_expires_at l \<le> now"
    "lease_attempt l = attempts job" "job_ok job" "job_id job = jid"
  show thesis
    by (rule that [OF j(1,8,2) refl, of l])
      (use call j store_ok_commit [OF ok] in
        \<open>auto simp: fail_lease_def Let_def prod_eq_iff split: if_splits\<close>)
qed

lemma failed_job_fields:
  assumes "job_ok job" "job_status job = Running" "job1 = failed_attempt now failure job"
  shows "job_error (requeue_job job1) = Some failure" "job_lease (requeue_job job1) = None"
    "job_error (fail_job w n job1) = Some failure" "job_lease (fail_job w n job1) = None"
    "callback_url (fail_job w n job1) \<noteq> None \<Longrightarrow> callback_pending (fail_job w n job1)"
proof -
  have none: "\<not> callback_delivered (job1\<lparr>job_status := Failed, terminal_attempt := t\<rparr>)" for t
    using job_ok_callback_None [OF assms(1)] assms(2,3)
    by (simp add: failed_attempt_def callback_delivered_def)
  show "callback_pending (fail_job w n job1)" if "callback_url (fail_job w n job1) \<noteq> None"
    using that unfolding fail_job_def by (intro prepare_callback_pending none) simp_all
qed (simp_all add: assms(3) requeue_job_def fail_job_def failed_attempt_def)

lemma complete_effect:
  assumes inv: "registry_inv (inner reg)" and ok: "store_ok db reg"
    and fin: "job_sat (may_finish now w att) (inner reg) jid"
    and call: "complete_lease db now jid w att result reg = (reg', r)"
  obtains job and l :: job_lease where "jobs (inner reg) jid = Some job" "job_ok job"
    "job_status job = Running" "job_lease job = Some l" "lease_worker_id l = w"
    "lease_attempt l = attempts job"
    "jobs (inner reg') = (jobs (inner reg))(jid \<mapsto> completed_job now w l result job)"
    "r = Finish_Completed (completed_job now w l result job)"
  using inv fin
proof (rule may_finishE)
  fix job l
  assume j: "jobs (inner reg) jid = Some job" "job_status job = Running" "job_lease job = Some l"
    "lease_worker_id l = w" "\<not> attempt_differs att l" "\<not> lease_expires_at l \<le> now"
    "lease_attempt l = attempts job" "job_ok job" "job_id job = jid"
  show thesis
    by (rule that [OF j(1,8,2,3,4,7)])
      (use call j store_ok_commit [OF ok] in \<open>auto simp: complete_lease_def Let_def prod_eq_iff\<close>)
qed

end
