(* ===== verification/Jobs_Props.thy ===== *)
theory Jobs_Props
  imports Jobs_Example Jobs_Finish
begin

text \<open>
  The correctness properties of the job registry: its invariant in every state it can reach,
  the life of a job, exclusive and bounded execution, scheduling order, idempotent submission
  and completion, expiry of leases, pruning, and the retention of undelivered callbacks.
\<close>

section \<open>Helper lemmas\<close>

definition before :: "'a \<Rightarrow> 'a \<Rightarrow> 'a list \<Rightarrow> bool" where
  "before x y xs \<longleftrightarrow> (\<exists>us vs. xs = us @ x # vs \<and> y \<in> set vs)"

lemma before_Nil [simp]: "\<not> before x y []"
  by (simp add: before_def)

lemma before_Cons: "before x y (z # zs) \<longleftrightarrow> x = z \<and> y \<in> set zs \<or> before x y zs"
  by (auto simp: before_def Cons_eq_append_conv)

lemma before_append:
  "before x y (us @ vs) \<longleftrightarrow> before x y us \<or> before x y vs \<or> x \<in> set us \<and> y \<in> set vs"
  by (induction us) (auto simp: before_Cons)

lemma before_set: "before x y xs \<Longrightarrow> x \<in> set xs \<and> y \<in> set xs"
  by (auto simp: before_def)

lemma find_before: "find P xs = Some x \<Longrightarrow> y \<in> set xs \<Longrightarrow> P y \<Longrightarrow> y = x \<or> before x y xs"
  by (induction xs) (auto simp: before_Cons split: if_splits)

lemma queued_set_iff:
  "jobs i jid = Some job \<Longrightarrow> jid \<in> queued_set i p \<longleftrightarrow> job_status job = Queued \<and> job_priority job = p"
  by (simp add: queued_set_def job_sat_def)

text \<open>Before in scan order: a higher priority, or the same queue and before in it.\<close>

lemma before_scan:
  assumes inv: "registry_inv i" and b: "before x y (scan_order (queues i))"
    and x: "jobs i x = Some jx" "job_status jx = Queued" and y: "jobs i y = Some jy" "job_status jy = Queued"
  shows "job_priority jx < job_priority jy \<or>
    job_priority jx = job_priority jy \<and> before x y (for_priority (job_priority jx) (queues i))"
proof -
  have x_in: "x \<in> set (for_priority p (queues i)) \<longleftrightarrow> p = job_priority jx" for p
    using inv_queue(2) [OF inv, of p] queued_set_iff [OF x(1), of p] x(2) by auto
  have y_in: "y \<in> set (for_priority p (queues i)) \<longleftrightarrow> p = job_priority jy" for p
    using inv_queue(2) [OF inv, of p] queued_set_iff [OF y(1), of p] y(2) by auto
  have lt: "Realtime < Batch" "Realtime < Background" "Batch < Background"
    by (simp_all add: less_priority_def)
  from b consider p where "before x y (for_priority p (queues i))"
    | p q where "p < q" "x \<in> set (for_priority p (queues i))" "y \<in> set (for_priority q (queues i))"
    unfolding scan_order_eq before_append set_append Un_iff using lt by blast
  then show ?thesis
  proof cases
    case (1 p)
    then show ?thesis using before_set [OF 1] x_in y_in by auto
  next
    case (2 p q)
    then show ?thesis using x_in y_in by auto
  qed
qed

section \<open>Reachable states\<close>

text \<open>C1: In every state the registry can reach, whatever calls were made and whichever of their
  writes to the store failed, each record is consistent with its status, the three queues hold
  exactly the queued jobs, each once and under its priority, the submission order lists exactly
  the stored jobs by increasing id, and the idempotency map and the records agree.\<close>
theorem reachable_registry_inv:
  assumes "registry_run reg0 es reg" "started reg0"
  shows "registry_inv (inner reg)"
  using assms by (auto intro: registry_run_inv started_inv)

theorem reachable_registry_inv_witness:
  "registry_inv (inner (ex_reg ex_complete [])) \<and> jobs (inner (ex_reg ex_complete [])) ''job-1'' \<noteq> None"
  using reachable_registry_inv [OF ex_run3 ex_started] by simp

text \<open>C2: The registry refines the abstract life of a job: whatever step it makes, each job id
  either keeps its phase or makes one step of \<open>lifecycle_step\<close> (submitted, claimed for its next
  attempt while fewer than three were made, put back, finished, cancelled, forgotten once
  terminal).\<close>
theorem registry_refines_lifecycle:
  assumes "registry_run reg0 es reg" "started reg0" "registry_step reg e reg'"
  shows "phase_of (jobs (inner reg) k) = phase_of (jobs (inner reg') k) \<or>
    lifecycle_step (phase_of (jobs (inner reg) k)) (phase_of (jobs (inner reg') k))"
  using step_lifecycle [OF assms(3)] run_history [OF assms(1,2)] by blast

theorem registry_refines_lifecycle_witness:
  "lifecycle_step (phase_of (Some ex_job)) (phase_of (Some ex_running))"
  using registry_refines_lifecycle [OF ex_run1 ex_started step_claim [OF ex_claim], of "''job-1''"]
  by (simp add: phase_of_def)

text \<open>C8: Bounded execution: along any history the claims of one job have strictly increasing
  attempt numbers between 1 and 3, so a job is handed to workers at most three times.\<close>
theorem claims_bounded:
  assumes "registry_run reg0 es reg" "started reg0"
  shows "sorted_wrt (<) (map snd (claims_of jid es)) \<and>
    (\<forall>c \<in> set (claims_of jid es). 1 \<le> snd c \<and> snd c \<le> 3) \<and> length (claims_of jid es) \<le> 3"
proof -
  have h: "\<forall>c \<in> set (claims_of jid es). 1 \<le> snd c \<and> snd c \<le> 3"
    "sorted_wrt (<) (map snd (claims_of jid es))"
    using run_history [OF assms, of jid] by (auto simp: history_ok_def)
  have "distinct (map snd (claims_of jid es))" using h(2) by (simp add: strict_sorted_iff)
  then have "length (claims_of jid es) = card (snd ` set (claims_of jid es))"
    by (metis distinct_card length_map list.set_map)
  also have "\<dots> \<le> card {1..3::nat}" using h(1) by (intro card_mono) auto
  finally show ?thesis using h by simp
qed

theorem claims_bounded_witness:
  "sorted_wrt (<) (map snd (claims_of ''job-1'' [Ev_Internal, Ev_Claimed ''job-1'' ''w1'' 1])) \<and>
   claims_of ''job-1'' [Ev_Internal, Ev_Claimed ''job-1'' ''w1'' 1] = [(''w1'', 1)]"
  using claims_bounded [OF ex_run2 ex_started, of "''job-1''"] by simp


section \<open>Claiming\<close>

text \<open>C23: Scheduling order: a claim finds a job exactly when some stored job is queued, of one of
  the worker's kinds and allowed in its pool. It then runs one such job: every other such job has
  a lower priority, or the same priority and a later place in its queue. The claimed job
  becomes running with one more attempt and a lease of the worker until \<open>now + d\<close>; no other job changes.\<close>
theorem claim_serves_first:
  assumes inv: "registry_inv (inner reg)" and ok: "store_ok db reg"
    and call: "claim_next_for_worker_in_pool db now w kinds pool policy d reg = (reg', r)"
  shows "case r of
      None \<Rightarrow> reg' = reg \<and> (\<forall>k job. jobs (inner reg) k = Some job \<longrightarrow> \<not> claimable kinds pool policy job)
    | Some job' \<Rightarrow> \<exists>jid job. jobs (inner reg) jid = Some job \<and> claimable kinds pool policy job \<and>
        job' = claim_job now w d job \<and> jobs (inner reg') = (jobs (inner reg))(jid \<mapsto> job') \<and>
        (\<forall>k other. jobs (inner reg) k = Some other \<longrightarrow> claimable kinds pool policy other \<longrightarrow> k \<noteq> jid \<longrightarrow>
           job_priority job < job_priority other \<or>
           job_priority job = job_priority other \<and>
           before jid k (for_priority (job_priority job) (queues (inner reg))))"
proof -
  let ?P = "job_sat (claimable kinds pool policy) (inner reg)"
  have q: "k \<in> set (scan_order (queues (inner reg))) \<and> ?P k"
    if "jobs (inner reg) k = Some other" "claimable kinds pool policy other" for k other
    using that inv_queue(2) [OF inv, of "job_priority other"] queued_set_iff [OF that(1)]
    by (auto simp: set_scan_order job_sat_def claimable_def)
  show ?thesis
  proof (cases "next_claimable kinds pool policy (inner reg)")
    case None
    then have "\<not> ?P k" if "k \<in> set (scan_order (queues (inner reg)))" for k
      using that by (auto simp: next_claimable_eq find_None_iff)
    then show ?thesis using None q call by (auto simp: claim_next_for_worker_in_pool_def)
  next
    case (Some jid)
    then obtain job where job: "jobs (inner reg) jid = Some job" "claimable kinds pool policy job"
      by (rule next_claimable_Some)
    then have eqs: "jobs (inner reg') = (jobs (inner reg))(jid \<mapsto> claim_job now w d job)"
        "r = Some (claim_job now w d job)"
      using call Some store_ok_commit [OF ok]
      by (auto simp: claim_next_for_worker_in_pool_def Let_def prod_eq_iff)
    have "job_priority job < job_priority other \<or> job_priority job = job_priority other \<and>
        before jid k (for_priority (job_priority job) (queues (inner reg)))"
      if "jobs (inner reg) k = Some other" "claimable kinds pool policy other" "k \<noteq> jid" for k other
      using find_before [OF Some [unfolded next_claimable_eq]] q [OF that(1,2)] that job
      by (intro before_scan [OF inv]) (auto simp: claimable_def)
    then show ?thesis using job eqs by fastforce
  qed
qed

theorem claim_serves_first_witness:
  "\<exists>jid job. jobs (inner (ex_reg ex_job [''job-1''])) jid = Some job \<and>
     ex_running = claim_job 20 ''w1'' 100 job"
  using claim_serves_first [OF ex_inv(1) store_ok_None ex_claim] by (auto split: if_splits)

section \<open>Finishing a job\<close>

text \<open>C24: A completion report is accepted exactly from the worker that holds the lease of the
  running job, for the attempt of that lease if it names one, before the lease expires. Then the
  job is complete with that result and an undelivered callback if it has a URL, and no other job
  changes; otherwise nothing changes at all.\<close>
theorem complete_accepts_iff:
  assumes inv: "registry_inv (inner reg)" and ok: "store_ok db reg"
    and call: "complete_lease db now jid w att result reg = (reg', r)"
  shows "if job_sat (may_finish now w att) (inner reg) jid
    then \<exists>job'. r = Finish_Completed job' \<and> jobs (inner reg') = (jobs (inner reg))(jid \<mapsto> job') \<and>
      job_status job' = Complete \<and> job_result job' = Some result \<and> job_lease job' = None \<and>
      (callback_url job' \<noteq> None \<longrightarrow> callback_pending job') \<and>
      terminal_attempt job' = Some \<lparr>ta_worker_id = w, ta_attempt = attempts job'\<rparr>
    else reg' = reg \<and> (\<forall>job'. r \<noteq> Finish_Completed job')"
proof (cases "job_sat (may_finish now w att) (inner reg) jid")
  case fin: True
  obtain job l where j: "jobs (inner reg) jid = Some job" "job_status job = Running" "job_lease job = Some l"
    "lease_worker_id l = w" "\<not> attempt_differs att l" "\<not> lease_expires_at l \<le> now"
    "lease_attempt l = attempts job" "job_ok job"
    using inv fin by (rule may_finishE)
  let ?new = "completed_job now w l result job"
  have "r = Finish_Completed ?new" "jobs (inner reg') = (jobs (inner reg))(jid \<mapsto> ?new)"
    using call j store_ok_commit [OF ok] by (auto simp: complete_lease_def Let_def prod_eq_iff)
  moreover have "callback_url ?new = callback_url job" by (simp add: completed_job_def)
  moreover have "job_result ?new = Some result" "job_lease ?new = None"
    "terminal_attempt ?new = Some \<lparr>ta_worker_id = w, ta_attempt = attempts ?new\<rparr>"
    using j(7) by (simp_all add: completed_job_def)
  ultimately show ?thesis using fin completed_pending [OF j(8,2)] by simp
qed (simp add: complete_refused [OF inv _ call])

theorem complete_accepts_iff_witness:
  "\<exists>job'. Finish_Completed ex_complete = Finish_Completed job' \<and> job_result job' = Some (9::nat) \<and>
     (callback_url job' \<noteq> None \<longrightarrow> callback_pending job')"
  using complete_accepts_iff [OF ex_inv(2) store_ok_None ex_complete_lease]
  by (auto simp: job_sat_def may_finish_def)

text \<open>C25: A failure report is accepted under the same conditions. The job goes back to the end of
  its queue when the failure is retryable and attempts are left, otherwise it has failed, with
  the failure recorded and its callback pending; a refused report changes nothing.\<close>
theorem fail_requeues_or_fails:
  assumes inv: "registry_inv (inner reg)" and ok: "store_ok db reg"
    and call: "fail_lease db now jid w att failure reg = (reg', r)"
  shows "if job_sat (may_finish now w att) (inner reg) jid
    then \<exists>job'. jobs (inner reg') = (jobs (inner reg))(jid \<mapsto> job') \<and> job_error job' = Some failure \<and>
      job_lease job' = None \<and>
      (if retryable failure \<and> attempts job' < max_attempts job'
       then r = Finish_Requeued job' \<and> job_status job' = Queued \<and>
         for_priority (job_priority job') (queues (inner reg')) =
           for_priority (job_priority job') (queues (inner reg)) @ [jid]
       else r = Finish_Failed job' \<and> job_status job' = Failed \<and>
         (callback_url job' \<noteq> None \<longrightarrow> callback_pending job') \<and>
         queues (inner reg') = queues (inner reg))
    else reg' = reg \<and> (\<forall>job'. r \<noteq> Finish_Requeued job' \<and> r \<noteq> Finish_Failed job')"
proof (cases "job_sat (may_finish now w att) (inner reg) jid")
  case True
  obtain job job1 and l :: job_lease where "jobs (inner reg) jid = Some job" and
    j: "job_ok job" "job_status job = Running" "job1 = failed_attempt now failure job"
    and eff: "if retryable failure \<and> attempts job < max_attempts job
     then jobs (inner reg') = (jobs (inner reg))(jid \<mapsto> requeue_job job1) \<and>
       queues (inner reg') = push_back (job_priority job) jid (queues (inner reg)) \<and>
       r = Finish_Requeued (requeue_job job1)
     else jobs (inner reg') = (jobs (inner reg))(jid \<mapsto> fail_job w (lease_attempt l) job1) \<and>
       queues (inner reg') = queues (inner reg) \<and> r = Finish_Failed (fail_job w (lease_attempt l) job1)"
    by (rule fail_effect [OF inv ok True call])
  note f = failed_job_fields [OF j]
  have simps: "attempts job1 = attempts job" "max_attempts job1 = max_attempts job"
      "job_priority job1 = job_priority job" by (simp_all add: j(3))
  show ?thesis
  proof (cases "retryable failure \<and> attempts job < max_attempts job")
    case again: True
    note e = eff [unfolded if_P [OF again]]
    have "retryable failure \<and> attempts (requeue_job job1) < max_attempts (requeue_job job1)"
      using again simps by simp
    then show ?thesis
      unfolding if_P [OF True]
      by (intro exI [of _ "requeue_job job1"] conjI e [THEN conjunct1] f(1,2))
        (simp add: e simps)
  next
    case no: False
    note e = eff [unfolded if_not_P [OF no]]
    have "\<not> (retryable failure \<and> attempts (fail_job w (lease_attempt l) job1) <
        max_attempts (fail_job w (lease_attempt l) job1))"
      using no simps by simp
    then show ?thesis
      unfolding if_P [OF True]
      by (intro exI [of _ "fail_job w (lease_attempt l) job1"] conjI e [THEN conjunct1] f(3,4))
        (simp add: e f(5))
  qed
qed (simp add: fail_refused [OF inv _ call])

theorem fail_requeues_or_fails_witness:
  "\<exists>job'. Finish_Failed ex_failed = Finish_Failed job' \<and> job_error job' = Some ex_failure"
  using fail_requeues_or_fails [OF ex_inv(2) store_ok_None ex_fail_lease]
  by (auto simp: job_sat_def may_finish_def ex_failure_def)

lemma finish_attempt:
  assumes "job_sat (may_finish now w att) (inner reg) jid" "history_ok (inner reg) jid cs" "registry_inv (inner reg)"
  obtains job l where "jobs (inner reg) jid = Some job" "job_status job = Running" "job_lease job = Some l"
    "lease_worker_id l = w" "att \<in> {None, Some (lease_attempt l)}" "now < lease_expires_at l"
    "lease_attempt l = attempts job" "\<forall>(w', n) \<in> set cs. n \<le> lease_attempt l \<and> (n = lease_attempt l \<longrightarrow> w' = w)"
proof (rule may_finishE [OF assms(3,1)])
  fix job l
  assume j: "jobs (inner reg) jid = Some job" "job_status job = Running" "job_lease job = Some l"
    "lease_worker_id l = w" "\<not> attempt_differs att l" "\<not> lease_expires_at l \<le> now" "lease_attempt l = attempts job"
  have "\<forall>(w', n) \<in> set cs. n \<le> lease_attempt l \<and> (n = lease_attempt l \<longrightarrow> w' = w)"
    using assms(2) j unfolding history_ok_def holder_of_def by fastforce
  then show thesis
    using that [OF j(1-4) _ _ j(7)] j(5,6) by (auto simp: attempt_differs_def split: option.splits)
qed

text \<open>C9: Fencing: if at the end of a history a completion or failure report is accepted as the end of an
  attempt (not as the repeat of an earlier one), then the job is running under an unexpired lease of
  the reporting worker, the attempt it names, if it names one, is that of the lease, no claim in the
  history has a later attempt, and a claim with the same attempt was made by that worker. Without a store, where
  no claim can be lost to a failed write, the latest claim of the job in the history is that worker's
  and has exactly that attempt. So a worker whose lease was swept and reassigned can no longer decide the job.\<close>

theorem stale_reports_fenced:
  assumes run: "registry_run reg0 es reg" "started reg0"
    and acc: "snd (complete_lease db now jid w att result reg) = Finish_Completed job' \<or>
      snd (fail_lease db now jid w att failure reg) \<in> {Finish_Requeued job', Finish_Failed job'}"
  shows "\<exists>job l. jobs (inner reg) jid = Some job \<and> job_status job = Running \<and> job_lease job = Some l \<and>
    lease_worker_id l = w \<and> now < lease_expires_at l \<and> att \<in> {None, Some (lease_attempt l)} \<and>
    (\<forall>(w', n) \<in> set (claims_of jid es). n \<le> lease_attempt l \<and> (n = lease_attempt l \<longrightarrow> w' = w)) \<and>
    (store reg0 = None \<longrightarrow> claims_of jid es \<noteq> [] \<and> last (claims_of jid es) = (w, lease_attempt l))"
proof -
  have h: "history_ok (inner reg) jid (claims_of jid es)" "registry_inv (inner reg)"
    using run_history [OF run] by blast+
  have "job_sat (may_finish now w att) (inner reg) jid"
  proof (rule ccontr)
    assume "\<not> job_sat (may_finish now w att) (inner reg) jid"
    note no = complete_refused [OF h(2) this surjective_pairing]
      fail_refused [OF h(2) this surjective_pairing]
    show False using acc no(1) [of db result] no(2) [of db failure] by auto
  qed
  then show ?thesis
  proof (rule finish_attempt [OF _ h])
    fix job l
    assume j: "jobs (inner reg) jid = Some job" "job_status job = Running" "job_lease job = Some l"
      "lease_worker_id l = w" "att \<in> {None, Some (lease_attempt l)}" "now < lease_expires_at l" "lease_attempt l = attempts job"
      "\<forall>(w', n) \<in> set (claims_of jid es). n \<le> lease_attempt l \<and> (n = lease_attempt l \<longrightarrow> w' = w)"
    have told: "store reg0 = None \<longrightarrow> claims_of jid es \<noteq> [] \<and> last (claims_of jid es) = (w, lease_attempt l)"
      using told_run [OF run, of jid] j(1-4,7) by (simp add: told_def holder_of_def prod_eq_iff)
    show ?thesis by (intro exI [of _ job] exI [of _ l] conjI) (rule j told)+
  qed
qed

theorem stale_reports_fenced_witness:
  "snd (complete_lease ex_db 50 ''job-1'' ''w1'' (Some 1) 9 (ex_reg ex_running [])) = Finish_Completed ex_complete \<and>
   last (claims_of ''job-1'' [Ev_Internal, Ev_Claimed ''job-1'' ''w1'' 1]) = (''w1'', 1)"
  using stale_reports_fenced [OF ex_run2 ex_started, of ex_db 50 "''job-1''" "''w1''" "Some 1" 9 ex_complete]
    ex_complete_lease by (auto simp: ex_new_def registry_new_def)

section \<open>Terminal jobs\<close>

text \<open>Terminal states are final: once a job is complete, failed or cancelled, every later state
  of the registry either has forgotten the job or holds it with the same status, result, error,
  attempts, terminal attempt and time, and with everything it was submitted with.\<close>
lemma terminal_is_final:
  assumes "registry_run reg0 es0 reg" "started reg0" "registry_run reg es reg'"
    and "jobs (inner reg) jid = Some job" "is_terminal (job_status job)"
    and "jobs (inner reg') jid = Some job'"
  shows "same_outcome job job' \<and> same_origin job job'"
proof -
  have inv: "registry_inv (inner reg)" using assms(1,2) by (auto intro: registry_run_inv started_inv)
  obtain m where "m \<le> next_id (inner reg)" "jid = job_id_of m" by (rule order_id [OF inv assms(4)])
  then show ?thesis using run_terminal [OF assms(3) inv assms(4,5)] assms(6) by auto
qed

lemma run_undelivered:
  assumes "registry_run reg es reg'" "registry_inv (inner reg)" "Ev_Delivered jid \<notin> set es"
    and "jobs (inner reg) jid = Some job" "is_terminal (job_status job)"
    and "callback_url job \<noteq> None" "\<not> callback_delivered job"
  shows "\<exists>job'. jobs (inner reg') jid = Some job' \<and> same_outcome job job' \<and> same_origin job job' \<and>
    \<not> callback_delivered job'"
  using assms
proof (induction rule: registry_run.induct)
  case (run_start reg)
  then show ?case by (simp add: same_outcome_def same_origin_def)
next
  case (run_step reg es reg' e reg'')
  have inv': "registry_inv (inner reg')" using run_step.hyps(1) run_step.prems(1) by (rule registry_run_inv)
  from run_step.prems(2) have e: "Ev_Delivered jid \<notin> set es" "e \<noteq> Ev_Delivered jid" by auto
  obtain job' where job': "jobs (inner reg') jid = Some job'" "same_outcome job job'"
      "same_origin job job'" "\<not> callback_delivered job'"
    using run_step.IH [OF run_step.prems(1) e(1) run_step.prems(3-6)] by blast
  have tm: "is_terminal (job_status job')" "callback_url job' \<noteq> None"
    using job'(2,3) run_step.prems(4,5) by (simp_all add: same_outcome_def same_origin_def)
  note ch = step_job_change [OF run_step.hyps(2) inv', of jid]
  have keep: "case jobs (inner reg'') jid of None \<Rightarrow> \<not> has_pending_callback job'
      | Some job'' \<Rightarrow> same_outcome job' job'' \<and>
          (use_of jid e = Recorded \<or> (callback_delivered job'' \<longleftrightarrow> callback_delivered job'))"
    by (rule job_change_terminal [OF ch job'(1) tm(1)])
  have "has_pending_callback job'" using tm(2) job'(4) by (simp add: has_pending_callback_def)
  with keep obtain job'' where job'': "jobs (inner reg'') jid = Some job''" "same_outcome job' job''"
      "\<not> callback_delivered job''"
    using e(2) job'(4) by (auto split: option.splits)
  have "same_origin job' job''" by (rule job_change_origin [OF ch job'(1) job''(1)])
  then show ?case
    using job'' job' by (auto simp: same_outcome_def same_origin_def)
qed

text \<open>C16: At-least-once callbacks: a terminal job with a callback URL whose callback is not
  delivered stays in the registry with its outcome, and stays among the jobs the dispatcher must
  notify, along every history in which no delivery of it is recorded. In particular pruning
  never removes it.\<close>
theorem undelivered_callback_kept:
  assumes "registry_run reg0 es0 reg" "started reg0" "registry_run reg es reg'"
    and "jobs (inner reg) jid = Some job" "is_terminal (job_status job)" "callback_url job \<noteq> None"
    and "\<not> callback_delivered job" "Ev_Delivered jid \<notin> set es"
  shows "\<exists>job'. jobs (inner reg') jid = Some job' \<and> same_outcome job job' \<and>
    job' \<in> set (pending_callback_jobs reg')"
proof -
  have inv: "registry_inv (inner reg)" using assms(1,2) by (auto intro: registry_run_inv started_inv)
  have inv': "registry_inv (inner reg')" using assms(3) inv by (rule registry_run_inv)
  obtain job' where job': "jobs (inner reg') jid = Some job'" "same_outcome job job'"
      "same_origin job job'" "\<not> callback_delivered job'"
    using run_undelivered [OF assms(3) inv assms(8,4-7)] by blast
  have t: "is_terminal (job_status job')" "callback_url job' \<noteq> None"
    using job'(2,3) assms(5,6) by (simp_all add: same_outcome_def same_origin_def)
  have "callback_ok job'" using inv_job(2) [OF inv' job'(1)] by (simp add: job_ok_def)
  then obtain cb where cb: "job_callback job' = Some cb" using t by (auto simp: callback_ok_def)
  then have "callback_pending job'"
    using job'(4) by (cases "cb_status cb") (simp_all add: callback_pending_def callback_delivered_def)
  moreover have "job' \<in> set (list_jobs reg')"
    using job'(1) inv_in_order [OF inv' job'(1)]
    by (auto simp: list_jobs_def map_filter_def intro!: image_eqI [of _ _ jid])
  ultimately show ?thesis using job' t by (auto simp: pending_callback_jobs_def)
qed

theorem undelivered_callback_kept_witness:
  "ex_begun \<in> set (pending_callback_jobs (ex_reg ex_begun []))"
proof -
  have "\<not> callback_delivered ex_complete"
    by (simp add: ex_complete_def completed_job_def prepare_callback_def callback_delivered_def
        fresh_callback_def)
  then show ?thesis
    using undelivered_callback_kept [OF ex_run3 ex_started ex_run_begin, of "''job-1''" ex_complete]
    by auto
qed

lemma complete_accepted:
  assumes inv: "registry_inv (inner reg)"
    and acc: "complete_lease db now jid w (Some n) result reg = (reg1, Finish_Completed job)"
  shows "jobs (inner reg1) jid = Some job" "job_status job = Complete" "job_result job = Some result"
    "terminal_attempt_matches job w (Some n)"
proof -
  have "job_sat (may_finish now w (Some n)) (inner reg) jid"
    using complete_refused [OF inv _ acc] by blast
  with inv obtain job0 l where j: "jobs (inner reg) jid = Some job0" "job_status job0 = Running"
    "job_lease job0 = Some l" "lease_worker_id l = w" "\<not> attempt_differs (Some n) l"
    "\<not> lease_expires_at l \<le> now"
    by (rule may_finishE)
  let ?new = "completed_job now w l result job0"
  have "commit db reg (put_job jid ?new (inner reg)) (Finish_Completed ?new) (\<lambda>_. Finish_NotFound) =
      (reg1, Finish_Completed job)"
    using acc j by (simp add: complete_lease_def Let_def)
  from commit_fst_snd [OF this] have "job = ?new" "inner reg1 = put_job jid ?new (inner reg)" by simp_all
  then show "jobs (inner reg1) jid = Some job" "job_status job = Complete" "job_result job = Some result"
    "terminal_attempt_matches job w (Some n)"
    using j(5) by (simp_all add: completed_job_def terminal_attempt_matches_def attempt_differs_def)
qed

lemma fail_accepted:
  assumes inv: "registry_inv (inner reg)"
    and acc: "fail_lease db now jid w (Some n) failure reg = (reg1, Finish_Failed job)"
  shows "jobs (inner reg1) jid = Some job" "job_status job = Failed" "job_error job = Some failure"
    "terminal_attempt_matches job w (Some n)"
proof -
  have "job_sat (may_finish now w (Some n)) (inner reg) jid"
    using fail_refused [OF inv _ acc] by blast
  with inv obtain job0 l where j: "jobs (inner reg) jid = Some job0" "job_status job0 = Running"
    "job_lease job0 = Some l" "lease_worker_id l = w" "\<not> attempt_differs (Some n) l"
    "\<not> lease_expires_at l \<le> now" "job_ok job0"
    by (rule may_finishE)
  let ?j1 = "failed_attempt now failure job0"
  let ?new = "fail_job w (lease_attempt l) ?j1"
  have "\<not> (retryable failure \<and> attempts job0 < max_attempts job0)"
    using acc j by (auto simp: fail_lease_def Let_def dest: commit_fst_snd)
  then have "commit db reg (put_job jid ?new (inner reg)) (Finish_Failed ?new) (\<lambda>_. Finish_NotFound) =
      (reg1, Finish_Failed job)"
    using acc j by (auto simp: fail_lease_def Let_def)
  from commit_fst_snd [OF this] have new: "job = ?new" "inner reg1 = put_job jid ?new (inner reg)"
    by simp_all
  then show "jobs (inner reg1) jid = Some job" "job_status job = Failed" by simp_all
  show "job_error job = Some failure"
    unfolding new(1) by (rule failed_job_fields(3) [OF j(7,2) refl])
  show "terminal_attempt_matches job w (Some n)"
    using j(5) by (simp add: new(1) fail_job_def terminal_attempt_matches_def attempt_differs_def)
qed

lemma outcome_later:
  assumes "registry_run reg1 es reg2" "registry_inv (inner reg1)" "jobs (inner reg1) jid = Some job"
    "is_terminal (job_status job)" "jobs (inner reg2) jid = Some job2"
  shows "same_outcome job job2"
proof -
  obtain m where "m \<le> next_id (inner reg1)" "jid = job_id_of m"
    by (rule order_id [OF assms(2,3)])
  then show ?thesis using run_terminal [OF assms(1-4)] assms(5) by auto
qed

text \<open>Reporting a completion again is harmless: after an accepted report for an attempt, the
  same report, at any later time and whatever happened to the registry meanwhile, changes
  nothing and is answered with the completed job, as long as the job is remembered.\<close>
theorem complete_retry_idempotent:
  assumes "registry_run reg0 es0 reg" "started reg0"
    and acc: "complete_lease db now jid w (Some n) result reg = (reg1, Finish_Completed job)"
    and run: "registry_run reg1 es reg2" and still: "jobs (inner reg2) jid = Some job2"
  shows "complete_lease db' now' jid w (Some n) result reg2 = (reg2, Finish_IdempotentCompleted job2)"
proof -
  have inv: "registry_inv (inner reg)" using assms(1,2) by (auto intro: registry_run_inv started_inv)
  note c = complete_accepted [OF inv acc]
  have "registry_inv (inner reg1)" using complete_inv [OF inv] acc by (metis fst_conv)
  then have "same_outcome job job2" by (rule outcome_later [OF run _ c(1) _ still]) (simp add: c(2))
  then show ?thesis
    using c still by (simp add: complete_lease_def same_outcome_def terminal_attempt_matches_def)
qed

theorem complete_retry_idempotent_witness:
  "complete_lease ex_db 999 ''job-1'' ''w1'' (Some 1) 9 (ex_reg ex_begun []) =
     (ex_reg ex_begun [], Finish_IdempotentCompleted ex_begun)"
  by (rule complete_retry_idempotent [OF ex_run2 ex_started ex_complete_lease ex_run_begin]) simp

text \<open>Likewise for the report of the failure that ended the job.\<close>
theorem fail_retry_idempotent:
  assumes "registry_run reg0 es0 reg" "started reg0"
    and acc: "fail_lease db now jid w (Some n) failure reg = (reg1, Finish_Failed job)"
    and run: "registry_run reg1 es reg2" and still: "jobs (inner reg2) jid = Some job2"
  shows "fail_lease db' now' jid w (Some n) failure reg2 = (reg2, Finish_IdempotentFailed job2)"
proof -
  have inv: "registry_inv (inner reg)" using assms(1,2) by (auto intro: registry_run_inv started_inv)
  note c = fail_accepted [OF inv acc]
  have "registry_inv (inner reg1)" using fail_inv [OF inv] acc by (metis fst_conv)
  then have "same_outcome job job2" by (rule outcome_later [OF run _ c(1) _ still]) (simp add: c(2))
  then show ?thesis
    using c still by (simp add: fail_lease_def same_outcome_def terminal_attempt_matches_def)
qed

theorem fail_retry_idempotent_witness:
  "fail_lease ex_db 999 ''job-1'' ''w1'' (Some 1) ex_failure (ex_reg ex_failed []) =
     (ex_reg ex_failed [], Finish_IdempotentFailed ex_failed)"
proof -
  have "fail_lease ex_db 50 ''job-1'' ''w1'' (Some 1) ex_failure (ex_reg ex_running []) =
      (ex_reg ex_failed [], Finish_Failed ex_failed)"
    by (simp add: fail_lease_def Let_def commit_def persist_locked_def put_job_def
        attempt_differs_def ex_failed_def) (simp add: ex_reg_def ex_failure_def)
  from fail_retry_idempotent [OF ex_run2 ex_started this run_start]
  show ?thesis by simp
qed

section \<open>Submission\<close>

lemma insert_new_job_simps:
  assumes "insert_new_job now request url key i = (i', job)"
  shows "job = new_job now (Suc (next_id i)) request url key"
    "jobs i' = (jobs i)(job_id_of (Suc (next_id i)) \<mapsto> job)"
    "job_order i' = job_order i @ [job_id_of (Suc (next_id i))]"
    "queues i' = push_back (req_priority request) (job_id_of (Suc (next_id i))) (queues i)"
  using assms by (auto simp: insert_new_job_def Let_def)

text \<open>C34: Idempotent submission: while a job with idempotency key \<open>k\<close> is in the registry, a
  submission whose trimmed key is \<open>k\<close> creates nothing and leaves the registry as it is: it is
  answered with that job if kind, priority, payload and trimmed callback URL agree, and refused
  otherwise. An accepted submission with a key puts a job with this key into the registry.\<close>
theorem submit_idempotent:
  assumes inv: "registry_inv (inner reg)"
    and key: "normalize_idempotency_key (req_idempotency_key request) = Inr (Some k)"
    and url: "normalize_callback_url (req_callback_url request) = Inr url"
  shows "(jobs (inner reg) jid = Some job \<and> idempotency_key job = Some k \<longrightarrow>
      submit db now request reg =
        (reg, if same_request job request url then Inr job
              else Inl ''idempotency_key already used for a different job request'')) \<and>
    (submit db now request reg = (reg1, Inr job) \<longrightarrow>
      jobs (inner reg1) (job_id job) = Some job \<and> idempotency_key job = Some k \<and>
      same_request job request url)"
proof (intro conjI impI)
  assume job: "jobs (inner reg) jid = Some job \<and> idempotency_key job = Some k"
  then have "idempotency_keys (inner reg) k = Some jid"
    using registry_invD(4) [OF inv] by (simp add: keys_ok_def job_sat_def)
  then show "submit db now request reg =
      (reg, if same_request job request url then Inr job
            else Inl ''idempotency_key already used for a different job request'')"
    using job key url by (simp add: submit_def)
next
  assume sub: "submit db now request reg = (reg1, Inr job)"
  have "jobs (inner reg1) (job_id job) = Some job \<and> idempotency_key job = Some k \<and>
      same_request job request url"
  proof (rule submit_cases [OF inv, of db now request])
    fix url' k' jid' old
    assume r: "normalize_callback_url (req_callback_url request) = Inr url'"
      "normalize_idempotency_key (req_idempotency_key request) = Inr (Some k')"
      "idempotency_keys (inner reg) k' = Some jid'" "jobs (inner reg) jid' = Some old"
      "same_request old request url'" "submit db now request reg = (reg, Inr old)"
    have "idempotency_key old = Some k'"
      using inv_key_job [OF inv r(3)] r(4) by auto
    then show ?thesis using r sub key url inv_job(1) [OF inv r(4)] by auto
  next
    fix url' key'
    assume r: "normalize_callback_url (req_callback_url request) = Inr url'"
      "normalize_idempotency_key (req_idempotency_key request) = Inr key'"
      "submit db now request reg = submit_new db now request url' key' reg"
    obtain i' j where ins: "insert_new_job now request url' key' (inner reg) = (i', j)" by fastforce
    then have "inner reg1 = i' \<and> job = j"
      using sub r(3) by (auto simp: submit_new_def dest: commit_fst_snd)
    then show ?thesis
      using insert_new_job_simps [OF ins] r(1,2) key url by (auto simp: new_job_def same_request_def)
  qed (use sub in simp)
  then show "jobs (inner reg1) (job_id job) = Some job" "idempotency_key job = Some k"
    "same_request job request url" by blast+
qed

theorem submit_idempotent_witness:
  "submit ex_db 99 ex_request (ex_reg ex_complete []) = (ex_reg ex_complete [], Inr ex_complete)"
proof -
  have "same_request ex_complete ex_request (Some ''http://cb'')" "idempotency_key ex_complete = Some ''k1''"
    by (simp_all add: same_request_def ex_complete_def completed_job_def ex_running_def claim_job_def
        ex_job_def new_job_def)
  then show ?thesis
    using submit_idempotent [OF ex_inv(3), of ex_request "''k1''" "Some ''http://cb''" "''job-1''" ex_complete ex_db 99]
    by (simp add: ex_request_def)
qed

text \<open>An accepted submission without a key, or with one no stored job has, adds one job with
  the next id, queued at the end of the queue of its priority and last in submission order,
  with no attempts; every other job is untouched.\<close>
theorem submit_enqueues_at_back:
  assumes inv: "registry_inv (inner reg)" and sub: "submit db now request reg = (reg', Inr job)"
    and new: "jobs (inner reg) (job_id job) = None"
  shows "job_id job = job_id_of (next_id (inner reg) + 1) \<and> job_status job = Queued \<and> attempts job = 0 \<and>
    max_attempts job = 3 \<and> jobs (inner reg') = (jobs (inner reg))(job_id job \<mapsto> job) \<and>
    job_order (inner reg') = job_order (inner reg) @ [job_id job] \<and>
    (\<forall>p. for_priority p (queues (inner reg')) =
       for_priority p (queues (inner reg)) @ (if p = req_priority request then [job_id job] else []))"
proof (rule submit_cases [OF inv, of db now request])
  fix url k jid old
  assume "idempotency_keys (inner reg) k = Some jid" "jobs (inner reg) jid = Some old"
    "submit db now request reg = (reg, Inr old)"
  then show ?thesis using sub new inv_job(1) [OF inv] by auto
next
  fix url key
  assume s: "submit db now request reg = submit_new db now request url key reg"
  obtain i' j where ins: "insert_new_job now request url key (inner reg) = (i', j)" by fastforce
  then have "inner reg' = i'" "job = j"
    using sub s by (auto simp: submit_new_def dest: commit_fst_snd)
  then show ?thesis
    using insert_new_job_simps [OF ins] by simp
qed (use sub in simp)

theorem submit_enqueues_at_back_witness:
  "job_order (inner (ex_reg ex_job [''job-1''])) = job_order (inner ex_new) @ [''job-1'']"
  using submit_enqueues_at_back [OF started_inv [OF ex_started] ex_submit]
  by (simp add: ex_new_def registry_new_def inner_default_def)

section \<open>Expired leases and retention\<close>

text \<open>C32: A sweep ends exactly the running attempts whose lease has expired: afterwards no job has
  an expired lease, each such job is queued again if attempts are left and failed otherwise, all
  other jobs are unchanged, the report counts both kinds, and it names the worker of each
  ended attempt once per attempt, so that its slot is given back exactly once.\<close>
theorem sweep_ends_expired_attempts:
  assumes inv: "registry_inv (inner reg)" and call: "requeue_expired_leases db now reg = (reg', report)"
  shows "(\<forall>k. \<not> expired_in now (inner reg') k) \<and>
    (\<forall>k. jobs (inner reg') k = map_option (expire_job now) (jobs (inner reg) k)) \<and>
    requeued report = card {k. expired_in now (inner reg) k \<and> job_sat retries_left (inner reg) k} \<and>
    failed report = card {k. expired_in now (inner reg) k \<and> \<not> job_sat retries_left (inner reg) k} \<and>
    (\<forall>w. count_list (released_workers report) w =
       card {k. expired_in now (inner reg) k \<and> holder (inner reg) k = w})"
proof -
  obtain i' where sw: "requeue_expired_leases_locked now (inner reg) = (i', report)"
    and i': "inner reg' = i'"
    using call by (auto simp: requeue_expired_leases_def split: prod.splits dest!: commit_fst_snd)
  note eq = sweep_eq [OF inv sw]
  have "\<not> expired_in now (inner reg') k" for k
  proof (cases "jobs (inner reg) k")
    case (Some job)
    have "\<not> is_expired now (expire_job now job)"
    proof (cases "is_expired now job")
      case True
      then have "job_status (expire_job now job) \<noteq> Running" by (simp add: expire_job_status)
      then show ?thesis using is_expired_Running by blast
    qed (simp add: expire_job_def)
    then show ?thesis using Some by (simp add: expired_in_def job_sat_def i' eq(2))
  qed (simp add: expired_in_def job_sat_def i' eq(2))
  moreover have "count_list (released_workers report) w =
      card {k. expired_in now (inner reg) k \<and> holder (inner reg) k = w}" for w
    by (rule sweep_released [OF inv sw])
  ultimately show ?thesis
    by (simp add: Let_def i' eq(1,2) sweep_report_def expiry_report_default_def expired_card [OF inv])
qed

theorem sweep_ends_expired_attempts_witness:
  "(let reg' = fst (requeue_expired_leases ex_db 130 (ex_reg ex_running [])) in
     \<not> expired_in 130 (inner reg') ''job-1'' \<and>
     map_option job_status (jobs (inner reg') ''job-1'') = Some Queued)"
  using sweep_ends_expired_attempts [OF ex_inv(2) surjective_pairing, of 130 ex_db]
  by (simp add: Let_def expire_job_status is_expired_def retries_left_def)

lemma before_filter: "before x y (filter P xs) \<Longrightarrow> before x y xs"
  by (induction xs) (auto simp: before_Cons split: if_splits)

lemma before_take_drop:
  "x \<in> set (take n xs) \<Longrightarrow> y \<in> set xs \<Longrightarrow> y \<notin> set (take n xs) \<Longrightarrow> before x y xs"
  using before_append [of x y "take n xs" "drop n xs"]
  by (metis Un_iff append_take_drop_id set_append)

text \<open>C33: Pruning removes only terminal jobs older than the retention time whose callback, if any,
  was delivered, at most \<open>max_pruned_jobs\<close> of them and the earliest submitted first; the report
  counts them, and every other job and the queues are untouched. If some such job is kept, the
  limit was reached.\<close>
theorem prune_removes_only_settled:
  assumes inv: "registry_inv (inner reg)" and call: "prune_terminal_jobs db now reg = (reg', report)"
    and ids: "ids = dom (jobs (inner reg)) - dom (jobs (inner reg'))"
    and policy: "policy = retention_policy reg"
  shows "jobs (inner reg') = jobs (inner reg) |` (- ids) \<and> removed report = card ids \<and>
    card ids \<le> max_pruned_jobs policy \<and>
    (\<forall>k \<in> ids. job_sat (prunable now policy) (inner reg) k) \<and>
    (\<forall>k. job_sat (prunable now policy) (inner reg) k \<and> k \<notin> ids \<longrightarrow>
       card ids = max_pruned_jobs policy \<and> (\<forall>x \<in> ids. before x k (job_order (inner reg)))) \<and>
    (\<forall>p. for_priority p (queues (inner reg')) = for_priority p (queues (inner reg)))"
proof -
  let ?rm = "pruned_ids now policy (inner reg)"
  let ?old = "filter (job_sat (prunable now policy) (inner reg)) (job_order (inner reg))"
  obtain i' where pr: "prune_terminal_jobs_locked now policy (inner reg) = (i', report)" and i': "inner reg' = i'"
    using call by (auto simp: prune_terminal_jobs_def policy split: prod.splits dest!: commit_fst_snd)
  note eq = prune_eq [OF inv pr]
  have sub: "set ?rm \<subseteq> dom (jobs (inner reg))"
    using set_pruned_ids [of _ now policy "inner reg"] inv_order(2) [OF inv] by blast
  then have rm: "ids = set ?rm" by (auto simp: ids i' eq(1))
  have card: "card ids = length ?rm"
    unfolding rm using inv_order(1) [OF inv] by (simp add: distinct_card pruned_ids_def)
  have "card ids = max_pruned_jobs policy \<and> (\<forall>x \<in> ids. before x k (job_order (inner reg)))"
    if k: "job_sat (prunable now policy) (inner reg) k" "k \<notin> ids" for k
  proof -
    have "k \<in> set ?old"
      using k(1) inv_order(2) [OF inv] by (auto simp: job_sat_def split: option.splits)
    moreover have "k \<notin> set (take (max_pruned_jobs policy) ?old)"
      using k(2) by (simp add: rm pruned_ids_def)
    ultimately have "\<forall>x \<in> ids. before x k ?old" "\<not> length ?old \<le> max_pruned_jobs policy"
      by (auto simp: rm pruned_ids_def intro: before_take_drop)
    then show ?thesis using card before_filter by (fastforce simp: pruned_ids_def)
  qed
  moreover have "\<forall>k \<in> ids. job_sat (prunable now policy) (inner reg) k"
    unfolding rm using set_pruned_ids by blast
  moreover have "card ids \<le> max_pruned_jobs policy" by (simp add: card pruned_ids_def)
  ultimately show ?thesis
    using eq(1,4,6) unfolding i' rm [symmetric] card by blast
qed

theorem prune_removes_only_settled_witness:
  "jobs (inner (fst (prune_terminal_jobs ex_db 999999999 (ex_reg ex_complete [])))) ''job-1'' = Some ex_complete"
proof -
  have "\<not> callback_delivered ex_complete"
    by (simp add: ex_complete_def completed_job_def prepare_callback_def callback_delivered_def
        fresh_callback_def)
  then have "\<not> prunable 999999999 retention_default ex_complete"
    by (simp add: prunable_def has_pending_callback_def)
  then have no: "\<not> job_sat (prunable 999999999 retention_default) (inner (ex_reg ex_complete [])) ''job-1''"
    by (simp add: job_sat_def)
  note t = prune_removes_only_settled [OF ex_inv(3) surjective_pairing refl refl, of ex_db 999999999]
  have "''job-1'' \<notin> dom (jobs (inner (ex_reg ex_complete []))) -
      dom (jobs (inner (fst (prune_terminal_jobs ex_db 999999999 (ex_reg ex_complete [])))))" (is "_ \<notin> ?ids")
    using t no by (metis ex_reg_simps(6))
  then have "(jobs (inner (ex_reg ex_complete [])) |` (- ?ids)) ''job-1'' = Some ex_complete"
    by (simp add: restrict_map_def)
  then show ?thesis by (subst t [THEN conjunct1])
qed

end
