(* ===== verification/Jobs_Snapshots.thy ===== *)
theory Jobs_Snapshots
  imports Jobs_Example
begin

text \<open>
  The metric snapshots of the job registry, \<open>queue_snapshots\<close>, \<open>queue_wait_snapshots\<close> and
  \<open>terminal_duration_snapshots\<close> of \<open>src/src/jobs.rs\<close>. Each groups jobs in a vector that it
  searches for the group of the next job. Seconds are rational numbers: the code has \<open>f64\<close>, and its
  rounding is not modelled.
\<close>

section \<open>Grouping with upsert\<close>

text \<open>
  \<open>acc\<close> has one group per key of \<open>xs\<close>, with the number of elements of \<open>xs\<close> of this key.
\<close>

definition grouped ::
  "('s \<Rightarrow> 'k) \<Rightarrow> ('s \<Rightarrow> nat) \<Rightarrow> ('x \<Rightarrow> 'k) \<Rightarrow> 's list \<Rightarrow> 'x list \<Rightarrow> bool" where
  "grouped g c key acc xs \<longleftrightarrow> distinct (map g acc) \<and> g ` set acc = key ` set xs \<and>
     (\<forall>s \<in> set acc. c s = length (filter (\<lambda>x. key x = g s) xs))"

lemma grouped_Nil [simp]: "grouped g c key [] []"
  by (simp add: grouped_def)

lemma upsert_present:
  "\<exists>s \<in> set acc. P s \<Longrightarrow> \<exists>us s vs. acc = us @ s # vs \<and> P s \<and> (\<forall>u \<in> set us. \<not> P u) \<and>
     upsert P f new acc = us @ f s # vs"
proof (induction acc)
  case (Cons a acc)
  show ?case
  proof (cases "P a")
    case True
    then show ?thesis by (intro exI [of _ "[]"]) auto
  next
    case False
    with Cons obtain us s vs where "acc = us @ s # vs" "P s" "\<forall>u \<in> set us. \<not> P u"
        "upsert P f new acc = us @ f s # vs" by auto
    with False show ?thesis by (intro exI [of _ "a # us"] exI [of _ s] exI [of _ vs]) auto
  qed
qed simp

lemma upsert_absent: "\<forall>s \<in> set acc. \<not> P s \<Longrightarrow> upsert P f new acc = acc @ [new]"
  by (induction acc) auto

lemma grouped_upsert:
  assumes gr: "grouped g c key acc xs"
    and new: "g new = key x" "c new = 1" and f: "\<And>s. g (f s) = g s" "\<And>s. c (f s) = c s + 1"
  shows "grouped g c key (upsert (\<lambda>s. g s = key x) f new acc) (xs @ [x])"
proof (cases "\<exists>s \<in> set acc. g s = key x")
  case True
  from upsert_present [OF this, of f new] obtain us s vs where a: "acc = us @ s # vs" "g s = key x"
      "upsert (\<lambda>s. g s = key x) f new acc = us @ f s # vs" by blast
  from gr show ?thesis
    unfolding a(3) grouped_def by (auto simp: a(1,2) f)
next
  case False
  then have none: "filter (\<lambda>y. key y = key x) xs = []"
    using gr by (force simp: grouped_def filter_empty_conv)
  have "upsert (\<lambda>s. g s = key x) f new acc = acc @ [new]"
    using False by (intro upsert_absent) blast
  moreover have "key x \<notin> key ` set xs" using False gr by (force simp: grouped_def)
  ultimately show ?thesis using gr False new none by (auto simp: grouped_def)
qed

lemma grouped_sort: "grouped g c key acc xs \<Longrightarrow> grouped g c key (sort_key h acc) xs"
proof -
  have "distinct (map g (sort_key h acc)) = distinct (map g acc)"
    by (auto simp: distinct_map)
  then show "grouped g c key acc xs \<Longrightarrow> ?thesis" by (simp add: grouped_def)
qed

lemma upsert_map:
  "(\<And>s. P (h s) = Q s) \<Longrightarrow> (\<And>s. h (f s) = f' (h s)) \<Longrightarrow>
     map h (upsert Q f new acc) = upsert P f' (h new) (map h acc)"
  by (induction acc) auto

section \<open>The snapshots\<close>

record job_queue_snapshot =
  qs_priority :: string
  qs_kind :: string
  qs_depth :: nat

record job_queue_wait_snapshot =
  qw_priority :: string
  qw_kind :: string
  qw_count :: nat
  qw_wait_sum :: rat
  qw_wait_max :: rat

record job_duration_snapshot =
  jd_priority :: string
  jd_kind :: string
  jd_status :: string
  jd_count :: nat
  jd_duration_sum :: rat
  jd_duration_max :: rat

text \<open>The queued jobs in the order of \<open>queues.iter()\<close>, each with the priority of its queue.\<close>

definition queued_entries :: "'v job_registry_inner \<Rightarrow> (priority \<times> 'v job_record) list" where
  "queued_entries i =
     concat (map (\<lambda>(p, queue).
       List.map_filter (\<lambda>jid. case jobs i jid of
           None \<Rightarrow> None
         | Some job \<Rightarrow> if job_status job \<noteq> Queued then None else Some (p, job)) queue)
       (queues_iter (queues i)))"

definition queue_snapshot_step ::
  "priority \<times> 'v job_record \<Rightarrow> job_queue_snapshot list \<Rightarrow> job_queue_snapshot list" where
  "queue_snapshot_step e =
     (case e of (p, job) \<Rightarrow>
        upsert (\<lambda>s. qs_priority s = priority_as_str p \<and> qs_kind s = kind_as_str (job_kind job))
          (\<lambda>s. s\<lparr>qs_depth := qs_depth s + 1\<rparr>)
          \<lparr>qs_priority = priority_as_str p, qs_kind = kind_as_str (job_kind job), qs_depth = 1\<rparr>)"

definition queue_snapshots :: "'v job_registry_inner \<Rightarrow> job_queue_snapshot list" where
  "queue_snapshots i =
     sort_key (\<lambda>s. (priority_str_rank (qs_priority s), kind_rank (qs_kind s)))
       (fold queue_snapshot_step (queued_entries i) [])"

definition seconds_of :: "nat \<Rightarrow> rat" where
  "seconds_of ms = of_nat ms / 1000"

definition queue_wait_step ::
  "nat \<Rightarrow> priority \<times> 'v job_record \<Rightarrow> job_queue_wait_snapshot list \<Rightarrow> job_queue_wait_snapshot list" where
  "queue_wait_step now e =
     (case e of (p, job) \<Rightarrow>
        let wait_seconds = seconds_of (now - created_at job) in
        upsert (\<lambda>s. qw_priority s = priority_as_str p \<and> qw_kind s = kind_as_str (job_kind job))
          (\<lambda>s. s\<lparr>qw_count := qw_count s + 1, qw_wait_sum := qw_wait_sum s + wait_seconds,
                 qw_wait_max := max (qw_wait_max s) wait_seconds\<rparr>)
          \<lparr>qw_priority = priority_as_str p, qw_kind = kind_as_str (job_kind job), qw_count = 1,
           qw_wait_sum = wait_seconds, qw_wait_max = wait_seconds\<rparr>)"

definition queue_wait_snapshots :: "nat \<Rightarrow> 'v job_registry_inner \<Rightarrow> job_queue_wait_snapshot list" where
  "queue_wait_snapshots now i =
     sort_key (\<lambda>s. (priority_str_rank (qw_priority s), kind_rank (qw_kind s)))
       (fold (queue_wait_step now) (queued_entries i) [])"

definition terminal_duration_step ::
  "'v job_registry_inner \<Rightarrow> string \<Rightarrow> job_duration_snapshot list \<Rightarrow> job_duration_snapshot list" where
  "terminal_duration_step i jid acc =
     (case jobs i jid of
        None \<Rightarrow> acc
      | Some job \<Rightarrow>
          if \<not> is_terminal (job_status job) then acc
          else
            let duration_seconds = seconds_of (updated_at job - created_at job) in
            upsert (\<lambda>s. jd_priority s = priority_as_str (job_priority job) \<and>
                       jd_kind s = kind_as_str (job_kind job) \<and>
                       jd_status s = status_as_str (job_status job))
              (\<lambda>s. s\<lparr>jd_count := jd_count s + 1,
                     jd_duration_sum := jd_duration_sum s + duration_seconds,
                     jd_duration_max := max (jd_duration_max s) duration_seconds\<rparr>)
              \<lparr>jd_priority = priority_as_str (job_priority job),
               jd_kind = kind_as_str (job_kind job), jd_status = status_as_str (job_status job),
               jd_count = 1, jd_duration_sum = duration_seconds,
               jd_duration_max = duration_seconds\<rparr> acc)"

definition terminal_duration_snapshots :: "'v job_registry_inner \<Rightarrow> job_duration_snapshot list" where
  "terminal_duration_snapshots i =
     sort_key (\<lambda>s. (priority_str_rank (jd_priority s), kind_rank (jd_kind s), status_rank (jd_status s)))
       (fold (terminal_duration_step i) (job_order i) [])"

section \<open>They count the jobs\<close>

lemma fold_snapshot_grouped:
  "grouped (\<lambda>s. (qs_priority s, qs_kind s)) qs_depth
     (\<lambda>(p, job). (priority_as_str p, kind_as_str (job_kind job))) acc xs \<Longrightarrow>
   grouped (\<lambda>s. (qs_priority s, qs_kind s)) qs_depth
     (\<lambda>(p, job). (priority_as_str p, kind_as_str (job_kind job)))
     (fold queue_snapshot_step es acc) (xs @ es)"
proof (induction es arbitrary: acc xs)
  case (Cons e es)
  have "queue_snapshot_step e acc =
      upsert (\<lambda>s. (qs_priority s, qs_kind s) = (\<lambda>(p, job). (priority_as_str p, kind_as_str (job_kind job))) e)
        (\<lambda>s. s\<lparr>qs_depth := qs_depth s + 1\<rparr>)
        \<lparr>qs_priority = priority_as_str (fst e), qs_kind = kind_as_str (job_kind (snd e)), qs_depth = 1\<rparr> acc"
    by (cases e) (simp add: queue_snapshot_step_def)
  then show ?case
    using Cons.IH [OF grouped_upsert [OF Cons.prems, of
        "\<lparr>qs_priority = priority_as_str (fst e), qs_kind = kind_as_str (job_kind (snd e)), qs_depth = 1\<rparr>" e
        "\<lambda>s. s\<lparr>qs_depth := qs_depth s + 1\<rparr>"]]
    by (simp add: case_prod_unfold)
qed simp

lemma queue_snapshots_grouped:
  "grouped (\<lambda>s. (qs_priority s, qs_kind s)) qs_depth
     (\<lambda>(p, job). (priority_as_str p, kind_as_str (job_kind job)))
     (queue_snapshots i) (queued_entries i)"
  unfolding queue_snapshots_def
  using fold_snapshot_grouped [OF grouped_Nil, of "queued_entries i"] by (intro grouped_sort) simp

lemma fold_map_sim:
  "(\<And>x acc. h (f x acc) = g x (h acc)) \<Longrightarrow> h (fold f xs acc) = fold g xs (h acc)"
  by (induction xs arbitrary: acc) auto

lemma wait_snapshots_count:
  "map (\<lambda>s. \<lparr>qs_priority = qw_priority s, qs_kind = qw_kind s, qs_depth = qw_count s\<rparr>)
     (queue_wait_snapshots now i) = queue_snapshots i"
proof -
  let ?h = "\<lambda>s. \<lparr>qs_priority = qw_priority s, qs_kind = qw_kind s, qs_depth = qw_count s\<rparr>"
  have step: "map ?h (queue_wait_step now e acc) = queue_snapshot_step e (map ?h acc)"
    for e :: "priority \<times> 'a job_record" and acc
    by (cases e) (simp add: queue_wait_step_def queue_snapshot_step_def Let_def upsert_map
        [where P = "\<lambda>s. qs_priority s = priority_as_str (fst e) \<and> qs_kind s = kind_as_str (job_kind (snd e))"
           and f' = "\<lambda>s. s\<lparr>qs_depth := qs_depth s + 1\<rparr>"])
  show ?thesis
    unfolding queue_wait_snapshots_def queue_snapshots_def
    by (subst sort_key_map [of "\<lambda>s. (priority_str_rank (qs_priority s), kind_rank (qs_kind s))"])
      (simp_all add: fold_map_sim [where h = "map ?h" and f = "queue_wait_step now" and g = queue_snapshot_step, OF step])
qed

definition entries_of :: "'v job_registry_inner \<Rightarrow> priority \<Rightarrow> (priority \<times> 'v job_record) list" where
  "entries_of i p = map (\<lambda>jid. (p, the (jobs i jid))) (for_priority p (queues i))"

lemma queued_entries_inv:
  assumes inv: "registry_inv i"
  shows "queued_entries i = concat (map (entries_of i) [Realtime, Batch, Background])"
proof -
  have "List.map_filter (\<lambda>jid. case jobs i jid of None \<Rightarrow> None
          | Some job \<Rightarrow> if job_status job \<noteq> Queued then None else Some (p, job))
        (for_priority p (queues i)) = entries_of i p" for p
  proof -
    have "List.map_filter f xs = map h xs" if "\<And>x. x \<in> set xs \<Longrightarrow> f x = Some (h x)"
      for f and h :: "string \<Rightarrow> priority \<times> 'a job_record" and xs
      using that by (induction xs) (auto simp: map_filter_simps)
    then show ?thesis
      unfolding entries_of_def by this (auto elim!: queue_job [OF inv])
  qed
  then show ?thesis by (simp add: queued_entries_def queues_iter_eq del: for_priority.simps)
qed

lemma queued_entries_count:
  assumes inv: "registry_inv i"
  shows "length (filter (\<lambda>(p', job). p' = p \<and> job_kind job = k) (queued_entries i)) =
    card {jid. job_sat (\<lambda>job. job_status job = Queued \<and> job_priority job = p \<and> job_kind job = k) i jid}"
proof -
  let ?P = "\<lambda>e. fst e = p \<and> job_kind (snd e) = k"
  let ?Q = "\<lambda>jid. job_kind (the (jobs i jid)) = k"
  have other: "filter ?P (entries_of i q) = []" if "q \<noteq> p" for q
    using that by (auto simp: entries_of_def filter_empty_conv)
  have "length (filter ?P (entries_of i p)) = length (filter ?Q (for_priority p (queues i)))"
    by (simp add: entries_of_def filter_map o_def)
  also have "\<dots> = card {jid \<in> set (for_priority p (queues i)). ?Q jid}"
    by (rule distinct_filter_length [OF inv_queue(1) [OF inv]])
  also have "{jid \<in> set (for_priority p (queues i)). ?Q jid} =
      {jid. job_sat (\<lambda>job. job_status job = Queued \<and> job_priority job = p \<and> job_kind job = k) i jid}"
    using inv_queue(2) [OF inv, of p] by (auto simp: queued_set_def job_sat_def split: option.splits)
  finally show ?thesis
    using other unfolding queued_entries_inv [OF inv] case_prod_unfold by (cases p) simp_all
qed

text \<open>The queue metrics are exact: in a well-formed registry \<open>queue_snapshots\<close> has one entry
  for each priority and kind that some queued job has, and its depth is the number of these
  jobs; the wait-time snapshots list the same groups with the same counts in the same order.\<close>
theorem queue_snapshots_exact:
  assumes inv: "registry_inv i"
  shows "distinct (map (\<lambda>s. (qs_priority s, qs_kind s)) (queue_snapshots i)) \<and>
    (\<forall>p k n. (\<exists>s \<in> set (queue_snapshots i). qs_priority s = priority_as_str p \<and>
        qs_kind s = kind_as_str k \<and> qs_depth s = n) \<longleftrightarrow>
      0 < n \<and> n = card {jid. job_sat (\<lambda>job. job_status job = Queued \<and> job_priority job = p \<and>
        job_kind job = k) i jid}) \<and>
    map (\<lambda>s. (qw_priority s, qw_kind s, qw_count s)) (queue_wait_snapshots now i) =
      map (\<lambda>s. (qs_priority s, qs_kind s, qs_depth s)) (queue_snapshots i)"
proof -
  let ?snaps = "queue_snapshots i"
  let ?key = "\<lambda>(p, job). (priority_as_str p, kind_as_str (job_kind job))"
  let ?g = "\<lambda>s. (qs_priority s, qs_kind s)"
  let ?len = "\<lambda>v. length (filter (\<lambda>x. ?key x = v) (queued_entries i))"
  have dist: "distinct (map ?g ?snaps)" and keys: "?g ` set ?snaps = ?key ` set (queued_entries i)"
    and depth: "\<And>s. s \<in> set ?snaps \<Longrightarrow> qs_depth s = ?len (?g s)"
    using queue_snapshots_grouped [of i] by (simp_all add: grouped_def)
  have cnt: "?len (priority_as_str p, kind_as_str k) =
      card {jid. job_sat (\<lambda>job. job_status job = Queued \<and> job_priority job = p \<and> job_kind job = k) i jid}"
    for p k
    using queued_entries_count [OF inv, of p k] by (simp add: case_prod_unfold)
  have some: "0 < ?len v \<longleftrightarrow> v \<in> ?g ` set ?snaps" for v
    unfolding keys length_greater_0_conv filter_empty_conv image_iff by metis
  have ex: "(\<exists>s \<in> set ?snaps. ?g s = v \<and> qs_depth s = n) \<longleftrightarrow> 0 < n \<and> n = ?len v" for v n
    using some [of v] depth by (auto simp: image_iff)
  have "(\<exists>s \<in> set ?snaps. qs_priority s = priority_as_str p \<and> qs_kind s = kind_as_str k \<and> qs_depth s = n) \<longleftrightarrow>
      0 < n \<and> n = card {jid. job_sat (\<lambda>job. job_status job = Queued \<and> job_priority job = p \<and>
        job_kind job = k) i jid}" for p k n
    unfolding cnt [symmetric] ex [symmetric] prod.inject by (simp only: conj_assoc)
  moreover have "map (\<lambda>s. (qw_priority s, qw_kind s, qw_count s)) (queue_wait_snapshots now i) =
      map (\<lambda>s. (qs_priority s, qs_kind s, qs_depth s)) ?snaps"
    using arg_cong [OF wait_snapshots_count [of now i], of "map (\<lambda>s. (qs_priority s, qs_kind s, qs_depth s))"]
    by (simp add: o_def)
  ultimately show ?thesis using dist by (intro conjI allI)
qed

theorem queue_snapshots_exact_witness:
  "map (\<lambda>s. (qw_priority s, qw_kind s, qw_count s)) (queue_wait_snapshots 30 (inner (ex_reg ex_job [''job-1'']))) =
     [(''batch'', ''cluster'', 1)]"
  using queue_snapshots_exact [OF ex_inv(1), of 30]
  by (simp add: queue_snapshots_def queued_entries_def queues_iter_def map_filter_simps
      queue_snapshot_step_def)

end
