(* ===== verification/Storage.thy ===== *)
theory Storage
  imports Jobs_Example
begin

text \<open>
  The SQLite job store, \<open>src/src/storage.rs\<close>. A database is its \<open>jobs\<close> table: the columns it has
  (\<open>None\<close> before it is created) and its rows in insertion order. Rust values in JSON columns go
  through \<open>serde_json\<close>, which is the parameter \<open>json_codec\<close> of the definitions; \<open>codec_ok\<close> and
  \<open>job_reads_back\<close> state what the code relies on. An error that SQLite itself reports (opening the file, executing a
  statement, committing) is the parameter \<open>fault\<close> of a call: a transaction that does not commit leaves
  the table as it was. \<open>hash_order\<close> stands for the iteration order of a \<open>HashMap\<close>.
\<close>

section \<open>Rows and columns\<close>

record job_row =
  row_id :: string
  row_type :: string
  row_priority :: string
  row_status :: string
  row_payload_json :: string
  row_callback_url :: "string option"
  row_result_json :: "string option"
  row_error_json :: "string option"
  row_attempts :: int
  row_max_attempts :: int
  row_lease_json :: "string option"
  row_created_at :: int
  row_updated_at :: int
  row_queue_position :: "int option"
  row_order_position :: int
  row_callback_state_json :: "string option"
  row_idempotency_key :: "string option"
  row_terminal_attempt_json :: "string option"

record job_db =
  db_columns :: "string list option"
  db_rows :: "job_row list"
  db_user_version :: int

record 'v json_codec =
  enc_value :: "'v \<Rightarrow> string + string"
  dec_value :: "string \<Rightarrow> string + 'v"
  enc_failure :: "job_failure \<Rightarrow> string + string"
  dec_failure :: "string \<Rightarrow> string + job_failure"
  enc_callback :: "job_callback_state \<Rightarrow> string + string"
  dec_callback :: "string \<Rightarrow> string + job_callback_state"
  enc_lease :: "job_lease \<Rightarrow> string + string"
  dec_lease :: "string \<Rightarrow> string + job_lease"
  enc_terminal :: "job_terminal_attempt \<Rightarrow> string + string"
  dec_terminal :: "string \<Rightarrow> string + job_terminal_attempt"
  dec_kind :: "string \<Rightarrow> string + job_kind"
  dec_priority :: "string \<Rightarrow> string + priority"
  dec_status :: "string \<Rightarrow> string + job_status"

definition dquote :: "string \<Rightarrow> string" where
  "dquote s = [CHR 0x22] @ s @ [CHR 0x22]"

section \<open>Schema\<close>

definition JOB_STORE_SCHEMA_VERSION :: int where
  "JOB_STORE_SCHEMA_VERSION = 4"

definition all_columns :: "string list" where
  "all_columns =
     [''id'', ''type'', ''priority'', ''status'', ''payload_json'', ''callback_url'', ''result_json'',
      ''error_json'', ''attempts'', ''max_attempts'', ''lease_json'', ''created_at_unix_ms'',
      ''updated_at_unix_ms'', ''queue_position'', ''order_position'', ''callback_state_json'',
      ''idempotency_key'', ''terminal_attempt_json'']"

text \<open>\<open>ensure_column\<close>; \<open>fill\<close> gives the new column its default value in the existing rows.\<close>

definition ensure_column :: "string \<Rightarrow> (job_row \<Rightarrow> job_row) \<Rightarrow> job_db \<Rightarrow> job_db" where
  "ensure_column column fill db =
     (case db_columns db of
        None \<Rightarrow> db
      | Some cols \<Rightarrow>
          if list_ex (\<lambda>existing. existing = column) cols then db
          else db\<lparr>db_columns := Some (cols @ [column]), db_rows := map fill (db_rows db)\<rparr>)"

definition bootstrap_schema :: "job_db \<Rightarrow> job_db" where
  "bootstrap_schema db =
     (let db0 = (case db_columns db of
             None \<Rightarrow> db\<lparr>db_columns := Some all_columns, db_rows := []\<rparr> | Some _ \<Rightarrow> db);
          db1 = ensure_column ''order_position'' (\<lambda>r. r\<lparr>row_order_position := 0\<rparr>) db0;
          db2 = ensure_column ''callback_state_json'' (\<lambda>r. r\<lparr>row_callback_state_json := None\<rparr>) db1;
          db3 = ensure_column ''idempotency_key'' (\<lambda>r. r\<lparr>row_idempotency_key := None\<rparr>) db2;
          db4 = ensure_column ''terminal_attempt_json'' (\<lambda>r. r\<lparr>row_terminal_attempt_json := None\<rparr>) db3
      in db4\<lparr>db_user_version := JOB_STORE_SCHEMA_VERSION\<rparr>)"

section \<open>Saving\<close>

definition queue_positions :: "job_queues \<Rightarrow> string \<Rightarrow> int option" where
  "queue_positions qs =
     fold (\<lambda>queue positions.
       fold (\<lambda>(position, jid) m. m(jid \<mapsto> int position)) (enumerate 0 queue) positions)
       [q_realtime qs, q_batch qs, q_background qs] Map.empty"

definition optional_json :: "('a \<Rightarrow> string + string) \<Rightarrow> 'a option \<Rightarrow> string + string option" where
  "optional_json enc value = map_transpose enc value"

definition encode_row ::
  "'v json_codec \<Rightarrow> (string \<Rightarrow> int option) \<Rightarrow> nat \<Rightarrow> 'v job_record \<Rightarrow> string + job_row" where
  "encode_row c positions order_position job =
     and_then (enc_value c (payload job)) (\<lambda>payload_json.
     and_then (optional_json (enc_value c) (job_result job)) (\<lambda>result_json.
     and_then (optional_json (enc_failure c) (job_error job)) (\<lambda>error_json.
     and_then (optional_json (enc_lease c) (job_lease job)) (\<lambda>lease_json.
     and_then (optional_json (enc_callback c) (job_callback job)) (\<lambda>callback_json.
     and_then (optional_json (enc_terminal c) (terminal_attempt job)) (\<lambda>terminal_json.
       Inr \<lparr>row_id = job_id job, row_type = kind_as_str (job_kind job),
            row_priority = priority_as_str (job_priority job),
            row_status = status_as_str (job_status job),
            row_payload_json = payload_json, row_callback_url = callback_url job,
            row_result_json = result_json, row_error_json = error_json,
            row_attempts = int (attempts job), row_max_attempts = int (max_attempts job),
            row_lease_json = lease_json,
            row_created_at = u128_as_i64 (created_at job),
            row_updated_at = u128_as_i64 (updated_at job),
            row_queue_position = positions (job_id job),
            row_order_position = int order_position,
            row_callback_state_json = callback_json,
            row_idempotency_key = idempotency_key job,
            row_terminal_attempt_json = terminal_json\<rparr>))))))"

text \<open>
  The loop over \<open>inner.order\<close> in one transaction. An insert of an id that the table already
  has violates its primary key.
\<close>

fun insert_rows ::
  "'v json_codec \<Rightarrow> (string \<Rightarrow> int option) \<Rightarrow> 'v job_registry_inner \<Rightarrow> (nat \<times> string) list
     \<Rightarrow> job_row list \<Rightarrow> string + job_row list" where
  "insert_rows c positions i [] table = Inr table"
| "insert_rows c positions i ((order_position, jid) # rest) table =
     (case jobs i jid of
        None \<Rightarrow> insert_rows c positions i rest table
      | Some job \<Rightarrow>
          and_then (encode_row c positions order_position job) (\<lambda>row.
            if row_id row \<in> row_id ` set table then Inl ''UNIQUE constraint failed: jobs.id''
            else insert_rows c positions i rest (table @ [row])))"

definition replace_registry_snapshot ::
  "'v json_codec \<Rightarrow> string option \<Rightarrow> 'v job_registry_inner \<Rightarrow> job_db \<Rightarrow> string + job_db" where
  "replace_registry_snapshot c fault i db =
     (case fault of
        Some e \<Rightarrow> Inl e
      | None \<Rightarrow>
          let db0 = bootstrap_schema db in
          and_then (insert_rows c (queue_positions (queues i)) i (enumerate 0 (job_order i)) [])
            (\<lambda>rows. Inr (db0\<lparr>db_rows := rows\<rparr>)))"

section \<open>Loading\<close>

definition decode_row :: "'v json_codec \<Rightarrow> job_row \<Rightarrow> string + ('v job_record \<times> int option)" where
  "decode_row c row =
     and_then (dec_kind c (dquote (row_type row))) (\<lambda>kind.
     and_then (dec_priority c (dquote (row_priority row))) (\<lambda>prio.
     and_then (dec_status c (dquote (row_status row))) (\<lambda>status.
     and_then (dec_value c (row_payload_json row)) (\<lambda>pl.
     and_then (map_transpose (dec_value c) (row_result_json row)) (\<lambda>result.
     and_then (map_transpose (dec_failure c) (row_error_json row)) (\<lambda>err.
     and_then (map_transpose (dec_callback c) (row_callback_state_json row)) (\<lambda>cb.
     and_then (map_transpose (dec_lease c) (row_lease_json row)) (\<lambda>lease.
     and_then (map_transpose (dec_terminal c) (row_terminal_attempt_json row)) (\<lambda>term.
       Inr (\<lparr>job_id = row_id row, job_kind = kind, job_priority = prio, job_status = status,
             payload = pl, callback_url = row_callback_url row,
             idempotency_key = row_idempotency_key row, job_result = result, job_error = err,
             job_callback = cb, attempts = i64_as_u32 (row_attempts row),
             max_attempts = i64_as_u32 (row_max_attempts row), job_lease = lease,
             terminal_attempt = term, created_at = i64_as_u128 (row_created_at row),
             updated_at = i64_as_u128 (row_updated_at row)\<rparr>,
            row_queue_position row))))))))))"

definition parse_numeric_job_id :: "string \<Rightarrow> nat" where
  "parse_numeric_job_id jid =
     (case strip_prefix jid ''job-'' of
        None \<Rightarrow> 0
      | Some suffix \<Rightarrow> (case parse_uint u64_bound suffix of None \<Rightarrow> 0 | Some n \<Rightarrow> n))"

definition I64_MAX :: int where
  "I64_MAX = 2 ^ 63 - 1"

text \<open>The \<open>ORDER BY\<close> of the query, and the state built from the decoded rows.\<close>

definition select_jobs :: "job_db \<Rightarrow> job_row list" where
  "select_jobs db = sort_key (\<lambda>r. (row_order_position r, row_created_at r, row_id r)) (db_rows db)"

definition queued_sorted :: "('v job_record \<times> int option) list \<Rightarrow> (priority \<times> int \<times> string) list" where
  "queued_sorted loaded =
     sort_key (\<lambda>(p, pos, jid). (priority_rank p, pos, jid))
       (map (\<lambda>(job, pos). (job_priority job, case pos of None \<Rightarrow> I64_MAX | Some q \<Rightarrow> q, job_id job))
         (filter (\<lambda>(job, _). job_status job = Queued) loaded))"

definition loaded_inner ::
  "(string list \<Rightarrow> string list) \<Rightarrow> ('v job_record \<times> int option) list \<Rightarrow> 'v job_registry_inner" where
  "loaded_inner hash_order loaded =
     (let js = fold (\<lambda>(job, _) m. m(job_id job \<mapsto> job)) loaded Map.empty;
          order = map (\<lambda>(job, _). job_id job) loaded
      in \<lparr>next_id = fold (\<lambda>(job, _) n. max n (parse_numeric_job_id (job_id job))) loaded 0,
          jobs = js,
          idempotency_keys =
            fold (\<lambda>jid m. case js jid of
                None \<Rightarrow> m
              | Some job \<Rightarrow>
                  (case idempotency_key job of None \<Rightarrow> m | Some key \<Rightarrow> m(key \<mapsto> job_id job)))
              (hash_order order) Map.empty,
          job_order = order,
          queues = fold (\<lambda>(p, _, jid) qs. push_back p jid qs) (queued_sorted loaded) queues_default\<rparr>)"

definition load_registry_snapshot ::
  "'v json_codec \<Rightarrow> (string list \<Rightarrow> string list) \<Rightarrow> string option \<Rightarrow> job_db
     \<Rightarrow> string + 'v job_registry_inner" where
  "load_registry_snapshot c hash_order fault db =
     (case fault of
        Some e \<Rightarrow> Inl e
      | None \<Rightarrow>
          and_then (collect_results (decode_row c) (select_jobs (bootstrap_schema db)))
            (\<lambda>loaded. Inr (loaded_inner hash_order loaded)))"

text \<open>\<open>SqliteJobStore::open\<close>, and \<open>JobRegistry::with_store_and_retention\<close> of \<open>src/src/jobs.rs\<close>.\<close>

definition open_store :: "string option \<Rightarrow> job_db \<Rightarrow> string + job_db" where
  "open_store fault db = (case fault of Some e \<Rightarrow> Inl e | None \<Rightarrow> Inr (bootstrap_schema db))"

definition with_store_and_retention ::
  "'v json_codec \<Rightarrow> (string list \<Rightarrow> string list) \<Rightarrow> string option \<Rightarrow> string option \<Rightarrow> nat \<Rightarrow> job_db
     \<Rightarrow> job_retention_policy \<Rightarrow> string + ('v, job_db) job_registry" where
  "with_store_and_retention c hash_order load_fault save_fault now db policy =
     and_then (load_registry_snapshot c hash_order load_fault db) (\<lambda>i0.
       case requeue_expired_leases_locked now i0 of (i, recovery_report) \<Rightarrow>
         and_then
           (if requeued recovery_report > 0 \<or> failed recovery_report > 0
            then replace_registry_snapshot c save_fault i (bootstrap_schema db)
            else Inr (bootstrap_schema db))
           (\<lambda>db'. Inr \<lparr>inner = i, store = Some db', retention_policy = policy\<rparr>))"

definition with_store ::
  "'v json_codec \<Rightarrow> (string list \<Rightarrow> string list) \<Rightarrow> string option \<Rightarrow> string option \<Rightarrow> nat \<Rightarrow> job_db
     \<Rightarrow> string + ('v, job_db) job_registry" where
  "with_store c hash_order load_fault save_fault now db =
     with_store_and_retention c hash_order load_fault save_fault now db retention_default"


section \<open>Schema facts\<close>

lemma ensure_column_cases:
  "db_columns db = Some cols \<Longrightarrow>
     ensure_column col fill db =
       (if col \<in> set cols then db else db\<lparr>db_columns := Some (cols @ [col]), db_rows := map fill (db_rows db)\<rparr>)"
  by (auto simp: ensure_column_def list_ex_iff)

lemma bootstrap_noop:
  assumes "db_columns db = Some cols" "set all_columns \<subseteq> set cols"
  shows "bootstrap_schema db = db\<lparr>db_user_version := JOB_STORE_SCHEMA_VERSION\<rparr>"
proof -
  have "{''order_position'', ''callback_state_json'', ''idempotency_key'', ''terminal_attempt_json''} \<subseteq> set cols"
    using assms(2) by (simp add: all_columns_def)
  then show ?thesis
    using assms(1) by (simp add: bootstrap_schema_def ensure_column_cases [OF assms(1)] Let_def)
qed

section \<open>The codec\<close>

text \<open>What the code relies on of \<open>serde_json\<close>: the structs of the job record, whose fields are strings,
  integers, booleans and enums, are read back as they were written. Of the JSON values that clients
  send (payloads and results) this is asked only of those a job has, by \<open>job_reads_back\<close>: without its
  feature \<open>float_roundtrip\<close>, \<open>serde_json\<close> may read a written float back as another one.\<close>

definition codec_ok :: "'v json_codec \<Rightarrow> bool" where
  "codec_ok c \<longleftrightarrow>
     (\<forall>x. \<exists>s. enc_failure c x = Inr s \<and> dec_failure c s = Inr x) \<and>
     (\<forall>x. \<exists>s. enc_callback c x = Inr s \<and> dec_callback c s = Inr x) \<and>
     (\<forall>x. \<exists>s. enc_lease c x = Inr s \<and> dec_lease c s = Inr x) \<and>
     (\<forall>x. \<exists>s. enc_terminal c x = Inr s \<and> dec_terminal c s = Inr x) \<and>
     (\<forall>k. dec_kind c (dquote (kind_as_str k)) = Inr k) \<and>
     (\<forall>p. dec_priority c (dquote (priority_as_str p)) = Inr p) \<and>
     (\<forall>st. dec_status c (dquote (status_as_str st)) = Inr st)"

definition value_reads_back :: "'v json_codec \<Rightarrow> 'v \<Rightarrow> bool" where
  "value_reads_back c x \<longleftrightarrow> (case enc_value c x of Inl e \<Rightarrow> False | Inr s \<Rightarrow> dec_value c s = Inr x)"

definition job_reads_back :: "'v json_codec \<Rightarrow> 'v job_record \<Rightarrow> bool" where
  "job_reads_back c job \<longleftrightarrow> value_reads_back c (payload job) \<and>
     (case job_result job of None \<Rightarrow> True | Some result \<Rightarrow> value_reads_back c result)"

text \<open>The numbers of a job fit the integer columns.\<close>

definition job_fits :: "'v job_record \<Rightarrow> bool" where
  "job_fits job \<longleftrightarrow> attempts job < 2 ^ 32 \<and> max_attempts job < 2 ^ 32 \<and>
     created_at job < 2 ^ 63 \<and> updated_at job < 2 ^ 63"

lemma optional_roundtrip:
  "(\<And>x. o1 = Some x \<Longrightarrow> \<exists>s. enc x = Inr s \<and> dec s = Inr x) \<Longrightarrow>
     \<exists>s. optional_json enc o1 = Inr s \<and> map_transpose dec s = Inr o1"
proof (cases o1)
  case (Some x)
  assume "\<And>x. o1 = Some x \<Longrightarrow> \<exists>s. enc x = Inr s \<and> dec s = Inr x"
  with Some obtain s where "enc x = Inr s" "dec s = Inr x" by blast
  then show ?thesis using Some by (intro exI [of _ "Some s"]) (simp add: optional_json_def)
qed (simp add: optional_json_def)

lemma encode_decode_row:
  assumes c: "codec_ok c" and fits: "job_fits job" and vals: "job_reads_back c job"
  shows "\<exists>row. encode_row c positions n job = Inr row \<and> row_id row = job_id job \<and>
    row_order_position row = int n \<and> decode_row c row = Inr (job, positions (job_id job))"
proof -
  from vals obtain pl where pl: "enc_value c (payload job) = Inr pl" "dec_value c pl = Inr (payload job)"
    by (auto simp: job_reads_back_def value_reads_back_def split: sum.splits)
  from vals have "\<exists>s. enc_value c x = Inr s \<and> dec_value c s = Inr x" if "job_result job = Some x" for x
    using that by (auto simp: job_reads_back_def value_reads_back_def split: sum.splits)
  from optional_roundtrip [OF this] obtain r
    where r: "optional_json (enc_value c) (job_result job) = Inr r" "map_transpose (dec_value c) r = Inr (job_result job)"
    by blast
  have "\<And>x. \<exists>s. enc_failure c x = Inr s \<and> dec_failure c s = Inr x" using c by (simp add: codec_ok_def)
  from optional_roundtrip [OF this, of "job_error job"] obtain e
    where e: "optional_json (enc_failure c) (job_error job) = Inr e" "map_transpose (dec_failure c) e = Inr (job_error job)"
    by blast
  have "\<And>x. \<exists>s. enc_lease c x = Inr s \<and> dec_lease c s = Inr x" using c by (simp add: codec_ok_def)
  from optional_roundtrip [OF this, of "job_lease job"] obtain l
    where l: "optional_json (enc_lease c) (job_lease job) = Inr l" "map_transpose (dec_lease c) l = Inr (job_lease job)"
    by blast
  have "\<And>x. \<exists>s. enc_callback c x = Inr s \<and> dec_callback c s = Inr x" using c by (simp add: codec_ok_def)
  from optional_roundtrip [OF this, of "job_callback job"] obtain cb
    where cb: "optional_json (enc_callback c) (job_callback job) = Inr cb" "map_transpose (dec_callback c) cb = Inr (job_callback job)"
    by blast
  have "\<And>x. \<exists>s. enc_terminal c x = Inr s \<and> dec_terminal c s = Inr x" using c by (simp add: codec_ok_def)
  from optional_roundtrip [OF this, of "terminal_attempt job"] obtain t
    where t: "optional_json (enc_terminal c) (terminal_attempt job) = Inr t" "map_transpose (dec_terminal c) t = Inr (terminal_attempt job)"
    by blast
  have casts: "i64_as_u32 (int (attempts job)) = attempts job"
      "i64_as_u32 (int (max_attempts job)) = max_attempts job"
      "i64_as_u128 (u128_as_i64 (created_at job)) = created_at job"
      "i64_as_u128 (u128_as_i64 (updated_at job)) = updated_at job"
    using fits by (simp_all add: job_fits_def i64_as_u32_of_nat u128_as_i64_small i64_as_u128_of_nat)
  have tags: "dec_kind c (dquote (kind_as_str (job_kind job))) = Inr (job_kind job)"
      "dec_priority c (dquote (priority_as_str (job_priority job))) = Inr (job_priority job)"
      "dec_status c (dquote (status_as_str (job_status job))) = Inr (job_status job)"
    using c by (simp_all add: codec_ok_def)
  show ?thesis
    unfolding encode_row_def pl(1) r(1) e(1) l(1) cb(1) t(1) decode_row_def
    by (simp add: pl(2) r(2) e(2) l(2) cb(2) t(2) casts tags)
qed

end
