(* ===== verification/Storage_Example.thy ===== *)
theory Storage_Example
  imports Storage
begin

text \<open>
  A concrete codec with the properties \<open>codec_ok\<close> asks for, used by the witnesses. A text is
  written after its length in unary, so that fields can be concatenated.
\<close>

definition put_nat :: "nat \<Rightarrow> string" where
  "put_nat n = replicate n (CHR ''x'') @ '':''"

definition get_nat :: "string \<Rightarrow> nat \<times> string" where
  "get_nat s = (let n = length (takeWhile (\<lambda>c. c = CHR ''x'') s) in (n, drop (Suc n) s))"

definition put_str :: "string \<Rightarrow> string" where
  "put_str s = put_nat (length s) @ s"

definition get_str :: "string \<Rightarrow> string \<times> string" where
  "get_str s = (case get_nat s of (n, r) \<Rightarrow> (take n r, drop n r))"

definition put_opt :: "('a \<Rightarrow> string) \<Rightarrow> 'a option \<Rightarrow> string" where
  "put_opt f x = (case x of None \<Rightarrow> ''n'' | Some y \<Rightarrow> ''s'' @ f y)"

definition get_opt :: "(string \<Rightarrow> 'a \<times> string) \<Rightarrow> string \<Rightarrow> 'a option \<times> string" where
  "get_opt g s = (if take 1 s = ''s'' then (case g (drop 1 s) of (x, r) \<Rightarrow> (Some x, r)) else (None, drop 1 s))"

lemma get_put_nat [simp]: "get_nat (put_nat n @ t) = (n, t)"
proof -
  have "takeWhile (\<lambda>c. c = CHR ''x'') (replicate n (CHR ''x'') @ CHR '':'' # t) = replicate n (CHR ''x'')"
    by (induction n) simp_all
  then show ?thesis by (simp add: get_nat_def put_nat_def)
qed

lemma get_put_str [simp]: "get_str (put_str s @ t) = (s, t)"
  by (simp add: get_str_def put_str_def)

lemma get_put_opt [simp]:
  "(\<And>x t. g (f x @ t) = (x, t)) \<Longrightarrow> get_opt g (put_opt f x @ t) = (x, t)"
  by (cases x) (simp_all add: get_opt_def put_opt_def)

definition put_failure :: "job_failure \<Rightarrow> string" where
  "put_failure f = put_str (message f) @ put_nat (if retryable f then 1 else 0)"

definition get_failure :: "string \<Rightarrow> string + job_failure" where
  "get_failure s =
     (case get_str s of (m, r) \<Rightarrow> case get_nat r of (b, _) \<Rightarrow> Inr \<lparr>message = m, retryable = (b = 1)\<rparr>)"

definition put_lease :: "job_lease \<Rightarrow> string" where
  "put_lease l = put_str (lease_worker_id l) @ put_nat (lease_attempt l) @
     put_nat (lease_claimed_at l) @ put_nat (lease_expires_at l)"

definition get_lease :: "string \<Rightarrow> string + job_lease" where
  "get_lease s =
     (case get_str s of (w, r) \<Rightarrow> case get_nat r of (a, r) \<Rightarrow> case get_nat r of (c, r) \<Rightarrow>
      case get_nat r of (e, _) \<Rightarrow>
        Inr \<lparr>lease_worker_id = w, lease_attempt = a, lease_claimed_at = c, lease_expires_at = e\<rparr>)"

definition put_terminal :: "job_terminal_attempt \<Rightarrow> string" where
  "put_terminal t = put_str (ta_worker_id t) @ put_nat (ta_attempt t)"

definition get_terminal :: "string \<Rightarrow> string + job_terminal_attempt" where
  "get_terminal s =
     (case get_str s of (w, r) \<Rightarrow> case get_nat r of (a, _) \<Rightarrow> Inr \<lparr>ta_worker_id = w, ta_attempt = a\<rparr>)"

definition put_callback :: "job_callback_state \<Rightarrow> string" where
  "put_callback c = put_nat (case cb_status c of Pending \<Rightarrow> 0 | Delivered \<Rightarrow> 1) @ put_nat (cb_attempts c) @
     put_opt put_nat (cb_last_attempt_at c) @ put_opt put_nat (cb_delivered_at c) @
     put_opt put_nat (cb_last_http_status c) @ put_opt put_str (cb_last_error c)"

definition get_callback :: "string \<Rightarrow> string + job_callback_state" where
  "get_callback s =
     (case get_nat s of (st, r) \<Rightarrow> case get_nat r of (a, r) \<Rightarrow> case get_opt get_nat r of (l, r) \<Rightarrow>
      case get_opt get_nat r of (d, r) \<Rightarrow> case get_opt get_nat r of (h, r) \<Rightarrow>
      case get_opt get_str r of (e, _) \<Rightarrow>
        Inr \<lparr>cb_status = (if st = 0 then Pending else Delivered), cb_attempts = a,
             cb_last_attempt_at = l, cb_delivered_at = d, cb_last_http_status = h, cb_last_error = e\<rparr>)"

definition get_tag :: "('a \<times> string) list \<Rightarrow> string \<Rightarrow> string + 'a" where
  "get_tag tags s =
     (case find (\<lambda>(x, t). dquote t = s) tags of None \<Rightarrow> Inl ''unknown variant'' | Some (x, _) \<Rightarrow> Inr x)"

definition ex_codec :: "nat json_codec" where
  "ex_codec =
     \<lparr>enc_value = (\<lambda>n. Inr (put_nat n)), dec_value = (\<lambda>s. Inr (fst (get_nat s))),
      enc_failure = (\<lambda>f. Inr (put_failure f)), dec_failure = get_failure,
      enc_callback = (\<lambda>c. Inr (put_callback c)), dec_callback = get_callback,
      enc_lease = (\<lambda>l. Inr (put_lease l)), dec_lease = get_lease,
      enc_terminal = (\<lambda>t. Inr (put_terminal t)), dec_terminal = get_terminal,
      dec_kind = get_tag (map (\<lambda>k. (k, kind_as_str k)) [VisionAnalysis, EmbedBatch, IndexBuild, Cluster]),
      dec_priority = get_tag (map (\<lambda>p. (p, priority_as_str p)) [Realtime, Batch, Background]),
      dec_status = get_tag (map (\<lambda>s. (s, status_as_str s)) [Queued, Running, Complete, Failed, Cancelled])\<rparr>"

lemma get_put_nat_end [simp]: "get_nat (put_nat n) = (n, [])"
  using get_put_nat [of n "[]"] by simp

lemma get_put_opt_end [simp]:
  assumes "\<And>x t. g (f x @ t) = (x, t)" shows "get_opt g (put_opt f x) = (x, [])"
  using get_put_opt [of g f x "[]", OF assms] by simp

lemma ex_codec_ok: "codec_ok ex_codec"
proof -
  have "get_failure (put_failure f) = Inr f" for f
    by (cases f) (simp add: get_failure_def put_failure_def)
  moreover have "get_lease (put_lease l) = Inr l" for l
    by (cases l) (simp add: get_lease_def put_lease_def)
  moreover have "get_terminal (put_terminal t) = Inr t" for t
    by (cases t) (simp add: get_terminal_def put_terminal_def)
  moreover have "get_callback (put_callback c) = Inr c" for c
    by (cases c; cases "cb_status c") (simp_all add: get_callback_def put_callback_def)
  moreover have "get_tag (map (\<lambda>k. (k, kind_as_str k)) [VisionAnalysis, EmbedBatch, IndexBuild, Cluster])
      (dquote (kind_as_str k)) = Inr k" for k
    by (cases k) (simp_all add: get_tag_def dquote_def)
  moreover have "get_tag (map (\<lambda>p. (p, priority_as_str p)) [Realtime, Batch, Background])
      (dquote (priority_as_str p)) = Inr p" for p
    by (cases p) (simp_all add: get_tag_def dquote_def)
  moreover have "get_tag (map (\<lambda>s. (s, status_as_str s)) [Queued, Running, Complete, Failed, Cancelled])
      (dquote (status_as_str s)) = Inr s" for s
    by (cases s) (simp_all add: get_tag_def dquote_def)
  ultimately show ?thesis by (simp add: codec_ok_def ex_codec_def)
qed

definition empty_db :: job_db where
  "empty_db = \<lparr>db_columns = None, db_rows = [], db_user_version = 0\<rparr>"

end
