(* ===== verification/Storage_Props.thy ===== *)
theory Storage_Props
  imports Storage_Example
begin

text \<open>
  The store keeps the registry: what \<open>replace_registry_snapshot\<close> saves, \<open>load_registry_snapshot\<close>
  rebuilds (jobs, submission order, queues in their order, idempotency keys), and a restart from
  the store yields a well-formed registry in which the leases that expired meanwhile are swept.
\<close>

section \<open>What is saved\<close>

lemma insert_rows_total:
  assumes c: "codec_ok c"
    and "distinct ids" "\<And>jid. jid \<in> set ids \<Longrightarrow> \<exists>job. jobs i jid = Some job \<and> job_id job = jid \<and> job_fits job \<and> job_reads_back c job"
    and "row_id ` set table \<inter> set ids = {}"
  shows "\<exists>rows. insert_rows c positions i (enumerate n ids) table = Inr (table @ rows) \<and>
    map row_order_position rows = map int [n..<n + length ids] \<and>
    collect_results (decode_row c) rows = Inr (map (\<lambda>jid. (the (jobs i jid), positions jid)) ids)"
  using assms(2-)
proof (induction ids arbitrary: n table)
  case (Cons jid ids)
  from Cons.prems(2) [of jid] obtain job where job: "jobs i jid = Some job" "job_id job = jid" "job_fits job"
      "job_reads_back c job" by auto
  from encode_decode_row [OF c job(3,4), of positions n] obtain row where row:
    "encode_row c positions n job = Inr row" "row_id row = jid" "row_order_position row = int n"
    "decode_row c row = Inr (job, positions jid)" unfolding job(2) by blast
  have "row_id ` set (table @ [row]) \<inter> set ids = {}"
    using Cons.prems(1,3) row(2) by auto
  with Cons.IH [of "table @ [row]" "Suc n"] Cons.prems(1,2) obtain rows where rows:
    "insert_rows c positions i (enumerate (Suc n) ids) (table @ [row]) = Inr ((table @ [row]) @ rows)"
    "map row_order_position rows = map int [Suc n..<Suc n + length ids]"
    "collect_results (decode_row c) rows = Inr (map (\<lambda>jid. (the (jobs i jid), positions jid)) ids)"
    by auto
  have "row_id row \<notin> row_id ` set table" using Cons.prems(3) row(2) by auto
  then have "insert_rows c positions i (enumerate n (jid # ids)) table = Inr (table @ row # rows)"
    using job(1) row(1) rows(1) by simp
  moreover have "map row_order_position (row # rows) = map int [n..<n + length (jid # ids)]"
    using row(3) rows(2) upt_conv_Cons [of n "n + length (jid # ids)"] by (simp del: upt_Suc)
  ultimately show ?case using row(4) rows(3) job(1) by (intro exI [of _ "row # rows"]) simp
qed simp

lemma sort_key_order_position:
  assumes "map row_order_position rows = map int [0..<n]"
  shows "sort_key (\<lambda>r. (row_order_position r, row_created_at r, row_id r)) rows = rows"
proof (rule sort_key_id_if_sorted)
  have "sorted_wrt (<) (map row_order_position rows)" by (simp add: assms sorted_wrt_map)
  then have "sorted_wrt (\<lambda>r r'. row_order_position r < row_order_position r') rows"
    by (simp add: sorted_wrt_map)
  then have "sorted_wrt (\<lambda>r r'. (row_order_position r, row_created_at r, row_id r)
      \<le> (row_order_position r', row_created_at r', row_id r')) rows"
    by (rule sorted_wrt_mono_rel [rotated]) (simp add: less_eq_prod_def)
  then show "sorted (map (\<lambda>r. (row_order_position r, row_created_at r, row_id r)) rows)"
    by (simp add: sorted_wrt_map)
qed

definition loaded_of :: "'v job_registry_inner \<Rightarrow> ('v job_record \<times> int option) list" where
  "loaded_of i = map (\<lambda>jid. (the (jobs i jid), queue_positions (queues i) jid)) (job_order i)"

definition fits :: "'v job_registry_inner \<Rightarrow> bool" where
  "fits i \<longleftrightarrow> (\<forall>jid job. jobs i jid = Some job \<longrightarrow> job_fits job) \<and> length (job_order i) < 2 ^ 63 \<and> next_id i < 2 ^ 64"

text \<open>The payloads and results in the registry are values that the codec reads back.\<close>

definition registry_reads_back :: "'v json_codec \<Rightarrow> 'v job_registry_inner \<Rightarrow> bool" where
  "registry_reads_back c i \<longleftrightarrow> (\<forall>jid job. jobs i jid = Some job \<longrightarrow> job_reads_back c job)"

lemma bootstrap_rows:
  assumes "\<exists>cols. db_columns db = Some cols \<and>
    set [''order_position'', ''callback_state_json'', ''idempotency_key'', ''terminal_attempt_json''] \<subseteq> set cols"
  shows "db_rows (bootstrap_schema db) = db_rows db"
  using assms by (auto simp: bootstrap_schema_def Let_def ensure_column_cases)

lemma ensure_column_has:
  "db_columns db = Some cols \<Longrightarrow> \<exists>cols'. db_columns (ensure_column c f db) = Some cols' \<and> insert c (set cols) \<subseteq> set cols'"
  by (auto simp: ensure_column_cases)

lemma bootstrap_has:
  "\<exists>cols. db_columns (bootstrap_schema db) = Some cols \<and>
    set [''order_position'', ''callback_state_json'', ''idempotency_key'', ''terminal_attempt_json''] \<subseteq> set cols"
proof -
  define db0 where "db0 = (case db_columns db of
      None \<Rightarrow> db\<lparr>db_columns := Some all_columns, db_rows := []\<rparr> | Some _ \<Rightarrow> db)"
  obtain c0 where "db_columns db0 = Some c0" by (cases "db_columns db") (auto simp: db0_def)
  from ensure_column_has [OF this] obtain c1 where
    c1: "db_columns (ensure_column ''order_position'' (\<lambda>r. r\<lparr>row_order_position := 0\<rparr>) db0) = Some c1"
    "insert ''order_position'' (set c0) \<subseteq> set c1" by blast
  from ensure_column_has [OF c1(1)] obtain c2 where
    c2: "db_columns (ensure_column ''callback_state_json'' (\<lambda>r. r\<lparr>row_callback_state_json := None\<rparr>)
      (ensure_column ''order_position'' (\<lambda>r. r\<lparr>row_order_position := 0\<rparr>) db0)) = Some c2"
    "insert ''callback_state_json'' (set c1) \<subseteq> set c2" by blast
  from ensure_column_has [OF c2(1)] obtain c3 where
    c3: "db_columns (ensure_column ''idempotency_key'' (\<lambda>r. r\<lparr>row_idempotency_key := None\<rparr>)
      (ensure_column ''callback_state_json'' (\<lambda>r. r\<lparr>row_callback_state_json := None\<rparr>)
      (ensure_column ''order_position'' (\<lambda>r. r\<lparr>row_order_position := 0\<rparr>) db0))) = Some c3"
    "insert ''idempotency_key'' (set c2) \<subseteq> set c3" by blast
  from ensure_column_has [OF c3(1), of "''terminal_attempt_json''" "\<lambda>r. r\<lparr>row_terminal_attempt_json := None\<rparr>"]
  obtain c4 where c4: "db_columns (bootstrap_schema db) = Some c4" "insert ''terminal_attempt_json'' (set c3) \<subseteq> set c4"
    by (auto simp: bootstrap_schema_def Let_def db0_def)
  then show ?thesis using c1(2) c2(2) c3(2) by auto
qed

lemma save_load_rows:
  assumes c: "codec_ok c" "registry_reads_back c i" and inv: "registry_inv i" and fit: "fits i"
  shows "\<exists>db'. replace_registry_snapshot c None i db = Inr db' \<and>
    load_registry_snapshot c h None db' = Inr (loaded_inner h (loaded_of i))"
proof -
  have js: "\<exists>job. jobs i jid = Some job \<and> job_id job = jid \<and> job_fits job \<and> job_reads_back c job"
    if "jid \<in> set (job_order i)" for jid
    using that inv_order(2) [OF inv] inv_job(1) [OF inv] fit c(2) by (auto simp: fits_def registry_reads_back_def)
  from insert_rows_total [OF c(1) inv_order(1) [OF inv] js, of "[]" "queue_positions (queues i)" 0]
  obtain rows where rows:
    "insert_rows c (queue_positions (queues i)) i (enumerate 0 (job_order i)) [] = Inr rows"
    "map row_order_position rows = map int [0..<length (job_order i)]"
    "collect_results (decode_row c) rows = Inr (loaded_of i)"
    by (auto simp: loaded_of_def)
  let ?db = "(bootstrap_schema db)\<lparr>db_rows := rows\<rparr>"
  have "db_rows (bootstrap_schema ?db) = rows"
    using bootstrap_rows [of ?db] bootstrap_has [of db] by simp
  then have "select_jobs (bootstrap_schema ?db) = rows"
    by (simp add: select_jobs_def sort_key_order_position [OF rows(2)])
  then show ?thesis
    using rows(1,3) by (simp add: replace_registry_snapshot_def load_registry_snapshot_def)
qed


section \<open>What is loaded\<close>

lemma fold_jobs:
  "fold (\<lambda>(job, _) m. m(job_id job \<mapsto> job)) (map (\<lambda>jid. (f jid, g jid)) ids) m =
     fold (\<lambda>jid m. m(job_id (f jid) \<mapsto> f jid)) ids m"
  by (induction ids arbitrary: m) auto

lemma fold_updates:
  "(\<And>jid. jid \<in> set ids \<Longrightarrow> job_id (f jid) = jid) \<Longrightarrow>
     fold (\<lambda>jid m. m(job_id (f jid) \<mapsto> f jid)) ids m = (\<lambda>k. if k \<in> set ids then Some (f k) else m k)"
  by (induction ids arbitrary: m) (auto simp: fun_eq_iff)

lemma loaded_jobs:
  assumes inv: "registry_inv i"
  shows "fold (\<lambda>(job, _) m. m(job_id job \<mapsto> job)) (loaded_of i) Map.empty = jobs i"
proof -
  have "job_id (the (jobs i jid)) = jid" if "jid \<in> set (job_order i)" for jid
    using that inv_order(2) [OF inv] inv_job(1) [OF inv] by auto
  then have "fold (\<lambda>(job, _) m. m(job_id job \<mapsto> job)) (loaded_of i) Map.empty =
      (\<lambda>k. if k \<in> set (job_order i) then Some (the (jobs i k)) else None)"
    unfolding loaded_of_def fold_jobs by (subst fold_updates) auto
  also have "\<dots> = jobs i"
    using inv_order(2) [OF inv] by (auto simp: fun_eq_iff domIff)
  finally show ?thesis .
qed

lemma loaded_order:
  assumes inv: "registry_inv i"
  shows "map (\<lambda>(job, _). job_id job) (loaded_of i) = job_order i"
proof -
  have "job_id (the (jobs i jid)) = jid" if "jid \<in> set (job_order i)" for jid
    using that inv_order(2) [OF inv] inv_job(1) [OF inv] by auto
  then show ?thesis by (simp add: loaded_of_def o_def map_idI)
qed

text \<open>The idempotency keys do not depend on the order in which the jobs are visited.\<close>

lemma fold_keys:
  assumes inv: "registry_inv i" and "set ids \<subseteq> dom (jobs i)"
  shows "fold (\<lambda>jid m. case jobs i jid of None \<Rightarrow> m
      | Some job \<Rightarrow> (case idempotency_key job of None \<Rightarrow> m | Some key \<Rightarrow> m(key \<mapsto> job_id job))) ids m =
    (\<lambda>k. case idempotency_keys i k of Some jid \<Rightarrow> if jid \<in> set ids then Some jid else m k | None \<Rightarrow> m k)"
  using assms(2)
proof (induction ids arbitrary: m)
  case Nil
  then show ?case by (auto split: option.split)
next
  case (Cons jid ids)
  then obtain job where job: "jobs i jid = Some job" by auto
  have keys: "idempotency_keys i k = Some x \<longleftrightarrow> job_sat (\<lambda>job. idempotency_key job = Some k) i x" for k x
    using registry_invD(4) [OF inv] by (simp add: keys_ok_def)
  have at: "idempotency_keys i k = Some jid \<longleftrightarrow> idempotency_key job = Some k" for k
    using job by (simp add: keys job_sat_def)
  have sub: "set ids \<subseteq> dom (jobs i)" using Cons.prems by simp
  show ?case
  proof (cases "idempotency_key job")
    case None
    then show ?thesis
      using job at by (auto simp: Cons.IH [OF sub] fun_eq_iff split: option.split)
  next
    case (Some key)
    then have k: "idempotency_keys i key = Some jid" "k \<noteq> key \<Longrightarrow> idempotency_keys i k \<noteq> Some jid" for k
      using at by auto
    show ?thesis
    proof (rule ext)
      fix k
      show "fold (\<lambda>jid m. case jobs i jid of None \<Rightarrow> m
            | Some job \<Rightarrow> (case idempotency_key job of None \<Rightarrow> m | Some key \<Rightarrow> m(key \<mapsto> job_id job)))
            (jid # ids) m k =
          (case idempotency_keys i k of Some x \<Rightarrow> if x \<in> set (jid # ids) then Some x else m k | None \<Rightarrow> m k)"
        using job Some inv_job(1) [OF inv job] k(1) k(2) [of k]
        by (cases "k = key") (simp_all add: Cons.IH [OF sub] split: option.split)
    qed
  qed
qed

lemma loaded_keys:
  assumes inv: "registry_inv i" and h: "\<And>xs. set (h xs) = set xs"
  shows "fold (\<lambda>jid m. case jobs i jid of None \<Rightarrow> m
      | Some job \<Rightarrow> (case idempotency_key job of None \<Rightarrow> m | Some key \<Rightarrow> m(key \<mapsto> job_id job)))
      (h (job_order i)) Map.empty = idempotency_keys i"
proof -
  have in_order: "jid \<in> set (h (job_order i))" if "idempotency_keys i k = Some jid" for k jid
    using inv_key_job [OF inv that] inv_in_order [OF inv] h by metis
  have "set (h (job_order i)) \<subseteq> dom (jobs i)" using inv_order(2) [OF inv] h by simp
  from fold_keys [OF inv this, of Map.empty] show ?thesis
    using in_order by (auto simp: fun_eq_iff split: option.split)
qed


text \<open>The queues come back in their order.\<close>

definition put_positions :: "nat \<Rightarrow> string list \<Rightarrow> (string \<Rightarrow> int option) \<Rightarrow> string \<Rightarrow> int option" where
  "put_positions n q m = fold (\<lambda>(pos, jid) m. m(jid \<mapsto> int pos)) (enumerate n q) m"

lemma put_positions_Cons: "put_positions n (x # q) m = put_positions (Suc n) q (m(x \<mapsto> int n))"
  by (simp add: put_positions_def)

lemma put_positions_other: "jid \<notin> set q \<Longrightarrow> put_positions n q m jid = m jid"
proof (induction q arbitrary: n m)
  case Nil
  then show ?case by (simp add: put_positions_def)
qed (simp add: put_positions_Cons)

lemma put_positions_nth:
  "distinct q \<Longrightarrow> j < length q \<Longrightarrow> put_positions n q m (q ! j) = Some (int (n + j))"
proof (induction q arbitrary: n m j)
  case (Cons x q)
  then show ?case by (cases j) (simp_all add: put_positions_Cons put_positions_other)
qed simp

lemma queue_positions_eq:
  "queue_positions qs = put_positions 0 (for_priority Background qs)
     (put_positions 0 (for_priority Batch qs) (put_positions 0 (for_priority Realtime qs) Map.empty))"
  by (simp add: queue_positions_def put_positions_def)

lemma queue_positions_nth:
  assumes inv: "registry_inv i" and j: "j < length (for_priority p (queues i))"
  shows "queue_positions (queues i) (for_priority p (queues i) ! j) = Some (int j)"
proof -
  let ?q = "\<lambda>p. for_priority p (queues i)"
  note d = inv_queue(1) [OF inv]
  have "?q p ! j \<in> set (?q p)" using j by simp
  then have "?q p ! j \<notin> set (?q p')" if "p' \<noteq> p" for p'
    using queue_job [OF inv] that by (metis option.inject)
  then show ?thesis
    using j put_positions_nth [OF d, of j p 0]
    unfolding queue_positions_eq by (cases p) (simp_all add: put_positions_other del: for_priority.simps)
qed

definition queue_pos :: "'v job_registry_inner \<Rightarrow> string \<Rightarrow> int" where
  "queue_pos i jid = (case queue_positions (queues i) jid of None \<Rightarrow> I64_MAX | Some q \<Rightarrow> q)"

lemma map_queue_pos:
  assumes inv: "registry_inv i"
  shows "map (queue_pos i) (for_priority p (queues i)) = map int [0..<length (for_priority p (queues i))]"
  by (rule nth_equalityI) (simp_all add: queue_pos_def queue_positions_nth [OF inv])

lemma loaded_queued:
  assumes inv: "registry_inv i"
  shows "map (\<lambda>(job, pos). (job_priority job, case pos of None \<Rightarrow> I64_MAX | Some q \<Rightarrow> q, job_id job))
      (filter (\<lambda>(job, _). job_status job = Queued) (loaded_of i)) =
    map (\<lambda>jid. (prio_of i jid, queue_pos i jid, jid))
      (filter (job_sat (\<lambda>job. job_status job = Queued) i) (job_order i))"
proof -
  have ok: "\<exists>job. jobs i jid = Some job \<and> job_id job = jid" if "jid \<in> set (job_order i)" for jid
    using that inv_order(2) [OF inv] inv_job(1) [OF inv] by auto
  have "filter (\<lambda>jid. job_status (the (jobs i jid)) = Queued) (job_order i) =
      filter (job_sat (\<lambda>job. job_status job = Queued) i) (job_order i)"
    by (rule filter_cong [OF refl]) (use ok in \<open>fastforce simp: job_sat_def\<close>)
  then show ?thesis
    unfolding loaded_of_def filter_map o_def
    by (auto simp: queue_pos_def prio_of_def dest: ok)
qed

lemma queued_sorted_filter:
  assumes inv: "registry_inv i"
  shows "map (\<lambda>(_, _, jid). jid) (filter (\<lambda>(p', _, _). p' = p) (queued_sorted (loaded_of i))) =
    for_priority p (queues i)" (is "?ids = ?q")
proof -
  let ?key = "\<lambda>(p, pos, jid). (priority_rank p, pos :: int, jid :: string)"
  let ?L = "map (\<lambda>jid. (prio_of i jid, queue_pos i jid, jid))
      (filter (job_sat (\<lambda>job. job_status job = Queued) i) (job_order i))"
  let ?T = "filter (\<lambda>(p', _, _). p' = p) (sort_key ?key ?L)"
  have S: "queued_sorted (loaded_of i) = sort_key ?key ?L"
    by (simp add: queued_sorted_def loaded_queued [OF inv])
  have pos: "map (queue_pos i) ?ids = map (\<lambda>(_, pos, _). pos) ?T"
    unfolding S by (auto simp: o_def)
  have "sorted (map ?key ?T)" by (rule sorted_filter) simp
  then have sorted: "sorted (map (\<lambda>(_, pos, _). pos) ?T)"
    unfolding sorted_wrt_map
    by (rule sorted_wrt_mono_rel [rotated]) (auto simp: less_eq_prod_def)
  have "set ?ids = {jid \<in> set (job_order i). job_sat (\<lambda>job. job_status job = Queued) i jid \<and> prio_of i jid = p}"
    unfolding S by force
  also have "\<dots> = queued_set i p"
    using inv_order(2) [OF inv]
    by (auto simp: queued_set_def job_sat_def prio_of_def split: option.splits)
  finally have set_ids: "set ?ids = set ?q" using inv_queue(2) [OF inv] by simp
  have "distinct (map (\<lambda>(_, _, jid). jid) ?L)"
    using inv_order(1) [OF inv] by (simp add: o_def)
  then have "distinct (map (\<lambda>(_, _, jid). jid) (sort_key ?key ?L))"
    by (simp only: distinct_map distinct_sort set_sort)
  then have "distinct ?ids" unfolding S by (rule distinct_map_filter)
  moreover have inj: "inj_on (queue_pos i) (set ?q)"
    using map_queue_pos [OF inv, of p] by (metis distinct_map distinct_upt inj_of_nat inj_on_subset subset_UNIV)
  ultimately have "distinct (map (queue_pos i) ?ids)"
    unfolding distinct_map [of "queue_pos i" ?ids] set_ids by (rule conjI)
  moreover have "sorted (map (queue_pos i) ?ids)" using sorted unfolding pos .
  moreover have "sorted (map (queue_pos i) ?q)" "distinct (map (queue_pos i) ?q)"
    unfolding map_queue_pos [OF inv] by (simp_all add: distinct_map sorted_map)
  ultimately show ?thesis
    using inj set_ids by (intro map_sorted_distinct_set_unique [of "queue_pos i"]) simp_all
qed

lemma loaded_queues:
  assumes inv: "registry_inv i"
  shows "for_priority p (fold (\<lambda>(p, _, jid) qs. push_back p jid qs) (queued_sorted (loaded_of i)) queues_default) =
    for_priority p (queues i)"
proof -
  have f: "fold (\<lambda>(p, _, jid) qs. push_back p jid qs) es qs =
      fold (\<lambda>(p, x) qs. push_back p x qs) (map (\<lambda>(p, _, jid). (p, jid)) es) qs"
    for es :: "(priority \<times> int \<times> string) list" and qs
    by (induction es arbitrary: qs) auto
  have m: "map snd (filter (\<lambda>e. fst e = p) (map (\<lambda>(p, _, jid). (p, jid)) es)) =
      map (\<lambda>(_, _, jid). jid) (filter (\<lambda>(p', _, _). p' = p) es)"
    for es :: "(priority \<times> int \<times> string) list"
    by (induction es) auto
  show ?thesis
    by (simp add: f jq.contents_fold_push m queued_sorted_filter [OF inv])
qed


section \<open>The next id\<close>

lemma parse_numeric_job_id_of: "n < 2 ^ 64 \<Longrightarrow> parse_numeric_job_id (job_id_of n) = n"
proof -
  assume n: "n < 2 ^ 64"
  have "strip_prefix (job_id_of n) ''job-'' = Some (nat_to_string n)"
    unfolding job_id_of_def by (rule strip_prefix_append)
  then show ?thesis using n by (simp add: parse_numeric_job_id_def parse_uint_nat_to_string)
qed

definition top_id :: "'v job_registry_inner \<Rightarrow> nat" where
  "top_id i = fold (\<lambda>jid n. max n (parse_numeric_job_id jid)) (job_order i) 0"

lemma fold_max_le: "(n :: nat) \<le> fold (\<lambda>x n. max n (f x)) xs n"
  by (induction xs arbitrary: n) (auto intro: le_trans [OF max.cobounded1])

lemma fold_max_bounds:
  "(\<forall>x \<in> set xs. f x \<le> fold (\<lambda>x n. max n (f x)) xs n) \<and>
   (n \<le> b \<longrightarrow> (\<forall>x \<in> set xs. f x \<le> b) \<longrightarrow> fold (\<lambda>x n. max n (f x)) xs n \<le> (b :: nat))"
proof (induction xs arbitrary: n)
  case (Cons x xs)
  have "f x \<le> fold (\<lambda>x n. max n (f x)) xs (max n (f x))"
    by (rule le_trans [OF _ fold_max_le]) simp
  then show ?case using Cons.IH [of "max n (f x)"] by simp
qed simp

lemma top_id_bounds:
  assumes inv: "registry_inv i" and fit: "fits i"
  shows "top_id i \<le> next_id i" "\<And>n. job_id_of n \<in> set (job_order i) \<Longrightarrow> n \<le> top_id i"
proof -
  from registry_invD(2) [OF inv] obtain ns
    where ns: "job_order i = map job_id_of ns" "\<forall>n \<in> set ns. 1 \<le> n \<and> n \<le> next_id i"
    unfolding order_ok_def by blast
  have small: "n < 2 ^ 64" if "n \<in> set ns" for n
    using that ns(2) fit by (auto simp: fits_def intro: le_less_trans)
  show "top_id i \<le> next_id i"
    unfolding top_id_def
    using fold_max_bounds [where xs = "job_order i" and b = "next_id i" and n = 0] ns small
    by (simp add: parse_numeric_job_id_of)
  show "n \<le> top_id i" if "job_id_of n \<in> set (job_order i)" for n
  proof -
    have "n \<in> set ns" using that by (auto simp: ns(1))
    then have "parse_numeric_job_id (job_id_of n) = n" by (intro parse_numeric_job_id_of small)
    moreover have "parse_numeric_job_id (job_id_of n) \<le> top_id i"
      unfolding top_id_def by (rule fold_max_bounds [THEN conjunct1, THEN bspec, OF that])
    ultimately show ?thesis by simp
  qed
qed

lemma loaded_next_id:
  assumes inv: "registry_inv i"
  shows "fold (\<lambda>(job, _) n. max n (parse_numeric_job_id (job_id job))) (loaded_of i) 0 = top_id i"
proof -
  have "fold (\<lambda>(job, _) n. max n (parse_numeric_job_id (job_id job))) xs n =
      fold (\<lambda>jid n. max n (parse_numeric_job_id jid)) (map (\<lambda>(job, _). job_id job) xs) n"
    for xs :: "('a job_record \<times> int option) list" and n
    by (induction xs arbitrary: n) auto
  then show ?thesis by (simp add: top_id_def loaded_order [OF inv])
qed

lemma loaded_inner_eq:
  assumes inv: "registry_inv i" and h: "\<And>xs. set (h xs) = set xs"
  shows "loaded_inner h (loaded_of i) = i\<lparr>next_id := top_id i\<rparr>"
proof -
  have "fold (\<lambda>(p, _, jid) qs. push_back p jid qs) (queued_sorted (loaded_of i)) queues_default = queues i"
    by (rule queues_eqI) (rule loaded_queues [OF inv])
  then show ?thesis
    by (simp add: loaded_inner_def Let_def loaded_jobs [OF inv] loaded_order [OF inv]
        loaded_keys [OF inv h] loaded_next_id [OF inv])
qed

lemma registry_inv_next_id:
  assumes inv: "registry_inv i" and fit: "fits i"
  shows "registry_inv (i\<lparr>next_id := top_id i\<rparr>)"
proof -
  from registry_invD(2) [OF inv] obtain ns where ns: "job_order i = map job_id_of ns" "sorted_wrt (<) ns"
    "\<forall>n \<in> set ns. 1 \<le> n \<and> n \<le> next_id i" "set (job_order i) = dom (jobs i)"
    unfolding order_ok_def by blast
  have "\<forall>n \<in> set ns. n \<le> top_id i"
    using top_id_bounds(2) [OF inv fit] by (simp add: ns(1))
  then have "order_ok (i\<lparr>next_id := top_id i\<rparr>)"
    unfolding order_ok_def using ns by auto
  then show ?thesis
    using registry_invD [OF inv]
    by (simp add: registry_inv_def records_ok_def queues_ok_def keys_ok_def queued_set_def job_sat_def)
qed

lemma save_load:
  assumes "codec_ok c" and "registry_reads_back c i" and "registry_inv i" and "fits i" and "\<And>xs. set (h xs) = set xs"
  shows "\<exists>db'. replace_registry_snapshot c None i db = Inr db' \<and>
    load_registry_snapshot c h None db' = Inr (i\<lparr>next_id := top_id i\<rparr>)"
  using save_load_rows [OF assms(1-4), of db h] loaded_inner_eq [OF assms(3,5)] by simp

section \<open>Properties\<close>

text \<open>C7: Saving and loading: from a well-formed registry whose numbers fit the columns and whose payloads
  and results are values that the codec reads back (a float may not be), and as long as SQLite reports
  no error, \<open>replace_registry_snapshot\<close> succeeds on any database and \<open>load_registry_snapshot\<close> gives
  back all jobs with all their fields, the submission order, the three queues in their order and the
  idempotency keys, whatever order the hash map is visited in. \<open>next_id\<close> is not stored: it comes back
  as the highest number of a stored job, which no stored job exceeds but which may be lower than it was.\<close>
theorem store_roundtrip:
  assumes "codec_ok c" and "registry_reads_back c i" and "registry_inv i" and "fits i" and "\<And>xs. set (h xs) = set xs"
  shows "\<exists>db'. replace_registry_snapshot c None i db = Inr db' \<and>
    load_registry_snapshot c h None db' = Inr (i\<lparr>next_id := top_id i\<rparr>) \<and>
    top_id i \<le> next_id i \<and> (\<forall>n. job_id_of n \<in> set (job_order i) \<longrightarrow> n \<le> top_id i)"
  using save_load [OF assms] top_id_bounds [OF assms(3,4)] by blast

lemma ex_registry_reads_back: "registry_reads_back ex_codec i"
  unfolding registry_reads_back_def job_reads_back_def value_reads_back_def
  by (simp add: ex_codec_def split: option.split)

lemma ex_fits: "fits (inner (ex_reg ex_running []))"
  by (simp add: fits_def job_fits_def ex_running_def claim_job_def ex_job_def new_job_def)
    (simp add: ex_reg_def)

lemma ex_top_id: "top_id (inner (ex_reg job q)) = 1"
  using parse_numeric_job_id_of [of 1] by (simp add: top_id_def job_id_of_1)

theorem store_roundtrip_witness:
  "\<exists>db'. replace_registry_snapshot ex_codec None (inner (ex_reg ex_running [])) empty_db = Inr db' \<and>
    load_registry_snapshot ex_codec rev None db' = Inr ((inner (ex_reg ex_running []))\<lparr>next_id := 1\<rparr>)"
  using store_roundtrip [OF ex_codec_ok ex_registry_reads_back ex_inv(2) ex_fits, of rev empty_db] by (auto simp: ex_top_id)

lemma fits_expire:
  assumes "fits i" "now < 2 ^ 63" "jobs i' = (\<lambda>k. map_option (expire_job now) (jobs i k))"
    "job_order i' = job_order i" "next_id i' = next_id i"
  shows "fits i'"
proof -
  have "updated_at (expire_job now job) = (if is_expired now job then now else updated_at job)" for job :: "'a job_record"
    by (simp add: expire_job_def expired_attempt_def)
  then show ?thesis using assms by (auto simp: fits_def job_fits_def)
qed

lemma fits_next_id: "fits i \<Longrightarrow> n \<le> next_id i \<Longrightarrow> fits (i\<lparr>next_id := n\<rparr>)"
  by (simp add: fits_def)

lemma registry_reads_back_expire:
  assumes "registry_reads_back c i" "jobs i' = (\<lambda>k. map_option (expire_job now) (jobs i k))"
  shows "registry_reads_back c i'"
proof -
  have "payload (expire_job now job) = payload job" "job_result (expire_job now job) \<in> {None, job_result job}"
    for job :: "'a job_record"
    by (simp_all add: expire_job_def expired_attempt_def requeue_job_def fail_job_def prepare_callback_def Let_def)
  then have "job_reads_back c job \<Longrightarrow> job_reads_back c (expire_job now job)" for job
    unfolding job_reads_back_def by (metis insertE singletonD option.simps(4))
  then show ?thesis using assms by (auto simp: registry_reads_back_def)
qed

text \<open>C26: A restart recovers the registry: if the state was saved, with payloads and results that the
  codec reads back, and SQLite reports no error, \<open>with_store_and_retention\<close> at a later time \<open>now\<close>
  succeeds and the new registry is well-formed. It has every job, with the attempts whose lease expired
  by \<open>now\<close> requeued or failed and everything else as it was, in the same submission order, with the
  same idempotency keys, and each queue is the saved one followed by the jobs of its priority that the
  sweep requeued, in submission order. \<open>next_id\<close> is the highest number of a saved job. The store it keeps
  holds exactly this state.\<close>
theorem restart_recovers:
  assumes c: "codec_ok c" "registry_reads_back c i" and inv: "registry_inv i" and fit: "fits i" and now: "now < 2 ^ 63"
    and h: "\<And>xs. set (h xs) = set xs" and saved: "replace_registry_snapshot c None i db = Inr db'"
  shows "\<exists>reg db2. with_store_and_retention c h None None now db' policy = Inr reg \<and>
    registry_inv (inner reg) \<and> store reg = Some db2 \<and>
    (\<forall>k. jobs (inner reg) k = map_option (expire_job now) (jobs i k)) \<and>
    job_order (inner reg) = job_order i \<and> idempotency_keys (inner reg) = idempotency_keys i \<and>
    (\<forall>p. for_priority p (queues (inner reg)) = for_priority p (queues i) @ sweep_back now i p) \<and>
    next_id (inner reg) = top_id i \<and>
    load_registry_snapshot c h None db2 = Inr (inner reg)"
proof -
  let ?i0 = "i\<lparr>next_id := top_id i\<rparr>"
  have load: "load_registry_snapshot c h None db' = Inr ?i0"
    using save_load [OF c inv fit, of h db] h saved by auto
  have inv0: "registry_inv ?i0" by (rule registry_inv_next_id [OF inv fit])
  obtain i1 report where sw: "requeue_expired_leases_locked now ?i0 = (i1, report)" by fastforce
  note eq = sweep_eq [OF inv0 sw]
  have inv1: "registry_inv i1" by (rule sweep_locked_inv [OF inv0 sw])
  have requeued: "sweep_back now ?i0 p = sweep_back now i p" for p
    by (simp add: sweep_back_def job_sat_def [abs_def])
  have reads: "registry_reads_back c i1" by (rule registry_reads_back_expire [OF _ eq(2)]) (use c(2) in \<open>simp add: registry_reads_back_def\<close>)
  have fit0: "fits ?i0" by (rule fits_next_id [OF fit top_id_bounds(1) [OF inv fit]])
  have fit1: "fits i1" by (rule fits_expire [OF fit0 now eq(2,3,5)])
  have top: "i1\<lparr>next_id := top_id i1\<rparr> = i1"
    using eq(3,5) by (simp add: top_id_def)
  show ?thesis
  proof (cases "requeued report > 0 \<or> failed report > 0")
    case True
    from save_load [OF c(1) reads inv1 fit1 h, of "bootstrap_schema db'"] obtain db2 where
      "replace_registry_snapshot c None i1 (bootstrap_schema db') = Inr db2"
      "load_registry_snapshot c h None db2 = Inr i1"
      unfolding top by blast
    then show ?thesis
      using True load sw inv1 eq(2-6) by (simp add: with_store_and_retention_def requeued)
  next
    case False
    then have none: "expired_ids now ?i0 (job_order ?i0) = []"
      using eq(1) by (auto simp: sweep_report_def expiry_report_default_def Let_def filter_empty_conv)
    have same: "i1 = ?i0" by (rule sweep_nothing [OF inv0 sw none])
    have "load_registry_snapshot c h None (bootstrap_schema db') = load_registry_snapshot c h None db'"
      by (simp add: load_registry_snapshot_def select_jobs_def bootstrap_rows [OF bootstrap_has])
    then have "load_registry_snapshot c h None (bootstrap_schema db') = Inr i1" using load same by simp
    moreover have "with_store_and_retention c h None None now db' policy =
        Inr \<lparr>inner = i1, store = Some (bootstrap_schema db'), retention_policy = policy\<rparr>"
      using False load sw by (simp add: with_store_and_retention_def)
    ultimately show ?thesis using inv1 by (simp add: eq(2-6) requeued)
  qed
qed

theorem restart_recovers_witness:
  "\<exists>reg. with_store_and_retention ex_codec rev None None 130
      (projr (replace_registry_snapshot ex_codec None (inner (ex_reg ex_running [])) empty_db))
      retention_default = Inr reg \<and>
    map_option job_status (jobs (inner reg) ''job-1'') = Some Queued \<and>
    q_batch (queues (inner reg)) = sweep_back 130 (inner (ex_reg ex_running [])) Batch"
proof -
  from save_load [OF ex_codec_ok ex_registry_reads_back ex_inv(2) ex_fits, of rev empty_db] obtain db'
    where "replace_registry_snapshot ex_codec None (inner (ex_reg ex_running [])) empty_db = Inr db'" by auto
  from restart_recovers [OF ex_codec_ok ex_registry_reads_back ex_inv(2) ex_fits _ _ this, of 130 rev retention_default]
  show ?thesis
    using \<open>replace_registry_snapshot ex_codec None _ empty_db = Inr db'\<close>
    by (auto dest: spec [of _ Batch] simp: expire_job_status is_expired_def retries_left_def)
qed

text \<open>Ids are only unique while the process runs: when the highest job was pruned before a
  restart, the first job submitted afterwards gets an id that another job already had.\<close>
theorem restart_reuses_ids:
  assumes c: "codec_ok c" "registry_reads_back c i" and inv: "registry_inv i" and fit: "fits i"
    and h: "\<And>xs. set (h xs) = set xs" and saved: "replace_registry_snapshot c None i db = Inr db'"
    and pruned: "top_id i < next_id i"
  shows "\<exists>i'. load_registry_snapshot c h None db' = Inr i' \<and>
    job_id (snd (insert_new_job now request url key i')) = job_id_of (top_id i + 1) \<and>
    top_id i + 1 \<le> next_id i"
proof -
  have "load_registry_snapshot c h None db' = Inr (i\<lparr>next_id := top_id i\<rparr>)"
    using save_load [OF c inv fit h, of db] saved by simp
  then show ?thesis using pruned by (simp add: insert_new_job_def Let_def new_job_def)
qed

lemma registry_inv_next_id_ge:
  "registry_inv i \<Longrightarrow> next_id i \<le> n \<Longrightarrow> registry_inv (i\<lparr>next_id := n\<rparr>)"
proof -
  assume inv: "registry_inv i" and n: "next_id i \<le> n"
  from registry_invD(2) [OF inv] obtain ns where ns: "job_order i = map job_id_of ns" "sorted_wrt (<) ns"
    "\<forall>n \<in> set ns. 1 \<le> n \<and> n \<le> next_id i" "set (job_order i) = dom (jobs i)"
    unfolding order_ok_def by blast
  then have "\<forall>m \<in> set ns. 1 \<le> m \<and> m \<le> n" using n by auto
  then have "order_ok (i\<lparr>next_id := n\<rparr>)" unfolding order_ok_def using ns by auto
  then show ?thesis
    using registry_invD [OF inv]
    by (simp add: registry_inv_def records_ok_def queues_ok_def keys_ok_def queued_set_def job_sat_def)
qed

theorem restart_reuses_ids_witness:
  "\<exists>db' i'. replace_registry_snapshot ex_codec None ((inner (ex_reg ex_running []))\<lparr>next_id := 2\<rparr>) empty_db = Inr db' \<and>
     load_registry_snapshot ex_codec rev None db' = Inr i' \<and>
     job_id (snd (insert_new_job 200 ex_request None None i')) = job_id_of 2"
proof -
  let ?i = "(inner (ex_reg ex_running []))\<lparr>next_id := 2\<rparr>"
  have inv: "registry_inv ?i" by (rule registry_inv_next_id_ge [OF ex_inv(2)]) (simp add: ex_reg_def)
  have fit: "fits ?i" using ex_fits by (simp add: fits_def)
  have top: "top_id ?i = 1" using ex_top_id [of ex_running "[]"] by (simp add: top_id_def)
  from save_load [OF ex_codec_ok ex_registry_reads_back inv fit, of rev empty_db] obtain db' where
    saved: "replace_registry_snapshot ex_codec None ?i empty_db = Inr db'" by auto
  from restart_reuses_ids [OF ex_codec_ok ex_registry_reads_back inv fit _ saved, of rev 200 ex_request None None]
  have "top_id ?i < next_id ?i \<Longrightarrow> \<exists>i'. load_registry_snapshot ex_codec rev None db' = Inr i' \<and>
      job_id (snd (insert_new_job 200 ex_request None None i')) = job_id_of (top_id ?i + 1)" by auto
  then show ?thesis using saved unfolding top by (simp add: numeral_2_eq_2)
qed

end
