(* ===== verification/Metrics.thy ===== *)
theory Metrics
  imports Job_Types
begin

text \<open>
  The counters of \<open>src/src/metrics.rs\<close>: \<open>RoutingMetrics\<close>, its recording methods and the text that
  \<open>render\<close> produces. Each \<open>HashMap\<close> of counters is an association list whose order stands for the
  iteration order. Counters are unbounded; sums of seconds are rational numbers, printed
  with six decimals, and the rounding of \<open>f64\<close> additions is not modelled.
\<close>

section \<open>Labels and state\<close>

record request_labels =
  rl_workload :: string
  rl_priority :: string
  rl_backend :: string
  rl_node :: string
  rl_pool :: string
  rl_origin_node :: string
  rl_status :: nat
  rl_outcome :: string

text \<open>\<open>RetryLabels\<close> and \<open>FallbackLabels\<close> have the same fields.\<close>

record retry_labels =
  tl_workload :: string
  tl_priority :: string
  tl_backend :: string
  tl_node :: string
  tl_pool :: string
  tl_origin_node :: string
  tl_reason :: string

record fallback_labels =
  fl_workload :: string
  fl_priority :: string
  fl_backend :: string
  fl_node :: string
  fl_pool :: string
  fl_origin_node :: string
  fl_reason :: string

record pool_decision_labels =
  pl_workload :: string
  pl_priority :: string
  pl_pool :: string
  pl_backend :: string
  pl_node :: string
  pl_origin_node :: string
  pl_outcome :: string

record async_pool_decision_labels =
  al_kind :: string
  al_priority :: string
  al_pool :: string
  al_worker :: string
  al_node :: string
  al_outcome :: string

record callback_labels =
  cl_kind :: string
  cl_status :: string
  cl_outcome :: string
  cl_http_status :: nat

record job_prune_labels =
  jl_status :: string

record request_aggregate =
  ra_count :: nat
  ra_latency_sum :: rat

record pool_decision_aggregate =
  pa_decisions :: nat
  pa_candidate_backends :: nat
  pa_resource_ineligible :: nat

record async_pool_decision_aggregate =
  aa_decisions :: nat
  aa_candidate_workers :: nat
  aa_no_compatible_jobs :: nat

record routing_metrics =
  requests :: "(request_labels \<times> request_aggregate) list"
  retries :: "(retry_labels \<times> nat) list"
  fallbacks :: "(fallback_labels \<times> nat) list"
  pool_decisions :: "(pool_decision_labels \<times> pool_decision_aggregate) list"
  async_pool_decisions :: "(async_pool_decision_labels \<times> async_pool_decision_aggregate) list"
  callbacks :: "(callback_labels \<times> nat) list"
  job_prunes :: "(job_prune_labels \<times> nat) list"

definition metrics_default :: routing_metrics where
  "metrics_default =
     \<lparr>requests = [], retries = [], fallbacks = [], pool_decisions = [],
      async_pool_decisions = [], callbacks = [], job_prunes = []\<rparr>"

section \<open>Recording\<close>

text \<open>\<open>entry(labels).or_default()\<close> followed by an update.\<close>

definition bump :: "'a \<Rightarrow> ('a \<Rightarrow> 'a) \<Rightarrow> 'k \<Rightarrow> ('k \<times> 'a) list \<Rightarrow> ('k \<times> 'a) list" where
  "bump zero f k m = AList.update k (f (case map_of m k of None \<Rightarrow> zero | Some x \<Rightarrow> x)) m"

definition record_request :: "request_labels \<Rightarrow> rat \<Rightarrow> routing_metrics \<Rightarrow> routing_metrics" where
  "record_request labels latency m =
     m\<lparr>requests := bump \<lparr>ra_count = 0, ra_latency_sum = 0\<rparr>
         (\<lambda>a. a\<lparr>ra_count := ra_count a + 1, ra_latency_sum := ra_latency_sum a + latency\<rparr>)
         labels (requests m)\<rparr>"

definition record_retry :: "retry_labels \<Rightarrow> routing_metrics \<Rightarrow> routing_metrics" where
  "record_retry labels m = m\<lparr>retries := bump 0 (\<lambda>n. n + 1) labels (retries m)\<rparr>"

definition record_fallback :: "fallback_labels \<Rightarrow> routing_metrics \<Rightarrow> routing_metrics" where
  "record_fallback labels m = m\<lparr>fallbacks := bump 0 (\<lambda>n. n + 1) labels (fallbacks m)\<rparr>"

definition record_pool_decision ::
  "pool_decision_labels \<Rightarrow> nat \<Rightarrow> nat \<Rightarrow> routing_metrics \<Rightarrow> routing_metrics" where
  "record_pool_decision labels candidate_backends resource_ineligible_backends m =
     m\<lparr>pool_decisions :=
         bump \<lparr>pa_decisions = 0, pa_candidate_backends = 0, pa_resource_ineligible = 0\<rparr>
           (\<lambda>a. a\<lparr>pa_decisions := pa_decisions a + 1,
                  pa_candidate_backends := pa_candidate_backends a + candidate_backends,
                  pa_resource_ineligible := pa_resource_ineligible a + resource_ineligible_backends\<rparr>)
           labels (pool_decisions m)\<rparr>"

definition record_async_pool_decision ::
  "async_pool_decision_labels \<Rightarrow> nat \<Rightarrow> nat \<Rightarrow> routing_metrics \<Rightarrow> routing_metrics" where
  "record_async_pool_decision labels candidate_workers no_compatible_jobs m =
     m\<lparr>async_pool_decisions :=
         bump \<lparr>aa_decisions = 0, aa_candidate_workers = 0, aa_no_compatible_jobs = 0\<rparr>
           (\<lambda>a. a\<lparr>aa_decisions := aa_decisions a + 1,
                  aa_candidate_workers := aa_candidate_workers a + candidate_workers,
                  aa_no_compatible_jobs := aa_no_compatible_jobs a + no_compatible_jobs\<rparr>)
           labels (async_pool_decisions m)\<rparr>"

definition record_callback :: "callback_labels \<Rightarrow> routing_metrics \<Rightarrow> routing_metrics" where
  "record_callback labels m = m\<lparr>callbacks := bump 0 (\<lambda>n. n + 1) labels (callbacks m)\<rparr>"

definition record_job_prune :: "job_prune_report \<Rightarrow> routing_metrics \<Rightarrow> routing_metrics" where
  "record_job_prune report m =
     fold (\<lambda>snapshot m.
       m\<lparr>job_prunes := bump 0 (\<lambda>n. n + ps_removed snapshot) \<lparr>jl_status = ps_status snapshot\<rparr> (job_prunes m)\<rparr>)
       (by_status report) m"

section \<open>Text\<close>

definition nl :: string where
  "nl = [CHR 0x0A]"

definition qt :: char where
  "qt = CHR 0x22"

definition bslash :: char where
  "bslash = CHR 0x5C"

text \<open>\<open>str::replace\<close> of one character by a string.\<close>

definition replace_char :: "char \<Rightarrow> string \<Rightarrow> string \<Rightarrow> string" where
  "replace_char c t s = concat (map (\<lambda>x. if x = c then t else [x]) s)"

definition prometheus_escape :: "string \<Rightarrow> string" where
  "prometheus_escape value = replace_char qt [bslash, qt] (replace_char bslash [bslash, bslash] value)"

text \<open>\<open>{:.6}\<close>: six decimals, ties to even.\<close>

definition round_half_even :: "rat \<Rightarrow> int" where
  "round_half_even x =
     (let f = floor x; d = x - of_int f in
      if d < 1 / 2 then f else if d > 1 / 2 then f + 1 else if even f then f else f + 1)"

fun pad_left :: "nat \<Rightarrow> string \<Rightarrow> string" where
  "pad_left n s = replicate (n - length s) (CHR ''0'') @ s"

definition format_6 :: "rat \<Rightarrow> string" where
  "format_6 x =
     (let n = nat (round_half_even (abs x * 10 ^ 6)) in
      (if x < 0 then ''-'' else []) @ nat_to_string (n div 10 ^ 6) @ ''.'' @
      pad_left 6 (nat_to_string (n mod 10 ^ 6)))"

text \<open>A line \<open>name{k="v",..} value\<close>; the label values are already escaped.\<close>

definition metric_line :: "string \<Rightarrow> (string \<times> string) list \<Rightarrow> string \<Rightarrow> string" where
  "metric_line name labels value =
     name @ ''{'' @ join_with '','' (map (\<lambda>(k, v). k @ ''='' @ [qt] @ v @ [qt]) labels) @ ''} '' @ value @ nl"

definition help_type :: "string \<Rightarrow> string \<Rightarrow> string \<Rightarrow> string" where
  "help_type name help kind =
     ''# HELP '' @ name @ '' '' @ help @ nl @ ''# TYPE '' @ name @ '' '' @ kind @ nl"

definition request_label_list :: "request_labels \<Rightarrow> (string \<times> string) list" where
  "request_label_list l =
     [(''workload'', prometheus_escape (rl_workload l)), (''priority'', prometheus_escape (rl_priority l)),
      (''backend'', prometheus_escape (rl_backend l)), (''node'', prometheus_escape (rl_node l)),
      (''pool'', prometheus_escape (rl_pool l)), (''origin_node'', prometheus_escape (rl_origin_node l)),
      (''status'', nat_to_string (rl_status l)), (''outcome'', prometheus_escape (rl_outcome l))]"

definition retry_label_list :: "retry_labels \<Rightarrow> (string \<times> string) list" where
  "retry_label_list l =
     [(''workload'', prometheus_escape (tl_workload l)), (''priority'', prometheus_escape (tl_priority l)),
      (''backend'', prometheus_escape (tl_backend l)), (''node'', prometheus_escape (tl_node l)),
      (''pool'', prometheus_escape (tl_pool l)), (''origin_node'', prometheus_escape (tl_origin_node l)),
      (''reason'', prometheus_escape (tl_reason l))]"

definition fallback_label_list :: "fallback_labels \<Rightarrow> (string \<times> string) list" where
  "fallback_label_list l =
     [(''workload'', prometheus_escape (fl_workload l)), (''priority'', prometheus_escape (fl_priority l)),
      (''backend'', prometheus_escape (fl_backend l)), (''node'', prometheus_escape (fl_node l)),
      (''pool'', prometheus_escape (fl_pool l)), (''origin_node'', prometheus_escape (fl_origin_node l)),
      (''reason'', prometheus_escape (fl_reason l))]"

definition pool_label_list :: "pool_decision_labels \<Rightarrow> (string \<times> string) list" where
  "pool_label_list l =
     [(''workload'', prometheus_escape (pl_workload l)), (''priority'', prometheus_escape (pl_priority l)),
      (''pool'', prometheus_escape (pl_pool l)), (''backend'', prometheus_escape (pl_backend l)),
      (''node'', prometheus_escape (pl_node l)), (''origin_node'', prometheus_escape (pl_origin_node l)),
      (''outcome'', prometheus_escape (pl_outcome l))]"

definition async_pool_label_list :: "async_pool_decision_labels \<Rightarrow> (string \<times> string) list" where
  "async_pool_label_list l =
     [(''type'', prometheus_escape (al_kind l)), (''priority'', prometheus_escape (al_priority l)),
      (''pool'', prometheus_escape (al_pool l)), (''worker'', prometheus_escape (al_worker l)),
      (''node'', prometheus_escape (al_node l)), (''outcome'', prometheus_escape (al_outcome l))]"

text \<open>\<open>render\<close>, in two parts: the request, retry and fallback series, then the others.\<close>

definition render_requests :: "routing_metrics \<Rightarrow> string" where
  "render_requests m =
     help_type ''fairlead_requests_total'' ''Synchronous proxy requests by routing outcome'' ''counter'' @
     concat (map (\<lambda>(l, a). metric_line ''fairlead_requests_total'' (request_label_list l)
       (nat_to_string (ra_count a))) (requests m)) @
     help_type ''fairlead_request_latency_seconds'' ''Synchronous proxy request latency'' ''summary'' @
     concat (map (\<lambda>(l, a).
       metric_line ''fairlead_request_latency_seconds_count'' (request_label_list l) (nat_to_string (ra_count a)) @
       metric_line ''fairlead_request_latency_seconds_sum'' (request_label_list l) (format_6 (ra_latency_sum a)))
       (requests m)) @
     help_type ''fairlead_retries_total'' ''Same-request retry attempts by failed backend and reason'' ''counter'' @
     concat (map (\<lambda>(l, n). metric_line ''fairlead_retries_total'' (retry_label_list l) (nat_to_string n)) (retries m)) @
     help_type ''fairlead_fallbacks_total'' ''Fallback selections by selected backend and reason'' ''counter'' @
     concat (map (\<lambda>(l, n). metric_line ''fairlead_fallbacks_total'' (fallback_label_list l) (nat_to_string n)) (fallbacks m))"

definition render_decisions :: "routing_metrics \<Rightarrow> string" where
  "render_decisions m =
     help_type ''fairlead_pool_selections_total'' ''Synchronous pool routing decisions by pool and outcome'' ''counter'' @
     help_type ''fairlead_pool_candidate_backends_total''
       ''Total candidate backends observed during pool routing decisions'' ''counter'' @
     help_type ''fairlead_pool_resource_ineligible_backends_total''
       ''Total resource-ineligible backends observed during pool routing decisions'' ''counter'' @
     concat (map (\<lambda>(l, a).
       metric_line ''fairlead_pool_selections_total'' (pool_label_list l) (nat_to_string (pa_decisions a)) @
       metric_line ''fairlead_pool_candidate_backends_total'' (pool_label_list l) (nat_to_string (pa_candidate_backends a)) @
       metric_line ''fairlead_pool_resource_ineligible_backends_total'' (pool_label_list l)
         (nat_to_string (pa_resource_ineligible a))) (pool_decisions m)) @
     help_type ''fairlead_async_pool_selections_total''
       ''Async worker-pull pool placement decisions by pool and outcome'' ''counter'' @
     help_type ''fairlead_async_pool_candidate_workers_total''
       ''Total compatible workers observed during async pool placement decisions'' ''counter'' @
     help_type ''fairlead_async_pool_no_compatible_jobs_total''
       ''Total queued jobs skipped because the claiming worker pool was not allowed'' ''counter'' @
     concat (map (\<lambda>(l, a).
       metric_line ''fairlead_async_pool_selections_total'' (async_pool_label_list l) (nat_to_string (aa_decisions a)) @
       metric_line ''fairlead_async_pool_candidate_workers_total'' (async_pool_label_list l)
         (nat_to_string (aa_candidate_workers a)) @
       metric_line ''fairlead_async_pool_no_compatible_jobs_total'' (async_pool_label_list l)
         (nat_to_string (aa_no_compatible_jobs a))) (async_pool_decisions m)) @
     help_type ''fairlead_job_callbacks_total'' ''Async job callback deliveries by outcome'' ''counter'' @
     concat (map (\<lambda>(l, n). metric_line ''fairlead_job_callbacks_total''
       [(''type'', prometheus_escape (cl_kind l)), (''status'', prometheus_escape (cl_status l)),
        (''outcome'', prometheus_escape (cl_outcome l)), (''http_status'', nat_to_string (cl_http_status l))]
       (nat_to_string n)) (callbacks m)) @
     help_type ''fairlead_job_prunes_total'' ''Terminal async jobs pruned by terminal status'' ''counter'' @
     concat (map (\<lambda>(l, n). metric_line ''fairlead_job_prunes_total''
       [(''status'', prometheus_escape (jl_status l))] (nat_to_string n)) (job_prunes m))"

definition render :: "routing_metrics \<Rightarrow> string" where
  "render m = render_requests m @ render_decisions m"

section \<open>Facts\<close>

lemma map_of_bump:
  "map_of (bump zero f k m) k' =
     (if k' = k then Some (f (case map_of m k of None \<Rightarrow> zero | Some x \<Rightarrow> x)) else map_of m k')"
  unfolding bump_def map_of_update by simp

lemma distinct_bump: "distinct (map fst m) \<Longrightarrow> distinct (map fst (bump zero f k m))"
  by (simp add: bump_def distinct_update)

text \<open>
  A reader of a quoted label value: it stops at the first quote that no backslash escapes.
\<close>

fun read_label :: "string \<Rightarrow> (string \<times> string) option" where
  "read_label [] = None"
| "read_label (c # s) =
     (if c = qt then Some ([], s)
      else if c = bslash then
        (case s of [] \<Rightarrow> None | d # r \<Rightarrow> map_option (\<lambda>(v, t). (d # v, t)) (read_label r))
      else map_option (\<lambda>(v, t). (c # v, t)) (read_label s))"

lemma bs_qt [simp]: "bslash \<noteq> qt" "qt \<noteq> bslash"
  by (simp_all add: bslash_def qt_def)

lemma prometheus_escape_Cons:
  "prometheus_escape (c # s) =
     (if c = qt then [bslash, qt] else if c = bslash then [bslash, bslash] else [c]) @ prometheus_escape s"
  by (simp add: prometheus_escape_def replace_char_def)

lemma prometheus_escape_Nil [simp]: "prometheus_escape [] = []"
  by (simp add: prometheus_escape_def replace_char_def)

lemma read_escaped: "read_label (prometheus_escape s @ qt # rest) = Some (s, rest)"
  by (induction s) (auto simp: prometheus_escape_Cons)

text \<open>Label values cannot break out of their quotes: a reader of the quoted text gets exactly
  the recorded string and continues right after the closing quote, whatever the string holds.
  Hence different strings are never rendered alike.\<close>
theorem prometheus_label_roundtrip:
  "read_label (prometheus_escape s @ qt # rest) = Some (s, rest) \<and>
   (prometheus_escape s = prometheus_escape t \<longrightarrow> s = t)"
proof (intro conjI impI)
  show "read_label (prometheus_escape s @ qt # rest) = Some (s, rest)" by (rule read_escaped)
  assume "prometheus_escape s = prometheus_escape t"
  then show "s = t" by (metis read_escaped option.inject prod.inject)
qed

theorem prometheus_label_roundtrip_witness:
  "read_label (prometheus_escape [qt, bslash, CHR ''a''] @ [qt]) = Some ([qt, bslash, CHR ''a''], [])"
  using prometheus_label_roundtrip [of "[qt, bslash, CHR ''a'']" "[]"] by simp

text \<open>A line feed in a label value is not escaped, so it ends the line in the exposition text.\<close>
theorem prometheus_newline_unescaped:
  "prometheus_escape (s @ nl @ t) = prometheus_escape s @ nl @ prometheus_escape t"
  by (simp add: prometheus_escape_def replace_char_def nl_def qt_def bslash_def)

definition series_count :: "('k \<times> nat) list \<Rightarrow> 'k \<Rightarrow> nat" where
  "series_count m k = (case map_of m k of None \<Rightarrow> 0 | Some n \<Rightarrow> n)"

lemma series_bump:
  "series_count (bump 0 f k m) k' = (if k' = k then f (series_count m k) else series_count m k')"
  by (simp add: series_count_def map_of_bump)

text \<open>Pruning is counted exactly: recording a report adds to each status series the number of
  removed jobs the report gives for that status and leaves every other counter alone.\<close>
theorem record_job_prune_exact:
  "series_count (job_prunes (record_job_prune report m)) \<lparr>jl_status = st\<rparr> =
     series_count (job_prunes m) \<lparr>jl_status = st\<rparr> +
     (\<Sum>s \<leftarrow> filter (\<lambda>s. ps_status s = st) (by_status report). ps_removed s) \<and>
   callbacks (record_job_prune report m) = callbacks m \<and>
   requests (record_job_prune report m) = requests m"
proof -
  have "series_count (job_prunes (fold (\<lambda>snapshot m.
       m\<lparr>job_prunes := bump 0 (\<lambda>n. n + ps_removed snapshot) \<lparr>jl_status = ps_status snapshot\<rparr> (job_prunes m)\<rparr>)
       ss m)) \<lparr>jl_status = st\<rparr> =
     series_count (job_prunes m) \<lparr>jl_status = st\<rparr> + (\<Sum>s \<leftarrow> filter (\<lambda>s. ps_status s = st) ss. ps_removed s) \<and>
     callbacks (fold (\<lambda>snapshot m.
       m\<lparr>job_prunes := bump 0 (\<lambda>n. n + ps_removed snapshot) \<lparr>jl_status = ps_status snapshot\<rparr> (job_prunes m)\<rparr>)
       ss m) = callbacks m \<and>
     requests (fold (\<lambda>snapshot m.
       m\<lparr>job_prunes := bump 0 (\<lambda>n. n + ps_removed snapshot) \<lparr>jl_status = ps_status snapshot\<rparr> (job_prunes m)\<rparr>)
       ss m) = requests m" for ss
    by (induction ss arbitrary: m) (auto simp: series_bump)
  then show ?thesis by (simp add: record_job_prune_def)
qed

end
