(* ===== verification/Callbacks.thy ===== *)
theory Callbacks
  imports Jobs_Example Metrics
begin

text \<open>
  Delivery of job callbacks, \<open>src/src/callbacks.rs\<close>. The HTTP client is the parameter \<open>send\<close> of an
  attempt: what the POST of a job to a URL ends with. The delivery of a job runs as a task beside
  everything else, so before each of its registry calls the rest of the program may have changed the
  registry: this is the parameter \<open>other\<close>, numbered by the calls of the task.
\<close>

section \<open>The dispatcher\<close>

record callback_policy =
  cp_max_attempts :: nat
  cp_timeout_ms :: nat
  cp_retry_delay_ms :: nat

definition callback_policy_default :: callback_policy where
  "callback_policy_default =
     \<lparr>cp_max_attempts = 3, cp_timeout_ms = 5000, cp_retry_delay_ms = 250\<rparr>"

text \<open>The ids in flight, and the delivery tasks that are running.\<close>

record callback_dispatcher =
  disp_in_flight :: "string set"
  disp_tasks :: "string list"

definition dispatcher_default :: callback_dispatcher where
  "dispatcher_default = \<lparr>disp_in_flight = {}, disp_tasks = []\<rparr>"

definition mark_in_flight :: "string \<Rightarrow> callback_dispatcher \<Rightarrow> callback_dispatcher \<times> bool" where
  "mark_in_flight jid d =
     (d\<lparr>disp_in_flight := insert jid (disp_in_flight d)\<rparr>, jid \<notin> disp_in_flight d)"

definition clear_in_flight :: "string \<Rightarrow> callback_dispatcher \<Rightarrow> callback_dispatcher" where
  "clear_in_flight jid d = d\<lparr>disp_in_flight := disp_in_flight d - {jid}\<rparr>"

definition dispatch :: "string \<Rightarrow> callback_dispatcher \<Rightarrow> callback_dispatcher" where
  "dispatch jid d =
     (case mark_in_flight jid d of
        (d', False) \<Rightarrow> d'
      | (d', True) \<Rightarrow> d'\<lparr>disp_tasks := disp_tasks d' @ [jid]\<rparr>)"

text \<open>The end of a task, after its delivery returned.\<close>

definition finish_task :: "string \<Rightarrow> callback_dispatcher \<Rightarrow> callback_dispatcher" where
  "finish_task jid d = (clear_in_flight jid d)\<lparr>disp_tasks := remove1 jid (disp_tasks d)\<rparr>"

definition dispatch_pending_callbacks ::
  "('v, 's) job_registry \<Rightarrow> callback_dispatcher \<Rightarrow> callback_dispatcher" where
  "dispatch_pending_callbacks reg d = fold (\<lambda>job. dispatch (job_id job)) (pending_callback_jobs reg) d"

definition recovery_interval_ms :: "callback_policy \<Rightarrow> nat" where
  "recovery_interval_ms policy = (if cp_retry_delay_ms policy = 0 then 1000 else cp_retry_delay_ms policy)"

section \<open>Delivery\<close>

datatype send_result =
    Responded nat bool
  | Send_Error string
  | Timed_Out

text \<open>\<open>Responded status ok\<close>: \<open>ok\<close> is \<open>StatusCode::is_success\<close> of the status.\<close>

record ('v, 's) delivery_env =
  send :: "nat \<Rightarrow> string \<Rightarrow> 'v job_record \<Rightarrow> send_result"
  env_now :: "nat \<Rightarrow> nat"
  other :: "nat \<Rightarrow> ('v, 's) job_registry \<Rightarrow> ('v, 's) job_registry"
  env_db :: "nat \<Rightarrow> ('v, 's) persist"

record ('v, 's) delivery =
  dl_registry :: "('v, 's) job_registry"
  dl_metrics :: routing_metrics
  dl_sent :: "(string \<times> 'v job_record) list"

definition callback_outcome :: "'v job_record \<Rightarrow> string \<Rightarrow> nat \<Rightarrow> callback_labels" where
  "callback_outcome job outcome http_status =
     \<lparr>cl_kind = kind_as_str (job_kind job), cl_status = status_as_str (job_status job),
      cl_outcome = outcome, cl_http_status = http_status\<rparr>"

definition delivery_failed ::
  "('v, 's) delivery_env \<Rightarrow> nat \<Rightarrow> string \<Rightarrow> 'v job_record \<Rightarrow> nat option \<Rightarrow> string option \<Rightarrow> nat
     \<Rightarrow> ('v, 's) delivery \<Rightarrow> ('v, 's) delivery" where
  "delivery_failed env call jid job status err label_status dl =
     dl\<lparr>dl_registry := fst (record_callback_failure (env_db env call) jid status err
            (other env call (dl_registry dl))),
        dl_metrics := record_callback (callback_outcome job ''failure'' label_status) (dl_metrics dl)\<rparr>"

text \<open>
  The loop \<open>for attempt in 1..=max_attempts\<close> with \<open>left\<close> attempts left; the calls of attempt \<open>n\<close>
  are numbered \<open>2 n\<close> and \<open>2 n + 1\<close>. A successful attempt ends the loop.
\<close>

fun deliver_loop ::
  "('v, 's) delivery_env \<Rightarrow> string \<Rightarrow> nat \<Rightarrow> nat \<Rightarrow> ('v, 's) delivery \<Rightarrow> ('v, 's) delivery" where
  "deliver_loop env jid attempt 0 dl = dl"
| "deliver_loop env jid attempt (Suc left) dl =
     (case begin_callback_attempt (env_db env (2 * attempt)) (env_now env (2 * attempt)) jid
             (other env (2 * attempt) (dl_registry dl)) of
        (reg, None) \<Rightarrow> dl\<lparr>dl_registry := reg\<rparr>
      | (reg, Some job) \<Rightarrow>
          (case callback_url job of
             None \<Rightarrow> dl\<lparr>dl_registry := reg\<rparr>
           | Some url \<Rightarrow>
               let dl1 = dl\<lparr>dl_registry := reg, dl_sent := dl_sent dl @ [(url, job)]\<rparr>;
                   call = 2 * attempt + 1
               in (case send env attempt url job of
                     Responded status ok \<Rightarrow>
                       if ok then
                         dl1\<lparr>dl_registry := fst (record_callback_success (env_db env call)
                                (env_now env call) jid status (other env call reg)),
                             dl_metrics := record_callback (callback_outcome job ''success'' status)
                                (dl_metrics dl1)\<rparr>
                       else deliver_loop env jid (Suc attempt) left
                              (delivery_failed env call jid job (Some status) None status dl1)
                   | Send_Error e \<Rightarrow>
                       deliver_loop env jid (Suc attempt) left
                         (delivery_failed env call jid job None (Some e) 0 dl1)
                   | Timed_Out \<Rightarrow>
                       deliver_loop env jid (Suc attempt) left
                         (delivery_failed env call jid job None (Some ''callback timed out'') 0 dl1))))"

definition deliver_callback ::
  "('v, 's) delivery_env \<Rightarrow> callback_policy \<Rightarrow> string \<Rightarrow> ('v, 's) delivery \<Rightarrow> ('v, 's) delivery" where
  "deliver_callback env policy jid dl = deliver_loop env jid 1 (max (cp_max_attempts policy) 1) dl"

section \<open>Properties of the dispatcher\<close>

lemma mark_in_flight_simps:
  "dispatch jid d = (if jid \<in> disp_in_flight d then d
     else d\<lparr>disp_in_flight := insert jid (disp_in_flight d), disp_tasks := disp_tasks d @ [jid]\<rparr>)"
  by (auto simp: dispatch_def mark_in_flight_def insert_absorb)

lemma dispatch_fold:
  "disp_in_flight (fold (\<lambda>job. dispatch (job_id job)) js d) = disp_in_flight d \<union> job_id ` set js"
  by (induction js arbitrary: d) (auto simp: mark_in_flight_simps)

section \<open>Properties of a delivery\<close>

lemma begin_callback_Some:
  assumes "begin_callback_attempt db now jid reg = (reg', Some job)"
  shows "jobs (inner reg') jid = Some job" "callback_pending job" "is_terminal (job_status job)"
    "callback_url job \<noteq> None"
  using assms
  by (auto simp: begin_callback_attempt_def Let_def callback_pending_def dest!: commit_fst_snd
      split: option.splits if_splits)

definition send_ok :: "send_result \<Rightarrow> bool" where
  "send_ok r \<longleftrightarrow> (case r of Responded _ ok \<Rightarrow> ok | _ \<Rightarrow> False)"

lemma dl_sent_failed [simp]: "dl_sent (delivery_failed env call jid job st e l dl) = dl_sent dl"
  by (simp add: delivery_failed_def)

lemma deliver_loop_posts:
  "length (dl_sent (deliver_loop env jid attempt left dl)) \<le> length (dl_sent dl) + left"
proof (induction env jid attempt left dl rule: deliver_loop.induct)
  case (2 env jid attempt left dl)
  obtain reg r where b: "begin_callback_attempt (env_db env (2 * attempt)) (env_now env (2 * attempt)) jid
      (other env (2 * attempt) (dl_registry dl)) = (reg, r)" by fastforce
  show ?case
    using 2 b by (fastforce simp: Let_def split: option.splits send_result.splits)
qed simp

section \<open>A delivery that nothing disturbs\<close>

definition undisturbed :: "('v, 's) delivery_env \<Rightarrow> bool" where
  "undisturbed env \<longleftrightarrow> (\<forall>n reg. other env n reg = reg) \<and>
     (\<forall>n i s. \<exists>s'. env_db env n i s = Inr s')"

lemma undisturbed_commit:
  "undisturbed env \<Longrightarrow> snd (commit (env_db env n) reg i ok err) = ok"
  by (rule commit_result) (auto simp: undisturbed_def persists_def split: option.split)

definition job_at :: "('v, 's) delivery \<Rightarrow> string \<Rightarrow> 'v job_record option" where
  "job_at dl jid = jobs (inner (dl_registry dl)) jid"

text \<open>What the receiver answers to attempt \<open>n\<close>, whatever the job looks like.\<close>

definition answers :: "('v, 's) delivery_env \<Rightarrow> nat \<Rightarrow> send_result \<Rightarrow> bool" where
  "answers env n r \<longleftrightarrow> (\<forall>url job. send env n url job = r)"

definition deliverable :: "'v job_record \<Rightarrow> bool" where
  "deliverable job \<longleftrightarrow> callback_url job \<noteq> None \<and> is_terminal (job_status job) \<and> callback_pending job"

lemma begin_deliverable:
  assumes "undisturbed env" "jobs (inner reg) jid = Some job" "deliverable job"
  shows "\<exists>reg' job'. begin_callback_attempt (env_db env n) now jid reg = (reg', Some job') \<and>
    jobs (inner reg') jid = Some job' \<and> deliverable job' \<and> callback_url job' = callback_url job"
proof -
  from assms(3) obtain url cb where job: "callback_url job = Some url" "is_terminal (job_status job)"
      "job_callback job = Some cb" "cb_status cb = Pending"
    by (auto simp: deliverable_def callback_pending_def split: option.splits)
  let ?job = "job\<lparr>job_callback := Some (cb\<lparr>cb_attempts := cb_attempts cb + 1, cb_last_attempt_at := Some now\<rparr>)\<rparr>"
  let ?i = "put_job jid ?job (inner reg)"
  obtain reg' where c: "commit (env_db env n) reg ?i (Some ?job) (\<lambda>_. None) = (reg', Some ?job)"
    using undisturbed_commit [OF assms(1), of n reg ?i "Some ?job" "\<lambda>_. None"] by (metis prod.collapse)
  then have "begin_callback_attempt (env_db env n) now jid reg = (reg', Some ?job)"
    using assms(2) job by (simp add: begin_callback_attempt_def Let_def)
  moreover have "jobs (inner reg') jid = Some ?job" using commit_fst_snd [OF c] by simp
  ultimately show ?thesis
    using job by (intro exI [of _ reg'] exI [of _ ?job]) (simp add: deliverable_def callback_pending_def)
qed

lemma failure_deliverable:
  assumes "jobs (inner reg) jid = Some job" "deliverable job"
  shows "\<exists>job'. jobs (inner (fst (record_callback_failure db jid st e reg))) jid = Some job' \<and> deliverable job'"
  using assms
  by (auto simp: record_callback_failure_def deliverable_def callback_pending_def Let_def split: option.splits)

lemma success_delivered:
  assumes "jobs (inner reg) jid = Some job" "deliverable job"
  shows "\<exists>job'. jobs (inner (fst (record_callback_success db now jid st reg))) jid = Some job' \<and> callback_delivered job'"
  using assms
  by (auto simp: record_callback_success_def deliverable_def callback_pending_def callback_delivered_def
      Let_def split: option.splits)

lemma delivery_step_failed:
  assumes env: "undisturbed env" and job: "job_at dl jid = Some job" "deliverable job"
    and ans: "answers env attempt r" "\<not> send_ok r"
  shows "\<exists>dl' job'. deliver_loop env jid attempt (Suc left) dl = deliver_loop env jid (Suc attempt) left dl' \<and>
    job_at dl' jid = Some job' \<and> deliverable job'"
proof -
  have id: "other env n reg = reg" for n reg using env by (simp add: undisturbed_def)
  from begin_deliverable [OF env job(1) [unfolded job_at_def] job(2)] obtain reg job1 where
    b: "begin_callback_attempt (env_db env (2 * attempt)) (env_now env (2 * attempt)) jid (dl_registry dl) = (reg, Some job1)"
    "jobs (inner reg) jid = Some job1" "deliverable job1" by blast
  then obtain url where url: "callback_url job1 = Some url" by (auto simp: deliverable_def)
  let ?dl1 = "dl\<lparr>dl_registry := reg, dl_sent := dl_sent dl @ [(url, job1)]\<rparr>"
  have fl: "\<exists>job'. job_at (delivery_failed env c jid job1 st e l ?dl1) jid = Some job' \<and> deliverable job'" for c st e l
    using failure_deliverable [OF b(2,3)] by (simp add: delivery_failed_def job_at_def id)
  have s: "send env attempt url job1 = r" using ans(1) by (simp add: answers_def)
  show ?thesis
  proof (cases r)
    case (Responded st ok)
    then show ?thesis
      using b(1) url s ans(2) fl [of "2 * attempt + 1" "Some st" None st]
      by (auto simp: id send_ok_def Let_def)
  next
    case (Send_Error e)
    then show ?thesis
      using b(1) url s fl [of "2 * attempt + 1" None "Some e" 0] by (auto simp: id Let_def)
  next
    case Timed_Out
    then show ?thesis
      using b(1) url s fl [of "2 * attempt + 1" None "Some ''callback timed out''" 0] by (auto simp: id Let_def)
  qed
qed

lemma delivery_step_ok:
  assumes env: "undisturbed env" and job: "job_at dl jid = Some job" "deliverable job"
    and ans: "answers env attempt r" "send_ok r"
  shows "\<exists>job'. job_at (deliver_loop env jid attempt (Suc left) dl) jid = Some job' \<and> callback_delivered job'"
proof -
  have id: "other env n reg = reg" for n reg using env by (simp add: undisturbed_def)
  from begin_deliverable [OF env job(1) [unfolded job_at_def] job(2)] obtain reg job1 where
    b: "begin_callback_attempt (env_db env (2 * attempt)) (env_now env (2 * attempt)) jid (dl_registry dl) = (reg, Some job1)"
    "jobs (inner reg) jid = Some job1" "deliverable job1" by blast
  then obtain url where url: "callback_url job1 = Some url" by (auto simp: deliverable_def)
  obtain st where "r = Responded st True" using ans(2) by (cases r) (auto simp: send_ok_def)
  then have "send env attempt url job1 = Responded st True" using ans(1) by (simp add: answers_def)
  then show ?thesis
    using b(1) url success_delivered [OF b(2,3)] by (simp add: id Let_def job_at_def)
qed

lemma deliver_loop_result:
  assumes env: "undisturbed env"
    and ans: "\<And>n. attempt \<le> n \<Longrightarrow> n < attempt + left \<Longrightarrow> answers env n (rs n)"
    and "job_at dl jid = Some job" "deliverable job"
  shows "\<exists>job'. job_at (deliver_loop env jid attempt left dl) jid = Some job' \<and>
    (if \<exists>n. attempt \<le> n \<and> n < attempt + left \<and> send_ok (rs n) then callback_delivered job' else deliverable job')"
  using ans assms(3,4)
proof (induction left arbitrary: attempt dl job)
  case (Suc left)
  note now = Suc.prems(1) [of attempt, simplified]
  show ?case
  proof (cases "send_ok (rs attempt)")
    case True
    then show ?thesis
      using delivery_step_ok [OF env Suc.prems(2,3) now True, of left] by auto
  next
    case False
    from delivery_step_failed [OF env Suc.prems(2,3) now False, of left] obtain dl' job' where
      l: "deliver_loop env jid attempt (Suc left) dl = deliver_loop env jid (Suc attempt) left dl'"
      "job_at dl' jid = Some job'" "deliverable job'" by blast
    have "(\<exists>n. attempt \<le> n \<and> n < attempt + Suc left \<and> send_ok (rs n)) \<longleftrightarrow>
        (\<exists>n. Suc attempt \<le> n \<and> n < Suc attempt + left \<and> send_ok (rs n))"
      using False by (metis Suc_leD Suc_leI add_Suc add_Suc_right le_neq_implies_less)
    then show ?thesis
      using Suc.IH [of "Suc attempt" dl' job'] Suc.prems(1) l by simp
  qed
qed auto

text \<open>A delivery that nothing disturbs marks the callback delivered exactly when one of the
  \<open>max(1, max_attempts)\<close> attempts is answered with success; if none is, the callback is still
  pending, so the recovery loop will dispatch it again.\<close>
lemma delivery_outcome:
  assumes env: "undisturbed env" and job: "job_at dl jid = Some job" "deliverable job"
    and ans: "\<And>n. answers env n (rs n)" and m: "m = max (cp_max_attempts policy) 1"
  shows "\<exists>job'. job_at (deliver_callback env policy jid dl) jid = Some job' \<and>
    (if \<exists>n \<in> {1..m}. send_ok (rs n) then callback_delivered job' else deliverable job')"
proof -
  have "(\<exists>n. 1 \<le> n \<and> n < 1 + m \<and> send_ok (rs n)) \<longleftrightarrow> (\<exists>n \<in> {1..m}. send_ok (rs n))" by auto
  then show ?thesis
    using deliver_loop_result [OF env ans job, of 1 m] by (simp add: deliver_callback_def m)
qed

definition ex_env :: "(nat, unit) delivery_env" where
  "ex_env = \<lparr>send = (\<lambda>n _ _. if n = 2 then Responded 200 True else Timed_Out), env_now = (\<lambda>n. 60 + n),
     other = (\<lambda>_ reg. reg), env_db = (\<lambda>_. ex_db)\<rparr>"

definition ex_delivery :: "(nat, unit) delivery" where
  "ex_delivery = \<lparr>dl_registry = ex_reg ex_complete [], dl_metrics = metrics_default, dl_sent = []\<rparr>"

end
