(* ===== verification/Workers.thy ===== *)
theory Workers
  imports Job_Types
begin

text \<open>
  The worker registry, \<open>src/src/workers.rs\<close>. Every method of \<open>WorkerRegistry\<close> takes the lock for
  its whole body, so it is one function of the registry. The \<open>HashMap\<close> of workers is an
  association list. A call reads the clocks at most once here: \<open>clock\<close> has the wall clock
  (nanoseconds since the Unix epoch, possibly before it) and the monotonic clock (nanoseconds).
\<close>

section \<open>Data\<close>

record clock =
  wall :: int
  mono :: nat

record register_worker_request =
  rw_id :: string
  rw_endpoint_url :: string
  rw_node_id :: "string option"
  rw_pool :: string
  rw_job_types :: "job_kind list"
  rw_max_concurrent_jobs :: "nat option"
  rw_available_vram_mb :: "nat option"

record worker_snapshot =
  ws_id :: string
  ws_endpoint_url :: string
  ws_node_id :: "string option"
  ws_pool :: string
  ws_job_types :: "job_kind list"
  ws_max_concurrent_jobs :: "nat option"
  ws_available_vram_mb :: "nat option"
  ws_in_flight_jobs :: nat
  ws_available_job_slots :: "nat option"
  ws_registered_at :: nat
  ws_last_seen :: nat
  ws_age_seconds :: rat
  ws_stale :: bool
  ws_draining :: bool

record worker_availability_snapshot =
  wa_job_type :: string
  wa_status :: string
  wa_count :: nat

record worker_utilization_snapshot =
  wu_worker_id :: string
  wu_node_id :: "string option"
  wu_in_flight_jobs :: nat
  wu_max_concurrent_jobs :: "nat option"
  wu_available_job_slots :: "nat option"

datatype acquire_worker_slot_result =
    Acquired worker_snapshot
  | AtCapacity worker_snapshot
  | Acquire_Draining worker_snapshot
  | Acquire_Stale worker_snapshot
  | Acquire_NotFound

datatype deregister_worker_result =
    Dereg_Removed
  | Dereg_Draining worker_snapshot
  | Dereg_NotFound

record worker_entry =
  we_id :: string
  we_endpoint_url :: string
  we_node_id :: "string option"
  we_pool :: string
  we_job_types :: "job_kind list"
  we_max_concurrent_jobs :: "nat option"
  we_available_vram_mb :: "nat option"
  in_flight_jobs :: nat
  draining :: bool
  registered_at :: int
  last_seen_at :: int
  observed_at :: nat

record worker_registry =
  workers :: "(string \<times> worker_entry) list"
  stale_after :: nat

definition worker_registry_new :: "nat \<Rightarrow> worker_registry" where
  "worker_registry_new stale = \<lparr>workers = [], stale_after = stale\<rparr>"

definition worker_registry_default :: worker_registry where
  "worker_registry_default = worker_registry_new (30 * 10 ^ 9)"

definition default_worker_pool :: string where
  "default_worker_pool = ''default''"

section \<open>Validation and snapshots\<close>

definition validate_worker :: "clock \<Rightarrow> register_worker_request \<Rightarrow> string + worker_entry" where
  "validate_worker clk request =
     (let wid = trim (rw_id request) in
      if wid = [] then Inl ''worker id cannot be empty''
      else
        let endpoint_url = trim (rw_endpoint_url request) in
        if endpoint_url = [] then Inl ''endpoint_url cannot be empty''
        else if \<not> (starts_with endpoint_url ''http://'' \<or> starts_with endpoint_url ''https://'')
        then Inl ''endpoint_url must start with http:// or https://''
        else if rw_job_types request = [] then Inl ''worker must support at least one job type''
        else if rw_max_concurrent_jobs request = Some 0
        then Inl ''max_concurrent_jobs must be greater than zero''
        else
          let node_id = (case rw_node_id request of
                None \<Rightarrow> None
              | Some value \<Rightarrow> if trim value = [] then None else Some (trim value));
              pool = trim (rw_pool request)
          in if pool = [] then Inl ''worker pool cannot be empty''
             else Inr \<lparr>we_id = wid, we_endpoint_url = endpoint_url, we_node_id = node_id,
                       we_pool = pool, we_job_types = rw_job_types request,
                       we_max_concurrent_jobs = rw_max_concurrent_jobs request,
                       we_available_vram_mb = rw_available_vram_mb request,
                       in_flight_jobs = 0, draining = False, registered_at = wall clk,
                       last_seen_at = wall clk, observed_at = mono clk\<rparr>)"

definition unix_ms_of :: "int \<Rightarrow> nat" where
  "unix_ms_of t = nat t div 10 ^ 6"

definition snapshot_from_entry :: "clock \<Rightarrow> nat \<Rightarrow> worker_entry \<Rightarrow> worker_snapshot" where
  "snapshot_from_entry clk stale entry =
     (let age = mono clk - observed_at entry;
          available_job_slots =
            (if draining entry then map_option (\<lambda>_. 0) (we_max_concurrent_jobs entry)
             else map_option (\<lambda>m. m - in_flight_jobs entry) (we_max_concurrent_jobs entry))
      in \<lparr>ws_id = we_id entry, ws_endpoint_url = we_endpoint_url entry,
          ws_node_id = we_node_id entry, ws_pool = we_pool entry,
          ws_job_types = we_job_types entry,
          ws_max_concurrent_jobs = we_max_concurrent_jobs entry,
          ws_available_vram_mb = we_available_vram_mb entry,
          ws_in_flight_jobs = in_flight_jobs entry,
          ws_available_job_slots = available_job_slots,
          ws_registered_at = unix_ms_of (registered_at entry),
          ws_last_seen = unix_ms_of (last_seen_at entry),
          ws_age_seconds = of_nat age / 10 ^ 9, ws_stale = (age \<ge> stale),
          ws_draining = draining entry\<rparr>)"

definition can_accept_work :: "worker_snapshot \<Rightarrow> bool" where
  "can_accept_work w \<longleftrightarrow> \<not> ws_stale w \<and> \<not> ws_draining w"

definition availability_status :: "worker_snapshot \<Rightarrow> string" where
  "availability_status w =
     (if ws_stale w then ''stale'' else if ws_draining w then ''draining'' else ''available'')"

section \<open>Operations\<close>

definition get_entry :: "worker_registry \<Rightarrow> string \<Rightarrow> worker_entry option" where
  "get_entry reg wid = map_of (workers reg) wid"

definition put_entry :: "string \<Rightarrow> worker_entry \<Rightarrow> worker_registry \<Rightarrow> worker_registry" where
  "put_entry wid entry reg = reg\<lparr>workers := AList.update wid entry (workers reg)\<rparr>"

definition register ::
  "clock \<Rightarrow> register_worker_request \<Rightarrow> worker_registry \<Rightarrow> worker_registry \<times> (string + worker_snapshot)" where
  "register clk request reg =
     (case validate_worker clk request of
        Inl e \<Rightarrow> (reg, Inl e)
      | Inr entry \<Rightarrow>
          let existing = get_entry reg (we_id entry);
              entry' = entry\<lparr>
                registered_at := (case existing of None \<Rightarrow> wall clk | Some old \<Rightarrow> registered_at old),
                in_flight_jobs := (case existing of None \<Rightarrow> 0 | Some old \<Rightarrow> in_flight_jobs old),
                draining := (case existing of None \<Rightarrow> False | Some old \<Rightarrow> draining old),
                last_seen_at := wall clk, observed_at := mono clk\<rparr>
          in (put_entry (we_id entry') entry' reg,
              Inr (snapshot_from_entry clk (stale_after reg) entry')))"

text \<open>The methods that change one worker through \<open>get_mut\<close> and return its snapshot.\<close>

definition modify_worker ::
  "clock \<Rightarrow> (worker_entry \<Rightarrow> worker_entry) \<Rightarrow> string \<Rightarrow> worker_registry
     \<Rightarrow> worker_registry \<times> worker_snapshot option" where
  "modify_worker clk f wid reg =
     (case get_entry reg wid of
        None \<Rightarrow> (reg, None)
      | Some worker \<Rightarrow>
          (put_entry wid (f worker) reg, Some (snapshot_from_entry clk (stale_after reg) (f worker))))"

definition heartbeat :: "clock \<Rightarrow> string \<Rightarrow> worker_registry \<Rightarrow> worker_registry \<times> worker_snapshot option" where
  "heartbeat clk = modify_worker clk (\<lambda>w. w\<lparr>last_seen_at := wall clk, observed_at := mono clk\<rparr>)"

definition get_worker :: "clock \<Rightarrow> string \<Rightarrow> worker_registry \<Rightarrow> worker_snapshot option" where
  "get_worker clk wid reg = map_option (snapshot_from_entry clk (stale_after reg)) (get_entry reg wid)"

definition try_acquire_slot ::
  "clock \<Rightarrow> string \<Rightarrow> worker_registry \<Rightarrow> worker_registry \<times> acquire_worker_slot_result" where
  "try_acquire_slot clk wid reg =
     (case get_entry reg wid of
        None \<Rightarrow> (reg, Acquire_NotFound)
      | Some worker \<Rightarrow>
          let snapshot = snapshot_from_entry clk (stale_after reg) worker in
          if ws_stale snapshot then (reg, Acquire_Stale snapshot)
          else if draining worker then (reg, Acquire_Draining snapshot)
          else if (case we_max_concurrent_jobs worker of
                     None \<Rightarrow> False | Some m \<Rightarrow> in_flight_jobs worker \<ge> m)
          then (reg, AtCapacity snapshot)
          else
            let worker' = worker\<lparr>in_flight_jobs := in_flight_jobs worker + 1\<rparr>
            in (put_entry wid worker' reg,
                Acquired (snapshot_from_entry clk (stale_after reg) worker')))"

definition release_slot :: "clock \<Rightarrow> string \<Rightarrow> worker_registry \<Rightarrow> worker_registry \<times> worker_snapshot option" where
  "release_slot clk = modify_worker clk (\<lambda>w. w\<lparr>in_flight_jobs := in_flight_jobs w - 1\<rparr>)"

definition drain :: "clock \<Rightarrow> string \<Rightarrow> worker_registry \<Rightarrow> worker_registry \<times> worker_snapshot option" where
  "drain clk = modify_worker clk (\<lambda>w. w\<lparr>draining := True\<rparr>)"

definition reactivate :: "clock \<Rightarrow> string \<Rightarrow> worker_registry \<Rightarrow> worker_registry \<times> worker_snapshot option" where
  "reactivate clk = modify_worker clk
     (\<lambda>w. w\<lparr>draining := False, last_seen_at := wall clk, observed_at := mono clk\<rparr>)"

definition deregister ::
  "clock \<Rightarrow> string \<Rightarrow> worker_registry \<Rightarrow> worker_registry \<times> deregister_worker_result" where
  "deregister clk wid reg =
     (case get_entry reg wid of
        None \<Rightarrow> (reg, Dereg_NotFound)
      | Some worker \<Rightarrow>
          if in_flight_jobs worker > 0 then
            let worker' = worker\<lparr>draining := True\<rparr>
            in (put_entry wid worker' reg,
                Dereg_Draining (snapshot_from_entry clk (stale_after reg) worker'))
          else (reg\<lparr>workers := AList.delete wid (workers reg)\<rparr>, Dereg_Removed))"

definition list_workers :: "clock \<Rightarrow> worker_registry \<Rightarrow> worker_snapshot list" where
  "list_workers clk reg =
     sort_key ws_id (map (\<lambda>(_, entry). snapshot_from_entry clk (stale_after reg) entry) (workers reg))"

definition job_type_rank :: "string \<Rightarrow> nat" where
  "job_type_rank s =
     (if s = ''vision_analysis'' then 0 else if s = ''embed_batch'' then 1
      else if s = ''index_build'' then 2 else if s = ''cluster'' then 3 else 4)"

definition worker_status_rank :: "string \<Rightarrow> nat" where
  "worker_status_rank s =
     (if s = ''available'' then 0 else if s = ''draining'' then 1 else if s = ''stale'' then 2 else 3)"

definition availability_step ::
  "worker_snapshot \<Rightarrow> worker_availability_snapshot list \<Rightarrow> worker_availability_snapshot list" where
  "availability_step worker snapshots =
     (let status = availability_status worker in
      fold (\<lambda>job_type.
        upsert (\<lambda>s. wa_job_type s = kind_as_str job_type \<and> wa_status s = status)
          (\<lambda>s. s\<lparr>wa_count := wa_count s + 1\<rparr>)
          \<lparr>wa_job_type = kind_as_str job_type, wa_status = status, wa_count = 1\<rparr>)
        (ws_job_types worker) snapshots)"

definition availability_snapshots :: "clock \<Rightarrow> worker_registry \<Rightarrow> worker_availability_snapshot list" where
  "availability_snapshots clk reg =
     sort_key (\<lambda>s. (job_type_rank (wa_job_type s), worker_status_rank (wa_status s)))
       (fold availability_step (list_workers clk reg) [])"

definition utilization_snapshots :: "clock \<Rightarrow> worker_registry \<Rightarrow> worker_utilization_snapshot list" where
  "utilization_snapshots clk reg =
     map (\<lambda>w. \<lparr>wu_worker_id = ws_id w, wu_node_id = ws_node_id w,
                wu_in_flight_jobs = ws_in_flight_jobs w,
                wu_max_concurrent_jobs = ws_max_concurrent_jobs w,
                wu_available_job_slots = ws_available_job_slots w\<rparr>)
       (list_workers clk reg)"

section \<open>Facts\<close>

text \<open>The slots in use, as the rest of the system sees the registry.\<close>

definition slots_used :: "worker_registry \<Rightarrow> string \<Rightarrow> nat" where
  "slots_used reg wid = (case get_entry reg wid of None \<Rightarrow> 0 | Some w \<Rightarrow> in_flight_jobs w)"

definition known :: "worker_registry \<Rightarrow> string \<Rightarrow> bool" where
  "known reg wid \<longleftrightarrow> get_entry reg wid \<noteq> None"

lemma snapshot_simps [simp]:
  "ws_id (snapshot_from_entry clk st w) = we_id w"
  "ws_pool (snapshot_from_entry clk st w) = we_pool w"
  "ws_node_id (snapshot_from_entry clk st w) = we_node_id w"
  "ws_job_types (snapshot_from_entry clk st w) = we_job_types w"
  "ws_in_flight_jobs (snapshot_from_entry clk st w) = in_flight_jobs w"
  "ws_max_concurrent_jobs (snapshot_from_entry clk st w) = we_max_concurrent_jobs w"
  "ws_stale (snapshot_from_entry clk st w) \<longleftrightarrow> mono clk - observed_at w \<ge> st"
  "ws_draining (snapshot_from_entry clk st w) = draining w"
  by (simp_all add: snapshot_from_entry_def Let_def)

lemma get_put_entry [simp]:
  "get_entry (put_entry k e reg) wid = (if wid = k then Some e else get_entry reg wid)"
  by (simp add: get_entry_def put_entry_def)

lemma stale_after_put [simp]: "stale_after (put_entry k e reg) = stale_after reg"
  by (simp add: put_entry_def)

lemma get_entry_delete [simp]:
  "get_entry (reg\<lparr>workers := AList.delete k (workers reg)\<rparr>) wid = (if wid = k then None else get_entry reg wid)"
  by (simp add: get_entry_def)

lemma modify_worker_simps:
  "get_entry (fst (modify_worker clk f k reg)) wid =
     (if wid = k then map_option f (get_entry reg k) else get_entry reg wid)"
  by (simp add: modify_worker_def split: option.split)

lemma register_entry:
  assumes "validate_worker clk request = Inr entry"
  shows "get_entry (fst (register clk request reg)) wid =
    (if wid = we_id entry
     then Some (entry\<lparr>
        registered_at := (case get_entry reg wid of None \<Rightarrow> wall clk | Some old \<Rightarrow> registered_at old),
        in_flight_jobs := slots_used reg wid,
        draining := (case get_entry reg wid of None \<Rightarrow> False | Some old \<Rightarrow> draining old),
        last_seen_at := wall clk, observed_at := mono clk\<rparr>)
     else get_entry reg wid)"
  using assms by (simp add: register_def Let_def slots_used_def)

lemma slots_register [simp]: "slots_used (fst (register clk request reg)) wid = slots_used reg wid"
proof (cases "validate_worker clk request")
  case (Inr entry)
  then show ?thesis by (simp add: slots_used_def register_entry)
qed (simp add: register_def)

lemma slots_modify:
  "(\<And>w. in_flight_jobs (f w) = in_flight_jobs w) \<Longrightarrow>
     slots_used (fst (modify_worker clk f k reg)) wid = slots_used reg wid"
  by (cases "get_entry reg k") (auto simp: slots_used_def modify_worker_simps)

lemma slots_heartbeat [simp]: "slots_used (fst (heartbeat clk k reg)) wid = slots_used reg wid"
  by (simp add: heartbeat_def slots_modify)

lemma slots_drain [simp]: "slots_used (fst (drain clk k reg)) wid = slots_used reg wid"
  by (simp add: drain_def slots_modify)

lemma slots_reactivate [simp]: "slots_used (fst (reactivate clk k reg)) wid = slots_used reg wid"
  by (simp add: reactivate_def slots_modify)

lemma slots_release:
  "slots_used (fst (release_slot clk k reg)) wid =
     (if wid = k then slots_used reg k - 1 else slots_used reg wid)"
  by (cases "get_entry reg k") (auto simp: slots_used_def release_slot_def modify_worker_simps)

lemma slots_acquire:
  "slots_used (fst (try_acquire_slot clk k reg)) wid =
     slots_used reg wid +
     (if wid = k then (case snd (try_acquire_slot clk k reg) of Acquired _ \<Rightarrow> 1 | _ \<Rightarrow> 0) else 0)"
  by (auto simp: slots_used_def try_acquire_slot_def Let_def split: option.split)

lemma slots_deregister [simp]: "slots_used (fst (deregister clk k reg)) wid = slots_used reg wid"
  by (auto simp: slots_used_def deregister_def Let_def split: option.split)

lemma acquired_id:
  "snd (try_acquire_slot clk wid reg) = Acquired s \<Longrightarrow>
     \<exists>w. get_entry reg wid = Some w \<and>
       s = snapshot_from_entry clk (stale_after reg) (w\<lparr>in_flight_jobs := in_flight_jobs w + 1\<rparr>) \<and>
       \<not> draining w \<and> mono clk - observed_at w < stale_after reg \<and>
       (case we_max_concurrent_jobs w of None \<Rightarrow> True | Some m \<Rightarrow> in_flight_jobs w < m)"
proof (cases "get_entry reg wid")
  case (Some w)
  then show "snd (try_acquire_slot clk wid reg) = Acquired s \<Longrightarrow> ?thesis"
    by (cases "we_max_concurrent_jobs w")
      (auto simp: try_acquire_slot_def Let_def split: if_splits)
qed (simp add: try_acquire_slot_def)

text \<open>Well-formed: distinct keys, each entry under its id, with the fields registration checks.\<close>

definition entry_ok :: "worker_entry \<Rightarrow> bool" where
  "entry_ok w \<longleftrightarrow> we_id w \<noteq> [] \<and> trim (we_id w) = we_id w \<and> we_pool w \<noteq> [] \<and> we_job_types w \<noteq> [] \<and>
     we_max_concurrent_jobs w \<noteq> Some 0 \<and>
     (starts_with (we_endpoint_url w) ''http://'' \<or> starts_with (we_endpoint_url w) ''https://'')"

definition workers_ok :: "worker_registry \<Rightarrow> bool" where
  "workers_ok reg \<longleftrightarrow> distinct (map fst (workers reg)) \<and>
     (\<forall>wid w. get_entry reg wid = Some w \<longrightarrow> we_id w = wid \<and> entry_ok w)"

lemma validate_entry_ok: "validate_worker clk request = Inr entry \<Longrightarrow> entry_ok entry"
  by (auto simp: validate_worker_def entry_ok_def Let_def split: if_splits)

lemma workers_ok_put:
  "workers_ok reg \<Longrightarrow> we_id e = k \<Longrightarrow> entry_ok e \<Longrightarrow> workers_ok (put_entry k e reg)"
  by (auto simp: workers_ok_def) (simp add: put_entry_def distinct_update)

lemma workers_ok_modify:
  assumes "workers_ok reg" "\<And>w. we_id (f w) = we_id w" "\<And>w. entry_ok w \<Longrightarrow> entry_ok (f w)"
  shows "workers_ok (fst (modify_worker clk f k reg))"
proof (cases "get_entry reg k")
  case (Some w)
  then have "we_id w = k" "entry_ok w" using assms(1) by (auto simp: workers_ok_def)
  then have "workers_ok (put_entry k (f w) reg)"
    using assms(2,3) by (intro workers_ok_put [OF assms(1)]) simp_all
  then show ?thesis using Some by (simp add: modify_worker_def)
qed (use assms in \<open>simp add: modify_worker_def\<close>)

lemma entry_ok_update:
  "entry_ok (w\<lparr>in_flight_jobs := n\<rparr>) = entry_ok w"
  "entry_ok (w\<lparr>registered_at := r\<rparr>) = entry_ok w"
  "entry_ok (w\<lparr>draining := d\<rparr>) = entry_ok w"
  "entry_ok (w\<lparr>last_seen_at := t, observed_at := o1\<rparr>) = entry_ok w"
  "entry_ok (w\<lparr>draining := d, last_seen_at := t, observed_at := o1\<rparr>) = entry_ok w"
  "entry_ok (w\<lparr>registered_at := r, in_flight_jobs := n, draining := d, last_seen_at := t, observed_at := o1\<rparr>) = entry_ok w"
  by (simp_all add: entry_ok_def)

lemma workers_ok_ops:
  assumes "workers_ok reg"
  shows "workers_ok (fst (register clk request reg))" "workers_ok (fst (heartbeat clk wid reg))"
    "workers_ok (fst (drain clk wid reg))" "workers_ok (fst (reactivate clk wid reg))"
    "workers_ok (fst (release_slot clk wid reg))" "workers_ok (fst (try_acquire_slot clk wid reg))"
    "workers_ok (fst (deregister clk wid reg))"
proof -
  show "workers_ok (fst (register clk request reg))"
  proof (cases "validate_worker clk request")
    case (Inr entry)
    then show ?thesis
      using validate_entry_ok [OF Inr] assms
      by (auto simp: register_def Let_def entry_ok_update intro!: workers_ok_put)
  qed (use assms in \<open>simp add: register_def\<close>)
  show "workers_ok (fst (heartbeat clk wid reg))" "workers_ok (fst (drain clk wid reg))"
    "workers_ok (fst (reactivate clk wid reg))" "workers_ok (fst (release_slot clk wid reg))"
    unfolding heartbeat_def drain_def reactivate_def release_slot_def
    using assms by (auto intro!: workers_ok_modify simp: entry_ok_update)
  have put: "workers_ok (put_entry wid e reg)"
    if "get_entry reg wid = Some w" "we_id e = we_id w" "entry_ok e = entry_ok w" for w e
    using that assms by (intro workers_ok_put) (auto simp: workers_ok_def)
  show "workers_ok (fst (try_acquire_slot clk wid reg))"
    using assms put by (auto simp: try_acquire_slot_def Let_def entry_ok_update split: option.split)
  show "workers_ok (fst (deregister clk wid reg))"
  proof (cases "get_entry reg wid")
    case (Some w)
    have "workers_ok (reg\<lparr>workers := AList.delete wid (workers reg)\<rparr>)"
      using assms by (auto simp: workers_ok_def) (simp add: distinct_delete)
    then show ?thesis
      using put [OF Some] Some by (simp add: deregister_def Let_def entry_ok_update)
  qed (use assms in \<open>simp add: deregister_def\<close>)
qed

text \<open>\<open>list\<close> shows each worker once, in the order of the ids.\<close>

lemma list_workers_ids:
  assumes "workers_ok reg"
  shows "map ws_id (list_workers clk reg) = sort (map fst (workers reg))"
proof -
  have "map ws_id (list_workers clk reg) =
      sort (map ws_id (map (\<lambda>(_, entry). snapshot_from_entry clk (stale_after reg) entry) (workers reg)))"
    unfolding list_workers_def by (simp add: sort_key_map_id)
  also have "map ws_id (map (\<lambda>(_, entry). snapshot_from_entry clk (stale_after reg) entry) (workers reg)) =
      map fst (workers reg)"
    using assms by (auto simp: workers_ok_def get_entry_def)
  finally show ?thesis .
qed

lemma set_list_workers:
  assumes "workers_ok reg"
  shows "s \<in> set (list_workers clk reg) \<longleftrightarrow>
    (\<exists>wid w. get_entry reg wid = Some w \<and> s = snapshot_from_entry clk (stale_after reg) w)"
proof -
  have "(wid, w) \<in> set (workers reg) \<longleftrightarrow> get_entry reg wid = Some w" for wid w
    using assms by (simp add: workers_ok_def get_entry_def)
  then show ?thesis by (force simp: list_workers_def image_iff)
qed

lemma sorted_list_workers: "workers_ok reg \<Longrightarrow> sorted_wrt (<) (map ws_id (list_workers clk reg))"
  unfolding list_workers_ids
  by (simp add: workers_ok_def strict_sorted_iff)

end
