(* ===== verification/Scheduler.thy ===== *)
theory Scheduler
  imports Callbacks Workers
begin

text \<open>
  The handlers of the async job API: those of \<open>src/src/scheduler.rs\<close>, and those of
  \<open>src/src/jobs.rs\<close> and \<open>src/src/workers.rs\<close> that use \<open>AppState\<close>. \<open>async_state\<close> is the part of
  \<open>AppState\<close> they share. A handler is the sequence of its calls; \<open>call_env\<close> gives what its
  \<open>n\<close>-th call reads: the wall clock in milliseconds, the worker clocks, and what the store
  answers. The interleaving of the calls of concurrent handlers is the subject of the theory
  \<open>Accounting\<close>.
\<close>

record ('v, 's) async_state =
  st_jobs :: "('v, 's) job_registry"
  st_workers :: worker_registry
  st_metrics :: routing_metrics
  st_dispatcher :: callback_dispatcher
  st_workload_pools :: workload_pool_policy
  st_worker_pool_ids :: "string list"
  st_strict_worker_pools :: bool
  st_lease_duration_ms :: nat

record ('v, 's) call_env =
  ce_now :: "nat \<Rightarrow> nat"
  ce_clock :: "nat \<Rightarrow> clock"
  ce_db :: "nat \<Rightarrow> ('v, 's) persist"

section \<open>Responses\<close>

datatype 'v body =
    No_Body
  | Text string
  | Job_Body "'v job_record"
  | Jobs_Body "'v job_record list"
  | Worker_Body worker_snapshot
  | Workers_Body "worker_snapshot list"
  | Assignment_Body "'v job_record" worker_snapshot
  | Pruned_Body job_prune_report

datatype 'v response = Resp nat "'v body" | Panicked string

section \<open>Shared steps\<close>

definition dispatch_job :: "string \<Rightarrow> ('v, 's) async_state \<Rightarrow> ('v, 's) async_state" where
  "dispatch_job jid st = st\<lparr>st_dispatcher := dispatch jid (st_dispatcher st)\<rparr>"

definition release_worker :: "clock \<Rightarrow> string \<Rightarrow> ('v, 's) async_state \<Rightarrow> ('v, 's) async_state" where
  "release_worker clk wid st = st\<lparr>st_workers := fst (release_slot clk wid (st_workers st))\<rparr>"

definition sweep_expired_leases ::
  "('v, 's) call_env \<Rightarrow> nat \<Rightarrow> ('v, 's) async_state \<Rightarrow> ('v, 's) async_state" where
  "sweep_expired_leases env n st =
     (case requeue_expired_leases (ce_db env n) (ce_now env n) (st_jobs st) of
        (reg, report) \<Rightarrow>
          let st1 = st\<lparr>st_jobs := reg\<rparr>;
              st2 = fold (release_worker (ce_clock env n)) (released_workers report) st1
          in fold (\<lambda>job. dispatch_job (job_id job)) (failed_jobs report) st2)"

definition prune_jobs_of ::
  "('v, 's) call_env \<Rightarrow> nat \<Rightarrow> ('v, 's) async_state \<Rightarrow> ('v, 's) async_state \<times> job_prune_report" where
  "prune_jobs_of env n st =
     (case prune_terminal_jobs (ce_db env n) (ce_now env n) (st_jobs st) of
        (reg, report) \<Rightarrow>
          (st\<lparr>st_jobs := reg, st_metrics := record_job_prune report (st_metrics st)\<rparr>, report))"

section \<open>Placement\<close>

definition compatible :: "workload_pool_policy \<Rightarrow> 'v job_record \<Rightarrow> worker_snapshot \<Rightarrow> bool" where
  "compatible workload_pools job worker \<longleftrightarrow>
     can_accept_work worker \<and> job_kind job \<in> set (ws_job_types worker) \<and>
     allows workload_pools (kind_as_str (job_kind job)) (ws_pool worker)"

definition preview_from_snapshots ::
  "'v job_record list \<Rightarrow> worker_snapshot list \<Rightarrow> workload_pool_policy
     \<Rightarrow> ('v job_record \<times> worker_snapshot) option" where
  "preview_from_snapshots queued_jobs ws workload_pools =
     find_map (\<lambda>job. map_option (\<lambda>w. (job, w)) (find (compatible workload_pools job) ws)) queued_jobs"

definition preview_next_assignment_with_policy ::
  "clock \<Rightarrow> ('v, 's) job_registry \<Rightarrow> worker_registry \<Rightarrow> workload_pool_policy
     \<Rightarrow> ('v job_record \<times> worker_snapshot) option" where
  "preview_next_assignment_with_policy clk reg wreg workload_pools =
     preview_from_snapshots (queued_jobs_by_priority reg) (list_workers clk wreg) workload_pools"

definition count_candidate_workers_for_job ::
  "worker_snapshot list \<Rightarrow> 'v job_record \<Rightarrow> workload_pool_policy \<Rightarrow> nat" where
  "count_candidate_workers_for_job ws job workload_pools =
     length (filter (compatible workload_pools job) ws)"

definition node_label :: "worker_snapshot \<Rightarrow> string" where
  "node_label w = (case ws_node_id w of None \<Rightarrow> [] | Some n \<Rightarrow> n)"

definition record_async_pool_selected ::
  "clock \<Rightarrow> worker_snapshot \<Rightarrow> 'v job_record \<Rightarrow> ('v, 's) async_state \<Rightarrow> ('v, 's) async_state" where
  "record_async_pool_selected clk worker job st =
     st\<lparr>st_metrics := record_async_pool_decision
         \<lparr>al_kind = kind_as_str (job_kind job), al_priority = priority_as_str (job_priority job),
          al_pool = ws_pool worker, al_worker = ws_id worker, al_node = node_label worker,
          al_outcome = ''selected''\<rparr>
         (count_candidate_workers_for_job (list_workers clk (st_workers st)) job (st_workload_pools st))
         0 (st_metrics st)\<rparr>"

definition blocked_by_kind_priority ::
  "worker_snapshot \<Rightarrow> workload_pool_policy \<Rightarrow> 'v job_record list \<Rightarrow> ((string \<times> string) \<times> nat) list" where
  "blocked_by_kind_priority worker workload_pools queued_jobs =
     fold (\<lambda>job m.
         if job_kind job \<in> set (ws_job_types worker) \<and>
            \<not> allows workload_pools (kind_as_str (job_kind job)) (ws_pool worker)
         then
           let k = (kind_as_str (job_kind job), priority_as_str (job_priority job))
           in btree_insert k ((case map_of m k of None \<Rightarrow> 0 | Some n \<Rightarrow> n) + 1) m
         else m) queued_jobs []"

definition record_async_pool_no_compatible_job ::
  "worker_snapshot \<Rightarrow> ('v, 's) async_state \<Rightarrow> ('v, 's) async_state" where
  "record_async_pool_no_compatible_job worker st =
     (let blocked = blocked_by_kind_priority worker (st_workload_pools st)
                      (queued_jobs_by_priority (st_jobs st));
          labels = (\<lambda>kind prio. \<lparr>al_kind = kind, al_priority = prio, al_pool = ws_pool worker,
              al_worker = ws_id worker, al_node = node_label worker, al_outcome = ''no_compatible_job''\<rparr>)
      in if blocked = [] then
           st\<lparr>st_metrics := record_async_pool_decision (labels [] []) 0 0 (st_metrics st)\<rparr>
         else
           st\<lparr>st_metrics := fold (\<lambda>((kind, prio), n) m. record_async_pool_decision (labels kind prio) 0 n m)
               blocked (st_metrics st)\<rparr>)"

section \<open>Handlers of the worker protocol\<close>

definition preview_next_assignment_handler ::
  "('v, 's) call_env \<Rightarrow> ('v, 's) async_state \<Rightarrow> 'v response" where
  "preview_next_assignment_handler env st =
     (case preview_next_assignment_with_policy (ce_clock env 0) (st_jobs st) (st_workers st)
             (st_workload_pools st) of
        Some (job, worker) \<Rightarrow> Resp 200 (Assignment_Body job worker)
      | None \<Rightarrow> Resp 204 No_Body)"

definition claim_worker_job_handler ::
  "('v, 's) call_env \<Rightarrow> string \<Rightarrow> ('v, 's) async_state \<Rightarrow> ('v, 's) async_state \<times> 'v response" where
  "claim_worker_job_handler env worker_id st0 =
     (let st = sweep_expired_leases env 0 st0 in
      case try_acquire_slot (ce_clock env 1) worker_id (st_workers st) of
        (wreg, AtCapacity _) \<Rightarrow> (st\<lparr>st_workers := wreg\<rparr>, Resp 409 (Text ''worker is at capacity''))
      | (wreg, Acquire_Draining _) \<Rightarrow> (st\<lparr>st_workers := wreg\<rparr>, Resp 409 (Text ''worker is draining''))
      | (wreg, Acquire_Stale _) \<Rightarrow> (st\<lparr>st_workers := wreg\<rparr>, Resp 409 (Text ''worker is stale''))
      | (wreg, Acquire_NotFound) \<Rightarrow> (st\<lparr>st_workers := wreg\<rparr>, Resp 404 (Text ''worker not found''))
      | (wreg, Acquired worker) \<Rightarrow>
          let st1 = st\<lparr>st_workers := wreg\<rparr> in
          (case claim_next_for_worker_in_pool (ce_db env 2) (ce_now env 2) (ws_id worker)
                  (ws_job_types worker) (ws_pool worker) (st_workload_pools st1)
                  (st_lease_duration_ms st1) (st_jobs st1) of
             (reg, Some job) \<Rightarrow>
               (record_async_pool_selected (ce_clock env 3) worker job (st1\<lparr>st_jobs := reg\<rparr>),
                Resp 200 (Job_Body job))
           | (reg, None) \<Rightarrow>
               (record_async_pool_no_compatible_job worker
                  (release_worker (ce_clock env 3) (ws_id worker) (st1\<lparr>st_jobs := reg\<rparr>)),
                Resp 204 No_Body)))"

text \<open>The checks that the renew, complete and fail handlers start with.\<close>

definition live_worker ::
  "('v, 's) call_env \<Rightarrow> string \<Rightarrow> ('v, 's) async_state \<Rightarrow> 'v response + worker_snapshot" where
  "live_worker env worker_id st =
     (case get_worker (ce_clock env 0) worker_id (st_workers st) of
        None \<Rightarrow> Inl (Resp 404 (Text ''worker not found''))
      | Some worker \<Rightarrow>
          if ws_stale worker then Inl (Resp 409 (Text ''worker is stale'')) else Inr worker)"

definition renew_worker_job_lease_handler ::
  "('v, 's) call_env \<Rightarrow> string \<Rightarrow> string \<Rightarrow> ('v, 's) async_state \<Rightarrow> ('v, 's) async_state \<times> 'v response" where
  "renew_worker_job_lease_handler env worker_id jid st0 =
     (case live_worker env worker_id st0 of
        Inl r \<Rightarrow> (st0, r)
      | Inr worker \<Rightarrow>
          let st = sweep_expired_leases env 1 st0 in
          (case renew_lease (ce_db env 2) (ce_now env 2) jid (ws_id worker)
                  (st_lease_duration_ms st) (st_jobs st) of
             (reg, result) \<Rightarrow>
               (st\<lparr>st_jobs := reg\<rparr>,
                case result of
                  Renew_Renewed job \<Rightarrow> Resp 200 (Job_Body job)
                | Renew_NotRunning job \<Rightarrow> Resp 409 (Job_Body job)
                | Renew_LeaseNotHeld job \<Rightarrow> Resp 409 (Job_Body job)
                | Renew_Expired job \<Rightarrow> Resp 409 (Job_Body job)
                | Renew_NotFound \<Rightarrow> Resp 404 (Text ''job not found''))))"

definition complete_worker_job_handler ::
  "('v, 's) call_env \<Rightarrow> string \<Rightarrow> string \<Rightarrow> nat option \<Rightarrow> 'v \<Rightarrow> ('v, 's) async_state
     \<Rightarrow> ('v, 's) async_state \<times> 'v response" where
  "complete_worker_job_handler env worker_id jid att result st0 =
     (case live_worker env worker_id st0 of
        Inl r \<Rightarrow> (st0, r)
      | Inr worker \<Rightarrow>
          let st = sweep_expired_leases env 1 st0 in
          (case complete_lease (ce_db env 2) (ce_now env 2) jid (ws_id worker) att result (st_jobs st) of
             (reg, outcome) \<Rightarrow>
               let st1 = st\<lparr>st_jobs := reg\<rparr> in
               (case outcome of
                  Finish_Completed job \<Rightarrow>
                    (dispatch_job (job_id job) (release_worker (ce_clock env 3) (ws_id worker) st1),
                     Resp 200 (Job_Body job))
                | Finish_IdempotentCompleted job \<Rightarrow> (st1, Resp 200 (Job_Body job))
                | Finish_NotRunning job \<Rightarrow> (st1, Resp 409 (Job_Body job))
                | Finish_LeaseNotHeld job \<Rightarrow> (st1, Resp 409 (Job_Body job))
                | Finish_Expired job \<Rightarrow> (st1, Resp 409 (Job_Body job))
                | Finish_NotFound \<Rightarrow> (st1, Resp 404 (Text ''job not found''))
                | _ \<Rightarrow> (st1, Panicked ''completion cannot requeue or fail a job''))))"

definition fail_worker_job_handler ::
  "('v, 's) call_env \<Rightarrow> string \<Rightarrow> string \<Rightarrow> nat option \<Rightarrow> string \<Rightarrow> bool \<Rightarrow> ('v, 's) async_state
     \<Rightarrow> ('v, 's) async_state \<times> 'v response" where
  "fail_worker_job_handler env worker_id jid att err retry st0 =
     (case live_worker env worker_id st0 of
        Inl r \<Rightarrow> (st0, r)
      | Inr worker \<Rightarrow>
          if trim err = [] then (st0, Resp 400 (Text ''error cannot be empty''))
          else
            let st = sweep_expired_leases env 1 st0 in
            (case fail_lease (ce_db env 2) (ce_now env 2) jid (ws_id worker) att
                    \<lparr>message = trim err, retryable = retry\<rparr> (st_jobs st) of
               (reg, outcome) \<Rightarrow>
                 let st1 = st\<lparr>st_jobs := reg\<rparr> in
                 (case outcome of
                    Finish_Requeued job \<Rightarrow>
                      (release_worker (ce_clock env 3) (ws_id worker) st1, Resp 200 (Job_Body job))
                  | Finish_Failed job \<Rightarrow>
                      (dispatch_job (job_id job) (release_worker (ce_clock env 3) (ws_id worker) st1),
                       Resp 200 (Job_Body job))
                  | Finish_IdempotentFailed job \<Rightarrow> (st1, Resp 200 (Job_Body job))
                  | Finish_NotRunning job \<Rightarrow> (st1, Resp 409 (Job_Body job))
                  | Finish_LeaseNotHeld job \<Rightarrow> (st1, Resp 409 (Job_Body job))
                  | Finish_Expired job \<Rightarrow> (st1, Resp 409 (Job_Body job))
                  | Finish_NotFound \<Rightarrow> (st1, Resp 404 (Text ''job not found''))
                  | _ \<Rightarrow> (st1, Panicked ''failure cannot complete a job''))))"

section \<open>Handlers of the job API\<close>

definition submit_job ::
  "('v, 's) call_env \<Rightarrow> 'v submit_job_request \<Rightarrow> ('v, 's) async_state \<Rightarrow> ('v, 's) async_state \<times> 'v response" where
  "submit_job env request st =
     (case submit (ce_db env 0) (ce_now env 0) request (st_jobs st) of
        (reg, Inr job) \<Rightarrow> (st\<lparr>st_jobs := reg\<rparr>, Resp 202 (Job_Body job))
      | (reg, Inl e) \<Rightarrow> (st\<lparr>st_jobs := reg\<rparr>, Resp 400 (Text e)))"

definition list_jobs_handler :: "('v, 's) async_state \<Rightarrow> 'v response" where
  "list_jobs_handler st = Resp 200 (Jobs_Body (list_jobs (st_jobs st)))"

definition prune_jobs ::
  "('v, 's) call_env \<Rightarrow> ('v, 's) async_state \<Rightarrow> ('v, 's) async_state \<times> 'v response" where
  "prune_jobs env st = (case prune_jobs_of env 0 st of (st', report) \<Rightarrow> (st', Resp 200 (Pruned_Body report)))"

definition get_job :: "string \<Rightarrow> ('v, 's) async_state \<Rightarrow> 'v response" where
  "get_job jid st =
     (case get_job_record jid (st_jobs st) of
        Some job \<Rightarrow> Resp 200 (Job_Body job)
      | None \<Rightarrow> Resp 404 (Text ''job not found''))"

definition cancel_job ::
  "('v, 's) call_env \<Rightarrow> string \<Rightarrow> ('v, 's) async_state \<Rightarrow> ('v, 's) async_state \<times> 'v response" where
  "cancel_job env jid st =
     (case cancel (ce_db env 0) (ce_now env 0) jid (st_jobs st) of
        (reg, result) \<Rightarrow>
          let st1 = st\<lparr>st_jobs := reg\<rparr> in
          (case result of
             Cancel_Cancelled job \<Rightarrow>
               (dispatch_job (job_id job)
                  (case job_lease job of
                     None \<Rightarrow> st1 | Some lease \<Rightarrow> release_worker (ce_clock env 1) (lease_worker_id lease) st1),
                Resp 200 (Job_Body job))
           | Cancel_AlreadyTerminal job \<Rightarrow>
               (st1, if job_status job = Cancelled then Resp 200 (Job_Body job) else Resp 409 (Job_Body job))
           | Cancel_NotFound \<Rightarrow> (st1, Resp 404 (Text ''job not found''))))"

section \<open>Handlers of the worker API\<close>

definition register_worker ::
  "('v, 's) call_env \<Rightarrow> register_worker_request \<Rightarrow> ('v, 's) async_state \<Rightarrow> ('v, 's) async_state \<times> 'v response" where
  "register_worker env request st =
     (let pool = trim (rw_pool request) in
      if st_strict_worker_pools st \<and> \<not> list_ex (\<lambda>configured. configured = pool) (st_worker_pool_ids st)
      then (st, Resp 400 (Text (''worker pool '' @ quoted pool @ '' is not configured'')))
      else
        (case register (ce_clock env 0) request (st_workers st) of
           (wreg, Inr worker) \<Rightarrow> (st\<lparr>st_workers := wreg\<rparr>, Resp 200 (Worker_Body worker))
         | (wreg, Inl e) \<Rightarrow> (st\<lparr>st_workers := wreg\<rparr>, Resp 400 (Text e))))"

text \<open>The handlers that pass one call through.\<close>

definition worker_call ::
  "(worker_registry \<Rightarrow> worker_registry \<times> worker_snapshot option) \<Rightarrow> ('v, 's) async_state
     \<Rightarrow> ('v, 's) async_state \<times> 'v response" where
  "worker_call f st =
     (case f (st_workers st) of
        (wreg, Some worker) \<Rightarrow> (st\<lparr>st_workers := wreg\<rparr>, Resp 200 (Worker_Body worker))
      | (wreg, None) \<Rightarrow> (st\<lparr>st_workers := wreg\<rparr>, Resp 404 (Text ''worker not found'')))"

definition heartbeat_worker ::
  "('v, 's) call_env \<Rightarrow> string \<Rightarrow> ('v, 's) async_state \<Rightarrow> ('v, 's) async_state \<times> 'v response" where
  "heartbeat_worker env wid = worker_call (heartbeat (ce_clock env 0) wid)"

definition drain_worker ::
  "('v, 's) call_env \<Rightarrow> string \<Rightarrow> ('v, 's) async_state \<Rightarrow> ('v, 's) async_state \<times> 'v response" where
  "drain_worker env wid = worker_call (drain (ce_clock env 0) wid)"

definition reactivate_worker ::
  "('v, 's) call_env \<Rightarrow> string \<Rightarrow> ('v, 's) async_state \<Rightarrow> ('v, 's) async_state \<times> 'v response" where
  "reactivate_worker env wid = worker_call (reactivate (ce_clock env 0) wid)"

definition deregister_worker ::
  "('v, 's) call_env \<Rightarrow> string \<Rightarrow> ('v, 's) async_state \<Rightarrow> ('v, 's) async_state \<times> 'v response" where
  "deregister_worker env wid st =
     (case deregister (ce_clock env 0) wid (st_workers st) of
        (wreg, Dereg_Removed) \<Rightarrow> (st\<lparr>st_workers := wreg\<rparr>, Resp 204 No_Body)
      | (wreg, Dereg_Draining worker) \<Rightarrow> (st\<lparr>st_workers := wreg\<rparr>, Resp 202 (Worker_Body worker))
      | (wreg, Dereg_NotFound) \<Rightarrow> (st\<lparr>st_workers := wreg\<rparr>, Resp 404 (Text ''worker not found'')))"

definition list_workers_handler :: "('v, 's) call_env \<Rightarrow> ('v, 's) async_state \<Rightarrow> 'v response" where
  "list_workers_handler env st = Resp 200 (Workers_Body (list_workers (ce_clock env 0) (st_workers st)))"

end
