(* ===== verification/Accounting.thy ===== *)
theory Accounting
  imports Scheduler Jobs_Finish
begin

text \<open>
  Worker slots against leases, with the calls of concurrent handlers interleaved. A handler of
  \<open>src/src/scheduler.rs\<close> takes a slot before it claims a job and gives slots back after the job
  registry has ended a lease; between two calls any other call may happen. A state of the ledger
  is both registries and, per worker, how many claims hold a slot without a job yet
  (\<open>pend_claim\<close>) and how many releases are still to be made (\<open>pend_release\<close>). Here the store accepts
  every write; what happens when it does not is shown in \<open>Scheduler_Props\<close>.
\<close>

section \<open>The interface to the slot counters\<close>

locale slot_registry =
  fixes slots :: "'r \<Rightarrow> 'w \<Rightarrow> nat"
    and take_slot :: "'w \<Rightarrow> 'r \<Rightarrow> 'r option"
    and give_back :: "'w \<Rightarrow> 'r \<Rightarrow> 'r"
  assumes slots_take: "take_slot k r = Some r' \<Longrightarrow> slots r' w = slots r w + (if w = k then 1 else 0)"
    and slots_give: "slots (give_back k r) w = (if w = k then slots r w - 1 else slots r w)"
begin

lemma balanced_take:
  assumes "\<And>w. slots r w = held w" "take_slot k r = Some r'"
  shows "slots r' w = (held(k := held k + 1)) w"
  using assms(1) slots_take [OF assms(2)] by simp

lemma balanced_give:
  assumes "\<And>w. slots r w = held w" "0 < held k"
  shows "slots (give_back k r) w = (held(k := held k - 1)) w"
  using assms slots_give by simp

lemma slots_give_all:
  "slots (fold give_back ks r) w = slots r w - count_list ks w"
  by (induction ks arbitrary: r) (auto simp: slots_give)

end

interpretation wr: slot_registry slots_used
  "\<lambda>wid reg. case try_acquire_slot clk wid reg of (reg', Acquired _) \<Rightarrow> Some reg' | _ \<Rightarrow> None"
  "\<lambda>wid reg. fst (release_slot clk wid reg)" for clk
proof unfold_locales
  fix k r r' w
  assume "(case try_acquire_slot clk k r of (reg', Acquired _) \<Rightarrow> Some reg' | _ \<Rightarrow> None) = Some r'"
  then obtain s where "try_acquire_slot clk k r = (r', Acquired s)"
    by (auto split: prod.splits acquire_worker_slot_result.splits)
  then show "slots_used r' w = slots_used r w + (if w = k then 1 else 0)"
    using slots_acquire [of clk k r w] by simp
qed (simp add: slots_release)

section \<open>Leases per worker\<close>

definition leased_to :: "string \<Rightarrow> 'v job_record \<Rightarrow> bool" where
  "leased_to w job \<longleftrightarrow> job_status job = Running \<and> map_option lease_worker_id (job_lease job) = Some w"

definition leased :: "'v job_registry_inner \<Rightarrow> string \<Rightarrow> nat" where
  "leased i w = card {jid. job_sat (leased_to w) i jid}"

lemma finite_sat: "registry_inv i \<Longrightarrow> finite {jid. job_sat P i jid}"
proof -
  assume inv: "registry_inv i"
  have "{jid. job_sat P i jid} \<subseteq> set (job_order i)"
    using inv_order(2) [OF inv] by (auto simp: job_sat_def split: option.splits)
  then show ?thesis by (rule finite_subset) simp
qed

lemma leased_cong: "(\<And>jid. job_sat (leased_to w) i' jid = job_sat (leased_to w) i jid) \<Longrightarrow> leased i' w = leased i w"
  by (simp add: leased_def)

lemma leased_put_same:
  assumes "jobs i jid = Some job" "leased_to w job' = leased_to w job" "jobs i' = (jobs i)(jid \<mapsto> job')"
  shows "leased i' w = leased i w"
  using assms by (intro leased_cong) (auto simp: job_sat_def)

lemma leased_put_gain:
  assumes inv: "registry_inv i" and "jobs i jid = Some job" "\<not> leased_to w job" "leased_to w job'"
    "jobs i' = (jobs i)(jid \<mapsto> job')"
  shows "leased i' w = leased i w + 1"
proof -
  have "{k. job_sat (leased_to w) i' k} = insert jid {k. job_sat (leased_to w) i k}"
    using assms(2-) by (auto simp: job_sat_def)
  moreover have "\<not> job_sat (leased_to w) i jid" using assms(2,3) by (simp add: job_sat_def)
  ultimately show ?thesis using finite_sat [OF inv] by (simp add: leased_def)
qed

lemma leased_put_loss:
  assumes inv: "registry_inv i" and "jobs i jid = Some job" "leased_to w job" "\<not> leased_to w job'"
    "jobs i' = (jobs i)(jid \<mapsto> job')"
  shows "leased i' w = leased i w - 1" "0 < leased i w"
proof -
  have eq: "{k. job_sat (leased_to w) i' k} = {k. job_sat (leased_to w) i k} - {jid}"
    using assms(2-) by (auto simp: job_sat_def)
  have jid: "jid \<in> {k. job_sat (leased_to w) i k}" using assms(2,3) by (simp add: job_sat_def)
  show "leased i' w = leased i w - 1" unfolding leased_def eq using jid finite_sat [OF inv] by simp
  show "0 < leased i w" unfolding leased_def using jid finite_sat [OF inv] card_gt_0_iff by blast
qed

text \<open>The worker a job's running attempt is leased to, if any; every lease is one worker's.\<close>

definition lessee :: "'v job_record \<Rightarrow> string option" where
  "lessee job = (if job_status job = Running then map_option lease_worker_id (job_lease job) else None)"

lemma leased_to_lessee: "leased_to w job \<longleftrightarrow> lessee job = Some w"
  by (auto simp: leased_to_def lessee_def)

lemma leased_put:
  assumes inv: "registry_inv i" and job: "jobs i jid = Some job" and i': "jobs i' = (jobs i)(jid \<mapsto> job')"
  shows "leased i' w + (if lessee job = Some w then 1 else 0) =
    leased i w + (if lessee job' = Some w then 1 else 0)"
proof (cases "leased_to w job = leased_to w job'")
  case True
  then have "leased i' w = leased i w" using leased_put_same [OF job _ i'] by simp
  then show ?thesis using True by (simp add: leased_to_lessee)
next
  case False
  then show ?thesis
    using leased_put_gain [OF inv job _ _ i', of w] leased_put_loss [OF inv job _ _ i', of w]
    by (cases "leased_to w job") (auto simp: leased_to_lessee)
qed

lemma lessee_transitions [simp]:
  "lessee (claim_job now w d job) = Some w"
  "lessee (completed_job now w l r job) = None"
  "lessee (fail_job w n job) = None"
  "lessee (requeue_job job) = None"
  "lessee (cancelled_job now job) = None"
  "job_status job = Queued \<Longrightarrow> lessee job = None"
  "is_terminal (job_status job) \<Longrightarrow> lessee job = None"
  by (auto simp: lessee_def claim_job_def)

section \<open>The ledger\<close>

record ('v, 's) ledger =
  lg_jobs :: "('v, 's) job_registry"
  lg_workers :: worker_registry
  pend_claim :: "string \<Rightarrow> nat"
  pend_release :: "string \<Rightarrow> nat"

definition add_to :: "string \<Rightarrow> (string \<Rightarrow> nat) \<Rightarrow> string \<Rightarrow> nat" where
  "add_to w f = f(w := f w + 1)"

definition take_from :: "string \<Rightarrow> (string \<Rightarrow> nat) \<Rightarrow> string \<Rightarrow> nat" where
  "take_from w f = f(w := f w - 1)"

definition owes :: "string option \<Rightarrow> (string \<Rightarrow> nat) \<Rightarrow> string \<Rightarrow> nat" where
  "owes x f = (case x of None \<Rightarrow> f | Some w \<Rightarrow> add_to w f)"

text \<open>The worker a handler releases after each result.\<close>

definition released_by_finish :: "string \<Rightarrow> 'v finish_job_result \<Rightarrow> string option" where
  "released_by_finish w r =
     (case r of Finish_Completed _ \<Rightarrow> Some w | Finish_Requeued _ \<Rightarrow> Some w | Finish_Failed _ \<Rightarrow> Some w
      | _ \<Rightarrow> None)"

definition released_by_cancel :: "'v cancel_job_result \<Rightarrow> string option" where
  "released_by_cancel r =
     (case r of Cancel_Cancelled job \<Rightarrow> map_option lease_worker_id (job_lease job) | _ \<Rightarrow> None)"

inductive ledger_step :: "('v, 's) ledger \<Rightarrow> ('v, 's) ledger \<Rightarrow> bool" where
  lg_acquire:
    "try_acquire_slot clk w (lg_workers L) = (wreg, Acquired s) \<Longrightarrow>
     ledger_step L (L\<lparr>lg_workers := wreg, pend_claim := add_to w (pend_claim L)\<rparr>)"
| lg_claim:
    "0 < pend_claim L w \<Longrightarrow> store_ok db (lg_jobs L) \<Longrightarrow>
     claim_next_for_worker_in_pool db now w kinds pool policy d (lg_jobs L) = (reg, Some job) \<Longrightarrow>
     ledger_step L (L\<lparr>lg_jobs := reg, pend_claim := take_from w (pend_claim L)\<rparr>)"
| lg_no_claim:
    "0 < pend_claim L w \<Longrightarrow> store_ok db (lg_jobs L) \<Longrightarrow>
     claim_next_for_worker_in_pool db now w kinds pool policy d (lg_jobs L) = (reg, None) \<Longrightarrow>
     ledger_step L (L\<lparr>lg_jobs := reg, pend_claim := take_from w (pend_claim L),
                      pend_release := add_to w (pend_release L)\<rparr>)"
| lg_release:
    "0 < pend_release L w \<Longrightarrow> release_slot clk w (lg_workers L) = (wreg, s) \<Longrightarrow>
     ledger_step L (L\<lparr>lg_workers := wreg, pend_release := take_from w (pend_release L)\<rparr>)"
| lg_complete:
    "store_ok db (lg_jobs L) \<Longrightarrow> complete_lease db now jid w att result (lg_jobs L) = (reg, r) \<Longrightarrow>
     ledger_step L (L\<lparr>lg_jobs := reg, pend_release := owes (released_by_finish w r) (pend_release L)\<rparr>)"
| lg_fail:
    "store_ok db (lg_jobs L) \<Longrightarrow> fail_lease db now jid w att failure (lg_jobs L) = (reg, r) \<Longrightarrow>
     ledger_step L (L\<lparr>lg_jobs := reg, pend_release := owes (released_by_finish w r) (pend_release L)\<rparr>)"
| lg_cancel:
    "store_ok db (lg_jobs L) \<Longrightarrow> cancel db now jid (lg_jobs L) = (reg, c) \<Longrightarrow>
     ledger_step L (L\<lparr>lg_jobs := reg, pend_release := owes (released_by_cancel c) (pend_release L)\<rparr>)"
| lg_sweep:
    "store_ok db (lg_jobs L) \<Longrightarrow> requeue_expired_leases db now (lg_jobs L) = (reg, report) \<Longrightarrow>
     ledger_step L (L\<lparr>lg_jobs := reg,
       pend_release := (\<lambda>w. pend_release L w + count_list (released_workers report) w)\<rparr>)"
| lg_renew:
    "store_ok db (lg_jobs L) \<Longrightarrow> renew_lease db now jid w d (lg_jobs L) = (reg, x) \<Longrightarrow>
     ledger_step L (L\<lparr>lg_jobs := reg\<rparr>)"
| lg_submit:
    "store_ok db (lg_jobs L) \<Longrightarrow> submit db now request (lg_jobs L) = (reg, y) \<Longrightarrow>
     ledger_step L (L\<lparr>lg_jobs := reg\<rparr>)"
| lg_prune:
    "store_ok db (lg_jobs L) \<Longrightarrow> prune_terminal_jobs db now (lg_jobs L) = (reg, pr) \<Longrightarrow>
     ledger_step L (L\<lparr>lg_jobs := reg\<rparr>)"
| lg_begin_callback:
    "begin_callback_attempt db now jid (lg_jobs L) = (reg, z) \<Longrightarrow> ledger_step L (L\<lparr>lg_jobs := reg\<rparr>)"
| lg_callback_success:
    "record_callback_success db now jid http (lg_jobs L) = (reg, z) \<Longrightarrow> ledger_step L (L\<lparr>lg_jobs := reg\<rparr>)"
| lg_callback_failure:
    "record_callback_failure db jid st err (lg_jobs L) = (reg, z) \<Longrightarrow> ledger_step L (L\<lparr>lg_jobs := reg\<rparr>)"
| lg_register:
    "register clk rq (lg_workers L) = (wreg, v) \<Longrightarrow> ledger_step L (L\<lparr>lg_workers := wreg\<rparr>)"
| lg_heartbeat:
    "heartbeat clk w (lg_workers L) = (wreg, s2) \<Longrightarrow> ledger_step L (L\<lparr>lg_workers := wreg\<rparr>)"
| lg_drain:
    "drain clk w (lg_workers L) = (wreg, s2) \<Longrightarrow> ledger_step L (L\<lparr>lg_workers := wreg\<rparr>)"
| lg_reactivate:
    "reactivate clk w (lg_workers L) = (wreg, s2) \<Longrightarrow> ledger_step L (L\<lparr>lg_workers := wreg\<rparr>)"
| lg_deregister:
    "deregister clk w (lg_workers L) = (wreg, s3) \<Longrightarrow> ledger_step L (L\<lparr>lg_workers := wreg\<rparr>)"

inductive ledger_reachable :: "('v, 's) ledger \<Rightarrow> bool" where
  lr_start:
    "started reg \<Longrightarrow> workers wreg = [] \<Longrightarrow>
     ledger_reachable \<lparr>lg_jobs = reg, lg_workers = wreg, pend_claim = (\<lambda>_. 0), pend_release = (\<lambda>_. 0)\<rparr>"
| lr_step: "ledger_reachable L \<Longrightarrow> ledger_step L L' \<Longrightarrow> ledger_reachable L'"

section \<open>What each registry call does to the leases\<close>

lemma holder_lessee: "is_expired now job \<Longrightarrow> jobs i k = Some job \<Longrightarrow> lessee job = Some (holder i k)"
  by (auto simp: is_expired_def lessee_def holder_def split: option.splits)

lemma released_by_finish_simps [simp]:
  "released_by_finish w (Finish_Completed j) = Some w"
  "released_by_finish w (Finish_Requeued j) = Some w"
  "released_by_finish w (Finish_Failed j) = Some w"
  by (simp_all add: released_by_finish_def)

lemma running_lessee:
  "job_status job = Running \<Longrightarrow> job_lease job = Some l \<Longrightarrow> lessee job = Some (lease_worker_id l)"
  by (simp add: lessee_def)

lemma complete_result_cases:
  assumes "complete_lease db now jid w att result reg = (reg', r)"
  shows "r \<in> {Finish_NotFound} \<or> (\<exists>j. r \<in> {Finish_Completed j, Finish_IdempotentCompleted j,
    Finish_NotRunning j, Finish_LeaseNotHeld j, Finish_Expired j})"
proof (cases "jobs (inner reg) jid")
  case (Some job)
  then show ?thesis
    using assms by (cases "job_lease job") (auto simp: complete_lease_def Let_def split: if_splits dest!: commit_fst_snd)
qed (use assms in \<open>auto simp: complete_lease_def\<close>)

lemma fail_result_cases:
  assumes "fail_lease db now jid w att failure reg = (reg', r)"
  shows "r \<in> {Finish_NotFound} \<or> (\<exists>j. r \<in> {Finish_Requeued j, Finish_Failed j, Finish_IdempotentFailed j,
    Finish_NotRunning j, Finish_LeaseNotHeld j, Finish_Expired j})"
proof (cases "jobs (inner reg) jid")
  case (Some job)
  then show ?thesis
    using assms by (cases "job_lease job") (auto simp: fail_lease_def Let_def split: if_splits dest!: commit_fst_snd)
qed (use assms in \<open>auto simp: fail_lease_def\<close>)

lemma complete_leased:
  assumes inv: "registry_inv (inner reg)" and ok: "store_ok db reg"
    and call: "complete_lease db now jid w att result reg = (reg', r)"
  shows "leased (inner reg') w' + (if released_by_finish w r = Some w' then 1 else 0) = leased (inner reg) w'"
proof (cases "job_sat (may_finish now w att) (inner reg) jid")
  case True
  obtain job and l :: job_lease where j: "jobs (inner reg) jid = Some job" "job_ok job"
    "job_status job = Running" "job_lease job = Some l" "lease_worker_id l = w"
    "lease_attempt l = attempts job"
    "jobs (inner reg') = (jobs (inner reg))(jid \<mapsto> completed_job now w l result job)"
    "r = Finish_Completed (completed_job now w l result job)"
    by (rule complete_effect [OF inv ok True call])
  show ?thesis
    using leased_put [OF inv j(1,7), of w'] running_lessee [OF j(3,4)] j(5,8) by simp
next
  case False
  then have "reg' = reg" "\<And>j. r \<noteq> Finish_Completed j" using complete_refused [OF inv False call] by blast+
  then show ?thesis
    using complete_result_cases [OF call] by (auto simp: released_by_finish_def)
qed

lemma fail_leased:
  assumes inv: "registry_inv (inner reg)" and ok: "store_ok db reg"
    and call: "fail_lease db now jid w att failure reg = (reg', r)"
  shows "leased (inner reg') w' + (if released_by_finish w r = Some w' then 1 else 0) = leased (inner reg) w'"
proof (cases "job_sat (may_finish now w att) (inner reg) jid")
  case True
  obtain job job1 and l :: job_lease where j: "jobs (inner reg) jid = Some job" "job_ok job"
    "job_status job = Running" "job1 = failed_attempt now failure job"
    and eff: "if retryable failure \<and> attempts job < max_attempts job
     then jobs (inner reg') = (jobs (inner reg))(jid \<mapsto> requeue_job job1) \<and>
       queues (inner reg') = push_back (job_priority job) jid (queues (inner reg)) \<and>
       r = Finish_Requeued (requeue_job job1)
     else jobs (inner reg') = (jobs (inner reg))(jid \<mapsto> fail_job w (lease_attempt l) job1) \<and>
       queues (inner reg') = queues (inner reg) \<and> r = Finish_Failed (fail_job w (lease_attempt l) job1)"
    by (rule fail_effect [OF inv ok True call])
  have held: "lessee job = Some w"
    using True j(1,3) by (auto simp: job_sat_def may_finish_def lessee_def split: option.splits)
  show ?thesis
  proof (cases "retryable failure \<and> attempts job < max_attempts job")
    case c: True
    note e = eff [unfolded if_P [OF c]]
    show ?thesis using leased_put [OF inv j(1) conjunct1 [OF e], of w'] held e by simp
  next
    case c: False
    note e = eff [unfolded if_not_P [OF c]]
    show ?thesis using leased_put [OF inv j(1) conjunct1 [OF e], of w'] held e by simp
  qed
next
  case False
  then have "reg' = reg" "\<And>j. r \<noteq> Finish_Requeued j" "\<And>j. r \<noteq> Finish_Failed j"
    using fail_refused [OF inv False call] by blast+
  then show ?thesis
    using fail_result_cases [OF call] by (auto simp: released_by_finish_def)
qed

lemma cancel_leased:
  assumes inv: "registry_inv (inner reg)" and ok: "store_ok db reg"
    and call: "cancel db now jid reg = (reg', c)"
  shows "leased (inner reg') w' + (if released_by_cancel c = Some w' then 1 else 0) = leased (inner reg) w'"
proof (cases "jobs (inner reg) jid")
  case (Some job)
  show ?thesis
  proof (cases "is_terminal (job_status job)")
    case False
    let ?job = "cancelled_job now job"
    have "jobs (inner reg') = (jobs (inner reg))(jid \<mapsto> ?job)" "c = Cancel_Cancelled ?job"
      using call Some False store_ok_commit [OF ok] by (auto simp: cancel_def Let_def prod_eq_iff)
    moreover have "job_lease ?job = job_lease job" by (simp add: cancelled_job_def)
    moreover have "lessee job = map_option lease_worker_id (job_lease job)"
      using inv_job(2) [OF inv Some] False
      by (cases "job_status job") (auto simp: lessee_def job_ok_def)
    ultimately show ?thesis
      using leased_put [OF inv Some, of "inner reg'" ?job w'] by (simp add: released_by_cancel_def)
  qed (use call Some in \<open>auto simp: cancel_def released_by_cancel_def\<close>)
qed (use call in \<open>auto simp: cancel_def released_by_cancel_def\<close>)

lemma claim_leased:
  assumes inv: "registry_inv (inner reg)"
    and call: "claim_next_for_worker_in_pool db now w kinds pool policy d reg = (reg', Some job')"
  shows "leased (inner reg') w' = leased (inner reg) w' + (if w' = w then 1 else 0)"
proof -
  from call obtain jid job where j: "jobs (inner reg) jid = Some job" "claimable kinds pool policy job"
    "job' = claim_job now w d job" "jobs (inner reg') = (jobs (inner reg))(jid \<mapsto> job')"
    by (rule claim_event)
  have "lessee job = None" using j(2) by (simp add: claimable_def)
  then show ?thesis using leased_put [OF inv j(1,4), of w'] j(3) by auto
qed

lemma no_claim_same:
  assumes "store_ok db reg"
    and "claim_next_for_worker_in_pool db now w kinds pool policy d reg = (reg', None)"
  shows "reg' = reg"
  using assms(2)
  by (auto simp: claim_next_for_worker_in_pool_def Let_def prod_eq_iff store_ok_commit [OF assms(1)]
      split: option.splits)

lemma sweep_leased:
  assumes inv: "registry_inv (inner reg)"
    and call: "requeue_expired_leases db now reg = (reg', report)"
  shows "leased (inner reg') w + count_list (released_workers report) w = leased (inner reg) w"
proof -
  obtain i' where sw: "requeue_expired_leases_locked now (inner reg) = (i', report)" and i': "inner reg' = i'"
    using call by (auto simp: requeue_expired_leases_def split: prod.splits dest!: commit_fst_snd)
  let ?L = "{k. job_sat (leased_to w) (inner reg) k}"
  let ?E = "{k. expired_in now (inner reg) k \<and> holder (inner reg) k = w}"
  have in_L: "k \<in> ?L" if "k \<in> ?E" for k
    using that holder_lessee [of now _ "inner reg" k]
    by (auto simp: expired_in_def job_sat_def leased_to_lessee split: option.splits)
  have "leased_to w (expire_job now job) \<longleftrightarrow> leased_to w job \<and> \<not> is_expired now job" for job :: "'a job_record"
    by (cases "is_expired now job") (auto simp: leased_to_lessee lessee_def expire_job_status expire_job_def)
  then have "job_sat (leased_to w) i' k \<longleftrightarrow> k \<in> ?L \<and> \<not> expired_in now (inner reg) k" for k
    by (cases "jobs (inner reg) k") (simp_all add: job_sat_def expired_in_def sweep_eq(2) [OF inv sw])
  moreover have "k \<in> ?L \<and> \<not> expired_in now (inner reg) k \<longleftrightarrow> k \<in> ?L - ?E" for k
    using holder_lessee [of now _ "inner reg" k]
    by (auto simp: expired_in_def job_sat_def leased_to_lessee split: option.splits)
  ultimately have "{k. job_sat (leased_to w) i' k} = ?L - ?E" by blast
  moreover have "?E \<subseteq> ?L" using in_L by blast
  moreover note fin = finite_sat [OF inv, of "leased_to w"]
  ultimately have "leased i' w = leased (inner reg) w - card ?E"
    by (simp add: leased_def card_Diff_subset finite_subset)
  moreover have "card ?E \<le> leased (inner reg) w"
    unfolding leased_def using fin \<open>?E \<subseteq> ?L\<close> by (rule card_mono)
  ultimately show ?thesis
    using sweep_released [OF inv sw, of w] by (simp add: i')
qed

text \<open>The calls that touch no lease.\<close>

lemma leased_put_frame:
  assumes inv: "registry_inv i" and job: "jobs i jid = Some job" and same: "lessee job' = lessee job"
  shows "leased (put_job jid job' i) w = leased i w"
  using leased_put [OF inv job, of "put_job jid job' i" job' w] same by (simp split: if_splits)

lemma lessee_frame [simp]:
  "lessee (job\<lparr>job_callback := cb\<rparr>) = lessee job"
  "job_lease job = Some l \<Longrightarrow>
     lessee (job\<lparr>job_lease := Some (l\<lparr>lease_expires_at := e\<rparr>), updated_at := u\<rparr>) = lessee job"
  by (simp_all add: lessee_def)

lemma renew_leased:
  assumes inv: "registry_inv (inner reg)"
  shows "leased (inner (fst (renew_lease db now jid w d reg))) w' = leased (inner reg) w'"
proof (cases "jobs (inner reg) jid")
  case (Some job)
  then show ?thesis
    by (cases "job_lease job") (simp_all add: renew_lease_def Let_def leased_put_frame [OF inv])
qed (simp add: renew_lease_def)

lemma callback_leased:
  assumes inv: "registry_inv (inner reg)"
  shows "leased (inner (fst (begin_callback_attempt db now jid reg))) w = leased (inner reg) w"
    "leased (inner (fst (record_callback_success db now jid h reg))) w = leased (inner reg) w"
    "leased (inner (fst (record_callback_failure db jid st e reg))) w = leased (inner reg) w"
proof -
  have put: "leased (put_job jid (job\<lparr>job_callback := cb\<rparr>) (inner reg)) w = leased (inner reg) w"
    if "jobs (inner reg) jid = Some job" for job cb
    using that by (simp add: leased_put_frame [OF inv])
  show "leased (inner (fst (begin_callback_attempt db now jid reg))) w = leased (inner reg) w"
    by (cases "jobs (inner reg) jid"; cases "job_callback (the (jobs (inner reg) jid))")
      (simp_all add: begin_callback_attempt_def Let_def put)
  show "leased (inner (fst (record_callback_success db now jid h reg))) w = leased (inner reg) w"
    by (cases "jobs (inner reg) jid"; cases "job_callback (the (jobs (inner reg) jid))")
      (simp_all add: record_callback_success_def Let_def put)
  show "leased (inner (fst (record_callback_failure db jid st e reg))) w = leased (inner reg) w"
    by (cases "jobs (inner reg) jid"; cases "job_callback (the (jobs (inner reg) jid))")
      (simp_all add: record_callback_failure_def Let_def put)
qed

lemma submit_leased:
  assumes inv: "registry_inv (inner reg)"
  shows "leased (inner (fst (submit db now request reg))) w = leased (inner reg) w"
proof (rule submit_cases [OF inv, of db now request])
  fix url key
  assume s: "submit db now request reg = submit_new db now request url key reg"
  obtain i' job where ins: "insert_new_job now request url key (inner reg) = (i', job)" by fastforce
  have j: "jobs i' = (jobs (inner reg))(job_id_of (Suc (next_id (inner reg))) \<mapsto> job)" "job_status job = Queued"
    using ins by (auto simp: insert_new_job_def Let_def new_job_def split: option.splits)
  have "job_sat (leased_to w) i' k = job_sat (leased_to w) (inner reg) k" for k
    using j inv_fresh_id [OF inv] by (simp add: job_sat_def leased_to_def)
  then have "leased i' w = leased (inner reg) w" by (rule leased_cong)
  then show ?thesis by (simp add: s submit_new_def ins)
qed simp_all

lemma prune_leased:
  assumes inv: "registry_inv (inner reg)"
  shows "leased (inner (fst (prune_terminal_jobs db now reg))) w = leased (inner reg) w"
proof -
  obtain i' report where pr: "prune_terminal_jobs_locked now (retention_policy reg) (inner reg) = (i', report)"
    by fastforce
  have "job_sat (leased_to w) i' k = job_sat (leased_to w) (inner reg) k" for k
  proof (cases "k \<in> set (pruned_ids now (retention_policy reg) (inner reg))")
    case True
    then have "\<not> job_sat (leased_to w) (inner reg) k"
      using set_pruned_ids [OF True]
      by (auto simp: job_sat_def leased_to_lessee prunable_def split: option.splits)
    then show ?thesis by (simp add: job_sat_restrict [OF prune_eq(1) [OF inv pr]])
  qed (simp add: job_sat_restrict [OF prune_eq(1) [OF inv pr]])
  then have "leased i' w = leased (inner reg) w" by (rule leased_cong)
  then show ?thesis by (simp add: prune_terminal_jobs_def pr)
qed

section \<open>The balance\<close>

definition held :: "('v, 's) ledger \<Rightarrow> string \<Rightarrow> nat" where
  "held L w = leased (inner (lg_jobs L)) w + pend_claim L w + pend_release L w"

definition balanced :: "('v, 's) ledger \<Rightarrow> bool" where
  "balanced L \<longleftrightarrow> registry_inv (inner (lg_jobs L)) \<and> (\<forall>w. slots_used (lg_workers L) w = held L w)"

text \<open>Every step keeps the job registry well-formed: its job calls are steps of the registry.\<close>

lemma ledger_step_jobs:
  "ledger_step L L' \<Longrightarrow> lg_jobs L' = lg_jobs L \<or> (\<exists>e. registry_step (lg_jobs L) e (lg_jobs L'))"
  by (erule ledger_step.cases) (auto intro: registry_step.intros)

lemma ledger_step_inv:
  assumes "ledger_step L L'" "registry_inv (inner (lg_jobs L))"
  shows "registry_inv (inner (lg_jobs L'))"
  using ledger_step_jobs [OF assms(1)] registry_step_inv assms(2) by metis

lemma owes_simps: "owes x f w = f w + (if x = Some w then 1 else 0)"
  by (auto simp: owes_def add_to_def split: option.split)

lemma take_from_held: "0 < f k \<Longrightarrow> take_from k f w + (if w = k then 1 else 0) = f w"
  by (simp add: take_from_def)

lemma job_call_balanced:
  assumes "balanced L" "\<And>w. leased (inner reg) w + owed w = leased (inner (lg_jobs L)) w"
    and "\<And>w. pr w = pend_release L w + owed w"
  shows "slots_used (lg_workers (L\<lparr>lg_jobs := reg, pend_release := pr\<rparr>)) w =
    held (L\<lparr>lg_jobs := reg, pend_release := pr\<rparr>) w"
  using assms(1) assms(2) [of w] assms(3) [of w] by (simp add: balanced_def held_def)

lemma held_frame [simp]: "held (L\<lparr>lg_workers := x\<rparr>) w = held L w"
  by (simp add: held_def)

lemma ledger_step_slots:
  assumes step: "ledger_step L L'" and bal: "balanced L"
  shows "slots_used (lg_workers L') w0 = held L' w0"
proof -
  have inv: "registry_inv (inner (lg_jobs L))" and eq: "\<And>w. slots_used (lg_workers L) w = held L w"
    using bal by (simp_all add: balanced_def)
  from step show ?thesis
  proof cases
    case (lg_acquire clk w wreg s)
    have "slots_used wreg w0 = ((held L)(w := held L w + 1)) w0"
      by (rule wr.balanced_take [OF eq, where clk = clk]) (simp add: lg_acquire(2))
    then show ?thesis using lg_acquire(1) by (simp add: held_def add_to_def)
  next
    case (lg_claim w db now kinds pool policy d reg job)
    show ?thesis
      using claim_leased [OF inv lg_claim(4), of w0] take_from_held [of "pend_claim L" w w0, OF lg_claim(2)] eq [of w0] lg_claim(1)
      by (simp add: held_def split: if_splits)
  next
    case (lg_no_claim w db now kinds pool policy d reg)
    show ?thesis
      using no_claim_same [OF lg_no_claim(3,4)] take_from_held [of "pend_claim L" w w0, OF lg_no_claim(2)] eq [of w0] lg_no_claim(1)
      by (simp add: held_def add_to_def split: if_splits)
  next
    case (lg_release w clk wreg s)
    have "slots_used (fst (release_slot clk w (lg_workers L))) w0 = ((held L)(w := held L w - 1)) w0"
      by (rule wr.balanced_give [OF eq]) (use lg_release(2) in \<open>simp add: held_def\<close>)
    then show ?thesis using lg_release by (simp add: held_def take_from_def)
  next
    case (lg_complete db now jid w att result reg r)
    show ?thesis unfolding lg_complete(1)
      by (rule job_call_balanced [OF bal complete_leased [OF inv lg_complete(2,3)]]) (rule owes_simps)
  next
    case (lg_fail db now jid w att failure reg r)
    show ?thesis unfolding lg_fail(1)
      by (rule job_call_balanced [OF bal fail_leased [OF inv lg_fail(2,3)]]) (rule owes_simps)
  next
    case (lg_cancel db now jid reg c)
    show ?thesis unfolding lg_cancel(1)
      by (rule job_call_balanced [OF bal cancel_leased [OF inv lg_cancel(2,3)]]) (rule owes_simps)
  next
    case (lg_sweep db now reg report)
    show ?thesis unfolding lg_sweep(1)
      by (rule job_call_balanced [OF bal sweep_leased [OF inv lg_sweep(3)]]) (rule refl)
  next
    case (lg_renew db now jid w d reg x)
    show ?thesis
      using renew_leased [OF inv, of db now jid w d w0] lg_renew eq [of w0] by (simp add: held_def)
  next
    case (lg_submit db now request reg y)
    show ?thesis
      using submit_leased [OF inv, of db now request w0] lg_submit eq [of w0] by (simp add: held_def)
  next
    case (lg_prune db now reg pr)
    show ?thesis
      using prune_leased [OF inv, of db now w0] lg_prune eq [of w0] by (simp add: held_def)
  next
    case (lg_begin_callback db now jid reg z)
    show ?thesis
      using callback_leased(1) [OF inv, of db now jid w0] lg_begin_callback eq [of w0] by (simp add: held_def)
  next
    case (lg_callback_success db now jid http reg z)
    show ?thesis
      using callback_leased(2) [OF inv, of db now jid http w0] lg_callback_success eq [of w0] by (simp add: held_def)
  next
    case (lg_callback_failure db jid st err reg z)
    show ?thesis
      using callback_leased(3) [OF inv, of db jid st err w0] lg_callback_failure eq [of w0] by (simp add: held_def)
  next
    case (lg_register clk rq wreg v)
    show ?thesis using slots_register [of clk rq "lg_workers L" w0] lg_register eq [of w0] by simp
  next
    case (lg_heartbeat clk w wreg s2)
    show ?thesis using slots_heartbeat [of clk w "lg_workers L" w0] lg_heartbeat eq [of w0] by simp
  next
    case (lg_drain clk w wreg s2)
    show ?thesis using slots_drain [of clk w "lg_workers L" w0] lg_drain eq [of w0] by simp
  next
    case (lg_reactivate clk w wreg s2)
    show ?thesis using slots_reactivate [of clk w "lg_workers L" w0] lg_reactivate eq [of w0] by simp
  next
    case (lg_deregister clk w wreg s3)
    show ?thesis using slots_deregister [of clk w "lg_workers L" w0] lg_deregister eq [of w0] by simp
  qed
qed

lemma ledger_balanced:
  assumes "ledger_reachable L"
  shows "balanced L"
  using assms
proof induction
  case (lr_start reg wreg)
  have "leased (inner reg) w = 0" for w
    using lr_start(1) by (simp add: started_def leased_def job_sat_def inner_default_def)
  then show ?case
    using lr_start registry_inv_default
    by (simp add: balanced_def held_def started_def slots_used_def get_entry_def)
next
  case (lr_step L L')
  then show ?case
    unfolding balanced_def [of L'] using ledger_step_slots ledger_step_inv by (auto simp: balanced_def)
qed

end
