(* ===== verification/Api_Ledger.thy ===== *)
theory Api_Ledger
  imports Accounting
begin

text \<open>
  The handlers of \<open>src/src/scheduler.rs\<close>, \<open>src/src/jobs.rs\<close> and \<open>src/src/workers.rs\<close> as runs of
  the ledger: a handler whose store accepts its writes is a sequence of ledger steps that leaves
  no claim and no release pending. \<open>api_step\<close> is one handler run to its end.
\<close>

section \<open>The calls of the API\<close>

datatype 'v api_call =
    Api_Claim string
  | Api_Renew string string
  | Api_Complete string string "nat option" 'v
  | Api_Fail string string "nat option" string bool
  | Api_Submit "'v submit_job_request"
  | Api_Cancel string
  | Api_Prune
  | Api_Register register_worker_request
  | Api_Heartbeat string
  | Api_Drain string
  | Api_Reactivate string
  | Api_Deregister string

fun api_run ::
  "('v, 's) call_env \<Rightarrow> 'v api_call \<Rightarrow> ('v, 's) async_state \<Rightarrow> ('v, 's) async_state \<times> 'v response" where
  "api_run env (Api_Claim w) st = claim_worker_job_handler env w st"
| "api_run env (Api_Renew w jid) st = renew_worker_job_lease_handler env w jid st"
| "api_run env (Api_Complete w jid att r) st = complete_worker_job_handler env w jid att r st"
| "api_run env (Api_Fail w jid att err retry) st = fail_worker_job_handler env w jid att err retry st"
| "api_run env (Api_Submit request) st = submit_job env request st"
| "api_run env (Api_Cancel jid) st = cancel_job env jid st"
| "api_run env Api_Prune st = prune_jobs env st"
| "api_run env (Api_Register request) st = register_worker env request st"
| "api_run env (Api_Heartbeat w) st = heartbeat_worker env w st"
| "api_run env (Api_Drain w) st = drain_worker env w st"
| "api_run env (Api_Reactivate w) st = reactivate_worker env w st"
| "api_run env (Api_Deregister w) st = deregister_worker env w st"

definition env_store_ok :: "('v, 's) call_env \<Rightarrow> bool" where
  "env_store_ok env \<longleftrightarrow> (\<forall>n reg. store_ok (ce_db env n) reg)"

inductive api_step :: "('v, 's) async_state \<Rightarrow> 'v api_call \<Rightarrow> 'v response \<Rightarrow> ('v, 's) async_state \<Rightarrow> bool" where
  "env_store_ok env \<Longrightarrow> api_run env call st = (st', resp) \<Longrightarrow> api_step st call resp st'"

inductive api_reachable :: "('v, 's) async_state \<Rightarrow> bool" where
  api_start: "started (st_jobs st) \<Longrightarrow> workers (st_workers st) = [] \<Longrightarrow> api_reachable st"
| api_call: "api_reachable st \<Longrightarrow> api_step st call resp st' \<Longrightarrow> api_reachable st'"

section \<open>Handlers are runs of the ledger\<close>

definition ledger_of :: "('v, 's) async_state \<Rightarrow> (string \<Rightarrow> nat) \<Rightarrow> (string \<Rightarrow> nat) \<Rightarrow> ('v, 's) ledger" where
  "ledger_of st pc pr = \<lparr>lg_jobs = st_jobs st, lg_workers = st_workers st, pend_claim = pc, pend_release = pr\<rparr>"

abbreviation idle :: "('v, 's) async_state \<Rightarrow> ('v, 's) ledger" where
  "idle st \<equiv> ledger_of st (\<lambda>_. 0) (\<lambda>_. 0)"

lemma dispatch_frame [simp]:
  "st_jobs (dispatch_job jid st) = st_jobs st" "st_workers (dispatch_job jid st) = st_workers st"
  by (simp_all add: dispatch_job_def)

lemma dispatch_all_frame [simp]:
  "st_jobs (fold (\<lambda>job. dispatch_job (job_id job)) js st) = st_jobs st"
  "st_workers (fold (\<lambda>job. dispatch_job (job_id job)) js st) = st_workers st"
  by (induction js arbitrary: st) simp_all

lemma record_frame [simp]:
  "st_jobs (record_async_pool_selected clk w job st) = st_jobs st"
  "st_workers (record_async_pool_selected clk w job st) = st_workers st"
  "st_jobs (record_async_pool_no_compatible_job w st) = st_jobs st"
  "st_workers (record_async_pool_no_compatible_job w st) = st_workers st"
  by (simp_all add: record_async_pool_selected_def record_async_pool_no_compatible_job_def Let_def)

lemma release_worker_jobs [simp]:
  "st_jobs (release_worker clk w st) = st_jobs st"
  "st_workers (release_worker clk w st) = fst (release_slot clk w (st_workers st))"
  by (simp_all add: release_worker_def)

lemma ledger_of_cong:
  "st_jobs st' = st_jobs st \<Longrightarrow> st_workers st' = st_workers st \<Longrightarrow> ledger_of st' pc pr = ledger_of st pc pr"
  by (simp add: ledger_of_def)

lemma take_from_add [simp]: "take_from w (add_to w f) = f" "0 < add_to w f w"
  by (simp_all add: take_from_def add_to_def)

lemma release_step:
  "ledger_step (ledger_of st pc (add_to w pr)) (ledger_of (release_worker clk w st) pc pr)"
proof -
  let ?L = "ledger_of st pc (add_to w pr)"
  have "ledger_step ?L (?L\<lparr>lg_workers := fst (release_slot clk w (lg_workers ?L)),
      pend_release := take_from w (pend_release ?L)\<rparr>)"
    by (rule lg_release [where s = "snd (release_slot clk w (lg_workers ?L))"])
      (simp_all add: ledger_of_def)
  then show ?thesis by (simp add: ledger_of_def)
qed

lemma release_steps:
  "ledger_step\<^sup>*\<^sup>* (ledger_of st pc (\<lambda>w. pr w + count_list ws w)) (ledger_of (fold (release_worker clk) ws st) pc pr)"
proof (induction ws arbitrary: st)
  case (Cons w ws)
  have "(\<lambda>v. pr v + count_list (w # ws) v) = add_to w (\<lambda>v. pr v + count_list ws v)"
    by (auto simp: add_to_def fun_eq_iff)
  then have "ledger_step (ledger_of st pc (\<lambda>v. pr v + count_list (w # ws) v))
      (ledger_of (release_worker clk w st) pc (\<lambda>v. pr v + count_list ws v))"
    using release_step by simp
  also note Cons.IH
  finally show ?case by simp
qed simp

lemma fold_release_jobs [simp]: "st_jobs (fold (release_worker clk) ws st) = st_jobs st"
  by (induction ws arbitrary: st) simp_all

lemma sweep_run:
  assumes "env_store_ok env"
  shows "ledger_step\<^sup>*\<^sup>* (idle st) (idle (sweep_expired_leases env n st))"
proof -
  obtain reg report where sw: "requeue_expired_leases (ce_db env n) (ce_now env n) (st_jobs st) = (reg, report)"
    by fastforce
  let ?st = "st\<lparr>st_jobs := reg\<rparr>"
  have "ledger_step (idle st) (ledger_of ?st (\<lambda>_. 0) (\<lambda>w. 0 + count_list (released_workers report) w))"
    using lg_sweep [of "ce_db env n" "idle st" "ce_now env n" reg report] sw assms
    by (simp add: ledger_of_def env_store_ok_def)
  also note release_steps [of ?st "\<lambda>_. 0" "\<lambda>_. 0" "released_workers report" "ce_clock env n"]
  finally show ?thesis by (simp add: sweep_expired_leases_def sw Let_def ledger_of_def)
qed

lemma sweep_workers_ok:
  fixes st :: "('v, 's) async_state"
  assumes "workers_ok (st_workers st)"
  shows "workers_ok (st_workers (sweep_expired_leases env n st))"
proof -
  have "workers_ok (st_workers (fold (release_worker clk) ws s))" if "workers_ok (st_workers s)"
    for ws clk and s :: "('v, 's) async_state"
    using that by (induction ws arbitrary: s) (simp_all add: workers_ok_ops)
  with assms show ?thesis by (simp add: sweep_expired_leases_def Let_def split: prod.split)
qed

section \<open>The handlers\<close>

lemma idle_cong: "st_jobs st' = st_jobs st \<Longrightarrow> st_workers st' = st_workers st \<Longrightarrow> idle st' = idle st"
  by (rule ledger_of_cong)

text \<open>One job call that owes at most one release, and the release.\<close>

lemma call_and_release:
  assumes "ledger_step (idle st) (ledger_of (st\<lparr>st_jobs := reg\<rparr>) (\<lambda>_. 0) (owes x (\<lambda>_. 0)))"
    and "st_jobs st' = reg"
    and "st_workers st' =
      (case x of None \<Rightarrow> st_workers st | Some w \<Rightarrow> fst (release_slot clk w (st_workers st)))"
  shows "ledger_step\<^sup>*\<^sup>* (idle st) (idle st')"
proof (cases x)
  case None
  then have "ledger_step (idle st) (idle st')" using assms by (simp add: owes_def ledger_of_def)
  then show ?thesis ..
next
  case (Some w)
  from assms(1) have "ledger_step (idle st) (ledger_of (st\<lparr>st_jobs := reg\<rparr>) (\<lambda>_. 0) (add_to w (\<lambda>_. 0)))"
    by (simp add: Some owes_def)
  then have "ledger_step\<^sup>*\<^sup>* (idle st) (idle (release_worker clk w (st\<lparr>st_jobs := reg\<rparr>)))"
    using release_step by (rule converse_rtranclp_into_rtranclp [OF _ r_into_rtranclp])
  moreover have "idle (release_worker clk w (st\<lparr>st_jobs := reg\<rparr>)) = idle st'"
    using assms(2,3) Some by (simp add: ledger_of_def)
  ultimately show ?thesis by simp
qed

lemma complete_run:
  assumes ok: "env_store_ok env"
  shows "ledger_step\<^sup>*\<^sup>* (idle st) (idle (fst (complete_worker_job_handler env wid jid att result st)))"
proof (cases "live_worker env wid st")
  case (Inr worker)
  let ?s = "sweep_expired_leases env 1 st" and ?w = "ws_id worker"
  obtain reg r where c: "complete_lease (ce_db env 2) (ce_now env 2) jid ?w att result (st_jobs ?s) = (reg, r)"
    by fastforce
  have "ledger_step (idle ?s) (ledger_of (?s\<lparr>st_jobs := reg\<rparr>) (\<lambda>_. 0) (owes (released_by_finish ?w r) (\<lambda>_. 0)))"
    using lg_complete [of "ce_db env 2" "idle ?s" "ce_now env 2" jid ?w att result reg r] c ok
    by (simp add: ledger_of_def env_store_ok_def)
  then have "ledger_step\<^sup>*\<^sup>* (idle ?s) (idle (fst (complete_worker_job_handler env wid jid att result st)))"
    by (rule call_and_release [where clk = "ce_clock env 3"])
      (use complete_result_cases [OF c] in
        \<open>auto simp: complete_worker_job_handler_def Inr c [simplified] Let_def released_by_finish_def\<close>)
  with sweep_run [OF ok, of st 1] show ?thesis by (rule rtranclp_trans)
qed (simp add: complete_worker_job_handler_def)

lemma fail_run:
  assumes ok: "env_store_ok env"
  shows "ledger_step\<^sup>*\<^sup>* (idle st) (idle (fst (fail_worker_job_handler env wid jid att err retry st)))"
proof (cases "live_worker env wid st")
  case (Inr worker)
  let ?s = "sweep_expired_leases env 1 st" and ?w = "ws_id worker"
  let ?f = "\<lparr>message = trim err, retryable = retry\<rparr>"
  obtain reg r where c: "fail_lease (ce_db env 2) (ce_now env 2) jid ?w att ?f (st_jobs ?s) = (reg, r)"
    by fastforce
  have "ledger_step (idle ?s) (ledger_of (?s\<lparr>st_jobs := reg\<rparr>) (\<lambda>_. 0) (owes (released_by_finish ?w r) (\<lambda>_. 0)))"
    using lg_fail [of "ce_db env 2" "idle ?s" "ce_now env 2" jid ?w att ?f reg r] c ok
    by (simp add: ledger_of_def env_store_ok_def)
  then have "ledger_step\<^sup>*\<^sup>* (idle ?s) (idle (fst (fail_worker_job_handler env wid jid att err retry st)))"
    if "trim err \<noteq> []"
    by (rule call_and_release [where clk = "ce_clock env 3"])
      (use fail_result_cases [OF c] that in
        \<open>auto simp: fail_worker_job_handler_def Inr c [simplified] Let_def released_by_finish_def\<close>)
  then show ?thesis
    using rtranclp_trans [OF sweep_run [OF ok, of st 1]]
    by (cases "trim err = []") (auto simp: fail_worker_job_handler_def Inr)
qed (simp add: fail_worker_job_handler_def)

lemma cancel_run:
  assumes ok: "env_store_ok env"
  shows "ledger_step\<^sup>*\<^sup>* (idle st) (idle (fst (cancel_job env jid st)))"
proof -
  obtain reg c where call: "cancel (ce_db env 0) (ce_now env 0) jid (st_jobs st) = (reg, c)" by fastforce
  have "ledger_step (idle st) (ledger_of (st\<lparr>st_jobs := reg\<rparr>) (\<lambda>_. 0) (owes (released_by_cancel c) (\<lambda>_. 0)))"
    using lg_cancel [of "ce_db env 0" "idle st" "ce_now env 0" jid reg c] call ok
    by (simp add: ledger_of_def env_store_ok_def)
  then show ?thesis
    by (rule call_and_release [where clk = "ce_clock env 1"])
      (auto simp: cancel_job_def call Let_def released_by_cancel_def split: cancel_job_result.split option.split)
qed

lemma renew_run:
  assumes ok: "env_store_ok env"
  shows "ledger_step\<^sup>*\<^sup>* (idle st) (idle (fst (renew_worker_job_lease_handler env wid jid st)))"
proof (cases "live_worker env wid st")
  case (Inr worker)
  let ?s = "sweep_expired_leases env 1 st" and ?w = "ws_id worker"
  obtain reg r where c: "renew_lease (ce_db env 2) (ce_now env 2) jid ?w (st_lease_duration_ms ?s) (st_jobs ?s) = (reg, r)"
    by fastforce
  have "ledger_step (idle ?s) (idle (?s\<lparr>st_jobs := reg\<rparr>))"
    using lg_renew [of "ce_db env 2" "idle ?s" "ce_now env 2" jid ?w "st_lease_duration_ms ?s" reg r] c ok
    by (simp add: ledger_of_def env_store_ok_def)
  with sweep_run [OF ok, of st 1] have "ledger_step\<^sup>*\<^sup>* (idle st) (idle (?s\<lparr>st_jobs := reg\<rparr>))" by simp
  then show ?thesis by (simp add: renew_worker_job_lease_handler_def Inr Let_def c [simplified])
qed (simp add: renew_worker_job_lease_handler_def)

lemma claim_after_acquire:
  fixes st :: "('v, 's) async_state" and env :: "('v, 's) call_env"
  defines "s \<equiv> sweep_expired_leases env 0 st"
  assumes ok: "env_store_ok env" and wid: "ws_id worker = wid"
    and acq: "try_acquire_slot (ce_clock env 1) wid (st_workers s) = (wreg, Acquired worker)"
  shows "ledger_step\<^sup>*\<^sup>* (ledger_of (s\<lparr>st_workers := wreg\<rparr>) (add_to wid (\<lambda>_. 0)) (\<lambda>_. 0))
    (idle (fst (claim_worker_job_handler env wid st)))"
proof -
  let ?s = "s\<lparr>st_workers := wreg\<rparr>"
  let ?L = "ledger_of ?s (add_to wid (\<lambda>_. 0)) (\<lambda>_. 0)"
  obtain reg r where c: "claim_next_for_worker_in_pool (ce_db env 2) (ce_now env 2) wid (ws_job_types worker)
      (ws_pool worker) (st_workload_pools ?s) (st_lease_duration_ms ?s) (st_jobs ?s) = (reg, r)" by fastforce
  note handler = claim_worker_job_handler_def [of env wid st, folded s_def, unfolded Let_def acq]
  show ?thesis
  proof (cases r)
    case (Some job)
    then have "ledger_step ?L (idle (?s\<lparr>st_jobs := reg\<rparr>))"
      using lg_claim [of ?L wid "ce_db env 2" "ce_now env 2" "ws_job_types worker" "ws_pool worker"
          "st_workload_pools ?s" "st_lease_duration_ms ?s" reg job] c ok
      by (simp add: ledger_of_def env_store_ok_def)
    then show ?thesis by (simp add: handler wid c [simplified] Some ledger_of_def)
  next
    case None
    then have "ledger_step ?L (ledger_of (?s\<lparr>st_jobs := reg\<rparr>) (\<lambda>_. 0) (add_to wid (\<lambda>_. 0)))"
      using lg_no_claim [of ?L wid "ce_db env 2" "ce_now env 2" "ws_job_types worker" "ws_pool worker"
          "st_workload_pools ?s" "st_lease_duration_ms ?s" reg] c ok
      by (simp add: ledger_of_def env_store_ok_def)
    then have "ledger_step\<^sup>*\<^sup>* ?L (idle (release_worker (ce_clock env 3) wid (?s\<lparr>st_jobs := reg\<rparr>)))"
      using release_step by (rule converse_rtranclp_into_rtranclp [OF _ r_into_rtranclp])
    then show ?thesis by (simp add: handler wid c [simplified] None ledger_of_def)
  qed
qed

lemma claim_run:
  assumes ok: "env_store_ok env" and wok: "workers_ok (st_workers st)"
  shows "ledger_step\<^sup>*\<^sup>* (idle st) (idle (fst (claim_worker_job_handler env wid st)))"
proof -
  let ?s = "sweep_expired_leases env 0 st"
  obtain wreg a where acq: "try_acquire_slot (ce_clock env 1) wid (st_workers ?s) = (wreg, a)" by fastforce
  have "ledger_step\<^sup>*\<^sup>* (idle ?s) (idle (fst (claim_worker_job_handler env wid st)))"
  proof (cases "\<exists>worker. a = Acquired worker")
    case False
    then have "wreg = st_workers ?s"
      using acq by (auto simp: try_acquire_slot_def Let_def split: option.splits if_splits)
    moreover have "fst (claim_worker_job_handler env wid st) = ?s\<lparr>st_workers := wreg\<rparr>"
      using False by (cases a) (simp_all add: claim_worker_job_handler_def Let_def acq [simplified])
    ultimately show ?thesis by (simp add: ledger_of_def)
  next
    case True
    then obtain worker where a: "a = Acquired worker" by blast
    have "workers_ok (st_workers ?s)" by (rule sweep_workers_ok [OF wok])
    then have wid: "ws_id worker = wid"
      using acquired_id [of "ce_clock env 1" wid "st_workers ?s" worker] acq a by (auto simp: workers_ok_def)
    have "ledger_step (idle ?s) (ledger_of (?s\<lparr>st_workers := wreg\<rparr>) (add_to wid (\<lambda>_. 0)) (\<lambda>_. 0))"
      using lg_acquire [of "ce_clock env 1" wid "idle ?s" wreg worker] acq a by (simp add: ledger_of_def)
    then show ?thesis
      using claim_after_acquire [OF ok wid acq [unfolded a]] by (rule converse_rtranclp_into_rtranclp)
  qed
  with sweep_run [OF ok, of st 0] show ?thesis by (rule rtranclp_trans)
qed

text \<open>The handlers that are one step.\<close>

lemma submit_run:
  assumes "env_store_ok env"
  shows "ledger_step (idle st) (idle (fst (submit_job env request st)))"
  using assms lg_submit [of "ce_db env 0" "idle st" "ce_now env 0" request]
  by (simp add: submit_job_def ledger_of_def env_store_ok_def split: prod.split sum.split)

lemma prune_run:
  assumes "env_store_ok env"
  shows "ledger_step (idle st) (idle (fst (prune_jobs env st)))"
  using assms lg_prune [of "ce_db env 0" "idle st" "ce_now env 0"]
  by (simp add: prune_jobs_def prune_jobs_of_def ledger_of_def env_store_ok_def split: prod.split)

lemma register_run: "ledger_step\<^sup>*\<^sup>* (idle st) (idle (fst (register_worker env request st)))"
proof -
  obtain wreg v where r: "register (ce_clock env 0) request (st_workers st) = (wreg, v)" by fastforce
  have "ledger_step (idle st) (idle (st\<lparr>st_workers := wreg\<rparr>))"
    using lg_register [of "ce_clock env 0" request "idle st"] r by (simp add: ledger_of_def)
  moreover have "fst (register_worker env request st) \<in> {st, st\<lparr>st_workers := wreg\<rparr>}"
    by (cases v) (simp_all add: register_worker_def r Let_def)
  ultimately show ?thesis by auto
qed

lemma worker_call_fst: "fst (worker_call f st) = st\<lparr>st_workers := fst (f (st_workers st))\<rparr>"
  by (simp add: worker_call_def split: prod.split option.split)

lemma worker_call_run:
  "ledger_step (idle st) (idle (fst (heartbeat_worker env wid st)))"
  "ledger_step (idle st) (idle (fst (drain_worker env wid st)))"
  "ledger_step (idle st) (idle (fst (reactivate_worker env wid st)))"
  using lg_heartbeat [of "ce_clock env 0" wid "idle st"] lg_drain [of "ce_clock env 0" wid "idle st"]
    lg_reactivate [of "ce_clock env 0" wid "idle st"]
  by (simp_all add: heartbeat_worker_def drain_worker_def reactivate_worker_def worker_call_fst
      ledger_of_def prod_eq_iff)

lemma deregister_run: "ledger_step (idle st) (idle (fst (deregister_worker env wid st)))"
proof -
  have "fst (deregister_worker env wid st) =
      st\<lparr>st_workers := fst (deregister (ce_clock env 0) wid (st_workers st))\<rparr>"
    by (simp add: deregister_worker_def split: prod.split deregister_worker_result.split)
  then show ?thesis
    using lg_deregister [of "ce_clock env 0" wid "idle st"] by (simp add: ledger_of_def prod_eq_iff)
qed

lemma api_run_ledger:
  assumes "env_store_ok env" "workers_ok (st_workers st)"
  shows "ledger_step\<^sup>*\<^sup>* (idle st) (idle (fst (api_run env call st)))"
  using assms
  by (cases call)
    (simp_all add: claim_run renew_run complete_run fail_run cancel_run register_run
      r_into_rtranclp submit_run prune_run worker_call_run deregister_run)

section \<open>Reachable states\<close>

lemma ledger_step_workers_ok:
  assumes "ledger_step L L'" "workers_ok (lg_workers L)"
  shows "workers_ok (lg_workers L')"
  using assms by cases (auto dest: workers_ok_ops simp: prod_eq_iff)

lemma ledger_reachable_workers_ok: "ledger_reachable L \<Longrightarrow> workers_ok (lg_workers L)"
proof (induction rule: ledger_reachable.induct)
  case (lr_start reg wreg)
  then show ?case by (simp add: workers_ok_def get_entry_def)
qed (rule ledger_step_workers_ok)

lemma ledger_reachable_steps: "ledger_step\<^sup>*\<^sup>* L L' \<Longrightarrow> ledger_reachable L \<Longrightarrow> ledger_reachable L'"
  by (induction rule: rtranclp_induct) (auto intro: lr_step)

lemma api_reachable_ledger:
  assumes "api_reachable st"
  shows "ledger_reachable (idle st)"
  using assms
proof induction
  case (api_start st)
  then show ?case unfolding ledger_of_def by (rule lr_start)
next
  case (api_call st call resp st')
  from api_call.hyps(2) obtain env where env: "env_store_ok env" "api_run env call st = (st', resp)"
    by (auto elim: api_step.cases)
  have "workers_ok (st_workers st)"
    using ledger_reachable_workers_ok [OF api_call.IH] by (simp add: ledger_of_def)
  then show ?case
    using ledger_reachable_steps [OF api_run_ledger [OF env(1)] api_call.IH, of call] env(2) by simp
qed

section \<open>No handler panics\<close>

lemma api_run_answers: "\<exists>code body. snd (api_run env call st) = Resp code body"
proof (cases call)
  case (Api_Complete w jid att r)
  show ?thesis
  proof (cases "live_worker env w st")
    case (Inr worker)
    obtain reg out where c: "complete_lease (ce_db env 2) (ce_now env 2) jid (ws_id worker) att r
        (st_jobs (sweep_expired_leases env 1 st)) = (reg, out)" by fastforce
    from complete_result_cases [OF c] show ?thesis
      by (auto simp: Api_Complete complete_worker_job_handler_def Inr Let_def c [simplified])
  qed (auto simp: Api_Complete complete_worker_job_handler_def live_worker_def split: option.splits if_splits)
next
  case (Api_Fail w jid att err retry)
  show ?thesis
  proof (cases "live_worker env w st")
    case (Inr worker)
    obtain reg out where c: "fail_lease (ce_db env 2) (ce_now env 2) jid (ws_id worker) att
        \<lparr>message = trim err, retryable = retry\<rparr> (st_jobs (sweep_expired_leases env 1 st)) = (reg, out)" by fastforce
    from fail_result_cases [OF c] show ?thesis
      by (auto simp: Api_Fail fail_worker_job_handler_def Inr Let_def c [simplified])
  qed (auto simp: Api_Fail fail_worker_job_handler_def live_worker_def split: option.splits if_splits)
qed (auto simp: claim_worker_job_handler_def renew_worker_job_lease_handler_def live_worker_def submit_job_def
    cancel_job_def prune_jobs_def register_worker_def heartbeat_worker_def drain_worker_def
    reactivate_worker_def worker_call_def deregister_worker_def Let_def
    split: prod.split sum.split option.split acquire_worker_slot_result.split renew_job_lease_result.split
      cancel_job_result.split deregister_worker_result.split)

end
