(* ===== verification/Api_Example.thy ===== *)
theory Api_Example
  imports Api_Ledger
begin

text \<open>
  A short run of the handlers, evaluated once, that the witnesses use: worker \<open>w1\<close> with one slot
  is registered, the job of \<open>Jobs_Example\<close> is submitted and \<open>w1\<close> claims it. \<open>ex_broken\<close> is the same
  state with a store behind the registry, and \<open>ex_reject\<close> a store that refuses every write.
\<close>

definition ex_entry :: "nat \<Rightarrow> worker_entry" where
  "ex_entry n =
     \<lparr>we_id = ''w1'', we_endpoint_url = ''http://w1'', we_node_id = None, we_pool = ''default'',
      we_job_types = [Cluster], we_max_concurrent_jobs = Some 1, we_available_vram_mb = None,
      in_flight_jobs = n, draining = False, registered_at = 0, last_seen_at = 0, observed_at = 0\<rparr>"

definition ex_clock :: clock where
  "ex_clock = \<lparr>wall = 0, mono = 0\<rparr>"

definition ex_call :: "nat \<Rightarrow> (nat, unit) call_env" where
  "ex_call now = \<lparr>ce_now = (\<lambda>_. now), ce_clock = (\<lambda>_. ex_clock), ce_db = (\<lambda>_. ex_db)\<rparr>"

definition ex_wreg :: "nat \<Rightarrow> worker_registry" where
  "ex_wreg n = \<lparr>workers = [(''w1'', ex_entry n)], stale_after = 1\<rparr>"

definition ex_api :: "(nat, unit) job_registry \<Rightarrow> worker_registry \<Rightarrow> routing_metrics \<Rightarrow> (nat, unit) async_state" where
  "ex_api reg wreg m =
     \<lparr>st_jobs = reg, st_workers = wreg, st_metrics = m, st_dispatcher = dispatcher_default,
      st_workload_pools = policy_default, st_worker_pool_ids = [], st_strict_worker_pools = False,
      st_lease_duration_ms = 100\<rparr>"

definition ex_register_request :: register_worker_request where
  "ex_register_request =
     \<lparr>rw_id = ''w1'', rw_endpoint_url = ''http://w1'', rw_node_id = None, rw_pool = ''default'',
      rw_job_types = [Cluster], rw_max_concurrent_jobs = Some 1, rw_available_vram_mb = None\<rparr>"

lemma ex_api_simps [simp]:
  "st_jobs (ex_api reg wreg m) = reg" "st_workers (ex_api reg wreg m) = wreg"
  "st_metrics (ex_api reg wreg m) = m" "st_dispatcher (ex_api reg wreg m) = dispatcher_default"
  "st_workload_pools (ex_api reg wreg m) = policy_default" "st_lease_duration_ms (ex_api reg wreg m) = 100"
  "(ex_api reg wreg m)\<lparr>st_jobs := reg'\<rparr> = ex_api reg' wreg m"
  "(ex_api reg wreg m)\<lparr>st_workers := wreg'\<rparr> = ex_api reg wreg' m"
  "(ex_api reg wreg m)\<lparr>st_metrics := m'\<rparr> = ex_api reg wreg m'"
  by (simp_all add: ex_api_def)

lemma ex_call_simps [simp]:
  "ce_now (ex_call now) n = now" "ce_clock (ex_call now) n = ex_clock" "ce_db (ex_call now) n = ex_db"
  by (simp_all add: ex_call_def)

lemma ex_entry_simps [simp]:
  "we_id (ex_entry n) = ''w1''" "we_pool (ex_entry n) = ''default''" "we_job_types (ex_entry n) = [Cluster]"
  "we_max_concurrent_jobs (ex_entry n) = Some 1" "in_flight_jobs (ex_entry n) = n"
  "\<not> draining (ex_entry n)" "observed_at (ex_entry n) = 0" "we_node_id (ex_entry n) = None"
  "(ex_entry n)\<lparr>in_flight_jobs := m\<rparr> = ex_entry m"
  by (simp_all add: ex_entry_def)

lemma ex_wreg_simps [simp]:
  "get_entry (ex_wreg n) w = (if w = ''w1'' then Some (ex_entry n) else None)"
  "put_entry ''w1'' (ex_entry m) (ex_wreg n) = ex_wreg m"
  "stale_after (ex_wreg n) = 1" "slots_used (ex_wreg n) ''w1'' = n"
  by (simp_all add: ex_wreg_def get_entry_def put_entry_def slots_used_def)

lemma ex_clock_simps [simp]: "mono ex_clock = 0" "wall ex_clock = 0"
  by (simp_all add: ex_clock_def)

lemma ex_env_ok: "env_store_ok (ex_call now)"
  by (simp add: env_store_ok_def store_ok_def persists_def ex_db_def split: option.split)

definition ex_snapshot :: "nat \<Rightarrow> worker_snapshot" where
  "ex_snapshot n = snapshot_from_entry ex_clock 1 (ex_entry n)"

lemma ex_register:
  "api_run (ex_call 5) (Api_Register ex_register_request) (ex_api ex_new (worker_registry_new 1) metrics_default) =
     (ex_api ex_new (ex_wreg 0) metrics_default, Resp 200 (Worker_Body (ex_snapshot 0)))"
proof -
  have "register ex_clock ex_register_request (worker_registry_new 1) = (ex_wreg 0, Inr (ex_snapshot 0))"
    by (simp add: register_def validate_worker_def ex_register_request_def eval_defs Let_def get_entry_def
        worker_registry_new_def put_entry_def ex_wreg_def ex_snapshot_def ex_entry_def)
  moreover have "\<not> st_strict_worker_pools (ex_api ex_new (worker_registry_new 1) metrics_default)"
    by (simp add: ex_api_def)
  ultimately show ?thesis by (simp add: register_worker_def Let_def)
qed

lemma ex_api_submit:
  "api_run (ex_call 10) (Api_Submit ex_request) (ex_api ex_new wreg m) =
     (ex_api (ex_reg ex_job [''job-1'']) wreg m, Resp 202 (Job_Body ex_job))"
  by (simp add: submit_job_def ex_submit)

lemma ex_sweep_queued: "requeue_expired_leases ex_db now (ex_reg ex_job qs) =
    (ex_reg ex_job qs, expiry_report_default)"
  by (simp add: requeue_expired_leases_def requeue_expired_leases_locked_def expire_step_def commit_def
      persist_locked_def)

lemma ex_sweep_none:
  "sweep_expired_leases (ex_call now) n (ex_api (ex_reg ex_job qs) wreg m) = ex_api (ex_reg ex_job qs) wreg m"
  by (simp add: sweep_expired_leases_def ex_sweep_queued expiry_report_default_def)

lemma ex_acquire: "try_acquire_slot ex_clock ''w1'' (ex_wreg 0) = (ex_wreg 1, Acquired (ex_snapshot 1))"
  by (simp add: try_acquire_slot_def ex_snapshot_def)

lemma ex_snapshot_simps [simp]:
  "ws_id (ex_snapshot n) = ''w1''" "ws_job_types (ex_snapshot n) = [Cluster]" "ws_pool (ex_snapshot n) = ''default''"
  "\<not> ws_stale (ex_snapshot n)" "\<not> ws_draining (ex_snapshot n)" "ws_node_id (ex_snapshot n) = None"
  by (simp_all add: ex_snapshot_def)

lemma ex_api_claim:
  "\<exists>m'. api_run (ex_call 20) (Api_Claim ''w1'') (ex_api (ex_reg ex_job [''job-1'']) (ex_wreg 0) m) =
     (ex_api (ex_reg ex_running []) (ex_wreg 1) m', Resp 200 (Job_Body ex_running))"
  using ex_acquire ex_claim
  by (simp add: claim_worker_job_handler_def ex_sweep_none Let_def record_async_pool_selected_def) blast

lemma ex_reachable_queued: "api_reachable (ex_api (ex_reg ex_job [''job-1'']) (ex_wreg 0) metrics_default)"
proof -
  let ?s0 = "ex_api ex_new (worker_registry_new 1) metrics_default"
  have "api_reachable ?s0" by (rule api_start) (simp_all add: ex_started worker_registry_new_def)
  from api_call [OF this api_step.intros [OF ex_env_ok ex_register]]
  have "api_reachable (ex_api ex_new (ex_wreg 0) metrics_default)" .
  from api_call [OF this api_step.intros [OF ex_env_ok ex_api_submit]] show ?thesis .
qed

lemma ex_reachable: "\<exists>m. api_reachable (ex_api (ex_reg ex_running []) (ex_wreg 1) m)"
proof -
  obtain m where c: "api_run (ex_call 20) (Api_Claim ''w1'')
      (ex_api (ex_reg ex_job [''job-1'']) (ex_wreg 0) metrics_default) =
      (ex_api (ex_reg ex_running []) (ex_wreg 1) m, Resp 200 (Job_Body ex_running))"
    using ex_api_claim by blast
  from api_call [OF ex_reachable_queued api_step.intros [OF ex_env_ok c]] show ?thesis by blast
qed

text \<open>The same states on a store that refuses every write.\<close>

definition ex_stored :: "(nat, unit) job_registry \<Rightarrow> (nat, unit) job_registry" where
  "ex_stored reg = reg\<lparr>store := Some ()\<rparr>"

definition ex_reject :: "nat \<Rightarrow> (nat, unit) call_env" where
  "ex_reject now = \<lparr>ce_now = (\<lambda>_. now), ce_clock = (\<lambda>_. ex_clock), ce_db = (\<lambda>_ _ _. Inl ''disk full'')\<rparr>"

lemma ex_reject_simps [simp]:
  "ce_now (ex_reject now) n = now" "ce_clock (ex_reject now) n = ex_clock"
  "ce_db (ex_reject now) n = (\<lambda>_ _. Inl ''disk full'')"
  by (simp_all add: ex_reject_def)

lemma ex_stored_simps [simp]:
  "inner (ex_stored reg) = inner reg" "store (ex_stored reg) = Some ()"
  by (simp_all add: ex_stored_def)

lemma ex_sweep_broken:
  assumes "job_status job = Queued \<or> job_status job = Running \<and> job_lease job = Some ex_lease \<and> now < 120"
  shows "sweep_expired_leases (ex_reject now) n (ex_api (ex_stored (ex_reg job qs)) wreg m) =
    ex_api (ex_stored (ex_reg job qs)) wreg m"
  using assms
  by (auto simp: sweep_expired_leases_def requeue_expired_leases_def requeue_expired_leases_locked_def
      expire_step_def commit_def persist_locked_def expiry_report_default_def)
    (simp_all add: ex_stored_def ex_reg_def)

end
