(* ===== verification/Scheduler_Props.thy ===== *)
theory Scheduler_Props
  imports Api_Example
begin

text \<open>
  Properties of the handlers and of the worker registry: slots and leases stay in step whatever
  calls interleave, a worker that holds a lease is never dropped, slots are taken only within the
  capacity, the preview of the next assignment agrees with the claim that follows, the handlers
  never reach their panics, and what a failing store makes of a completion and of a claim.
\<close>

section \<open>Slots and leases\<close>

text \<open>C12: Whatever calls of concurrent handlers interleave, each worker's slots in use are exactly
  its leases, plus its claims that have a slot and no job yet, plus its releases that are still to
  be made. So no slot leaks and none is given back twice while the store accepts its writes.\<close>

theorem slots_account_for_leases:
  assumes "ledger_reachable L"
  shows "slots_used (lg_workers L) w =
    leased (inner (lg_jobs L)) w + pend_claim L w + pend_release L w"
  using ledger_balanced [OF assms] by (simp add: balanced_def held_def)

lemma slots_account_for_leases_witness:
  "\<exists>m. let L = idle (ex_api (ex_reg ex_running []) (ex_wreg 1) m) in
     slots_used (lg_workers L) ''w1'' =
       leased (inner (lg_jobs L)) ''w1'' + pend_claim L ''w1'' + pend_release L ''w1''"
  unfolding Let_def using slots_account_for_leases [OF api_reachable_ledger] ex_reachable by blast

text \<open>A session: calls of the API one after another, each in its own environment.\<close>

definition api_session :: "(('v, 's) call_env \<times> 'v api_call) list \<Rightarrow> ('v, 's) async_state \<Rightarrow> ('v, 's) async_state" where
  "api_session calls st = fold (\<lambda>(env, call) st. fst (api_run env call st)) calls st"

lemma api_session_reachable:
  "api_reachable st \<Longrightarrow> \<forall>(env, call) \<in> set calls. env_store_ok env \<Longrightarrow> api_reachable (api_session calls st)"
proof (induction calls arbitrary: st)
  case (Cons c calls)
  obtain env call where c: "c = (env, call)" by (cases c)
  have "api_step st call (snd (api_run env call st)) (fst (api_run env call st))"
    using Cons.prems(2) by (intro api_step.intros) (auto simp: c)
  from Cons.IH [OF api_call [OF Cons.prems(1) this]] show ?case
    using Cons.prems(2) by (simp add: c api_session_def)
qed (simp add: api_session_def)

text \<open>C3: Between handlers, whatever sequence of API calls ran from an empty server and whatever each of
  them answered, provided that the store accepted every write, the slots a worker has in use are
  exactly the running jobs leased to it. (C40 is what happens when a write fails.)\<close>

theorem handlers_keep_slots_equal_to_leases:
  assumes "started (st_jobs st0)" "workers (st_workers st0) = []" "\<forall>(env, call) \<in> set calls. env_store_ok env"
    and "st = api_session calls st0"
  shows "slots_used (st_workers st) w = card {jid. job_sat (leased_to w) (inner (st_jobs st)) jid}"
proof -
  have "api_reachable st" using api_session_reachable [OF api_start [OF assms(1,2)] assms(3)] assms(4) by simp
  from ledger_balanced [OF api_reachable_ledger [OF this]] show ?thesis
    by (simp add: balanced_def held_def ledger_of_def leased_def)
qed

lemma handlers_keep_slots_equal_to_leases_witness:
  "card {jid. job_sat (leased_to ''w1'') (inner (ex_reg ex_running [])) jid} = 1"
proof -
  let ?calls = "[(ex_call 5, Api_Register ex_register_request), (ex_call 10, Api_Submit ex_request), (ex_call 20, Api_Claim ''w1'')]"
  let ?st0 = "ex_api ex_new (worker_registry_new 1) metrics_default"
  obtain m where c: "api_run (ex_call 20) (Api_Claim ''w1'') (ex_api (ex_reg ex_job [''job-1'']) (ex_wreg 0) metrics_default) =
      (ex_api (ex_reg ex_running []) (ex_wreg 1) m, Resp 200 (Job_Body ex_running))"
    using ex_api_claim by blast
  have "api_session ?calls ?st0 = ex_api (ex_reg ex_running []) (ex_wreg 1) m"
    by (simp only: api_session_def fold.simps prod.case comp_apply id_apply ex_register ex_api_submit c fst_conv)
  from handlers_keep_slots_equal_to_leases [OF _ _ _ this [symmetric], of "''w1''"] show ?thesis
    by (simp add: ex_started worker_registry_new_def ex_env_ok)
qed

text \<open>A worker with a job leased to it is always registered: a deregistration never drops it
  (it drains instead), so the slot of a lease can always be given back.\<close>

theorem lease_holder_registered:
  assumes "ledger_reachable L" "job_sat (leased_to w) (inner (lg_jobs L)) jid"
  shows "known (lg_workers L) w \<and> snd (deregister clk w (lg_workers L)) \<noteq> Dereg_Removed"
proof -
  have bal: "balanced L" by (rule ledger_balanced [OF assms(1)])
  then have "finite {k. job_sat (leased_to w) (inner (lg_jobs L)) k}"
    by (intro finite_sat) (simp add: balanced_def)
  with assms(2) have "0 < leased (inner (lg_jobs L)) w" by (auto simp: leased_def card_gt_0_iff)
  then have "0 < slots_used (lg_workers L) w" using bal by (simp add: balanced_def held_def)
  then show ?thesis
    by (auto simp: slots_used_def known_def deregister_def Let_def split: option.splits)
qed

lemma lease_holder_registered_witness:
  "known (ex_wreg 1) ''w1'' \<and> snd (deregister ex_clock ''w1'' (ex_wreg 1)) \<noteq> Dereg_Removed"
proof -
  from ex_reachable obtain m where r: "api_reachable (ex_api (ex_reg ex_running []) (ex_wreg 1) m)" by blast
  have "job_sat (leased_to ''w1'') (inner (ex_reg ex_running [])) ''job-1''"
    by (simp add: job_sat_def leased_to_def)
  with lease_holder_registered [OF api_reachable_ledger [OF r], of "''w1''" "''job-1''"] show ?thesis
    by (simp add: ledger_of_def)
qed

text \<open>A step raises a worker's slot count by at most one, and only for a worker that is neither
  draining nor silent for the stale timeout, and never past its declared capacity.\<close>

theorem slots_taken_within_capacity:
  assumes "ledger_step L L'" "slots_used (lg_workers L) w < slots_used (lg_workers L') w"
  shows "\<exists>e (clk :: clock). get_entry (lg_workers L) w = Some e \<and>
    get_entry (lg_workers L') w = Some (e\<lparr>in_flight_jobs := in_flight_jobs e + 1\<rparr>) \<and> \<not> draining e \<and>
    mono clk - observed_at e < stale_after (lg_workers L) \<and>
    (case we_max_concurrent_jobs e of None \<Rightarrow> True | Some m \<Rightarrow> in_flight_jobs e < m)"
  using assms(1)
proof cases
  case (lg_acquire clk k wreg s)
  then have k: "w = k" using assms(2) slots_acquire [of clk k "lg_workers L" w] by (simp split: if_splits)
  from lg_acquire(2) acquired_id [of clk k "lg_workers L" s] obtain e where e:
    "get_entry (lg_workers L) k = Some e" "\<not> draining e" "mono clk - observed_at e < stale_after (lg_workers L)"
    "case we_max_concurrent_jobs e of None \<Rightarrow> True | Some m \<Rightarrow> in_flight_jobs e < m" by auto
  have "get_entry wreg k = Some (e\<lparr>in_flight_jobs := in_flight_jobs e + 1\<rparr>)"
    using lg_acquire(2) e by (auto simp: try_acquire_slot_def Let_def split: if_splits)
  then have put: "get_entry (lg_workers L') w = Some (e\<lparr>in_flight_jobs := in_flight_jobs e + 1\<rparr>)"
    using lg_acquire(1) k by simp
  show ?thesis by (rule exI [of _ e], rule exI [of _ clk]) (use e put k in simp)
next
  case (lg_release k clk wreg s)
  then show ?thesis using assms(2) slots_release [of clk k "lg_workers L" w] by (simp split: if_splits)
next
  case (lg_register clk rq wreg v)
  then show ?thesis using assms(2) slots_register [of clk rq "lg_workers L" w] by simp
next
  case (lg_heartbeat clk k wreg s2)
  then show ?thesis using assms(2) slots_heartbeat [of clk k "lg_workers L" w] by simp
next
  case (lg_drain clk k wreg s2)
  then show ?thesis using assms(2) slots_drain [of clk k "lg_workers L" w] by simp
next
  case (lg_reactivate clk k wreg s2)
  then show ?thesis using assms(2) slots_reactivate [of clk k "lg_workers L" w] by simp
next
  case (lg_deregister clk k wreg s3)
  then show ?thesis using assms(2) slots_deregister [of clk k "lg_workers L" w] by simp
qed (use assms(2) in simp_all)

lemma slots_taken_within_capacity_witness:
  "\<exists>e. get_entry (ex_wreg 0) ''w1'' = Some e \<and>
     get_entry (ex_wreg 1) ''w1'' = Some (e\<lparr>in_flight_jobs := in_flight_jobs e + 1\<rparr>)"
proof -
  let ?L = "idle (ex_api ex_new (ex_wreg 0) metrics_default)"
  have "ledger_step ?L (?L\<lparr>lg_workers := ex_wreg 1, pend_claim := add_to ''w1'' (pend_claim ?L)\<rparr>)"
    by (rule lg_acquire [where clk = ex_clock and s = "ex_snapshot 1"]) (simp add: ledger_of_def ex_acquire [simplified])
  from slots_taken_within_capacity [OF this, of "''w1''"] show ?thesis by (auto simp: ledger_of_def)
qed

section \<open>The preview\<close>

lemma find_map_first:
  "find_map f xs = Some r \<Longrightarrow> \<exists>as x bs. xs = as @ x # bs \<and> f x = Some r \<and> (\<forall>y \<in> set as. f y = None)"
proof (induction xs)
  case (Cons x xs)
  show ?case
  proof (cases "f x")
    case None
    with Cons obtain as y bs where "xs = as @ y # bs" "f y = Some r" "\<forall>z \<in> set as. f z = None" by auto
    then have "x # xs = (x # as) @ y # bs \<and> f y = Some r \<and> (\<forall>z \<in> set (x # as). f z = None)"
      using None by simp
    then show ?thesis by blast
  next
    case (Some r')
    then have "x # xs = [] @ x # xs \<and> f x = Some r \<and> (\<forall>z \<in> set []. f z = None)"
      using Cons.prems by simp
    then show ?thesis by blast
  qed
qed simp

lemma find_map_map: "find_map g (map h xs) = find_map (\<lambda>x. g (h x)) xs"
  by (induction xs) (simp_all split: option.split)

lemma queued_by_scan_order:
  assumes inv: "registry_inv (inner reg)"
  shows "queued_jobs_by_priority reg = map (\<lambda>k. the (jobs (inner reg) k)) (scan_order (queues (inner reg)))"
proof -
  let ?f = "\<lambda>jid. case jobs (inner reg) jid of None \<Rightarrow> None
      | Some job \<Rightarrow> if job_status job = Queued then Some job else None"
  have one: "List.map_filter ?f q = map (\<lambda>k. the (jobs (inner reg) k)) q"
    if "set q \<subseteq> set (for_priority p (queues (inner reg)))" for p q
    using that
  proof (induction q)
    case (Cons k q)
    have "k \<in> set (for_priority p (queues (inner reg)))" using Cons.prems by simp
    from queue_job [OF inv this] obtain job where "jobs (inner reg) k = Some job" "job_status job = Queued"
      by blast
    with Cons show ?case by (simp add: map_filter_simps)
  qed (simp add: map_filter_simps)
  show ?thesis
    by (simp add: queued_jobs_by_priority_def scan_order_def queues_iter_def
        one [of "q_realtime (queues (inner reg))" Realtime] one [of "q_batch (queues (inner reg))" Batch]
        one [of "q_background (queues (inner reg))" Background])
qed

lemma claim_eq:
  assumes "registry_inv (inner reg)" "store_ok db reg"
  shows "snd (claim_next_for_worker_in_pool db now w kinds pool pools d reg) =
    map_option (\<lambda>jid. claim_job now w d (the (jobs (inner reg) jid))) (next_claimable kinds pool pools (inner reg))"
proof (cases "next_claimable kinds pool pools (inner reg)")
  case (Some jid)
  then obtain job where "jobs (inner reg) jid = Some job" by (rule next_claimable_Some)
  with Some show ?thesis
    by (simp add: claim_next_for_worker_in_pool_def Let_def store_ok_commit [OF assms(2)])
qed (simp add: claim_next_for_worker_in_pool_def)

text \<open>The preview and the search of a claim agree: on the job they find, or that there is none.\<close>

lemma preview_next_claimable:
  fixes pools :: workload_pool_policy
  assumes inv: "registry_inv (inner reg)"
  defines "found \<equiv> \<lambda>w. map_option (\<lambda>k. the (jobs (inner reg) k)) (next_claimable (ws_job_types w) (ws_pool w) pools (inner reg))"
  shows "case preview_next_assignment_with_policy clk reg wreg pools of
      Some (job, w) \<Rightarrow> w \<in> set (list_workers clk wreg) \<and> can_accept_work w \<and> found w = Some job
    | None \<Rightarrow> \<forall>w \<in> set (list_workers clk wreg). can_accept_work w \<longrightarrow> found w = None"
proof -
  let ?ws = "list_workers clk wreg"
  let ?ids = "scan_order (queues (inner reg))" and ?job = "\<lambda>k. the (jobs (inner reg) k)"
  define f where "f k = map_option (\<lambda>w. (?job k, w)) (find (compatible pools (?job k)) ?ws)" for k
  have preview: "preview_next_assignment_with_policy clk reg wreg pools = find_map f ?ids"
    by (simp add: preview_next_assignment_with_policy_def preview_from_snapshots_def
        queued_by_scan_order [OF inv] find_map_map f_def [abs_def])
  have sat: "job_sat (claimable (ws_job_types w) (ws_pool w) pools) (inner reg) k \<longleftrightarrow> compatible pools (?job k) w"
    if k: "k \<in> set ?ids" and w: "can_accept_work w" for k w
  proof -
    from k obtain p where "k \<in> set (for_priority p (queues (inner reg)))" by (auto simp: set_scan_order)
    from queue_job [OF inv this] obtain job where "jobs (inner reg) k = Some job" "job_status job = Queued" by blast
    with w show ?thesis by (simp add: job_sat_def claimable_def compatible_def)
  qed
  show ?thesis
  proof (cases "find_map f ?ids")
    case None
    have "next_claimable (ws_job_types w) (ws_pool w) pools (inner reg) = None"
      if w: "w \<in> set ?ws" "can_accept_work w" for w
    proof -
      have "\<not> compatible pools (?job k) w" if "k \<in> set ?ids" for k
        using None w(1) that by (auto simp: find_map_NoneD f_def find_None_iff)
      then show ?thesis using sat [OF _ w(2)] by (simp add: next_claimable_eq find_None_iff)
    qed
    then show ?thesis by (simp add: preview None found_def)
  next
    case (Some r)
    from find_map_first [OF this] obtain as k bs where
      split: "?ids = as @ k # bs" "f k = Some r" "\<forall>y \<in> set as. f y = None" by blast
    from split(2) obtain w where w: "r = (?job k, w)" "find (compatible pools (?job k)) ?ws = Some w"
      by (auto simp: f_def)
    have win: "w \<in> set ?ws" "compatible pools (?job k) w" using find_in [OF w(2)] by auto
    then have can: "can_accept_work w" by (simp add: compatible_def)
    have "\<not> compatible pools (?job y) w" if "y \<in> set as" for y
      using split(3) that win(1) by (auto simp: f_def find_None_iff)
    then have "find (job_sat (claimable (ws_job_types w) (ws_pool w) pools) (inner reg)) as = None"
      using sat [OF _ can] split(1) by (simp add: find_None_iff)
    moreover have "job_sat (claimable (ws_job_types w) (ws_pool w) pools) (inner reg) k"
      using sat [OF _ can, of k] split(1) win(2) by simp
    ultimately have "next_claimable (ws_job_types w) (ws_pool w) pools (inner reg) = Some k"
      by (simp add: next_claimable_eq split(1) find_append)
    then show ?thesis using win(1) can by (simp add: preview Some w(1) found_def)
  qed
qed

definition at_capacity :: "worker_snapshot \<Rightarrow> bool" where
  "at_capacity w \<longleftrightarrow> (case ws_max_concurrent_jobs w of None \<Rightarrow> False | Some m \<Rightarrow> m \<le> ws_in_flight_jobs w)"

lemma listed_entry:
  assumes "workers_ok wreg" "w \<in> set (list_workers clk wreg)"
  obtains e where "get_entry wreg (ws_id w) = Some e" "w = snapshot_from_entry clk (stale_after wreg) e" "we_id e = ws_id w"
proof -
  from assms(2) obtain wid e where e: "(wid, e) \<in> set (workers wreg)" "w = snapshot_from_entry clk (stale_after wreg) e"
    by (auto simp: list_workers_def)
  then have g: "get_entry wreg wid = Some e" using assms(1) by (simp add: workers_ok_def get_entry_def)
  have "ws_id w = we_id e" unfolding e(2) by (simp add: snapshot_from_entry_def Let_def)
  moreover have "we_id e = wid" using assms(1) g by (simp add: workers_ok_def)
  ultimately show thesis using that [OF _ e(2)] g by simp
qed

text \<open>The answer to a claim of a live, undrained worker when no lease has expired.\<close>

lemma quiet_claim:
  assumes inv: "registry_inv (inner (st_jobs st))" and ok: "env_store_ok env" and wok: "workers_ok (st_workers st)"
    and quiet: "\<And>jid. \<not> expired_in (ce_now env 0) (inner (st_jobs st)) jid"
    and w: "w \<in> set (list_workers clk (st_workers st))" "can_accept_work w"
    and alive: "\<And>e. get_entry (st_workers st) (ws_id w) = Some e \<Longrightarrow>
      mono clk - observed_at e < stale_after (st_workers st) \<Longrightarrow> mono (ce_clock env 1) - observed_at e < stale_after (st_workers st)"
  shows "snd (claim_worker_job_handler env (ws_id w) st) =
    (if at_capacity w then Resp 409 (Text ''worker is at capacity'')
     else case next_claimable (ws_job_types w) (ws_pool w) (st_workload_pools st) (inner (st_jobs st)) of
       None \<Rightarrow> Resp 204 No_Body
     | Some k \<Rightarrow> Resp 200 (Job_Body (claim_job (ce_now env 2) (ws_id w) (st_lease_duration_ms st) (the (jobs (inner (st_jobs st)) k)))))"
proof -
  obtain reg where sweep: "requeue_expired_leases (ce_db env 0) (ce_now env 0) (st_jobs st) = (reg, expiry_report_default)"
      "inner reg = inner (st_jobs st)"
    using sweep_quiet [OF inv quiet] by blast
  have s: "sweep_expired_leases env 0 st = st\<lparr>st_jobs := reg\<rparr>"
    by (simp add: sweep_expired_leases_def sweep(1) expiry_report_default_def)
  obtain e where e: "get_entry (st_workers st) (ws_id w) = Some e" "w = snapshot_from_entry clk (stale_after (st_workers st)) e"
      "we_id e = ws_id w" by (rule listed_entry [OF wok w(1)])
  have live: "\<not> draining e" "mono (ce_clock env 1) - observed_at e < stale_after (st_workers st)"
    using w(2) alive [OF e(1)] by (simp_all add: e(2) can_accept_work_def snapshot_from_entry_def Let_def)
  have fields: "ws_job_types w = we_job_types e" "ws_pool w = we_pool e" "ws_max_concurrent_jobs w = we_max_concurrent_jobs e"
    "ws_in_flight_jobs w = in_flight_jobs e"
    by (simp_all add: e(2) snapshot_from_entry_def Let_def)
  have cap: "at_capacity w \<longleftrightarrow> (case we_max_concurrent_jobs e of None \<Rightarrow> False | Some m \<Rightarrow> in_flight_jobs e \<ge> m)"
    unfolding at_capacity_def fields by (rule refl)
  let ?clk = "ce_clock env 1" and ?e = "e\<lparr>in_flight_jobs := in_flight_jobs e + 1\<rparr>"
  let ?snap = "\<lambda>e. snapshot_from_entry ?clk (stale_after (st_workers st)) e"
  have "\<not> ws_stale (?snap e)" using live(2) by (simp add: snapshot_from_entry_def Let_def)
  then have acq: "try_acquire_slot ?clk (ws_id w) (st_workers st) =
      (if at_capacity w then (st_workers st, AtCapacity (?snap e))
       else (put_entry (ws_id w) ?e (st_workers st), Acquired (?snap ?e)))"
    unfolding try_acquire_slot_def e(1) cap by (simp add: live(1) Let_def)
  have snap: "ws_id (?snap ?e) = ws_id w" "ws_job_types (?snap ?e) = ws_job_types w" "ws_pool (?snap ?e) = ws_pool w"
    by (simp_all add: snapshot_from_entry_def Let_def e(3) fields)
  have inv': "registry_inv (inner reg)" using inv sweep(2) by simp
  have "store_ok (ce_db env 2) reg" using ok by (simp add: env_store_ok_def)
  note claim = claim_eq [OF inv' this, of "ce_now env 2" "ws_id w" "ws_job_types w" "ws_pool w" "st_workload_pools st"
      "st_lease_duration_ms st", unfolded sweep(2)]
  obtain reg' r where c: "claim_next_for_worker_in_pool (ce_db env 2) (ce_now env 2) (ws_id w) (ws_job_types w) (ws_pool w)
      (st_workload_pools st) (st_lease_duration_ms st) reg = (reg', r)" by fastforce
  show ?thesis
  proof (cases "at_capacity w")
    case True
    have "claim_worker_job_handler env (ws_id w) st = (st\<lparr>st_jobs := reg\<rparr>, Resp 409 (Text ''worker is at capacity''))"
      unfolding claim_worker_job_handler_def s Let_def using acq True by simp
    then show ?thesis using True by simp
  next
    case False
    obtain wreg s1 where "try_acquire_slot ?clk (ws_id w) (st_workers st) = (wreg, Acquired s1)"
        "ws_id s1 = ws_id w" "ws_job_types s1 = ws_job_types w" "ws_pool s1 = ws_pool w"
      using acq False snap by simp
    then have "snd (claim_worker_job_handler env (ws_id w) st) =
        (case r of None \<Rightarrow> Resp 204 No_Body | Some job \<Rightarrow> Resp 200 (Job_Body job))"
      unfolding claim_worker_job_handler_def s Let_def using c by (simp split: option.split)
    then show ?thesis using claim c False by (simp split: option.split)
  qed
qed

text \<open>C29: The preview of the next assignment is what a claim then does. In a state that API calls with
  successful writes reach, when no lease has expired by the claim and no live worker has gone silent
  since the preview: if the preview names a job and a worker, that worker is registered, live and not
  draining, and its \<open>POST /claim\<close> is answered with exactly that job, now running under a lease of the
  worker, unless the worker has all its slots in use, which the preview does not look at: then the
  answer is 409. If it names none, the claim of any live, undrained worker is answered with 204, or
  409 if its slots are all in use.\<close>

theorem preview_predicts_claim:
  assumes reach: "api_reachable st" and ok: "env_store_ok env"
    and quiet: "\<And>jid. \<not> expired_in (ce_now env 0) (inner (st_jobs st)) jid"
    and alive: "\<And>wid e. get_entry (st_workers st) wid = Some e \<Longrightarrow>
      mono clk - observed_at e < stale_after (st_workers st) \<Longrightarrow> mono (ce_clock env 1) - observed_at e < stale_after (st_workers st)"
  defines "claimed \<equiv> \<lambda>worker. snd (claim_worker_job_handler env (ws_id worker) st)"
  shows "case preview_next_assignment_with_policy clk (st_jobs st) (st_workers st) (st_workload_pools st) of
      Some (job, worker) \<Rightarrow> worker \<in> set (list_workers clk (st_workers st)) \<and> can_accept_work worker \<and>
        claimed worker = (if at_capacity worker then Resp 409 (Text ''worker is at capacity'')
          else Resp 200 (Job_Body (claim_job (ce_now env 2) (ws_id worker) (st_lease_duration_ms st) job)))
    | None \<Rightarrow> \<forall>worker \<in> set (list_workers clk (st_workers st)). can_accept_work worker \<longrightarrow>
        claimed worker = (if at_capacity worker then Resp 409 (Text ''worker is at capacity'') else Resp 204 No_Body)"
proof -
  have inv: "registry_inv (inner (st_jobs st))"
    using ledger_balanced [OF api_reachable_ledger [OF reach]] by (simp add: balanced_def ledger_of_def)
  have wok: "workers_ok (st_workers st)"
    using ledger_reachable_workers_ok [OF api_reachable_ledger [OF reach]] by (simp add: ledger_of_def)
  note claim = quiet_claim [OF inv ok wok quiet _ _ alive]
  show ?thesis
    using preview_next_claimable [OF inv, of clk "st_workers st" "st_workload_pools st"]
    by (auto simp: claimed_def claim split: option.splits prod.splits)
qed

lemma preview_predicts_claim_witness:
  "snd (claim_worker_job_handler (ex_call 20) ''w1'' (ex_api (ex_reg ex_job [''job-1'']) (ex_wreg 0) metrics_default)) =
     Resp 200 (Job_Body (claim_job 20 ''w1'' 100 ex_job))"
proof -
  let ?st = "ex_api (ex_reg ex_job [''job-1'']) (ex_wreg 0) metrics_default"
  have "list_workers ex_clock (ex_wreg 0) = [ex_snapshot 0]"
    by (simp add: list_workers_def ex_wreg_def ex_snapshot_def)
  then have "preview_next_assignment_with_policy ex_clock (ex_reg ex_job [''job-1'']) (ex_wreg 0) policy_default =
      Some (ex_job, ex_snapshot 0)"
    by (simp add: preview_next_assignment_with_policy_def preview_from_snapshots_def queued_jobs_by_priority_def
        queues_iter_def map_filter_simps compatible_def can_accept_work_def)
  moreover have "\<not> expired_in (ce_now (ex_call 20) 0) (inner (st_jobs ?st)) jid" for jid
    by (simp add: expired_in_def job_sat_def is_expired_def)
  moreover have "\<not> at_capacity (ex_snapshot 0)"
    by (simp add: at_capacity_def ex_snapshot_def snapshot_from_entry_def ex_entry_def Let_def)
  ultimately show ?thesis
    using preview_predicts_claim [OF ex_reachable_queued ex_env_ok, of 20 ex_clock] by simp
qed

section \<open>When the store refuses a write\<close>

definition store_rejects :: "('v, 's) persist \<Rightarrow> ('v, 's) job_registry \<Rightarrow> bool" where
  "store_rejects db reg \<longleftrightarrow> (\<exists>s. store reg = Some s \<and> (\<forall>i. \<exists>e. db i s = Inl e))"

lemma rejects_commit:
  assumes "store_rejects db reg"
  obtains e where "commit db reg i ok err = (reg\<lparr>inner := i\<rparr>, err e)"
proof -
  from assms obtain s e where "store reg = Some s" "db i s = Inl e" unfolding store_rejects_def by blast
  then show thesis by (intro that) (simp add: commit_def persist_locked_def)
qed

text \<open>C40: A completion whose write fails is answered with 404, but the job is complete in memory: the
  worker's slot is not given back, its callback is not dispatched, and a retry of the report changes
  nothing and is not taken as a completion, so the slot is lost until the process restarts.\<close>

theorem completion_lost_when_store_fails:
  assumes "live_worker env wid st = Inr worker"
    and "sweep_expired_leases env 1 st = s" "registry_inv (inner (st_jobs s))"
    and "job_sat (may_finish (ce_now env 2) (ws_id worker) att) (inner (st_jobs s)) jid"
    and "store_rejects (ce_db env 2) (st_jobs s)"
    and "complete_worker_job_handler env wid jid att r st = (st', resp)"
  shows "resp = Resp 404 (Text ''job not found'') \<and>
    job_sat (\<lambda>job. job_status job = Complete \<and> job_result job = Some r) (inner (st_jobs st')) jid \<and>
    st_workers st' = st_workers s \<and> st_dispatcher st' = st_dispatcher s \<and>
    (\<exists>job. complete_lease db now jid (ws_id worker) att r (st_jobs st') \<in>
      {(st_jobs st', Finish_IdempotentCompleted job), (st_jobs st', Finish_NotRunning job)})"
  using assms(3,4)
proof (rule may_finishE)
  fix job l
  assume j: "jobs (inner (st_jobs s)) jid = Some job" "job_status job = Running" "job_lease job = Some l"
    "lease_worker_id l = ws_id worker" "\<not> attempt_differs att l" "\<not> lease_expires_at l \<le> ce_now env 2"
  let ?job = "completed_job (ce_now env 2) (ws_id worker) l r job"
  let ?reg = "(st_jobs s)\<lparr>inner := put_job jid ?job (inner (st_jobs s))\<rparr>"
  have "commit (ce_db env 2) (st_jobs s) (put_job jid ?job (inner (st_jobs s))) (Finish_Completed ?job)
      (\<lambda>_. Finish_NotFound) = (?reg, Finish_NotFound)"
    by (rule rejects_commit [OF assms(5)]) simp
  then have "complete_lease (ce_db env 2) (ce_now env 2) jid (ws_id worker) att r (st_jobs s) = (?reg, Finish_NotFound)"
    using j by (simp add: complete_lease_def Let_def)
  then have st': "st' = s\<lparr>st_jobs := ?reg\<rparr>" and resp: "resp = Resp 404 (Text ''job not found'')"
    using assms(1,2,6) by (simp_all add: complete_worker_job_handler_def Let_def)
  have fields: "job_status ?job = Complete" "job_result ?job = Some r"
    by (simp_all add: completed_job_def)
  have "complete_lease db now jid (ws_id worker) att r ?reg \<in>
      {(?reg, Finish_IdempotentCompleted ?job), (?reg, Finish_NotRunning ?job)}"
    using fields(1) by (simp add: complete_lease_def)
  then have "\<exists>job. complete_lease db now jid (ws_id worker) att r (st_jobs st') \<in>
      {(st_jobs st', Finish_IdempotentCompleted job), (st_jobs st', Finish_NotRunning job)}"
    unfolding st' by (intro exI [of _ ?job]) simp
  moreover have "job_sat (\<lambda>job. job_status job = Complete \<and> job_result job = Some r) (inner (st_jobs st')) jid"
    using fields by (simp add: st')
  ultimately show ?thesis using st' resp by simp
qed

lemma completion_lost_when_store_fails_witness:
  "\<exists>st' m. complete_worker_job_handler (ex_reject 50) ''w1'' ''job-1'' (Some 1) 9
      (ex_api (ex_stored (ex_reg ex_running [])) (ex_wreg 1) m) = (st', Resp 404 (Text ''job not found'')) \<and>
    job_sat (\<lambda>job. job_status job = Complete) (inner (st_jobs st')) ''job-1'' \<and> st_workers st' = ex_wreg 1"
proof -
  let ?st = "ex_api (ex_stored (ex_reg ex_running [])) (ex_wreg 1) metrics_default"
  obtain st' resp where run: "complete_worker_job_handler (ex_reject 50) ''w1'' ''job-1'' (Some 1) 9 ?st = (st', resp)"
    by fastforce
  have live: "live_worker (ex_reject 50) ''w1'' ?st = Inr (ex_snapshot 1)"
    by (simp add: live_worker_def get_worker_def ex_snapshot_def)
  have rej: "store_rejects (ce_db (ex_reject 50) 2) (st_jobs ?st)" by (simp add: store_rejects_def)
  have fin: "job_sat (may_finish (ce_now (ex_reject 50) 2) (ws_id (ex_snapshot 1)) (Some 1)) (inner (st_jobs ?st)) ''job-1''"
    by (simp add: job_sat_def may_finish_def)
  have "sweep_expired_leases (ex_reject 50) 1 ?st = ?st" by (rule ex_sweep_broken) simp
  from completion_lost_when_store_fails [OF live this _ fin rej run] ex_inv(2)
  have "resp = Resp 404 (Text ''job not found'')" "st_workers st' = ex_wreg 1"
    "job_sat (\<lambda>job. job_status job = Complete \<and> job_result job = Some 9) (inner (st_jobs st')) ''job-1''"
    by simp_all
  moreover from this(3) have "job_sat (\<lambda>job. job_status job = Complete) (inner (st_jobs st')) ''job-1''"
    by (simp add: job_sat_def split: option.splits)
  ultimately show ?thesis using run by blast
qed

text \<open>A claim whose write fails is answered with 204 and the slot is given back, but the job is
  running in memory under a lease of that worker, out of its queue: nobody works on it until the
  lease expires, and the sweep then gives back a slot the worker no longer holds for it.\<close>

theorem claim_lost_when_store_fails:
  assumes "sweep_expired_leases env 0 st = s" "workers_ok (st_workers s)"
    and "try_acquire_slot (ce_clock env 1) wid (st_workers s) = (wreg, Acquired worker)"
    and "next_claimable (ws_job_types worker) (ws_pool worker) (st_workload_pools s) (inner (st_jobs s)) = Some jid"
    and "store_rejects (ce_db env 2) (st_jobs s)"
    and "claim_worker_job_handler env wid st = (st', resp)"
  shows "resp = Resp 204 No_Body \<and> job_sat (leased_to wid) (inner (st_jobs st')) jid \<and>
    (\<forall>w. slots_used (st_workers st') w = slots_used (st_workers s) w)"
proof -
  obtain job where job: "jobs (inner (st_jobs s)) jid = Some job" using assms(4) by (rule next_claimable_Some)
  have w: "ws_id worker = wid"
    using acquired_id [of "ce_clock env 1" wid "st_workers s" worker] assms(2,3) by (auto simp: workers_ok_def)
  let ?job = "claim_job (ce_now env 2) wid (st_lease_duration_ms s) job"
  let ?i = "(put_job jid ?job (inner (st_jobs s)))
      \<lparr>queues := queues_remove (job_priority job) jid (queues (inner (st_jobs s)))\<rparr>"
  have "commit (ce_db env 2) (st_jobs s) ?i (Some ?job) (\<lambda>_. None) = ((st_jobs s)\<lparr>inner := ?i\<rparr>, None)"
    by (rule rejects_commit [OF assms(5)]) simp
  then have claim: "claim_next_for_worker_in_pool (ce_db env 2) (ce_now env 2) wid (ws_job_types worker)
      (ws_pool worker) (st_workload_pools s) (st_lease_duration_ms s) (st_jobs s) = ((st_jobs s)\<lparr>inner := ?i\<rparr>, None)"
    by (simp add: claim_next_for_worker_in_pool_def assms(4) job Let_def)
  have "resp = Resp 204 No_Body" "st_jobs st' = (st_jobs s)\<lparr>inner := ?i\<rparr>"
    "st_workers st' = fst (release_slot (ce_clock env 3) wid wreg)"
    using assms(6) by (auto simp: claim_worker_job_handler_def assms(1) Let_def assms(3) [simplified] w claim)
  moreover have "leased_to wid ?job" by (simp add: leased_to_def claim_job_def)
  moreover have "slots_used wreg k = slots_used (st_workers s) k + (if k = wid then 1 else 0)" for k
    using slots_acquire [of "ce_clock env 1" wid "st_workers s" k] assms(3) by simp
  ultimately show ?thesis by (simp add: slots_release job_sat_def)
qed

lemma claim_lost_when_store_fails_witness:
  "\<exists>st'. claim_worker_job_handler (ex_reject 20) ''w1''
      (ex_api (ex_stored (ex_reg ex_job [''job-1''])) (ex_wreg 0) metrics_default) = (st', Resp 204 No_Body) \<and>
    job_sat (leased_to ''w1'') (inner (st_jobs st')) ''job-1'' \<and> slots_used (st_workers st') ''w1'' = 0"
proof -
  let ?st = "ex_api (ex_stored (ex_reg ex_job [''job-1''])) (ex_wreg 0) metrics_default"
  obtain st' resp where run: "claim_worker_job_handler (ex_reject 20) ''w1'' ?st = (st', resp)" by fastforce
  have sweep: "sweep_expired_leases (ex_reject 20) 0 ?st = ?st" by (rule ex_sweep_broken) simp
  have ok: "workers_ok (st_workers ?st)"
    using ledger_reachable_workers_ok [OF api_reachable_ledger [OF ex_reachable_queued]] by (simp add: ledger_of_def)
  have acq: "try_acquire_slot (ce_clock (ex_reject 20) 1) ''w1'' (st_workers ?st) = (ex_wreg 1, Acquired (ex_snapshot 1))"
    using ex_acquire by simp
  have nxt: "next_claimable (ws_job_types (ex_snapshot 1)) (ws_pool (ex_snapshot 1)) (st_workload_pools ?st)
      (inner (st_jobs ?st)) = Some ''job-1''"
    by (simp add: next_claimable_def queues_iter_def claimable_def)
  have rej: "store_rejects (ce_db (ex_reject 20) 2) (st_jobs ?st)" by (simp add: store_rejects_def)
  from claim_lost_when_store_fails [OF sweep ok acq nxt rej run] run show ?thesis by simp
qed

end
