(* ===== verification/Circuit.thy ===== *)
theory Circuit
  imports Prelude
begin

text \<open>
  The circuit breaker of one backend, \<open>src/src/router/circuit.rs\<close>. Instants and durations are
  nanoseconds of the monotonic clock; \<open>since.elapsed()\<close> saturates at zero, as the subtraction of
  naturals does. The failure counter is a \<open>u32\<close> and wraps.
\<close>

datatype circuit_state = Closed | Open nat | HalfOpen

record circuit_breaker =
  cb_state :: circuit_state
  consecutive_failures :: "32 word"
  failure_threshold :: "32 word"
  cooldown :: nat

definition circuit_new :: "32 word \<Rightarrow> nat \<Rightarrow> circuit_breaker" where
  "circuit_new threshold cool =
     \<lparr>cb_state = Closed, consecutive_failures = 0, failure_threshold = threshold, cooldown = cool\<rparr>"

definition is_available :: "nat \<Rightarrow> circuit_breaker \<Rightarrow> circuit_breaker \<times> bool" where
  "is_available now cb =
     (case (case cb_state cb of Open since \<Rightarrow> Some since | Closed \<Rightarrow> None | HalfOpen \<Rightarrow> None) of
        None \<Rightarrow> (cb, True)
      | Some since \<Rightarrow>
          if now - since < cooldown cb then (cb, False)
          else (cb\<lparr>cb_state := HalfOpen\<rparr>, True))"

definition record_success :: "circuit_breaker \<Rightarrow> circuit_breaker" where
  "record_success cb = cb\<lparr>consecutive_failures := 0, cb_state := Closed\<rparr>"

definition record_failure :: "nat \<Rightarrow> circuit_breaker \<Rightarrow> circuit_breaker" where
  "record_failure now cb =
     (let cb1 = cb\<lparr>consecutive_failures := consecutive_failures cb + 1\<rparr> in
      if consecutive_failures cb1 \<ge> failure_threshold cb1 then cb1\<lparr>cb_state := Open now\<rparr> else cb1)"

section \<open>Facts\<close>

lemma circuit_static [simp]:
  "failure_threshold (fst (is_available now cb)) = failure_threshold cb"
  "cooldown (fst (is_available now cb)) = cooldown cb"
  "consecutive_failures (fst (is_available now cb)) = consecutive_failures cb"
  "failure_threshold (record_success cb) = failure_threshold cb" "cooldown (record_success cb) = cooldown cb"
  "failure_threshold (record_failure now cb) = failure_threshold cb" "cooldown (record_failure now cb) = cooldown cb"
  "consecutive_failures (record_success cb) = 0"
  "consecutive_failures (record_failure now cb) = consecutive_failures cb + 1"
  by (simp_all add: is_available_def record_success_def record_failure_def Let_def split: circuit_state.split)

text \<open>Whether the breaker would let a request through, without the transition.\<close>

definition lets_through :: "nat \<Rightarrow> circuit_breaker \<Rightarrow> bool" where
  "lets_through now cb \<longleftrightarrow> (\<forall>since. cb_state cb = Open since \<longrightarrow> cooldown cb \<le> now - since)"

lemma is_available_iff: "snd (is_available now cb) \<longleftrightarrow> lets_through now cb"
  by (auto simp: is_available_def lets_through_def split: circuit_state.split)

lemma available_not_open: "snd (is_available now cb) \<Longrightarrow> cb_state (fst (is_available now cb)) \<noteq> Open since"
  by (auto simp: is_available_def split: circuit_state.splits if_splits)

text \<open>The events of a breaker in time order: probes of availability and recorded outcomes.\<close>

datatype circuit_event = Probe nat | Success | Failure nat

fun circuit_step :: "circuit_event \<Rightarrow> circuit_breaker \<Rightarrow> circuit_breaker" where
  "circuit_step (Probe now) cb = fst (is_available now cb)"
| "circuit_step Success cb = record_success cb"
| "circuit_step (Failure now) cb = record_failure now cb"

definition circuit_run :: "circuit_event list \<Rightarrow> circuit_breaker \<Rightarrow> circuit_breaker" where
  "circuit_run es cb = fold circuit_step es cb"

text \<open>The failures since the last success.\<close>

definition failure_step :: "circuit_event \<Rightarrow> nat \<Rightarrow> nat" where
  "failure_step e n = (case e of Probe _ \<Rightarrow> n | Success \<Rightarrow> 0 | Failure _ \<Rightarrow> n + 1)"

definition failure_count :: "circuit_event list \<Rightarrow> nat" where
  "failure_count es = fold failure_step es 0"

lemma failure_count_snoc [simp]:
  "failure_count [] = 0"
  "failure_count (es @ [Success]) = 0"
  "failure_count (es @ [Failure now]) = failure_count es + 1"
  "failure_count (es @ [Probe now]) = failure_count es"
  by (simp_all add: failure_count_def failure_step_def)

lemma circuit_run_snoc [simp]:
  "circuit_run [] cb = cb" "circuit_run (es @ [e]) cb = circuit_step e (circuit_run es cb)"
  by (simp_all add: circuit_run_def)

lemma circuit_run_static [simp]:
  "failure_threshold (circuit_run es cb) = failure_threshold cb" "cooldown (circuit_run es cb) = cooldown cb"
proof (induction es rule: rev_induct)
  case (snoc e es)
  case 1 show ?case using snoc by (cases e) simp_all
  case 2 show ?case using snoc by (cases e) simp_all
qed simp_all

lemma failures_counted:
  "unat (consecutive_failures (circuit_run es (circuit_new th cool))) = failure_count es mod 2 ^ 32"
proof (induction es rule: rev_induct)
  case Nil
  then show ?case by (simp add: circuit_new_def)
next
  case (snoc e es)
  show ?case
  proof (cases e)
    case (Failure now)
    then show ?thesis using snoc by (simp add: unat_word_ariths mod_Suc_eq)
  qed (use snoc in simp_all)
qed

lemma tripped_failures:
  "cb_state (circuit_run es (circuit_new th cool)) \<noteq> Closed \<Longrightarrow> unat th \<le> failure_count es"
proof (induction es rule: rev_induct)
  case Nil
  then show ?case by (simp add: circuit_new_def)
next
  case (snoc e es)
  let ?cb = "circuit_run es (circuit_new th cool)"
  show ?case
  proof (cases e)
    case (Probe now)
    then have "cb_state ?cb \<noteq> Closed"
      using snoc.prems by (auto simp: is_available_def split: circuit_state.splits if_splits)
    then show ?thesis using snoc.IH Probe by simp
  next
    case Success
    then show ?thesis using snoc.prems by (simp add: record_success_def)
  next
    case (Failure now)
    show ?thesis
    proof (cases "th \<le> consecutive_failures ?cb + 1")
      case True
      then have "unat th \<le> failure_count (es @ [e]) mod 2 ^ 32"
        using failures_counted [of "es @ [e]" th cool] Failure by (simp add: word_le_nat_alt)
      then show ?thesis using mod_less_eq_dividend order_trans by blast
    next
      case False
      have "failure_threshold ?cb = th" by (simp add: circuit_new_def)
      then have "cb_state ?cb \<noteq> Closed"
        using snoc.prems Failure False by (simp add: record_failure_def Let_def)
      then show ?thesis using snoc.IH Failure by simp
    qed
  qed
qed

lemma failure_opens:
  assumes "unat th \<le> failure_count es mod 2 ^ 32" "es = es' @ [Failure now]"
  shows "cb_state (circuit_run es (circuit_new th cool)) = Open now"
proof -
  let ?cb = "circuit_run es' (circuit_new th cool)"
  have "failure_threshold ?cb = th" by (simp add: circuit_new_def)
  moreover have "th \<le> consecutive_failures ?cb + 1"
    using assms failures_counted [of es th cool] by (simp add: word_le_nat_alt)
  ultimately show ?thesis using assms(2) by (simp add: record_failure_def Let_def)
qed

end
