(* ===== verification/Resources.thy ===== *)
theory Resources
  imports Workers "HOL-Library.Option_ord"
begin

text \<open>
  The resource registry and the resource routing policy, \<open>src/src/resources.rs\<close>. The reports are
  a \<open>HashMap\<close> from (node, backend or the empty string) to entries, here an association list. A
  load is an \<open>f64\<close>: not a number, infinite, or the rational it denotes.
\<close>

section \<open>Data\<close>

datatype f64 = NaN | PInf | NInf | Num rat

fun f64_le :: "f64 \<Rightarrow> f64 \<Rightarrow> bool" where
  "f64_le NaN _ = False"
| "f64_le _ NaN = False"
| "f64_le NInf _ = True"
| "f64_le _ PInf = True"
| "f64_le (Num a) (Num b) = (a \<le> b)"
| "f64_le _ _ = False"

text \<open>\<open>f64::partial_cmp\<close>\<close>

definition f64_partial_cmp :: "f64 \<Rightarrow> f64 \<Rightarrow> ordering option" where
  "f64_partial_cmp a b =
     (if a = NaN \<or> b = NaN then None
      else Some (if a = b then Equal else if f64_le a b then Less else Greater))"

record resource_routing_policy =
  rr_enabled :: bool
  chat_completions_required_vram_mb :: nat
  embeddings_required_vram_mb :: nat

definition resource_policy_default :: resource_routing_policy where
  "resource_policy_default =
     \<lparr>rr_enabled = False, chat_completions_required_vram_mb = 1024, embeddings_required_vram_mb = 512\<rparr>"

fun required_vram_mb :: "resource_routing_policy \<Rightarrow> workload_kind \<Rightarrow> nat" where
  "required_vram_mb policy ChatCompletions = chat_completions_required_vram_mb policy"
| "required_vram_mb policy Embeddings = embeddings_required_vram_mb policy"

record resource_report_request =
  rq_node_id :: string
  rq_backend_id :: "string option"
  rq_total_vram_mb :: nat
  rq_reserved_vram_mb :: nat
  rq_current_load :: "f64 option"

record resource_report =
  rp_node_id :: string
  rp_backend_id :: "string option"
  rp_total_vram_mb :: nat
  rp_reserved_vram_mb :: nat
  rp_available_vram_mb :: nat
  rp_current_load :: "f64 option"

record resource_entry =
  re_report :: resource_report
  re_observed_at :: nat
  re_reported_at :: int

record resource_snapshot =
  rs_report :: resource_report
  rs_reported_at_unix_ms :: nat
  rs_age_seconds :: rat
  rs_stale :: bool

record resource_registry =
  reports :: "((string \<times> string) \<times> resource_entry) list"
  rr_stale_after :: nat

definition resource_registry_new :: "nat \<Rightarrow> resource_registry" where
  "resource_registry_new stale = \<lparr>reports = [], rr_stale_after = stale\<rparr>"

definition resource_registry_default :: resource_registry where
  "resource_registry_default = resource_registry_new (30 * 10 ^ 9)"

section \<open>Operations\<close>

definition validate_report :: "resource_report_request \<Rightarrow> string + resource_report" where
  "validate_report request =
     (let node_id = trim (rq_node_id request) in
      if node_id = [] then Inl ''node_id cannot be empty''
      else
        let backend_id = (case map_option trim (rq_backend_id request) of
              None \<Rightarrow> None | Some value \<Rightarrow> if value = [] then None else Some value)
        in if rq_reserved_vram_mb request > rq_total_vram_mb request
           then Inl ''reserved_vram_mb cannot exceed total_vram_mb''
           else if (case rq_current_load request of
                      None \<Rightarrow> False | Some load \<Rightarrow> \<not> (f64_le (Num 0) load \<and> f64_le load (Num 1)))
           then Inl ''current_load must be between 0.0 and 1.0''
           else Inr \<lparr>rp_node_id = node_id, rp_backend_id = backend_id,
                     rp_total_vram_mb = rq_total_vram_mb request,
                     rp_reserved_vram_mb = rq_reserved_vram_mb request,
                     rp_available_vram_mb = rq_total_vram_mb request - rq_reserved_vram_mb request,
                     rp_current_load = rq_current_load request\<rparr>)"

definition resource_snapshot_from_entry :: "clock \<Rightarrow> nat \<Rightarrow> resource_entry \<Rightarrow> resource_snapshot" where
  "resource_snapshot_from_entry clk stale entry =
     (let age = mono clk - re_observed_at entry in
      \<lparr>rs_report = re_report entry, rs_reported_at_unix_ms = unix_ms_of (re_reported_at entry),
       rs_age_seconds = of_nat age / 10 ^ 9, rs_stale = (age > stale)\<rparr>)"

definition report ::
  "clock \<Rightarrow> resource_report_request \<Rightarrow> resource_registry \<Rightarrow> resource_registry \<times> (string + resource_snapshot)" where
  "report clk request reg =
     (case validate_report request of
        Inl e \<Rightarrow> (reg, Inl e)
      | Inr r \<Rightarrow>
          let key = (rp_node_id r, case rp_backend_id r of None \<Rightarrow> [] | Some b \<Rightarrow> b);
              entry = \<lparr>re_report = r, re_observed_at = mono clk, re_reported_at = wall clk\<rparr>
          in (reg\<lparr>reports := AList.update key entry (reports reg)\<rparr>,
              Inr (resource_snapshot_from_entry clk (rr_stale_after reg) entry)))"

definition resource_snapshots :: "clock \<Rightarrow> resource_registry \<Rightarrow> resource_snapshot list" where
  "resource_snapshots clk reg =
     sort_key (\<lambda>s. (rp_node_id (rs_report s), rp_backend_id (rs_report s)))
       (map (\<lambda>(_, entry). resource_snapshot_from_entry clk (rr_stale_after reg) entry) (reports reg))"

text \<open>The handlers of \<open>POST /v1/resources/report\<close>, with the status and the body, and of
  \<open>GET /v1/resources\<close>.\<close>

definition report_resources ::
  "clock \<Rightarrow> resource_report_request \<Rightarrow> resource_registry \<Rightarrow> resource_registry \<times> nat \<times> (string + resource_snapshot)" where
  "report_resources clk request reg =
     (case report clk request reg of
        (reg', Inr snapshot) \<Rightarrow> (reg', 200, Inr snapshot)
      | (reg', Inl e) \<Rightarrow> (reg', 400, Inl e))"

definition list_resources :: "clock \<Rightarrow> resource_registry \<Rightarrow> resource_snapshot list" where
  "list_resources clk reg = resource_snapshots clk reg"

definition fresh_report :: "nat \<Rightarrow> string \<Rightarrow> string option \<Rightarrow> resource_registry \<Rightarrow> resource_report option" where
  "fresh_report now node_id backend_id reg =
     (case map_of (reports reg) (node_id, case backend_id of None \<Rightarrow> [] | Some b \<Rightarrow> b) of
        None \<Rightarrow> None
      | Some entry \<Rightarrow>
          if now - re_observed_at entry > rr_stale_after reg then None else Some (re_report entry))"

definition fresh_backend_report :: "nat \<Rightarrow> string \<Rightarrow> string \<Rightarrow> resource_registry \<Rightarrow> resource_report option" where
  "fresh_backend_report now node_id backend_id reg =
     (case fresh_report now node_id (Some backend_id) reg of
        Some r \<Rightarrow> Some r
      | None \<Rightarrow> fresh_report now node_id None reg)"

section \<open>Facts\<close>

definition report_ok :: "resource_report \<Rightarrow> bool" where
  "report_ok r \<longleftrightarrow> rp_node_id r \<noteq> [] \<and> trim (rp_node_id r) = rp_node_id r \<and> rp_backend_id r \<noteq> Some [] \<and>
     rp_available_vram_mb r + rp_reserved_vram_mb r = rp_total_vram_mb r \<and>
     (\<forall>load. rp_current_load r = Some load \<longrightarrow> (\<exists>q. load = Num q \<and> 0 \<le> q \<and> q \<le> 1))"

definition resources_ok :: "resource_registry \<Rightarrow> bool" where
  "resources_ok reg \<longleftrightarrow> distinct (map fst (reports reg)) \<and>
     (\<forall>k e. map_of (reports reg) k = Some e \<longrightarrow> report_ok (re_report e) \<and>
        k = (rp_node_id (re_report e), case rp_backend_id (re_report e) of None \<Rightarrow> [] | Some b \<Rightarrow> b))"

lemma unit_interval: "f64_le (Num 0) x \<and> f64_le x (Num 1) \<longleftrightarrow> (\<exists>q. x = Num q \<and> 0 \<le> q \<and> q \<le> 1)"
  by (cases x) auto

lemma validate_report_ok: "validate_report request = Inr r \<Longrightarrow> report_ok r"
  using unit_interval
  by (auto simp: validate_report_def report_ok_def Let_def split: if_splits option.splits)

lemma resources_ok_new: "resources_ok (resource_registry_new stale)"
  by (simp add: resources_ok_def resource_registry_new_def)

lemma resources_ok_report:
  assumes "resources_ok reg"
  shows "resources_ok (fst (report clk request reg))"
proof (cases "validate_report request")
  case (Inr r)
  then show ?thesis
    using assms validate_report_ok [OF Inr]
    by (auto simp: report_def resources_ok_def Let_def distinct_update)
qed (use assms in \<open>simp add: report_def\<close>)

lemma fresh_report_ok: "resources_ok reg \<Longrightarrow> fresh_report now n b reg = Some r \<Longrightarrow> report_ok r"
  by (auto simp: fresh_report_def resources_ok_def split: option.splits if_splits)

lemma fresh_backend_report_ok: "resources_ok reg \<Longrightarrow> fresh_backend_report now n b reg = Some r \<Longrightarrow> report_ok r"
  by (auto simp: fresh_backend_report_def dest: fresh_report_ok split: option.splits)

end
