(* ===== verification/Router.thy ===== *)
theory Router
  imports Circuit Resources
begin

text \<open>
  Backends, session affinity and backend selection: \<open>src/src/router/backend.rs\<close>,
  \<open>src/src/router/affinity.rs\<close> and \<open>src/src/router/fallback.rs\<close>. The circuit of a backend, shared
  through an \<open>Arc\<close> there, is a field of it here, so a selection returns the backends with the
  circuits it has probed. \<open>nw i\<close> is the monotonic clock when the selection probes backend \<open>i\<close>; it
  probes each backend at most once.
\<close>

section \<open>Backends\<close>

record backend_state =
  bk_id :: string
  bk_url :: string
  bk_node_id :: "string option"
  bk_pool :: string
  bk_workloads :: "workload_kind list"
  bk_health_url :: string
  circuit :: circuit_breaker

definition append_url_path :: "string \<Rightarrow> string \<Rightarrow> string" where
  "append_url_path base_url path = trim_end_matches CHR ''/'' base_url @ ''/'' @ trim_start_matches CHR ''/'' path"

text \<open>\<open>set_url_path\<close> stands for the URL library: parse a base URL and set its path, without query and
  fragment.\<close>

definition join_origin_path :: "(string \<Rightarrow> string \<Rightarrow> string option) \<Rightarrow> string \<Rightarrow> string \<Rightarrow> string option" where
  "join_origin_path set_url_path base_url path = set_url_path base_url path"

definition derive_health_url ::
  "(string \<Rightarrow> string \<Rightarrow> string option) \<Rightarrow> string \<Rightarrow> string option \<Rightarrow> string" where
  "derive_health_url set_url_path base_url health_path =
     (case map_option trim health_path of
        None \<Rightarrow> append_url_path base_url ''models''
      | Some path \<Rightarrow>
          if starts_with path ''http://'' \<or> starts_with path ''https://'' then path
          else if starts_with path ''/'' then
            (case join_origin_path set_url_path base_url path of
               Some u \<Rightarrow> u
             | None \<Rightarrow> trim_end_matches CHR ''/'' base_url @ ''/'' @ trim_start_matches CHR ''/'' path)
          else append_url_path base_url path)"

definition from_config ::
  "(string \<Rightarrow> string \<Rightarrow> string option) \<Rightarrow> backend_config \<Rightarrow> 32 word \<Rightarrow> nat \<Rightarrow> backend_state" where
  "from_config set_url_path config threshold cool =
     \<lparr>bk_id = bc_id config, bk_url = bc_url config, bk_node_id = bc_node_id config,
      bk_pool = bc_pool config, bk_workloads = bc_workloads config,
      bk_health_url = derive_health_url set_url_path (bc_url config) (bc_health_path config),
      circuit = circuit_new threshold cool\<rparr>"

definition backend_new ::
  "(string \<Rightarrow> string \<Rightarrow> string option) \<Rightarrow> string \<Rightarrow> 32 word \<Rightarrow> nat \<Rightarrow> backend_state" where
  "backend_new set_url_path url threshold cool = from_config set_url_path (from_legacy_url 0 url) threshold cool"

text \<open>One turn of the probe task \<open>spawn_health_probe\<close>: \<open>ok\<close> is whether the request got any answer.\<close>

definition health_probe_turn :: "nat \<Rightarrow> bool \<Rightarrow> circuit_breaker \<Rightarrow> circuit_breaker" where
  "health_probe_turn now ok cb = (if ok then record_success cb else record_failure now cb)"

section \<open>Session affinity\<close>

type_synonym session_affinity = "string \<Rightarrow> nat option"

definition affinity_new :: session_affinity where
  "affinity_new = Map.empty"

definition affinity_preferred :: "string \<Rightarrow> session_affinity \<Rightarrow> nat option" where
  "affinity_preferred thread_id aff = aff thread_id"

definition affinity_record :: "string \<Rightarrow> nat \<Rightarrow> session_affinity \<Rightarrow> session_affinity" where
  "affinity_record thread_id backend_index aff = aff(thread_id \<mapsto> backend_index)"

section \<open>Selection\<close>

record resource_rank =
  rk_current_load :: "f64 option"
  rk_available_vram_mb :: nat

fun compare_optional_load :: "f64 option \<Rightarrow> f64 option \<Rightarrow> ordering" where
  "compare_optional_load (Some a) (Some b) =
     (case f64_partial_cmp a b of None \<Rightarrow> Equal | Some o1 \<Rightarrow> o1)"
| "compare_optional_load (Some _) None = Less"
| "compare_optional_load None (Some _) = Greater"
| "compare_optional_load None None = Equal"

definition compare_rank_values :: "resource_rank \<Rightarrow> resource_rank \<Rightarrow> ordering" where
  "compare_rank_values a b =
     then_with (compare_optional_load (rk_current_load a) (rk_current_load b))
       (cmp (rk_available_vram_mb b) (rk_available_vram_mb a))"

definition rank_at :: "resource_rank option list \<Rightarrow> nat \<Rightarrow> resource_rank option" where
  "rank_at ranks a = (case get_at ranks a of None \<Rightarrow> None | Some r \<Rightarrow> r)"

definition compare_resource_rank :: "resource_rank option list \<Rightarrow> nat \<Rightarrow> nat \<Rightarrow> ordering" where
  "compare_resource_rank ranks a b =
     (case (rank_at ranks a, rank_at ranks b) of
        (Some a_rank, Some b_rank) \<Rightarrow> then_with (compare_rank_values a_rank b_rank) (cmp a b)
      | (Some _, None) \<Rightarrow> Less
      | (None, Some _) \<Rightarrow> Greater
      | (None, None) \<Rightarrow> cmp a b)"

text \<open>\<open>backend.circuit.write().await.is_available()\<close>\<close>

definition probe :: "(nat \<Rightarrow> nat) \<Rightarrow> nat \<Rightarrow> backend_state list \<Rightarrow> backend_state list \<times> bool" where
  "probe nw idx bs =
     (case get_at bs idx of
        None \<Rightarrow> (bs, False)
      | Some b \<Rightarrow>
          (case is_available (nw idx) (circuit b) of
             (c, ok) \<Rightarrow> (bs[idx := b\<lparr>circuit := c\<rparr>], ok)))"

definition probe_step ::
  "(nat \<Rightarrow> nat) \<Rightarrow> nat \<Rightarrow> backend_state list \<times> nat list \<Rightarrow> backend_state list \<times> nat list" where
  "probe_step nw idx acc =
     (case acc of (bs, available) \<Rightarrow>
        (case probe nw idx bs of (bs', ok) \<Rightarrow> (bs', if ok then available @ [idx] else available)))"

definition best_available_backend ::
  "(nat \<Rightarrow> nat) \<Rightarrow> backend_state list \<Rightarrow> nat list \<Rightarrow> resource_rank option list
     \<Rightarrow> backend_state list \<times> nat option" where
  "best_available_backend nw backends candidates ranks =
     (case fold (probe_step nw) candidates (backends, []) of
        (bs, available) \<Rightarrow> (bs, min_by (compare_resource_rank ranks) available))"

definition select_backend_excluding_resource ::
  "(nat \<Rightarrow> nat) \<Rightarrow> backend_state list \<Rightarrow> nat option \<Rightarrow> string option \<Rightarrow> nat list \<Rightarrow> nat list
     \<Rightarrow> resource_rank option list \<Rightarrow> backend_state list \<times> nat option" where
  "select_backend_excluding_resource nw backends preferred origin_node excluded ineligible ranks =
     (let open_to = (\<lambda>i. i \<notin> set excluded \<and> i \<notin> set ineligible);
          first = (case origin_node of
                None \<Rightarrow> []
              | Some origin \<Rightarrow>
                  filter (\<lambda>i. open_to i \<and> bk_node_id (backends ! i) = Some origin) [0..<length backends])
      in case best_available_backend nw backends first ranks of
           (bs1, Some idx) \<Rightarrow> (bs1, Some idx)
         | (bs1, None) \<Rightarrow>
             let (bs2, checked, hit) =
               (case preferred of
                  None \<Rightarrow> (bs1, first, None)
                | Some idx \<Rightarrow>
                    if idx \<notin> set first \<and> open_to idx \<and> idx < length bs1 then
                      (case probe nw idx bs1 of
                         (bs', ok) \<Rightarrow> (bs', first @ [idx], if ok then Some idx else None))
                    else (bs1, first, None))
             in case hit of
                  Some idx \<Rightarrow> (bs2, Some idx)
                | None \<Rightarrow>
                    best_available_backend nw bs2
                      (filter (\<lambda>i. i \<notin> set checked \<and> open_to i) [0..<length bs2]) ranks)"

end
