(* ===== verification/Router_Props.thy ===== *)
theory Router_Props
  imports Router
begin

text \<open>
  Facts on the breakers and on selection that the proxy uses, and their properties: when a breaker
  opens and how it recovers, what a selection returns, and what the registry of resource reports
  gives it.
\<close>

section \<open>What a selection probes\<close>

definition up :: "(nat \<Rightarrow> nat) \<Rightarrow> backend_state list \<Rightarrow> nat \<Rightarrow> bool" where
  "up nw bs i \<longleftrightarrow> lets_through (nw i) (circuit (bs ! i))"

definition probed :: "(nat \<Rightarrow> nat) \<Rightarrow> nat set \<Rightarrow> backend_state list \<Rightarrow> backend_state list" where
  "probed nw S bs = map (\<lambda>i. if i \<in> S then (bs ! i)\<lparr>circuit := fst (is_available (nw i) (circuit (bs ! i)))\<rparr>
     else bs ! i) [0..<length bs]"

lemma length_probed [simp]: "length (probed nw S bs) = length bs"
  by (simp add: probed_def)

lemma nth_probed: "i < length bs \<Longrightarrow> probed nw S bs ! i =
    (if i \<in> S then (bs ! i)\<lparr>circuit := fst (is_available (nw i) (circuit (bs ! i)))\<rparr> else bs ! i)"
  by (simp add: probed_def)

lemma probed_empty [simp]: "probed nw {} bs = bs"
  by (rule nth_equalityI) (simp_all add: nth_probed)

lemma probed_static [simp]:
  assumes "i < length bs"
  shows "bk_node_id (probed nw S bs ! i) = bk_node_id (bs ! i)" "bk_pool (probed nw S bs ! i) = bk_pool (bs ! i)"
    "bk_workloads (probed nw S bs ! i) = bk_workloads (bs ! i)" "bk_id (probed nw S bs ! i) = bk_id (bs ! i)"
    "bk_url (probed nw S bs ! i) = bk_url (bs ! i)"
  using assms by (simp_all add: nth_probed)

lemma probed_probed: "S \<inter> T = {} \<Longrightarrow> probed nw T (probed nw S bs) = probed nw (S \<union> T) bs"
  by (rule nth_equalityI) (auto simp: nth_probed)

lemma up_probed [simp]: "i \<notin> S \<Longrightarrow> i < length bs \<Longrightarrow> up nw (probed nw S bs) i = up nw bs i"
  by (simp add: up_def nth_probed)

lemma probe_eq: "i < length bs \<Longrightarrow> probe nw i bs = (probed nw {i} bs, up nw bs i)"
proof -
  assume i: "i < length bs"
  have "bs[i := (bs ! i)\<lparr>circuit := fst (is_available (nw i) (circuit (bs ! i)))\<rparr>] = probed nw {i} bs"
    by (rule nth_equalityI) (auto simp: nth_probed nth_list_update)
  then show ?thesis using i by (simp add: probe_def get_at_def up_def is_available_iff [symmetric] case_prod_unfold)
qed

lemma probe_step_eq:
  "i < length bs \<Longrightarrow>
     probe_step nw i (bs, av) = (probed nw {i} bs, if up nw bs i then av @ [i] else av)"
  by (simp add: probe_step_def probe_eq)

lemma probe_fold:
  assumes "distinct cs" "set cs \<subseteq> {..<length bs}"
  shows "fold (probe_step nw) cs (bs, av) = (probed nw (set cs) bs, av @ filter (up nw bs) cs)"
  using assms
proof (induction cs arbitrary: bs av)
  case (Cons c cs)
  have c: "c < length bs" "c \<notin> set cs" "distinct cs" "set cs \<subseteq> {..<length bs}" using Cons.prems by simp_all
  have "filter (up nw (probed nw {c} bs)) cs = filter (up nw bs) cs"
    using c(2,4) by (intro filter_cong refl up_probed) auto
  moreover have "probed nw (set cs) (probed nw {c} bs) = probed nw (set (c # cs)) bs"
    using c(2) by (simp add: probed_probed insert_commute)
  ultimately show ?case using c by (simp add: probe_step_eq Cons.IH)
qed simp

lemma best_available_eq:
  assumes "distinct cs" "set cs \<subseteq> {..<length bs}"
  shows "best_available_backend nw bs cs ranks =
    (probed nw (set cs) bs, min_by (compare_resource_rank ranks) (filter (up nw bs) cs))"
  by (simp add: best_available_backend_def probe_fold [OF assms])

section \<open>The order of resource ranks\<close>

text \<open>Loads are numbers (registration refuses others), so the comparison is the lexicographic order
  of these keys: backends with a report before those without, a known load before an unknown one,
  smaller loads first, then more free memory, then the declared order.\<close>

definition rank_key :: "resource_rank option list \<Rightarrow> nat \<Rightarrow> nat \<times> nat \<times> rat \<times> int \<times> nat" where
  "rank_key ranks i =
     (case rank_at ranks i of
        None \<Rightarrow> (1, 0, 0, 0, i)
      | Some r \<Rightarrow>
          (case rk_current_load r of
             Some (Num q) \<Rightarrow> (0, 0, q, - int (rk_available_vram_mb r), i)
           | _ \<Rightarrow> (0, 1, 0, - int (rk_available_vram_mb r), i)))"

definition ranks_ok :: "resource_rank option list \<Rightarrow> bool" where
  "ranks_ok ranks \<longleftrightarrow>
     (\<forall>i r load. rank_at ranks i = Some r \<longrightarrow> rk_current_load r = Some load \<longrightarrow> (\<exists>q. load = Num q))"

lemma f64_cmp_Num [simp]: "f64_partial_cmp (Num a) (Num b) = Some (cmp a b)"
  by (auto simp: f64_partial_cmp_def cmp_def)

lemma compare_rank_key:
  assumes "ranks_ok ranks"
  shows "compare_resource_rank ranks a b \<noteq> Greater \<longleftrightarrow> rank_key ranks a \<le> rank_key ranks b"
proof -
  have num: "(\<exists>q. rk_current_load r = Some (Num q)) \<or> rk_current_load r = None"
    if "rank_at ranks i = Some r" for i r
    using that assms by (cases "rk_current_load r") (auto simp: ranks_ok_def)
  consider "rank_at ranks a = None" | "rank_at ranks b = None" "rank_at ranks a \<noteq> None"
    | ra rb where "rank_at ranks a = Some ra" "rank_at ranks b = Some rb" by fastforce
  then show ?thesis
  proof cases
    case 1
    then show ?thesis
      using num [of b] by (cases "rank_at ranks b") (auto simp: compare_resource_rank_def rank_key_def cmp_def)
  next
    case 2
    then show ?thesis
      using num [of a] by (auto simp: compare_resource_rank_def rank_key_def)
  next
    case (3 ra rb)
    then show ?thesis
      using num [OF 3(1)] num [OF 3(2)]
      by (elim disjE exE) (auto simp: compare_resource_rank_def rank_key_def compare_rank_values_def not_less)
  qed
qed

lemma min_rank_le:
  assumes ok: "ranks_ok ranks" and m: "min_by (compare_resource_rank ranks) xs = Some m" and y: "y \<in> set xs"
  shows "rank_key ranks m \<le> rank_key ranks y"
proof -
  note key = compare_rank_key [OF ok]
  have "compare_resource_rank ranks m y \<noteq> Greater"
  proof (rule min_by_le [where A = UNIV, OF _ _ _ _ m y])
    fix a b d assume "compare_resource_rank ranks a b \<noteq> Greater" "compare_resource_rank ranks b d \<noteq> Greater"
    then show "compare_resource_rank ranks a d \<noteq> Greater" unfolding key by (rule order_trans)
  next
    fix a b assume "compare_resource_rank ranks a b = Greater"
    then have "\<not> rank_key ranks a \<le> rank_key ranks b" using key by blast
    then show "compare_resource_rank ranks b a \<noteq> Greater" unfolding key by simp
  qed (simp_all add: key)
  then show ?thesis unfolding key .
qed

section \<open>Selection\<close>

definition eligible :: "(nat \<Rightarrow> nat) \<Rightarrow> backend_state list \<Rightarrow> nat list \<Rightarrow> nat list \<Rightarrow> nat \<Rightarrow> bool" where
  "eligible nw bs excluded ineligible i \<longleftrightarrow>
     i < length bs \<and> i \<notin> set excluded \<and> i \<notin> set ineligible \<and> up nw bs i"

definition local_to :: "backend_state list \<Rightarrow> string option \<Rightarrow> nat \<Rightarrow> bool" where
  "local_to bs origin i \<longleftrightarrow> origin \<noteq> None \<and> bk_node_id (bs ! i) = origin"

definition first_choice :: "backend_state list \<Rightarrow> string option \<Rightarrow> nat list \<Rightarrow> nat list \<Rightarrow> nat list" where
  "first_choice bs origin excluded ineligible =
     filter (\<lambda>i. i \<notin> set excluded \<and> i \<notin> set ineligible \<and> local_to bs origin i) [0..<length bs]"

text \<open>The rest of the selection after no backend of the origin node was up: the preferred one, then
  all others.\<close>

definition rest_choice :: "backend_state list \<Rightarrow> nat list \<Rightarrow> nat list \<Rightarrow> nat list \<Rightarrow> nat list" where
  "rest_choice bs checked excluded ineligible =
     filter (\<lambda>i. i \<notin> set checked \<and> i \<notin> set excluded \<and> i \<notin> set ineligible) [0..<length bs]"

lemma rest_choice_probed [simp]: "rest_choice (probed nw S bs) = rest_choice bs"
  by (simp add: rest_choice_def fun_eq_iff)

lemma select_eq:
  fixes bs :: "backend_state list"
  defines "best \<equiv> \<lambda>cs ranks. min_by (compare_resource_rank ranks) cs"
  defines "first \<equiv> \<lambda>origin excluded ineligible. first_choice bs origin excluded ineligible"
  shows "select_backend_excluding_resource nw bs preferred origin excluded ineligible ranks =
    (let cs = first origin excluded ineligible in
     case best (filter (up nw bs) cs) ranks of
       Some i \<Rightarrow> (probed nw (set cs) bs, Some i)
     | None \<Rightarrow>
         (case preferred of
            Some p \<Rightarrow>
              if p \<notin> set cs \<and> p \<notin> set excluded \<and> p \<notin> set ineligible \<and> p < length bs then
                if up nw bs p then (probed nw (insert p (set cs)) bs, Some p)
                else (probed nw (insert p (set cs) \<union> set (rest_choice bs (cs @ [p]) excluded ineligible)) bs,
                      best (filter (up nw bs) (rest_choice bs (cs @ [p]) excluded ineligible)) ranks)
              else (probed nw (set cs \<union> set (rest_choice bs cs excluded ineligible)) bs,
                    best (filter (up nw bs) (rest_choice bs cs excluded ineligible)) ranks)
          | None \<Rightarrow> (probed nw (set cs \<union> set (rest_choice bs cs excluded ineligible)) bs,
                    best (filter (up nw bs) (rest_choice bs cs excluded ineligible)) ranks)))"
proof -
  let ?cs = "first_choice bs origin excluded ineligible"
  have cs: "(case origin of None \<Rightarrow> [] | Some n \<Rightarrow> filter (\<lambda>i. (i \<notin> set excluded \<and> i \<notin> set ineligible) \<and>
      bk_node_id (bs ! i) = Some n) [0..<length bs]) = ?cs"
    by (auto simp: first_choice_def local_to_def split: option.split intro: filter_cong)
  have d: "distinct ?cs" "set ?cs \<subseteq> {..<length bs}" by (auto simp: first_choice_def)
  have best: "best_available_backend nw (probed nw S bs) (rest_choice bs ck excluded ineligible) ranks =
      (probed nw (S \<union> set (rest_choice bs ck excluded ineligible)) bs,
       best (filter (up nw bs) (rest_choice bs ck excluded ineligible)) ranks)"
    if "S \<subseteq> set ck" for S ck
  proof -
    let ?r = "rest_choice bs ck excluded ineligible"
    have r: "distinct ?r" "set ?r \<subseteq> {..<length (probed nw S bs)}" "S \<inter> set ?r = {}" "set ?r \<subseteq> {..<length bs}"
      using that by (auto simp: rest_choice_def)
    have "filter (up nw (probed nw S bs)) ?r = filter (up nw bs) ?r"
      using r(3,4) by (intro filter_cong refl up_probed) auto
    then show ?thesis by (simp add: best_available_eq [OF r(1,2)] probed_probed [OF r(3)] best_def)
  qed
  have rest: "filter (\<lambda>i. i \<notin> set ck \<and> i \<notin> set excluded \<and> i \<notin> set ineligible) [0..<length bs] =
      rest_choice bs ck excluded ineligible" for ck by (simp add: rest_choice_def)
  show ?thesis
    unfolding select_backend_excluding_resource_def Let_def cs best_available_eq [OF d] first_def
    using best [of "set ?cs" ?cs] best [of "insert p (set ?cs)" "?cs @ [p]" for p]
    by (simp add: rest best_def probe_eq probed_probed up_probed Un_commute insert_commute
        split: option.split)
qed

lemma best_None: "min_by (compare_resource_rank ranks) (filter (up nw bs) cs) = None \<Longrightarrow>
    i \<in> set cs \<Longrightarrow> \<not> up nw bs i"
  by (simp add: filter_empty_conv)

lemma best_Some:
  assumes "ranks_ok ranks" "min_by (compare_resource_rank ranks) (filter (up nw bs) cs) = Some m"
  shows "m \<in> set cs" "up nw bs m" "\<And>i. i \<in> set cs \<Longrightarrow> up nw bs i \<Longrightarrow> rank_key ranks m \<le> rank_key ranks i"
  using min_by_in [OF assms(2)] min_rank_le [OF assms] by auto

lemma in_first: "i \<in> set (first_choice bs origin excluded ineligible) \<and> up nw bs i \<longleftrightarrow>
    eligible nw bs excluded ineligible i \<and> local_to bs origin i"
  by (auto simp: first_choice_def eligible_def)

lemma in_rest: "i \<in> set (rest_choice bs checked excluded ineligible) \<and> up nw bs i \<longleftrightarrow>
    eligible nw bs excluded ineligible i \<and> i \<notin> set checked"
  by (auto simp: rest_choice_def eligible_def)

text \<open>What the breakers look like after a selection, and which were probed.\<close>

lemma select_probed:
  "\<exists>S. fst (select_backend_excluding_resource nw bs preferred origin excluded ineligible ranks) = probed nw S bs \<and>
     S \<subseteq> {i. i < length bs \<and> i \<notin> set excluded \<and> i \<notin> set ineligible}"
proof -
  have "set (first_choice bs origin excluded ineligible) \<subseteq> {i. i < length bs \<and> i \<notin> set excluded \<and> i \<notin> set ineligible}"
    "set (rest_choice bs ck excluded ineligible) \<subseteq> {i. i < length bs \<and> i \<notin> set excluded \<and> i \<notin> set ineligible}" for ck
    by (auto simp: first_choice_def rest_choice_def)
  then show ?thesis
    unfolding select_eq Let_def by (fastforce split: option.split)
qed

lemma select_some:
  assumes "snd (select_backend_excluding_resource nw bs preferred origin excluded ineligible ranks) = Some i"
  shows "\<exists>S. fst (select_backend_excluding_resource nw bs preferred origin excluded ineligible ranks) = probed nw S bs \<and>
    S \<subseteq> {j. j < length bs \<and> j \<notin> set excluded \<and> j \<notin> set ineligible} \<and> i \<in> S"
proof -
  let ?cs = "first_choice bs origin excluded ineligible"
  have sub: "set ?cs \<subseteq> {j. j < length bs \<and> j \<notin> set excluded \<and> j \<notin> set ineligible}"
    "set (rest_choice bs ck excluded ineligible) \<subseteq> {j. j < length bs \<and> j \<notin> set excluded \<and> j \<notin> set ineligible}" for ck
    by (auto simp: first_choice_def rest_choice_def)
  have best: "min_by (compare_resource_rank ranks) (filter (up nw bs) cs) = Some i \<Longrightarrow> i \<in> set cs" for cs
    using min_by_in by fastforce
  show ?thesis
    using assms sub unfolding select_eq Let_def
    by (auto split: option.splits if_splits dest!: best)
qed

lemma select_none:
  assumes "snd (select_backend_excluding_resource nw bs preferred origin excluded ineligible ranks) = None"
  shows "fst (select_backend_excluding_resource nw bs preferred origin excluded ineligible ranks) =
      probed nw {i. i < length bs \<and> i \<notin> set excluded \<and> i \<notin> set ineligible} bs \<and>
    (\<forall>i. \<not> eligible nw bs excluded ineligible i)"
proof -
  let ?cs = "first_choice bs origin excluded ineligible"
  have all: "set ck \<union> set (rest_choice bs ck excluded ineligible) = {i. i < length bs \<and> i \<notin> set excluded \<and> i \<notin> set ineligible}"
    if "set ck \<subseteq> {i. i < length bs \<and> i \<notin> set excluded \<and> i \<notin> set ineligible}" for ck
    using that by (auto simp: rest_choice_def)
  have cs: "set ?cs \<subseteq> {i. i < length bs \<and> i \<notin> set excluded \<and> i \<notin> set ineligible}"
    by (auto simp: first_choice_def)
  have rest: ?thesis
    if "fst (select_backend_excluding_resource nw bs preferred origin excluded ineligible ranks) =
        probed nw (set ck \<union> set (rest_choice bs ck excluded ineligible)) bs"
      "\<forall>i \<in> set ck. \<not> up nw bs i" "set ck \<subseteq> {i. i < length bs \<and> i \<notin> set excluded \<and> i \<notin> set ineligible}"
      "filter (up nw bs) (rest_choice bs ck excluded ineligible) = []" for ck
    using that(1,2,4) all [OF that(3)] by (auto simp: eligible_def filter_empty_conv)
  have none: "filter (up nw bs) ?cs = []" using assms unfolding select_eq Let_def by (auto split: option.splits)
  then have cs_down: "\<forall>i \<in> set ?cs. \<not> up nw bs i" by (simp add: filter_empty_conv)
  show ?thesis
  proof (cases "\<exists>p. preferred = Some p \<and> p \<notin> set ?cs \<and> p \<notin> set excluded \<and> p \<notin> set ineligible \<and> p < length bs")
    case True
    then obtain p where p: "preferred = Some p" "p \<notin> set ?cs" "p \<notin> set excluded" "p \<notin> set ineligible" "p < length bs"
      by blast
    then have "\<not> up nw bs p" using assms none unfolding select_eq Let_def by (auto split: option.splits)
    then show ?thesis
      using rest [of "?cs @ [p]"] assms none p cs cs_down unfolding select_eq Let_def by simp
  next
    case False
    then show ?thesis
      using rest [OF _ cs_down cs] assms none unfolding select_eq Let_def
      by (cases preferred) (auto split: if_splits)
  qed
qed

text \<open>The choice, for any eligibility of the candidates.\<close>

definition best_choice :: "resource_rank option list \<Rightarrow> (nat \<Rightarrow> bool) \<Rightarrow> nat \<Rightarrow> bool" where
  "best_choice ranks P i \<longleftrightarrow> P i \<and> (\<forall>j. P j \<longrightarrow> rank_key ranks i \<le> rank_key ranks j)"

lemma rest_best:
  assumes "ranks_ok ranks" and ck: "\<And>j. j \<in> set ck \<Longrightarrow> \<not> eligible nw bs excluded ineligible j"
  shows "case min_by (compare_resource_rank ranks) (filter (up nw bs) (rest_choice bs ck excluded ineligible)) of
      None \<Rightarrow> \<forall>i. \<not> eligible nw bs excluded ineligible i
    | Some i \<Rightarrow> eligible nw bs excluded ineligible i \<and> best_choice ranks (eligible nw bs excluded ineligible) i"
proof (cases "min_by (compare_resource_rank ranks) (filter (up nw bs) (rest_choice bs ck excluded ineligible))")
  case None
  then show ?thesis using best_None [OF None] in_rest [of _ bs ck excluded ineligible nw] ck by auto
next
  case (Some m)
  note m = best_Some [OF assms(1) Some]
  have "eligible nw bs excluded ineligible m" using m(1,2) in_rest by blast
  moreover have "rank_key ranks m \<le> rank_key ranks j" if "eligible nw bs excluded ineligible j" for j
    using m(3) that in_rest ck by blast
  ultimately show ?thesis using Some by (simp add: best_choice_def)
qed

text \<open>Without an eligible backend on the origin node: the preferred one, else the best of the rest.\<close>

lemma select_without_local:
  fixes nw :: "nat \<Rightarrow> nat" and bs :: "backend_state list" and excluded ineligible :: "nat list"
  defines "ok \<equiv> eligible nw bs excluded ineligible"
  assumes ranks: "ranks_ok ranks"
    and none: "min_by (compare_resource_rank ranks) (filter (up nw bs) (first_choice bs origin excluded ineligible)) = None"
    and cs: "\<And>j. j \<in> set (first_choice bs origin excluded ineligible) \<Longrightarrow> \<not> ok j"
  shows "case snd (select_backend_excluding_resource nw bs preferred origin excluded ineligible ranks) of
      None \<Rightarrow> \<forall>i. \<not> ok i
    | Some i \<Rightarrow> ok i \<and>
        (if \<exists>p. preferred = Some p \<and> ok p then preferred = Some i else best_choice ranks ok i)"
proof -
  let ?cs = "first_choice bs origin excluded ineligible"
  note rest = rest_best [OF ranks, of _ nw bs excluded ineligible, folded ok_def]
  have p_in: "ok p \<longleftrightarrow> p \<notin> set ?cs \<and> p \<notin> set excluded \<and> p \<notin> set ineligible \<and> p < length bs \<and> up nw bs p" for p
    using cs by (auto simp: ok_def eligible_def)
  show ?thesis
  proof (cases preferred)
    case N: None
    show ?thesis using rest [of ?cs, OF cs] by (simp add: select_eq none N Let_def cong: option.case_cong)
  next
    case (Some p)
    show ?thesis
    proof (cases "ok p")
      case True
      then show ?thesis using Some p_in [of p] by (simp add: select_eq none)
    next
      case False
      then have ck: "\<not> ok j" if "j \<in> set (?cs @ [p])" for j using that cs by auto
      have "case snd (select_backend_excluding_resource nw bs preferred origin excluded ineligible ranks) of
          None \<Rightarrow> \<forall>i. \<not> ok i | Some i \<Rightarrow> ok i \<and> best_choice ranks ok i"
        using rest [of ?cs, OF cs] rest [of "?cs @ [p]", OF ck] p_in [of p] False by (simp add: select_eq none Some Let_def) auto
      then show ?thesis using False Some by (auto split: option.splits)
    qed
  qed
qed

text \<open>C14: Backend selection: it finds a backend exactly if some backend is eligible (not attempted, not
  excluded by policy, breaker letting it through). A backend on the origin node wins if one is eligible,
  else the thread's preferred backend if it is, else any; among several the choice is the one of
  least load, then most free memory, then declared order.\<close>

theorem select_backend_correct:
  fixes nw :: "nat \<Rightarrow> nat" and bs :: "backend_state list" and excluded ineligible :: "nat list"
  assumes "ranks_ok ranks"
  defines "ok \<equiv> eligible nw bs excluded ineligible"
  shows "case snd (select_backend_excluding_resource nw bs preferred origin excluded ineligible ranks) of
      None \<Rightarrow> \<forall>i. \<not> ok i
    | Some i \<Rightarrow> ok i \<and>
        (if \<exists>j. ok j \<and> local_to bs origin j then best_choice ranks (\<lambda>j. ok j \<and> local_to bs origin j) i
         else if \<exists>p. preferred = Some p \<and> ok p then preferred = Some i
         else best_choice ranks ok i)"
proof -
  let ?cs = "first_choice bs origin excluded ineligible"
  note in_f = in_first [of _ bs origin excluded ineligible nw, folded ok_def]
  show ?thesis
  proof (cases "min_by (compare_resource_rank ranks) (filter (up nw bs) ?cs)")
    case (Some m)
    note m = best_Some [OF assms(1) Some]
    have "ok m \<and> local_to bs origin m" using m(1,2) in_f by blast
    moreover have "rank_key ranks m \<le> rank_key ranks j" if "ok j \<and> local_to bs origin j" for j
      using m(3) that in_f by blast
    ultimately show ?thesis by (auto simp: select_eq Some best_choice_def)
  next
    case None
    have no_local: "\<not> (ok j \<and> local_to bs origin j)" for j
      using best_None [OF None] in_f by blast
    then have cs: "\<not> ok j" if "j \<in> set ?cs" for j
      using that by (auto simp: first_choice_def)
    have "\<not> (\<exists>j. ok j \<and> local_to bs origin j)" using no_local by blast
    then show ?thesis
      using select_without_local [OF assms(1) None, folded ok_def, OF cs, of preferred] by (simp only: if_False)
  qed
qed

definition ex_backend :: "string \<Rightarrow> circuit_breaker \<Rightarrow> backend_state" where
  "ex_backend n c = \<lparr>bk_id = n, bk_url = ''http://b/'', bk_node_id = Some n, bk_pool = ''default'',
     bk_workloads = [ChatCompletions, Embeddings], bk_health_url = ''http://b/models'', circuit = c\<rparr>"

definition ex_open :: circuit_breaker where
  "ex_open = (circuit_new 1 100)\<lparr>cb_state := Open 50\<rparr>"

lemma select_backend_correct_witness:
  "snd (select_backend_excluding_resource (\<lambda>_. 60)
      [ex_backend ''a'' ex_open, ex_backend ''b'' (circuit_new 1 100)] (Some 0) None [] [] []) = Some 1"
proof -
  let ?bs = "[ex_backend ''a'' ex_open, ex_backend ''b'' (circuit_new 1 100)]"
  have el: "eligible (\<lambda>_. 60) ?bs [] [] j \<longleftrightarrow> j = 1" for j
    by (cases j rule: nat.exhaust) (auto simp: eligible_def up_def lets_through_def ex_backend_def ex_open_def circuit_new_def)
  have "ranks_ok []" by (simp add: ranks_ok_def rank_at_def get_at_def)
  from select_backend_correct [OF this, where nw = "\<lambda>_. 60" and bs = ?bs and excluded = "[]" and
      ineligible = "[]" and preferred = "Some 0" and origin = None] show ?thesis
    by (auto simp: el local_to_def split: option.splits)
qed

section \<open>Circuit breakers\<close>

text \<open>A breaker opens exactly at the threshold: with fewer failures since the last success than
  \<open>failure_threshold\<close> it is closed and lets every request through; a failure that reaches the threshold
  (before the counter wraps at 2^32) opens it, and then it refuses requests for the cooldown and lets
  them through afterwards.\<close>

lemma breaker_opens_at_threshold:
  "if failure_count es < unat th
   then cb_state (circuit_run es (circuit_new th cool)) = Closed \<and>
     snd (is_available t (circuit_run es (circuit_new th cool)))
   else failure_count es < 2 ^ 32 \<and> (\<exists>es'. es = es' @ [Failure now]) \<longrightarrow>
     cb_state (circuit_run es (circuit_new th cool)) = Open now \<and>
     (snd (is_available t (circuit_run es (circuit_new th cool))) \<longleftrightarrow> cool \<le> t - now)"
proof (cases "failure_count es < unat th")
  case True
  then have "cb_state (circuit_run es (circuit_new th cool)) = Closed"
    using tripped_failures [of es th cool] by linarith
  then show ?thesis using True by (simp add: is_available_def)
next
  case False
  have "cb_state (circuit_run es (circuit_new th cool)) = Open now \<and>
     (snd (is_available t (circuit_run es (circuit_new th cool))) \<longleftrightarrow> cool \<le> t - now)"
    if "failure_count es < 2 ^ 32" "es = es' @ [Failure now]" for es'
  proof -
    have "unat th \<le> failure_count es mod 2 ^ 32" using False that(1) by simp
    from failure_opens [OF this that(2)] show ?thesis
      by (simp add: is_available_iff lets_through_def) (simp add: circuit_new_def)
  qed
  then show ?thesis unfolding if_not_P [OF False] by blast
qed

text \<open>The recovery state does not limit requests: once the cooldown of an open breaker is over, any
  number of requests is let through before the first outcome is known (the comment at \<open>HalfOpen\<close>
  says that one request gets through).\<close>

theorem half_open_lets_all_through:
  assumes "cb_state cb = Open since" "cooldown cb \<le> t - since" "\<forall>e \<in> set es. \<exists>now. e = Probe now"
  shows "cb_state (circuit_run (Probe t # es) cb) = HalfOpen \<and>
    snd (is_available now (circuit_run (Probe t # es) cb))"
proof -
  have "cb_state (circuit_run es cb') = HalfOpen"
    if "cb_state cb' = HalfOpen" "\<forall>e \<in> set es. \<exists>now. e = Probe now" for cb' es
    using that by (induction es arbitrary: cb') (auto simp: circuit_run_def is_available_def)
  from this [OF _ assms(3)] have "cb_state (circuit_run (Probe t # es) cb) = HalfOpen"
    using assms(1,2) by (simp add: circuit_run_def is_available_def)
  then show ?thesis by (simp add: is_available_def)
qed

lemma half_open_lets_all_through_witness:
  "snd (is_available 203 (circuit_run [Probe 200, Probe 201, Probe 202] ex_open))"
  using half_open_lets_all_through [of ex_open 50 200 "[Probe 201, Probe 202]" 203]
  by (simp add: ex_open_def circuit_new_def)

section \<open>Resource reports\<close>

definition key_of :: "resource_report \<Rightarrow> string \<times> string" where
  "key_of r = (rp_node_id r, case rp_backend_id r of None \<Rightarrow> [] | Some b \<Rightarrow> b)"

definition report_run :: "nat \<Rightarrow> (clock \<times> resource_report_request) list \<Rightarrow> resource_registry" where
  "report_run stale rqs = fold (\<lambda>(clk, rq) reg. fst (report clk rq reg)) rqs (resource_registry_new stale)"

lemma report_run_simps [simp]:
  "report_run stale [] = resource_registry_new stale"
  "report_run stale (rqs @ [(clk, rq)]) = fst (report clk rq (report_run stale rqs))"
  by (simp_all add: report_run_def)

lemma report_run_stale [simp]: "rr_stale_after (report_run stale rqs) = stale"
proof (induction rqs rule: rev_induct)
  case (snoc x rqs)
  then show ?case
    by (cases x; cases "validate_report (snd x)") (simp_all add: report_def Let_def)
qed (simp add: resource_registry_new_def)

lemma report_run_ok: "resources_ok (report_run stale rqs)"
proof (induction rqs rule: rev_induct)
  case (snoc x rqs)
  then show ?case by (cases x) (simp add: resources_ok_report)
qed (simp add: resources_ok_new)

definition last_report ::
  "(clock \<times> resource_report_request) list \<Rightarrow> string \<times> string \<Rightarrow> clock \<Rightarrow> resource_report \<Rightarrow> bool" where
  "last_report rqs k clk r \<longleftrightarrow> (\<exists>pre rq post. rqs = pre @ (clk, rq) # post \<and> validate_report rq = Inr r \<and>
     key_of r = k \<and> (\<forall>(c, q) \<in> set post. \<forall>r'. validate_report q = Inr r' \<longrightarrow> key_of r' \<noteq> k))"

lemma last_report_snoc:
  assumes "last_report rqs k clk r" "\<And>r'. validate_report q = Inr r' \<Longrightarrow> key_of r' \<noteq> k"
  shows "last_report (rqs @ [(c, q)]) k clk r"
proof -
  from assms(1) obtain pre rq post where p: "rqs = pre @ (clk, rq) # post" "validate_report rq = Inr r"
    "key_of r = k" "\<forall>(c, q) \<in> set post. \<forall>r'. validate_report q = Inr r' \<longrightarrow> key_of r' \<noteq> k"
    unfolding last_report_def by blast
  have "rqs @ [(c, q)] = pre @ (clk, rq) # (post @ [(c, q)])" by (simp add: p(1))
  moreover have "\<forall>(c, q) \<in> set (post @ [(c, q)]). \<forall>r'. validate_report q = Inr r' \<longrightarrow> key_of r' \<noteq> k"
    using p(4) assms(2) by auto
  ultimately show ?thesis unfolding last_report_def using p(2,3) by blast
qed

lemma lookup_last:
  "map_of (reports (report_run stale rqs)) k = Some e \<Longrightarrow>
     \<exists>clk. last_report rqs k clk (re_report e) \<and> re_observed_at e = mono clk"
proof (induction rqs arbitrary: e rule: rev_induct)
  case (snoc x rqs)
  obtain c q where x: "x = (c, q)" by (cases x)
  show ?case
  proof (cases "\<exists>r. validate_report q = Inr r \<and> key_of r = k")
    case True
    then obtain r where r: "validate_report q = Inr r" "key_of r = k" by blast
    then have e: "re_report e = r" "re_observed_at e = mono c"
      using snoc.prems by (auto simp: x report_def key_of_def Let_def)
    have "last_report (rqs @ [(c, q)]) k c r"
      unfolding last_report_def using r by (intro exI [of _ rqs] exI [of _ q] exI [of _ "[]"]) simp
    then show ?thesis using e x by auto
  next
    case False
    then have "map_of (reports (report_run stale rqs)) k = Some e"
      using snoc.prems by (cases "validate_report q") (auto simp: x report_def key_of_def Let_def split: if_splits)
    from snoc.IH [OF this] obtain clk where "last_report rqs k clk (re_report e)" "re_observed_at e = mono clk"
      by blast
    then show ?thesis using last_report_snoc [of rqs k clk "re_report e" q c] False x by blast
  qed
qed (simp add: resource_registry_new_def)

text \<open>What routing reads of the resource registry: after any reports, the report it uses is the last
  accepted one for the backend, or else for the node, not older than the stale timeout; its load is
  between 0 and 1 if it has one and its available memory is the total less the reserved.\<close>

theorem fresh_report_is_last:
  assumes "fresh_backend_report now n b (report_run stale rqs) = Some r"
  shows "report_ok r \<and>
    (\<exists>clk k. k \<in> {(n, b), (n, [])} \<and> last_report rqs k clk r \<and> now - mono clk \<le> stale)"
proof -
  have ok: "report_ok r" by (rule fresh_backend_report_ok [OF report_run_ok assms])
  have "\<exists>clk. last_report rqs k clk r \<and> now - mono clk \<le> stale"
    if "fresh_report now n b' (report_run stale rqs) = Some r" "k = (n, case b' of None \<Rightarrow> [] | Some x \<Rightarrow> x)" for b' k
  proof -
    from that obtain e where e: "map_of (reports (report_run stale rqs)) k = Some e" "re_report e = r"
      "now - re_observed_at e \<le> stale"
      by (auto simp: fresh_report_def split: option.splits if_splits)
    then show ?thesis using lookup_last [OF e(1)] by auto
  qed
  note use = this
  have "fresh_report now n (Some b) (report_run stale rqs) = Some r \<or> fresh_report now n None (report_run stale rqs) = Some r"
    using assms by (auto simp: fresh_backend_report_def split: option.splits)
  then have "\<exists>clk k. k \<in> {(n, b), (n, [])} \<and> last_report rqs k clk r \<and> now - mono clk \<le> stale"
    using use [of "Some b" "(n, b)"] use [of None "(n, [])"] by auto
  with ok show ?thesis ..
qed

definition ex_report :: resource_report_request where
  "ex_report = \<lparr>rq_node_id = ''n1'', rq_backend_id = None, rq_total_vram_mb = 10, rq_reserved_vram_mb = 4,
     rq_current_load = Some (Num (1 / 2))\<rparr>"

lemma fresh_report_is_last_witness:
  "\<exists>r. fresh_backend_report 9 ''n1'' ''b1'' (report_run 5 [(\<lparr>wall = 0, mono = 7\<rparr>, ex_report)]) = Some r \<and>
     report_ok r"
proof -
  have "\<exists>r. fresh_backend_report 9 ''n1'' ''b1'' (report_run 5 [(\<lparr>wall = 0, mono = 7\<rparr>, ex_report)]) = Some r"
    by (simp add: report_run_def report_def ex_report_def validate_report_def eval_defs Let_def
        resource_registry_new_def fresh_backend_report_def fresh_report_def)
  then obtain r where r: "fresh_backend_report 9 ''n1'' ''b1'' (report_run 5 [(\<lparr>wall = 0, mono = 7\<rparr>, ex_report)]) = Some r"
    by blast
  from fresh_report_is_last [OF this] r show ?thesis by blast
qed

end
