(* ===== verification/Priority_Limiter.thy ===== *)
theory Priority_Limiter
  imports Config_Types
begin

text \<open>
  The per-priority concurrency limiter, \<open>src/src/priority.rs\<close>. The tokio semaphore is a parameter:
  \<open>semaphore_ops\<close> has the operations the limiter calls, \<open>semaphore_laws\<close> what they are documented to
  do. A permit that lives is counted in its bucket; dropping it runs \<open>Drop for PriorityPermit\<close>, which
  lowers the counter, and then drops the semaphore's permit.
\<close>

section \<open>The semaphore\<close>

record 's semaphore_ops =
  sem_new :: "nat \<Rightarrow> 's"
  sem_try_acquire :: "'s \<Rightarrow> 's option"
  sem_release :: "'s \<Rightarrow> 's"

definition semaphore_laws :: "'s semaphore_ops \<Rightarrow> ('s \<Rightarrow> nat) \<Rightarrow> bool" where
  "semaphore_laws ops permits \<longleftrightarrow>
     (\<forall>n. permits (sem_new ops n) = n) \<and>
     (\<forall>s. case sem_try_acquire ops s of None \<Rightarrow> permits s = 0 | Some s' \<Rightarrow> permits s = permits s' + 1) \<and>
     (\<forall>s. permits (sem_release ops s) = permits s + 1)"

section \<open>The limiter\<close>

record 's priority_bucket =
  bucket_limit :: nat
  bucket_semaphore :: 's
  bucket_in_flight :: nat

record 's priority_limiter =
  realtime_bucket :: "'s priority_bucket"
  batch_bucket :: "'s priority_bucket"
  background_bucket :: "'s priority_bucket"

record priority_snapshot =
  sn_priority :: priority
  sn_limit :: nat
  sn_in_flight :: nat

definition bucket_new :: "'s semaphore_ops \<Rightarrow> nat \<Rightarrow> 's priority_bucket" where
  "bucket_new ops n = \<lparr>bucket_limit = n, bucket_semaphore = sem_new ops n, bucket_in_flight = 0\<rparr>"

definition limiter_new :: "'s semaphore_ops \<Rightarrow> nat \<Rightarrow> nat \<Rightarrow> nat \<Rightarrow> 's priority_limiter" where
  "limiter_new ops realtime_limit batch_limit background_limit =
     \<lparr>realtime_bucket = bucket_new ops realtime_limit, batch_bucket = bucket_new ops batch_limit,
      background_bucket = bucket_new ops background_limit\<rparr>"

definition limiter_default :: "'s semaphore_ops \<Rightarrow> 's priority_limiter" where
  "limiter_default ops = limiter_new ops 8 4 2"

fun bucket :: "priority \<Rightarrow> 's priority_limiter \<Rightarrow> 's priority_bucket" where
  "bucket Realtime limiter = realtime_bucket limiter"
| "bucket Batch limiter = batch_bucket limiter"
| "bucket Background limiter = background_bucket limiter"

fun set_bucket :: "priority \<Rightarrow> 's priority_bucket \<Rightarrow> 's priority_limiter \<Rightarrow> 's priority_limiter" where
  "set_bucket Realtime b limiter = limiter\<lparr>realtime_bucket := b\<rparr>"
| "set_bucket Batch b limiter = limiter\<lparr>batch_bucket := b\<rparr>"
| "set_bucket Background b limiter = limiter\<lparr>background_bucket := b\<rparr>"

text \<open>The two halves of an acquisition and of a drop; other threads may run between them.\<close>

definition take_permit :: "'s semaphore_ops \<Rightarrow> 's priority_bucket \<Rightarrow> 's priority_bucket option" where
  "take_permit ops b = map_option (\<lambda>s. b\<lparr>bucket_semaphore := s\<rparr>) (sem_try_acquire ops (bucket_semaphore b))"

definition count_up :: "'s priority_bucket \<Rightarrow> 's priority_bucket" where
  "count_up b = b\<lparr>bucket_in_flight := bucket_in_flight b + 1\<rparr>"

definition count_down :: "'s priority_bucket \<Rightarrow> 's priority_bucket" where
  "count_down b = b\<lparr>bucket_in_flight := bucket_in_flight b - 1\<rparr>"

definition give_permit :: "'s semaphore_ops \<Rightarrow> 's priority_bucket \<Rightarrow> 's priority_bucket" where
  "give_permit ops b = b\<lparr>bucket_semaphore := sem_release ops (bucket_semaphore b)\<rparr>"

definition bucket_try_acquire :: "'s semaphore_ops \<Rightarrow> 's priority_bucket \<Rightarrow> 's priority_bucket option" where
  "bucket_try_acquire ops b = map_option count_up (take_permit ops b)"

definition try_acquire :: "'s semaphore_ops \<Rightarrow> priority \<Rightarrow> 's priority_limiter \<Rightarrow> 's priority_limiter option" where
  "try_acquire ops p limiter = map_option (\<lambda>b. set_bucket p b limiter) (bucket_try_acquire ops (bucket p limiter))"

definition drop_permit :: "'s semaphore_ops \<Rightarrow> priority \<Rightarrow> 's priority_limiter \<Rightarrow> 's priority_limiter" where
  "drop_permit ops p limiter = set_bucket p (give_permit ops (count_down (bucket p limiter))) limiter"

definition limiter_snapshots :: "'s priority_limiter \<Rightarrow> priority_snapshot list" where
  "limiter_snapshots limiter =
     map (\<lambda>(p, b). \<lparr>sn_priority = p, sn_limit = bucket_limit b, sn_in_flight = bucket_in_flight b\<rparr>)
       [(Realtime, realtime_bucket limiter), (Batch, batch_bucket limiter), (Background, background_bucket limiter)]"

section \<open>Interleaved use\<close>

text \<open>Per priority: the acquisitions that have a permit and are not counted yet, the permits that are
  held, and the drops that are uncounted and have not given their permit back.\<close>

record 's limiter_use =
  lu_limiter :: "'s priority_limiter"
  taking :: "priority \<Rightarrow> nat"
  holding :: "priority \<Rightarrow> nat"
  dropping :: "priority \<Rightarrow> nat"

inductive limiter_step :: "'s semaphore_ops \<Rightarrow> 's limiter_use \<Rightarrow> 's limiter_use \<Rightarrow> bool" for ops where
  ls_take:
    "take_permit ops (bucket p (lu_limiter u)) = Some b \<Longrightarrow>
     limiter_step ops u (u\<lparr>lu_limiter := set_bucket p b (lu_limiter u), taking := (taking u)(p := taking u p + 1)\<rparr>)"
| ls_count:
    "0 < taking u p \<Longrightarrow>
     limiter_step ops u (u\<lparr>lu_limiter := set_bucket p (count_up (bucket p (lu_limiter u))) (lu_limiter u),
       taking := (taking u)(p := taking u p - 1), holding := (holding u)(p := holding u p + 1)\<rparr>)"
| ls_uncount:
    "0 < holding u p \<Longrightarrow>
     limiter_step ops u (u\<lparr>lu_limiter := set_bucket p (count_down (bucket p (lu_limiter u))) (lu_limiter u),
       holding := (holding u)(p := holding u p - 1), dropping := (dropping u)(p := dropping u p + 1)\<rparr>)"
| ls_give:
    "0 < dropping u p \<Longrightarrow>
     limiter_step ops u (u\<lparr>lu_limiter := set_bucket p (give_permit ops (bucket p (lu_limiter u))) (lu_limiter u),
       dropping := (dropping u)(p := dropping u p - 1)\<rparr>)"

inductive limiter_reachable :: "'s semaphore_ops \<Rightarrow> (priority \<Rightarrow> nat) \<Rightarrow> 's limiter_use \<Rightarrow> bool" for ops lims where
  lu_start:
    "limiter_reachable ops lims
       \<lparr>lu_limiter = limiter_new ops (lims Realtime) (lims Batch) (lims Background),
        taking = (\<lambda>_. 0), holding = (\<lambda>_. 0), dropping = (\<lambda>_. 0)\<rparr>"
| lu_step: "limiter_reachable ops lims u \<Longrightarrow> limiter_step ops u u' \<Longrightarrow> limiter_reachable ops lims u'"

section \<open>Facts\<close>

lemma bucket_set [simp]: "bucket q (set_bucket p b limiter) = (if q = p then b else bucket q limiter)"
  by (cases p; cases q) simp_all

lemma bucket_new_limiter [simp]: "bucket p (limiter_new ops a b c) =
    bucket_new ops (case p of Realtime \<Rightarrow> a | Batch \<Rightarrow> b | Background \<Rightarrow> c)"
  by (cases p) (simp_all add: limiter_new_def)

definition bucket_balanced ::
  "('s \<Rightarrow> nat) \<Rightarrow> nat \<Rightarrow> nat \<Rightarrow> nat \<Rightarrow> nat \<Rightarrow> 's priority_bucket \<Rightarrow> bool" where
  "bucket_balanced permits n t h d b \<longleftrightarrow> bucket_limit b = n \<and> bucket_in_flight b = h \<and>
     permits (bucket_semaphore b) + t + h + d = n"

lemma balanced_steps:
  assumes "semaphore_laws ops permits" "bucket_balanced permits n t h d b"
  shows "take_permit ops b = Some b' \<Longrightarrow> bucket_balanced permits n (t + 1) h d b'"
    and "0 < t \<Longrightarrow> bucket_balanced permits n (t - 1) (h + 1) d (count_up b)"
    and "0 < h \<Longrightarrow> bucket_balanced permits n t (h - 1) (d + 1) (count_down b)"
    and "0 < d \<Longrightarrow> bucket_balanced permits n t h (d - 1) (give_permit ops b)"
  using assms
  by (auto simp: bucket_balanced_def take_permit_def count_up_def count_down_def give_permit_def
      semaphore_laws_def split: option.splits)

lemma bucket_new_balanced: "semaphore_laws ops permits \<Longrightarrow> bucket_balanced permits n 0 0 0 (bucket_new ops n)"
  by (simp add: bucket_balanced_def bucket_new_def semaphore_laws_def)

lemma limiter_balanced:
  assumes laws: "semaphore_laws ops permits"
  shows "limiter_reachable ops lims u \<Longrightarrow>
    bucket_balanced permits (lims p) (taking u p) (holding u p) (dropping u p) (bucket p (lu_limiter u))"
proof (induction arbitrary: p rule: limiter_reachable.induct)
  case lu_start
  then show ?case using bucket_new_balanced [OF laws] by (cases p) simp_all
next
  case (lu_step u u')
  note bal = balanced_steps [OF laws lu_step.IH]
  from lu_step.hyps(2) show ?case
    by cases (use bal lu_step.IH in auto)
qed

text \<open>In every interleaving of acquisitions and drops each priority's counter is the number of
  permits held, never above the configured limit, and an acquisition is refused exactly when all
  permits of its own priority are out: requests of one priority never block another.\<close>

lemma limiter_exact:
  assumes "semaphore_laws ops permits" "limiter_reachable ops lims u"
  shows "bucket_in_flight (bucket p (lu_limiter u)) = holding u p \<and> holding u p \<le> lims p \<and>
    (take_permit ops (bucket p (lu_limiter u)) = None \<longleftrightarrow> taking u p + holding u p + dropping u p = lims p)"
proof -
  let ?b = "bucket p (lu_limiter u)"
  note bal = limiter_balanced [OF assms, of p]
  have "sem_try_acquire ops (bucket_semaphore ?b) = None \<longleftrightarrow> permits (bucket_semaphore ?b) = 0"
    using assms(1) unfolding semaphore_laws_def by (metis (mono_tags, lifting) Suc_eq_plus1 Zero_not_Suc option.case_eq_if option.simps(4))
  then show ?thesis using bal by (auto simp: bucket_balanced_def take_permit_def)
qed

definition ex_sem :: "nat semaphore_ops" where
  "ex_sem = \<lparr>sem_new = (\<lambda>n. n), sem_try_acquire = (\<lambda>n. if n = 0 then None else Some (n - 1)),
     sem_release = (\<lambda>n. n + 1)\<rparr>"

lemma ex_sem_laws: "semaphore_laws ex_sem (\<lambda>n. n)"
  by (simp add: semaphore_laws_def ex_sem_def)

end
