(* ===== verification/Proxy.thy ===== *)
theory Proxy
  imports Router Priority_Limiter Metrics
begin

text \<open>
  The synchronous proxy, \<open>src/src/proxy/mod.rs\<close>: what decides the backend of a request, and
  \<open>forward\<close>, which posts it to one backend after another. \<open>proxy_state\<close> is the part of \<open>AppState\<close>
  it shares with other tasks. \<open>proxy_env\<close> has the configuration it reads, and what it observes: the
  clocks, the outcome of its posts (the HTTP client is not under \<open>src/\<close>), and \<open>pe_other\<close>, what other
  tasks do to the shared state while a post is awaited. Log lines are not modelled.
\<close>

section \<open>State and environment\<close>

record 's proxy_state =
  px_backends :: "backend_state list"
  px_affinity :: session_affinity
  px_limiter :: "'s priority_limiter"
  px_resources :: resource_registry
  px_metrics :: routing_metrics

text \<open>A \<open>HeaderMap\<close> as its \<open>get\<close>: the first value under a lower-case name.\<close>

type_synonym header_map = "string \<Rightarrow> string option"

record upstream_request =
  ur_url :: string
  ur_headers :: "(string \<times> string) list"
  ur_body :: string

record upstream =
  up_status :: nat
  up_content_type :: "string option"
  up_body :: "string list"

record 's proxy_env =
  pe_sem :: "'s semaphore_ops"
  pe_pools :: workload_pool_policy
  pe_resource_policy :: resource_routing_policy
  pe_to_str :: "string \<Rightarrow> string option"
  pe_resource_now :: "nat \<Rightarrow> nat"
  pe_probe :: "nat \<Rightarrow> nat \<Rightarrow> nat \<Rightarrow> nat"
  pe_now :: "nat \<Rightarrow> nat"
  pe_elapsed :: rat
  pe_send :: "nat \<Rightarrow> upstream_request \<Rightarrow> upstream option"
  pe_other :: "nat \<Rightarrow> 's proxy_state \<Rightarrow> 's proxy_state"

text \<open>A streamed response keeps its permit until the stream is dropped.\<close>

datatype proxy_response =
    Plain nat string
  | Streamed nat "(string \<times> string) list" "string list"

text \<open>What \<open>forward\<close> computes before its loop.\<close>

record forward_ctx =
  fc_route :: workload_route
  fc_priority :: priority
  fc_preferred :: "nat option"
  fc_origin :: "string option"
  fc_affinity_key :: "string option"
  fc_route_ineligible :: "nat list"
  fc_ineligible :: "nat list"
  fc_ranks :: "resource_rank option list"
  fc_headers :: header_map
  fc_body :: string

section \<open>Headers\<close>

definition DEFAULT_UPSTREAM_CONTENT_TYPE :: string where
  "DEFAULT_UPSTREAM_CONTENT_TYPE = ''application/json''"

definition FORWARDED_UPSTREAM_HEADERS :: "string list" where
  "FORWARDED_UPSTREAM_HEADERS =
     [''openai-organization'', ''openai-project'', ''anthropic-version'', ''anthropic-beta'', ''x-goog-api-key'']"

definition with_upstream_headers :: "header_map \<Rightarrow> (string \<times> string) list" where
  "with_upstream_headers headers =
     [(''content-type'', case headers ''content-type'' of
         Some content_type \<Rightarrow> content_type | None \<Rightarrow> DEFAULT_UPSTREAM_CONTENT_TYPE)] @
     (case headers ''authorization'' of None \<Rightarrow> [] | Some v \<Rightarrow> [(''authorization'', v)]) @
     List.map_filter (\<lambda>name. map_option (\<lambda>v. (name, v)) (headers name)) FORWARDED_UPSTREAM_HEADERS"

definition parse_priority :: "(string \<Rightarrow> string option) \<Rightarrow> header_map \<Rightarrow> string + priority" where
  "parse_priority to_str headers =
     (case headers ''x-fairlead-priority'' of
        None \<Rightarrow> Inr priority_default
      | Some value \<Rightarrow>
          (case to_str value of
             None \<Rightarrow> Inl ''invalid X-Fairlead-Priority header''
           | Some value \<Rightarrow>
               (case priority_parse value of
                  None \<Rightarrow> Inl ''invalid X-Fairlead-Priority: expected realtime, batch, or background''
                | Some p \<Rightarrow> Inr p)))"

definition affinity_key :: "workload_kind \<Rightarrow> string \<Rightarrow> string" where
  "affinity_key workload thread_id = workload_as_str workload @ '':'' @ thread_id"

section \<open>Eligibility\<close>

definition route_allows_backend :: "backend_state \<Rightarrow> workload_route \<Rightarrow> workload_pool_policy \<Rightarrow> bool" where
  "route_allows_backend backend r workload_pools \<longleftrightarrow>
     backend_pool_allows (backend_pool r) (bk_pool backend) \<and>
     allows workload_pools (workload_as_str (route_kind r)) (bk_pool backend) \<and>
     route_kind r \<in> set (bk_workloads backend)"

definition route_ineligible_backends ::
  "backend_state list \<Rightarrow> workload_route \<Rightarrow> workload_pool_policy \<Rightarrow> nat list" where
  "route_ineligible_backends backends r workload_pools =
     filter (\<lambda>idx. \<not> route_allows_backend (backends ! idx) r workload_pools) [0..<length backends]"

definition pool_ineligible_backends :: "backend_state list \<Rightarrow> string \<Rightarrow> nat list" where
  "pool_ineligible_backends backends pool =
     filter (\<lambda>idx. bk_pool (backends ! idx) \<noteq> pool) [0..<length backends]"

definition candidate_counts ::
  "backend_state list \<Rightarrow> nat list \<Rightarrow> nat list \<Rightarrow> nat list \<Rightarrow> (backend_state \<Rightarrow> bool) \<Rightarrow> nat \<times> nat" where
  "candidate_counts backends attempted route_ineligible resource_ineligible pool_matches =
     fold (\<lambda>idx (candidates, resource_blocked).
         if idx \<in> set attempted \<or> idx \<in> set route_ineligible \<or> \<not> pool_matches (backends ! idx)
         then (candidates, resource_blocked)
         else if idx \<in> set resource_ineligible then (candidates, resource_blocked + 1)
         else (candidates + 1, resource_blocked))
       [0..<length backends] (0, 0)"

definition pool_candidate_counts ::
  "backend_state list \<Rightarrow> string \<Rightarrow> nat list \<Rightarrow> nat list \<Rightarrow> nat list \<Rightarrow> nat \<times> nat" where
  "pool_candidate_counts backends pool attempted route_ineligible resource_ineligible =
     candidate_counts backends attempted route_ineligible resource_ineligible (\<lambda>backend. bk_pool backend = pool)"

definition any_pool_candidate_counts ::
  "backend_state list \<Rightarrow> nat list \<Rightarrow> nat list \<Rightarrow> nat list \<Rightarrow> nat \<times> nat" where
  "any_pool_candidate_counts backends attempted route_ineligible resource_ineligible =
     candidate_counts backends attempted route_ineligible resource_ineligible (\<lambda>_. True)"

definition push_missing :: "nat \<Rightarrow> nat list \<Rightarrow> nat list" where
  "push_missing idx ineligible = (if idx \<in> set ineligible then ineligible else ineligible @ [idx])"

definition selection_ineligible :: "nat list \<Rightarrow> nat list \<Rightarrow> nat list" where
  "selection_ineligible route_ineligible resource_ineligible =
     fold push_missing resource_ineligible route_ineligible"

definition selection_ineligible_with_pool :: "nat list \<Rightarrow> nat list \<Rightarrow> nat list \<Rightarrow> nat list" where
  "selection_ineligible_with_pool route_ineligible resource_ineligible pool_ineligible =
     fold push_missing pool_ineligible (selection_ineligible route_ineligible resource_ineligible)"

record resource_selection_state =
  sel_ineligible :: "nat list"
  sel_ranks :: "resource_rank option list"

definition resource_selection_step ::
  "(nat \<Rightarrow> nat) \<Rightarrow> nat \<Rightarrow> resource_registry \<Rightarrow> backend_state list \<Rightarrow> nat
     \<Rightarrow> resource_selection_state \<Rightarrow> resource_selection_state" where
  "resource_selection_step now required resources backends idx selection =
     (case bk_node_id (backends ! idx) of
        None \<Rightarrow> selection\<lparr>sel_ineligible := sel_ineligible selection @ [idx]\<rparr>
      | Some node_id \<Rightarrow>
          (case fresh_backend_report (now idx) node_id (bk_id (backends ! idx)) resources of
             None \<Rightarrow> selection\<lparr>sel_ineligible := sel_ineligible selection @ [idx]\<rparr>
           | Some r \<Rightarrow>
               if rp_available_vram_mb r < required
               then selection\<lparr>sel_ineligible := sel_ineligible selection @ [idx]\<rparr>
               else selection\<lparr>sel_ranks := (sel_ranks selection)[idx := Some
                 \<lparr>rk_current_load = rp_current_load r, rk_available_vram_mb = rp_available_vram_mb r\<rparr>]\<rparr>))"

definition resource_selection_state ::
  "(nat \<Rightarrow> nat) \<Rightarrow> resource_routing_policy \<Rightarrow> resource_registry \<Rightarrow> backend_state list \<Rightarrow> workload_kind
     \<Rightarrow> resource_selection_state" where
  "resource_selection_state now policy resources backends workload =
     (let selection = \<lparr>sel_ineligible = [], sel_ranks = replicate (length backends) None\<rparr> in
      if \<not> rr_enabled policy then selection
      else fold (resource_selection_step now (required_vram_mb policy workload) resources backends)
             [0..<length backends] selection)"

section \<open>Reasons and messages\<close>

definition fallback_reason ::
  "backend_state list \<Rightarrow> nat \<Rightarrow> nat option \<Rightarrow> string option \<Rightarrow> nat list \<Rightarrow> nat list \<Rightarrow> string option" where
  "fallback_reason backends selected_idx preferred origin_node route_ineligible resource_ineligible =
     (case get_at backends selected_idx of
        None \<Rightarrow> None
      | Some selected \<Rightarrow>
          let origin_indexes = (case origin_node of
                None \<Rightarrow> []
              | Some origin \<Rightarrow> filter (\<lambda>i. bk_node_id (backends ! i) = Some origin) [0..<length backends]);
              off_origin = (origin_indexes \<noteq> [] \<and> bk_node_id selected \<noteq> origin_node);
              off_preferred = (case preferred of
                None \<Rightarrow> None
              | Some p \<Rightarrow> if p \<noteq> selected_idx \<and> get_at backends p \<noteq> None then Some p else None)
          in if off_origin then
               Some (if list_ex (\<lambda>i. i \<in> set route_ineligible) origin_indexes then ''workload_unavailable''
                     else if list_ex (\<lambda>i. i \<in> set resource_ineligible) origin_indexes then ''resource_unavailable''
                     else ''origin_unavailable'')
             else (case off_preferred of
               Some p \<Rightarrow>
                 Some (if p \<in> set route_ineligible then ''workload_unavailable''
                       else if p \<in> set resource_ineligible then ''resource_unavailable''
                       else ''affinity_unavailable'')
             | None \<Rightarrow>
                 if list_ex (\<lambda>i. i < selected_idx \<and> get_at backends i \<noteq> None) route_ineligible
                 then Some ''workload_unavailable''
                 else if list_ex (\<lambda>i. i < selected_idx \<and> get_at backends i \<noteq> None) resource_ineligible
                 then Some ''resource_unavailable''
                 else None))"

definition unavailable_outcome :: "nat list \<Rightarrow> nat list \<Rightarrow> nat \<Rightarrow> string" where
  "unavailable_outcome route_ineligible resource_ineligible backend_count =
     (if backend_count > 0 \<and> length route_ineligible = backend_count then ''unsupported_workload''
      else if resource_ineligible \<noteq> [] then ''resource_unavailable'' else ''unavailable'')"

definition unavailable_message :: "nat list \<Rightarrow> nat list \<Rightarrow> nat \<Rightarrow> string" where
  "unavailable_message route_ineligible resource_ineligible backend_count =
     (if backend_count > 0 \<and> length route_ineligible = backend_count
      then ''no backends configured for workload''
      else if resource_ineligible \<noteq> []
      then ''all backends unavailable (circuits open or insufficient resources)''
      else ''all backends unavailable (circuits open)'')"

section \<open>Metrics of a request\<close>

definition proxy_record_request ::
  "'s proxy_env \<Rightarrow> workload_route \<Rightarrow> priority \<Rightarrow> backend_state option \<Rightarrow> string option \<Rightarrow> nat \<Rightarrow> string
     \<Rightarrow> 's proxy_state \<Rightarrow> 's proxy_state" where
  "proxy_record_request env r p backend origin_node status outcome st =
     st\<lparr>px_metrics := record_request
         \<lparr>rl_workload = workload_as_str (route_kind r), rl_priority = priority_as_str p,
          rl_backend = (case backend of None \<Rightarrow> [] | Some b \<Rightarrow> bk_id b),
          rl_node = (case backend of None \<Rightarrow> [] | Some b \<Rightarrow> opt_str (bk_node_id b)),
          rl_pool = (case backend of None \<Rightarrow> [] | Some b \<Rightarrow> bk_pool b),
          rl_origin_node = opt_str origin_node, rl_status = status, rl_outcome = outcome\<rparr>
         (pe_elapsed env) (px_metrics st)\<rparr>"

definition proxy_record_fallback ::
  "workload_route \<Rightarrow> priority \<Rightarrow> backend_state \<Rightarrow> string option \<Rightarrow> string \<Rightarrow> 's proxy_state \<Rightarrow> 's proxy_state" where
  "proxy_record_fallback r p backend origin_node reason st =
     st\<lparr>px_metrics := record_fallback
         \<lparr>fl_workload = workload_as_str (route_kind r), fl_priority = priority_as_str p,
          fl_backend = bk_id backend, fl_node = opt_str (bk_node_id backend), fl_pool = bk_pool backend,
          fl_origin_node = opt_str origin_node, fl_reason = reason\<rparr> (px_metrics st)\<rparr>"

definition proxy_record_retry ::
  "workload_route \<Rightarrow> priority \<Rightarrow> backend_state \<Rightarrow> string option \<Rightarrow> string \<Rightarrow> 's proxy_state \<Rightarrow> 's proxy_state" where
  "proxy_record_retry r p backend origin_node reason st =
     st\<lparr>px_metrics := record_retry
         \<lparr>tl_workload = workload_as_str (route_kind r), tl_priority = priority_as_str p,
          tl_backend = bk_id backend, tl_node = opt_str (bk_node_id backend), tl_pool = bk_pool backend,
          tl_origin_node = opt_str origin_node, tl_reason = reason\<rparr> (px_metrics st)\<rparr>"

definition proxy_record_pool_decision ::
  "workload_route \<Rightarrow> priority \<Rightarrow> string \<Rightarrow> backend_state option \<Rightarrow> string option \<Rightarrow> string \<Rightarrow> nat \<times> nat
     \<Rightarrow> 's proxy_state \<Rightarrow> 's proxy_state" where
  "proxy_record_pool_decision r p pool backend origin_node outcome counts st =
     st\<lparr>px_metrics := record_pool_decision
         \<lparr>pl_workload = workload_as_str (route_kind r), pl_priority = priority_as_str p, pl_pool = pool,
          pl_backend = (case backend of None \<Rightarrow> [] | Some b \<Rightarrow> bk_id b),
          pl_node = (case backend of None \<Rightarrow> [] | Some b \<Rightarrow> opt_str (bk_node_id b)),
          pl_origin_node = opt_str origin_node, pl_outcome = outcome\<rparr>
         (fst counts) (snd counts) (px_metrics st)\<rparr>"

end
