(* ===== verification/Proxy_Forward.thy ===== *)
theory Proxy_Forward
  imports Proxy
begin

text \<open>
  Selection for a route and the forwarding loop of \<open>src/src/proxy/mod.rs\<close>. The loop runs on fuel;
  \<open>Proxy_Props\<close> shows that the number of backends plus one is enough, and \<open>forward\<close> supplies it. The
  \<open>n\<close>-th post of a request is numbered by the backends attempted before it.
\<close>

section \<open>Selection for a route\<close>

definition pick ::
  "'s proxy_env \<Rightarrow> forward_ctx \<Rightarrow> nat \<Rightarrow> nat list \<Rightarrow> nat list \<Rightarrow> 's proxy_state \<Rightarrow> 's proxy_state \<times> nat option" where
  "pick env ctx k attempted ineligible st =
     (case select_backend_excluding_resource (pe_probe env (length attempted) k) (px_backends st)
             (fc_preferred ctx) (fc_origin ctx) attempted ineligible (fc_ranks ctx) of
        (backends, selected) \<Rightarrow> (st\<lparr>px_backends := backends\<rparr>, selected))"

fun select_in_pools ::
  "'s proxy_env \<Rightarrow> forward_ctx \<Rightarrow> nat list \<Rightarrow> nat \<Rightarrow> string list \<Rightarrow> 's proxy_state
     \<Rightarrow> 's proxy_state \<times> nat option" where
  "select_in_pools env ctx attempted k [] st = (st, None)"
| "select_in_pools env ctx attempted k (pool # pools) st =
     (let pool_ineligible = pool_ineligible_backends (px_backends st) pool;
          counts = pool_candidate_counts (px_backends st) pool attempted (fc_route_ineligible ctx) (fc_ineligible ctx);
          ineligible = selection_ineligible_with_pool (fc_route_ineligible ctx) (fc_ineligible ctx) pool_ineligible
      in case pick env ctx k attempted ineligible st of
           (st1, Some idx) \<Rightarrow>
             (proxy_record_pool_decision (fc_route ctx) (fc_priority ctx) pool (Some (px_backends st1 ! idx))
                (fc_origin ctx) ''selected'' counts st1, Some idx)
         | (st1, None) \<Rightarrow>
             select_in_pools env ctx attempted (k + 1) pools
               (proxy_record_pool_decision (fc_route ctx) (fc_priority ctx) pool None (fc_origin ctx)
                  ''unavailable'' counts st1))"

definition select_backend_for_route ::
  "'s proxy_env \<Rightarrow> forward_ctx \<Rightarrow> nat list \<Rightarrow> 's proxy_state \<Rightarrow> 's proxy_state \<times> nat option" where
  "select_backend_for_route env ctx attempted st =
     (case pools_for (pe_pools env) (workload_as_str (route_kind (fc_route ctx))) of
        Some pools \<Rightarrow> select_in_pools env ctx attempted 0 pools st
      | None \<Rightarrow>
          let counts = any_pool_candidate_counts (px_backends st) attempted (fc_route_ineligible ctx) (fc_ineligible ctx);
              ineligible = selection_ineligible (fc_route_ineligible ctx) (fc_ineligible ctx)
          in case pick env ctx 0 attempted ineligible st of
               (st1, selected) \<Rightarrow>
                 (proxy_record_pool_decision (fc_route ctx) (fc_priority ctx) []
                    (case selected of None \<Rightarrow> None | Some idx \<Rightarrow> get_at (px_backends st1) idx) (fc_origin ctx)
                    (if selected \<noteq> None then ''selected'' else ''unavailable'') counts st1, selected))"

section \<open>The loop\<close>

definition upstream_url :: "backend_state \<Rightarrow> workload_route \<Rightarrow> string" where
  "upstream_url backend r = trim_end_matches CHR ''/'' (bk_url backend) @ ''/'' @ upstream_path r"

fun contains :: "string \<Rightarrow> string \<Rightarrow> bool" where
  "contains [] sub = (sub = [])"
| "contains (c # s) sub = (starts_with (c # s) sub \<or> contains s sub)"

definition upstream_response :: "(string \<Rightarrow> string option) \<Rightarrow> upstream \<Rightarrow> nat \<Rightarrow> proxy_response" where
  "upstream_response to_str up status =
     (let content_type = up_content_type up;
          is_sse = (case content_type of None \<Rightarrow> False
            | Some v \<Rightarrow> (case to_str v of None \<Rightarrow> False | Some s \<Rightarrow> contains s ''text/event-stream''))
      in Streamed status
           ((case content_type of None \<Rightarrow> [] | Some ct \<Rightarrow> [(''content-type'', ct)]) @
            (if is_sse then [(''cache-control'', ''no-cache''), (''x-accel-buffering'', ''no'')] else []))
           (up_body up))"

definition set_circuit :: "nat \<Rightarrow> (circuit_breaker \<Rightarrow> circuit_breaker) \<Rightarrow> 's proxy_state \<Rightarrow> 's proxy_state" where
  "set_circuit idx f st =
     st\<lparr>px_backends := (px_backends st)[idx := (px_backends st ! idx)\<lparr>circuit := f (circuit (px_backends st ! idx))\<rparr>]\<rparr>"

text \<open>The steps of one turn. \<open>is_server_error\<close> is a status of 500 to 599.\<close>

definition is_server_error :: "nat \<Rightarrow> bool" where
  "is_server_error status \<longleftrightarrow> 500 \<le> status \<and> status < 600"

definition post ::
  "'s proxy_env \<Rightarrow> forward_ctx \<Rightarrow> nat \<Rightarrow> nat \<Rightarrow> 's proxy_state \<Rightarrow> 's proxy_state \<times> upstream option" where
  "post env ctx n idx st =
     (pe_other env n st,
      pe_send env n \<lparr>ur_url = upstream_url (px_backends st ! idx) (fc_route ctx),
        ur_headers = with_upstream_headers (fc_headers ctx), ur_body = fc_body ctx\<rparr>)"

definition note_fallback :: "forward_ctx \<Rightarrow> nat \<Rightarrow> 's proxy_state \<Rightarrow> 's proxy_state" where
  "note_fallback ctx idx st =
     (case fallback_reason (px_backends st) idx (fc_preferred ctx) (fc_origin ctx) (fc_route_ineligible ctx)
             (fc_ineligible ctx) of
        None \<Rightarrow> st
      | Some reason \<Rightarrow>
          proxy_record_fallback (fc_route ctx) (fc_priority ctx) (px_backends st ! idx) (fc_origin ctx) reason st)"

definition note_failure ::
  "'s proxy_env \<Rightarrow> forward_ctx \<Rightarrow> nat \<Rightarrow> nat \<Rightarrow> string \<Rightarrow> 's proxy_state \<Rightarrow> 's proxy_state" where
  "note_failure env ctx n idx reason st =
     proxy_record_retry (fc_route ctx) (fc_priority ctx) (px_backends st ! idx) (fc_origin ctx) reason
       (set_circuit idx (Circuit.record_failure (pe_now env n)) st)"

definition note_success ::
  "'s proxy_env \<Rightarrow> forward_ctx \<Rightarrow> nat list \<Rightarrow> nat \<Rightarrow> nat \<Rightarrow> 's proxy_state \<Rightarrow> 's proxy_state" where
  "note_success env ctx attempted idx status st =
     (let st1 = set_circuit idx Circuit.record_success st;
          st2 = (case fc_affinity_key ctx of
                   None \<Rightarrow> st1 | Some key \<Rightarrow> st1\<lparr>px_affinity := affinity_record key idx (px_affinity st1)\<rparr>)
      in proxy_record_request env (fc_route ctx) (fc_priority ctx) (Some (px_backends st ! idx)) (fc_origin ctx)
           status (if attempted = [] then ''completed'' else ''retried_success'') st2)"

definition no_backend ::
  "'s proxy_env \<Rightarrow> forward_ctx \<Rightarrow> nat list \<Rightarrow> 's proxy_state \<Rightarrow> 's proxy_state \<times> proxy_response" where
  "no_backend env ctx attempted st =
     (if attempted = [] then
        (proxy_record_request env (fc_route ctx) (fc_priority ctx) None (fc_origin ctx) 503
           (unavailable_outcome (fc_route_ineligible ctx) (fc_ineligible ctx) (length (px_backends st))) st,
         Plain 503 (unavailable_message (fc_route_ineligible ctx) (fc_ineligible ctx) (length (px_backends st))))
      else
        (proxy_record_request env (fc_route ctx) (fc_priority ctx) None (fc_origin ctx) 502 ''upstream_error'' st,
         Plain 502 []))"

text \<open>After a failed post: the next backend to try, or the answer. The two failure branches of the loop
  differ in the reason, the recorded status and outcome, and the response.\<close>

definition after_failure ::
  "'s proxy_env \<Rightarrow> forward_ctx \<Rightarrow> nat list \<Rightarrow> nat \<Rightarrow> string \<Rightarrow> nat \<Rightarrow> string \<Rightarrow> proxy_response
     \<Rightarrow> 's proxy_state \<Rightarrow> nat \<times> 's proxy_state + 's proxy_state \<times> proxy_response" where
  "after_failure env ctx attempted idx reason status outcome response st =
     (case select_backend_for_route env ctx (attempted @ [idx])
             (note_failure env ctx (length attempted) idx reason st) of
        (st3, Some next) \<Rightarrow> Inl (next, st3)
      | (st3, None) \<Rightarrow>
          Inr (proxy_record_request env (fc_route ctx) (fc_priority ctx) (Some (px_backends st3 ! idx))
                 (fc_origin ctx) status outcome st3, response))"

definition attempt_backend ::
  "'s proxy_env \<Rightarrow> forward_ctx \<Rightarrow> nat list \<Rightarrow> nat \<Rightarrow> 's proxy_state
     \<Rightarrow> nat \<times> 's proxy_state + 's proxy_state \<times> proxy_response" where
  "attempt_backend env ctx attempted idx st =
     (case post env ctx (length attempted) idx (note_fallback ctx idx st) of
        (st2, None) \<Rightarrow>
          after_failure env ctx attempted idx ''connection_error'' 502 ''upstream_error'' (Plain 502 []) st2
      | (st2, Some up) \<Rightarrow>
          if retry_server_errors (fc_route ctx) \<and> is_server_error (up_status up) then
            after_failure env ctx attempted idx ''server_error'' (up_status up) ''upstream_5xx''
              (upstream_response (pe_to_str env) up (up_status up)) st2
          else
            Inr (note_success env ctx attempted idx (up_status up) st2,
                 upstream_response (pe_to_str env) up (up_status up)))"

fun forward_loop ::
  "nat \<Rightarrow> 's proxy_env \<Rightarrow> forward_ctx \<Rightarrow> nat list \<Rightarrow> nat option \<Rightarrow> 's proxy_state
     \<Rightarrow> ('s proxy_state \<times> proxy_response) option" where
  "forward_loop 0 env ctx attempted next_backend st = None"
| "forward_loop (Suc fuel) env ctx attempted next_backend st =
     (case (case next_backend of Some idx \<Rightarrow> (st, Some idx) | None \<Rightarrow> select_backend_for_route env ctx attempted st) of
        (st1, None) \<Rightarrow> Some (no_backend env ctx attempted st1)
      | (st1, Some idx) \<Rightarrow>
          (case attempt_backend env ctx attempted idx st1 of
             Inl (next, st3) \<Rightarrow> forward_loop fuel env ctx (attempted @ [idx]) (Some next) st3
           | Inr out \<Rightarrow> Some out))"

section \<open>The request\<close>

definition header_str :: "'s proxy_env \<Rightarrow> header_map \<Rightarrow> string \<Rightarrow> string option" where
  "header_str env headers name = (case headers name of None \<Rightarrow> None | Some v \<Rightarrow> pe_to_str env v)"

definition forward_ctx_of ::
  "'s proxy_env \<Rightarrow> workload_route \<Rightarrow> priority \<Rightarrow> header_map \<Rightarrow> string \<Rightarrow> 's proxy_state \<Rightarrow> forward_ctx" where
  "forward_ctx_of env r p headers body st =
     (let key = map_option (affinity_key (route_kind r)) (header_str env headers ''x-fairlead-thread-id'');
          rs = resource_selection_state (pe_resource_now env) (pe_resource_policy env) (px_resources st)
                 (px_backends st) (route_kind r)
      in \<lparr>fc_route = r, fc_priority = p,
          fc_preferred = (case key of None \<Rightarrow> None | Some k \<Rightarrow> affinity_preferred k (px_affinity st)),
          fc_origin = header_str env headers ''x-fairlead-origin-node'', fc_affinity_key = key,
          fc_route_ineligible = route_ineligible_backends (px_backends st) r (pe_pools env),
          fc_ineligible = sel_ineligible rs, fc_ranks = sel_ranks rs, fc_headers = headers, fc_body = body\<rparr>)"

text \<open>A response that is not streamed drops the permit when \<open>forward\<close> returns.\<close>

definition settle_permit :: "'s proxy_env \<Rightarrow> priority \<Rightarrow> 's proxy_state \<times> proxy_response \<Rightarrow> 's proxy_state \<times> proxy_response" where
  "settle_permit env p out =
     (case out of
        (st, Plain status msg) \<Rightarrow> (st\<lparr>px_limiter := drop_permit (pe_sem env) p (px_limiter st)\<rparr>, Plain status msg)
      | (st, Streamed status hs chunks) \<Rightarrow> (st, Streamed status hs chunks))"

definition forward ::
  "'s proxy_env \<Rightarrow> workload_route \<Rightarrow> header_map \<Rightarrow> string \<Rightarrow> 's proxy_state
     \<Rightarrow> ('s proxy_state \<times> proxy_response) option" where
  "forward env r headers body st =
     (case parse_priority (pe_to_str env) headers of
        Inl msg \<Rightarrow> Some (st, Plain 400 msg)
      | Inr p \<Rightarrow>
          let origin_node = header_str env headers ''x-fairlead-origin-node'' in
          if px_backends st = [] then
            Some (proxy_record_request env r p None origin_node 503 ''no_backends'' st,
                  Plain 503 ''no backends configured'')
          else
            (case try_acquire (pe_sem env) p (px_limiter st) of
               None \<Rightarrow>
                 Some (proxy_record_request env r p None origin_node 429 ''priority_limited'' st,
                       Plain 429 ''priority limit reached'')
             | Some limiter \<Rightarrow>
                 let st1 = st\<lparr>px_limiter := limiter\<rparr> in
                 map_option (settle_permit env p)
                   (forward_loop (length (px_backends st1) + 1) env (forward_ctx_of env r p headers body st1)
                      [] None st1)))"

definition chat_completions ::
  "'s proxy_env \<Rightarrow> header_map \<Rightarrow> string \<Rightarrow> 's proxy_state \<Rightarrow> ('s proxy_state \<times> proxy_response) option" where
  "chat_completions env headers body st = forward env (route ChatCompletions) headers body st"

definition embeddings ::
  "'s proxy_env \<Rightarrow> header_map \<Rightarrow> string \<Rightarrow> 's proxy_state \<Rightarrow> ('s proxy_state \<times> proxy_response) option" where
  "embeddings env headers body st = forward env (route Embeddings) headers body st"

end
