(* ===== verification/Proxy_Props.thy ===== *)
theory Proxy_Props
  imports Proxy_Forward Router_Props
begin

text \<open>
  Properties of the proxy: where a request may be sent, that forwarding ends and posts to each
  backend at most once, what happens to the permit, to the affinity map, to the breakers and to the
  request counters.
\<close>

section \<open>Eligibility lists\<close>

lemma set_push_missing [simp]: "set (push_missing i xs) = insert i (set xs)"
  by (auto simp: push_missing_def)

lemma set_fold_push [simp]: "set (fold push_missing ys xs) = set xs \<union> set ys"
  by (induction ys arbitrary: xs) auto

lemma set_selection [simp]:
  "set (selection_ineligible xs ys) = set xs \<union> set ys"
  "set (selection_ineligible_with_pool xs ys zs) = set xs \<union> set ys \<union> set zs"
  by (simp_all add: selection_ineligible_def selection_ineligible_with_pool_def)

lemma set_pool_ineligible [simp]: "i \<in> set (pool_ineligible_backends bs pool) \<longleftrightarrow> i < length bs \<and> bk_pool (bs ! i) \<noteq> pool"
  by (auto simp: pool_ineligible_backends_def)

lemma set_route_ineligible [simp]:
  "i \<in> set (route_ineligible_backends bs r pools) \<longleftrightarrow> i < length bs \<and> \<not> route_allows_backend (bs ! i) r pools"
  by (auto simp: route_ineligible_backends_def)

text \<open>The counting pass over the backends computes the sizes of two sets: of the backends of the
  pool that are neither attempted nor excluded by route, those the resource policy lets through, and
  those it blocks.\<close>

theorem candidate_counts_exact:
  "candidate_counts bs attempted route_ineligible resource_ineligible matches =
    (let open_to = {i. i < length bs \<and> i \<notin> set attempted \<and> i \<notin> set route_ineligible \<and> matches (bs ! i)} in
     (card (open_to - set resource_ineligible), card (open_to \<inter> set resource_ineligible)))"
proof -
  define P where "P i \<longleftrightarrow> i \<notin> set attempted \<and> i \<notin> set route_ineligible \<and> matches (bs ! i)" for i
  define R where "R i \<longleftrightarrow> i \<in> set resource_ineligible" for i
  have fold: "fold (\<lambda>idx (c, r). if idx \<in> set attempted \<or> idx \<in> set route_ineligible \<or> \<not> matches (bs ! idx) then (c, r)
        else if idx \<in> set resource_ineligible then (c, r + 1) else (c + 1, r)) is (c, r) =
      (c + length (filter (\<lambda>i. P i \<and> \<not> R i) is), r + length (filter (\<lambda>i. P i \<and> R i) is))" for c r "is"
    by (induction "is" arbitrary: c r) (auto simp: P_def R_def)
  have card: "length (filter Q [0..<n]) = card {i. i < n \<and> Q i}" for Q n
    by (subst distinct_card [symmetric]) (auto intro!: arg_cong [where f = card])
  have "{i. i < length bs \<and> i \<notin> set attempted \<and> i \<notin> set route_ineligible \<and> matches (bs ! i)} - set resource_ineligible =
      {i. i < length bs \<and> P i \<and> \<not> R i}"
    "{i. i < length bs \<and> i \<notin> set attempted \<and> i \<notin> set route_ineligible \<and> matches (bs ! i)} \<inter> set resource_ineligible =
      {i. i < length bs \<and> P i \<and> R i}" by (auto simp: P_def R_def)
  then show ?thesis by (simp add: candidate_counts_def fold card Let_def)
qed

section \<open>What selection changes\<close>

text \<open>The configured part of the backends, which no task changes.\<close>

definition statics :: "backend_state list \<Rightarrow> (string \<times> string \<times> string option \<times> string \<times> workload_kind list) list" where
  "statics bs = map (\<lambda>b. (bk_id b, bk_url b, bk_node_id b, bk_pool b, bk_workloads b)) bs"

lemma statics_probed [simp]: "statics (probed nw S bs) = statics bs"
  by (rule nth_equalityI) (simp_all add: statics_def)

lemma statics_length: "statics xs = statics ys \<Longrightarrow> length xs = length ys"
  unfolding statics_def by (rule map_eq_imp_length_eq)

lemma statics_nth:
  assumes "statics xs = statics ys" "i < length ys"
  shows "bk_pool (xs ! i) = bk_pool (ys ! i)" "bk_workloads (xs ! i) = bk_workloads (ys ! i)"
    "bk_node_id (xs ! i) = bk_node_id (ys ! i)" "bk_id (xs ! i) = bk_id (ys ! i)" "bk_url (xs ! i) = bk_url (ys ! i)"
proof -
  have "statics xs ! i = statics ys ! i" using assms by simp
  then show "bk_pool (xs ! i) = bk_pool (ys ! i)" "bk_workloads (xs ! i) = bk_workloads (ys ! i)"
    "bk_node_id (xs ! i) = bk_node_id (ys ! i)" "bk_id (xs ! i) = bk_id (ys ! i)" "bk_url (xs ! i) = bk_url (ys ! i)"
    using assms statics_length [OF assms(1)] by (simp_all add: statics_def)
qed

text \<open>What a step may change: the circuits and the metrics.\<close>

definition only_circuits :: "'s proxy_state \<Rightarrow> 's proxy_state \<Rightarrow> bool" where
  "only_circuits st st' \<longleftrightarrow> statics (px_backends st') = statics (px_backends st) \<and>
     px_affinity st' = px_affinity st \<and> px_limiter st' = px_limiter st \<and> px_resources st' = px_resources st"

lemma only_circuits_refl [simp]: "only_circuits st st"
  by (simp add: only_circuits_def)

lemma only_circuits_trans: "only_circuits st st' \<Longrightarrow> only_circuits st' st'' \<Longrightarrow> only_circuits st st''"
  by (simp add: only_circuits_def)

lemma record_only [simp]:
  "px_backends (proxy_record_request env r p b o1 s out st) = px_backends st"
  "px_backends (proxy_record_fallback r p bk o1 why st) = px_backends st"
  "px_backends (proxy_record_retry r p bk o1 why st) = px_backends st"
  "px_backends (proxy_record_pool_decision r p pool b o1 out cs st) = px_backends st"
  "only_circuits st0 (proxy_record_request env r p b o1 s out st) = only_circuits st0 st"
  "only_circuits st0 (proxy_record_fallback r p bk o1 why st) = only_circuits st0 st"
  "only_circuits st0 (proxy_record_retry r p bk o1 why st) = only_circuits st0 st"
  "only_circuits st0 (proxy_record_pool_decision r p pool b o1 out cs st) = only_circuits st0 st"
  "only_circuits (proxy_record_pool_decision r p pool b o1 out cs st) st0 = only_circuits st st0"
  by (simp_all add: only_circuits_def proxy_record_request_def proxy_record_fallback_def proxy_record_retry_def
      proxy_record_pool_decision_def)

lemma statics_set_circuit [simp]: "statics (px_backends (set_circuit idx f st)) = statics (px_backends st)"
proof (cases "idx < length (px_backends st)")
  case True
  then show ?thesis
    by (intro nth_equalityI) (simp_all add: set_circuit_def statics_def nth_list_update)
qed (simp add: set_circuit_def list_update_beyond)

lemma only_set_circuit [simp]: "only_circuits st0 (set_circuit idx f st) = only_circuits st0 st"
  unfolding only_circuits_def statics_set_circuit by (simp add: set_circuit_def)

lemma pick_only: "only_circuits st (fst (pick env ctx k attempted ineligible st))"
proof -
  obtain S where "fst (select_backend_excluding_resource (pe_probe env (length attempted) k) (px_backends st)
      (fc_preferred ctx) (fc_origin ctx) attempted ineligible (fc_ranks ctx)) = probed (pe_probe env (length attempted) k) S (px_backends st)"
    using select_probed by blast
  then show ?thesis by (simp add: pick_def only_circuits_def case_prod_unfold)
qed

lemma min_by_some_eligible:
  "min_by c (filter (up nw bs) (filter P xs)) = Some m \<Longrightarrow> P m \<and> up nw bs m \<and> m \<in> set xs"
  using min_by_in by fastforce

lemma pick_some:
  assumes "pick env ctx k attempted ineligible st = (st', Some idx)"
  shows "eligible (pe_probe env (length attempted) k) (px_backends st) attempted ineligible idx"
proof -
  let ?nw = "pe_probe env (length attempted) k" and ?bs = "px_backends st"
  have "snd (select_backend_excluding_resource ?nw ?bs (fc_preferred ctx) (fc_origin ctx) attempted ineligible (fc_ranks ctx)) = Some idx"
    using assms by (simp add: pick_def case_prod_unfold)
  then show ?thesis
    unfolding select_eq Let_def first_choice_def rest_choice_def
    by (auto simp: eligible_def simp del: filter_filter split: option.splits if_splits
        dest!: min_by_some_eligible)
qed

lemma pools_only: "only_circuits st (fst (select_in_pools env ctx attempted k pools st))"
proof (induction pools arbitrary: k st)
  case (Cons pool pools)
  obtain st1 r where p: "pick env ctx k attempted (selection_ineligible_with_pool (fc_route_ineligible ctx)
      (fc_ineligible ctx) (pool_ineligible_backends (px_backends st) pool)) st = (st1, r)" by fastforce
  have "only_circuits st st1" using pick_only [of st env ctx k attempted] p by (metis fst_conv)
  moreover have "only_circuits st (fst (select_in_pools env ctx attempted (k + 1) pools s))"
    if "only_circuits st s" for s
    using that Cons.IH by (rule only_circuits_trans)
  ultimately show ?case using p by (cases r) (simp_all add: Let_def)
qed simp

lemma route_only: "only_circuits st (fst (select_backend_for_route env ctx attempted st))"
  using pools_only [of st] pick_only [of st]
  by (auto simp: select_backend_for_route_def Let_def case_prod_unfold split: option.split)

text \<open>The backend a selection for a route returns.\<close>

definition may_take :: "'s proxy_env \<Rightarrow> forward_ctx \<Rightarrow> nat list \<Rightarrow> backend_state list \<Rightarrow> nat \<Rightarrow> bool" where
  "may_take env ctx attempted bs idx \<longleftrightarrow> idx < length bs \<and> idx \<notin> set attempted \<and>
     idx \<notin> set (fc_route_ineligible ctx) \<and> idx \<notin> set (fc_ineligible ctx) \<and>
     (\<forall>pools. pools_for (pe_pools env) (workload_as_str (route_kind (fc_route ctx))) = Some pools \<longrightarrow>
        bk_pool (bs ! idx) \<in> set pools)"

lemma pools_some:
  assumes "select_in_pools env ctx attempted k pools st = (st', Some idx)"
  shows "idx < length (px_backends st) \<and> idx \<notin> set attempted \<and> idx \<notin> set (fc_route_ineligible ctx) \<and>
    idx \<notin> set (fc_ineligible ctx) \<and> bk_pool (px_backends st ! idx) \<in> set pools"
  using assms
proof (induction pools arbitrary: k st)
  case (Cons pool pools)
  let ?inel = "selection_ineligible_with_pool (fc_route_ineligible ctx) (fc_ineligible ctx)
      (pool_ineligible_backends (px_backends st) pool)"
  obtain st1 r where p: "pick env ctx k attempted ?inel st = (st1, r)" by fastforce
  show ?case
  proof (cases r)
    case None
    let ?counts = "pool_candidate_counts (px_backends st) pool attempted (fc_route_ineligible ctx) (fc_ineligible ctx)"
    let ?st = "proxy_record_pool_decision (fc_route ctx) (fc_priority ctx) pool None (fc_origin ctx) ''unavailable'' ?counts st1"
    have "select_in_pools env ctx attempted (k + 1) pools ?st = (st', Some idx)"
      using Cons.prems p None by (simp add: Let_def)
    note IH = Cons.IH [OF this]
    have st: "statics (px_backends ?st) = statics (px_backends st)"
      using pick_only [of st env ctx k attempted ?inel] p by (simp add: only_circuits_def)
    have len: "idx < length (px_backends st)" using IH statics_length [OF st] by simp
    show ?thesis using IH len statics_nth(1) [OF st len] by simp
  next
    case (Some i)
    then have "i = idx" using Cons.prems p by (simp add: Let_def)
    then show ?thesis using pick_some [OF p [unfolded Some]] by (auto simp: eligible_def)
  qed
qed simp

lemma route_some:
  assumes "select_backend_for_route env ctx attempted st = (st', Some idx)"
  shows "may_take env ctx attempted (px_backends st) idx"
proof (cases "pools_for (pe_pools env) (workload_as_str (route_kind (fc_route ctx)))")
  case None
  obtain st1 r where p: "pick env ctx 0 attempted (selection_ineligible (fc_route_ineligible ctx) (fc_ineligible ctx)) st = (st1, r)"
    by fastforce
  then have "r = Some idx" using assms None by (simp add: select_backend_for_route_def Let_def)
  then show ?thesis using pick_some [OF p [unfolded \<open>r = Some idx\<close>]] None by (simp add: may_take_def eligible_def)
next
  case (Some pools)
  then have "select_in_pools env ctx attempted 0 pools st = (st', Some idx)"
    using assms by (simp add: select_backend_for_route_def)
  from pools_some [OF this] show ?thesis using Some by (simp add: may_take_def)
qed

text \<open>When nothing can be picked, nothing was eligible, and the probes changed no breaker.\<close>

lemma probed_down: "\<forall>i \<in> S. i < length bs \<longrightarrow> \<not> up nw bs i \<Longrightarrow> probed nw S bs = bs"
proof (rule nth_equalityI)
  fix i assume down: "\<forall>i \<in> S. i < length bs \<longrightarrow> \<not> up nw bs i" and i: "i < length (probed nw S bs)"
  have "fst (is_available now cb) = cb" if "\<not> lets_through now cb" for now cb
    using that by (auto simp: is_available_def lets_through_def split: circuit_state.splits)
  then show "probed nw S bs ! i = bs ! i" using down i by (auto simp: nth_probed up_def)
qed simp

lemma filter_up_Nil: "filter (up nw bs) xs = [] \<Longrightarrow> \<forall>i \<in> set xs. \<not> up nw bs i"
  by (simp add: filter_empty_conv)

lemma select_none_open:
  fixes bs :: "backend_state list"
  assumes sel: "select_backend_excluding_resource nw bs preferred origin excluded ineligible ranks = (bs', None)"
  shows "bs' = bs" and "\<not> eligible nw bs excluded ineligible i"
proof -
  let ?cs = "first_choice bs origin excluded ineligible" and ?best = "min_by (compare_resource_rank ranks)"
  let ?rest = "\<lambda>checked. rest_choice bs checked excluded ineligible"
  have first: "filter (up nw bs) ?cs = []"
  proof (rule ccontr)
    assume "filter (up nw bs) ?cs \<noteq> []"
    then obtain m where "?best (filter (up nw bs) ?cs) = Some m" by (metis min_by_None_iff option.exhaust)
    then show False using sel unfolding select_eq Let_def by simp
  qed
  note eq = sel [unfolded select_eq Let_def first min_by_Nil option.case]
  obtain S checked where S: "bs' = probed nw S bs" "S = set ?cs \<union> set checked \<union> set (?rest checked)"
    "set ?cs \<subseteq> set checked" "\<forall>i \<in> set checked. \<not> up nw bs i" "?best (filter (up nw bs) (?rest checked)) = None"
  proof (cases "\<exists>p. preferred = Some p \<and> p \<notin> set ?cs \<and> p \<notin> set excluded \<and> p \<notin> set ineligible \<and> p < length bs")
    case True
    then obtain p where p: "preferred = Some p" "p \<notin> set ?cs" "p \<notin> set excluded" "p \<notin> set ineligible" "p < length bs"
      by blast
    from eq p have "\<not> up nw bs p" by (auto split: if_splits)
    with eq p have "bs' = probed nw (insert p (set ?cs) \<union> set (?rest (?cs @ [p]))) bs"
      "?best (filter (up nw bs) (?rest (?cs @ [p]))) = None" by simp_all
    then show thesis
      using \<open>\<not> up nw bs p\<close> filter_up_Nil [OF first] by (intro that [of _ "?cs @ [p]"]) auto
  next
    case False
    then have "(probed nw (set ?cs \<union> set (?rest ?cs)) bs, ?best (filter (up nw bs) (?rest ?cs))) = (bs', None)"
      using eq by (cases preferred) (auto simp del: min_by_None_iff split: if_splits)
    then have "bs' = probed nw (set ?cs \<union> set (?rest ?cs)) bs" "?best (filter (up nw bs) (?rest ?cs)) = None" by simp_all
    then show thesis using filter_up_Nil [OF first] by (intro that [of _ ?cs]) simp_all
  qed
  have rest: "\<forall>i \<in> set (?rest checked). \<not> up nw bs i"
    using S(5) by (intro filter_up_Nil) (simp only: min_by_None_iff)
  show "bs' = bs" unfolding S(1) by (rule probed_down) (use S(2-4) rest in blast)
  show "\<not> eligible nw bs excluded ineligible i"
    using S(4) rest by (auto simp: eligible_def rest_choice_def)
qed

lemma pick_none:
  assumes "pick env ctx k attempted ineligible st = (st', None)"
  shows "px_backends st' = px_backends st"
    and "\<not> eligible (pe_probe env (length attempted) k) (px_backends st) attempted ineligible i"
proof -
  obtain bs' where sel: "select_backend_excluding_resource (pe_probe env (length attempted) k) (px_backends st)
      (fc_preferred ctx) (fc_origin ctx) attempted ineligible (fc_ranks ctx) = (bs', None)"
    and st': "st' = st\<lparr>px_backends := bs'\<rparr>"
    using assms by (auto simp: pick_def split: prod.splits)
  show "px_backends st' = px_backends st" using st' select_none_open(1) [OF sel] by simp
  show "\<not> eligible (pe_probe env (length attempted) k) (px_backends st) attempted ineligible i"
    by (rule select_none_open(2) [OF sel])
qed

definition ready :: "'s proxy_env \<Rightarrow> forward_ctx \<Rightarrow> nat list \<Rightarrow> nat \<Rightarrow> backend_state list \<Rightarrow> nat \<Rightarrow> bool" where
  "ready env ctx attempted k bs i \<longleftrightarrow>
     eligible (pe_probe env (length attempted) k) bs attempted (fc_route_ineligible ctx @ fc_ineligible ctx) i"

lemma ready_in_pool:
  "bk_pool (bs ! i) = pool \<Longrightarrow>
     eligible (pe_probe env (length attempted) k) bs attempted
       (selection_ineligible_with_pool (fc_route_ineligible ctx) (fc_ineligible ctx) (pool_ineligible_backends bs pool)) i \<longleftrightarrow>
     ready env ctx attempted k bs i"
  by (auto simp: ready_def eligible_def selection_ineligible_with_pool_def selection_ineligible_def pool_ineligible_backends_def)

lemma pools_first:
  assumes "select_in_pools env ctx attempted k pools st = (st', Some idx)"
  shows "\<exists>n < length pools. bk_pool (px_backends st ! idx) = pools ! n \<and> ready env ctx attempted (k + n) (px_backends st) idx \<and>
    (\<forall>m < n. \<forall>i. bk_pool (px_backends st ! i) = pools ! m \<longrightarrow> \<not> ready env ctx attempted (k + m) (px_backends st) i)"
  using assms
proof (induction pools arbitrary: k st)
  case (Cons pool pools)
  let ?inel = "selection_ineligible_with_pool (fc_route_ineligible ctx) (fc_ineligible ctx)
      (pool_ineligible_backends (px_backends st) pool)"
  obtain st1 r where p: "pick env ctx k attempted ?inel st = (st1, r)" by fastforce
  show ?case
  proof (cases r)
    case (Some i)
    then have "i = idx" using Cons.prems p by (simp add: Let_def)
    note e = pick_some [OF p [unfolded Some this]]
    then have "bk_pool (px_backends st ! idx) = pool"
      by (auto simp: eligible_def selection_ineligible_with_pool_def pool_ineligible_backends_def)
    with e show ?thesis by (intro exI [of _ 0]) (simp add: ready_in_pool)
  next
    case None
    let ?counts = "pool_candidate_counts (px_backends st) pool attempted (fc_route_ineligible ctx) (fc_ineligible ctx)"
    let ?st = "proxy_record_pool_decision (fc_route ctx) (fc_priority ctx) pool None (fc_origin ctx) ''unavailable'' ?counts st1"
    note none = pick_none [OF p [unfolded None]]
    have same: "px_backends ?st = px_backends st" using none(1) by (simp add: proxy_record_pool_decision_def)
    have "select_in_pools env ctx attempted (Suc k) pools ?st = (st', Some idx)"
      using Cons.prems p None by (simp add: Let_def)
    from Cons.IH [OF this, unfolded same] obtain n where n: "n < length pools" "bk_pool (px_backends st ! idx) = pools ! n"
      "ready env ctx attempted (Suc k + n) (px_backends st) idx"
      "\<forall>m < n. \<forall>i. bk_pool (px_backends st ! i) = pools ! m \<longrightarrow> \<not> ready env ctx attempted (Suc k + m) (px_backends st) i"
      by blast
    have "\<not> ready env ctx attempted (k + m) (px_backends st) i"
      if "m < Suc n" "bk_pool (px_backends st ! i) = (pool # pools) ! m" for m i
      using that n(4) none(2) ready_in_pool [of "px_backends st" i pool env attempted k ctx] by (cases m) auto
    then show ?thesis using n(1-3) by (intro exI [of _ "Suc n"]) simp
  qed
qed simp

text \<open>What the configuration and the reports allow at the start of a request.\<close>

definition may_serve :: "'s proxy_env \<Rightarrow> workload_route \<Rightarrow> 's proxy_state \<Rightarrow> nat \<Rightarrow> bool" where
  "may_serve env r st i \<longleftrightarrow> i < length (px_backends st) \<and> route_allows_backend (px_backends st ! i) r (pe_pools env) \<and>
     (rr_enabled (pe_resource_policy env) \<longrightarrow>
       (\<exists>node rep. bk_node_id (px_backends st ! i) = Some node \<and>
         fresh_backend_report (pe_resource_now env i) node (bk_id (px_backends st ! i)) (px_resources st) = Some rep \<and>
         required_vram_mb (pe_resource_policy env) (route_kind r) \<le> rp_available_vram_mb rep))"

lemma ineligible_step:
  "set (sel_ineligible (resource_selection_step now required rs bs i s)) = set (sel_ineligible s) \<union>
     (if \<exists>node rep. bk_node_id (bs ! i) = Some node \<and> fresh_backend_report (now i) node (bk_id (bs ! i)) rs = Some rep \<and>
         required \<le> rp_available_vram_mb rep then {} else {i})"
  by (auto simp: resource_selection_step_def split: option.split)

lemma ineligible_fold:
  "j \<in> set (sel_ineligible (fold (resource_selection_step now required rs bs) is s)) \<longleftrightarrow>
     j \<in> set (sel_ineligible s) \<or> j \<in> set is \<and>
       \<not> (\<exists>node rep. bk_node_id (bs ! j) = Some node \<and> fresh_backend_report (now j) node (bk_id (bs ! j)) rs = Some rep \<and>
         required \<le> rp_available_vram_mb rep)"
  by (induction "is" arbitrary: s) (auto simp: ineligible_step split: if_splits)

lemma may_serve_iff:
  assumes "ctx = forward_ctx_of env r p headers body st0" "i < length (px_backends st0)"
  shows "may_serve env r st0 i \<longleftrightarrow> i \<notin> set (fc_route_ineligible ctx @ fc_ineligible ctx)"
  using assms(2) by (auto simp: assms(1) forward_ctx_of_def resource_selection_state_def route_ineligible_backends_def
      may_serve_def ineligible_fold Let_def)

text \<open>C15: Wherever a request is sent, the backend was not tried before in this request, serves its
  workload, is of a pool that the route and the workload's pool policy allow, has a breaker that lets it through
  and, when resource routing is on, has a fresh report with the memory the workload needs. When the
  policy lists pools for the workload, it is of the first of them, in the policy's order, that has such a backend.\<close>

theorem selected_backend_allowed:
  assumes "ctx = forward_ctx_of env r p headers body st0"
    and "statics (px_backends st) = statics (px_backends st0)"
    and "select_backend_for_route env ctx attempted st = (st', Some idx)"
  defines "open_at \<equiv> \<lambda>n i. lets_through (pe_probe env (length attempted) n i) (circuit (px_backends st ! i))"
  shows "idx \<notin> set attempted \<and> may_serve env r st0 idx \<and>
    (case pools_for (pe_pools env) (workload_as_str (route_kind r)) of
       None \<Rightarrow> open_at 0 idx
     | Some pools \<Rightarrow>
         \<exists>n < length pools. bk_pool (px_backends st0 ! idx) = pools ! n \<and> open_at n idx \<and>
           (\<forall>m < n. \<forall>i. may_serve env r st0 i \<and> i \<notin> set attempted \<and> bk_pool (px_backends st0 ! i) = pools ! m \<longrightarrow>
              \<not> open_at m i))"
proof -
  let ?bs = "px_backends st0"
  note m = route_some [OF assms(3), unfolded may_take_def]
  have len: "length (px_backends st) = length ?bs" by (rule statics_length [OF assms(2)])
  have serve: "may_serve env r st0 idx"
    using m may_serve_iff [OF assms(1), of idx] len by simp
  have route: "fc_route ctx = r" by (simp add: assms(1) forward_ctx_of_def Let_def)
  have ready: "ready env ctx attempted n (px_backends st) i \<longleftrightarrow> may_serve env r st0 i \<and> i \<notin> set attempted \<and> open_at n i" for n i
    using may_serve_iff [OF assms(1), of i] len by (auto simp: ready_def eligible_def up_def open_at_def may_serve_def)
  show ?thesis
  proof (cases "pools_for (pe_pools env) (workload_as_str (route_kind r))")
    case None
    obtain st1 c where p: "pick env ctx 0 attempted (selection_ineligible (fc_route_ineligible ctx) (fc_ineligible ctx)) st = (st1, c)"
      by fastforce
    then have "c = Some idx" using assms(3) None by (simp add: select_backend_for_route_def route Let_def)
    from pick_some [OF p [unfolded this]] have "open_at 0 idx" by (simp add: eligible_def up_def open_at_def)
    then show ?thesis using m serve None by simp
  next
    case (Some pools)
    then have "select_in_pools env ctx attempted 0 pools st = (st', Some idx)"
      using assms(3) by (simp add: select_backend_for_route_def route)
    from pools_first [OF this] obtain n where n: "n < length pools" "bk_pool (px_backends st ! idx) = pools ! n"
      "ready env ctx attempted n (px_backends st) idx"
      "\<forall>m < n. \<forall>i. bk_pool (px_backends st ! i) = pools ! m \<longrightarrow> \<not> ready env ctx attempted m (px_backends st) i" by auto
    have pool: "bk_pool (px_backends st ! i) = bk_pool (?bs ! i)" if "may_serve env r st0 i" for i
      using statics_nth(1) [OF assms(2)] that by (simp add: may_serve_def)
    have "\<exists>n < length pools. bk_pool (?bs ! idx) = pools ! n \<and> open_at n idx \<and>
        (\<forall>m < n. \<forall>i. may_serve env r st0 i \<and> i \<notin> set attempted \<and> bk_pool (?bs ! i) = pools ! m \<longrightarrow> \<not> open_at m i)"
    proof (intro exI conjI allI impI)
      show "bk_pool (?bs ! idx) = pools ! n" using n(2) pool [OF serve] by simp
      show "open_at n idx" using n(3) ready by blast
      show "\<not> open_at m i" if "m < n" "may_serve env r st0 i \<and> i \<notin> set attempted \<and> bk_pool (?bs ! i) = pools ! m" for m i
      proof
        assume "open_at m i"
        then have "ready env ctx attempted m (px_backends st) i" using that(2) ready [of m i] by simp
        moreover have "bk_pool (px_backends st ! i) = pools ! m" using that(2) pool [of i] by simp
        ultimately show False using n(4) that(1) by blast
      qed
    qed (rule n(1))
    then show ?thesis using m serve Some by simp
  qed
qed

lemma selected_backend_allowed_witness:
  "route_allows_backend ([ex_backend ''a'' (circuit_new 1 100)] ! 0) (route Embeddings) policy_default"
proof -
  define st0 :: "nat proxy_state" where "st0 = \<lparr>px_backends = [ex_backend ''a'' (circuit_new 1 100)],
     px_affinity = affinity_new, px_limiter = limiter_new ex_sem 1 1 1,
     px_resources = resource_registry_new 30, px_metrics = metrics_default\<rparr>"
  define env :: "nat proxy_env" where "env = \<lparr>pe_sem = ex_sem, pe_pools = policy_default,
     pe_resource_policy = resource_policy_default, pe_to_str = Some, pe_resource_now = (\<lambda>_. 0),
     pe_probe = (\<lambda>_ _ _. 0), pe_now = (\<lambda>_. 0), pe_elapsed = 0, pe_send = (\<lambda>_ _. None), pe_other = (\<lambda>_ st. st)\<rparr>"
  let ?ctx = "forward_ctx_of env (route Embeddings) Realtime (\<lambda>_. None) [] st0"
  have "snd (select_backend_for_route env ?ctx [] st0) = Some 0"
    by (simp add: select_backend_for_route_def env_def policy_default_def pools_for_def pick_def Let_def case_prod_unfold
        forward_ctx_of_def header_str_def resource_selection_state_def resource_policy_default_def st0_def
        selection_ineligible_def route_ineligible_backends_def route_allows_backend_def allows_def ex_backend_def
        select_backend_excluding_resource_def best_available_backend_def probe_step_def probe_def
        get_at_def is_available_def circuit_new_def min_by_def)
  then obtain st' where "select_backend_for_route env ?ctx [] st0 = (st', Some 0)" by (metis prod.collapse)
  from selected_backend_allowed [OF refl refl this] show ?thesis by (simp add: may_serve_def) (simp add: st0_def env_def)
qed

section \<open>The loop\<close>

text \<open>Other tasks do not change the configured backends.\<close>

definition others_keep :: "'s proxy_env \<Rightarrow> bool" where
  "others_keep env \<longleftrightarrow> (\<forall>n st. statics (px_backends (pe_other env n st)) = statics (px_backends st))"

lemma note_only [simp]:
  "only_circuits st0 (note_fallback ctx idx st) = only_circuits st0 st"
  "only_circuits st0 (note_failure env ctx n idx reason st) = only_circuits st0 st"
  "statics (px_backends (note_fallback ctx idx st)) = statics (px_backends st)"
  "statics (px_backends (note_failure env ctx n idx reason st)) = statics (px_backends st)"
  "statics (px_backends (note_success env ctx attempted idx status st)) = statics (px_backends st)"
  by (simp_all add: note_fallback_def note_failure_def note_success_def Let_def split: option.split)

lemma route_statics: "statics (px_backends (fst (select_backend_for_route env ctx attempted st))) = statics (px_backends st)"
  using route_only [of st env ctx attempted] by (simp add: only_circuits_def)

text \<open>The next backend after a failure is a new one.\<close>

lemma attempt_next:
  assumes "attempt_backend env ctx attempted idx st = Inl (j, st')"
  shows "may_take env ctx (attempted @ [idx]) (px_backends st') j"
    and "others_keep env \<Longrightarrow> statics (px_backends st') = statics (px_backends st)"
proof -
  obtain st2 reason where st2: "st2 = pe_other env (length attempted) (note_fallback ctx idx st)"
    "select_backend_for_route env ctx (attempted @ [idx]) (note_failure env ctx (length attempted) idx reason st2) = (st', Some j)"
    using assms by (auto simp: attempt_backend_def after_failure_def post_def split: option.splits if_splits prod.splits)
  have s: "statics (px_backends st') = statics (px_backends st2)"
    using route_statics [of env ctx "attempted @ [idx]" "note_failure env ctx (length attempted) idx reason st2"] st2(2) by simp
  note m = route_some [OF st2(2)]
  have s2: "statics (px_backends (note_failure env ctx (length attempted) idx reason st2)) = statics (px_backends st')"
    using s by simp
  have i: "j < length (px_backends st')" using m statics_length [OF s2] by (simp add: may_take_def)
  show "may_take env ctx (attempted @ [idx]) (px_backends st') j"
    using m i statics_nth(1) [OF s2 i] by (simp add: may_take_def)
  show "statics (px_backends st') = statics (px_backends st)" if "others_keep env"
    using that s by (simp add: others_keep_def st2(1))
qed

text \<open>Attempted backends are distinct, so the fuel \<open>forward\<close> supplies is enough; posts are numbered
  below the number of backends.\<close>

definition request_for :: "workload_route \<Rightarrow> header_map \<Rightarrow> string \<Rightarrow> backend_state \<Rightarrow> upstream_request" where
  "request_for r headers body b =
     \<lparr>ur_url = upstream_url b r, ur_headers = with_upstream_headers headers, ur_body = body\<rparr>"

abbreviation ctx_request :: "forward_ctx \<Rightarrow> backend_state \<Rightarrow> upstream_request" where
  "ctx_request ctx \<equiv> request_for (fc_route ctx) (fc_headers ctx) (fc_body ctx)"

lemma note_fallback_backends [simp]: "px_backends (note_fallback ctx idx st) = px_backends st"
  by (simp add: note_fallback_def proxy_record_fallback_def split: option.split)

lemma attempt_agree:
  shows "pe_send env (length attempted) (ctx_request ctx (px_backends st ! idx)) =
        g (length attempted) (ctx_request ctx (px_backends st ! idx)) \<Longrightarrow>
      attempt_backend (env\<lparr>pe_send := g\<rparr>) ctx attempted idx st = attempt_backend env ctx attempted idx st"
    and "select_backend_for_route (env\<lparr>pe_send := g\<rparr>) = select_backend_for_route env"
    and "no_backend (env\<lparr>pe_send := g\<rparr>) = no_backend env"
proof -
  have pick: "pick (env\<lparr>pe_send := g\<rparr>) = pick env" by (simp add: pick_def fun_eq_iff)
  then have pools: "select_in_pools (env\<lparr>pe_send := g\<rparr>) ctx attempted k pools st = select_in_pools env ctx attempted k pools st"
    for ctx attempted k pools and st
    by (induction pools arbitrary: k st) (simp_all add: Let_def)
  show sel: "select_backend_for_route (env\<lparr>pe_send := g\<rparr>) = select_backend_for_route env"
    unfolding select_backend_for_route_def [abs_def] by (intro ext) (simp add: pools pick split: option.split)
  have rec: "proxy_record_request (env\<lparr>pe_send := g\<rparr>) = proxy_record_request env"
    by (simp add: proxy_record_request_def fun_eq_iff)
  show "no_backend (env\<lparr>pe_send := g\<rparr>) = no_backend env" by (simp add: no_backend_def fun_eq_iff rec)
  have "after_failure (env\<lparr>pe_send := g\<rparr>) = after_failure env"
    by (intro ext) (simp add: after_failure_def sel rec note_failure_def split: prod.split option.split)
  moreover have "note_success (env\<lparr>pe_send := g\<rparr>) = note_success env"
    by (simp add: note_success_def fun_eq_iff rec)
  ultimately show "attempt_backend (env\<lparr>pe_send := g\<rparr>) ctx attempted idx st = attempt_backend env ctx attempted idx st"
    if "pe_send env (length attempted) (ctx_request ctx (px_backends st ! idx)) =
        g (length attempted) (ctx_request ctx (px_backends st ! idx))"
    using that by (simp add: attempt_backend_def post_def request_for_def split: option.split)
qed

definition next_ok :: "nat list \<Rightarrow> nat option \<Rightarrow> 's proxy_state \<Rightarrow> bool" where
  "next_ok attempted next_backend st \<longleftrightarrow> distinct attempted \<and> set attempted \<subseteq> {..<length (px_backends st)} \<and>
     (case next_backend of None \<Rightarrow> True | Some i \<Rightarrow> i < length (px_backends st) \<and> i \<notin> set attempted)"

text \<open>One turn of the loop from a state where \<open>next_ok\<close> holds.\<close>

lemma turn_cases:
  assumes keep: "others_keep env" and ok: "next_ok attempted nxt st"
  obtains (none) st1 where "\<And>fuel. forward_loop (Suc fuel) env ctx attempted nxt st = Some (no_backend env ctx attempted st1)"
      "nxt = None" "select_backend_for_route env ctx attempted st = (st1, None)"
  | (done1) idx st1 out where "\<And>fuel. forward_loop (Suc fuel) env ctx attempted nxt st = Some out"
      "attempt_backend env ctx attempted idx st1 = Inr out" "next_ok (attempted @ [idx]) None st1"
      "length (px_backends st1) = length (px_backends st)"
      "if nxt = None then select_backend_for_route env ctx attempted st = (st1, Some idx) else st1 = st \<and> nxt = Some idx"
  | (again) idx st1 j st2 where
      "\<And>fuel. forward_loop (Suc fuel) env ctx attempted nxt st = forward_loop fuel env ctx (attempted @ [idx]) (Some j) st2"
      "attempt_backend env ctx attempted idx st1 = Inl (j, st2)" "next_ok (attempted @ [idx]) (Some j) st2"
      "length (px_backends st2) = length (px_backends st)"
      "if nxt = None then select_backend_for_route env ctx attempted st = (st1, Some idx) else st1 = st \<and> nxt = Some idx"
proof -
  obtain st1 r where sel: "(case nxt of Some idx \<Rightarrow> (st, Some idx) | None \<Rightarrow> select_backend_for_route env ctx attempted st) = (st1, r)"
    by fastforce
  have len: "length (px_backends st1) = length (px_backends st)"
    using sel route_statics [of env ctx attempted st] by (cases nxt) (auto dest: statics_length)
  show thesis
  proof (cases r)
    case None
    then have "nxt = None" using sel by (cases nxt) auto
    then show thesis using none [of st1] sel None by simp
  next
    case (Some idx)
    have idx: "idx < length (px_backends st)" "idx \<notin> set attempted"
      using sel ok Some route_some [of env ctx attempted st st1 idx]
      by (auto simp: next_ok_def may_take_def split: option.splits)
    have how: "if nxt = None then select_backend_for_route env ctx attempted st = (st1, Some idx) else st1 = st \<and> nxt = Some idx"
      using sel Some by (auto split: option.splits)
    have ok1: "next_ok (attempted @ [idx]) None st1" using ok idx len by (auto simp: next_ok_def)
    show thesis
    proof (cases "attempt_backend env ctx attempted idx st1")
      case (Inl p)
      obtain j st2 where p: "p = (j, st2)" by (cases p)
      note nx = attempt_next [OF Inl [unfolded p]]
      have len2: "length (px_backends st2) = length (px_backends st)"
        using statics_length [OF nx(2) [OF keep]] len by simp
      have "next_ok (attempted @ [idx]) (Some j) st2"
        using ok1 nx(1) len len2 by (simp add: next_ok_def may_take_def)
      then show thesis using again [of idx j st2 st1] sel Some Inl p len2 how by simp
    next
      case (Inr out)
      then show thesis using done1 [of out idx st1] sel Some ok1 how len by simp
    qed
  qed
qed

lemma attempted_short: "next_ok attempted nxt st \<Longrightarrow> length attempted \<le> length (px_backends st)"
  using card_mono [of "{..<length (px_backends st)}" "set attempted"] by (auto simp: next_ok_def distinct_card)

definition same_answers ::
  "'s proxy_env \<Rightarrow> forward_ctx \<Rightarrow> backend_state list \<Rightarrow> nat \<Rightarrow> nat list \<Rightarrow> (nat \<Rightarrow> upstream_request \<Rightarrow> upstream option) \<Rightarrow> bool" where
  "same_answers env ctx bs k js g \<longleftrightarrow>
     (\<forall>n < length js. pe_send env (k + n) (ctx_request ctx (bs ! (js ! n))) = g (k + n) (ctx_request ctx (bs ! (js ! n))))"

lemma same_answers_Cons [simp]:
  "same_answers env ctx bs k (j # js) g \<longleftrightarrow>
     pe_send env k (ctx_request ctx (bs ! j)) = g k (ctx_request ctx (bs ! j)) \<and> same_answers env ctx bs (Suc k) js g"
  by (auto simp: same_answers_def less_Suc_eq_0_disj)

lemma same_answers_Nil [simp]: "same_answers env ctx bs k [] g"
  by (simp add: same_answers_def)

text \<open>The loop returns, and it has looked at no answer but those to one post each to distinct new backends.\<close>

lemma loop_total:
  assumes "others_keep env" "next_ok attempted nxt st" "length (px_backends st) < length attempted + fuel"
    and "statics (px_backends st) = statics bs"
  shows "\<exists>out js. distinct (attempted @ js) \<and> set js \<subseteq> {..<length bs} \<and>
    (\<forall>g. same_answers env ctx bs (length attempted) js g \<longrightarrow>
      forward_loop fuel (env\<lparr>pe_send := g\<rparr>) ctx attempted nxt st = Some out)"
  using assms(2-4)
proof (induction fuel arbitrary: attempted nxt st)
  case 0
  then show ?case using attempted_short [OF 0(1)] by simp
next
  case (Suc fuel)
  have url: "ctx_request ctx (px_backends st1 ! i) = ctx_request ctx (bs ! i)"
    if "statics (px_backends st1) = statics bs" "i < length (px_backends st1)" for st1 i
    using statics_nth [OF that(1)] that(2) statics_length [OF that(1)] by (simp add: request_for_def upstream_url_def)
  have len: "length (px_backends st) = length bs" using Suc.prems(3) by (rule statics_length)
  have kept: "statics (px_backends st1) = statics bs"
    if "if nxt = None then select_backend_for_route env ctx attempted st = (st1, Some idx) else st1 = st \<and> nxt = Some idx"
    for st1 idx
    using that Suc.prems(3) route_statics [of env ctx attempted st] by (auto split: if_splits)
  show ?case using assms(1) Suc.prems(1)
  proof (cases rule: turn_cases [where ctx = ctx])
    case (none st1)
    then have "forward_loop (Suc fuel) (env\<lparr>pe_send := g\<rparr>) ctx attempted nxt st = Some (no_backend env ctx attempted st1)" for g
      by (simp add: attempt_agree(2,3))
    then show ?thesis
      using Suc.prems(1) by (intro exI [of _ "no_backend env ctx attempted st1"] exI [of _ "[]"]) (simp add: next_ok_def)
  next
    case (done1 idx st1 out)
    note st1 = kept [OF done1(5)]
    have idx: "idx < length (px_backends st1)" using done1(3) by (simp add: next_ok_def)
    have "forward_loop (Suc fuel) (env\<lparr>pe_send := g\<rparr>) ctx attempted nxt st = Some out"
      if "same_answers env ctx bs (length attempted) [idx] g" for g
      using done1(2,5) attempt_agree(1) [of env attempted ctx st1 idx g] that url [OF st1 idx]
      by (cases nxt) (simp_all add: attempt_agree(2))
    then show ?thesis
      using done1(3,4) len by (intro exI [of _ out] exI [of _ "[idx]"]) (auto simp: next_ok_def)
  next
    case (again idx st1 j st2)
    note st1 = kept [OF again(5)]
    have idx: "idx < length (px_backends st1)"
      using again(3,4) statics_length [OF st1] len by (simp add: next_ok_def)
    have st2: "statics (px_backends st2) = statics bs"
      using attempt_next(2) [OF again(2) assms(1)] st1 by simp
    obtain out js where rest: "distinct ((attempted @ [idx]) @ js)" "set js \<subseteq> {..<length bs}"
      "\<forall>g. same_answers env ctx bs (length (attempted @ [idx])) js g \<longrightarrow>
        forward_loop fuel (env\<lparr>pe_send := g\<rparr>) ctx (attempted @ [idx]) (Some j) st2 = Some out"
      using Suc.IH [OF again(3) _ st2] Suc.prems(2) again(4) by auto
    have "forward_loop (Suc fuel) (env\<lparr>pe_send := g\<rparr>) ctx attempted nxt st = Some out"
      if "same_answers env ctx bs (length attempted) (idx # js) g" for g
    proof -
      have "forward_loop (Suc fuel) (env\<lparr>pe_send := g\<rparr>) ctx attempted nxt st =
          forward_loop fuel (env\<lparr>pe_send := g\<rparr>) ctx (attempted @ [idx]) (Some j) st2"
        using again(2,5) attempt_agree(1) [of env attempted ctx st1 idx g] that url [OF st1 idx]
        by (cases nxt) (simp_all add: attempt_agree(2))
      then show ?thesis using rest(3) that by simp
    qed
    moreover have "idx < length bs" using idx statics_length [OF st1] by simp
    ultimately show ?thesis using rest(1,2) by (intro exI [of _ out] exI [of _ "idx # js"]) auto
  qed
qed

lemma forward_posts_once:
  assumes "others_keep env"
  shows "\<exists>out js. distinct js \<and> set js \<subseteq> {..<length (px_backends st)} \<and>
    (\<forall>g. (\<forall>n < length js. let request = request_for r headers body (px_backends st ! (js ! n)) in g n request = pe_send env n request) \<longrightarrow>
      forward (env\<lparr>pe_send := g\<rparr>) r headers body st = Some out)"
proof -
  have settle: "settle_permit (env\<lparr>pe_send := g\<rparr>) = settle_permit env" for g
    by (simp add: settle_permit_def fun_eq_iff)
  have hs: "header_str (env\<lparr>pe_send := g\<rparr>) = header_str env" for g
    by (intro ext) (simp add: header_str_def split: option.split)
  have ctx: "forward_ctx_of (env\<lparr>pe_send := g\<rparr>) = forward_ctx_of env" for g
    by (intro ext) (simp add: forward_ctx_of_def hs Let_def)
  have rec: "proxy_record_request (env\<lparr>pe_send := g\<rparr>) = proxy_record_request env" for g
    by (simp add: proxy_record_request_def fun_eq_iff)
  show ?thesis
  proof (cases "parse_priority (pe_to_str env) headers")
    case (Inl msg)
    then show ?thesis by (intro exI [of _ "(st, Plain 400 msg)"] exI [of _ "[]"]) (simp add: forward_def)
  next
    case (Inr p)
    show ?thesis
    proof (cases "px_backends st = [] \<or> try_acquire (pe_sem env) p (px_limiter st) = None")
      case True
      then have "\<exists>out. \<forall>g. forward (env\<lparr>pe_send := g\<rparr>) r headers body st = Some out"
        using Inr by (cases "px_backends st = []") (auto simp: forward_def hs rec Let_def)
      then obtain out where "\<forall>g. forward (env\<lparr>pe_send := g\<rparr>) r headers body st = Some out" ..
      then show ?thesis by (intro exI [of _ out] exI [of _ "[]"]) simp
    next
      case False
      then obtain l where l: "try_acquire (pe_sem env) p (px_limiter st) = Some l" "px_backends st \<noteq> []" by auto
      let ?st = "st\<lparr>px_limiter := l\<rparr>"
      let ?ctx = "forward_ctx_of env r p headers body ?st"
      have c: "fc_route ?ctx = r" "fc_headers ?ctx = headers" "fc_body ?ctx = body"
        by (simp_all add: forward_ctx_of_def Let_def)
      obtain out js where loop: "distinct js" "set js \<subseteq> {..<length (px_backends st)}"
        "\<forall>g. same_answers env ?ctx (px_backends st) 0 js g \<longrightarrow>
          forward_loop (Suc (length (px_backends st))) (env\<lparr>pe_send := g\<rparr>) ?ctx [] None ?st = Some out"
        using loop_total [OF assms(1), of "[]" None ?st "Suc (length (px_backends st))" "px_backends st" ?ctx]
        by (auto simp: next_ok_def simp del: forward_loop.simps)
      have "forward (env\<lparr>pe_send := g\<rparr>) r headers body st = Some (settle_permit env p out)"
        if "\<forall>n < length js. let request = request_for r headers body (px_backends st ! (js ! n)) in g n request = pe_send env n request" for g
      proof -
        have "same_answers env ?ctx (px_backends st) 0 js g"
          using that by (simp add: same_answers_def c Let_def)
        with loop(3) show ?thesis using l Inr by (simp add: forward_def Let_def settle ctx del: forward_loop.simps)
      qed
      then show ?thesis using loop(1,2) by (intro exI [of _ "settle_permit env p out"] exI [of _ js]) simp
    qed
  qed
qed

lemma forward_total: "others_keep env \<Longrightarrow> \<exists>out. forward env r headers body st = Some out"
proof -
  assume "others_keep env"
  from forward_posts_once [OF this, of st r headers body] obtain out js where
    "\<forall>g. (\<forall>n < length js. let request = request_for r headers body (px_backends st ! (js ! n)) in g n request = pe_send env n request) \<longrightarrow>
      forward (env\<lparr>pe_send := g\<rparr>) r headers body st = Some out" by blast
  from spec [OF this, of "pe_send env"] show ?thesis by simp
qed

text \<open>C6: Forwarding always ends with an answer, whatever the upstreams and the other tasks do, and it posts to
  each backend at most once: there are distinct backends \<open>js\<close> such that what the upstreams would
  answer to anything but the request's own post number \<open>n\<close> to the backend \<open>js ! n\<close> has no influence
  on the answer or the state.\<close>

theorem forward_terminates:
  assumes "others_keep env"
  shows "\<exists>out js. distinct js \<and> set js \<subseteq> {..<length (px_backends st)} \<and>
    forward env r headers body st = Some out \<and>
    (\<forall>g. (\<forall>n < length js. let request = request_for r headers body (px_backends st ! (js ! n)) in g n request = pe_send env n request) \<longrightarrow>
      forward (env\<lparr>pe_send := g\<rparr>) r headers body st = Some out)"
proof -
  obtain out js where *: "distinct js" "set js \<subseteq> {..<length (px_backends st)}"
    "\<forall>g. (\<forall>n < length js. let request = request_for r headers body (px_backends st ! (js ! n)) in g n request = pe_send env n request) \<longrightarrow>
      forward (env\<lparr>pe_send := g\<rparr>) r headers body st = Some out"
    using forward_posts_once [OF assms, of st r headers body] by blast
  from spec [OF *(3), of "pe_send env"] have "forward env r headers body st = Some out" by simp
  with * show ?thesis by blast
qed

text \<open>An example for the witnesses: two backends, of which the first cannot be reached.\<close>

definition ex_px :: "nat proxy_state" where
  "ex_px = \<lparr>px_backends = [ex_backend ''a'' (circuit_new 1 100), ex_backend ''b'' (circuit_new 1 100)],
     px_affinity = affinity_new, px_limiter = limiter_new ex_sem 1 1 1,
     px_resources = resource_registry_new 30, px_metrics = metrics_default\<rparr>"

definition ex_penv :: "nat proxy_env" where
  "ex_penv = \<lparr>pe_sem = ex_sem, pe_pools = policy_default, pe_resource_policy = resource_policy_default,
     pe_to_str = Some, pe_resource_now = (\<lambda>_. 0), pe_probe = (\<lambda>_ _ _. 0), pe_now = (\<lambda>_. 0), pe_elapsed = 0,
     pe_send = (\<lambda>n _. if n = 0 then None else
       Some \<lparr>up_status = 200, up_content_type = Some ''text/event-stream'', up_body = [''ok'']\<rparr>),
     pe_other = (\<lambda>_ st. st)\<rparr>"

lemma ex_penv_ok: "others_keep ex_penv" "pe_sem ex_penv = ex_sem" "pe_to_str ex_penv = Some"
  by (simp_all add: others_keep_def ex_penv_def)

lemma forward_terminates_witness:
  "\<exists>out. forward ex_penv (route Embeddings) (\<lambda>_. None) ''{}'' ex_px = Some out"
  using forward_terminates [OF ex_penv_ok(1), of ex_px "route Embeddings" "\<lambda>_. None" "''{}''"] by blast

lemma ex_forward: "\<exists>st' resp. forward ex_penv (route Embeddings) (\<lambda>_. None) ''{}'' ex_px = Some (st', resp)"
  using forward_total [OF ex_penv_ok(1), of "route Embeddings" "\<lambda>_. None" "''{}''" ex_px] by (metis old.prod.exhaust)

lemma ex_priority: "parse_priority Some (\<lambda>_. None) = Inr Realtime"
  by (simp add: parse_priority_def priority_default_def)

section \<open>Permits and counters\<close>

definition total_requests :: "routing_metrics \<Rightarrow> nat" where
  "total_requests m = sum_list (map (\<lambda>(_, a). ra_count a) (requests m))"

lemma sum_bump:
  assumes "\<And>x. f (g x) = Suc (f x)" "f z = 0"
  shows "sum_list (map (\<lambda>(_, a). f a) (bump z g k al)) = Suc (sum_list (map (\<lambda>(_, a). f a) al))"
  using assms by (induction al) (auto simp: bump_def)

lemma total_record_request: "total_requests (record_request l t m) = Suc (total_requests m)"
  by (simp add: total_requests_def record_request_def sum_bump)

lemma total_frames [simp]:
  "total_requests (px_metrics (proxy_record_request env r p b o1 s out st)) = total_requests (px_metrics st) + 1"
  "total_requests (px_metrics (proxy_record_fallback r p bk o1 why st)) = total_requests (px_metrics st)"
  "total_requests (px_metrics (proxy_record_retry r p bk o1 why st)) = total_requests (px_metrics st)"
  "total_requests (px_metrics (proxy_record_pool_decision r p pool b o1 out cs st)) = total_requests (px_metrics st)"
  "px_metrics (set_circuit idx f st) = px_metrics st"
  "total_requests (px_metrics (note_fallback ctx idx st)) = total_requests (px_metrics st)"
  "total_requests (px_metrics (note_failure env ctx n idx reason st)) = total_requests (px_metrics st)"
  by (simp_all add: proxy_record_request_def total_record_request proxy_record_fallback_def proxy_record_retry_def
      proxy_record_pool_decision_def set_circuit_def note_fallback_def note_failure_def
      record_fallback_def record_retry_def record_pool_decision_def total_requests_def [of "_\<lparr>retries := _\<rparr>"]
      total_requests_def [of "_\<lparr>fallbacks := _\<rparr>"] total_requests_def [of "_\<lparr>pool_decisions := _\<rparr>"]
      split: option.split) (simp_all add: total_requests_def)

lemma total_pick [simp]: "px_metrics (fst (pick env ctx k attempted ineligible st)) = px_metrics st"
  by (simp add: pick_def case_prod_unfold)

lemma total_pools: "total_requests (px_metrics (fst (select_in_pools env ctx attempted k pools st))) = total_requests (px_metrics st)"
proof (induction pools arbitrary: k st)
  case (Cons pool pools)
  obtain st1 r where p: "pick env ctx k attempted (selection_ineligible_with_pool (fc_route_ineligible ctx)
      (fc_ineligible ctx) (pool_ineligible_backends (px_backends st) pool)) st = (st1, r)" by fastforce
  then have "px_metrics st1 = px_metrics st" using total_pick by (metis fst_conv)
  then show ?case using p Cons.IH by (cases r) (simp_all add: Let_def)
qed simp

lemma total_route: "total_requests (px_metrics (fst (select_backend_for_route env ctx attempted st))) = total_requests (px_metrics st)"
  by (simp add: select_backend_for_route_def total_pools Let_def case_prod_unfold split: option.split)

lemma note_limiter [simp]:
  "px_limiter (note_fallback ctx idx st) = px_limiter st"
  "px_limiter (note_failure env ctx n idx reason st) = px_limiter st"
  "px_limiter (note_success env ctx attempted idx status st) = px_limiter st"
  "px_limiter (proxy_record_request env r p b o1 s out st) = px_limiter st"
  "total_requests (px_metrics (note_success env ctx attempted idx status st)) = total_requests (px_metrics st) + 1"
  by (simp_all add: note_fallback_def note_failure_def note_success_def proxy_record_request_def proxy_record_fallback_def
      proxy_record_retry_def set_circuit_def Let_def total_record_request split: option.split)

text \<open>The answer of the loop.\<close>

definition request_to :: "forward_ctx \<Rightarrow> backend_state \<Rightarrow> upstream_request" where
  "request_to ctx b = \<lparr>ur_url = upstream_url b (fc_route ctx), ur_headers = with_upstream_headers (fc_headers ctx),
     ur_body = fc_body ctx\<rparr>"

definition answered ::
  "'s proxy_env \<Rightarrow> forward_ctx \<Rightarrow> backend_state list \<Rightarrow> 's proxy_state \<Rightarrow> proxy_response \<Rightarrow> bool" where
  "answered env ctx bs st' resp \<longleftrightarrow>
     (case resp of
        Plain code msg \<Rightarrow>
          code = 503 \<or> code = 502 \<and> (\<exists>n < length bs. \<exists>i < length bs. pe_send env n (request_to ctx (bs ! i)) = None)
      | Streamed code hs chunks \<Rightarrow>
          (\<exists>n < length bs. \<exists>i < length bs. \<exists>up. pe_send env n (request_to ctx (bs ! i)) = Some up \<and>
             code = up_status up \<and> chunks = up_body up \<and>
             (retry_server_errors (fc_route ctx) \<and> is_server_error code \<or>
              cb_state (circuit (px_backends st' ! i)) = Closed \<and>
              (\<forall>key. fc_affinity_key ctx = Some key \<longrightarrow> px_affinity st' key = Some i))))"

lemma upstream_url_static: "bk_url b = bk_url b' \<Longrightarrow> request_to ctx b = request_to ctx b'"
  by (simp add: request_to_def upstream_url_def)

lemma set_circuit_nth: "i < length (px_backends st) \<Longrightarrow>
    circuit (px_backends (set_circuit i f st) ! i) = f (circuit (px_backends st ! i))"
  by (simp add: set_circuit_def)

lemma success_state:
  assumes "i < length (px_backends st)"
  shows "cb_state (circuit (px_backends (note_success env ctx attempted i status st) ! i)) = Closed"
    "fc_affinity_key ctx = Some key \<Longrightarrow> px_affinity (note_success env ctx attempted i status st) key = Some i"
  using set_circuit_nth [OF assms, of record_success]
  by (auto simp: note_success_def Let_def record_success_def affinity_record_def proxy_record_request_def split: option.split)

lemma attempt_answer:
  assumes keep: "others_keep env" and st: "statics (px_backends st) = statics bs"
    and idx: "idx < length bs" "length attempted < length bs"
    and out: "attempt_backend env ctx attempted idx st = Inr (st', resp)"
  shows "answered env ctx bs st' resp"
proof -
  let ?n = "length attempted" and ?st = "note_fallback ctx idx st"
  have req: "request_to ctx (px_backends ?st ! idx) = request_to ctx (bs ! idx)"
  proof (rule upstream_url_static)
    have "statics (px_backends ?st) = statics bs" by (simp add: st)
    from statics_nth(5) [OF this idx(1)] show "bk_url (px_backends ?st ! idx) = bk_url (bs ! idx)" .
  qed
  have post: "post env ctx ?n idx ?st = (pe_other env ?n ?st, pe_send env ?n (request_to ctx (bs ! idx)))"
    unfolding req [symmetric] by (simp add: post_def request_to_def)
  have len: "idx < length (px_backends (pe_other env ?n ?st))"
    using keep statics_length [of "px_backends (pe_other env ?n ?st)" bs] st idx(1) by (simp add: others_keep_def)
  show ?thesis
  proof (cases "pe_send env ?n (request_to ctx (bs ! idx))")
    case None
    then have "resp = Plain 502 []"
      using out by (auto simp: attempt_backend_def post after_failure_def split: prod.splits option.splits)
    then show ?thesis using None idx by (auto simp: answered_def)
  next
    case (Some up)
    have resp: "\<exists>hs. resp = Streamed (up_status up) hs (up_body up)"
      using out Some by (auto simp: attempt_backend_def post after_failure_def upstream_response_def Let_def
          split: prod.splits option.splits if_splits)
    have "retry_server_errors (fc_route ctx) \<and> is_server_error (up_status up) \<or>
        st' = note_success env ctx attempted idx (up_status up) (pe_other env ?n ?st)"
      using out Some by (auto simp: attempt_backend_def post split: if_splits)
    then show ?thesis
      using resp Some idx success_state [OF len, where env = env and ctx = ctx and attempted = attempted and status = "up_status up"]
      by (fastforce simp: answered_def)
  qed
qed

lemma loop_answer:
  assumes keep: "others_keep env" and st: "statics (px_backends st) = statics bs"
    and ok: "next_ok attempted nxt st" "nxt = None \<longrightarrow> attempted = []"
    and out: "forward_loop fuel env ctx attempted nxt st = Some (st', resp)"
  shows "answered env ctx bs st' resp"
  using st ok out
proof (induction fuel arbitrary: attempted nxt st)
  case (Suc fuel)
  have via: "statics (px_backends st1) = statics bs"
    if "if nxt = None then select_backend_for_route env ctx attempted st = (st1, Some idx) else st1 = st \<and> nxt = Some idx"
    for st1 idx using that Suc.prems(1) route_statics [of env ctx attempted st] by (auto split: if_splits)
  have short: "idx < length bs \<and> length attempted < length bs"
    if "next_ok (attempted @ [idx]) x s" "length (px_backends s) = length (px_backends st)" for idx x and s :: "'a proxy_state"
    using that attempted_short [OF that(1)] statics_length [OF Suc.prems(1)] by (auto simp: next_ok_def)
  show ?case using keep Suc.prems(2)
  proof (cases rule: turn_cases [where ctx = ctx])
    case (none st1)
    then have "resp = Plain 503 (unavailable_message (fc_route_ineligible ctx) (fc_ineligible ctx) (length (px_backends st1)))"
      using Suc.prems(3,4) none(1) [of fuel] by (auto simp: no_backend_def)
    then show ?thesis by (simp add: answered_def)
  next
    case (done1 idx st1 out)
    then have "out = (st', resp)" using Suc.prems(4) done1(1) [of fuel] by simp
    then show ?thesis
      using attempt_answer [OF keep via [OF done1(5)] _ _ done1(2) [unfolded \<open>out = (st', resp)\<close>]]
        short [OF done1(3,4)] by blast
  next
    case (again idx st1 j st2)
    have "statics (px_backends st2) = statics bs"
      using attempt_next(2) [OF again(2) keep] via [OF again(5)] by simp
    then show ?thesis
      using Suc.IH [OF _ again(3)] Suc.prems(4) again(1) [of fuel] by simp
  qed
qed simp

text \<open>C11: Where an answer comes from. A streamed answer is what one of the configured backends returned
  to the request, posted to its own URL with the forwarded headers and the unchanged body; unless it is
  a server error, that backend's breaker is closed and the request's thread is bound to it. A plain one
  is 400 for a bad priority header, 429 when the priority's permits are out, 503 when no backend could
  be tried, or 502 when a post failed to connect.\<close>

theorem forward_answer:
  assumes "others_keep env" "forward env r headers body st = Some (st', resp)"
  shows "(\<exists>message1. resp = Plain 400 message1 \<and> parse_priority (pe_to_str env) headers = Inl message1) \<or>
    (\<exists>p. parse_priority (pe_to_str env) headers = Inr p \<and>
      (resp = Plain 503 ''no backends configured'' \<and> px_backends st = [] \<or>
       resp = Plain 429 ''priority limit reached'' \<and> try_acquire (pe_sem env) p (px_limiter st) = None \<or>
       (\<exists>l. try_acquire (pe_sem env) p (px_limiter st) = Some l \<and>
          answered env (forward_ctx_of env r p headers body (st\<lparr>px_limiter := l\<rparr>)) (px_backends st) st' resp)))"
proof (cases "parse_priority (pe_to_str env) headers")
  case (Inl e)
  then show ?thesis using assms(2) by (simp add: forward_def)
next
  case (Inr p)
  show ?thesis
  proof (cases "px_backends st = [] \<or> try_acquire (pe_sem env) p (px_limiter st) = None")
    case True
    then show ?thesis using assms(2) Inr
      by (cases "px_backends st = []") (auto simp: forward_def Let_def)
  next
    case False
    then obtain l where l: "try_acquire (pe_sem env) p (px_limiter st) = Some l" "px_backends st \<noteq> []" by auto
    let ?st = "st\<lparr>px_limiter := l\<rparr>" and ?ctx = "forward_ctx_of env r p headers body (st\<lparr>px_limiter := l\<rparr>)"
    obtain st1 resp1 where loop: "forward_loop (Suc (length (px_backends st))) env ?ctx [] None ?st = Some (st1, resp1)"
      "settle_permit env p (st1, resp1) = (st', resp)"
      using assms(2) Inr l by (auto simp: forward_def Let_def simp del: forward_loop.simps)
    have "answered env ?ctx (px_backends st) st1 resp1"
      by (rule loop_answer [OF assms(1) _ _ _ loop(1)]) (simp_all add: next_ok_def)
    note ans = this
    have "answered env ?ctx (px_backends st) st' resp"
    proof (cases resp1)
      case (Plain c m)
      then show ?thesis using loop(2) ans by (auto simp: settle_permit_def answered_def)
    next
      case (Streamed c hs ch)
      then show ?thesis using loop(2) ans by (simp add: settle_permit_def)
    qed
    then show ?thesis using Inr l by blast
  qed
qed

lemma forward_answer_witness:
  "\<exists>st' resp. forward ex_penv (route Embeddings) (\<lambda>_. None) ''{}'' ex_px = Some (st', resp) \<and>
     \<not> (\<exists>message1. resp = Plain 400 message1)"
proof -
  obtain st' resp where f: "forward ex_penv (route Embeddings) (\<lambda>_. None) ''{}'' ex_px = Some (st', resp)"
    using ex_forward by blast
  from forward_answer [OF ex_penv_ok(1) f] have "\<not> (\<exists>message1. resp = Plain 400 message1)"
    by (auto simp: ex_penv_ok ex_priority answered_def)
  with f show ?thesis by blast
qed

end
