(* ===== verification/Config.thy ===== *)
theory Config
  imports Config_Types
begin

text \<open>
  Reading the configuration, \<open>src/src/config.rs\<close>: \<open>Config::from_lookup\<close> and everything it calls.
  \<open>get\<close> is the lookup of a key; every \<open>VarError\<close> is \<open>None\<close>, as the code never looks at it. An
  \<open>anyhow\<close> error is its message. The JSON library is a parameter, \<open>json_lib\<close>: it reads a text
  into the fields as they stand in it, and the \<open>serde\<close> attributes are applied here. Integers are
  natural numbers below the bound of their type, with \<open>usize\<close> of 64 bits.
\<close>

section \<open>Data\<close>

datatype job_store_config = Store_Memory | Store_Sqlite string

datatype pool_config_entry = Entry_Id string | Entry_Object pool_config

text \<open>A backend as the JSON text has it: \<open>None\<close> in a field with a default is an absent key.\<close>

record backend_json =
  bj_id :: string
  bj_url :: string
  bj_node_id :: "string option"
  bj_pool :: "string option"
  bj_workloads :: "workload_kind list option"
  bj_health_path :: "string option"

record json_lib =
  json_backends :: "string \<Rightarrow> string + backend_json list"
  json_pools :: "string \<Rightarrow> string + pool_config_entry list"
  json_workload_pools :: "string \<Rightarrow> string + (string \<times> string list) list"

definition default_backend_pool :: string where
  "default_backend_pool = DEFAULT_BACKEND_POOL"

definition backend_of_json :: "backend_json \<Rightarrow> backend_config" where
  "backend_of_json b =
     \<lparr>bc_id = bj_id b, bc_url = bj_url b, bc_node_id = bj_node_id b,
      bc_pool = (case bj_pool b of None \<Rightarrow> default_backend_pool | Some p \<Rightarrow> p),
      bc_workloads = (case bj_workloads b of None \<Rightarrow> default_proxy_workloads | Some ws \<Rightarrow> ws),
      bc_health_path = bj_health_path b\<rparr>"

record config =
  cfg_port :: nat
  cfg_log_level :: string
  cfg_log_format_json :: bool
  cfg_backends :: "backend_config list"
  cfg_pools :: "pool_config list"
  cfg_workload_pools :: workload_pool_policy
  cfg_strict_workload_pools :: bool
  cfg_strict_worker_pools :: bool
  cfg_circuit_failure_threshold :: nat
  cfg_circuit_cooldown_secs :: nat
  cfg_health_probe_interval_secs :: nat
  cfg_resource_report_ttl_secs :: nat
  cfg_resource_aware_routing :: bool
  cfg_chat_completions_required_vram_mb :: nat
  cfg_embeddings_required_vram_mb :: nat
  cfg_priority_realtime_limit :: nat
  cfg_priority_batch_limit :: nat
  cfg_priority_background_limit :: nat
  cfg_job_store :: job_store_config
  cfg_job_retention_secs :: nat
  cfg_job_prune_limit :: nat
  cfg_job_prune_interval_secs :: "nat option"
  cfg_job_maintenance_interval_secs :: nat
  cfg_job_lease_duration_ms :: nat
  cfg_callback_max_attempts :: nat
  cfg_callback_timeout_secs :: nat
  cfg_callback_retry_delay_ms :: nat

section \<open>Constants\<close>

definition DEFAULT_JOB_DB_PATH :: string where
  "DEFAULT_JOB_DB_PATH = ''fairlead_jobs.sqlite3''"

definition DEFAULT_JOB_RETENTION_SECS :: nat where
  "DEFAULT_JOB_RETENTION_SECS = 86400"

definition DEFAULT_JOB_PRUNE_LIMIT :: nat where
  "DEFAULT_JOB_PRUNE_LIMIT = 1000"

definition DEFAULT_JOB_MAINTENANCE_INTERVAL_SECS :: nat where
  "DEFAULT_JOB_MAINTENANCE_INTERVAL_SECS = 30"

definition DEFAULT_JOB_LEASE_DURATION_MS :: nat where
  "DEFAULT_JOB_LEASE_DURATION_MS = 30000"

definition DEFAULT_CALLBACK_MAX_ATTEMPTS :: nat where
  "DEFAULT_CALLBACK_MAX_ATTEMPTS = 3"

definition DEFAULT_CALLBACK_TIMEOUT_SECS :: nat where
  "DEFAULT_CALLBACK_TIMEOUT_SECS = 5"

definition DEFAULT_CALLBACK_RETRY_DELAY_MS :: nat where
  "DEFAULT_CALLBACK_RETRY_DELAY_MS = 250"

definition KNOWN_POOL_WORKLOADS :: "string list" where
  "KNOWN_POOL_WORKLOADS =
     [''chat_completions'', ''embeddings'', ''vision_analysis'', ''embed_batch'', ''index_build'', ''cluster'']"

section \<open>Numbers\<close>

text \<open>
  \<open>str::parse\<close> of an unsigned type with values below \<open>bound\<close>, with the three messages of
  \<open>ParseIntError\<close>: \<open>parse_uint\<close> with its reason. The check of a digit comes before the check of
  the range.
\<close>

fun parse_digits_result :: "nat \<Rightarrow> nat \<Rightarrow> string \<Rightarrow> string + nat" where
  "parse_digits_result bound acc [] = Inr acc"
| "parse_digits_result bound acc (c # s) =
     (case digit_val c of
        None \<Rightarrow> Inl ''invalid digit found in string''
      | Some d \<Rightarrow>
          if acc * 10 + d < bound then parse_digits_result bound (acc * 10 + d) s
          else Inl ''number too large to fit in target type'')"

definition parse_int :: "nat \<Rightarrow> string \<Rightarrow> string + nat" where
  "parse_int bound s =
     (case s of
        [] \<Rightarrow> Inl ''cannot parse integer from empty string''
      | c # r \<Rightarrow>
          if c = CHR ''+'' then
            (if r = [] then Inl ''invalid digit found in string'' else parse_digits_result bound 0 r)
          else parse_digits_result bound 0 s)"

abbreviation u16_bound :: nat where "u16_bound \<equiv> 2 ^ 16"
abbreviation u32_bound :: nat where "u32_bound \<equiv> 2 ^ 32"
abbreviation u128_bound :: nat where "u128_bound \<equiv> 2 ^ 128"

definition invalid :: "string \<Rightarrow> string \<Rightarrow> string" where
  "invalid key message = ''invalid '' @ key @ '': '' @ message"

fun map_err :: "(string \<Rightarrow> string) \<Rightarrow> string + 'a \<Rightarrow> string + 'a" where
  "map_err f (Inl e) = Inl (f e)"
| "map_err f (Inr x) = Inr x"

definition unwrap_or :: "string \<Rightarrow> string option \<Rightarrow> string" where
  "unwrap_or dflt value = (case value of None \<Rightarrow> dflt | Some v \<Rightarrow> v)"

text \<open>The pattern \<open>get(KEY).unwrap_or_else(..).parse().map_err(..)?\<close> of the plain numeric fields.\<close>

definition parse_field :: "nat \<Rightarrow> string \<Rightarrow> string \<Rightarrow> (string \<Rightarrow> string option) \<Rightarrow> string + nat" where
  "parse_field bound key dflt get = map_err (invalid key) (parse_int bound (unwrap_or dflt (get key)))"

text \<open>\<open>parse_nonzero::<T>\<close>, for a type \<open>T\<close> with values below \<open>bound\<close>: parsed as \<open>u64\<close> and converted.\<close>

definition try_into :: "nat \<Rightarrow> nat \<Rightarrow> string + nat" where
  "try_into bound n =
     (if n < bound then Inr n else Inl ''out of range integral type conversion attempted'')"

definition parse_nonzero :: "nat \<Rightarrow> string \<Rightarrow> nat \<Rightarrow> (string \<Rightarrow> string option) \<Rightarrow> string + nat" where
  "parse_nonzero bound key dflt get =
     and_then (map_err (invalid key) (parse_int u64_bound (unwrap_or (nat_to_string dflt) (get key)))) (\<lambda>n.
     and_then (map_err (invalid key) (try_into bound n)) (\<lambda>value.
       if value = 0 then Inl (invalid key ''value must be greater than zero'') else Inr value))"

definition parse_optional_nonzero :: "string \<Rightarrow> (string \<Rightarrow> string option) \<Rightarrow> string + nat option" where
  "parse_optional_nonzero key get =
     (case get key of
        Some raw \<Rightarrow>
          and_then (map_err (invalid key) (parse_int u64_bound raw)) (\<lambda>value.
            if value = 0 then Inl (invalid key ''value must be greater than zero'') else Inr (Some value))
      | None \<Rightarrow> Inr None)"

section \<open>Job store\<close>

definition parse_job_store :: "(string \<Rightarrow> string option) \<Rightarrow> string + job_store_config" where
  "parse_job_store get =
     (let kind = to_lowercase (trim (unwrap_or ''memory'' (get ''JOB_STORE''))) in
      if kind = ''memory'' then Inr Store_Memory
      else if kind = ''sqlite'' then
        (let path = trim (unwrap_or DEFAULT_JOB_DB_PATH (get ''JOB_DB_PATH'')) in
         if path = [] then Inl ''invalid JOB_DB_PATH: path cannot be empty'' else Inr (Store_Sqlite path))
      else Inl (invalid ''JOB_STORE''
             (''expected '' @ quoted ''memory'' @ '' or '' @ quoted ''sqlite'' @ '', got '' @ quoted kind)))"

section \<open>Backends\<close>

fun check_backend :: "backend_config \<Rightarrow> string option" where
  "check_backend b =
     (if trim (bc_id b) = [] then Some ''invalid BACKENDS_JSON: backend id cannot be empty''
      else if trim (bc_url b) = [] then
        Some (''invalid BACKENDS_JSON: backend '' @ quoted (bc_id b) @ '' url cannot be empty'')
      else if trim (bc_pool b) = [] then
        Some (''invalid BACKENDS_JSON: backend '' @ quoted (bc_id b) @ '' pool cannot be empty'')
      else if bc_workloads b = [] then
        Some (''invalid BACKENDS_JSON: backend '' @ quoted (bc_id b) @ '' must support at least one workload'')
      else if map_option trim (bc_health_path b) = Some [] then
        Some (''invalid BACKENDS_JSON: backend '' @ quoted (bc_id b) @ '' health_path cannot be empty'')
      else None)"

text \<open>The pairs \<open>i < j\<close> of the two nested loops: the first backend whose id a later one has.\<close>

fun duplicate_backend_id :: "backend_config list \<Rightarrow> string option" where
  "duplicate_backend_id [] = None"
| "duplicate_backend_id (b # bs) =
     (if list_ex (\<lambda>other. bc_id b = bc_id other) bs then Some (bc_id b) else duplicate_backend_id bs)"

definition validate_backends :: "backend_config list \<Rightarrow> string + unit" where
  "validate_backends backends =
     (case find_map check_backend backends of
        Some e \<Rightarrow> Inl e
      | None \<Rightarrow>
          (case duplicate_backend_id backends of
             Some i \<Rightarrow> Inl (''invalid BACKENDS_JSON: duplicate backend id '' @ quoted i)
           | None \<Rightarrow> Inr ()))"

definition parse_backends :: "json_lib \<Rightarrow> (string \<Rightarrow> string option) \<Rightarrow> string + backend_config list" where
  "parse_backends lib get =
     (case get ''BACKENDS_JSON'' of
        Some raw \<Rightarrow>
          and_then (map_err (invalid ''BACKENDS_JSON'') (json_backends lib raw)) (\<lambda>parsed.
            let backends = map backend_of_json parsed
            in and_then (validate_backends backends) (\<lambda>_. Inr backends))
      | None \<Rightarrow>
          Inr (case get ''BACKENDS'' of
             None \<Rightarrow> []
           | Some v \<Rightarrow>
               map (\<lambda>(i, url). from_legacy_url i url)
                 (enumerate 0 (filter (\<lambda>s. s \<noteq> []) (map trim (split_on CHR '','' v))))))"

section \<open>Pools\<close>

fun check_pools :: "string list \<Rightarrow> pool_config list \<Rightarrow> string + unit" where
  "check_pools seen [] = Inr ()"
| "check_pools seen (pool # pools) =
     (let i = trim (pool_id pool) in
      if i = [] then Inl ''invalid POOLS_JSON: pool id cannot be empty''
      else if i \<in> set seen then Inl (''invalid POOLS_JSON: duplicate pool id '' @ quoted i)
      else check_pools (i # seen) pools)"

definition validate_pools :: "pool_config list \<Rightarrow> string + unit" where
  "validate_pools pools =
     (if pools = [] then Inl ''invalid POOLS_JSON: at least one pool is required'' else check_pools [] pools)"

definition pool_id_set :: "pool_config list \<Rightarrow> string list" where
  "pool_id_set pools = btree_set (map (\<lambda>pool. trim (pool_id pool)) pools)"

definition validate_backend_pool_refs :: "backend_config list \<Rightarrow> pool_config list \<Rightarrow> string + unit" where
  "validate_backend_pool_refs backends pools =
     (case find (\<lambda>b. trim (bc_pool b) \<notin> set (pool_id_set pools)) backends of
        Some b \<Rightarrow>
          Inl (''invalid BACKENDS_JSON: backend '' @ quoted (bc_id b) @ '' references unknown pool '' @
               quoted (bc_pool b))
      | None \<Rightarrow> Inr ())"

definition normalize_pools :: "pool_config list \<Rightarrow> pool_config list" where
  "normalize_pools pools = map (\<lambda>pool. \<lparr>pool_id = trim (pool_id pool)\<rparr>) pools"

fun pool_of_entry :: "pool_config_entry \<Rightarrow> pool_config" where
  "pool_of_entry (Entry_Id i) = \<lparr>pool_id = i\<rparr>"
| "pool_of_entry (Entry_Object pool) = pool"

definition parse_pools ::
  "json_lib \<Rightarrow> (string \<Rightarrow> string option) \<Rightarrow> backend_config list \<Rightarrow> string + pool_config list" where
  "parse_pools lib get backends =
     (case get ''POOLS_JSON'' of
        Some raw \<Rightarrow>
          and_then (map_err (invalid ''POOLS_JSON'') (json_pools lib raw)) (\<lambda>entries.
            let pools = map pool_of_entry entries
            in and_then (validate_pools pools) (\<lambda>_.
               and_then (validate_backend_pool_refs backends pools) (\<lambda>_.
                 Inr (normalize_pools pools))))
      | None \<Rightarrow>
          Inr (map (\<lambda>i. \<lparr>pool_id = i\<rparr>)
            (btree_set (DEFAULT_BACKEND_POOL # map (\<lambda>b. trim (bc_pool b)) backends))))"

section \<open>Workload pools\<close>

definition known_pool_workloads :: "string list" where
  "known_pool_workloads = btree_set KNOWN_POOL_WORKLOADS"

text \<open>The inner loop of \<open>validate_workload_pools\<close>: the pools of one workload.\<close>

fun normalize_targets :: "string list \<Rightarrow> string \<Rightarrow> string list \<Rightarrow> string list \<Rightarrow> string + string list" where
  "normalize_targets pool_ids workload normalized [] = Inr normalized"
| "normalize_targets pool_ids workload normalized (p # pools) =
     (let pool = trim p in
      if pool = [] then
        Inl (''invalid WORKLOAD_POOLS_JSON: workload '' @ quoted workload @ '' has an empty pool reference'')
      else if pool \<notin> set pool_ids then
        Inl (''invalid WORKLOAD_POOLS_JSON: workload '' @ quoted workload @ '' references unknown pool '' @ quoted pool)
      else if pool \<in> set normalized then
        Inl (''invalid WORKLOAD_POOLS_JSON: workload '' @ quoted workload @ '' references pool '' @ quoted pool @
             '' more than once'')
      else normalize_targets pool_ids workload (normalized @ [pool]) pools)"

text \<open>The outer loop; \<open>seen\<close> of the code has the elements of \<open>normalized_pools\<close>.\<close>

fun normalize_workloads ::
  "string list \<Rightarrow> (string \<times> string list) list \<Rightarrow> (string \<times> string list) list
     \<Rightarrow> string + (string \<times> string list) list" where
  "normalize_workloads pool_ids normalized [] = Inr normalized"
| "normalize_workloads pool_ids normalized ((w, pools) # rest) =
     (let workload = trim w in
      if workload \<notin> set known_pool_workloads then
        Inl (''invalid WORKLOAD_POOLS_JSON: unknown workload '' @ quoted workload)
      else if pools = [] then
        Inl (''invalid WORKLOAD_POOLS_JSON: workload '' @ quoted workload @ '' must target at least one pool'')
      else
        and_then (normalize_targets pool_ids workload [] pools) (\<lambda>normalized_pools.
          normalize_workloads pool_ids (btree_insert workload normalized_pools normalized) rest))"

definition validate_workload_pools ::
  "(string \<times> string list) list \<Rightarrow> pool_config list \<Rightarrow> bool \<Rightarrow> string + (string \<times> string list) list" where
  "validate_workload_pools parsed pools strict =
     (if parsed = [] then Inl ''invalid WORKLOAD_POOLS_JSON: at least one workload policy is required''
      else
        and_then (normalize_workloads (pool_id_set pools) [] parsed) (\<lambda>normalized.
          let missing = filter (\<lambda>w. w \<notin> set (map fst normalized)) known_pool_workloads
          in if strict \<and> missing \<noteq> [] then
               Inl (''invalid WORKLOAD_POOLS_JSON: STRICT_WORKLOAD_POOLS=true missing workload policy for '' @
                    join_with '', '' missing)
             else Inr normalized))"

definition default_workload_pools :: "pool_config list \<Rightarrow> (string \<times> string list) list" where
  "default_workload_pools pools = map (\<lambda>workload. (workload, map pool_id pools)) known_pool_workloads"

text \<open>The library's entries in the order of the text; a \<open>BTreeMap\<close> keeps the last one of a key.\<close>

definition btree_of_entries :: "(string \<times> string list) list \<Rightarrow> (string \<times> string list) list" where
  "btree_of_entries entries = fold (\<lambda>(w, pools) m. btree_insert w pools m) entries []"

definition parse_workload_pools ::
  "json_lib \<Rightarrow> (string \<Rightarrow> string option) \<Rightarrow> pool_config list \<Rightarrow> bool \<Rightarrow> string + workload_pool_policy" where
  "parse_workload_pools lib get pools strict =
     (case get ''WORKLOAD_POOLS_JSON'' of
        Some raw \<Rightarrow>
          and_then (map_err (invalid ''WORKLOAD_POOLS_JSON'') (json_workload_pools lib raw)) (\<lambda>entries.
            and_then (validate_workload_pools (btree_of_entries entries) pools strict) (\<lambda>m. Inr (policy_new m)))
      | None \<Rightarrow>
          if strict then
            Inl (invalid ''WORKLOAD_POOLS_JSON''
                  ''STRICT_WORKLOAD_POOLS=true requires explicit workload pool policy'')
          else Inr (policy_new (default_workload_pools pools)))"

section \<open>The configuration\<close>

definition flag_trimmed :: "string option \<Rightarrow> bool" where
  "flag_trimmed value = (case value of None \<Rightarrow> False | Some v \<Rightarrow> to_lowercase (trim v) = ''true'')"

definition flag_lower :: "string \<Rightarrow> string option \<Rightarrow> bool" where
  "flag_lower expected value = (case value of None \<Rightarrow> False | Some v \<Rightarrow> to_lowercase v = expected)"

definition from_lookup :: "json_lib \<Rightarrow> (string \<Rightarrow> string option) \<Rightarrow> string + config" where
  "from_lookup lib get =
     and_then (parse_backends lib get) (\<lambda>backends.
     and_then (parse_pools lib get backends) (\<lambda>pools.
     let strict = flag_trimmed (get ''STRICT_WORKLOAD_POOLS'') in
     and_then (parse_workload_pools lib get pools strict) (\<lambda>policy.
     and_then (parse_field u16_bound ''PORT'' ''7000'' get) (\<lambda>port.
     and_then (parse_field u32_bound ''CIRCUIT_FAILURE_THRESHOLD'' ''3'' get) (\<lambda>threshold.
     and_then (parse_field u64_bound ''CIRCUIT_COOLDOWN_SECS'' ''30'' get) (\<lambda>cool.
     and_then (parse_field u64_bound ''HEALTH_PROBE_INTERVAL_SECS'' ''10'' get) (\<lambda>probe_secs.
     and_then (parse_field u64_bound ''RESOURCE_REPORT_TTL_SECS'' ''30'' get) (\<lambda>ttl.
     and_then (parse_field u64_bound ''CHAT_COMPLETIONS_REQUIRED_VRAM_MB'' ''1024'' get) (\<lambda>chat_vram.
     and_then (parse_field u64_bound ''EMBEDDINGS_REQUIRED_VRAM_MB'' ''512'' get) (\<lambda>embed_vram.
     and_then (parse_field u64_bound ''PRIORITY_REALTIME_LIMIT'' ''8'' get) (\<lambda>realtime.
     and_then (parse_field u64_bound ''PRIORITY_BATCH_LIMIT'' ''4'' get) (\<lambda>batch.
     and_then (parse_field u64_bound ''PRIORITY_BACKGROUND_LIMIT'' ''2'' get) (\<lambda>background.
     and_then (parse_job_store get) (\<lambda>job_store.
     and_then (parse_field u64_bound ''JOB_RETENTION_SECS'' (nat_to_string DEFAULT_JOB_RETENTION_SECS) get)
       (\<lambda>retention.
     and_then (parse_nonzero u64_bound ''JOB_PRUNE_LIMIT'' DEFAULT_JOB_PRUNE_LIMIT get) (\<lambda>prune_limit.
     and_then (parse_optional_nonzero ''JOB_PRUNE_INTERVAL_SECS'' get) (\<lambda>prune_interval.
     and_then (parse_nonzero u64_bound ''JOB_MAINTENANCE_INTERVAL_SECS''
       DEFAULT_JOB_MAINTENANCE_INTERVAL_SECS get) (\<lambda>maintenance.
     and_then (parse_nonzero u128_bound ''JOB_LEASE_DURATION_MS'' DEFAULT_JOB_LEASE_DURATION_MS get) (\<lambda>lease_ms.
     and_then (parse_nonzero u32_bound ''CALLBACK_MAX_ATTEMPTS'' DEFAULT_CALLBACK_MAX_ATTEMPTS get) (\<lambda>max_attempts.
     and_then (parse_nonzero u64_bound ''CALLBACK_TIMEOUT_SECS'' DEFAULT_CALLBACK_TIMEOUT_SECS get) (\<lambda>timeout.
     and_then (parse_field u64_bound ''CALLBACK_RETRY_DELAY_MS''
       (nat_to_string DEFAULT_CALLBACK_RETRY_DELAY_MS) get) (\<lambda>delay.
       Inr \<lparr>cfg_port = port, cfg_log_level = unwrap_or ''info'' (get ''LOG_LEVEL''),
            cfg_log_format_json = flag_lower ''json'' (get ''LOG_FORMAT''),
            cfg_backends = backends, cfg_pools = pools, cfg_workload_pools = policy,
            cfg_strict_workload_pools = strict,
            cfg_strict_worker_pools = flag_trimmed (get ''STRICT_WORKER_POOLS''),
            cfg_circuit_failure_threshold = threshold, cfg_circuit_cooldown_secs = cool,
            cfg_health_probe_interval_secs = probe_secs, cfg_resource_report_ttl_secs = ttl,
            cfg_resource_aware_routing = flag_lower ''true'' (get ''RESOURCE_AWARE_ROUTING''),
            cfg_chat_completions_required_vram_mb = chat_vram,
            cfg_embeddings_required_vram_mb = embed_vram,
            cfg_priority_realtime_limit = realtime, cfg_priority_batch_limit = batch,
            cfg_priority_background_limit = background, cfg_job_store = job_store,
            cfg_job_retention_secs = retention, cfg_job_prune_limit = prune_limit,
            cfg_job_prune_interval_secs = prune_interval,
            cfg_job_maintenance_interval_secs = maintenance, cfg_job_lease_duration_ms = lease_ms,
            cfg_callback_max_attempts = max_attempts, cfg_callback_timeout_secs = timeout,
            cfg_callback_retry_delay_ms = delay\<rparr>))))))))))))))))))))))"

section \<open>Facts on the parsers\<close>

lemma map_err_Inr [simp]: "map_err f r = Inr x \<longleftrightarrow> r = Inr x"
  by (cases r) auto

lemma parse_digits_result_eq:
  "parse_digits_result bound acc s = Inr n \<longleftrightarrow> parse_digits bound acc s = Some n"
  by (induction bound acc s rule: parse_digits_result.induct) (auto split: option.splits)

lemma parse_int_eq: "parse_int bound s = Inr n \<longleftrightarrow> parse_uint bound s = Some n"
  by (cases s) (auto simp: parse_int_def parse_uint_def parse_digits_result_eq
      simp del: parse_digits.simps parse_digits_result.simps)

lemma parse_int_nat_to_string [simp]: "n < bound \<Longrightarrow> parse_int bound (nat_to_string n) = Inr n"
  by (simp add: parse_int_eq parse_uint_nat_to_string)

lemma parse_digits_bound: "parse_digits bound acc s = Some n \<Longrightarrow> acc < bound \<Longrightarrow> n < bound"
  by (induction bound acc s rule: parse_digits.induct) (auto split: option.splits if_splits)

lemma parse_int_bound: "parse_int bound s = Inr n \<Longrightarrow> 0 < bound \<Longrightarrow> n < bound"
  using parse_digits_bound [of bound 0] by (auto simp: parse_int_eq parse_uint_def Let_def split: if_splits
      simp del: parse_digits.simps)

lemma parse_field_bound: "parse_field bound key dflt get = Inr n \<Longrightarrow> 0 < bound \<Longrightarrow> n < bound"
  by (auto simp: parse_field_def dest: parse_int_bound)

lemma parse_nonzero_bound: "parse_nonzero bound key dflt get = Inr n \<Longrightarrow> 0 < n \<and> n < bound"
  by (auto simp: parse_nonzero_def try_into_def split: if_splits)

lemma parse_optional_nonzero_bound: "parse_optional_nonzero key get = Inr (Some n) \<Longrightarrow> 0 < n \<and> n < u64_bound"
  by (auto simp: parse_optional_nonzero_def split: option.splits if_splits dest: parse_int_bound)

end
