(* ===== verification/Config_Props.thy ===== *)
theory Config_Props
  imports Config Proxy
begin

text \<open>
  What an accepted configuration guarantees, and where the validation and the rest of the
  program disagree on a pool name.
\<close>

section \<open>Well-formed configurations\<close>

definition backends_ok :: "backend_config list \<Rightarrow> bool" where
  "backends_ok bs \<longleftrightarrow> distinct (map bc_id bs) \<and>
     (\<forall>b \<in> set bs. bc_id b \<noteq> [] \<and> trim (bc_id b) \<noteq> [] \<and> trim (bc_url b) \<noteq> [] \<and> trim (bc_pool b) \<noteq> [] \<and>
        bc_workloads b \<noteq> [] \<and> map_option trim (bc_health_path b) \<noteq> Some [])"

definition pools_ok :: "backend_config list \<Rightarrow> pool_config list \<Rightarrow> bool" where
  "pools_ok bs pools \<longleftrightarrow> pools \<noteq> [] \<and> distinct (map pool_id pools) \<and>
     (\<forall>p \<in> set pools. pool_id p \<noteq> [] \<and> trim (pool_id p) = pool_id p) \<and>
     (\<forall>b \<in> set bs. trim (bc_pool b) \<in> pool_id ` set pools)"

definition targets_ok :: "string set \<Rightarrow> string list \<Rightarrow> bool" where
  "targets_ok pool_ids ps \<longleftrightarrow> ps \<noteq> [] \<and> distinct ps \<and> set ps \<subseteq> pool_ids"

definition policy_ok :: "pool_config list \<Rightarrow> bool \<Rightarrow> workload_pool_policy \<Rightarrow> bool" where
  "policy_ok pools strict policy \<longleftrightarrow>
     sorted_wrt (<) (map fst (pools_by_workload policy)) \<and>
     (\<forall>(w, ps) \<in> set (pools_by_workload policy).
        w \<in> set KNOWN_POOL_WORKLOADS \<and> targets_ok (pool_id ` set pools) ps) \<and>
     (strict \<longrightarrow> (\<forall>w \<in> set KNOWN_POOL_WORKLOADS. pools_for policy w \<noteq> None))"

definition numbers_ok :: "config \<Rightarrow> bool" where
  "numbers_ok cfg \<longleftrightarrow>
     cfg_port cfg < u16_bound \<and> cfg_circuit_failure_threshold cfg < u32_bound \<and>
     (\<forall>field \<in> {cfg_circuit_cooldown_secs, cfg_health_probe_interval_secs, cfg_resource_report_ttl_secs,
         cfg_chat_completions_required_vram_mb, cfg_embeddings_required_vram_mb, cfg_priority_realtime_limit,
         cfg_priority_batch_limit, cfg_priority_background_limit, cfg_job_retention_secs,
         cfg_callback_retry_delay_ms}. field cfg < u64_bound) \<and>
     (\<forall>field \<in> {cfg_job_prune_limit, cfg_job_maintenance_interval_secs, cfg_callback_timeout_secs}.
         0 < field cfg \<and> field cfg < u64_bound) \<and>
     0 < cfg_job_lease_duration_ms cfg \<and>
     0 < cfg_callback_max_attempts cfg \<and> cfg_callback_max_attempts cfg < u32_bound \<and>
     cfg_job_prune_interval_secs cfg \<noteq> Some 0 \<and>
     (\<forall>path. cfg_job_store cfg = Store_Sqlite path \<longrightarrow> path \<noteq> [])"

section \<open>The validators\<close>

lemma trim_Nil [simp]: "trim [] = []"
  by (simp add: trim_eval)

lemma trim_default [simp]: "trim DEFAULT_BACKEND_POOL = DEFAULT_BACKEND_POOL"
  unfolding DEFAULT_BACKEND_POOL_def by code_simp

lemma find_map_None: "find_map f xs = None \<Longrightarrow> x \<in> set xs \<Longrightarrow> f x = None"
  by (simp add: find_map_NoneD)

lemma duplicate_None: "duplicate_backend_id bs = None \<longleftrightarrow> distinct (map bc_id bs)"
  by (induction bs) (auto simp: list_ex_iff)

lemma validate_backends_ok: "validate_backends bs = Inr u \<Longrightarrow> backends_ok bs"
proof -
  assume "validate_backends bs = Inr u"
  then have each: "find_map check_backend bs = None" and ids: "distinct (map bc_id bs)"
    by (auto simp: validate_backends_def duplicate_None split: option.splits)
  have "bc_id b \<noteq> [] \<and> trim (bc_id b) \<noteq> [] \<and> trim (bc_url b) \<noteq> [] \<and> trim (bc_pool b) \<noteq> [] \<and>
      bc_workloads b \<noteq> [] \<and> map_option trim (bc_health_path b) \<noteq> Some []"
    if "b \<in> set bs" for b
    using find_map_None [OF each that] by (auto split: if_splits)
  then show ?thesis using ids by (simp add: backends_ok_def)
qed

lemma in_set_enumerate_snd: "(i, x) \<in> set (enumerate k xs) \<Longrightarrow> x \<in> set xs"
  by (auto simp: enumerate_eq_zip dest: set_zip_rightD)

lemma trim_rev_backend: "trim_rev (t @ ''-dnekcab'') \<noteq> []"
proof (induction t rule: measure_induct_rule [of length])
  case (less t)
  let ?k = "ws_suffix_rev (t @ ''-dnekcab'')"
  have k: "?k \<le> length t"
    by (cases "t @ ''-dnekcab''" rule: ws_suffix_rev.cases; cases t; cases "tl t"; cases "tl (tl t)")
      (auto simp: ws1_def ws2_def ws3_def)
  show ?case
  proof (cases "?k = 0")
    case True
    then show ?thesis by (subst trim_rev.simps) simp
  next
    case False
    with k have "trim_rev (drop ?k t @ ''-dnekcab'') \<noteq> []" by (intro less) simp
    then show ?thesis using False k by (subst trim_rev.simps) simp
  qed
qed

lemma trim_backend_id: "trim (''backend-'' @ s) \<noteq> []"
proof -
  have "trim_start (''backend-'' @ s) = ''backend-'' @ s"
    by (simp add: trim_start.simps ws1_def ws2_def ws3_def)
  then show ?thesis using trim_rev_backend [of "rev s"] by (simp add: trim_def trim_end_def)
qed

lemma legacy_backends_ok:
  assumes "\<And>u. u \<in> set urls \<Longrightarrow> trim u \<noteq> []"
  shows "backends_ok (map (\<lambda>(i, url). from_legacy_url i url) (enumerate 0 urls))"
proof -
  have "map bc_id (map (\<lambda>(i, url). from_legacy_url i url) (enumerate 0 urls)) =
      map (\<lambda>i. ''backend-'' @ nat_to_string i) (map fst (enumerate 0 urls))"
    unfolding map_map by (rule map_cong) (auto simp: from_legacy_url_def)
  moreover have "distinct (map (\<lambda>i. ''backend-'' @ nat_to_string i) (map fst (enumerate 0 urls)))"
    unfolding map_fst_enumerate by (simp add: distinct_map inj_on_def)
  moreover have "DEFAULT_BACKEND_POOL \<noteq> []" by (simp add: DEFAULT_BACKEND_POOL_def)
  ultimately show ?thesis
    using assms unfolding backends_ok_def
    by (intro conjI; (simp only:)?)
      (auto simp: from_legacy_url_def default_proxy_workloads_def trim_backend_id [simplified] dest!: in_set_enumerate_snd)
qed

lemma parse_backends_ok: "parse_backends lib get = Inr bs \<Longrightarrow> backends_ok bs"
proof (cases "get ''BACKENDS_JSON''")
  case None
  assume "parse_backends lib get = Inr bs"
  moreover have "backends_ok (map (\<lambda>(i, url). from_legacy_url i url)
      (enumerate 0 (filter (\<lambda>s. s \<noteq> []) (map trim (split_on CHR '','' v)))))" for v
    by (rule legacy_backends_ok) auto
  moreover have "backends_ok []" by (simp add: backends_ok_def)
  ultimately show ?thesis using None by (cases "get ''BACKENDS''") (auto simp: parse_backends_def)
next
  case (Some raw)
  assume "parse_backends lib get = Inr bs"
  then show ?thesis using Some by (auto simp: parse_backends_def Let_def intro: validate_backends_ok)
qed

lemma check_pools_ok:
  "check_pools seen pools = Inr u \<Longrightarrow>
     distinct (map (\<lambda>p. trim (pool_id p)) pools) \<and>
     (\<forall>p \<in> set pools. trim (pool_id p) \<noteq> [] \<and> trim (pool_id p) \<notin> set seen)"
  by (induction seen pools rule: check_pools.induct) (auto simp: Let_def split: if_splits)

lemma validate_refs_ok:
  "validate_backend_pool_refs bs pools = Inr u \<Longrightarrow> b \<in> set bs \<Longrightarrow>
     trim (bc_pool b) \<in> pool_id ` set (normalize_pools pools)"
  by (auto simp: validate_backend_pool_refs_def pool_id_set_def normalize_pools_def find_None_iff image_image
      split: option.splits)

lemma parse_pools_ok:
  assumes "parse_pools lib get bs = Inr pools" "backends_ok bs"
  shows "pools_ok bs pools"
proof (cases "get ''POOLS_JSON''")
  case None
  then have p: "pools = map (\<lambda>i. \<lparr>pool_id = i\<rparr>) (btree_set (DEFAULT_BACKEND_POOL # map (\<lambda>b. trim (bc_pool b)) bs))"
    using assms by (simp add: parse_pools_def)
  have "DEFAULT_BACKEND_POOL \<noteq> []" by (simp add: DEFAULT_BACKEND_POOL_def)
  then show ?thesis
    using assms(2) by (auto simp: p pools_ok_def backends_ok_def image_image comp_def simp flip: set_empty)
next
  case (Some raw)
  then obtain given u u' where g: "validate_pools given = Inr u" "validate_backend_pool_refs bs given = Inr u'"
      "pools = normalize_pools given"
    using assms by (auto simp: parse_pools_def Let_def)
  then have "given \<noteq> []" "check_pools [] given = Inr u" by (auto simp: validate_pools_def split: if_splits)
  then show ?thesis
    using g check_pools_ok [of "[]" given u] validate_refs_ok [OF g(2)]
    by (auto simp: pools_ok_def normalize_pools_def comp_def)
qed

lemma normalize_targets_ok:
  "normalize_targets ids w acc ps = Inr qs \<Longrightarrow> distinct acc \<Longrightarrow> set acc \<subseteq> set ids \<Longrightarrow>
     distinct qs \<and> set qs \<subseteq> set ids \<and> length qs = length acc + length ps"
  by (induction ids w acc ps rule: normalize_targets.induct) (auto simp: Let_def split: if_splits)

lemma normalize_workloads_ok:
  "normalize_workloads ids m parsed = Inr m' \<Longrightarrow> sorted_wrt (<) (map fst m) \<Longrightarrow>
   (\<forall>(w, ps) \<in> set m. w \<in> set KNOWN_POOL_WORKLOADS \<and> targets_ok (set ids) ps) \<Longrightarrow>
     sorted_wrt (<) (map fst m') \<and>
     (\<forall>(w, ps) \<in> set m'. w \<in> set KNOWN_POOL_WORKLOADS \<and> targets_ok (set ids) ps)"
proof (induction ids m parsed rule: normalize_workloads.induct)
  case (2 ids m w pools rest)
  from "2.prems"(1) obtain qs where known: "trim w \<in> set KNOWN_POOL_WORKLOADS" and pools: "pools \<noteq> []"
    and targets: "normalize_targets ids (trim w) [] pools = Inr qs"
    and rest: "normalize_workloads ids (btree_insert (trim w) qs m) rest = Inr m'"
    by (auto simp: Let_def known_pool_workloads_def split: if_splits)
  have qs: "targets_ok (set ids) qs"
    using normalize_targets_ok [OF targets] pools by (auto simp: targets_ok_def)
  have "set (btree_insert (trim w) qs m) \<subseteq> insert (trim w, qs) (set m)"
    by (induction "trim w" qs m rule: btree_insert.induct) auto
  then show ?case
    using "2.IH" [OF refl _ pools rest] "2.prems" known qs
    by (fastforce simp: known_pool_workloads_def sorted_btree_insert)
qed auto

lemma sorted_known: "sorted_wrt (<) known_pool_workloads"
  unfolding known_pool_workloads_def btree_set_def by (simp add: strict_sorted_iff)

lemma parse_policy_ok:
  assumes "parse_workload_pools lib get pools strict = Inr policy" "pools_ok bs pools"
  shows "policy_ok pools strict policy"
proof (cases "get ''WORKLOAD_POOLS_JSON''")
  case None
  then have "\<not> strict" and p: "pools_by_workload policy = default_workload_pools pools"
    using assms by (auto simp: parse_workload_pools_def policy_new_def split: if_splits)
  then show ?thesis
    using assms(2) sorted_known
    by (auto simp: policy_ok_def p default_workload_pools_def comp_def targets_ok_def pools_ok_def
        known_pool_workloads_def)
next
  case (Some raw)
  then obtain entries m where v: "validate_workload_pools (btree_of_entries entries) pools strict = Inr m"
    and p: "policy = policy_new m"
    using assms by (auto simp: parse_workload_pools_def)
  then have n: "normalize_workloads (pool_id_set pools) [] (btree_of_entries entries) = Inr m"
    and strict: "strict \<Longrightarrow> filter (\<lambda>w. w \<notin> set (map fst m)) known_pool_workloads = []"
    by (auto simp: validate_workload_pools_def Let_def split: if_splits)
  have ids: "set (pool_id_set pools) = pool_id ` set pools"
    using assms(2) by (auto simp: pool_id_set_def pools_ok_def image_iff)
  have "pools_for policy w \<noteq> None" if "strict" "w \<in> set KNOWN_POOL_WORKLOADS" for w
    using strict [OF that(1)] that(2)
    by (auto simp: filter_empty_conv known_pool_workloads_def pools_for_def p policy_new_def map_of_eq_None_iff)
  then show ?thesis
    using normalize_workloads_ok [OF n] by (auto simp: policy_ok_def p policy_new_def ids)
qed

section \<open>Accepted configurations\<close>

lemma from_lookup_fields:
  assumes "from_lookup lib get = Inr cfg"
  shows "parse_backends lib get = Inr (cfg_backends cfg)"
    "parse_pools lib get (cfg_backends cfg) = Inr (cfg_pools cfg)"
    "parse_workload_pools lib get (cfg_pools cfg) (cfg_strict_workload_pools cfg) = Inr (cfg_workload_pools cfg)"
    "parse_job_store get = Inr (cfg_job_store cfg)"
    "cfg_strict_workload_pools cfg = flag_trimmed (get ''STRICT_WORKLOAD_POOLS'')"
    "cfg_strict_worker_pools cfg = flag_trimmed (get ''STRICT_WORKER_POOLS'')"
  using assms by (auto simp: from_lookup_def Let_def)

lemma from_lookup_plain_fields:
  assumes "from_lookup lib get = Inr cfg"
  shows "\<exists>key d. parse_field u16_bound key d get = Inr (cfg_port cfg)"
    "\<exists>key d. parse_field u32_bound key d get = Inr (cfg_circuit_failure_threshold cfg)"
    "\<exists>key d. parse_field u64_bound key d get = Inr (cfg_circuit_cooldown_secs cfg)"
    "\<exists>key d. parse_field u64_bound key d get = Inr (cfg_health_probe_interval_secs cfg)"
    "\<exists>key d. parse_field u64_bound key d get = Inr (cfg_resource_report_ttl_secs cfg)"
    "\<exists>key d. parse_field u64_bound key d get = Inr (cfg_chat_completions_required_vram_mb cfg)"
    "\<exists>key d. parse_field u64_bound key d get = Inr (cfg_embeddings_required_vram_mb cfg)"
    "\<exists>key d. parse_field u64_bound key d get = Inr (cfg_priority_realtime_limit cfg)"
    "\<exists>key d. parse_field u64_bound key d get = Inr (cfg_priority_batch_limit cfg)"
    "\<exists>key d. parse_field u64_bound key d get = Inr (cfg_priority_background_limit cfg)"
    "\<exists>key d. parse_field u64_bound key d get = Inr (cfg_job_retention_secs cfg)"
    "\<exists>key d. parse_field u64_bound key d get = Inr (cfg_callback_retry_delay_ms cfg)"
  using assms unfolding from_lookup_def Let_def by force+

lemma from_lookup_nonzero_fields:
  assumes "from_lookup lib get = Inr cfg"
  shows "\<exists>key d. parse_nonzero u64_bound key d get = Inr (cfg_job_prune_limit cfg)"
    "\<exists>key d. parse_nonzero u64_bound key d get = Inr (cfg_job_maintenance_interval_secs cfg)"
    "\<exists>key d. parse_nonzero u128_bound key d get = Inr (cfg_job_lease_duration_ms cfg)"
    "\<exists>key d. parse_nonzero u32_bound key d get = Inr (cfg_callback_max_attempts cfg)"
    "\<exists>key d. parse_nonzero u64_bound key d get = Inr (cfg_callback_timeout_secs cfg)"
    "\<exists>key. parse_optional_nonzero key get = Inr (cfg_job_prune_interval_secs cfg)"
  using assms unfolding from_lookup_def Let_def by force+

lemma parse_job_store_path: "parse_job_store get = Inr (Store_Sqlite path) \<Longrightarrow> path \<noteq> []"
  by (auto simp: parse_job_store_def Let_def split: if_splits)

lemma plain_bound: "\<exists>key d. parse_field (2 ^ k) key d get = Inr n \<Longrightarrow> n < 2 ^ k"
  by (elim exE) (erule parse_field_bound, simp)

lemma nonzero_bound: "\<exists>key d. parse_nonzero bound key d get = Inr n \<Longrightarrow> 0 < n \<and> n < bound"
  by (elim exE) (erule parse_nonzero_bound)

lemma from_lookup_numbers:
  assumes "from_lookup lib get = Inr cfg"
  shows "numbers_ok cfg"
proof -
  note plain = from_lookup_plain_fields [OF assms, THEN plain_bound]
  note nonzero = from_lookup_nonzero_fields(1-5) [OF assms, THEN nonzero_bound]
  have "cfg_job_prune_interval_secs cfg \<noteq> Some 0"
    using from_lookup_nonzero_fields(6) [OF assms] parse_optional_nonzero_bound by (metis less_irrefl)
  moreover have "cfg_job_store cfg = Store_Sqlite path \<Longrightarrow> path \<noteq> []" for path
    using from_lookup_fields(4) [OF assms] by (simp add: parse_job_store_path)
  ultimately show ?thesis
    unfolding numbers_ok_def ball_simps using plain nonzero by blast
qed

text \<open>C22: A configuration that is accepted is well formed, whatever the environment and the JSON texts
  hold: the backend ids are distinct; the pools are distinct trimmed names, and every backend names
  one of them up to surrounding white space; the workload policies are for known workloads only,
  each a non-empty list of distinct configured pools, and in strict mode every known workload has
  one; the numbers fit their types, and the limits and periods that must be positive are.\<close>

theorem accepted_config_well_formed:
  assumes "from_lookup lib get = Inr cfg"
  shows "backends_ok (cfg_backends cfg) \<and> pools_ok (cfg_backends cfg) (cfg_pools cfg) \<and>
    policy_ok (cfg_pools cfg) (cfg_strict_workload_pools cfg) (cfg_workload_pools cfg) \<and> numbers_ok cfg"
proof -
  note fields = from_lookup_fields [OF assms]
  have "backends_ok (cfg_backends cfg)" using fields(1) by (rule parse_backends_ok)
  moreover from fields(2) this have "pools_ok (cfg_backends cfg) (cfg_pools cfg)" by (rule parse_pools_ok)
  moreover from fields(3) this
  have "policy_ok (cfg_pools cfg) (cfg_strict_workload_pools cfg) (cfg_workload_pools cfg)"
    by (rule parse_policy_ok)
  ultimately show ?thesis using from_lookup_numbers [OF assms] by blast
qed

section \<open>An example\<close>

text \<open>A JSON library that knows a few texts: two backends, one of them with a spaced pool name, two
  pools, and a policy of one workload.\<close>

definition ex_json :: json_lib where
  "ex_json =
     \<lparr>json_backends = (\<lambda>s.
        if s = ''two'' then
          Inr [\<lparr>bj_id = ''a'', bj_url = ''http://a'', bj_node_id = None, bj_pool = Some ''gpu'',
                bj_workloads = None, bj_health_path = None\<rparr>,
               \<lparr>bj_id = ''b'', bj_url = ''http://b'', bj_node_id = None, bj_pool = Some '' gpu'',
                bj_workloads = Some [Embeddings], bj_health_path = None\<rparr>]
        else Inl ''expected value''),
      json_pools = (\<lambda>s. if s = ''pools'' then Inr [Entry_Id '' gpu'', Entry_Object \<lparr>pool_id = ''cpu''\<rparr>] else Inl ''expected value''),
      json_workload_pools = (\<lambda>s. if s = ''policy'' then Inr [(''embeddings'', ['' gpu'', ''cpu''])] else Inl ''expected value'')\<rparr>"

definition ex_get :: "string option \<Rightarrow> string option \<Rightarrow> string \<Rightarrow> string option" where
  "ex_get policy job_store =
     [''BACKENDS_JSON'' \<mapsto> ''two'', ''POOLS_JSON'' \<mapsto> ''pools'']
       (''WORKLOAD_POOLS_JSON'' := policy, ''JOB_STORE'' := job_store)"

lemma trim_examples [simp]:
  "trim ''a'' = ''a''" "trim ''b'' = ''b''" "trim ''http://a'' = ''http://a''" "trim ''http://b'' = ''http://b''"
  "trim ''gpu'' = ''gpu''" "trim '' gpu'' = ''gpu''" "trim ''cpu'' = ''cpu''" "trim ''embeddings'' = ''embeddings''"
  "trim '' SQLite'' = ''SQLite''" "trim DEFAULT_JOB_DB_PATH = DEFAULT_JOB_DB_PATH"
  unfolding DEFAULT_JOB_DB_PATH_def by code_simp+

definition ex_backends :: "backend_config list" where
  "ex_backends = map backend_of_json (projr (json_backends ex_json ''two''))"

lemma ex_parse_backends: "parse_backends ex_json (ex_get wp js) = Inr ex_backends"
  by (simp add: parse_backends_def ex_get_def ex_json_def ex_backends_def backend_of_json_def validate_backends_def
      default_proxy_workloads_def)

lemma ex_parse_pools:
  "parse_pools ex_json (ex_get wp js) ex_backends = Inr [\<lparr>pool_id = ''gpu''\<rparr>, \<lparr>pool_id = ''cpu''\<rparr>]"
  by (simp add: parse_pools_def ex_get_def ex_json_def ex_backends_def backend_of_json_def validate_pools_def
      validate_backend_pool_refs_def pool_id_set_def normalize_pools_def)

text \<open>The policy without and with the JSON text.\<close>

definition ex_policy :: "string option \<Rightarrow> workload_pool_policy" where
  "ex_policy wp =
     policy_new (case wp of
         None \<Rightarrow> default_workload_pools [\<lparr>pool_id = ''gpu''\<rparr>, \<lparr>pool_id = ''cpu''\<rparr>]
       | Some _ \<Rightarrow> [(''embeddings'', [''gpu'', ''cpu''])])"

lemma ex_parse_policy:
  "wp \<in> {None, Some ''policy''} \<Longrightarrow>
     parse_workload_pools ex_json (ex_get wp js) [\<lparr>pool_id = ''gpu''\<rparr>, \<lparr>pool_id = ''cpu''\<rparr>] False = Inr (ex_policy wp)"
  by (auto simp: parse_workload_pools_def ex_get_def ex_json_def validate_workload_pools_def btree_of_entries_def
      pool_id_set_def known_pool_workloads_def KNOWN_POOL_WORKLOADS_def ex_policy_def)

definition ex_config :: "string option \<Rightarrow> string option \<Rightarrow> config" where
  "ex_config wp js = projr (from_lookup ex_json (ex_get wp js))"

lemma parse_field_default:
  "get key = None \<Longrightarrow> n < bound \<Longrightarrow> parse_field bound key (nat_to_string n) get = Inr n"
  by (simp add: parse_field_def unwrap_or_def)

lemma parse_nonzero_default:
  "get key = None \<Longrightarrow> 0 < n \<Longrightarrow> n < bound \<Longrightarrow> n < u64_bound \<Longrightarrow> parse_nonzero bound key n get = Inr n"
  unfolding parse_nonzero_def unwrap_or_def try_into_def by (simp del: power_numeral)

lemma ex_defaults:
  "parse_field u16_bound ''PORT'' ''7000'' (ex_get wp js) = Inr 7000"
  "parse_field u32_bound ''CIRCUIT_FAILURE_THRESHOLD'' ''3'' (ex_get wp js) = Inr 3"
  "parse_field u64_bound ''CIRCUIT_COOLDOWN_SECS'' ''30'' (ex_get wp js) = Inr 30"
  "parse_field u64_bound ''HEALTH_PROBE_INTERVAL_SECS'' ''10'' (ex_get wp js) = Inr 10"
  "parse_field u64_bound ''RESOURCE_REPORT_TTL_SECS'' ''30'' (ex_get wp js) = Inr 30"
  "parse_field u64_bound ''CHAT_COMPLETIONS_REQUIRED_VRAM_MB'' ''1024'' (ex_get wp js) = Inr 1024"
  "parse_field u64_bound ''EMBEDDINGS_REQUIRED_VRAM_MB'' ''512'' (ex_get wp js) = Inr 512"
  "parse_field u64_bound ''PRIORITY_REALTIME_LIMIT'' ''8'' (ex_get wp js) = Inr 8"
  "parse_field u64_bound ''PRIORITY_BATCH_LIMIT'' ''4'' (ex_get wp js) = Inr 4"
  "parse_field u64_bound ''PRIORITY_BACKGROUND_LIMIT'' ''2'' (ex_get wp js) = Inr 2"
  by (simp_all add: parse_field_def unwrap_or_def parse_int_def digit_val_def ex_get_def)

lemma ex_nat_defaults:
  "parse_field u64_bound ''JOB_RETENTION_SECS'' (nat_to_string DEFAULT_JOB_RETENTION_SECS) (ex_get wp js) = Inr 86400"
  "parse_field u64_bound ''CALLBACK_RETRY_DELAY_MS'' (nat_to_string DEFAULT_CALLBACK_RETRY_DELAY_MS) (ex_get wp js) = Inr 250"
  "parse_nonzero u64_bound ''JOB_PRUNE_LIMIT'' DEFAULT_JOB_PRUNE_LIMIT (ex_get wp js) = Inr 1000"
  "parse_nonzero u64_bound ''JOB_MAINTENANCE_INTERVAL_SECS'' DEFAULT_JOB_MAINTENANCE_INTERVAL_SECS (ex_get wp js) = Inr 30"
  "parse_nonzero u128_bound ''JOB_LEASE_DURATION_MS'' DEFAULT_JOB_LEASE_DURATION_MS (ex_get wp js) = Inr 30000"
  "parse_nonzero u32_bound ''CALLBACK_MAX_ATTEMPTS'' DEFAULT_CALLBACK_MAX_ATTEMPTS (ex_get wp js) = Inr 3"
  "parse_nonzero u64_bound ''CALLBACK_TIMEOUT_SECS'' DEFAULT_CALLBACK_TIMEOUT_SECS (ex_get wp js) = Inr 5"
  unfolding DEFAULT_JOB_RETENTION_SECS_def DEFAULT_CALLBACK_RETRY_DELAY_MS_def DEFAULT_JOB_PRUNE_LIMIT_def
    DEFAULT_JOB_MAINTENANCE_INTERVAL_SECS_def DEFAULT_JOB_LEASE_DURATION_MS_def
    DEFAULT_CALLBACK_MAX_ATTEMPTS_def DEFAULT_CALLBACK_TIMEOUT_SECS_def
  by (rule parse_field_default parse_nonzero_default; simp add: ex_get_def)+

lemma ex_rest:
  "parse_job_store (ex_get wp None) = Inr Store_Memory"
  "parse_job_store (ex_get wp (Some '' SQLite'')) = Inr (Store_Sqlite DEFAULT_JOB_DB_PATH)"
  "parse_optional_nonzero ''JOB_PRUNE_INTERVAL_SECS'' (ex_get wp js) = Inr None"
  "flag_trimmed (ex_get wp js ''STRICT_WORKLOAD_POOLS'') = False"
proof -
  have "to_lowercase ''memory'' = ''memory''" "trim ''memory'' = ''memory''" by code_simp+
  then show "parse_job_store (ex_get wp None) = Inr Store_Memory"
    by (simp add: parse_job_store_def ex_get_def unwrap_or_def)
  have "to_lowercase ''SQLite'' = ''sqlite''" by code_simp
  moreover have "DEFAULT_JOB_DB_PATH \<noteq> []" by (simp add: DEFAULT_JOB_DB_PATH_def)
  ultimately show "parse_job_store (ex_get wp (Some '' SQLite'')) = Inr (Store_Sqlite DEFAULT_JOB_DB_PATH)"
    by (simp add: parse_job_store_def ex_get_def unwrap_or_def)
qed (simp_all add: parse_optional_nonzero_def flag_trimmed_def ex_get_def)

lemma ex_from_lookup:
  assumes "wp \<in> {None, Some ''policy''}" "js \<in> {None, Some '' SQLite''}"
  shows "from_lookup ex_json (ex_get wp js) = Inr (ex_config wp js)"
proof -
  obtain s where "parse_job_store (ex_get wp js) = Inr s" using assms(2) ex_rest(1,2) by auto
  then show ?thesis
    unfolding ex_config_def from_lookup_def ex_parse_backends ex_rest ex_defaults ex_nat_defaults Let_def
      and_then.simps ex_parse_pools by (simp only: ex_parse_policy [OF assms(1)] and_then.simps sum.sel)
qed

lemma ex_config_simps:
  assumes wp: "wp \<in> {None, Some ''policy''}" and js: "js \<in> {None, Some '' SQLite''}"
  shows "cfg_backends (ex_config wp js) = ex_backends" "cfg_workload_pools (ex_config wp js) = ex_policy wp"
proof -
  note fields = from_lookup_fields [OF ex_from_lookup [OF wp js]]
  show b: "cfg_backends (ex_config wp js) = ex_backends" using fields(1) by (simp add: ex_parse_backends)
  have p: "cfg_pools (ex_config wp js) = [\<lparr>pool_id = ''gpu''\<rparr>, \<lparr>pool_id = ''cpu''\<rparr>]"
    using fields(2) by (simp add: b ex_parse_pools)
  show "cfg_workload_pools (ex_config wp js) = ex_policy wp"
    using fields(3) unfolding p fields(5) ex_rest ex_parse_policy [OF wp] by simp
qed

theorem accepted_config_well_formed_witness:
  "let cfg = ex_config (Some ''policy'') (Some '' SQLite'') in
     length (cfg_backends cfg) = 2 \<and> backends_ok (cfg_backends cfg) \<and>
     pools_ok (cfg_backends cfg) (cfg_pools cfg) \<and>
     policy_ok (cfg_pools cfg) (cfg_strict_workload_pools cfg) (cfg_workload_pools cfg) \<and> numbers_ok cfg"
  using accepted_config_well_formed [OF ex_from_lookup [of "Some ''policy''" "Some '' SQLite''"]]
  by (simp add: ex_config_simps) (simp add: ex_backends_def ex_json_def)

section \<open>Pools and routing\<close>

lemma known_workload: "workload_as_str w \<in> set KNOWN_POOL_WORKLOADS"
  by (cases w) (simp_all add: KNOWN_POOL_WORKLOADS_def)

lemma policy_targets:
  assumes "policy_ok pools strict policy" "pools_for policy w = Some ps"
  shows "set ps \<subseteq> pool_id ` set pools"
  using assms by (auto simp: policy_ok_def pools_for_def targets_ok_def dest!: map_of_SomeD)

lemma default_pools_for:
  assumes "from_lookup lib get = Inr cfg" "get ''WORKLOAD_POOLS_JSON'' = None" "w \<in> set KNOWN_POOL_WORKLOADS"
  shows "pools_for (cfg_workload_pools cfg) w = Some (map pool_id (cfg_pools cfg))"
proof -
  have "cfg_workload_pools cfg = policy_new (default_workload_pools (cfg_pools cfg))"
    using from_lookup_fields(3) [OF assms(1)] assms(2) by (auto simp: parse_workload_pools_def split: if_splits)
  moreover have "map_of (map (\<lambda>x. (x, c)) xs) w = Some c" if "w \<in> set xs"
    for xs and c :: "string list"
    using that by (induction xs) auto
  ultimately show ?thesis
    using assms(3) by (simp add: pools_for_def policy_new_def default_workload_pools_def known_pool_workloads_def)
qed

text \<open>Which configured backends requests can reach. Without \<open>WORKLOAD_POOLS_JSON\<close> a configured
  backend is eligible for a workload exactly if it serves the workload and its pool name has no
  surrounding white space. Under any accepted policy that names pools for the workload, a backend
  with a spaced pool name is never eligible, although the validation accepted it as a member of the
  pool: \<open>validate_backend_pool_refs\<close> compares the trimmed name, the policies hold trimmed names, and
  the router compares the name as it was written.\<close>

lemma eligible_iff_pool_trimmed:
  assumes "from_lookup lib get = Inr cfg" and "b \<in> set (cfg_backends cfg)"
  shows "(get ''WORKLOAD_POOLS_JSON'' = None \<longrightarrow>
      route_allows_backend (from_config set_url_path b threshold cool) (route w) (cfg_workload_pools cfg) =
        (w \<in> set (bc_workloads b) \<and> trim (bc_pool b) = bc_pool b)) \<and>
    (pools_for (cfg_workload_pools cfg) (workload_as_str w) \<noteq> None \<and> trim (bc_pool b) \<noteq> bc_pool b \<longrightarrow>
      \<not> route_allows_backend (from_config set_url_path b threshold cool) (route w) (cfg_workload_pools cfg))"
proof -
  have ok: "pools_ok (cfg_backends cfg) (cfg_pools cfg)"
    "policy_ok (cfg_pools cfg) (cfg_strict_workload_pools cfg) (cfg_workload_pools cfg)"
    using from_lookup_fields [OF assms(1)] parse_backends_ok parse_pools_ok parse_policy_ok by blast+
  have trimmed: "trim (bc_pool b) = bc_pool b"
    if "pools_for (cfg_workload_pools cfg) (workload_as_str w) = Some ps" "bc_pool b \<in> set ps" for ps
    using policy_targets [OF ok(2) that(1)] that(2) ok(1) by (auto simp: pools_ok_def)
  have member: "trim (bc_pool b) = bc_pool b \<Longrightarrow> bc_pool b \<in> pool_id ` set (cfg_pools cfg)"
    using ok(1) assms(2) by (metis pools_ok_def)
  have allowed: "route_allows_backend (from_config set_url_path b threshold cool) (route w) policy \<longleftrightarrow>
      w \<in> set (bc_workloads b) \<and> allows policy (workload_as_str w) (bc_pool b)" for policy
    by (cases w) (auto simp: route_allows_backend_def from_config_def)
  have "get ''WORKLOAD_POOLS_JSON'' = None \<Longrightarrow>
      allows (cfg_workload_pools cfg) (workload_as_str w) (bc_pool b) \<longleftrightarrow> trim (bc_pool b) = bc_pool b"
    using default_pools_for [OF assms(1) _ known_workload] trimmed member by (fastforce simp: allows_iff)
  then show ?thesis using trimmed by (auto simp: allowed allows_iff)
qed

lemma eligible_iff_pool_trimmed_witness:
  "let cfg = ex_config None None; state = (\<lambda>i. from_config (\<lambda>_ _. None) (cfg_backends cfg ! i) 3 30)
   in route_allows_backend (state 0) (route Embeddings) (cfg_workload_pools cfg) \<and>
      bc_workloads (cfg_backends cfg ! 1) = [Embeddings] \<and>
      \<not> route_allows_backend (state 1) (route Embeddings) (cfg_workload_pools cfg)"
proof -
  have b: "cfg_backends (ex_config None None) = ex_backends" by (simp add: ex_config_simps)
  have "ex_get None None ''WORKLOAD_POOLS_JSON'' = None" by (simp add: ex_get_def)
  moreover have "ex_backends ! 0 \<in> set ex_backends" "ex_backends ! 1 \<in> set ex_backends"
    by (simp_all add: ex_backends_def ex_json_def)
  moreover have "Embeddings \<in> set (bc_workloads (ex_backends ! 0))" "bc_workloads (ex_backends ! 1) = [Embeddings]"
    "bc_pool (ex_backends ! 0) = ''gpu''" "bc_pool (ex_backends ! 1) = '' gpu''"
    by (simp_all add: ex_backends_def ex_json_def backend_of_json_def default_proxy_workloads_def)
  ultimately show ?thesis
    using eligible_iff_pool_trimmed [OF ex_from_lookup [of None None], where b = "ex_backends ! 0"
        and set_url_path = "\<lambda>_ _. None" and threshold = 3 and cool = 30 and w = Embeddings]
      eligible_iff_pool_trimmed [OF ex_from_lookup [of None None], where b = "ex_backends ! 1"
        and set_url_path = "\<lambda>_ _. None" and threshold = 3 and cool = 30 and w = Embeddings]
    by (simp add: b)
qed

text \<open>Two keys that name the same workload up to white space are both accepted, and the entry of the
  greater key silently replaces the other.\<close>

lemma spaced_workload_overwritten:
  "validate_workload_pools (btree_of_entries [(''embeddings'', [''cpu'']), ('' embeddings'', [''gpu''])])
     [\<lparr>pool_id = ''gpu''\<rparr>, \<lparr>pool_id = ''cpu''\<rparr>] False = Inr [(''embeddings'', [''cpu''])]"
proof -
  have "trim '' embeddings'' = ''embeddings''" by code_simp
  moreover have "btree_of_entries [(''embeddings'', [''cpu'']), ('' embeddings'', [''gpu''])] =
      [('' embeddings'', [''gpu'']), (''embeddings'', [''cpu''])]"
    by (simp add: btree_of_entries_def less_char_def)
  ultimately show ?thesis
    by (simp add: validate_workload_pools_def pool_id_set_def known_pool_workloads_def KNOWN_POOL_WORKLOADS_def)
qed

end
