(* ===== verification/Server.thy ===== *)
theory Server
  imports Config Storage Scheduler Proxy
begin

text \<open>
  Start-up, \<open>src/src/main.rs\<close>, and the list of models, \<open>src/src/models.rs\<close>: from the configuration
  to the state that the handlers share. The handlers of the async API and those of the proxy use
  disjoint parts of \<open>AppState\<close> except for the counters, of which each side only touches series of
  its own; the model gives each side its part. The background tasks that \<open>main\<close> spawns run the
  operations modelled elsewhere: \<open>health_probe_turn\<close>, \<open>dispatch_pending_callbacks\<close>,
  \<open>sweep_expired_leases\<close> and \<open>prune_jobs_of\<close>.
\<close>

section \<open>Start-up\<close>

text \<open>What start-up reads outside the program: the databases by path, faults of opening, reading and
  writing the store, the wall clock, the semaphore library and the URL library.\<close>

record ('v, 's) boot_env =
  be_json :: json_lib
  be_db :: "string \<Rightarrow> job_db"
  be_open_fault :: "string option"
  be_load_fault :: "string option"
  be_save_fault :: "string option"
  be_codec :: "'v json_codec"
  be_hash_order :: "string list \<Rightarrow> string list"
  be_now :: nat
  be_sem :: "'s semaphore_ops"
  be_set_url_path :: "string \<Rightarrow> string \<Rightarrow> string option"

record ('v, 's) app_state =
  app_async :: "('v, job_db) async_state"
  app_proxy :: "'s proxy_state"
  app_workload_pools :: workload_pool_policy
  app_resource_policy :: resource_routing_policy
  app_callback_policy :: callback_policy

definition retention_of :: "config \<Rightarrow> job_retention_policy" where
  "retention_of cfg =
     \<lparr>terminal_retention_ms = cfg_job_retention_secs cfg * 1000, max_pruned_jobs = cfg_job_prune_limit cfg\<rparr>"

definition main_jobs :: "('v, 's) boot_env \<Rightarrow> config \<Rightarrow> string + ('v, job_db) job_registry" where
  "main_jobs env cfg =
     (case cfg_job_store cfg of
        Store_Memory \<Rightarrow> Inr (registry_new (retention_of cfg))
      | Store_Sqlite path \<Rightarrow>
          and_then (open_store (be_open_fault env) (be_db env path)) (\<lambda>db.
            with_store_and_retention (be_codec env) (be_hash_order env) (be_load_fault env) (be_save_fault env)
              (be_now env) db (retention_of cfg)))"

text \<open>\<open>Duration::from_secs\<close> in nanoseconds.\<close>

definition from_secs :: "nat \<Rightarrow> nat" where
  "from_secs n = n * 10 ^ 9"

definition callback_policy_of :: "config \<Rightarrow> callback_policy" where
  "callback_policy_of cfg =
     \<lparr>cp_max_attempts = cfg_callback_max_attempts cfg, cp_timeout_ms = cfg_callback_timeout_secs cfg * 1000,
      cp_retry_delay_ms = cfg_callback_retry_delay_ms cfg\<rparr>"

definition main_backends :: "('v, 's) boot_env \<Rightarrow> config \<Rightarrow> backend_state list" where
  "main_backends env cfg =
     map (\<lambda>backend. from_config (be_set_url_path env) backend (word_of_nat (cfg_circuit_failure_threshold cfg))
         (from_secs (cfg_circuit_cooldown_secs cfg)))
       (cfg_backends cfg)"

definition async_of :: "config \<Rightarrow> ('v, job_db) job_registry \<Rightarrow> ('v, job_db) async_state" where
  "async_of cfg reg =
     \<lparr>st_jobs = reg, st_workers = worker_registry_default, st_metrics = metrics_default,
      st_dispatcher = dispatcher_default, st_workload_pools = cfg_workload_pools cfg,
      st_worker_pool_ids = map pool_id (cfg_pools cfg), st_strict_worker_pools = cfg_strict_worker_pools cfg,
      st_lease_duration_ms = cfg_job_lease_duration_ms cfg\<rparr>"

definition proxy_of :: "('v, 's) boot_env \<Rightarrow> config \<Rightarrow> 's proxy_state" where
  "proxy_of env cfg =
     \<lparr>px_backends = main_backends env cfg, px_affinity = affinity_new,
      px_limiter = limiter_new (be_sem env) (cfg_priority_realtime_limit cfg) (cfg_priority_batch_limit cfg)
        (cfg_priority_background_limit cfg),
      px_resources = resource_registry_new (from_secs (cfg_resource_report_ttl_secs cfg)),
      px_metrics = metrics_default\<rparr>"

definition app_state_of :: "('v, 's) boot_env \<Rightarrow> config \<Rightarrow> ('v, job_db) job_registry \<Rightarrow> ('v, 's) app_state" where
  "app_state_of env cfg reg =
     \<lparr>app_async = async_of cfg reg, app_proxy = proxy_of env cfg,
      app_workload_pools = cfg_workload_pools cfg,
      app_resource_policy =
        \<lparr>rr_enabled = cfg_resource_aware_routing cfg,
         chat_completions_required_vram_mb = cfg_chat_completions_required_vram_mb cfg,
         embeddings_required_vram_mb = cfg_embeddings_required_vram_mb cfg\<rparr>,
      app_callback_policy = callback_policy_of cfg\<rparr>"

definition main_boot :: "('v, 's) boot_env \<Rightarrow> (string \<Rightarrow> string option) \<Rightarrow> string + ('v, 's) app_state" where
  "main_boot env get =
     and_then (from_lookup (be_json env) get) (\<lambda>cfg.
     and_then (main_jobs env cfg) (\<lambda>reg. Inr (app_state_of env cfg reg)))"

section \<open>Models\<close>

record model_info =
  mi_id :: string
  mi_object :: string
  mi_created :: nat
  mi_owned_by :: string
  mi_backend_id :: string
  mi_backend_url :: string
  mi_health_url :: string
  mi_node_id :: "string option"
  mi_pool :: string
  mi_workloads :: "string list"

definition model_info :: "backend_state \<Rightarrow> model_info" where
  "model_info backend =
     \<lparr>mi_id = bk_id backend, mi_object = ''model'', mi_created = 0, mi_owned_by = ''fairlead'',
      mi_backend_id = bk_id backend, mi_backend_url = bk_url backend, mi_health_url = bk_health_url backend,
      mi_node_id = bk_node_id backend, mi_pool = bk_pool backend,
      mi_workloads = map workload_as_str (bk_workloads backend)\<rparr>"

definition list_models :: "backend_state list \<Rightarrow> string \<times> model_info list" where
  "list_models backends = (''list'', map model_info backends)"

end
