(* ===== verification/Systems.thy ===== *)
theory Systems
  imports Main
begin

text \<open>
  Labelled transition systems: runs, invariants, and simulations by a smaller system whose labels
  are the observable part of the labels of the larger one. The components whose calls interleave
  with the rest of the program instantiate these interfaces.
\<close>

section \<open>Runs\<close>

inductive run :: "('s \<Rightarrow> 'e \<Rightarrow> 's \<Rightarrow> bool) \<Rightarrow> 's \<Rightarrow> 'e list \<Rightarrow> 's \<Rightarrow> bool" for step where
  run_nil: "run step s [] s"
| run_snoc: "run step s es t \<Longrightarrow> step t e u \<Longrightarrow> run step s (es @ [e]) u"

lemma run_one: "step s e t \<Longrightarrow> run step s [e] t"
  using run_snoc [OF run_nil] by fastforce

lemma run_trans: "run step t fs u \<Longrightarrow> run step s es t \<Longrightarrow> run step s (es @ fs) u"
proof (induction rule: run.induct)
  case (run_snoc t fs v e w)
  then show ?case using run.run_snoc [of step s "es @ fs" v e w] by simp
qed simp

section \<open>Observations\<close>

definition observed :: "('e \<Rightarrow> 'o option) \<Rightarrow> 'e list \<Rightarrow> 'o list" where
  "observed obs es = List.map_filter obs es"

lemma observed_simps [simp]:
  "observed obs [] = []"
  "observed obs (es @ fs) = observed obs es @ observed obs fs"
  "observed obs (e # es) = (case obs e of None \<Rightarrow> observed obs es | Some x \<Rightarrow> x # observed obs es)"
  by (simp_all add: observed_def List.map_filter_def split: option.split)

section \<open>Invariants\<close>

locale invariant_system =
  fixes start :: "'s \<Rightarrow> bool" and step :: "'s \<Rightarrow> 'e \<Rightarrow> 's \<Rightarrow> bool" and inv :: "'s \<Rightarrow> bool"
  assumes inv_start: "start s \<Longrightarrow> inv s"
    and inv_step: "inv s \<Longrightarrow> step s e t \<Longrightarrow> inv t"
begin

lemma inv_run: "run step s es t \<Longrightarrow> inv s \<Longrightarrow> inv t"
  by (induction rule: run.induct) (auto intro: inv_step)

lemma inv_reached: "run step s es t \<Longrightarrow> start s \<Longrightarrow> inv t"
  by (blast intro: inv_run inv_start)

text \<open>A component of the state that changes as a function of the labels.\<close>

lemma run_fold:
  assumes "\<And>s e t. inv s \<Longrightarrow> step s e t \<Longrightarrow> f t = g e (f s)"
  shows "run step s es t \<Longrightarrow> inv s \<Longrightarrow> f t = fold g es (f s)"
proof (induction rule: run.induct)
  case (run_snoc s es t e u)
  then show ?case using assms inv_run by fastforce
qed simp

lemma run_constant:
  fixes f :: "'s \<Rightarrow> 'x"
  assumes "\<And>s e t. inv s \<Longrightarrow> step s e t \<Longrightarrow> f t = f s"
  shows "run step s es t \<Longrightarrow> inv s \<Longrightarrow> f t = f s"
proof -
  assume "run step s es t" "inv s"
  then have "f t = fold (\<lambda>_ x. x) es (f s)" by (intro run_fold) (simp_all add: assms)
  moreover have "fold (\<lambda>_ x. x) es x = x" for x :: 'x and es :: "'e list" by (induction es) simp_all
  ultimately show ?thesis by simp
qed

end

section \<open>Simulations\<close>

text \<open>Every step is a step of the abstract system with the observed label, or leaves the abstract
  state alone and shows nothing.\<close>

locale simulation = invariant_system start step inv
  for start :: "'s \<Rightarrow> bool" and step :: "'s \<Rightarrow> 'e \<Rightarrow> 's \<Rightarrow> bool" and inv :: "'s \<Rightarrow> bool" +
  fixes astep :: "'a \<Rightarrow> 'o option \<Rightarrow> 'a \<Rightarrow> bool" and abs :: "'s \<Rightarrow> 'a" and obs :: "'e \<Rightarrow> 'o option"
  assumes sim: "inv s \<Longrightarrow> step s e t \<Longrightarrow>
    abs t = abs s \<and> obs e = None \<or> astep (abs s) (obs e) (abs t)"
begin

lemma sim_run:
  "run step s es t \<Longrightarrow> inv s \<Longrightarrow>
     \<exists>os. run astep (abs s) os (abs t) \<and> observed (\<lambda>x. x) os = observed obs es"
proof (induction rule: run.induct)
  case (run_nil s)
  then show ?case using run.run_nil by fastforce
next
  case (run_snoc s es t e u)
  then obtain os where os: "run astep (abs s) os (abs t)" "observed (\<lambda>x. x) os = observed obs es" by blast
  from run_snoc.hyps(1) run_snoc.prems have "inv t" by (rule inv_run)
  from sim [OF this run_snoc.hyps(2)] show ?case
  proof
    assume "abs u = abs t \<and> obs e = None"
    with os show ?thesis by auto
  next
    assume "astep (abs t) (obs e) (abs u)"
    with os(1) have "run astep (abs s) (os @ [obs e]) (abs u)" by (rule run.run_snoc)
    with os(2) show ?thesis by (intro exI [of _ "os @ [obs e]"]) (simp split: option.split)
  qed
qed

end

section \<open>Two systems side by side\<close>

inductive beside ::
  "('s \<Rightarrow> 'e \<Rightarrow> 's \<Rightarrow> bool) \<Rightarrow> ('t \<Rightarrow> 'f \<Rightarrow> 't \<Rightarrow> bool) \<Rightarrow> 's \<times> 't \<Rightarrow> 'e + 'f \<Rightarrow> 's \<times> 't \<Rightarrow> bool"
  for step1 step2 where
  beside_left: "step1 s e s' \<Longrightarrow> beside step1 step2 (s, t) (Inl e) (s', t)"
| beside_right: "step2 t f t' \<Longrightarrow> beside step1 step2 (s, t) (Inr f) (s, t')"

fun left_of :: "'e + 'f \<Rightarrow> 'e option" where
  "left_of (Inl e) = Some e"
| "left_of (Inr f) = None"

fun right_of :: "'e + 'f \<Rightarrow> 'f option" where
  "right_of (Inl e) = None"
| "right_of (Inr f) = Some f"

lemma run_parts:
  "run (beside step1 step2) st es st' \<Longrightarrow>
     run step1 (fst st) (observed left_of es) (fst st') \<and> run step2 (snd st) (observed right_of es) (snd st')"
proof (induction rule: run.induct)
  case (run_nil s)
  show ?case by (simp add: run.run_nil)
next
  case (run_snoc s es t e u)
  from run_snoc.hyps(2) show ?case
  proof cases
    case (beside_left s1 e1 s2 t1)
    then show ?thesis
      using run_snoc.IH run.run_snoc [of step1 "fst s" "observed left_of es" s1 e1 s2]
      by simp
  next
    case (beside_right t1 f1 t2 s1)
    then show ?thesis
      using run_snoc.IH run.run_snoc [of step2 "snd s" "observed right_of es" t1 f1 t2]
      by simp
  qed
qed

lemma run_left: "run step1 s es s' \<Longrightarrow> run (beside step1 step2) (s, t) (map Inl es) (s', t)"
proof (induction rule: run.induct)
  case (run_snoc s es u e v)
  then show ?case
    using run.run_snoc [of "beside step1 step2" "(s, t)" "map Inl es" "(u, t)" "Inl e" "(v, t)"] beside_left by fastforce
qed (simp add: run_nil)

lemma run_right: "run step2 t es t' \<Longrightarrow> run (beside step1 step2) (s, t) (map Inr es) (s, t')"
proof (induction rule: run.induct)
  case (run_snoc t es u e v)
  then show ?case
    using run.run_snoc [of "beside step1 step2" "(s, t)" "map Inr es" "(s, u)" "Inr e" "(s, v)"] beside_right by fastforce
qed (simp add: run_nil)

end
