(* ===== verification/Callback_Steps.thy ===== *)
theory Callback_Steps
  imports Systems Callbacks
begin

text \<open>
  The delivery of callbacks as a system of concurrent tasks, \<open>src/src/callbacks.rs\<close>. The registry of
  jobs, the dispatcher and the running tasks change in atomic steps: a call of the registry by any
  other part of the program, a dispatch, and the three places where a task of \<open>deliver_callback\<close>
  waits for something (the lock of the registry before an attempt, the answer to its POST, its
  end). The steps interleave in any order and the store may fail in any of them.

  \<open>notice_step\<close> is the protocol that the receiver of one job's callback sees; every step of the
  system is a step of it, whatever else happens.
\<close>

section \<open>The system\<close>

text \<open>Where a task is: before an attempt, with the attempts left; waiting for the answer to the POST
  of a job, with the attempts left after it; or after \<open>deliver_callback\<close> has returned.\<close>

datatype 'v task_phase =
    Attempting nat
  | Awaiting nat string "'v job_record"
  | Returned

record ('v, 's) callback_system =
  cs_jobs :: "('v, 's) job_registry"
  cs_dispatcher :: callback_dispatcher
  cs_metrics :: routing_metrics
  cs_tasks :: "(string \<times> 'v task_phase) list"

datatype 'v callback_event =
    Ce_Post string string "'v job_record"
  | Ce_Answer string bool
  | Ce_Task string
  | Ce_Other

text \<open>The last is what other parts of the program do; the others are a task's.\<close>

text \<open>What a task records of an answer.\<close>

definition note_refusal ::
  "('v, 's) persist \<Rightarrow> string \<Rightarrow> 'v job_record \<Rightarrow> nat option \<Rightarrow> string option \<Rightarrow> nat
     \<Rightarrow> ('v, 's) callback_system \<Rightarrow> ('v, 's) callback_system" where
  "note_refusal db jid job status err label_status s =
     s\<lparr>cs_jobs := fst (record_callback_failure db jid status err (cs_jobs s)),
       cs_metrics := record_callback (callback_outcome job ''failure'' label_status) (cs_metrics s)\<rparr>"

definition note_answer ::
  "('v, 's) persist \<Rightarrow> nat \<Rightarrow> string \<Rightarrow> 'v job_record \<Rightarrow> send_result
     \<Rightarrow> ('v, 's) callback_system \<Rightarrow> ('v, 's) callback_system" where
  "note_answer db now jid job r s =
     (case r of
        Responded status ok \<Rightarrow>
          if ok then
            s\<lparr>cs_jobs := fst (record_callback_success db now jid status (cs_jobs s)),
              cs_metrics := record_callback (callback_outcome job ''success'' status) (cs_metrics s)\<rparr>
          else note_refusal db jid job (Some status) None status s
      | Send_Error e \<Rightarrow> note_refusal db jid job None (Some e) 0 s
      | Timed_Out \<Rightarrow> note_refusal db jid job None (Some ''callback timed out'') 0 s)"

definition after_answer :: "nat \<Rightarrow> send_result \<Rightarrow> 'v task_phase" where
  "after_answer left r = (if send_ok r \<or> left = 0 then Returned else Attempting left)"

definition dispatch_task :: "nat \<Rightarrow> string \<Rightarrow> ('v, 's) callback_system \<Rightarrow> ('v, 's) callback_system" where
  "dispatch_task quota jid s =
     s\<lparr>cs_dispatcher := dispatch jid (cs_dispatcher s),
       cs_tasks := cs_tasks s @
         (if snd (mark_in_flight jid (cs_dispatcher s)) then [(jid, Attempting (max quota 1))] else [])\<rparr>"

definition has_post :: "'v job_record option \<Rightarrow> string \<Rightarrow> bool" where
  "has_post r url \<longleftrightarrow> (case r of None \<Rightarrow> False | Some job \<Rightarrow> callback_url job = Some url)"

text \<open>The calls that are not those of a delivery.\<close>

fun foreground :: "registry_event \<Rightarrow> bool" where
  "foreground (Ev_Delivered jid) = False"
| "foreground (Ev_Callback jid) = False"
| "foreground _ = True"

inductive callback_step ::
  "nat \<Rightarrow> ('v, 's) callback_system \<Rightarrow> 'v callback_event \<Rightarrow> ('v, 's) callback_system \<Rightarrow> bool"
  for quota :: nat where
  cs_call:
    "registry_step (cs_jobs s) e reg \<Longrightarrow> foreground e \<Longrightarrow>
     callback_step quota s Ce_Other (s\<lparr>cs_jobs := reg\<rparr>)"
| cs_counters:
    "callback_step quota s Ce_Other (s\<lparr>cs_metrics := m\<rparr>)"
| cs_dispatch:
    "callback_step quota s Ce_Other (dispatch_task quota jid s)"
| cs_post:
    "cs_tasks s = xs @ (jid, Attempting (Suc left)) # ys \<Longrightarrow>
     begin_callback_attempt db now jid (cs_jobs s) = (reg, Some job) \<Longrightarrow> callback_url job = Some url \<Longrightarrow>
     callback_step quota s (Ce_Post jid url job)
       (s\<lparr>cs_jobs := reg, cs_tasks := xs @ (jid, Awaiting left url job) # ys\<rparr>)"
| cs_stop:
    "cs_tasks s = xs @ (jid, Attempting (Suc left)) # ys \<Longrightarrow>
     begin_callback_attempt db now jid (cs_jobs s) = (reg, r) \<Longrightarrow> \<forall>url. \<not> has_post r url \<Longrightarrow>
     callback_step quota s (Ce_Task jid) (s\<lparr>cs_jobs := reg, cs_tasks := xs @ (jid, Returned) # ys\<rparr>)"
| cs_answer:
    "cs_tasks s = xs @ (jid, Awaiting left url job) # ys \<Longrightarrow>
     callback_step quota s (Ce_Answer jid (send_ok r))
       ((note_answer db now jid job r s)\<lparr>cs_tasks := xs @ (jid, after_answer left r) # ys\<rparr>)"
| cs_finish:
    "cs_tasks s = xs @ (jid, Returned) # ys \<Longrightarrow>
     callback_step quota s (Ce_Task jid)
       (s\<lparr>cs_dispatcher := finish_task jid (cs_dispatcher s), cs_tasks := xs @ ys\<rparr>)"

text \<open>A server just started, on an empty registry or on one read from a store.\<close>

definition callback_start :: "('v, 's) callback_system \<Rightarrow> bool" where
  "callback_start s \<longleftrightarrow> registry_inv (inner (cs_jobs s)) \<and> cs_dispatcher s = dispatcher_default \<and> cs_tasks s = []"

section \<open>The invariant\<close>

definition tasks_ok :: "callback_dispatcher \<Rightarrow> (string \<times> 'v task_phase) list \<Rightarrow> bool" where
  "tasks_ok d tasks \<longleftrightarrow> map fst tasks = disp_tasks d \<and> distinct (disp_tasks d) \<and> set (disp_tasks d) = disp_in_flight d"

text \<open>While a task waits for an answer, the registry has the job exactly as it was posted.\<close>

definition awaited_ok :: "'v job_registry_inner \<Rightarrow> (string \<times> 'v task_phase) list \<Rightarrow> bool" where
  "awaited_ok i tasks \<longleftrightarrow>
     (\<forall>jid left url job. (jid, Awaiting left url job) \<in> set tasks \<longrightarrow>
        jobs i jid = Some job \<and> callback_url job = Some url \<and> is_terminal (job_status job) \<and> callback_pending job)"

definition callback_inv :: "('v, 's) callback_system \<Rightarrow> bool" where
  "callback_inv s \<longleftrightarrow> registry_inv (inner (cs_jobs s)) \<and> tasks_ok (cs_dispatcher s) (cs_tasks s) \<and>
     awaited_ok (inner (cs_jobs s)) (cs_tasks s)"

lemma awaited_okD:
  assumes "awaited_ok i tasks" "(jid, Awaiting left url job) \<in> set tasks"
  shows "jobs i jid = Some job" "callback_url job = Some url" "is_terminal (job_status job)" "callback_pending job"
  using assms unfolding awaited_ok_def by blast+

lemma tasks_ok_dispatch:
  "tasks_ok d tasks \<Longrightarrow>
     tasks_ok (dispatch jid d) (tasks @ (if snd (mark_in_flight jid d) then [(jid, ph)] else []))"
  by (auto simp: tasks_ok_def mark_in_flight_simps mark_in_flight_def)

lemma tasks_ok_phase:
  "tasks_ok d (xs @ (jid, ph) # ys) \<Longrightarrow> tasks_ok d (xs @ (jid, ph') # ys)"
  by (simp add: tasks_ok_def)

lemma tasks_ok_finish:
  "tasks_ok d (xs @ (jid, ph) # ys) \<Longrightarrow> tasks_ok (finish_task jid d) (xs @ ys)"
  unfolding tasks_ok_def finish_task_def clear_in_flight_def
  by (auto simp: remove1_append dest: sym [of _ "disp_tasks d"])

lemma tasks_ok_other:
  "tasks_ok d (xs @ (jid, ph) # ys) \<Longrightarrow> (k, ph') \<in> set xs \<union> set ys \<Longrightarrow> k \<noteq> jid"
  unfolding tasks_ok_def by (metis (no_types, lifting) Un_iff distinct.simps(2) distinct_append fst_conv
    image_eqI list.set_map list.simps(9) map_append not_distinct_conv_prefix disjoint_iff fst_conv list.set_intros(1))

section \<open>What a registry call does to a job that waits for its delivery\<close>

lemma untouched_terminal:
  "job_change c x y \<Longrightarrow> c = Untouched \<Longrightarrow> x = Some job \<Longrightarrow> is_terminal (job_status job) \<Longrightarrow>
     y = Some job \<or> (y = None \<and> \<not> has_pending_callback job)"
  by (induction rule: job_change.induct) (auto simp: is_expired_def prunable_def)

lemma pending_has_pending:
  "callback_url job \<noteq> None \<Longrightarrow> callback_pending job \<Longrightarrow> has_pending_callback job"
  by (auto simp: callback_pending_def has_pending_callback_def callback_delivered_def split: option.splits)

lemma foreground_use: "foreground e \<Longrightarrow> use_of k e = Untouched"
  by (cases e) auto

lemma foreground_awaited:
  assumes "registry_step reg e reg'" "foreground e" "registry_inv (inner reg)" "awaited_ok (inner reg) tasks"
  shows "awaited_ok (inner reg') tasks"
  unfolding awaited_ok_def
proof (intro allI impI)
  fix jid left url job assume t: "(jid, Awaiting left url job) \<in> set tasks"
  note a = awaited_okD [OF assms(4) t]
  have "has_pending_callback job" using a(2,4) by (intro pending_has_pending) auto
  then have "jobs (inner reg') jid = Some job"
    using untouched_terminal [OF step_job_change [OF assms(1,3), of jid] foreground_use [OF assms(2)] a(1,3)]
    by blast
  then show "jobs (inner reg') jid = Some job \<and> callback_url job = Some url \<and> is_terminal (job_status job) \<and>
    callback_pending job" using a by simp
qed

lemma begin_other [simp]:
  "k \<noteq> jid \<Longrightarrow> jobs (inner (fst (begin_callback_attempt db now jid reg))) k = jobs (inner reg) k"
  by (auto simp: begin_callback_attempt_def Let_def split: option.split)

lemma begin_frame:
  assumes "begin_callback_attempt db now jid reg = (reg', r)"
  shows "k \<noteq> jid \<Longrightarrow> jobs (inner reg') k = jobs (inner reg) k" "ids_kept (inner reg) (inner reg')"
  using begin_other [of k jid db now reg] callback_ids(1) [of reg db now jid] assms by simp_all

lemma success_other [simp]:
  "k \<noteq> jid \<Longrightarrow> jobs (inner (fst (record_callback_success db now jid st reg))) k = jobs (inner reg) k"
  by (auto simp: record_callback_success_def Let_def split: option.split)

lemma failure_other [simp]:
  "k \<noteq> jid \<Longrightarrow> jobs (inner (fst (record_callback_failure db jid st e reg))) k = jobs (inner reg) k"
  by (auto simp: record_callback_failure_def Let_def split: option.split)

lemma note_answer_frame [simp]:
  "cs_dispatcher (note_answer db now jid job r s) = cs_dispatcher s"
  "cs_tasks (note_answer db now jid job r s) = cs_tasks s"
  "k \<noteq> jid \<Longrightarrow> jobs (inner (cs_jobs (note_answer db now jid job r s))) k = jobs (inner (cs_jobs s)) k"
  by (auto simp: note_answer_def note_refusal_def split: send_result.split)

lemma awaited_frame:
  assumes "awaited_ok i (xs @ (jid, ph) # ys)" "tasks_ok d (xs @ (jid, ph) # ys)"
    and "\<And>k. k \<noteq> jid \<Longrightarrow> jobs i' k = jobs i k"
  shows "awaited_ok i' (xs @ ys)"
  using assms(1) assms(3) tasks_ok_other [OF assms(2)] unfolding awaited_ok_def by fastforce

lemma awaited_phase:
  "awaited_ok i (xs @ ys) \<Longrightarrow> (\<And>left url job. ph = Awaiting left url job \<Longrightarrow>
     jobs i jid = Some job \<and> callback_url job = Some url \<and> is_terminal (job_status job) \<and> callback_pending job) \<Longrightarrow>
   awaited_ok i (xs @ (jid, ph) # ys)"
  unfolding awaited_ok_def by auto

lemma note_answer_step:
  "\<exists>e. registry_step (cs_jobs s) e (cs_jobs (note_answer db now jid job r s))"
  unfolding note_answer_def note_refusal_def
  by (cases r) (auto intro: step_callback_success step_callback_failure surjective_pairing)

lemma callback_inv_step:
  "callback_step quota s e t \<Longrightarrow> callback_inv s \<Longrightarrow> callback_inv t"
proof (induction rule: callback_step.induct)
  case (cs_call s e reg)
  then show ?case
    using registry_step_inv foreground_awaited by (fastforce simp: callback_inv_def)
next
  case (cs_counters s m)
  then show ?case by (simp add: callback_inv_def)
next
  case (cs_dispatch s jid)
  then have "awaited_ok (inner (cs_jobs s)) (cs_tasks (dispatch_task quota jid s))"
    by (auto simp: callback_inv_def dispatch_task_def awaited_ok_def)
  then show ?case
    using cs_dispatch tasks_ok_dispatch by (fastforce simp: callback_inv_def dispatch_task_def)
next
  case (cs_post s xs jid left ys db now reg job url)
  have t: "tasks_ok (cs_dispatcher s) (xs @ (jid, Attempting (Suc left)) # ys)"
    and a: "awaited_ok (inner (cs_jobs s)) (xs @ (jid, Attempting (Suc left)) # ys)"
    using cs_post by (auto simp: callback_inv_def)
  note b = begin_callback_Some [OF cs_post.hyps(2)]
  have "awaited_ok (inner reg) (xs @ ys)"
    by (rule awaited_frame [OF a t]) (metis begin_other cs_post.hyps(2) fst_conv)
  then have "awaited_ok (inner reg) (xs @ (jid, Awaiting left url job) # ys)"
    by (rule awaited_phase) (use b cs_post.hyps(3) in auto)
  moreover have "registry_inv (inner reg)"
    using registry_step_inv [OF step_begin_callback [OF cs_post.hyps(2)]] cs_post.prems
    by (simp add: callback_inv_def)
  ultimately show ?case using tasks_ok_phase [OF t] by (simp add: callback_inv_def)
next
  case (cs_stop s xs jid left ys db now reg r)
  have t: "tasks_ok (cs_dispatcher s) (xs @ (jid, Attempting (Suc left)) # ys)"
    and a: "awaited_ok (inner (cs_jobs s)) (xs @ (jid, Attempting (Suc left)) # ys)"
    using cs_stop by (auto simp: callback_inv_def)
  have "awaited_ok (inner reg) (xs @ ys)"
    by (rule awaited_frame [OF a t]) (metis begin_other cs_stop.hyps(2) fst_conv)
  then have "awaited_ok (inner reg) (xs @ (jid, Returned) # ys)" by (rule awaited_phase) simp
  moreover have "registry_inv (inner reg)"
    using registry_step_inv [OF step_begin_callback [OF cs_stop.hyps(2)]] cs_stop.prems
    by (simp add: callback_inv_def)
  ultimately show ?case using tasks_ok_phase [OF t] by (simp add: callback_inv_def)
next
  case (cs_answer s xs jid left url job ys r db now)
  have t: "tasks_ok (cs_dispatcher s) (xs @ (jid, Awaiting left url job) # ys)"
    and a: "awaited_ok (inner (cs_jobs s)) (xs @ (jid, Awaiting left url job) # ys)"
    using cs_answer by (auto simp: callback_inv_def)
  have "awaited_ok (inner (cs_jobs (note_answer db now jid job r s))) (xs @ ys)"
    by (rule awaited_frame [OF a t]) simp
  then have "awaited_ok (inner (cs_jobs (note_answer db now jid job r s))) (xs @ (jid, after_answer left r) # ys)"
    by (rule awaited_phase) (simp add: after_answer_def split: if_splits)
  moreover have "registry_inv (inner (cs_jobs (note_answer db now jid job r s)))"
    using note_answer_step registry_step_inv cs_answer.prems by (metis callback_inv_def)
  ultimately show ?case using tasks_ok_phase [OF t] by (simp add: callback_inv_def)
next
  case (cs_finish s xs jid ys)
  have t: "tasks_ok (cs_dispatcher s) (xs @ (jid, Returned) # ys)"
    and a: "awaited_ok (inner (cs_jobs s)) (xs @ (jid, Returned) # ys)"
    using cs_finish by (auto simp: callback_inv_def)
  have "awaited_ok (inner (cs_jobs s)) (xs @ ys)" by (rule awaited_frame [OF a t]) simp
  then show ?case using tasks_ok_finish [OF t] cs_finish.prems by (simp add: callback_inv_def)
qed

lemma callback_start_inv: "callback_start s \<Longrightarrow> callback_inv s"
  by (simp add: callback_start_def callback_inv_def tasks_ok_def awaited_ok_def dispatcher_default_def)

interpretation cb: invariant_system callback_start "callback_step quota" callback_inv for quota
  by unfold_locales (auto intro: callback_start_inv callback_inv_step)

section \<open>The protocol of one job's callback\<close>

text \<open>Nothing is owed yet; the job has ended and no notice is wanted; a notice is owed, after so many
  attempts; attempt \<open>n\<close> is on its way; the receiver has accepted it; the job is forgotten.\<close>

datatype notice = Quiet | Unwanted | Owed nat | Posted nat | Accepted | Closed

datatype notice_event = N_Post nat | N_Accept | N_Refuse

inductive notice_step :: "notice \<Rightarrow> notice_event option \<Rightarrow> notice \<Rightarrow> bool" where
  n_owe: "notice_step Quiet None (Owed 0)"
| n_post: "notice_step (Owed n) (Some (N_Post (Suc n))) (Posted (Suc n))"
| n_lost: "notice_step (Owed n) None (Owed (Suc n))"
| n_accept: "notice_step (Posted n) (Some N_Accept) Accepted"
| n_refuse: "notice_step (Posted n) (Some N_Refuse) (Owed n)"
| n_skip: "notice_step Quiet None Unwanted"
| n_close: "x \<in> {Quiet, Unwanted, Accepted} \<Longrightarrow> notice_step x None Closed"

inductive_simps notice_step_simps [simp]:
  "notice_step Quiet e y" "notice_step Unwanted e y" "notice_step (Owed n) e y" "notice_step (Posted n) e y"
  "notice_step Accepted e y" "notice_step Closed e y"

definition callback_attempts :: "'v job_record \<Rightarrow> nat" where
  "callback_attempts job = (case job_callback job of None \<Rightarrow> 0 | Some cb \<Rightarrow> cb_attempts cb)"

definition id_used :: "'v job_registry_inner \<Rightarrow> string \<Rightarrow> bool" where
  "id_used i k \<longleftrightarrow> (\<exists>n. 1 \<le> n \<and> n \<le> next_id i \<and> k = job_id_of n)"

definition awaited :: "(string \<times> 'v task_phase) list \<Rightarrow> string \<Rightarrow> bool" where
  "awaited tasks k \<longleftrightarrow> (\<exists>left url job. (k, Awaiting left url job) \<in> set tasks)"

definition notice_of_job :: "bool \<Rightarrow> 'v job_record \<Rightarrow> notice" where
  "notice_of_job sent job =
     (if \<not> is_terminal (job_status job) then Quiet
      else case job_callback job of
        None \<Rightarrow> Unwanted
      | Some cb \<Rightarrow>
          (case cb_status cb of
             Delivered \<Rightarrow> Accepted
           | Pending \<Rightarrow> if sent then Posted (cb_attempts cb) else Owed (cb_attempts cb)))"

definition notice_of_entry :: "bool \<Rightarrow> bool \<Rightarrow> 'v job_record option \<Rightarrow> notice" where
  "notice_of_entry used sent x =
     (case x of None \<Rightarrow> if used then Closed else Quiet | Some job \<Rightarrow> notice_of_job sent job)"

definition notice_of :: "string \<Rightarrow> ('v, 's) callback_system \<Rightarrow> notice" where
  "notice_of k s = notice_of_entry (id_used (inner (cs_jobs s)) k) (awaited (cs_tasks s) k) (jobs (inner (cs_jobs s)) k)"

definition notice_event_of :: "string \<Rightarrow> 'v callback_event \<Rightarrow> notice_event option" where
  "notice_event_of k e =
     (case e of
        Ce_Post jid url job \<Rightarrow> if jid = k then Some (N_Post (callback_attempts job)) else None
      | Ce_Answer jid ok \<Rightarrow> if jid = k then Some (if ok then N_Accept else N_Refuse) else None
      | _ \<Rightarrow> None)"

section \<open>Every step of the system is a step of the protocol\<close>

lemma untouched_notice:
  assumes "job_change c x y" "c = Untouched"
    and "\<And>job. x = Some job \<Longrightarrow> job_ok job \<and> used"
    and "sent \<Longrightarrow> \<exists>job. x = Some job \<and> is_terminal (job_status job)"
    and "used \<Longrightarrow> used'" and "x = None \<Longrightarrow> used \<Longrightarrow> y = None"
  shows "notice_of_entry used' sent y = notice_of_entry used sent x \<or>
    notice_step (notice_of_entry used sent x) None (notice_of_entry used' sent y)"
  using assms
proof (induction rule: job_change.induct)
  case (change_prune now policy job)
  then show ?case
    by (auto simp: notice_of_entry_def notice_of_job_def prunable_def has_pending_callback_def
        callback_delivered_def job_ok_def callback_ok_def split: option.splits job_callback_status.splits if_splits)
next
  case (change_expire now job)
  then have job: "job_status job = Running" "job_callback job = None" "\<not> sent"
    by (auto simp: is_expired_def job_ok_def callback_ok_def split: option.splits)
  then show ?case
    by (auto simp: notice_of_entry_def notice_of_job_def expire_job_def requeue_job_def fail_job_def
        expired_attempt_def failed_attempt_def prepare_callback_def callback_delivered_def fresh_callback_def Let_def
        split: option.split)
qed (auto simp: notice_of_entry_def notice_of_job_def claim_job_def completed_job_def requeue_job_def
    fail_job_def cancelled_job_def failed_attempt_def prepare_callback_def callback_delivered_def
    fresh_callback_def Let_def job_ok_def callback_ok_def split: option.splits)

lemma id_used_mono:
  "ids_kept i i' \<or> id_added i i' \<Longrightarrow> id_used i k \<Longrightarrow> id_used i' k"
  by (auto simp: ids_kept_def id_added_def id_used_def intro: le_SucI)

lemma id_used_gone:
  assumes "ids_kept i i' \<or> id_added i i'" "id_used i k" "jobs i k = None"
  shows "jobs i' k = None"
proof -
  have "k \<noteq> job_id_of (Suc (next_id i))" using assms(2) by (auto simp: id_used_def)
  moreover have "dom (jobs i') \<subseteq> insert (job_id_of (Suc (next_id i))) (dom (jobs i))"
    using assms(1) unfolding ids_kept_def id_added_def by blast
  moreover have "k \<notin> dom (jobs i)" using assms(3) by (simp add: domIff)
  ultimately have "k \<notin> dom (jobs i')" by blast
  then show ?thesis by (simp add: domIff)
qed

lemma stored_used:
  assumes "registry_inv i" "jobs i k = Some job" shows "id_used i k"
proof -
  from registry_invD(2) [OF assms(1)] obtain ns
    where "job_order i = map job_id_of ns" "\<forall>n \<in> set ns. 1 \<le> n \<and> n \<le> next_id i"
    unfolding order_ok_def by blast
  then show ?thesis using inv_in_order [OF assms] by (auto simp: id_used_def)
qed

lemma id_used_kept: "ids_kept i i' \<Longrightarrow> id_used i' k = id_used i k"
  by (simp add: ids_kept_def id_used_def)

lemma call_notice:
  assumes inv: "callback_inv s" and step: "registry_step (cs_jobs s) e reg" "foreground e"
  shows "notice_of k (s\<lparr>cs_jobs := reg\<rparr>) = notice_of k s \<or>
    notice_step (notice_of k s) None (notice_of k (s\<lparr>cs_jobs := reg\<rparr>))"
proof -
  let ?i = "inner (cs_jobs s)"
  have r: "registry_inv ?i" and a: "awaited_ok ?i (cs_tasks s)" using inv by (simp_all add: callback_inv_def)
  note ids = step_ids [OF step(1) r]
  have "notice_of_entry (id_used (inner reg) k) (awaited (cs_tasks s) k) (jobs (inner reg) k) =
      notice_of_entry (id_used ?i k) (awaited (cs_tasks s) k) (jobs ?i k) \<or>
    notice_step (notice_of_entry (id_used ?i k) (awaited (cs_tasks s) k) (jobs ?i k)) None
      (notice_of_entry (id_used (inner reg) k) (awaited (cs_tasks s) k) (jobs (inner reg) k))"
  proof (rule untouched_notice [OF step_job_change [OF step(1) r, of k] foreground_use [OF step(2)]])
    show "job_ok job \<and> id_used ?i k" if "jobs ?i k = Some job" for job
      using inv_job(2) [OF r that] stored_used [OF r that] by simp
    show "\<exists>job. jobs ?i k = Some job \<and> is_terminal (job_status job)" if "awaited (cs_tasks s) k"
      using that awaited_okD [OF a] unfolding awaited_def by blast
  qed (use id_used_mono [OF ids] id_used_gone [OF ids] in auto)
  then show ?thesis by (simp add: notice_of_def)
qed

lemma awaited_simps [simp]:
  "awaited [] k = False"
  "awaited ((jid, ph) # ts) k \<longleftrightarrow> (jid = k \<and> (\<exists>left url job. ph = Awaiting left url job)) \<or> awaited ts k"
  "awaited (xs @ ys) k \<longleftrightarrow> awaited xs k \<or> awaited ys k"
  by (auto simp: awaited_def)

lemma not_awaited_twice:
  "tasks_ok d (xs @ (jid, ph) # ys) \<Longrightarrow> \<not> awaited xs jid \<and> \<not> awaited ys jid"
  using tasks_ok_other unfolding awaited_def by fast

lemma begin_cases:
  obtains (unchanged) "begin_callback_attempt db now jid reg = (reg, None)"
  | (begun) job cb job' reg' r where "jobs (inner reg) jid = Some job" "is_terminal (job_status job)"
      "callback_url job \<noteq> None" "job_callback job = Some cb" "cb_status cb = Pending"
      "job' = job\<lparr>job_callback := Some (cb\<lparr>cb_attempts := cb_attempts cb + 1, cb_last_attempt_at := Some now\<rparr>)\<rparr>"
      "begin_callback_attempt db now jid reg = (reg', r)" "r \<in> {None, Some job'}"
      "jobs (inner reg') = (jobs (inner reg))(jid \<mapsto> job')" "ids_kept (inner reg) (inner reg')"
proof (cases "jobs (inner reg) jid")
  case (Some job)
  show thesis
  proof (cases "callback_url job \<noteq> None \<and> is_terminal (job_status job) \<and> callback_pending job")
    case True
    then obtain cb where cb: "job_callback job = Some cb" "cb_status cb = Pending"
      by (auto simp: callback_pending_def split: option.splits)
    let ?job = "job\<lparr>job_callback := Some (cb\<lparr>cb_attempts := cb_attempts cb + 1, cb_last_attempt_at := Some now\<rparr>)\<rparr>"
    let ?c = "commit db reg (put_job jid ?job (inner reg)) (Some ?job) (\<lambda>_. None)"
    have eq: "begin_callback_attempt db now jid reg = ?c"
      using Some True cb by (auto simp: begin_callback_attempt_def Let_def)
    show thesis
      by (rule begun [OF Some _ _ cb, of ?job "fst ?c" "snd ?c"])
        (use True Some commit_result_cases [of db reg "put_job jid ?job (inner reg)" "Some ?job" "\<lambda>_. None"] eq
          in \<open>auto\<close>)
  qed (use unchanged Some in \<open>auto simp: begin_callback_attempt_def callback_pending_def split: option.splits\<close>)
qed (use unchanged in \<open>simp add: begin_callback_attempt_def\<close>)

lemma callback_attempts_simps [simp]:
  "callback_attempts (job\<lparr>job_callback := Some cb\<rparr>) = cb_attempts cb"
  by (simp add: callback_attempts_def)

lemma notice_frame:
  assumes "jobs (inner (cs_jobs t)) k = jobs (inner (cs_jobs s)) k" "ids_kept (inner (cs_jobs s)) (inner (cs_jobs t))"
    and "awaited (cs_tasks t) k = awaited (cs_tasks s) k"
  shows "notice_of k t = notice_of k s"
  using assms by (simp add: notice_of_def id_used_kept)

lemma notice_of_stored:
  "jobs (inner (cs_jobs s)) k = Some job \<Longrightarrow> notice_of k s = notice_of_job (awaited (cs_tasks s) k) job"
  by (simp add: notice_of_def notice_of_entry_def)

lemma post_notice:
  assumes t: "tasks_ok d (cs_tasks s)" and tasks: "cs_tasks s = xs @ (jid, Attempting (Suc left)) # ys"
    and c: "begin_callback_attempt db now jid (cs_jobs s) = (reg, Some job)"
  shows "\<exists>n. notice_of jid s = Owed n \<and> callback_attempts job = Suc n \<and>
    notice_of jid (s\<lparr>cs_jobs := reg, cs_tasks := xs @ (jid, Awaiting left url job) # ys\<rparr>) = Posted (Suc n)"
proof (cases rule: begin_cases [of db now jid "cs_jobs s"])
  case (begun job0 cb job' reg' r)
  have na: "\<not> awaited xs jid \<and> \<not> awaited ys jid" by (rule not_awaited_twice [OF t [unfolded tasks]])
  have j: "job = job'" "reg = reg'" using begun(7,8) c by auto
  have "notice_of jid s = Owed (cb_attempts cb)"
    using begun(1-5) na by (simp add: notice_of_stored notice_of_job_def tasks)
  moreover have "jobs (inner reg) jid = Some job" using begun(9) j by simp
  ultimately show ?thesis
    using begun(2,5,6) j na by (simp add: notice_of_stored notice_of_job_def)
qed (use c in simp)

lemma stop_notice:
  assumes t: "tasks_ok d (cs_tasks s)" and tasks: "cs_tasks s = xs @ (jid, Attempting (Suc left)) # ys"
    and c: "begin_callback_attempt db now jid (cs_jobs s) = (reg, r)"
  defines "u \<equiv> s\<lparr>cs_jobs := reg, cs_tasks := xs @ (jid, Returned) # ys\<rparr>"
  shows "notice_of jid u = notice_of jid s \<or> notice_step (notice_of jid s) None (notice_of jid u)"
proof (cases rule: begin_cases [of db now jid "cs_jobs s"])
  case unchanged
  then have "notice_of jid u = notice_of jid s" using c by (intro notice_frame) (auto simp: u_def tasks)
  then show ?thesis ..
next
  case (begun job0 cb job' reg' r')
  have na: "\<not> awaited xs jid \<and> \<not> awaited ys jid" by (rule not_awaited_twice [OF t [unfolded tasks]])
  have "notice_of jid s = Owed (cb_attempts cb)"
    using begun(1-5) na by (simp add: notice_of_stored notice_of_job_def tasks)
  moreover have "jobs (inner reg) jid = Some job'" using begun(7,9) c by simp
  then have "notice_of jid u = Owed (Suc (cb_attempts cb))"
    using begun(2,5,6) na by (simp add: notice_of_stored notice_of_job_def u_def)
  ultimately show ?thesis by simp
qed

lemma success_jobs:
  assumes "jobs (inner reg) jid = Some job" "job_callback job = Some cb"
  shows "\<exists>cb'. jobs (inner (fst (record_callback_success db now jid st reg))) jid = Some (job\<lparr>job_callback := Some cb'\<rparr>) \<and>
    cb_status cb' = Delivered"
  using assms by (auto simp: record_callback_success_def Let_def)

lemma failure_jobs:
  assumes "jobs (inner reg) jid = Some job" "job_callback job = Some cb" "cb_status cb = Pending"
  shows "\<exists>cb'. jobs (inner (fst (record_callback_failure db jid st e reg))) jid = Some (job\<lparr>job_callback := Some cb'\<rparr>) \<and>
    cb_status cb' = Pending \<and> cb_attempts cb' = cb_attempts cb"
  using assms by (auto simp: record_callback_failure_def Let_def)

lemma note_answer_jobs:
  assumes "jobs (inner (cs_jobs s)) jid = Some job" "job_callback job = Some cb" "cb_status cb = Pending"
  shows "\<exists>cb'. jobs (inner (cs_jobs (note_answer db now jid job r s))) jid = Some (job\<lparr>job_callback := Some cb'\<rparr>) \<and>
    cb_status cb' = (if send_ok r then Delivered else Pending) \<and> (send_ok r \<or> cb_attempts cb' = cb_attempts cb)"
proof (cases r)
  case (Responded st ok)
  then show ?thesis
    using success_jobs [OF assms(1,2)] failure_jobs [OF assms]
    by (cases ok) (simp_all add: note_answer_def note_refusal_def send_ok_def)
qed (use failure_jobs [OF assms] in \<open>simp_all add: note_answer_def note_refusal_def send_ok_def\<close>)

lemma answer_notice:
  assumes t: "tasks_ok d (cs_tasks s)" and a: "awaited_ok (inner (cs_jobs s)) (cs_tasks s)"
    and tasks: "cs_tasks s = xs @ (jid, Awaiting left url job) # ys"
  shows "\<exists>n. notice_of jid s = Posted n \<and>
    notice_of jid ((note_answer db now jid job r s)\<lparr>cs_tasks := xs @ (jid, after_answer left r) # ys\<rparr>) =
      (if send_ok r then Accepted else Owed n)"
proof -
  have na: "\<not> awaited xs jid \<and> \<not> awaited ys jid" by (rule not_awaited_twice [OF t [unfolded tasks]])
  have "(jid, Awaiting left url job) \<in> set (cs_tasks s)" by (simp add: tasks)
  note job = awaited_okD [OF a this]
  from job(4) obtain cb where cb: "job_callback job = Some cb" "cb_status cb = Pending"
    by (auto simp: callback_pending_def split: option.splits)
  then have "notice_of jid s = Posted (cb_attempts cb)"
    using job by (simp add: notice_of_stored notice_of_job_def tasks)
  moreover obtain cb' where cb': "jobs (inner (cs_jobs (note_answer db now jid job r s))) jid = Some (job\<lparr>job_callback := Some cb'\<rparr>)"
    "cb_status cb' = (if send_ok r then Delivered else Pending)" "send_ok r \<or> cb_attempts cb' = cb_attempts cb"
    using note_answer_jobs [OF job(1) cb] by blast
  have "\<not> awaited (xs @ (jid, after_answer left r) # ys) jid" using na by (simp add: after_answer_def)
  with cb' have "notice_of jid ((note_answer db now jid job r s)\<lparr>cs_tasks := xs @ (jid, after_answer left r) # ys\<rparr>) =
      (if send_ok r then Accepted else Owed (cb_attempts cb))"
    using job(3) by (auto simp: notice_of_stored notice_of_job_def)
  ultimately show ?thesis by blast
qed

lemma note_answer_ids [simp]:
  "ids_kept (inner (cs_jobs s)) (inner (cs_jobs (note_answer db now jid job r s)))"
  by (auto simp: note_answer_def note_refusal_def callback_ids split: send_result.split)

lemma notice_sim:
  "callback_step quota s e t \<Longrightarrow> callback_inv s \<Longrightarrow>
     notice_of k t = notice_of k s \<and> notice_event_of k e = None \<or>
     notice_step (notice_of k s) (notice_event_of k e) (notice_of k t)"
proof (induction rule: callback_step.induct)
  case (cs_call s e reg)
  then show ?case using call_notice [of s e reg k] by (auto simp: notice_event_of_def)
next
  case (cs_counters s m)
  have "notice_of k (s\<lparr>cs_metrics := m\<rparr>) = notice_of k s" by (rule notice_frame) simp_all
  then show ?case by (simp add: notice_event_of_def)
next
  case (cs_dispatch s jid)
  have "notice_of k (dispatch_task quota jid s) = notice_of k s"
    by (rule notice_frame) (auto simp: dispatch_task_def)
  then show ?case by (simp add: notice_event_of_def)
next
  case (cs_post s xs jid left ys db now reg job url)
  have t: "tasks_ok (cs_dispatcher s) (cs_tasks s)" using cs_post.prems by (simp add: callback_inv_def)
  show ?case
  proof (cases "k = jid")
    case True
    then show ?thesis
      using post_notice [OF t cs_post.hyps(1,2), of url] by (auto simp: notice_event_of_def)
  next
    case False
    have "notice_of k (s\<lparr>cs_jobs := reg, cs_tasks := xs @ (jid, Awaiting left url job) # ys\<rparr>) = notice_of k s"
      using False begin_frame [OF cs_post.hyps(2)] cs_post.hyps(1) by (intro notice_frame) simp_all
    then show ?thesis using False by (simp add: notice_event_of_def)
  qed
next
  case (cs_stop s xs jid left ys db now reg r)
  have t: "tasks_ok (cs_dispatcher s) (cs_tasks s)" using cs_stop.prems by (simp add: callback_inv_def)
  show ?case
  proof (cases "k = jid")
    case True
    then show ?thesis
      using stop_notice [OF t cs_stop.hyps(1,2)] by (auto simp: notice_event_of_def)
  next
    case False
    have "notice_of k (s\<lparr>cs_jobs := reg, cs_tasks := xs @ (jid, Returned) # ys\<rparr>) = notice_of k s"
      using False begin_frame [OF cs_stop.hyps(2)] cs_stop.hyps(1) by (intro notice_frame) simp_all
    then show ?thesis by (simp add: notice_event_of_def)
  qed
next
  case (cs_answer s xs jid left url job ys r db now)
  have inv: "tasks_ok (cs_dispatcher s) (cs_tasks s)" "awaited_ok (inner (cs_jobs s)) (cs_tasks s)"
    using cs_answer.prems by (simp_all add: callback_inv_def)
  show ?case
  proof (cases "k = jid")
    case True
    obtain n where "notice_of jid s = Posted n"
      "notice_of jid ((note_answer db now jid job r s)\<lparr>cs_tasks := xs @ (jid, after_answer left r) # ys\<rparr>) =
        (if send_ok r then Accepted else Owed n)"
      using answer_notice [OF inv cs_answer.hyps(1)] by blast
    then show ?thesis using True by (simp add: notice_event_of_def)
  next
    case False
    have "notice_of k ((note_answer db now jid job r s)\<lparr>cs_tasks := xs @ (jid, after_answer left r) # ys\<rparr>) = notice_of k s"
      using False cs_answer.hyps(1) by (intro notice_frame) simp_all
    then show ?thesis using False by (simp add: notice_event_of_def)
  qed
next
  case (cs_finish s xs jid ys)
  have "notice_of k (s\<lparr>cs_dispatcher := finish_task jid (cs_dispatcher s), cs_tasks := xs @ ys\<rparr>) = notice_of k s"
    using cs_finish.hyps by (intro notice_frame) simp_all
  then show ?case by (simp add: notice_event_of_def)
qed

interpretation nt: simulation callback_start "callback_step quota" callback_inv notice_step
  "notice_of k" "notice_event_of k" for quota k
  by unfold_locales (rule notice_sim)

section \<open>What the receiver of a callback sees\<close>

definition refused :: "nat list \<Rightarrow> notice_event list" where
  "refused ns = concat (map (\<lambda>n. [N_Post n, N_Refuse]) ns)"

lemma refused_simps [simp]:
  "refused [] = []" "refused (ns @ [n]) = refused ns @ [N_Post n, N_Refuse]"
  "N_Accept \<notin> set (refused ns)"
  by (auto simp: refused_def)

fun log_at :: "notice \<Rightarrow> notice_event list \<Rightarrow> bool" where
  "log_at Quiet l = (l = [])"
| "log_at Unwanted l = (l = [])"
| "log_at (Owed n) l = (\<exists>ns. l = refused ns \<and> sorted_wrt (<) ns \<and> (\<forall>m \<in> set ns. 0 < m \<and> m \<le> n))"
| "log_at (Posted n) l =
     (\<exists>ns. l = refused ns @ [N_Post n] \<and> sorted_wrt (<) ns \<and> (\<forall>m \<in> set ns. 0 < m \<and> m < n) \<and> 0 < n)"
| "log_at Accepted l =
     (\<exists>ns n. l = refused ns @ [N_Post n, N_Accept] \<and> sorted_wrt (<) ns \<and> (\<forall>m \<in> set ns. 0 < m \<and> m < n) \<and> 0 < n)"
| "log_at Closed l = (l = [] \<or>
     (\<exists>ns n. l = refused ns @ [N_Post n, N_Accept] \<and> sorted_wrt (<) ns \<and> (\<forall>m \<in> set ns. 0 < m \<and> m < n) \<and> 0 < n))"

lemma log_step: "notice_step x e y \<Longrightarrow> log_at x l \<Longrightarrow> log_at y (l @ (case e of None \<Rightarrow> [] | Some o1 \<Rightarrow> [o1]))"
proof (induction rule: notice_step.induct)
  case (n_owe)
  then show ?case by (auto intro: exI [of _ "[]"])
next
  case (n_post n)
  then show ?case by (auto simp: less_Suc_eq_le)
next
  case (n_lost n)
  then show ?case by (auto simp: le_Suc_eq)
next
  case (n_accept n)
  then show ?case by auto
next
  case (n_refuse n)
  then obtain ns where ns: "l = refused ns @ [N_Post n]" "sorted_wrt (<) ns" "\<forall>m \<in> set ns. 0 < m \<and> m < n" "0 < n"
    by auto
  then show ?case
    by (auto simp: sorted_wrt_append less_imp_le intro!: exI [of _ "ns @ [n]"])
next
  case (n_skip)
  then show ?case by simp
next
  case (n_close x)
  then show ?case by auto
qed

lemma log_run: "run notice_step x os y \<Longrightarrow> x = Quiet \<Longrightarrow> log_at y (observed (\<lambda>x. x) os)"
proof (induction rule: run.induct)
  case (run_snoc x os y e z)
  then show ?case using log_step [OF run_snoc.hyps(2), of "observed (\<lambda>x. x) os"] by (simp split: option.splits)
qed simp

lemma start_quiet: "started (cs_jobs s) \<Longrightarrow> notice_of k s = Quiet"
  by (simp add: notice_of_def notice_of_entry_def started_def inner_default_def
      id_used_def)

section \<open>Calls of the rest of the program\<close>

definition foreground_run :: "('v, 's) job_registry \<Rightarrow> ('v, 's) job_registry \<Rightarrow> bool" where
  "foreground_run reg reg' \<longleftrightarrow> (\<exists>es. registry_run reg es reg' \<and> (\<forall>e \<in> set es. foreground e))"

lemma registry_run_trans: "registry_run reg' fs reg'' \<Longrightarrow> registry_run reg es reg' \<Longrightarrow> registry_run reg (es @ fs) reg''"
proof (induction rule: registry_run.induct)
  case (run_step reg' fs reg1 e reg2)
  then show ?case using registry_run.run_step [of reg "es @ fs" reg1 e reg2] by simp
qed simp

lemma foreground_refl [simp, intro]: "foreground_run reg reg"
  unfolding foreground_run_def using run_start by fastforce

lemma foreground_trans: "foreground_run reg reg' \<Longrightarrow> foreground_run reg' reg'' \<Longrightarrow> foreground_run reg reg''"
  unfolding foreground_run_def using registry_run_trans by (metis UnE set_append)

lemma foreground_step: "registry_step reg e reg' \<Longrightarrow> foreground e \<Longrightarrow> foreground_run reg reg'"
  unfolding foreground_run_def using run_step [OF run_start, of reg e reg'] by fastforce

lemma foreground_calls [intro]:
  "submit db now request reg = (reg', r) \<Longrightarrow> foreground_run reg reg'"
  "claim_next_for_worker_in_pool db now w kinds pool policy d reg = (reg', c) \<Longrightarrow> foreground_run reg reg'"
  "renew_lease db now jid w d reg = (reg', r1) \<Longrightarrow> foreground_run reg reg'"
  "complete_lease db now jid w att result reg = (reg', r2) \<Longrightarrow> foreground_run reg reg'"
  "fail_lease db now jid w att failure reg = (reg', r2) \<Longrightarrow> foreground_run reg reg'"
  "cancel db now jid reg = (reg', r3) \<Longrightarrow> foreground_run reg reg'"
  "requeue_expired_leases db now reg = (reg', report) \<Longrightarrow> foreground_run reg reg'"
  "prune_terminal_jobs db now reg = (reg', pruned) \<Longrightarrow> foreground_run reg reg'"
  by (cases c; force intro: foreground_step registry_step.intros)+

lemma foreground_inv: "foreground_run reg reg' \<Longrightarrow> registry_inv (inner reg) \<Longrightarrow> registry_inv (inner reg')"
  unfolding foreground_run_def by (blast intro: registry_run_inv)

text \<open>Such calls and any number of dispatches are a run of the system that shows nothing.\<close>

lemma registry_run_calls:
  "registry_run reg es reg' \<Longrightarrow> \<forall>e \<in> set es. foreground e \<Longrightarrow> cs_jobs s = reg \<Longrightarrow>
     \<exists>fs. run (callback_step quota) s fs (s\<lparr>cs_jobs := reg'\<rparr>) \<and> set fs \<subseteq> {Ce_Other}"
proof (induction rule: registry_run.induct)
  case (run_start reg)
  then have "s\<lparr>cs_jobs := reg\<rparr> = s" by (cases s) simp
  then show ?case using run_nil [of "callback_step quota" s] by (intro exI [of _ "[]"]) simp
next
  case (run_step reg es reg' e reg'')
  then obtain fs where fs: "run (callback_step quota) s fs (s\<lparr>cs_jobs := reg'\<rparr>)" "set fs \<subseteq> {Ce_Other}" by auto
  have "callback_step quota (s\<lparr>cs_jobs := reg'\<rparr>) Ce_Other (s\<lparr>cs_jobs := reg''\<rparr>)"
    using cs_call [of "s\<lparr>cs_jobs := reg'\<rparr>" e reg'' quota] run_step by simp
  with fs(1) have "run (callback_step quota) s (fs @ [Ce_Other]) (s\<lparr>cs_jobs := reg''\<rparr>)" by (rule run_snoc)
  then show ?case using fs(2) by (intro exI [of _ "fs @ [Ce_Other]"]) simp
qed

lemma foreground_system_run:
  assumes "foreground_run (cs_jobs s) reg'"
  obtains fs where "run (callback_step quota) s fs (s\<lparr>cs_jobs := reg'\<rparr>)" "set fs \<subseteq> {Ce_Other}"
  using assms registry_run_calls [of "cs_jobs s" _ reg' s quota] unfolding foreground_run_def by blast

lemma dispatch_tasks_run:
  "\<exists>es. run (callback_step quota) s es (fold (dispatch_task quota) js s) \<and> set es \<subseteq> {Ce_Other}"
proof (induction js arbitrary: s)
  case (Cons j js)
  obtain es where "run (callback_step quota) (dispatch_task quota j s) es (fold (dispatch_task quota) (j # js) s)"
      "set es \<subseteq> {Ce_Other}"
    using Cons.IH [of "dispatch_task quota j s"] by auto
  then show ?case using run_trans run_one [where step = "callback_step quota", OF cs_dispatch] by fastforce
qed (auto intro: run_nil)

end
