(* ===== verification/Server_Steps.thy ===== *)
theory Server_Steps
  imports Server Callback_Steps Api_Ledger
begin

text \<open>
  The async half of the running server as one transition system: the handlers of the API, the
  background loops that \<open>main\<close> spawns and the delivery tasks, each turn of them one step, in any
  order. Every step is shown to be a run of the callback system of \<open>Callback_Steps\<close> and, when the
  store accepts the writes, of the ledger of \<open>Accounting\<close>, so that the invariants of both hold of
  the server.
\<close>

section \<open>Steps\<close>

record ('v, 's) server =
  sv_async :: "('v, 's) async_state"
  sv_tasks :: "(string \<times> 'v task_phase) list"

datatype 'v server_event =
    Se_Api "'v api_call" "'v response"
  | Se_Sweep
  | Se_Prune
  | Se_Recover
  | Se_Task "'v callback_event"

text \<open>A handler or loop that dispatched callbacks leaves a task for every id it put in flight.\<close>

definition spawned :: "nat \<Rightarrow> callback_dispatcher \<Rightarrow> callback_dispatcher \<Rightarrow> (string \<times> 'v task_phase) list" where
  "spawned quota d d' =
     map (\<lambda>jid. (jid, Attempting (max quota 1))) (drop (length (disp_tasks d)) (disp_tasks d'))"

definition moved :: "nat \<Rightarrow> ('v, 's) server \<Rightarrow> ('v, 's) async_state \<Rightarrow> ('v, 's) server" where
  "moved quota s st =
     s\<lparr>sv_async := st, sv_tasks := sv_tasks s @ spawned quota (st_dispatcher (sv_async s)) (st_dispatcher st)\<rparr>"

definition callbacks_of :: "('v, 's) server \<Rightarrow> ('v, 's) callback_system" where
  "callbacks_of s =
     \<lparr>cs_jobs = st_jobs (sv_async s), cs_dispatcher = st_dispatcher (sv_async s),
      cs_metrics = st_metrics (sv_async s), cs_tasks = sv_tasks s\<rparr>"

definition with_callbacks :: "('v, 's) callback_system \<Rightarrow> ('v, 's) server \<Rightarrow> ('v, 's) server" where
  "with_callbacks c s =
     s\<lparr>sv_async := (sv_async s)\<lparr>st_jobs := cs_jobs c, st_dispatcher := cs_dispatcher c, st_metrics := cs_metrics c\<rparr>,
       sv_tasks := cs_tasks c\<rparr>"

text \<open>One turn of each loop, after its sleep: \<open>spawn_lease_recovery_loop\<close> and
  \<open>spawn_job_pruning_loop\<close> of \<open>scheduler.rs\<close>, \<open>spawn_callback_recovery_loop\<close> of \<open>callbacks.rs\<close>.\<close>

definition lease_recovery_turn :: "nat \<Rightarrow> ('v, 's) call_env \<Rightarrow> ('v, 's) server \<Rightarrow> ('v, 's) server" where
  "lease_recovery_turn quota env s = moved quota s (sweep_expired_leases env 0 (sv_async s))"

definition job_pruning_turn :: "nat \<Rightarrow> ('v, 's) call_env \<Rightarrow> ('v, 's) server \<Rightarrow> ('v, 's) server" where
  "job_pruning_turn quota env s = moved quota s (fst (prune_jobs_of env 0 (sv_async s)))"

definition callback_recovery_turn :: "nat \<Rightarrow> ('v, 's) server \<Rightarrow> ('v, 's) server" where
  "callback_recovery_turn quota s =
     moved quota s ((sv_async s)\<lparr>st_dispatcher :=
       dispatch_pending_callbacks (st_jobs (sv_async s)) (st_dispatcher (sv_async s))\<rparr>)"

text \<open>\<open>strict\<close>: the store accepts every write of the handlers and loops.\<close>

definition allowed :: "bool \<Rightarrow> ('v, 's) call_env \<Rightarrow> bool" where
  "allowed strict env \<longleftrightarrow> strict \<longrightarrow> env_store_ok env"

inductive server_step ::
  "bool \<Rightarrow> nat \<Rightarrow> ('v, 's) server \<Rightarrow> 'v server_event \<Rightarrow> ('v, 's) server \<Rightarrow> bool"
  for strict :: bool and quota :: nat where
  sv_api:
    "allowed strict env \<Longrightarrow> api_run env call (sv_async s) = (st, resp) \<Longrightarrow>
     server_step strict quota s (Se_Api call resp) (moved quota s st)"
| sv_sweep:
    "allowed strict env \<Longrightarrow> server_step strict quota s Se_Sweep (lease_recovery_turn quota env s)"
| sv_prune:
    "allowed strict env \<Longrightarrow> server_step strict quota s Se_Prune (job_pruning_turn quota env s)"
| sv_recover:
    "server_step strict quota s Se_Recover (callback_recovery_turn quota s)"
| sv_task:
    "callback_step quota (callbacks_of s) e c \<Longrightarrow> e \<noteq> Ce_Other \<Longrightarrow>
     server_step strict quota s (Se_Task e) (with_callbacks c s)"

section \<open>Handlers as calls and dispatches\<close>

text \<open>The registry changes by calls that are not those of a delivery, and ids are dispatched.\<close>

definition calls :: "('v, 's) async_state \<Rightarrow> ('v, 's) async_state \<Rightarrow> bool" where
  "calls st st' \<longleftrightarrow> foreground_run (st_jobs st) (st_jobs st') \<and>
     (\<exists>js. st_dispatcher st' = fold dispatch js (st_dispatcher st))"

named_theorems call_intros

lemma calls_refl [call_intros]: "calls st st"
  unfolding calls_def by (auto intro: exI [of _ "[]"])

lemma calls_trans: "calls st st' \<Longrightarrow> calls st' st'' \<Longrightarrow> calls st st''"
  unfolding calls_def by (metis foreground_trans fold_append comp_apply)

lemma calls_frame:
  "calls st st' \<Longrightarrow> st_jobs st'' = st_jobs st' \<Longrightarrow> st_dispatcher st'' = st_dispatcher st' \<Longrightarrow> calls st st''"
  by (simp add: calls_def)

lemma calls_jobs [call_intros]:
  "foreground_run (st_jobs st') reg \<Longrightarrow> calls st st' \<Longrightarrow> calls st (st'\<lparr>st_jobs := reg\<rparr>)"
  unfolding calls_def by (auto intro: foreground_trans)

lemma calls_other [call_intros]:
  "calls st st' \<Longrightarrow> calls st (st'\<lparr>st_workers := wreg\<rparr>)"
  "calls st st' \<Longrightarrow> calls st (st'\<lparr>st_metrics := m\<rparr>)"
  "calls st st' \<Longrightarrow> calls st (release_worker clk w st')"
  by (simp_all add: calls_def release_worker_def)

lemma calls_record [call_intros]:
  "calls st st' \<Longrightarrow> calls st (record_async_pool_selected clk worker job st')"
  "calls st st' \<Longrightarrow> calls st (record_async_pool_no_compatible_job worker st')"
  by (simp_all add: calls_def record_async_pool_selected_def record_async_pool_no_compatible_job_def Let_def)

lemma calls_dispatch [call_intros]: "calls st st' \<Longrightarrow> calls st (dispatch_job jid st')"
  unfolding calls_def dispatch_job_def by (auto intro: exI [of _ "_ @ [jid]"])

lemma calls_fold:
  "(\<And>x st'. calls st st' \<Longrightarrow> calls st (f x st')) \<Longrightarrow> calls st st' \<Longrightarrow> calls st (fold f xs st')"
  by (induction xs arbitrary: st') auto

lemma calls_sweep [call_intros]: "calls st st' \<Longrightarrow> calls st (sweep_expired_leases env n st')"
proof -
  assume c: "calls st st'"
  obtain reg report where sw: "requeue_expired_leases (ce_db env n) (ce_now env n) (st_jobs st') = (reg, report)"
    by fastforce
  have "calls st (fold (release_worker (ce_clock env n)) (released_workers report) (st'\<lparr>st_jobs := reg\<rparr>))"
    by (rule calls_fold) (use c sw in \<open>auto intro!: call_intros\<close>)
  then have "calls st (fold (\<lambda>job. dispatch_job (job_id job)) (failed_jobs report)
      (fold (release_worker (ce_clock env n)) (released_workers report) (st'\<lparr>st_jobs := reg\<rparr>)))"
    by (rule calls_fold [rotated]) (rule calls_dispatch)
  then show ?thesis by (simp add: sweep_expired_leases_def sw Let_def)
qed

lemma calls_prune [call_intros]: "calls st (fst (prune_jobs_of env n st))"
  by (auto simp: prune_jobs_of_def split: prod.split intro!: call_intros)

lemma calls_api:
  "calls st (fst (api_run env call st))"
proof (cases call)
  case (Api_Claim w)
  then show ?thesis
    by (auto simp: claim_worker_job_handler_def Let_def split: prod.split acquire_worker_slot_result.split option.split
        intro!: call_intros)
next
  case (Api_Renew w jid)
  then show ?thesis
    by (auto simp: renew_worker_job_lease_handler_def Let_def split: sum.split prod.split intro!: call_intros)
next
  case (Api_Complete w jid att r)
  then show ?thesis
    by (auto simp: complete_worker_job_handler_def Let_def split: sum.split prod.split finish_job_result.split
        intro!: call_intros)
next
  case (Api_Fail w jid att err retry)
  then show ?thesis
    by (auto simp: fail_worker_job_handler_def Let_def split: sum.split prod.split finish_job_result.split
        intro!: call_intros)
next
  case (Api_Submit request)
  then show ?thesis by (auto simp: submit_job_def split: prod.split sum.split intro!: call_intros)
next
  case (Api_Cancel jid)
  then show ?thesis
    by (auto simp: cancel_job_def Let_def split: prod.split cancel_job_result.split option.split intro!: call_intros)
next
  case Api_Prune
  then show ?thesis using calls_prune [of st env 0] by (auto simp: prune_jobs_def split: prod.split)
next
  case (Api_Register request)
  then show ?thesis by (auto simp: register_worker_def Let_def split: prod.split sum.split intro!: call_intros)
next
  case (Api_Deregister w)
  then show ?thesis
    by (auto simp: deregister_worker_def split: prod.split deregister_worker_result.split intro!: call_intros)
qed (auto simp: heartbeat_worker_def drain_worker_def reactivate_worker_def worker_call_fst intro!: call_intros)

section \<open>Steps of the server are runs of the callback system\<close>

lemma dispatch_tasks_append: "\<exists>xs. disp_tasks (dispatch j d) = disp_tasks d @ xs"
  by (simp add: mark_in_flight_simps)

lemma fold_dispatch_tasks: "\<exists>xs. disp_tasks (fold dispatch js d) = disp_tasks d @ xs"
proof (induction js arbitrary: d)
  case (Cons j js)
  obtain ys where "disp_tasks (dispatch j d) = disp_tasks d @ ys" using dispatch_tasks_append by blast
  moreover obtain xs where "disp_tasks (fold dispatch js (dispatch j d)) = disp_tasks (dispatch j d) @ xs"
    using Cons.IH by blast
  ultimately show ?case by simp
qed simp

lemma dispatch_task_fields [simp]:
  "cs_jobs (dispatch_task quota jid c) = cs_jobs c"
  "cs_dispatcher (dispatch_task quota jid c) = dispatch jid (cs_dispatcher c)"
  "cs_metrics (dispatch_task quota jid c) = cs_metrics c"
  "cs_tasks (dispatch_task quota jid c) = cs_tasks c @ spawned quota (cs_dispatcher c) (dispatch jid (cs_dispatcher c))"
  by (simp_all add: dispatch_task_def spawned_def mark_in_flight_simps mark_in_flight_def)

lemma spawned_append:
  assumes "disp_tasks d' = disp_tasks d @ xs" "disp_tasks d'' = disp_tasks d' @ ys"
  shows "spawned quota d d' @ spawned quota d' d'' = spawned quota d d''"
  using assms by (simp add: spawned_def)

lemma dispatch_fold_system:
  "fold (dispatch_task quota) js c =
     c\<lparr>cs_dispatcher := fold dispatch js (cs_dispatcher c),
       cs_tasks := cs_tasks c @ spawned quota (cs_dispatcher c) (fold dispatch js (cs_dispatcher c))\<rparr>"
proof (induction js arbitrary: c)
  case Nil
  then show ?case by (simp add: spawned_def)
next
  case (Cons j js)
  let ?d = "cs_dispatcher c" and ?d1 = "dispatch j (cs_dispatcher c)"
  obtain xs where "disp_tasks ?d1 = disp_tasks ?d @ xs" using dispatch_tasks_append by blast
  moreover obtain ys where "disp_tasks (fold dispatch js ?d1) = disp_tasks ?d1 @ ys" using fold_dispatch_tasks by blast
  ultimately have eq: "spawned quota ?d ?d1 @ spawned quota ?d1 (fold dispatch js ?d1) = spawned quota ?d (fold dispatch js ?d1)"
    by (rule spawned_append)
  show ?case by (intro callback_system.equality) (simp_all add: Cons.IH eq)
qed

lemma moved_run:
  assumes "calls (sv_async s) st"
  shows "\<exists>es. run (callback_step quota) (callbacks_of s) es (callbacks_of (moved quota s st)) \<and> set es \<subseteq> {Ce_Other}"
proof -
  let ?c = "callbacks_of s"
  obtain js where js: "st_dispatcher st = fold dispatch js (st_dispatcher (sv_async s))"
    and fg: "foreground_run (cs_jobs ?c) (st_jobs st)"
    using assms by (auto simp: calls_def callbacks_of_def)
  obtain es where es: "run (callback_step quota) ?c es (?c\<lparr>cs_jobs := st_jobs st\<rparr>)" "set es \<subseteq> {Ce_Other}"
    using foreground_system_run [OF fg] by blast
  obtain fs where fs: "run (callback_step quota) (?c\<lparr>cs_jobs := st_jobs st\<rparr>) fs
      (fold (dispatch_task quota) js (?c\<lparr>cs_jobs := st_jobs st\<rparr>))" "set fs \<subseteq> {Ce_Other}"
    using dispatch_tasks_run by blast
  have "callback_step quota (fold (dispatch_task quota) js (?c\<lparr>cs_jobs := st_jobs st\<rparr>)) Ce_Other
      (fold (dispatch_task quota) js (?c\<lparr>cs_jobs := st_jobs st\<rparr>)\<lparr>cs_metrics := st_metrics st\<rparr>)"
    by (rule cs_counters)
  moreover have "fold (dispatch_task quota) js (?c\<lparr>cs_jobs := st_jobs st\<rparr>)\<lparr>cs_metrics := st_metrics st\<rparr> =
      callbacks_of (moved quota s st)"
    by (simp add: dispatch_fold_system callbacks_of_def moved_def js)
  ultimately have "run (callback_step quota) ?c ((es @ fs) @ [Ce_Other]) (callbacks_of (moved quota s st))"
    using run_snoc [where step = "callback_step quota", OF run_trans [OF fs(1) es(1)]] by simp
  then show ?thesis using es(2) fs(2) by (intro exI [of _ "(es @ fs) @ [Ce_Other]"]) simp
qed

lemma callbacks_of_with [simp]: "callbacks_of (with_callbacks c s) = c"
  by (simp add: callbacks_of_def with_callbacks_def)

fun task_event :: "'v server_event \<Rightarrow> 'v callback_event option" where
  "task_event (Se_Task e) = Some e"
| "task_event _ = None"

lemma server_step_moved:
  assumes "server_step strict quota s e t"
  obtains (turn) st where "task_event e = None" "t = moved quota s st" "calls (sv_async s) st"
  | (task) c ce where "e = Se_Task ce" "t = with_callbacks c s" "callback_step quota (callbacks_of s) ce c" "ce \<noteq> Ce_Other"
  using assms
proof cases
  case (sv_api env call st resp)
  then show thesis using turn [of st] calls_api [of "sv_async s" env call] by simp
next
  case (sv_sweep env)
  show thesis by (rule turn [OF _ sv_sweep(2) [unfolded lease_recovery_turn_def]]) (simp_all add: sv_sweep(1) calls_sweep calls_refl)
next
  case (sv_prune env)
  show thesis by (rule turn [OF _ sv_prune(2) [unfolded job_pruning_turn_def]]) (simp_all add: sv_prune(1) calls_prune)
next
  case sv_recover
  have "fold (\<lambda>job. dispatch (job_id job)) js d = fold dispatch (map job_id js) d" for js :: "'a job_record list" and d
    by (simp add: fold_map comp_def)
  then have "calls (sv_async s) ((sv_async s)\<lparr>st_dispatcher :=
      dispatch_pending_callbacks (st_jobs (sv_async s)) (st_dispatcher (sv_async s))\<rparr>)"
    unfolding calls_def dispatch_pending_callbacks_def by auto
  then show thesis using turn sv_recover by (simp add: callback_recovery_turn_def)
next
  case (sv_task e c)
  then show thesis using task by simp
qed

lemma server_callbacks:
  assumes "server_step strict quota s e t"
  shows "\<exists>es. run (callback_step quota) (callbacks_of s) es (callbacks_of t) \<and>
    filter (\<lambda>e. e \<noteq> Ce_Other) es = (case task_event e of None \<Rightarrow> [] | Some ce \<Rightarrow> [ce])"
  using assms
proof (cases rule: server_step_moved)
  case (turn st)
  obtain es where "run (callback_step quota) (callbacks_of s) es (callbacks_of t)" "set es \<subseteq> {Ce_Other}"
    using moved_run [OF turn(3)] turn(2) by blast
  moreover from this(2) have "filter (\<lambda>e. e \<noteq> Ce_Other) es = []" by (auto simp: filter_empty_conv)
  ultimately show ?thesis using turn(1) by (intro exI [of _ es]) simp
next
  case (task c ce)
  then show ?thesis
    using run_one [where step = "callback_step quota", OF task(3)] by (intro exI [of _ "[ce]"]) simp
qed

lemma server_callback_run:
  "run (server_step strict quota) s es t \<Longrightarrow>
     \<exists>fs. run (callback_step quota) (callbacks_of s) fs (callbacks_of t) \<and>
       filter (\<lambda>e. e \<noteq> Ce_Other) fs = observed task_event es"
proof (induction rule: run.induct)
  case (run_nil s)
  then show ?case using run.run_nil by fastforce
next
  case (run_snoc s es t e u)
  then obtain fs gs where "run (callback_step quota) (callbacks_of s) fs (callbacks_of t)"
      "filter (\<lambda>e. e \<noteq> Ce_Other) fs = observed task_event es"
      "run (callback_step quota) (callbacks_of t) gs (callbacks_of u)"
      "filter (\<lambda>e. e \<noteq> Ce_Other) gs = (case task_event e of None \<Rightarrow> [] | Some ce \<Rightarrow> [ce])"
    using server_callbacks [OF run_snoc.hyps(2)] by blast
  then show ?case
    using run_trans by (intro exI [of _ "fs @ gs"]) (auto split: option.split)
qed

section \<open>Steps of the server are runs of the ledger\<close>

lemma idle_with [simp]:
  "idle (sv_async (with_callbacks c s)) = (idle (sv_async s))\<lparr>lg_jobs := cs_jobs c\<rparr>"
  by (simp add: with_callbacks_def ledger_of_def)

lemma idle_moved [simp]: "sv_async (moved quota s st) = st"
  by (simp add: moved_def)

lemma note_answer_ledger:
  "cs_jobs c = lg_jobs L \<Longrightarrow> ledger_step L (L\<lparr>lg_jobs := cs_jobs (note_answer db now jid job r c)\<rparr>)"
  unfolding note_answer_def note_refusal_def
  by (cases r) (auto intro: lg_callback_success lg_callback_failure surjective_pairing)

lemma task_ledger:
  assumes "callback_step quota (callbacks_of s) e c" "e \<noteq> Ce_Other"
  shows "ledger_step\<^sup>*\<^sup>* (idle (sv_async s)) ((idle (sv_async s))\<lparr>lg_jobs := cs_jobs c\<rparr>)"
  using assms
proof cases
  case (cs_post xs jid left ys db now reg job url)
  then show ?thesis
    using lg_begin_callback [of db now jid "idle (sv_async s)" reg] by (auto simp: callbacks_of_def ledger_of_def)
next
  case (cs_stop xs jid left ys db now reg r)
  then show ?thesis
    using lg_begin_callback [of db now jid "idle (sv_async s)" reg] by (auto simp: callbacks_of_def ledger_of_def)
next
  case (cs_answer xs jid left url job ys r db now)
  then show ?thesis
    using note_answer_ledger [of "callbacks_of s" "idle (sv_async s)" db now jid job r]
    by (auto simp: callbacks_of_def ledger_of_def)
next
  case (cs_finish xs jid ys)
  then show ?thesis by (simp add: callbacks_of_def ledger_of_def)
qed simp_all

lemma server_ledger:
  assumes "server_step True quota s e t" "ledger_reachable (idle (sv_async s))"
  shows "ledger_reachable (idle (sv_async t))"
  using assms(1)
proof cases
  case (sv_api env call st resp)
  have "workers_ok (st_workers (sv_async s))"
    using ledger_reachable_workers_ok [OF assms(2)] by (simp add: ledger_of_def)
  then show ?thesis
    using ledger_reachable_steps [OF api_run_ledger [of env "sv_async s" call] assms(2)] sv_api by (simp add: allowed_def)
next
  case (sv_sweep env)
  then show ?thesis
    using ledger_reachable_steps [OF sweep_run [of env "sv_async s" 0] assms(2)] by (simp add: allowed_def lease_recovery_turn_def)
next
  case (sv_prune env)
  have "fst (prune_jobs env (sv_async s)) = fst (prune_jobs_of env 0 (sv_async s))"
    by (simp add: prune_jobs_def split: prod.split)
  then show ?thesis
    using lr_step [OF assms(2) prune_run [of env "sv_async s"]] sv_prune by (simp add: allowed_def job_pruning_turn_def)
next
  case sv_recover
  then show ?thesis using assms(2) by (simp add: ledger_of_def callback_recovery_turn_def)
next
  case (sv_task ce c)
  then show ?thesis using ledger_reachable_steps [OF task_ledger assms(2)] by simp
qed

section \<open>The invariant of the server\<close>

definition server_inv :: "bool \<Rightarrow> ('v, 's) server \<Rightarrow> bool" where
  "server_inv strict s \<longleftrightarrow> callback_inv (callbacks_of s) \<and> (strict \<longrightarrow> ledger_reachable (idle (sv_async s)))"

text \<open>Just started: no worker, no task; and, where slots are to match leases, no job either.\<close>

definition server_start :: "bool \<Rightarrow> ('v, 's) server \<Rightarrow> bool" where
  "server_start strict s \<longleftrightarrow> callback_start (callbacks_of s) \<and> workers (st_workers (sv_async s)) = [] \<and>
     (strict \<longrightarrow> started (st_jobs (sv_async s)))"

interpretation sv: invariant_system "server_start strict" "server_step strict quota" "server_inv strict"
  for strict quota
proof unfold_locales
  fix s :: "('v, 's) server" assume s: "server_start strict s"
  then have "strict \<Longrightarrow> ledger_reachable (idle (sv_async s))"
    unfolding ledger_of_def by (intro lr_start) (simp_all add: server_start_def)
  with s show "server_inv strict s" by (auto simp: server_inv_def server_start_def cb.inv_start)
next
  fix s t :: "('v, 's) server" and e assume inv: "server_inv strict s" and step: "server_step strict quota s e t"
  obtain es where "run (callback_step quota) (callbacks_of s) es (callbacks_of t)"
    using server_callbacks [OF step] by blast
  then have "callback_inv (callbacks_of t)" using inv by (auto simp: server_inv_def intro: cb.inv_run)
  moreover have "strict \<Longrightarrow> ledger_reachable (idle (sv_async t))"
    using server_ledger step inv by (auto simp: server_inv_def)
  ultimately show "server_inv strict t" by (simp add: server_inv_def)
qed

lemma server_balanced:
  assumes "server_inv True s" "get_entry (st_workers (sv_async s)) wid = Some w"
  shows "in_flight_jobs w = leased (inner (st_jobs (sv_async s))) wid"
proof -
  have "ledger_reachable (idle (sv_async s))" using assms(1) by (simp add: server_inv_def)
  from ledger_balanced [OF this] assms(2) show ?thesis
    by (auto simp: balanced_def held_def ledger_of_def slots_used_def split: option.splits)
qed

end
