(* ===== verification/Callback_Props.thy ===== *)
theory Callback_Props
  imports Callback_Steps
begin

text \<open>
  Properties of callback delivery over all interleavings of the delivery tasks with each other and
  with the rest of the program: what a receiver sees, what the posted records say, that at most one
  task per job runs, and that a whole \<open>deliver_callback\<close> is a run of the small steps.
\<close>

section \<open>The protocol\<close>

text \<open>C4: Callback delivery implements the protocol of one notice, for every job at once: along every
  run of the system, in which the tasks, the other calls of the registry and failing writes
  interleave freely, what can be observed of the callback of a job is what a run of
  \<open>notice_step\<close> shows, from and to the state of the notice that the registry and the tasks stand for.\<close>

theorem callbacks_refine_notice:
  assumes "run (callback_step quota) s es t" "callback_start s"
  shows "\<exists>os. run notice_step (notice_of k s) os (notice_of k t) \<and>
    observed (\<lambda>x. x) os = observed (notice_event_of k) es"
  by (rule nt.sim_run [OF assms(1) cb.inv_start [OF assms(2)]])

text \<open>A run for the examples: the job of \<open>Jobs_Example\<close> is submitted, claimed and completed, its
  callback is posted once, and the receiver accepts it.\<close>

definition ex_callbacks :: "(nat, unit) job_registry \<Rightarrow> (nat, unit) callback_system" where
  "ex_callbacks reg = \<lparr>cs_jobs = reg, cs_dispatcher = dispatcher_default, cs_metrics = metrics_default, cs_tasks = []\<rparr>"

definition ex_dispatched :: "(nat, unit) callback_system" where
  "ex_dispatched = dispatch_task 3 ''job-1'' (ex_callbacks (ex_reg ex_complete []))"

definition ex_posted :: "(nat, unit) callback_system" where
  "ex_posted = ex_dispatched\<lparr>cs_jobs := ex_reg ex_begun [], cs_tasks := [(''job-1'', Awaiting 2 ''http://cb'' ex_begun)]\<rparr>"

definition ex_accepted :: "(nat, unit) callback_system" where
  "ex_accepted =
     (note_answer ex_db 70 ''job-1'' ex_begun (Responded 200 True) ex_posted)\<lparr>cs_tasks := [(''job-1'', Returned)]\<rparr>"

lemma ex_begun_url [simp]: "callback_url ex_begun = Some ''http://cb''"
  by (simp add: ex_begun_def ex_complete_def completed_job_def prepare_callback_def ex_running_def claim_job_def
      ex_job_def new_job_def Let_def)

lemma ex_callback_start: "callback_start (ex_callbacks ex_new)"
  using started_inv [OF ex_started] by (simp add: callback_start_def ex_callbacks_def)

lemma ex_callback_run:
  "run (callback_step 3) (ex_callbacks ex_new)
     [Ce_Other, Ce_Other, Ce_Other, Ce_Other, Ce_Post ''job-1'' ''http://cb'' ex_begun, Ce_Answer ''job-1'' True] ex_accepted"
proof -
  have call: "callback_step 3 (ex_callbacks reg) Ce_Other (ex_callbacks reg')"
    if "registry_step reg e reg'" "foreground e" for reg reg' e
    using cs_call [of "ex_callbacks reg" e reg' 3] that by (simp add: ex_callbacks_def)
  have r: "run (callback_step 3) (ex_callbacks ex_new) [Ce_Other, Ce_Other, Ce_Other] (ex_callbacks (ex_reg ex_complete []))"
    using run_trans [OF run_one [where step = "callback_step 3", OF call [OF step_complete [OF ex_complete_lease]]]
        run_trans [OF run_one [where step = "callback_step 3", OF call [OF step_claim [OF ex_claim]]]
        run_one [where step = "callback_step 3", OF call [OF step_submit [OF ex_submit]]]]]
    by simp
  have d: "callback_step 3 (ex_callbacks (ex_reg ex_complete [])) Ce_Other ex_dispatched"
    unfolding ex_dispatched_def by (rule cs_dispatch)
  have tasks: "cs_tasks ex_dispatched = [] @ (''job-1'', Attempting (Suc 2)) # []" "cs_jobs ex_dispatched = ex_reg ex_complete []"
    by (simp_all add: ex_dispatched_def dispatch_task_def ex_callbacks_def mark_in_flight_def dispatcher_default_def)
  have p: "callback_step 3 ex_dispatched (Ce_Post ''job-1'' ''http://cb'' ex_begun) ex_posted"
    using cs_post [OF tasks(1), of ex_db 60 "ex_reg ex_begun []" ex_begun] ex_begin
    by (simp add: tasks(2) ex_posted_def)
  have "cs_tasks ex_posted = [] @ (''job-1'', Awaiting 2 ''http://cb'' ex_begun) # []" by (simp add: ex_posted_def)
  from cs_answer [OF this, of 3 "Responded 200 True" ex_db 70]
  have a: "callback_step 3 ex_posted (Ce_Answer ''job-1'' True) ex_accepted"
    by (simp add: ex_accepted_def send_ok_def after_answer_def)
  have "run (callback_step 3) (ex_callbacks ex_new) (([Ce_Other, Ce_Other, Ce_Other] @ [Ce_Other]) @
      [Ce_Post ''job-1'' ''http://cb'' ex_begun]) ex_posted"
    using r d p by (blast intro: run_snoc)
  from run_snoc [where step = "callback_step 3", OF this a] show ?thesis by simp
qed

lemma ex_begun_attempts [simp]: "callback_attempts ex_begun = 1"
  by (simp add: ex_begun_def)

theorem callbacks_refine_notice_witness:
  "\<exists>os. run notice_step (notice_of ''job-1'' (ex_callbacks ex_new)) os (notice_of ''job-1'' ex_accepted) \<and>
     observed (\<lambda>x. x) os = [N_Post 1, N_Accept]"
  using callbacks_refine_notice [OF ex_callback_run ex_callback_start, of "''job-1''"]
  by (simp add: notice_event_of_def)

definition receiver_shape :: "notice_event list \<Rightarrow> bool" where
  "receiver_shape l \<longleftrightarrow>
     (\<exists>ns tail n. l = refused ns @ tail \<and> tail \<in> {[], [N_Post n], [N_Post n, N_Accept]} \<and>
        sorted_wrt (<) (0 # ns @ (if tail = [] then [] else [n])))"

lemma receiver_shapeI:
  "sorted_wrt (<) ns \<Longrightarrow> \<forall>m \<in> set ns. 0 < m \<Longrightarrow> receiver_shape (refused ns)"
  "sorted_wrt (<) ns \<Longrightarrow> \<forall>m \<in> set ns. 0 < m \<and> m < n \<Longrightarrow> 0 < n \<Longrightarrow> receiver_shape (refused ns @ [N_Post n])"
  "sorted_wrt (<) ns \<Longrightarrow> \<forall>m \<in> set ns. 0 < m \<and> m < n \<Longrightarrow> 0 < n \<Longrightarrow>
     receiver_shape (refused ns @ [N_Post n, N_Accept])"
  unfolding receiver_shape_def
  by (rule exI [of _ ns], rule exI [of _ "[]"], simp)
    (rule exI [of _ ns], rule exI [of _ "[N_Post n]"], rule exI [of _ n], simp add: sorted_wrt_append,
     rule exI [of _ ns], rule exI [of _ "[N_Post n, N_Accept]"], rule exI [of _ n], simp add: sorted_wrt_append)

lemma receiver_shape_Nil [simp]: "receiver_shape []"
  using receiver_shapeI(1) [of "[]"] by simp

lemma log_shape: "log_at x l \<Longrightarrow> receiver_shape l"
  by (cases x) (auto intro: receiver_shapeI)

lemma log_delivered:
  assumes "log_at (notice_of k t) l" "callback_inv t" "jobs (inner (cs_jobs t)) k = Some job"
  shows "callback_delivered job \<longleftrightarrow> N_Accept \<in> set l"
proof -
  have ok: "job_ok job" using assms(2,3) by (auto simp: callback_inv_def dest: inv_job(2))
  have n: "notice_of k t = notice_of_job (awaited (cs_tasks t) k) job" by (rule notice_of_stored [OF assms(3)])
  show ?thesis
  proof (cases "is_terminal (job_status job)")
    case False
    then have "job_callback job = None" using ok by (simp add: job_ok_def callback_ok_def)
    with False show ?thesis using assms(1) by (auto simp: n notice_of_job_def callback_delivered_def)
  next
    case True
    with assms(1) show ?thesis
      by (auto simp: n notice_of_job_def callback_delivered_def split: option.splits job_callback_status.splits if_splits)
  qed
qed

lemma run_log:
  assumes "run (callback_step quota) s es t" "callback_start s" "started (cs_jobs s)"
  shows "log_at (notice_of k t) (observed (notice_event_of k) es)"
proof -
  from nt.sim_run [OF assms(1) cb.inv_start [OF assms(2)], of k] obtain os where
    "run notice_step Quiet os (notice_of k t)" "observed (\<lambda>x. x) os = observed (notice_event_of k) es"
    using start_quiet [OF assms(3), of k] by auto
  with log_run [of Quiet os "notice_of k t"] show ?thesis by simp
qed

text \<open>C5: What a receiver sees of one job of a server that started without jobs, whatever else happens: POSTs one after another, each answered
  before the next, carrying strictly increasing attempt numbers; all answers but the last are
  refusals or failures, and nothing is posted after an accepted one. The registry says that the
  callback of a stored job is delivered exactly if one of its POSTs was accepted.\<close>

theorem receiver_log:
  assumes "run (callback_step quota) s es t" "callback_start s" "started (cs_jobs s)"
    and l: "l = observed (notice_event_of k) es"
  shows "receiver_shape l \<and>
    (\<forall>job. jobs (inner (cs_jobs t)) k = Some job \<longrightarrow> (callback_delivered job \<longleftrightarrow> N_Accept \<in> set l))"
proof -
  have "log_at (notice_of k t) l" unfolding l by (rule run_log [OF assms(1-3)])
  then show ?thesis
    by (intro conjI) (use log_shape in blast, use log_delivered cb.inv_reached [OF assms(1,2)] in blast)
qed

lemma ex_accepted_job:
  "\<exists>job. jobs (inner (cs_jobs ex_accepted)) ''job-1'' = Some job \<and> job_callback job \<noteq> None"
proof -
  have "jobs (inner (cs_jobs ex_posted)) ''job-1'' = Some ex_begun" "job_callback ex_begun \<noteq> None"
    by (simp_all add: ex_posted_def ex_begun_def)
  then show ?thesis
    using success_jobs [of "cs_jobs ex_posted" "''job-1''" ex_begun]
    by (fastforce simp: ex_accepted_def note_answer_def)
qed

theorem receiver_log_witness:
  "receiver_shape [N_Post 1, N_Accept] \<and>
   (\<exists>job. jobs (inner (cs_jobs ex_accepted)) ''job-1'' = Some job \<and> callback_delivered job)"
proof -
  have "[N_Post 1, N_Accept] = observed (notice_event_of ''job-1'')
      [Ce_Other, Ce_Other, Ce_Other, Ce_Other, Ce_Post ''job-1'' ''http://cb'' ex_begun, Ce_Answer ''job-1'' True]"
    by (simp add: notice_event_of_def)
  from receiver_log [OF ex_callback_run ex_callback_start _ this] ex_started show ?thesis using ex_accepted_job by (auto simp: ex_callbacks_def)
qed

section \<open>The posted records\<close>

lemma callback_registry_step:
  "callback_step quota s e t \<Longrightarrow> cs_jobs t = cs_jobs s \<or> (\<exists>ev. registry_step (cs_jobs s) ev (cs_jobs t))"
proof (induction rule: callback_step.induct)
  case (cs_answer s xs jid left url job ys r db now)
  then show ?case using note_answer_step [of s db now jid job r] by simp
qed (auto simp: dispatch_task_def intro: step_begin_callback)

text \<open>What is known of a posted record in every later state.\<close>

definition post_stands :: "'v job_registry_inner \<Rightarrow> string \<Rightarrow> string \<Rightarrow> 'v job_record \<Rightarrow> bool" where
  "post_stands i jid url job \<longleftrightarrow>
     job_id job = jid \<and> callback_url job = Some url \<and> is_terminal (job_status job) \<and> id_used i jid \<and>
     (\<forall>job'. jobs i jid = Some job' \<longrightarrow> same_outcome job job' \<and> same_origin job job')"

lemma post_stands_step:
  assumes ps: "post_stands (inner reg) jid url job" and step: "registry_step reg ev reg'"
    and inv: "registry_inv (inner reg)"
  shows "post_stands (inner reg') jid url job"
proof -
  note ids = step_ids [OF step inv]
  have used: "id_used (inner reg) jid" using ps by (simp add: post_stands_def)
  have "same_outcome job job2 \<and> same_origin job job2" if j2: "jobs (inner reg') jid = Some job2" for job2
  proof (cases "jobs (inner reg) jid")
    case None
    then show ?thesis using id_used_gone [OF ids used] j2 by simp
  next
    case (Some job1)
    then have s: "same_outcome job job1" "same_origin job job1" "is_terminal (job_status job1)"
      using ps by (auto simp: post_stands_def same_outcome_def)
    note ch = step_job_change [OF step inv, of jid]
    show ?thesis
      using job_change_terminal [OF ch Some s(3)] job_change_origin [OF ch Some j2] s j2
      by (simp add: same_outcome_def same_origin_def)
  qed
  then show ?thesis using ps id_used_mono [OF ids used] by (simp add: post_stands_def)
qed

lemma posts_agree:
  assumes "post_stands i jid url job" "post_stands i jid url' job'" "jobs i jid = Some job'"
  shows "url' = url \<and> same_outcome job job' \<and> same_origin job job'"
  using assms by (auto simp: post_stands_def same_origin_def)

definition posts_ok_at :: "'v callback_event list \<Rightarrow> ('v, 's) callback_system \<Rightarrow> bool" where
  "posts_ok_at es s \<longleftrightarrow>
     (\<forall>jid url job. Ce_Post jid url job \<in> set es \<longrightarrow> post_stands (inner (cs_jobs s)) jid url job) \<and>
     (\<forall>jid url job url' job'. Ce_Post jid url job \<in> set es \<and> Ce_Post jid url' job' \<in> set es \<longrightarrow>
        url' = url \<and> same_outcome job job' \<and> same_origin job job')"

lemma same_sym: "same_outcome a b \<Longrightarrow> same_outcome b a" "same_origin a b \<Longrightarrow> same_origin b a"
  by (simp_all add: same_outcome_def same_origin_def)

lemma posts_run:
  "run (callback_step quota) s es t \<Longrightarrow> callback_start s \<Longrightarrow> posts_ok_at es t"
proof (induction rule: run.induct)
  case (run_snoc s es t e u)
  have inv: "callback_inv t" "callback_inv u"
    using cb.inv_reached [OF run_snoc.hyps(1) run_snoc.prems] callback_inv_step [OF run_snoc.hyps(2)] by blast+
  have old: "post_stands (inner (cs_jobs u)) jid url job" if "Ce_Post jid url job \<in> set es" for jid url job
    using callback_registry_step [OF run_snoc.hyps(2)] that run_snoc.IH [OF run_snoc.prems] post_stands_step inv(1)
    unfolding posts_ok_at_def callback_inv_def by metis
  have new: "jobs (inner (cs_jobs u)) jid = Some job \<and> post_stands (inner (cs_jobs u)) jid url job"
    if e: "e = Ce_Post jid url job" for jid url job
  proof -
    from run_snoc.hyps(2) e obtain left xs ys where "cs_tasks u = xs @ (jid, Awaiting left url job) # ys"
      by (cases rule: callback_step.cases) auto
    then have "(jid, Awaiting left url job) \<in> set (cs_tasks u)" by simp
    with inv(2) have j: "jobs (inner (cs_jobs u)) jid = Some job" "callback_url job = Some url" "is_terminal (job_status job)"
      unfolding callback_inv_def by (blast dest: awaited_okD)+
    moreover have "registry_inv (inner (cs_jobs u))" using inv(2) by (simp add: callback_inv_def)
    ultimately show ?thesis
      using inv_job(1) stored_used by (fastforce simp: post_stands_def same_outcome_def same_origin_def)
  qed
  have pair: "url' = url \<and> same_outcome job job' \<and> same_origin job job'"
    if posts: "Ce_Post jid url job \<in> set (es @ [e])" "Ce_Post jid url' job' \<in> set (es @ [e])" for jid url job url' job'
  proof -
    have stands: "post_stands (inner (cs_jobs u)) jid url job" "post_stands (inner (cs_jobs u)) jid url' job'"
      using posts old new by auto
    consider "Ce_Post jid url job \<in> set es" "Ce_Post jid url' job' \<in> set es" | "e = Ce_Post jid url job"
      | "e = Ce_Post jid url' job'" using posts by auto
    then show ?thesis
    proof cases
      case 1
      then show ?thesis using run_snoc.IH [OF run_snoc.prems] unfolding posts_ok_at_def by blast
    next
      case 2
      then show ?thesis using posts_agree [OF stands(2,1)] new [of jid url job] by (simp add: same_sym)
    next
      case 3
      then show ?thesis using posts_agree [OF stands] new [of jid url' job'] by blast
    qed
  qed
  have "post_stands (inner (cs_jobs u)) jid url job" if "Ce_Post jid url job \<in> set (es @ [e])" for jid url job
    using that old new by auto
  then show ?case unfolding posts_ok_at_def using pair by blast
qed (simp add: posts_ok_at_def)

text \<open>C10: All notices of a job say the same: along every run of the system, a POST of a job goes to the
  job's own callback URL and carries a terminal record, all POSTs of one job go to the same URL and
  carry the same outcome (status, result, error, attempts, terminal attempt, time) and the same
  submitted data, and as long as the registry has the job it has that outcome too. A receiver that
  keeps any one notice has the right one.\<close>

theorem notices_agree:
  assumes "run (callback_step quota) s es t" "callback_start s" "Ce_Post jid url job \<in> set es"
  shows "job_id job = jid \<and> callback_url job = Some url \<and> is_terminal (job_status job) \<and>
    (\<forall>url' job'. Ce_Post jid url' job' \<in> set es \<longrightarrow> url' = url \<and> same_outcome job job' \<and> same_origin job job') \<and>
    (\<forall>job'. jobs (inner (cs_jobs t)) jid = Some job' \<longrightarrow> same_outcome job job' \<and> same_origin job job')"
  using posts_run [OF assms(1,2)] assms(3) unfolding posts_ok_at_def post_stands_def by blast

theorem notices_agree_witness:
  "\<exists>job. jobs (inner (cs_jobs ex_accepted)) ''job-1'' = Some job \<and> same_outcome ex_begun job \<and>
     callback_url ex_begun = Some ''http://cb''"
  using notices_agree [OF ex_callback_run ex_callback_start, of "''job-1''" "''http://cb''" ex_begun] ex_accepted_job
  by auto

section \<open>One task per job\<close>

text \<open>A pass of the recovery loop, on the whole system.\<close>

definition recovery_pass :: "nat \<Rightarrow> ('v, 's) callback_system \<Rightarrow> ('v, 's) callback_system" where
  "recovery_pass quota s =
     fold (\<lambda>job. dispatch_task quota (job_id job)) (pending_callback_jobs (cs_jobs s)) s"

lemma dispatch_task_simps [simp]:
  "cs_jobs (dispatch_task quota jid s) = cs_jobs s"
  "cs_dispatcher (dispatch_task quota jid s) = dispatch jid (cs_dispatcher s)"
  by (simp_all add: dispatch_task_def)

lemma recovery_dispatcher:
  "cs_jobs (recovery_pass quota s) = cs_jobs s"
  "cs_dispatcher (recovery_pass quota s) = dispatch_pending_callbacks (cs_jobs s) (cs_dispatcher s)"
proof -
  have "cs_jobs (fold (\<lambda>job. dispatch_task quota (job_id job)) js s) = cs_jobs s \<and>
      cs_dispatcher (fold (\<lambda>job. dispatch_task quota (job_id job)) js s) = fold (\<lambda>job. dispatch (job_id job)) js (cs_dispatcher s)"
    for js :: "'a job_record list" and s :: "('a, 'b) callback_system"
    by (induction js arbitrary: s) simp_all
  then show "cs_jobs (recovery_pass quota s) = cs_jobs s"
    "cs_dispatcher (recovery_pass quota s) = dispatch_pending_callbacks (cs_jobs s) (cs_dispatcher s)"
    by (simp_all add: recovery_pass_def dispatch_pending_callbacks_def)
qed

lemma owed_pending:
  assumes "callback_inv s" "notice_of k s \<in> {Owed n, Posted n}"
  shows "k \<in> job_id ` set (pending_callback_jobs (cs_jobs s))"
proof -
  from assms(2) obtain job cb where j: "jobs (inner (cs_jobs s)) k = Some job" "is_terminal (job_status job)"
      "job_callback job = Some cb" "cb_status cb = Pending"
    by (auto simp: notice_of_def notice_of_entry_def notice_of_job_def
        split: option.splits if_splits job_callback_status.splits)
  have inv: "registry_inv (inner (cs_jobs s))" using assms(1) by (simp add: callback_inv_def)
  have "callback_url job \<noteq> None"
    using inv_job(2) [OF inv j(1)] j(2,3) by (auto simp: job_ok_def callback_ok_def)
  moreover have "job \<in> set (list_jobs (cs_jobs s))"
    using inv_in_order [OF inv j(1)] j(1) by (auto simp: list_jobs_def List.map_filter_def intro!: image_eqI [of _ _ k])
  ultimately show ?thesis
    using j inv_job(1) [OF inv j(1)] by (auto simp: pending_callback_jobs_def callback_pending_def)
qed

text \<open>C28: One delivery at a time: in every state the system can reach, the running tasks are for
  different jobs, exactly those the dispatcher has marked in flight; while a task waits for an
  answer, the registry has its job exactly as it was posted; and a pass of the recovery loop, from
  any such state, leaves a running task for every job whose notice is owed.\<close>

theorem one_task_per_job:
  assumes "run (callback_step quota) s es t" "callback_start s"
  shows "distinct (map fst (cs_tasks t)) \<and> fst ` set (cs_tasks t) = disp_in_flight (cs_dispatcher t) \<and>
    (\<forall>jid left url job. (jid, Awaiting left url job) \<in> set (cs_tasks t) \<longrightarrow> jobs (inner (cs_jobs t)) jid = Some job) \<and>
    (\<forall>k n. notice_of k t \<in> {Owed n, Posted n} \<longrightarrow> k \<in> fst ` set (cs_tasks (recovery_pass quota t)))"
proof -
  have inv: "callback_inv t" by (rule cb.inv_reached [OF assms])
  have tasks: "distinct (map fst (cs_tasks u)) \<and> fst ` set (cs_tasks u) = disp_in_flight (cs_dispatcher u)"
    if "callback_inv u" for u :: "('a, 'b) callback_system"
    using that by (simp add: callback_inv_def tasks_ok_def flip: set_map)
  obtain fs where "run (callback_step quota) t fs (recovery_pass quota t)"
    using dispatch_tasks_run [of quota t "map job_id (pending_callback_jobs (cs_jobs t))"]
    by (auto simp: recovery_pass_def fold_map comp_def)
  then have "callback_inv (recovery_pass quota t)" using inv by (rule cb.inv_run)
  then have rec: "fst ` set (cs_tasks (recovery_pass quota t)) =
      disp_in_flight (dispatch_pending_callbacks (cs_jobs t) (cs_dispatcher t))"
    using tasks by (simp add: recovery_dispatcher)
  have "k \<in> fst ` set (cs_tasks (recovery_pass quota t))" if "notice_of k t \<in> {Owed n, Posted n}" for k n
    using owed_pending [OF inv that] by (simp add: rec dispatch_pending_callbacks_def dispatch_fold)
  moreover have "jobs (inner (cs_jobs t)) jid = Some job" if "(jid, Awaiting left url job) \<in> set (cs_tasks t)"
    for jid left url job
    using inv that by (auto simp: callback_inv_def dest: awaited_okD(1))
  ultimately show ?thesis using tasks [OF inv] by blast
qed

theorem one_task_per_job_witness:
  "cs_tasks ex_accepted = [(''job-1'', Returned)] \<and> disp_in_flight (cs_dispatcher ex_accepted) = {''job-1''}"
  using one_task_per_job [OF ex_callback_run ex_callback_start] by (simp add: ex_accepted_def)

section \<open>A delivery is a run of the small steps\<close>

text \<open>What the tasks of a job post, and the events of the job's own tasks.\<close>

definition posted_to :: "string \<Rightarrow> 'v callback_event list \<Rightarrow> (string \<times> 'v job_record) list" where
  "posted_to k es = observed (\<lambda>e. case e of Ce_Post jid url job \<Rightarrow> if jid = k then Some (url, job) else None | _ \<Rightarrow> None) es"

lemma posted_to_simps [simp]:
  "posted_to k [] = []" "posted_to k (es @ fs) = posted_to k es @ posted_to k fs"
  "posted_to k (Ce_Post jid url job # es) = (if jid = k then (url, job) # posted_to k es else posted_to k es)"
  "posted_to k (Ce_Answer jid ok # es) = posted_to k es" "posted_to k (Ce_Task jid # es) = posted_to k es"
  "posted_to k (Ce_Other # es) = posted_to k es"
  by (simp_all add: posted_to_def)

definition own_event :: "string \<Rightarrow> 'v callback_event \<Rightarrow> bool" where
  "own_event k e \<longleftrightarrow>
     (case e of Ce_Post jid url job \<Rightarrow> jid = k | Ce_Answer jid ok \<Rightarrow> jid = k | Ce_Task jid \<Rightarrow> jid = k | Ce_Other \<Rightarrow> False)"

text \<open>What the rest of the program does while a delivery of \<open>jid\<close> waits for the registry for the \<open>n\<close>-th
  time, \<open>other env n\<close>, is a run of the system that leaves this delivery's task where it is: calls of the
  API, turns of the loops, dispatches, and posts, answers and ends of other deliveries. \<open>R\<close> is what the rest of the
  program knows of the system when it gets its \<open>n\<close>-th turn; a step of this delivery keeps it. The
  counters of other tasks are left out of account.\<close>

definition meanwhile ::
  "nat \<Rightarrow> ('v, 's) delivery_env \<Rightarrow> string \<Rightarrow> (nat \<Rightarrow> ('v, 's) callback_system \<Rightarrow> bool) \<Rightarrow> bool" where
  "meanwhile quota env jid R \<longleftrightarrow>
     (\<forall>n s xs ys ph. R n s \<and> cs_tasks s = xs @ (jid, ph) # ys \<longrightarrow>
       (\<exists>es t xs' ys'. run (callback_step quota) s es t \<and> posted_to jid es = [] \<and>
          cs_jobs t = other env n (cs_jobs s) \<and> cs_metrics t = cs_metrics s \<and> cs_tasks t = xs' @ (jid, ph) # ys' \<and>
          (\<forall>e u ph'. own_event jid e \<and> callback_step quota t e u \<and> cs_tasks u = xs' @ (jid, ph') # ys' \<longrightarrow> R (Suc n) u)))"

lemma meanwhileE:
  assumes "meanwhile quota env jid R" "R n s" "cs_tasks s = xs @ (jid, ph) # ys"
  obtains es t xs' ys' where "run (callback_step quota) s es t" "posted_to jid es = []"
    "cs_jobs t = other env n (cs_jobs s)" "cs_metrics t = cs_metrics s" "cs_tasks t = xs' @ (jid, ph) # ys'"
    "\<And>e u ph'. own_event jid e \<Longrightarrow> callback_step quota t e u \<Longrightarrow> cs_tasks u = xs' @ (jid, ph') # ys' \<Longrightarrow> R (Suc n) u"
proof -
  from assms(1) [unfolded meanwhile_def, rule_format, OF conjI [OF assms(2,3)]] obtain es t xs' ys' where
    t: "run (callback_step quota) s es t" "posted_to jid es = []" "cs_jobs t = other env n (cs_jobs s)"
    "cs_metrics t = cs_metrics s" "cs_tasks t = xs' @ (jid, ph) # ys'"
    and own: "\<forall>e u ph'. own_event jid e \<and> callback_step quota t e u \<and> cs_tasks u = xs' @ (jid, ph') # ys' \<longrightarrow> R (Suc n) u"
    by (elim exE conjE)
  show thesis by (rule that [OF t]) (use own in blast)
qed

text \<open>In particular calls of the rest of the program that are no deliveries.\<close>

lemma foreground_meanwhile:
  assumes "\<And>n reg. foreground_run reg (other env n reg)"
  shows "meanwhile quota env jid (\<lambda>_ _. True)"
  unfolding meanwhile_def
proof (intro allI impI)
  fix n and s :: "('a, 'b) callback_system" and xs ys ph
  assume t: "True \<and> cs_tasks s = xs @ (jid, ph) # ys"
  obtain fs where fs: "run (callback_step quota) s fs (s\<lparr>cs_jobs := other env n (cs_jobs s)\<rparr>)" "set fs \<subseteq> {Ce_Other}"
    using foreground_system_run [OF assms] by blast
  have "set gs \<subseteq> {Ce_Other} \<Longrightarrow> posted_to jid gs = []" for gs :: "'a callback_event list" by (induction gs) auto
  with fs t show "\<exists>es t xs' ys'. run (callback_step quota) s es t \<and> posted_to jid es = [] \<and>
      cs_jobs t = other env n (cs_jobs s) \<and> cs_metrics t = cs_metrics s \<and> cs_tasks t = xs' @ (jid, ph) # ys' \<and>
      (\<forall>e u ph'. own_event jid e \<and> callback_step quota t e u \<and> cs_tasks u = xs' @ (jid, ph') # ys' \<longrightarrow> True)"
    by (intro exI [of _ fs] exI [of _ "s\<lparr>cs_jobs := other env n (cs_jobs s)\<rparr>"] exI [of _ xs] exI [of _ ys]) simp
qed

text \<open>An attempt: what a posted attempt does to the delivery, beside what the answer does to the system.\<close>

lemma deliver_loop_answer:
  assumes "begin_callback_attempt (env_db env (2 * attempt)) (env_now env (2 * attempt)) jid
      (other env (2 * attempt) (dl_registry dl)) = (reg, Some job)"
    and "callback_url job = Some url"
    and "cs_jobs s = other env (2 * attempt + 1) reg" "cs_metrics s = dl_metrics dl"
  defines "r \<equiv> send env attempt url job"
  defines "t \<equiv> note_answer (env_db env (2 * attempt + 1)) (env_now env (2 * attempt + 1)) jid job r s"
  shows "\<exists>dl'. deliver_loop env jid attempt (Suc left) dl =
      (if send_ok r then dl' else deliver_loop env jid (Suc attempt) left dl') \<and>
    dl_registry dl' = cs_jobs t \<and> dl_metrics dl' = cs_metrics t \<and> dl_sent dl' = dl_sent dl @ [(url, job)]"
proof (cases "send env attempt url job")
  case (Responded st ok)
  show ?thesis
  proof (cases ok)
    case True
    then show ?thesis by (simp add: assms Responded send_ok_def note_answer_def Let_def)
  next
    case False
    then show ?thesis
      by (simp add: assms Responded send_ok_def note_answer_def note_refusal_def delivery_failed_def Let_def)
        (intro exI conjI, rule refl, simp_all)
  qed
next
  case (Send_Error e)
  then show ?thesis
    by (simp add: assms send_ok_def note_answer_def note_refusal_def delivery_failed_def Let_def)
      (intro exI conjI, rule refl, simp_all)
next
  case Timed_Out
  then show ?thesis
    by (simp add: assms send_ok_def note_answer_def note_refusal_def delivery_failed_def Let_def)
      (intro exI conjI, rule refl, simp_all)
qed

lemma delivery_turn:
  assumes others: "meanwhile quota env jid R" and R: "R (2 * attempt) s"
    and s: "cs_jobs s = dl_registry dl" "cs_metrics s = dl_metrics dl" "cs_tasks s = xs @ (jid, Attempting (Suc left)) # ys"
  shows "\<exists>es t ph dl' xs' ys'. run (callback_step quota) s es t \<and>
      cs_tasks t = xs' @ (jid, ph) # ys' \<and> cs_jobs t = dl_registry dl' \<and> cs_metrics t = dl_metrics dl' \<and>
      dl_sent dl' = dl_sent dl @ posted_to jid es \<and>
      (ph = Returned \<and> dl' = deliver_loop env jid attempt (Suc left) dl \<or>
       left \<noteq> 0 \<and> ph = Attempting left \<and> R (2 * Suc attempt) t \<and>
         deliver_loop env jid attempt (Suc left) dl = deliver_loop env jid (Suc attempt) left dl')"
proof -
  let ?n = "2 * attempt"
  obtain es1 s1 xs1 ys1 where r1: "run (callback_step quota) s es1 s1" "posted_to jid es1 = []"
    and s1: "cs_jobs s1 = other env ?n (dl_registry dl)" "cs_metrics s1 = dl_metrics dl"
      "cs_tasks s1 = xs1 @ (jid, Attempting (Suc left)) # ys1"
    and own1: "\<And>e u ph'. own_event jid e \<Longrightarrow> callback_step quota s1 e u \<Longrightarrow> cs_tasks u = xs1 @ (jid, ph') # ys1 \<Longrightarrow> R (Suc ?n) u"
    using meanwhileE [OF others R s(3)] s(1,2) by metis
  obtain reg r where b: "begin_callback_attempt (env_db env ?n) (env_now env ?n) jid (cs_jobs s1) = (reg, r)"
    by fastforce
  show ?thesis
  proof (cases "\<exists>job url. r = Some job \<and> callback_url job = Some url")
    case False
    then have np: "\<forall>url. \<not> has_post r url" by (auto simp: has_post_def split: option.splits)
    let ?t = "s1\<lparr>cs_jobs := reg, cs_tasks := xs1 @ (jid, Returned) # ys1\<rparr>"
    have "run (callback_step quota) s (es1 @ [Ce_Task jid]) ?t" by (rule run_snoc [OF r1(1) cs_stop [OF s1(3) b np]])
    moreover have "deliver_loop env jid attempt (Suc left) dl = dl\<lparr>dl_registry := reg\<rparr>"
      using b False s1(1) by (cases r) (auto split: option.split)
    ultimately show ?thesis
      using s1(2) r1(2) by (intro exI [of _ "es1 @ [Ce_Task jid]"] exI [of _ ?t] exI [of _ Returned]
        exI [of _ "dl\<lparr>dl_registry := reg\<rparr>"] exI [of _ xs1] exI [of _ ys1]) simp
  next
    case True
    then obtain job url where job: "r = Some job" "callback_url job = Some url" by blast
    let ?s2 = "s1\<lparr>cs_jobs := reg, cs_tasks := xs1 @ (jid, Awaiting left url job) # ys1\<rparr>"
    let ?a = "send env attempt url job"
    have step2: "callback_step quota s1 (Ce_Post jid url job) ?s2" by (rule cs_post [OF s1(3) b [unfolded job(1)] job(2)])
    have R2: "R (Suc ?n) ?s2" by (rule own1 [OF _ step2]) (simp_all add: own_event_def)
    obtain es3 s3 xs3 ys3 where r3: "run (callback_step quota) ?s2 es3 s3" "posted_to jid es3 = []"
      and s3: "cs_jobs s3 = other env (?n + 1) reg" "cs_metrics s3 = dl_metrics dl"
        "cs_tasks s3 = xs3 @ (jid, Awaiting left url job) # ys3"
      and own3: "\<And>e u ph'. own_event jid e \<Longrightarrow> callback_step quota s3 e u \<Longrightarrow> cs_tasks u = xs3 @ (jid, ph') # ys3 \<Longrightarrow>
        R (Suc (Suc ?n)) u"
      by (rule meanwhileE [OF others R2, of xs1 "Awaiting left url job" ys1]) (simp_all add: s1(2))
    let ?t = "(note_answer (env_db env (?n + 1)) (env_now env (?n + 1)) jid job ?a s3)\<lparr>cs_tasks := xs3 @ (jid, after_answer left ?a) # ys3\<rparr>"
    note run_trans [OF r3(1) run_snoc [OF r1(1) step2]]
    moreover have step4: "callback_step quota s3 (Ce_Answer jid (send_ok ?a)) ?t" by (rule cs_answer [OF s3(3)])
    ultimately have run: "run (callback_step quota) s (((es1 @ [Ce_Post jid url job]) @ es3) @ [Ce_Answer jid (send_ok ?a)]) ?t"
      by (rule run_snoc)
    have R4: "R (2 * Suc attempt) ?t" using own3 [OF _ step4, of "after_answer left ?a"] by (simp add: own_event_def)
    have "begin_callback_attempt (env_db env ?n) (env_now env ?n) jid (other env ?n (dl_registry dl)) = (reg, Some job)"
      using b job(1) s1(1) by simp
    then obtain dl' where dl':
      "deliver_loop env jid attempt (Suc left) dl = (if send_ok ?a then dl' else deliver_loop env jid (Suc attempt) left dl')"
      "dl_registry dl' = cs_jobs ?t" "dl_metrics dl' = cs_metrics ?t" "dl_sent dl' = dl_sent dl @ [(url, job)]"
      using deliver_loop_answer [OF _ job(2) s3(1,2), where left = left] by auto
    have ph: "after_answer left ?a = Returned \<and> dl' = deliver_loop env jid attempt (Suc left) dl \<or>
       left \<noteq> 0 \<and> after_answer left ?a = Attempting left \<and> R (2 * Suc attempt) ?t \<and>
         deliver_loop env jid attempt (Suc left) dl = deliver_loop env jid (Suc attempt) left dl'"
      using R4 unfolding dl'(1) by (cases left) (simp_all add: after_answer_def)
    have "dl_sent dl' = dl_sent dl @ posted_to jid (((es1 @ [Ce_Post jid url job]) @ es3) @ [Ce_Answer jid (send_ok ?a)])"
      using r1(2) r3(2) dl'(4) by simp
    moreover have "cs_tasks ?t = xs3 @ (jid, after_answer left ?a) # ys3" by simp
    ultimately show ?thesis using run ph dl'(2,3) [symmetric] by blast
  qed
qed

lemma deliver_loop_run:
  assumes others: "meanwhile quota env jid R"
  shows "R (2 * attempt) s \<Longrightarrow> cs_jobs s = dl_registry dl \<Longrightarrow> cs_metrics s = dl_metrics dl \<Longrightarrow>
    cs_tasks s = xs @ (jid, Attempting (Suc left)) # ys \<Longrightarrow>
    \<exists>es t xs' ys'. run (callback_step quota) s es t \<and> cs_tasks t = xs' @ (jid, Returned) # ys' \<and>
      cs_jobs t = dl_registry (deliver_loop env jid attempt (Suc left) dl) \<and>
      cs_metrics t = dl_metrics (deliver_loop env jid attempt (Suc left) dl) \<and>
      dl_sent (deliver_loop env jid attempt (Suc left) dl) = dl_sent dl @ posted_to jid es"
proof (induction left arbitrary: attempt dl s xs ys)
  case (0 attempt dl s)
  then show ?case using delivery_turn [OF others 0] by blast
next
  case (Suc left)
  from delivery_turn [OF others Suc.prems] obtain es t ph dl' xs' ys' where t:
    "run (callback_step quota) s es t" "cs_tasks t = xs' @ (jid, ph) # ys'"
    "cs_jobs t = dl_registry dl'" "cs_metrics t = dl_metrics dl'" "dl_sent dl' = dl_sent dl @ posted_to jid es"
    "ph = Returned \<and> dl' = deliver_loop env jid attempt (Suc (Suc left)) dl \<or>
       ph = Attempting (Suc left) \<and> R (2 * Suc attempt) t \<and>
         deliver_loop env jid attempt (Suc (Suc left)) dl = deliver_loop env jid (Suc attempt) (Suc left) dl'"
    by blast
  from t(6) show ?case
  proof
    assume "ph = Returned \<and> dl' = deliver_loop env jid attempt (Suc (Suc left)) dl"
    then show ?thesis using t by blast
  next
    assume ph: "ph = Attempting (Suc left) \<and> R (2 * Suc attempt) t \<and>
         deliver_loop env jid attempt (Suc (Suc left)) dl = deliver_loop env jid (Suc attempt) (Suc left) dl'"
    from Suc.IH [of "Suc attempt" t dl' xs' ys'] t(2-4) ph obtain fs u xs2 ys2 where u:
      "run (callback_step quota) t fs u" "cs_tasks u = xs2 @ (jid, Returned) # ys2"
      "cs_jobs u = dl_registry (deliver_loop env jid (Suc attempt) (Suc left) dl')"
      "cs_metrics u = dl_metrics (deliver_loop env jid (Suc attempt) (Suc left) dl')"
      "dl_sent (deliver_loop env jid (Suc attempt) (Suc left) dl') = dl_sent dl' @ posted_to jid fs"
      by blast
    show ?thesis
      using run_trans [OF u(1) t(1)] u(2-) t(5) ph
      by (intro exI [of _ "es @ fs"] exI [of _ u] exI [of _ xs2] exI [of _ ys2]) simp
  qed
qed

text \<open>C27: The delivery loop is a run of the small steps: whatever the receiver answers, and whatever the
  rest of the program does each time \<open>deliver_callback\<close> waits for the registry, as long as that is a run of the system in which this
  delivery's own task does not move (calls of the API, turns of the loops, dispatches, steps of the
  deliveries of other jobs), what \<open>deliver_callback\<close> and the others together do to the registry, what it
  does to the counters, and what it posts, is what a task just dispatched does along some run of the
  system, after which only the end of the task is left. So the theorems above speak of every
  delivery. It posts at most \<open>max(1, max_attempts)\<close> times.\<close>

theorem delivery_is_run:
  assumes "meanwhile quota env jid R" "R 2 s"
    and "cs_jobs s = dl_registry dl" "cs_metrics s = dl_metrics dl"
    and "cs_tasks s = xs @ (jid, Attempting (max (cp_max_attempts policy) 1)) # ys"
  shows "\<exists>es t xs' ys'. run (callback_step quota) s es t \<and> cs_tasks t = xs' @ (jid, Returned) # ys' \<and>
    cs_jobs t = dl_registry (deliver_callback env policy jid dl) \<and>
    cs_metrics t = dl_metrics (deliver_callback env policy jid dl) \<and>
    dl_sent (deliver_callback env policy jid dl) = dl_sent dl @ posted_to jid es \<and>
    length (posted_to jid es) \<le> max (cp_max_attempts policy) 1"
proof -
  obtain left where left: "max (cp_max_attempts policy) 1 = Suc left" by (cases "max (cp_max_attempts policy) 1") simp_all
  then obtain es t xs' ys' where run: "run (callback_step quota) s es t"
      "cs_tasks t = xs' @ (jid, Returned) # ys'" "cs_jobs t = dl_registry (deliver_callback env policy jid dl)"
      "cs_metrics t = dl_metrics (deliver_callback env policy jid dl)"
      "dl_sent (deliver_callback env policy jid dl) = dl_sent dl @ posted_to jid es"
    using deliver_loop_run [OF assms(1), of 1 s dl xs left ys] assms(2-5) unfolding deliver_callback_def
    by (auto simp: numeral_2_eq_2)
  moreover have "length (posted_to jid es) \<le> max (cp_max_attempts policy) 1"
    using deliver_loop_posts [of env jid 1 "max (cp_max_attempts policy) 1" dl] run(5) unfolding deliver_callback_def by simp
  ultimately show ?thesis by blast
qed

text \<open>For the example, another delivery is under way: that of \<open>job-2\<close>, which the registry does not have. It
  makes its attempt, and ends, while the delivery of \<open>job-1\<close> waits for the registry for the first time.\<close>

definition ex_two_tasks :: "nat \<Rightarrow> (nat, unit) callback_system \<Rightarrow> bool" where
  "ex_two_tasks n s \<longleftrightarrow> 2 \<le> n \<and> (n = 2 \<longrightarrow>
     (\<exists>xs. cs_tasks s = xs @ [(''job-2'', Attempting (Suc 2))]) \<and> jobs (inner (cs_jobs s)) ''job-2'' = None)"

lemma ex_meanwhile: "meanwhile 3 ex_env ''job-1'' ex_two_tasks"
  unfolding meanwhile_def
proof (intro allI impI)
  fix n and s :: "(nat, unit) callback_system" and xs ys ph
  assume h: "ex_two_tasks n s \<and> cs_tasks s = xs @ (''job-1'', ph) # ys"
  have other: "other ex_env n reg = reg" for n reg by (simp add: ex_env_def)
  show "\<exists>es t xs' ys'. run (callback_step 3) s es t \<and> posted_to ''job-1'' es = [] \<and>
      cs_jobs t = other ex_env n (cs_jobs s) \<and> cs_metrics t = cs_metrics s \<and> cs_tasks t = xs' @ (''job-1'', ph) # ys' \<and>
      (\<forall>e u ph'. own_event ''job-1'' e \<and> callback_step 3 t e u \<and> cs_tasks u = xs' @ (''job-1'', ph') # ys' \<longrightarrow> ex_two_tasks (Suc n) u)"
  proof (cases "n = 2")
    case True
    then obtain zs where zs: "cs_tasks s = zs @ [(''job-2'', Attempting (Suc 2))]" "jobs (inner (cs_jobs s)) ''job-2'' = None"
      using h by (auto simp: ex_two_tasks_def)
    obtain ws where ws: "ys = ws @ [(''job-2'', Attempting (Suc 2))]"
      using h zs(1) by (cases ys rule: rev_cases) (auto simp flip: append_assoc append_Cons)
    let ?t1 = "s\<lparr>cs_jobs := cs_jobs s, cs_tasks := (xs @ (''job-1'', ph) # ws) @ (''job-2'', Returned) # []\<rparr>"
    let ?t = "?t1\<lparr>cs_dispatcher := finish_task ''job-2'' (cs_dispatcher ?t1), cs_tasks := (xs @ (''job-1'', ph) # ws) @ []\<rparr>"
    have b: "begin_callback_attempt ex_db 0 ''job-2'' (cs_jobs s) = (cs_jobs s, None)"
      using zs(2) by (simp add: begin_callback_attempt_def)
    have "cs_tasks s = (xs @ (''job-1'', ph) # ws) @ (''job-2'', Attempting (Suc 2)) # []" using h ws by simp
    from cs_stop [OF this b, of 3] have "callback_step 3 s (Ce_Task ''job-2'') ?t1" by (simp add: has_post_def)
    moreover have "callback_step 3 ?t1 (Ce_Task ''job-2'') ?t" by (rule cs_finish) simp
    ultimately have "run (callback_step 3) s ([Ce_Task ''job-2''] @ [Ce_Task ''job-2'']) ?t"
      by (intro run_snoc [OF run_one])
    then show ?thesis
      using True other by (intro exI [of _ "[Ce_Task ''job-2''] @ [Ce_Task ''job-2'']"] exI [of _ ?t] exI [of _ xs] exI [of _ ws])
        (simp add: ex_two_tasks_def)
  next
    case False
    then show ?thesis
      using h other run_nil [of "callback_step 3" s]
      by (intro exI [of _ "[]"] exI [of _ s] exI [of _ xs] exI [of _ ys]) (simp add: ex_two_tasks_def)
  qed
qed

theorem delivery_is_run_witness:
  "\<exists>es t. run (callback_step 3) (dispatch_task 3 ''job-2'' (dispatch_task 3 ''job-1'' (ex_callbacks (ex_reg ex_complete [])))) es t \<and>
     (\<exists>xs ys. cs_tasks t = xs @ (''job-1'', Returned) # ys) \<and>
     cs_jobs t = dl_registry (deliver_callback ex_env callback_policy_default ''job-1'' ex_delivery)"
proof -
  let ?s = "dispatch_task 3 ''job-2'' (dispatch_task 3 ''job-1'' (ex_callbacks (ex_reg ex_complete [])))"
  have s: "ex_two_tasks 2 ?s" "cs_jobs ?s = dl_registry ex_delivery" "cs_metrics ?s = dl_metrics ex_delivery"
    "cs_tasks ?s = [] @ (''job-1'', Attempting (max (cp_max_attempts callback_policy_default) 1)) # [(''job-2'', Attempting (Suc 2))]"
    by (simp_all add: ex_two_tasks_def dispatch_task_def dispatch_def ex_callbacks_def ex_delivery_def mark_in_flight_def dispatcher_default_def
        callback_policy_default_def)
  show ?thesis using delivery_is_run [OF ex_meanwhile s] by blast
qed

end
