(* ===== verification/Metrics_Render.thy ===== *)
theory Metrics_Render
  imports Metrics Jobs_Snapshots Priority_Limiter Router
begin

text \<open>
  The page of \<open>GET /metrics\<close>, \<open>src/src/metrics.rs\<close>: the circuit gauge, the counters of
  \<open>Metrics.render\<close> and the gauges taken from the priority limiter, the resource registry, the job
  registry and the worker registry. Each part reads its component once; the parts are read one
  after the other, so they are arguments of their own.
\<close>

section \<open>Gauges\<close>

definition circuit_value :: "circuit_state \<Rightarrow> nat" where
  "circuit_value s = (case s of Closed \<Rightarrow> 0 | HalfOpen \<Rightarrow> 1 | Open _ \<Rightarrow> 2)"

definition render_circuits :: "backend_state list \<Rightarrow> string" where
  "render_circuits backends =
     help_type ''fairlead_circuit_state'' ''Circuit state per backend (0=closed 1=half_open 2=open)'' ''gauge'' @
     concat (map (\<lambda>b. metric_line ''fairlead_circuit_state''
       [(''backend'', prometheus_escape (bk_id b)), (''url'', prometheus_escape (bk_url b)),
        (''node'', prometheus_escape (opt_str (bk_node_id b))), (''pool'', prometheus_escape (bk_pool b))]
       (nat_to_string (circuit_value (cb_state (circuit b))))) backends)"

definition optional_line :: "string \<Rightarrow> (string \<times> string) list \<Rightarrow> string option \<Rightarrow> string" where
  "optional_line name labels value = (case value of None \<Rightarrow> [] | Some v \<Rightarrow> metric_line name labels v)"

definition worker_labels :: "worker_utilization_snapshot \<Rightarrow> (string \<times> string) list" where
  "worker_labels s =
     [(''worker'', prometheus_escape (wu_worker_id s)), (''node'', prometheus_escape (opt_str (wu_node_id s)))]"

definition worker_lines :: "worker_utilization_snapshot \<Rightarrow> string" where
  "worker_lines s =
     metric_line ''fairlead_worker_in_flight_jobs'' (worker_labels s) (nat_to_string (wu_in_flight_jobs s)) @
     optional_line ''fairlead_worker_max_concurrent_jobs'' (worker_labels s)
       (map_option nat_to_string (wu_max_concurrent_jobs s)) @
     optional_line ''fairlead_worker_available_job_slots'' (worker_labels s)
       (map_option nat_to_string (wu_available_job_slots s))"

definition render_worker_metrics :: "clock \<Rightarrow> clock \<Rightarrow> worker_registry \<Rightarrow> worker_registry \<Rightarrow> string" where
  "render_worker_metrics clk1 clk2 reg1 reg2 =
     help_type ''fairlead_workers'' ''Registered workers by job type and status'' ''gauge'' @
     help_type ''fairlead_worker_in_flight_jobs'' ''Current leased jobs by worker'' ''gauge'' @
     help_type ''fairlead_worker_max_concurrent_jobs'' ''Configured worker job capacity'' ''gauge'' @
     help_type ''fairlead_worker_available_job_slots'' ''Remaining worker job capacity'' ''gauge'' @
     concat (map (\<lambda>s. metric_line ''fairlead_workers''
       [(''type'', prometheus_escape (wa_job_type s)), (''status'', prometheus_escape (wa_status s))]
       (nat_to_string (wa_count s))) (availability_snapshots clk1 reg1)) @
     concat (map worker_lines (utilization_snapshots clk2 reg2))"

definition job_labels :: "string \<Rightarrow> string \<Rightarrow> (string \<times> string) list" where
  "job_labels priority kind = [(''priority'', prometheus_escape priority), (''type'', prometheus_escape kind)]"

definition render_job_queue_metrics ::
  "nat \<Rightarrow> 'v job_registry_inner \<Rightarrow> 'v job_registry_inner \<Rightarrow> string" where
  "render_job_queue_metrics now i1 i2 =
     help_type ''fairlead_job_queue_depth'' ''Queued async jobs by priority and type'' ''gauge'' @
     help_type ''fairlead_job_queue_wait_seconds_sum''
       ''Total current queued job wait age by priority and type'' ''gauge'' @
     help_type ''fairlead_job_queue_wait_seconds_max''
       ''Oldest current queued job age by priority and type'' ''gauge'' @
     concat (map (\<lambda>s. metric_line ''fairlead_job_queue_depth'' (job_labels (qs_priority s) (qs_kind s))
       (nat_to_string (qs_depth s))) (queue_snapshots i1)) @
     concat (map (\<lambda>s.
       metric_line ''fairlead_job_queue_wait_seconds_sum'' (job_labels (qw_priority s) (qw_kind s))
         (format_6 (qw_wait_sum s)) @
       metric_line ''fairlead_job_queue_wait_seconds_max'' (job_labels (qw_priority s) (qw_kind s))
         (format_6 (qw_wait_max s))) (queue_wait_snapshots now i2))"

definition render_job_duration_metrics :: "'v job_registry_inner \<Rightarrow> string" where
  "render_job_duration_metrics i =
     help_type ''fairlead_job_duration_seconds''
       ''Terminal async job duration from submission to terminal state'' ''summary'' @
     concat (map (\<lambda>s.
       let labels = job_labels (jd_priority s) (jd_kind s) @ [(''status'', prometheus_escape (jd_status s))]
       in metric_line ''fairlead_job_duration_seconds_count'' labels (nat_to_string (jd_count s)) @
          metric_line ''fairlead_job_duration_seconds_sum'' labels (format_6 (jd_duration_sum s)) @
          metric_line ''fairlead_job_duration_seconds_max'' labels (format_6 (jd_duration_max s)))
       (terminal_duration_snapshots i))"

definition render_priority_metrics :: "'s priority_limiter \<Rightarrow> string" where
  "render_priority_metrics limiter =
     help_type ''fairlead_priority_in_flight'' ''Current admitted proxy requests by priority'' ''gauge'' @
     help_type ''fairlead_priority_limit'' ''Configured synchronous admission limit by priority'' ''gauge'' @
     concat (map (\<lambda>s.
       metric_line ''fairlead_priority_in_flight'' [(''priority'', priority_as_str (sn_priority s))]
         (nat_to_string (sn_in_flight s)) @
       metric_line ''fairlead_priority_limit'' [(''priority'', priority_as_str (sn_priority s))]
         (nat_to_string (sn_limit s))) (limiter_snapshots limiter))"

text \<open>\<open>{:.6}\<close> of an \<open>f64\<close>.\<close>

fun format_f64 :: "f64 \<Rightarrow> string" where
  "format_f64 NaN = ''NaN''"
| "format_f64 PInf = ''inf''"
| "format_f64 NInf = ''-inf''"
| "format_f64 (Num x) = format_6 x"

definition resource_lines :: "resource_snapshot \<Rightarrow> string" where
  "resource_lines s =
     (let r = rs_report s;
          labels = [(''node'', prometheus_escape (rp_node_id r)),
                    (''backend'', prometheus_escape (opt_str (rp_backend_id r)))]
      in metric_line ''fairlead_resource_vram_total_mb'' labels (nat_to_string (rp_total_vram_mb r)) @
         metric_line ''fairlead_resource_vram_reserved_mb'' labels (nat_to_string (rp_reserved_vram_mb r)) @
         metric_line ''fairlead_resource_vram_available_mb'' labels (nat_to_string (rp_available_vram_mb r)) @
         optional_line ''fairlead_resource_load'' labels (map_option format_f64 (rp_current_load r)) @
         metric_line ''fairlead_resource_report_stale'' labels (nat_to_string (if rs_stale s then 1 else 0)))"

definition render_resource_metrics :: "clock \<Rightarrow> resource_registry \<Rightarrow> string" where
  "render_resource_metrics clk reg =
     help_type ''fairlead_resource_vram_total_mb'' ''Reported total VRAM by node/backend'' ''gauge'' @
     help_type ''fairlead_resource_vram_reserved_mb'' ''Reported reserved VRAM by node/backend'' ''gauge'' @
     help_type ''fairlead_resource_vram_available_mb'' ''Reported available VRAM by node/backend'' ''gauge'' @
     help_type ''fairlead_resource_load'' ''Reported normalized load by node/backend'' ''gauge'' @
     help_type ''fairlead_resource_report_stale''
       ''Whether the latest resource report is stale (0=fresh 1=stale)'' ''gauge'' @
     concat (map resource_lines (resource_snapshots clk reg))"

section \<open>The page\<close>

record ('v, 's) metrics_view =
  mv_backends :: "backend_state list"
  mv_counters :: routing_metrics
  mv_limiter :: "'s priority_limiter"
  mv_resources :: "clock \<times> resource_registry"
  mv_queued :: "'v job_registry_inner"
  mv_waiting :: "nat \<times> 'v job_registry_inner"
  mv_terminal :: "'v job_registry_inner"
  mv_available :: "clock \<times> worker_registry"
  mv_utilized :: "clock \<times> worker_registry"

text \<open>Each field of the view is what the handler finds when it reads that component; other handlers
  run between the reads. The response is a status, a content type and the text.\<close>

definition metrics_page :: "('v, 's) metrics_view \<Rightarrow> nat \<times> string \<times> string" where
  "metrics_page v =
     (200, ''text/plain; version=0.0.4; charset=utf-8'',
      render_circuits (mv_backends v) @
      render (mv_counters v) @
      render_priority_metrics (mv_limiter v) @
      (case mv_resources v of (clk, reg) \<Rightarrow> render_resource_metrics clk reg) @
      (case mv_waiting v of (now, i) \<Rightarrow> render_job_queue_metrics now (mv_queued v) i) @
      render_job_duration_metrics (mv_terminal v) @
      (case (mv_available v, mv_utilized v) of ((clk1, reg1), (clk2, reg2)) \<Rightarrow>
         render_worker_metrics clk1 clk2 reg1 reg2))"

end
