(* ===== verification/Server_Props.thy ===== *)
theory Server_Props
  imports Server_Steps Callback_Props Config_Props Storage_Props Api_Example Metrics_Render "HOL-Library.Sublist"
begin

text \<open>
  Properties of the whole server: what holds from start-up on when jobs are kept in memory, what a
  restart on a stored registry loses, and what the metrics page shows of the workers.
\<close>

section \<open>Start-up\<close>

lemma main_boot_cases:
  assumes "main_boot env get = Inr app"
  obtains (boot) cfg reg where "from_lookup (be_json env) get = Inr cfg" "main_jobs env cfg = Inr reg"
    "app = app_state_of env cfg reg"
  using assms by (auto simp: main_boot_def)

lemma app_state_simps [simp]:
  "st_jobs (app_async (app_state_of env cfg reg)) = reg"
  "st_workers (app_async (app_state_of env cfg reg)) = worker_registry_default"
  "px_backends (app_proxy (app_state_of env cfg reg)) = main_backends env cfg"
  by (simp_all add: app_state_of_def async_of_def proxy_of_def)

lemma boot_job_store:
  assumes "main_boot env get = Inr app" "parse_job_store get = Inr s"
  obtains (boot) cfg where "from_lookup (be_json env) get = Inr cfg" "cfg_job_store cfg = s"
    "main_jobs env cfg = Inr (st_jobs (app_async app))" "app = app_state_of env cfg (st_jobs (app_async app))"
proof -
  from assms(1) obtain cfg reg where b: "from_lookup (be_json env) get = Inr cfg" "main_jobs env cfg = Inr reg"
    "app = app_state_of env cfg reg" by (rule main_boot_cases)
  moreover have "cfg_job_store cfg = s" using from_lookup_fields(4) [OF b(1)] assms(2) by simp
  ultimately show thesis by (intro boot) simp_all
qed

text \<open>The server as \<open>main\<close> starts it: no task of a delivery runs yet.\<close>

definition main_server :: "('v, 's) app_state \<Rightarrow> ('v, job_db) server" where
  "main_server app = \<lparr>sv_async = app_async app, sv_tasks = []\<rparr>"

lemma boot_start:
  assumes "main_boot env get = Inr app" "started (st_jobs (app_async app))"
  shows "server_start strict (main_server app)"
proof -
  obtain cfg reg where "app = app_state_of env cfg reg" using assms(1) by (rule main_boot_cases)
  then have "st_workers (app_async app) = worker_registry_default" "st_dispatcher (app_async app) = dispatcher_default"
    by (simp_all add: app_state_of_def async_of_def)
  then show ?thesis
    using assms(2) started_inv [OF assms(2)]
    by (simp add: server_start_def main_server_def callback_start_def callbacks_of_def worker_registry_default_def
        worker_registry_new_def)
qed

lemma memory_boot_started:
  assumes "main_boot env get = Inr app" "parse_job_store get = Inr Store_Memory"
  shows "started (st_jobs (app_async app))"
proof -
  obtain cfg where boot: "main_jobs env cfg = Inr (st_jobs (app_async app))" "cfg_job_store cfg = Store_Memory"
    by (rule boot_job_store [OF assms])
  then have "st_jobs (app_async app) = registry_new (retention_of cfg)" by (simp add: main_jobs_def)
  then show ?thesis by (simp add: started_def registry_new_def)
qed

section \<open>Worker gauges\<close>

lemma known_workers_ok:
  assumes "server_inv True s"
  shows "workers_ok (st_workers (sv_async s))"
proof -
  have "ledger_reachable (idle (sv_async s))" using assms by (simp add: server_inv_def)
  from ledger_reachable_workers_ok [OF this] show ?thesis by (simp add: ledger_of_def)
qed

lemma utilization_row:
  assumes "workers_ok reg" "get_entry reg wid = Some w"
  shows "\<exists>s \<in> set (utilization_snapshots clk reg). wu_worker_id s = we_id w \<and> wu_node_id s = we_node_id w \<and>
    wu_in_flight_jobs s = in_flight_jobs w"
proof -
  have "snapshot_from_entry clk (stale_after reg) w \<in> set (list_workers clk reg)"
    using set_list_workers [OF assms(1)] assms(2) by blast
  then show ?thesis
    unfolding utilization_snapshots_def by (force simp: snapshot_from_entry_def Let_def)
qed

lemma sublist_concat_map: "x \<in> set xs \<Longrightarrow> sublist t (f x) \<Longrightarrow> sublist t (concat (map f xs))"
  by (induction xs) (auto intro: sublist_order.order_trans sublist_append_leftI sublist_append_rightI)

lemma worker_line_in_page:
  assumes "s \<in> set (utilization_snapshots clk2 reg2)"
  shows "sublist (metric_line ''fairlead_worker_in_flight_jobs'' (worker_labels s)
    (nat_to_string (wu_in_flight_jobs s))) (render_worker_metrics clk1 clk2 reg1 reg2)"
proof -
  have "sublist (metric_line ''fairlead_worker_in_flight_jobs'' (worker_labels s)
      (nat_to_string (wu_in_flight_jobs s))) (concat (map worker_lines (utilization_snapshots clk2 reg2)))"
    by (rule sublist_concat_map [OF assms]) (simp only: worker_lines_def sublist_append_rightI)
  then show ?thesis
    unfolding render_worker_metrics_def append_assoc [symmetric]
    by (rule sublist_order.order_trans) (rule sublist_append_leftI)
qed

text \<open>C17: From start-up to the metrics page, for the in-memory job store, whose writes cannot fail (with
  SQLite a failed write or a restart breaks this): the server starts from any accepted configuration
  that selects that store in a state from which, after any API calls with any answers, any turns of
  the sweep, pruning and callback recovery loops and any steps of delivery tasks, in any order,
  every registered worker has exactly as many slots in use as running jobs leased to it, and the
  page of \<open>GET /metrics\<close> has a line for the worker with exactly that number.\<close>

theorem memory_server_gauges_exact:
  assumes "main_boot env get = Inr app" and "parse_job_store get = Inr Store_Memory"
    and "run (server_step True quota) (main_server app) es t"
    and "get_entry (st_workers (sv_async t)) wid = Some w"
    and "mv_utilized v = (clk, st_workers (sv_async t))"
  shows "in_flight_jobs w = leased (inner (st_jobs (sv_async t))) wid \<and>
    sublist (metric_line ''fairlead_worker_in_flight_jobs''
       [(''worker'', prometheus_escape (we_id w)), (''node'', prometheus_escape (opt_str (we_node_id w)))]
       (nat_to_string (leased (inner (st_jobs (sv_async t))) wid))) (snd (snd (metrics_page v)))"
proof -
  have inv: "server_inv True t"
    by (rule sv.inv_reached [OF assms(3) boot_start [OF assms(1) memory_boot_started [OF assms(1,2)]]])
  note slots = server_balanced [OF inv assms(4)]
  obtain s where s: "s \<in> set (utilization_snapshots clk (st_workers (sv_async t)))" "wu_worker_id s = we_id w"
      "wu_node_id s = we_node_id w" "wu_in_flight_jobs s = in_flight_jobs w"
    using utilization_row [OF known_workers_ok [OF inv] assms(4)] by blast
  obtain clk1 reg1 where a: "mv_available v = (clk1, reg1)" by fastforce
  have "sublist (render_worker_metrics clk1 clk reg1 (st_workers (sv_async t))) (snd (snd (metrics_page v)))"
    unfolding metrics_page_def assms(5) a snd_conv prod.case append_assoc [symmetric]
    by (rule sublist_append_leftI)
  with worker_line_in_page [OF s(1)] have "sublist (metric_line ''fairlead_worker_in_flight_jobs''
      (worker_labels s) (nat_to_string (wu_in_flight_jobs s))) (snd (snd (metrics_page v)))"
    by (rule sublist_order.order_trans)
  then show ?thesis using slots s(2-4) by (simp only: worker_labels_def)
qed

text \<open>An environment for the examples: the configuration of \<open>Config_Props\<close> and one database.\<close>

definition ex_boot :: "job_db \<Rightarrow> (nat, nat) boot_env" where
  "ex_boot db =
     \<lparr>be_json = ex_json, be_db = (\<lambda>_. db), be_open_fault = None, be_load_fault = None, be_save_fault = None,
      be_codec = ex_codec, be_hash_order = rev, be_now = 50, be_sem = ex_sem,
      be_set_url_path = (\<lambda>_ _. None)\<rparr>"

definition ex_server_call :: "(nat, job_db) call_env" where
  "ex_server_call = \<lparr>ce_now = (\<lambda>_. 60), ce_clock = (\<lambda>_. ex_clock), ce_db = (\<lambda>_ _ db. Inr db)\<rparr>"

definition ex_server_workers :: worker_registry where
  "ex_server_workers = \<lparr>workers = [(''w1'', ex_entry 0)], stale_after = stale_after worker_registry_default\<rparr>"

lemma ex_register_default:
  "register ex_clock ex_register_request worker_registry_default =
     (ex_server_workers, Inr (snapshot_from_entry ex_clock (stale_after worker_registry_default) (ex_entry 0)))"
  by (simp add: register_def validate_worker_def ex_register_request_def eval_defs Let_def get_entry_def
      worker_registry_default_def worker_registry_new_def put_entry_def ex_server_workers_def ex_entry_def)

lemma ex_main_boot:
  "main_boot (ex_boot db) (ex_get None None) =
     Inr (app_state_of (ex_boot db) (ex_config None None) (registry_new (retention_of (ex_config None None))))"
proof -
  have "from_lookup ex_json (ex_get None None) = Inr (ex_config None None)" by (simp add: ex_from_lookup)
  moreover from from_lookup_fields(4) [OF this] have "cfg_job_store (ex_config None None) = Store_Memory"
    by (simp add: ex_rest)
  ultimately show ?thesis by (simp add: main_boot_def main_jobs_def ex_boot_def)
qed

definition ex_booted :: "(nat, nat) app_state" where
  "ex_booted = app_state_of (ex_boot empty_db) (ex_config None None) (registry_new (retention_of (ex_config None None)))"

definition ex_registered :: "(nat, job_db) server" where
  "ex_registered = \<lparr>sv_async = (app_async ex_booted)\<lparr>st_workers := ex_server_workers\<rparr>, sv_tasks = []\<rparr>"

lemma ex_server_run:
  "\<exists>resp. run (server_step strict 3) (main_server ex_booted) [Se_Api (Api_Register ex_register_request) resp] ex_registered"
proof -
  let ?st = "app_async ex_booted"
  have "\<not> cfg_strict_worker_pools (ex_config None None)"
    using from_lookup_fields(6) [OF ex_from_lookup [of None None]] by (simp add: flag_trimmed_def ex_get_def)
  then have r: "api_run ex_server_call (Api_Register ex_register_request) ?st = (?st\<lparr>st_workers := ex_server_workers\<rparr>,
       Resp 200 (Worker_Body (snapshot_from_entry ex_clock (stale_after worker_registry_default) (ex_entry 0))))"
    by (simp add: register_worker_def app_state_of_def async_of_def ex_booted_def ex_server_call_def ex_register_default Let_def)
  have "allowed strict ex_server_call"
    by (simp add: allowed_def env_store_ok_def store_ok_def persists_def ex_server_call_def split: option.split)
  moreover have "sv_async (main_server ex_booted) = ?st" by (simp add: main_server_def)
  moreover have "moved 3 (main_server ex_booted) (?st\<lparr>st_workers := ex_server_workers\<rparr>) = ex_registered"
    by (simp add: main_server_def moved_def spawned_def ex_registered_def)
  ultimately have "server_step strict 3 (main_server ex_booted)
      (Se_Api (Api_Register ex_register_request)
        (Resp 200 (Worker_Body (snapshot_from_entry ex_clock (stale_after worker_registry_default) (ex_entry 0)))))
      ex_registered"
    using r sv_api by metis
  then show ?thesis using run_one [where step = "server_step strict 3"] by blast
qed

definition ex_view :: "(nat, nat) metrics_view" where
  "ex_view =
     \<lparr>mv_backends = [], mv_counters = metrics_default, mv_limiter = limiter_default ex_sem,
      mv_resources = (ex_clock, resource_registry_default), mv_queued = inner_default,
      mv_waiting = (0, inner_default), mv_terminal = inner_default,
      mv_available = (ex_clock, ex_server_workers), mv_utilized = (ex_clock, ex_server_workers)\<rparr>"

theorem memory_server_gauges_exact_witness:
  "sublist (metric_line ''fairlead_worker_in_flight_jobs''
       [(''worker'', prometheus_escape ''w1''), (''node'', prometheus_escape [])] (nat_to_string 0))
     (snd (snd (metrics_page ex_view)))"
proof -
  have boot: "main_boot (ex_boot empty_db) (ex_get None None) = Inr ex_booted" unfolding ex_booted_def by (rule ex_main_boot)
  obtain resp where r: "run (server_step True 3) (main_server ex_booted)
      [Se_Api (Api_Register ex_register_request) resp] ex_registered" using ex_server_run by blast
  have w: "get_entry (st_workers (sv_async ex_registered)) ''w1'' = Some (ex_entry 0)"
    by (simp add: ex_registered_def ex_server_workers_def get_entry_def)
  have v: "mv_utilized ex_view = (ex_clock, st_workers (sv_async ex_registered))"
    by (simp add: ex_view_def ex_registered_def)
  from memory_server_gauges_exact [OF boot ex_rest(1) r w v] show ?thesis
    by (auto simp: opt_str_def)
qed

section \<open>Callbacks of the server\<close>

lemma observed_filter:
  "observed (notice_event_of k) (filter (\<lambda>e. e \<noteq> Ce_Other) es) = observed (notice_event_of k) es"
  by (induction es) (auto simp: notice_event_of_def split: option.split)

text \<open>C18: From start-up to the receivers: a server that starts without stored jobs notifies, after any API
  calls, turns of the loops and steps of delivery tasks, whether or not the store takes the writes,
  each job's receiver by POSTs one after another with increasing attempt numbers and none after an
  accepted one; it has marked the callback of a job delivered exactly if a POST was accepted, and
  runs at most one delivery task per job.\<close>

theorem server_notifies:
  assumes "main_boot env get = Inr app" and "started (st_jobs (app_async app))"
    and "run (server_step strict quota) (main_server app) es t"
    and l: "l = observed (notice_event_of k) (observed task_event es)"
  shows "receiver_shape l \<and>
    (\<forall>job. jobs (inner (st_jobs (sv_async t))) k = Some job \<longrightarrow> (callback_delivered job \<longleftrightarrow> N_Accept \<in> set l)) \<and>
    distinct (map fst (sv_tasks t))"
proof -
  let ?s = "main_server app"
  have start: "server_start strict ?s" by (rule boot_start [OF assms(1,2)])
  obtain fs where fs: "run (callback_step quota) (callbacks_of ?s) fs (callbacks_of t)"
      "filter (\<lambda>e. e \<noteq> Ce_Other) fs = observed task_event es"
    using server_callback_run [OF assms(3)] by blast
  have "callback_start (callbacks_of ?s)" "started (cs_jobs (callbacks_of ?s))"
    using start assms(2) by (simp_all add: server_start_def callbacks_of_def main_server_def)
  then have "log_at (notice_of k (callbacks_of t)) (observed (notice_event_of k) fs)"
    by (rule run_log [OF fs(1)])
  then have log: "log_at (notice_of k (callbacks_of t)) l"
    using observed_filter [of k fs] fs(2) l by simp
  have inv: "callback_inv (callbacks_of t)"
    using sv.inv_reached [OF assms(3) start] by (simp add: server_inv_def)
  then have "distinct (map fst (sv_tasks t))" by (simp add: callback_inv_def tasks_ok_def callbacks_of_def)
  moreover have "callback_delivered job \<longleftrightarrow> N_Accept \<in> set l"
    if "jobs (inner (st_jobs (sv_async t))) k = Some job" for job
    using log_delivered [OF log inv] that by (simp add: callbacks_of_def)
  ultimately show ?thesis using log_shape [OF log] by blast
qed

theorem server_notifies_witness:
  "started (st_jobs (app_async ex_booted)) \<and> receiver_shape (observed (notice_event_of ''job-1'')
     ([] :: nat callback_event list)) \<and> distinct (map fst (sv_tasks ex_registered))"
proof -
  have boot: "main_boot (ex_boot empty_db) (ex_get None None) = Inr ex_booted" unfolding ex_booted_def by (rule ex_main_boot)
  obtain resp where r: "run (server_step False 3) (main_server ex_booted)
      [Se_Api (Api_Register ex_register_request) resp] ex_registered" using ex_server_run by blast
  have st: "started (st_jobs (app_async ex_booted))" by (rule memory_boot_started [OF boot ex_rest(1)])
  from server_notifies [OF boot st r refl, of "''job-1''"] st show ?thesis by simp
qed

section \<open>Restart\<close>

lemma load_after_open:
  assumes "replace_registry_snapshot c None i db = Inr db'"
  shows "load_registry_snapshot c h None (bootstrap_schema db') = load_registry_snapshot c h None db'"
proof -
  from assms obtain rows where "db' = (bootstrap_schema db)\<lparr>db_rows := rows\<rparr>"
    by (auto simp: replace_registry_snapshot_def Let_def)
  then have "\<exists>cols. db_columns db' = Some cols \<and>
      set [''order_position'', ''callback_state_json'', ''idempotency_key'', ''terminal_attempt_json''] \<subseteq> set cols"
    using bootstrap_has [of db] by simp
  then show ?thesis by (simp add: load_registry_snapshot_def select_jobs_def bootstrap_rows [OF bootstrap_has])
qed

lemma restarted_jobs:
  assumes c: "codec_ok c" "registry_reads_back c i" and inv: "registry_inv i" and fit: "fits i" and h: "\<And>xs. set (h xs) = set xs"
    and saved: "replace_registry_snapshot c None i db = Inr db'"
    and ran: "with_store_and_retention c h lf sf now (bootstrap_schema db') policy = Inr reg"
  shows "jobs (inner reg) k = map_option (expire_job now) (jobs i k)" "registry_inv (inner reg)"
proof -
  let ?i0 = "i\<lparr>next_id := top_id i\<rparr>"
  have lf: "lf = None"
    using ran by (cases lf) (simp_all add: with_store_and_retention_def load_registry_snapshot_def)
  have load: "load_registry_snapshot c h None (bootstrap_schema db') = Inr ?i0"
    using save_load [OF c inv fit, of h db] h saved load_after_open [OF saved] by auto
  have inv0: "registry_inv ?i0" by (rule registry_inv_next_id [OF inv fit])
  obtain i1 report where sw: "requeue_expired_leases_locked now ?i0 = (i1, report)" by fastforce
  have "inner reg = i1"
    using ran load sw by (auto simp: with_store_and_retention_def lf)
  then show "jobs (inner reg) k = map_option (expire_job now) (jobs i k)" "registry_inv (inner reg)"
    using sweep_eq(2) [OF inv0 sw] sweep_locked_inv [OF inv0 sw] by simp_all
qed

lemma first_slot_after_register:
  assumes "register clk request worker_registry_default = (wreg, Inr snap)"
  shows "\<exists>wreg' s. try_acquire_slot clk (ws_id snap) wreg = (wreg', Acquired s)"
proof -
  from assms obtain entry where v: "validate_worker clk request = Inr entry" by (auto simp: register_def split: sum.splits)
  have limit: "we_max_concurrent_jobs entry \<noteq> Some 0"
    using v by (auto simp: validate_worker_def Let_def split: if_splits)
  show ?thesis
    using assms v limit
    by (auto simp: register_def Let_def get_entry_def worker_registry_default_def worker_registry_new_def
        put_entry_def try_acquire_slot_def snapshot_from_entry_def split: option.splits)
qed

text \<open>C37: A restart forgets the slots of running jobs. Started on the database of a saved registry, the
  server has every job whose lease has not expired still leased to its worker, but its worker
  registry is empty: such a worker has no slot in use and once it has registered again, with
  whatever limit, its first claim gets a slot. A worker that registered with one slot then runs two
  jobs at once, and the slots stay too few until the leases from before the restart have ended.\<close>

theorem restart_forgets_slots:
  assumes boot: "main_boot env get = Inr app" and path: "parse_job_store get = Inr (Store_Sqlite path)"
    and c: "codec_ok (be_codec env)" "registry_reads_back (be_codec env) i" and h: "\<And>xs. set (be_hash_order env xs) = set xs"
    and inv: "registry_inv i" and fit: "fits i"
    and saved: "replace_registry_snapshot (be_codec env) None i db = Inr (be_db env path)"
    and job: "jobs i jid = Some job" "leased_to wid job" "\<not> is_expired (be_now env) job"
  shows "jobs (inner (st_jobs (app_async app))) jid = Some job \<and>
    1 \<le> leased (inner (st_jobs (app_async app))) wid \<and> slots_used (st_workers (app_async app)) wid = 0 \<and>
    (\<forall>clk request wreg snap. register clk request (st_workers (app_async app)) = (wreg, Inr snap) \<and> ws_id snap = wid \<longrightarrow>
       (\<exists>wreg' s. try_acquire_slot clk wid wreg = (wreg', Acquired s)))"
proof -
  obtain cfg where b: "cfg_job_store cfg = Store_Sqlite path" "main_jobs env cfg = Inr (st_jobs (app_async app))"
    "app = app_state_of env cfg (st_jobs (app_async app))" by (rule boot_job_store [OF boot path])
  have workers: "st_workers (app_async app) = worker_registry_default" by (subst b(3)) simp
  from b(1,2) have "with_store_and_retention (be_codec env) (be_hash_order env) (be_load_fault env) (be_save_fault env)
      (be_now env) (bootstrap_schema (be_db env path)) (retention_of cfg) = Inr (st_jobs (app_async app))"
    by (auto simp: main_jobs_def open_store_def split: option.splits)
  note restarted = restarted_jobs [OF c inv fit h saved this]
  have kept: "jobs (inner (st_jobs (app_async app))) jid = Some job"
    using restarted(1) [of jid] job by (simp add: expire_job_def)
  then have "jid \<in> {jid. job_sat (leased_to wid) (inner (st_jobs (app_async app))) jid}"
    using job(2) by (simp add: job_sat_def)
  then have "1 \<le> leased (inner (st_jobs (app_async app))) wid"
    unfolding leased_def using finite_sat [OF restarted(2)] by (simp add: Suc_le_eq card_gt_0_iff) blast
  moreover have "slots_used worker_registry_default wid = 0"
    by (simp add: slots_used_def get_entry_def worker_registry_default_def worker_registry_new_def)
  ultimately show ?thesis using kept first_slot_after_register unfolding workers by blast
qed

theorem restart_forgets_slots_witness:
  "\<exists>db' app wreg wreg' s1 s2.
     replace_registry_snapshot ex_codec None (inner (ex_reg ex_running [])) empty_db = Inr db' \<and>
     main_boot (ex_boot db') (ex_get None (Some '' SQLite'')) = Inr app \<and>
     1 \<le> leased (inner (st_jobs (app_async app))) ''w1'' \<and>
     register ex_clock ex_register_request (st_workers (app_async app)) = (wreg, Inr s1) \<and>
     ws_max_concurrent_jobs s1 = Some 1 \<and> try_acquire_slot ex_clock ''w1'' wreg = (wreg', Acquired s2)"
proof -
  let ?i = "inner (ex_reg ex_running [])" and ?get = "ex_get None (Some '' SQLite'')"
  let ?cfg = "ex_config None (Some '' SQLite'')"
  from save_load [OF ex_codec_ok ex_registry_reads_back ex_inv(2) ex_fits, of rev empty_db] obtain db' where
    saved: "replace_registry_snapshot ex_codec None ?i empty_db = Inr db'"
    and load: "load_registry_snapshot ex_codec rev None db' = Inr (?i\<lparr>next_id := top_id ?i\<rparr>)" by auto
  have lookup: "from_lookup ex_json ?get = Inr ?cfg" by (simp add: ex_from_lookup)
  then have "cfg_job_store ?cfg = Store_Sqlite DEFAULT_JOB_DB_PATH"
    using from_lookup_fields(4) ex_rest(2) by fastforce
  moreover have "requeue_expired_leases_locked 50 (?i\<lparr>next_id := n\<rparr>) = (?i\<lparr>next_id := n\<rparr>, expiry_report_default)" for n
    by (simp add: requeue_expired_leases_locked_def expire_step_def)
  ultimately obtain app where boot: "main_boot (ex_boot db') ?get = Inr app"
    using lookup load load_after_open [OF saved, of rev]
    by (simp add: main_boot_def main_jobs_def ex_boot_def open_store_def with_store_and_retention_def
        expiry_report_default_def)
  have "leased_to ''w1'' ex_running" "\<not> is_expired 50 ex_running"
    by (simp_all add: leased_to_def is_expired_def)
  moreover have "codec_ok (be_codec (ex_boot db'))" "registry_reads_back (be_codec (ex_boot db')) ?i" "\<And>xs. set (be_hash_order (ex_boot db') xs) = set xs"
    "be_now (ex_boot db') = 50"
    "replace_registry_snapshot (be_codec (ex_boot db')) None ?i empty_db = Inr (be_db (ex_boot db') DEFAULT_JOB_DB_PATH)"
    using ex_codec_ok ex_registry_reads_back saved by (simp_all add: ex_boot_def)
  ultimately have facts: "1 \<le> leased (inner (st_jobs (app_async app))) ''w1'' \<and>
    (\<forall>clk request wreg snap. register clk request (st_workers (app_async app)) = (wreg, Inr snap) \<and> ws_id snap = ''w1'' \<longrightarrow>
       (\<exists>wreg' s. try_acquire_slot clk ''w1'' wreg = (wreg', Acquired s)))"
    using restart_forgets_slots [OF boot ex_rest(2) _ _ _ ex_inv(2) ex_fits, of empty_db "''job-1''" ex_running "''w1''"]
    by (metis (no_types, lifting) ex_reg_simps(1) fun_upd_same)
  have "st_workers (app_async app) = worker_registry_default"
    using boot by (auto elim!: main_boot_cases)
  then have "register ex_clock ex_register_request (st_workers (app_async app)) =
      (ex_server_workers, Inr (snapshot_from_entry ex_clock (stale_after worker_registry_default) (ex_entry 0)))"
    by (simp add: ex_register_default)
  moreover from this facts obtain wreg' s where "try_acquire_slot ex_clock ''w1'' ex_server_workers = (wreg', Acquired s)"
    by fastforce
  ultimately show ?thesis using saved boot facts by (intro exI conjI) (assumption | simp)+
qed

end
