(* ===== verification/Http.thy ===== *)
theory Http
  imports Server Api_Ledger Metrics_Render Proxy_Forward
begin

text \<open>
  The HTTP surface of the server: the routes of \<open>build_router\<close> in \<open>src/src/main.rs\<close>, what the
  extractors of each handler take from a request, and the handler that answers it. The router, the
  path and JSON extractors and the percent decoding are axum's: they are the parameter \<open>http_lib\<close>,
  and \<open>router_ok\<close> and \<open>percent_ok\<close> state the documented behaviour that the properties use. Also
  \<open>src/src/health.rs\<close> and the error type of \<open>src/src/error.rs\<close>.
\<close>

section \<open>Routes\<close>

datatype http_method = GET | POST | DELETE

datatype endpoint =
    Ep_Health | Ep_Metrics | Ep_List_Resources | Ep_Report_Resources | Ep_List_Models
  | Ep_List_Jobs | Ep_Submit_Job | Ep_Prune_Jobs | Ep_Get_Job | Ep_Cancel_Job | Ep_Preview
  | Ep_List_Workers | Ep_Register | Ep_Deregister | Ep_Drain | Ep_Reactivate | Ep_Claim
  | Ep_Renew | Ep_Complete | Ep_Fail | Ep_Heartbeat | Ep_Chat | Ep_Embeddings

type_synonym route_table = "(string \<times> (http_method \<times> endpoint) list) list"

definition build_router :: route_table where
  "build_router =
     [(''/health'', [(GET, Ep_Health)]),
      (''/metrics'', [(GET, Ep_Metrics)]),
      (''/v1/resources'', [(GET, Ep_List_Resources)]),
      (''/v1/resources/report'', [(POST, Ep_Report_Resources)]),
      (''/v1/models'', [(GET, Ep_List_Models)]),
      (''/v1/jobs'', [(GET, Ep_List_Jobs), (POST, Ep_Submit_Job)]),
      (''/v1/jobs/prune'', [(POST, Ep_Prune_Jobs)]),
      (''/v1/jobs/:id'', [(GET, Ep_Get_Job), (DELETE, Ep_Cancel_Job)]),
      (''/v1/scheduler/preview'', [(GET, Ep_Preview)]),
      (''/v1/workers'', [(GET, Ep_List_Workers)]),
      (''/v1/workers/register'', [(POST, Ep_Register)]),
      (''/v1/workers/:id'', [(DELETE, Ep_Deregister)]),
      (''/v1/workers/:id/drain'', [(POST, Ep_Drain)]),
      (''/v1/workers/:id/reactivate'', [(POST, Ep_Reactivate)]),
      (''/v1/workers/:id/claim'', [(POST, Ep_Claim)]),
      (''/v1/workers/:worker_id/jobs/:job_id/renew'', [(POST, Ep_Renew)]),
      (''/v1/workers/:worker_id/jobs/:job_id/complete'', [(POST, Ep_Complete)]),
      (''/v1/workers/:worker_id/jobs/:job_id/fail'', [(POST, Ep_Fail)]),
      (''/v1/workers/:id/heartbeat'', [(POST, Ep_Heartbeat)]),
      (''/v1/chat/completions'', [(POST, Ep_Chat)]),
      (''/v1/embeddings'', [(POST, Ep_Embeddings)])]"

section \<open>What is known of the router\<close>

datatype routed = Routed endpoint "string list" | Wrong_Method | No_Route

text \<open>A pattern matches segment by segment; a segment \<open>:name\<close> captures any non-empty one.\<close>

definition is_capture :: "string \<Rightarrow> bool" where
  "is_capture seg \<longleftrightarrow> take 1 seg = '':''"

fun captures :: "string list \<Rightarrow> string list \<Rightarrow> string list option" where
  "captures [] [] = Some []"
| "captures (p # ps) (s # ss) =
     (if is_capture p then (if s = [] then None else map_option ((#) s) (captures ps ss))
      else if p = s then captures ps ss else None)"
| "captures _ _ = None"

text \<open>The first segment in which two patterns differ decides: the literal one goes first.\<close>

fun goes_first :: "string list \<Rightarrow> string list \<Rightarrow> bool" where
  "goes_first (p # ps) (q # qs) =
     (if is_capture p \<and> is_capture q \<or> p = q then goes_first ps qs else \<not> is_capture p \<and> is_capture q)"
| "goes_first _ _ = False"

definition matches :: "string list \<Rightarrow> string \<times> 'a \<Rightarrow> bool" where
  "matches segs entry \<longleftrightarrow> captures (split_on (CHR ''/'') (fst entry)) segs \<noteq> None"

definition chosen :: "route_table \<Rightarrow> string list \<Rightarrow> string \<times> (http_method \<times> endpoint) list \<Rightarrow> bool" where
  "chosen table segs entry \<longleftrightarrow> matches segs entry \<and>
     list_all (\<lambda>other. other = entry \<or> \<not> matches segs other \<or>
       goes_first (split_on (CHR ''/'') (fst entry)) (split_on (CHR ''/'') (fst other))) table"

definition answer_of :: "http_method \<Rightarrow> string list \<Rightarrow> string \<times> (http_method \<times> endpoint) list \<Rightarrow> routed" where
  "answer_of m segs entry =
     (case map_of (snd entry) m of
        None \<Rightarrow> Wrong_Method
      | Some e \<Rightarrow> Routed e (the (captures (split_on (CHR ''/'') (fst entry)) segs)))"

definition router_ok :: "(route_table \<Rightarrow> http_method \<Rightarrow> string \<Rightarrow> routed) \<Rightarrow> bool" where
  "router_ok router \<longleftrightarrow>
     (\<forall>table m path.
        (\<forall>entry \<in> set table. chosen table (split_on (CHR ''/'') path) entry \<longrightarrow>
           router table m path = answer_of m (split_on (CHR ''/'') path) entry) \<and>
        ((\<forall>entry \<in> set table. \<not> matches (split_on (CHR ''/'') path) entry) \<longrightarrow> router table m path = No_Route))"

section \<open>Requests and their extractors\<close>

text \<open>A rejection of an extractor is a status and a text.\<close>

type_synonym 'a extractor = "header_map \<Rightarrow> string \<Rightarrow> (nat \<times> string) + 'a"

record 'v http_lib =
  hl_router :: "route_table \<Rightarrow> http_method \<Rightarrow> string \<Rightarrow> routed"
  hl_percent :: "string \<Rightarrow> (nat \<times> string) + string"
  hl_submit :: "'v submit_job_request extractor"
  hl_complete :: "('v \<times> nat option) extractor"
  hl_fail :: "(string \<times> bool \<times> nat option) extractor"
  hl_register :: "register_worker_request extractor"
  hl_report :: "resource_report_request extractor"

record http_request =
  hr_method :: http_method
  hr_path :: string
  hr_headers :: header_map
  hr_body :: string

definition percent_ok :: "(string \<Rightarrow> (nat \<times> string) + string) \<Rightarrow> bool" where
  "percent_ok percent \<longleftrightarrow> (\<forall>s. CHR ''%'' \<notin> set s \<longrightarrow> percent s = Inr s)"

text \<open>The call that a request to a state-changing endpoint of the job and worker API makes; the path
  is extracted before the body. \<open>None\<close>: the endpoint is of another kind.\<close>

definition with_id :: "'v http_lib \<Rightarrow> string list \<Rightarrow> (string \<Rightarrow> (nat \<times> string) + 'c) \<Rightarrow> (nat \<times> string) + 'c" where
  "with_id lib caps f = (case caps of [i] \<Rightarrow> and_then (hl_percent lib i) f | _ \<Rightarrow> Inl (500, ''path''))"

definition with_ids ::
  "'v http_lib \<Rightarrow> string list \<Rightarrow> (string \<Rightarrow> string \<Rightarrow> (nat \<times> string) + 'c) \<Rightarrow> (nat \<times> string) + 'c" where
  "with_ids lib caps f =
     (case caps of [i, j] \<Rightarrow> and_then (hl_percent lib i) (\<lambda>w. and_then (hl_percent lib j) (f w)) | _ \<Rightarrow> Inl (500, ''path''))"

definition with_body ::
  "'a extractor \<Rightarrow> http_request \<Rightarrow> ('a \<Rightarrow> (nat \<times> string) + 'c) \<Rightarrow> (nat \<times> string) + 'c" where
  "with_body json rq f = and_then (json (hr_headers rq) (hr_body rq)) f"

definition call_of ::
  "'v http_lib \<Rightarrow> http_request \<Rightarrow> endpoint \<Rightarrow> string list \<Rightarrow> ((nat \<times> string) + 'v api_call) option" where
  "call_of lib rq e caps =
     (case e of
        Ep_Submit_Job \<Rightarrow> Some (with_body (hl_submit lib) rq (\<lambda>r. Inr (Api_Submit r)))
      | Ep_Prune_Jobs \<Rightarrow> Some (Inr Api_Prune)
      | Ep_Cancel_Job \<Rightarrow> Some (with_id lib caps (\<lambda>i. Inr (Api_Cancel i)))
      | Ep_Register \<Rightarrow> Some (with_body (hl_register lib) rq (\<lambda>r. Inr (Api_Register r)))
      | Ep_Deregister \<Rightarrow> Some (with_id lib caps (\<lambda>i. Inr (Api_Deregister i)))
      | Ep_Drain \<Rightarrow> Some (with_id lib caps (\<lambda>i. Inr (Api_Drain i)))
      | Ep_Reactivate \<Rightarrow> Some (with_id lib caps (\<lambda>i. Inr (Api_Reactivate i)))
      | Ep_Heartbeat \<Rightarrow> Some (with_id lib caps (\<lambda>i. Inr (Api_Heartbeat i)))
      | Ep_Claim \<Rightarrow> Some (with_id lib caps (\<lambda>i. Inr (Api_Claim i)))
      | Ep_Renew \<Rightarrow> Some (with_ids lib caps (\<lambda>w j. Inr (Api_Renew w j)))
      | Ep_Complete \<Rightarrow> Some (with_ids lib caps (\<lambda>w j.
          with_body (hl_complete lib) rq (\<lambda>(r, att). Inr (Api_Complete w j att r))))
      | Ep_Fail \<Rightarrow> Some (with_ids lib caps (\<lambda>w j.
          with_body (hl_fail lib) rq (\<lambda>(err, retry, att). Inr (Api_Fail w j att err retry))))
      | _ \<Rightarrow> None)"

section \<open>Serving a request\<close>

datatype 'v http_response =
    Api_Response "'v response"
  | Rejected nat string
  | Status_Only nat
  | Page nat string string
  | Resource_List "resource_snapshot list"
  | Resource_Answer nat "string + resource_snapshot"
  | Model_List "string \<times> model_info list"
  | Health_Status string
  | Forwarded proxy_response
  | No_Answer

text \<open>What the handlers find outside the state: the clocks and stores of an async handler, the clients
  and clocks of a forwarded request, and what the metrics handler reads between other tasks.\<close>

record ('v, 's) http_env =
  he_lib :: "'v http_lib"
  he_call :: "('v, job_db) call_env"
  he_proxy :: "'s proxy_env"
  he_view :: "('v, 's) metrics_view"
  he_clock :: clock

definition health :: string where
  "health = ''ok''"

definition forwarded ::
  "('v, 's) app_state \<Rightarrow> ('s proxy_state \<times> proxy_response) option \<Rightarrow> ('v, 's) app_state \<times> 'v http_response" where
  "forwarded app out =
     (case out of
        None \<Rightarrow> (app, No_Answer)
      | Some (px, answer) \<Rightarrow> (app\<lparr>app_proxy := px\<rparr>, Forwarded answer))"

text \<open>The endpoints that do not change the jobs or the workers.\<close>

definition serve_other ::
  "('v, 's) http_env \<Rightarrow> http_request \<Rightarrow> endpoint \<Rightarrow> string list \<Rightarrow> ('v, 's) app_state
     \<Rightarrow> ('v, 's) app_state \<times> 'v http_response" where
  "serve_other env rq e caps app =
     (case e of
        Ep_Metrics \<Rightarrow> (case metrics_page (he_view env) of (status, kind, text) \<Rightarrow> (app, Page status kind text))
      | Ep_List_Resources \<Rightarrow> (app, Resource_List (list_resources (he_clock env) (px_resources (app_proxy app))))
      | Ep_Report_Resources \<Rightarrow>
          (case hl_report (he_lib env) (hr_headers rq) (hr_body rq) of
             Inl (status, msg) \<Rightarrow> (app, Rejected status msg)
           | Inr request \<Rightarrow>
               (case report_resources (he_clock env) request (px_resources (app_proxy app)) of
                  (reg, status, answer) \<Rightarrow>
                    (app\<lparr>app_proxy := (app_proxy app)\<lparr>px_resources := reg\<rparr>\<rparr>, Resource_Answer status answer)))
      | Ep_List_Models \<Rightarrow> (app, Model_List (list_models (px_backends (app_proxy app))))
      | Ep_List_Jobs \<Rightarrow> (app, Api_Response (list_jobs_handler (app_async app)))
      | Ep_Get_Job \<Rightarrow>
          (case with_id (he_lib env) caps Inr of
             Inl (status, msg) \<Rightarrow> (app, Rejected status msg)
           | Inr jid \<Rightarrow> (app, Api_Response (get_job jid (app_async app))))
      | Ep_Preview \<Rightarrow> (app, Api_Response (preview_next_assignment_handler (he_call env) (app_async app)))
      | Ep_List_Workers \<Rightarrow> (app, Api_Response (list_workers_handler (he_call env) (app_async app)))
      | Ep_Chat \<Rightarrow> forwarded app (chat_completions (he_proxy env) (hr_headers rq) (hr_body rq) (app_proxy app))
      | Ep_Embeddings \<Rightarrow> forwarded app (embeddings (he_proxy env) (hr_headers rq) (hr_body rq) (app_proxy app))
      | Ep_Health \<Rightarrow> (app, Health_Status health)
      | _ \<Rightarrow> (app, No_Answer))"

definition serve ::
  "('v, 's) http_env \<Rightarrow> http_request \<Rightarrow> ('v, 's) app_state \<Rightarrow> ('v, 's) app_state \<times> 'v http_response" where
  "serve env rq app =
     (case hl_router (he_lib env) build_router (hr_method rq) (hr_path rq) of
        No_Route \<Rightarrow> (app, Status_Only 404)
      | Wrong_Method \<Rightarrow> (app, Status_Only 405)
      | Routed e caps \<Rightarrow>
          (case call_of (he_lib env) rq e caps of
             None \<Rightarrow> serve_other env rq e caps app
           | Some (Inl (status, msg)) \<Rightarrow> (app, Rejected status msg)
           | Some (Inr call) \<Rightarrow>
               (case api_run (he_call env) call (app_async app) of
                  (st, answer) \<Rightarrow> (app\<lparr>app_async := st\<rparr>, Api_Response answer))))"

section \<open>The error type\<close>

text \<open>\<open>FairleadError\<close> with its messages and the response it converts to.\<close>

datatype fairlead_error =
    No_Backend
  | No_Worker string
  | Backend_Error string
  | Config_Error string

fun error_message :: "fairlead_error \<Rightarrow> string" where
  "error_message No_Backend = ''no backend available (all circuits open or insufficient VRAM)''"
| "error_message (No_Worker t) = ''job type '' @ quoted t @ '' has no registered worker''"
| "error_message (Backend_Error e) = ''backend returned an error: '' @ e"
| "error_message (Config_Error e) = ''configuration error: '' @ e"

fun error_status :: "fairlead_error \<Rightarrow> nat" where
  "error_status No_Backend = 503"
| "error_status (No_Worker t) = 400"
| "error_status (Backend_Error e) = 502"
| "error_status (Config_Error e) = 500"

definition error_response :: "fairlead_error \<Rightarrow> nat \<times> string" where
  "error_response e = (error_status e, error_message e)"

end
