(* ===== verification/Http_Props.thy ===== *)
theory Http_Props
  imports Http Proxy_Props Server_Props
begin

text \<open>
  Properties of the HTTP surface: which requests reach which handler, that every request is answered,
  and that serving a request is at most one step of the server of \<open>Server_Steps\<close>.
\<close>

section \<open>Paths\<close>

lemma split_on_last: "c \<notin> set s \<Longrightarrow> split_on c s = [s]"
  by (induction s) auto

lemma split_on_segment: "c \<notin> set s \<Longrightarrow> split_on c (s @ c # t) = s # split_on c t"
  by (induction s) auto

text \<open>The segments of the patterns of \<open>build_router\<close>.\<close>

lemma route_segments:
  "map (split_on (CHR ''/'') \<circ> fst) build_router =
     [['''', ''health''], ['''', ''metrics''], ['''', ''v1'', ''resources''], ['''', ''v1'', ''resources'', ''report''],
      ['''', ''v1'', ''models''], ['''', ''v1'', ''jobs''], ['''', ''v1'', ''jobs'', ''prune''], ['''', ''v1'', ''jobs'', '':id''],
      ['''', ''v1'', ''scheduler'', ''preview''], ['''', ''v1'', ''workers''], ['''', ''v1'', ''workers'', ''register''],
      ['''', ''v1'', ''workers'', '':id''], ['''', ''v1'', ''workers'', '':id'', ''drain''],
      ['''', ''v1'', ''workers'', '':id'', ''reactivate''], ['''', ''v1'', ''workers'', '':id'', ''claim''],
      ['''', ''v1'', ''workers'', '':worker_id'', ''jobs'', '':job_id'', ''renew''],
      ['''', ''v1'', ''workers'', '':worker_id'', ''jobs'', '':job_id'', ''complete''],
      ['''', ''v1'', ''workers'', '':worker_id'', ''jobs'', '':job_id'', ''fail''],
      ['''', ''v1'', ''workers'', '':id'', ''heartbeat''], ['''', ''v1'', ''chat'', ''completions''],
      ['''', ''v1'', ''embeddings'']]"
  by (simp add: build_router_def)

section \<open>Requests that make a call\<close>

text \<open>A text that can be one segment of a path.\<close>

definition plain_id :: "string \<Rightarrow> bool" where
  "plain_id s \<longleftrightarrow> s \<noteq> [] \<and> CHR ''/'' \<notin> set s"

fun request_line :: "'v api_call \<Rightarrow> http_method \<times> string" where
  "request_line (Api_Submit r) = (POST, ''/v1/jobs'')"
| "request_line Api_Prune = (POST, ''/v1/jobs/prune'')"
| "request_line (Api_Cancel jid) = (DELETE, ''/v1/jobs/'' @ jid)"
| "request_line (Api_Register r) = (POST, ''/v1/workers/register'')"
| "request_line (Api_Deregister w) = (DELETE, ''/v1/workers/'' @ w)"
| "request_line (Api_Drain w) = (POST, ''/v1/workers/'' @ w @ ''/drain'')"
| "request_line (Api_Reactivate w) = (POST, ''/v1/workers/'' @ w @ ''/reactivate'')"
| "request_line (Api_Heartbeat w) = (POST, ''/v1/workers/'' @ w @ ''/heartbeat'')"
| "request_line (Api_Claim w) = (POST, ''/v1/workers/'' @ w @ ''/claim'')"
| "request_line (Api_Renew w jid) = (POST, ''/v1/workers/'' @ w @ ''/jobs/'' @ jid @ ''/renew'')"
| "request_line (Api_Complete w jid att r) = (POST, ''/v1/workers/'' @ w @ ''/jobs/'' @ jid @ ''/complete'')"
| "request_line (Api_Fail w jid att err retry) = (POST, ''/v1/workers/'' @ w @ ''/jobs/'' @ jid @ ''/fail'')"

fun ids_fit :: "'v api_call \<Rightarrow> bool" where
  "ids_fit (Api_Cancel jid) = (plain_id jid \<and> jid \<noteq> ''prune'')"
| "ids_fit (Api_Deregister w) = (plain_id w \<and> w \<noteq> ''register'')"
| "ids_fit (Api_Drain w) = plain_id w"
| "ids_fit (Api_Reactivate w) = plain_id w"
| "ids_fit (Api_Heartbeat w) = plain_id w"
| "ids_fit (Api_Claim w) = plain_id w"
| "ids_fit (Api_Renew w jid) = (plain_id w \<and> plain_id jid)"
| "ids_fit (Api_Complete w jid att r) = (plain_id w \<and> plain_id jid)"
| "ids_fit (Api_Fail w jid att err retry) = (plain_id w \<and> plain_id jid)"
| "ids_fit _ = True"

text \<open>The ids of a call, and the call with its ids written as they stand in the path.\<close>

fun call_ids :: "'v api_call \<Rightarrow> string list" where
  "call_ids (Api_Cancel jid) = [jid]"
| "call_ids (Api_Deregister w) = [w]"
| "call_ids (Api_Drain w) = [w]"
| "call_ids (Api_Reactivate w) = [w]"
| "call_ids (Api_Heartbeat w) = [w]"
| "call_ids (Api_Claim w) = [w]"
| "call_ids (Api_Renew w jid) = [w, jid]"
| "call_ids (Api_Complete w jid att r) = [w, jid]"
| "call_ids (Api_Fail w jid att err retry) = [w, jid]"
| "call_ids _ = []"

fun written :: "(string \<Rightarrow> string) \<Rightarrow> 'v api_call \<Rightarrow> 'v api_call" where
  "written esc (Api_Cancel jid) = Api_Cancel (esc jid)"
| "written esc (Api_Deregister w) = Api_Deregister (esc w)"
| "written esc (Api_Drain w) = Api_Drain (esc w)"
| "written esc (Api_Reactivate w) = Api_Reactivate (esc w)"
| "written esc (Api_Heartbeat w) = Api_Heartbeat (esc w)"
| "written esc (Api_Claim w) = Api_Claim (esc w)"
| "written esc (Api_Renew w jid) = Api_Renew (esc w) (esc jid)"
| "written esc (Api_Complete w jid att r) = Api_Complete (esc w) (esc jid) att r"
| "written esc (Api_Fail w jid att err retry) = Api_Fail (esc w) (esc jid) att err retry"
| "written esc call = call"

text \<open>The JSON extractor of the call's handler reads the call's data from the body.\<close>

fun body_fits :: "'v http_lib \<Rightarrow> http_request \<Rightarrow> 'v api_call \<Rightarrow> bool" where
  "body_fits lib rq (Api_Submit r) = (hl_submit lib (hr_headers rq) (hr_body rq) = Inr r)"
| "body_fits lib rq (Api_Register r) = (hl_register lib (hr_headers rq) (hr_body rq) = Inr r)"
| "body_fits lib rq (Api_Complete w jid att r) = (hl_complete lib (hr_headers rq) (hr_body rq) = Inr (r, att))"
| "body_fits lib rq (Api_Fail w jid att err retry) = (hl_fail lib (hr_headers rq) (hr_body rq) = Inr (err, retry, att))"
| "body_fits lib rq _ = True"

lemma routed_to:
  assumes "router_ok router" "entry \<in> set build_router" "split_on (CHR ''/'') path = segs"
    "chosen build_router segs entry"
  shows "router build_router m path = answer_of m segs entry"
  using assms unfolding router_ok_def by blast

lemma plain_segments:
  assumes "plain_id w"
  shows "split_on (CHR ''/'') w = [w]"
    "split_on (CHR ''/'') (w @ CHR ''/'' # t) = w # split_on (CHR ''/'') t"
  using assms by (simp_all add: plain_id_def split_on_last split_on_segment)

lemma plain_nonempty: "plain_id w \<Longrightarrow> w \<noteq> []"
  by (simp add: plain_id_def)

lemma routed_via:
  assumes "router_ok router" "split_on (CHR ''/'') path = segs" "entry \<in> set build_router"
    "chosen build_router segs entry" "map_of (snd entry) m = Some e"
    "captures (split_on (CHR ''/'') (fst entry)) segs = Some caps"
  shows "router build_router m path = Routed e caps"
  using routed_to [OF assms(1,3,2,4), of m] assms(5,6) by (simp add: answer_of_def)

lemmas route_eval = chosen_def matches_def build_router_def is_capture_def

lemma worker_routes:
  assumes ok: "router_ok router" and w: "plain_id w"
  shows "router build_router POST (''/v1/workers/'' @ w @ ''/claim'') = Routed Ep_Claim [w]"
    "router build_router POST (''/v1/workers/'' @ w @ ''/drain'') = Routed Ep_Drain [w]"
    "router build_router POST (''/v1/workers/'' @ w @ ''/reactivate'') = Routed Ep_Reactivate [w]"
    "router build_router POST (''/v1/workers/'' @ w @ ''/heartbeat'') = Routed Ep_Heartbeat [w]"
proof -
  note eval = plain_segments [OF w] plain_nonempty [OF w] route_eval
  show "router build_router POST (''/v1/workers/'' @ w @ ''/claim'') = Routed Ep_Claim [w]"
    by (rule routed_via [OF ok, where entry = "(''/v1/workers/:id/claim'', [(POST, Ep_Claim)])" and segs = "['''', ''v1'', ''workers'', w, ''claim'']"]) (simp_all add: eval)
  show "router build_router POST (''/v1/workers/'' @ w @ ''/drain'') = Routed Ep_Drain [w]"
    by (rule routed_via [OF ok, where entry = "(''/v1/workers/:id/drain'', [(POST, Ep_Drain)])" and segs = "['''', ''v1'', ''workers'', w, ''drain'']"]) (simp_all add: eval)
  show "router build_router POST (''/v1/workers/'' @ w @ ''/reactivate'') = Routed Ep_Reactivate [w]"
    by (rule routed_via [OF ok, where entry = "(''/v1/workers/:id/reactivate'', [(POST, Ep_Reactivate)])" and segs = "['''', ''v1'', ''workers'', w, ''reactivate'']"]) (simp_all add: eval)
  show "router build_router POST (''/v1/workers/'' @ w @ ''/heartbeat'') = Routed Ep_Heartbeat [w]"
    by (rule routed_via [OF ok, where entry = "(''/v1/workers/:id/heartbeat'', [(POST, Ep_Heartbeat)])" and segs = "['''', ''v1'', ''workers'', w, ''heartbeat'']"]) (simp_all add: eval)
qed

lemma report_routes:
  assumes ok: "router_ok router" and w: "plain_id w" and j: "plain_id j"
  shows "router build_router POST (''/v1/workers/'' @ w @ ''/jobs/'' @ j @ ''/renew'') = Routed Ep_Renew [w, j]"
    "router build_router POST (''/v1/workers/'' @ w @ ''/jobs/'' @ j @ ''/complete'') = Routed Ep_Complete [w, j]"
    "router build_router POST (''/v1/workers/'' @ w @ ''/jobs/'' @ j @ ''/fail'') = Routed Ep_Fail [w, j]"
proof -
  note eval = plain_segments [OF w] plain_nonempty [OF w] plain_segments [OF j] plain_nonempty [OF j] route_eval
  show "router build_router POST (''/v1/workers/'' @ w @ ''/jobs/'' @ j @ ''/renew'') = Routed Ep_Renew [w, j]"
    by (rule routed_via [OF ok, where entry = "(''/v1/workers/:worker_id/jobs/:job_id/renew'', [(POST, Ep_Renew)])" and segs = "['''', ''v1'', ''workers'', w, ''jobs'', j, ''renew'']"]) (simp_all add: eval)
  show "router build_router POST (''/v1/workers/'' @ w @ ''/jobs/'' @ j @ ''/complete'') = Routed Ep_Complete [w, j]"
    by (rule routed_via [OF ok, where entry = "(''/v1/workers/:worker_id/jobs/:job_id/complete'', [(POST, Ep_Complete)])" and segs = "['''', ''v1'', ''workers'', w, ''jobs'', j, ''complete'']"]) (simp_all add: eval)
  show "router build_router POST (''/v1/workers/'' @ w @ ''/jobs/'' @ j @ ''/fail'') = Routed Ep_Fail [w, j]"
    by (rule routed_via [OF ok, where entry = "(''/v1/workers/:worker_id/jobs/:job_id/fail'', [(POST, Ep_Fail)])" and segs = "['''', ''v1'', ''workers'', w, ''jobs'', j, ''fail'']"]) (simp_all add: eval)
qed

lemma fixed_routes:
  assumes ok: "router_ok router"
  shows "router build_router POST ''/v1/jobs'' = Routed Ep_Submit_Job []"
    "router build_router POST ''/v1/jobs/prune'' = Routed Ep_Prune_Jobs []"
    "router build_router POST ''/v1/workers/register'' = Routed Ep_Register []"
proof -
  note eval = route_eval
  show "router build_router POST ''/v1/jobs'' = Routed Ep_Submit_Job []"
    by (rule routed_via [OF ok, where entry = "(''/v1/jobs'', [(GET, Ep_List_Jobs), (POST, Ep_Submit_Job)])" and segs = "['''', ''v1'', ''jobs'']"]) (simp_all add: eval)
  show "router build_router POST ''/v1/jobs/prune'' = Routed Ep_Prune_Jobs []"
    by (rule routed_via [OF ok, where entry = "(''/v1/jobs/prune'', [(POST, Ep_Prune_Jobs)])" and segs = "['''', ''v1'', ''jobs'', ''prune'']"]) (simp_all add: eval)
  show "router build_router POST ''/v1/workers/register'' = Routed Ep_Register []"
    by (rule routed_via [OF ok, where entry = "(''/v1/workers/register'', [(POST, Ep_Register)])" and segs = "['''', ''v1'', ''workers'', ''register'']"]) (simp_all add: eval)
qed

lemma delete_routes:
  assumes ok: "router_ok router" and w: "plain_id w"
  shows "w \<noteq> ''prune'' \<Longrightarrow> router build_router DELETE (''/v1/jobs/'' @ w) = Routed Ep_Cancel_Job [w]"
    "w \<noteq> ''register'' \<Longrightarrow> router build_router DELETE (''/v1/workers/'' @ w) = Routed Ep_Deregister [w]"
proof -
  note eval = plain_segments [OF w] plain_nonempty [OF w] route_eval
  show "router build_router DELETE (''/v1/jobs/'' @ w) = Routed Ep_Cancel_Job [w]" if "w \<noteq> ''prune''"
    by (rule routed_via [OF ok, where entry = "(''/v1/jobs/:id'', [(GET, Ep_Get_Job), (DELETE, Ep_Cancel_Job)])"
          and segs = "['''', ''v1'', ''jobs'', w]"]) (use that in \<open>simp_all add: eval\<close>)
  show "router build_router DELETE (''/v1/workers/'' @ w) = Routed Ep_Deregister [w]" if "w \<noteq> ''register''"
    by (rule routed_via [OF ok, where entry = "(''/v1/workers/:id'', [(DELETE, Ep_Deregister)])"
          and segs = "['''', ''v1'', ''workers'', w]"]) (use that in \<open>simp_all add: eval\<close>)
qed

fun target :: "'v api_call \<Rightarrow> endpoint \<times> string list" where
  "target (Api_Submit r) = (Ep_Submit_Job, [])"
| "target Api_Prune = (Ep_Prune_Jobs, [])"
| "target (Api_Cancel jid) = (Ep_Cancel_Job, [jid])"
| "target (Api_Register r) = (Ep_Register, [])"
| "target (Api_Deregister w) = (Ep_Deregister, [w])"
| "target (Api_Drain w) = (Ep_Drain, [w])"
| "target (Api_Reactivate w) = (Ep_Reactivate, [w])"
| "target (Api_Heartbeat w) = (Ep_Heartbeat, [w])"
| "target (Api_Claim w) = (Ep_Claim, [w])"
| "target (Api_Renew w jid) = (Ep_Renew, [w, jid])"
| "target (Api_Complete w jid att r) = (Ep_Complete, [w, jid])"
| "target (Api_Fail w jid att err retry) = (Ep_Fail, [w, jid])"

lemma request_routed:
  assumes "router_ok router" "ids_fit call"
  shows "router build_router (fst (request_line call)) (snd (request_line call)) =
    Routed (fst (target call)) (snd (target call))"
  using assms(2)
  by (cases call)
    (simp_all only: request_line.simps fst_conv snd_conv target.simps ids_fit.simps worker_routes [OF assms(1)]
      report_routes [OF assms(1)] fixed_routes [OF assms(1)], (blast intro: delete_routes [OF assms(1)])+)

lemma target_call:
  assumes "\<forall>i \<in> set (call_ids call). hl_percent lib (esc i) = Inr i" "body_fits lib rq call"
  shows "call_of lib rq (fst (target (written esc call))) (snd (target (written esc call))) = Some (Inr call)"
  using assms by (cases call) (simp_all add: call_of_def with_id_def with_ids_def with_body_def)

text \<open>C19: Every call of the job and worker API is reached by a request: for any router that behaves as
  documented, take the request with the call's method and path, in which each id is written as one
  path segment that the path extractor decodes to the id (\<open>esc\<close> is the way of writing: the id itself,
  or the id with some characters percent-escaped), and with a body from which the JSON extractor
  reads the call's data. It is answered by the call's handler, run on exactly those arguments, and by
  nothing else. A segment is any non-empty text without a slash; only the segments \<open>prune\<close>
  (for the job of a cancellation) and \<open>register\<close> (for the worker of a deregistration) are excluded,
  which are fixed paths.\<close>

theorem requests_reach_handlers:
  assumes "router_ok (hl_router (he_lib env))"
    and "\<forall>i \<in> set (call_ids call). hl_percent (he_lib env) (esc i) = Inr i"
    and "(hr_method rq, hr_path rq) = request_line (written esc call)" "ids_fit (written esc call)"
    and "body_fits (he_lib env) rq call"
  shows "serve env rq app =
    (case api_run (he_call env) call (app_async app) of (st, answer) \<Rightarrow> (app\<lparr>app_async := st\<rparr>, Api_Response answer))"
proof -
  let ?call = "written esc call"
  have "hl_router (he_lib env) build_router (hr_method rq) (hr_path rq) = Routed (fst (target ?call)) (snd (target ?call))"
    using request_routed [OF assms(1,4)] by (simp only: assms(3) [symmetric] fst_conv snd_conv)
  then show ?thesis
    by (simp add: serve_def target_call [OF assms(2,5)])
qed



section \<open>Every request is answered\<close>

lemma call_of_other:
  "call_of lib rq e caps = None \<longleftrightarrow>
     e \<in> {Ep_Health, Ep_Metrics, Ep_List_Resources, Ep_Report_Resources, Ep_List_Models, Ep_List_Jobs, Ep_Get_Job,
          Ep_Preview, Ep_List_Workers, Ep_Chat, Ep_Embeddings}"
  by (cases e) (simp_all add: call_of_def)

definition is_answered :: "'v http_response \<Rightarrow> bool" where
  "is_answered r \<longleftrightarrow> (case r of No_Answer \<Rightarrow> False | Api_Response (Panicked msg) \<Rightarrow> False | _ \<Rightarrow> True)"

lemma forwarded_answered:
  assumes "others_keep env"
  shows "is_answered (snd (forwarded app (forward env r headers body st)))"
proof -
  obtain px answer where "forward env r headers body st = Some (px, answer)"
    using forward_total [OF assms, of r headers body st] by fastforce
  then show ?thesis by (simp add: forwarded_def is_answered_def)
qed

lemma other_answered:
  assumes "others_keep (he_proxy env)" "call_of (he_lib env) rq e caps = None"
  shows "is_answered (snd (serve_other env rq e caps app))"
  using assms(2) forwarded_answered [OF assms(1)]
  by (auto simp: call_of_other serve_other_def chat_completions_def embeddings_def is_answered_def list_jobs_handler_def
      get_job_def preview_next_assignment_handler_def list_workers_handler_def split: prod.split sum.split option.split)

text \<open>C20: Every request is answered: whatever its method, path, headers and body, whatever the router and
  the extractors do with it, whatever the upstreams return, and in every state, serving it ends with
  a response, and none of the handlers reaches one of its panics.\<close>

theorem every_request_answered:
  assumes "others_keep (he_proxy env)"
  shows "is_answered (snd (serve env rq app))"
proof (cases "hl_router (he_lib env) build_router (hr_method rq) (hr_path rq)")
  case (Routed e caps)
  show ?thesis
  proof (cases "call_of (he_lib env) rq e caps")
    case None
    then show ?thesis using other_answered [OF assms None] by (simp add: serve_def Routed)
  next
    case (Some x)
    show ?thesis
    proof (cases x)
      case (Inr call)
      obtain code body where "snd (api_run (he_call env) call (app_async app)) = Resp code body"
        using api_run_answers by blast
      then show ?thesis by (auto simp: serve_def Routed Some Inr is_answered_def split: prod.split)
    qed (auto simp: serve_def Routed Some is_answered_def split: prod.split)
  qed
qed (simp_all add: serve_def is_answered_def)

section \<open>A router for the examples\<close>

text \<open>The first entry that goes before all others that match.\<close>

definition first_router :: "route_table \<Rightarrow> http_method \<Rightarrow> string \<Rightarrow> routed" where
  "first_router table m path =
     (case find (chosen table (split_on (CHR ''/'') path)) table of
        None \<Rightarrow> No_Route
      | Some entry \<Rightarrow> answer_of m (split_on (CHR ''/'') path) entry)"

lemma goes_first_antisym: "goes_first ps qs \<Longrightarrow> \<not> goes_first qs ps"
  by (induction ps qs rule: goes_first.induct) (auto split: if_splits)

lemma chosen_unique:
  assumes "chosen table segs a" "chosen table segs b" "a \<in> set table" "b \<in> set table"
  shows "a = b"
  using assms goes_first_antisym unfolding chosen_def list_all_iff by metis

lemma first_router_ok: "router_ok first_router"
  unfolding router_ok_def
proof (intro allI conjI ballI impI)
  fix table m path entry
  let ?segs = "split_on (CHR ''/'') path"
  assume e: "entry \<in> set table" "chosen table ?segs entry"
  then obtain e' where f: "find (chosen table ?segs) table = Some e'"
    using find_None_iff [of "chosen table ?segs" table] by (cases "find (chosen table ?segs) table") blast+
  then have "e' = entry" using e chosen_unique by (metis find_Some_iff nth_mem)
  with f show "first_router table m path = answer_of m ?segs entry" by (simp add: first_router_def)
next
  fix table :: route_table and m path
  assume "\<forall>entry \<in> set table. \<not> matches (split_on (CHR ''/'') path) entry"
  then have "find (chosen table (split_on (CHR ''/'') path)) table = None"
    by (auto simp: find_None_iff chosen_def)
  then show "first_router table m path = No_Route" by (simp add: first_router_def)
qed

text \<open>Percent decoding.\<close>

definition hex_digit :: "char \<Rightarrow> nat option" where
  "hex_digit c =
     (let n = of_char c :: nat
      in if 48 \<le> n \<and> n \<le> 57 then Some (n - 48)
         else if 65 \<le> n \<and> n \<le> 70 then Some (n - 55)
         else if 97 \<le> n \<and> n \<le> 102 then Some (n - 87) else None)"

fun percent_decode :: "string \<Rightarrow> string" where
  "percent_decode (c # a # b # s) =
     (case (c = CHR ''%'', hex_digit a, hex_digit b) of
        (True, Some x, Some y) \<Rightarrow> char_of (16 * x + y) # percent_decode s
      | _ \<Rightarrow> c # percent_decode (a # b # s))"
| "percent_decode s = s"

lemma percent_decode_plain: "CHR ''%'' \<notin> set s \<Longrightarrow> percent_decode s = s"
  by (induction s rule: percent_decode.induct) auto

definition ex_lib :: "nat http_lib" where
  "ex_lib =
     \<lparr>hl_router = first_router, hl_percent = (\<lambda>s. Inr (percent_decode s)), hl_submit = (\<lambda>_ _. Inr ex_request),
      hl_complete = (\<lambda>_ _. Inr (7, None)), hl_fail = (\<lambda>_ _. Inl (422, ''missing field'')),
      hl_register = (\<lambda>_ _. Inr ex_register_request), hl_report = (\<lambda>_ _. Inl (422, ''missing field''))\<rparr>"

definition ex_http_env :: "(nat, nat) http_env" where
  "ex_http_env = \<lparr>he_lib = ex_lib, he_call = ex_server_call, he_proxy = ex_penv, he_view = ex_view, he_clock = ex_clock\<rparr>"

definition ex_http_request :: "nat api_call \<Rightarrow> http_request" where
  "ex_http_request call =
     \<lparr>hr_method = fst (request_line call), hr_path = snd (request_line call), hr_headers = (\<lambda>_. None), hr_body = ''{}''\<rparr>"

lemma ex_http_simps [simp]:
  "router_ok (hl_router (he_lib ex_http_env))" "percent_ok (hl_percent (he_lib ex_http_env))"
  "(hr_method (ex_http_request call), hr_path (ex_http_request call)) = request_line call"
  "he_call ex_http_env = ex_server_call" "he_proxy ex_http_env = ex_penv"
  by (simp_all add: ex_http_env_def ex_lib_def first_router_ok percent_ok_def ex_http_request_def percent_decode_plain)

lemma ex_register_call:
  "api_run ex_server_call (Api_Register ex_register_request) (app_async ex_booted) =
     ((app_async ex_booted)\<lparr>st_workers := ex_server_workers\<rparr>,
      Resp 200 (Worker_Body (snapshot_from_entry ex_clock (stale_after worker_registry_default) (ex_entry 0))))"
proof -
  have "\<not> cfg_strict_worker_pools (ex_config None None)"
    using from_lookup_fields(6) [OF ex_from_lookup [of None None]] by (simp add: flag_trimmed_def ex_get_def)
  then show ?thesis
    by (simp add: register_worker_def app_state_of_def async_of_def ex_booted_def ex_server_call_def ex_register_default Let_def)
qed

lemma ex_escaped:
  "percent_decode ''%72egister'' = ''register''" "percent_decode ''gpu%2F1'' = ''gpu/1''"
  by code_simp+

theorem requests_reach_handlers_witness:
  "st_workers (app_async (fst (serve ex_http_env (ex_http_request (Api_Register ex_register_request)) ex_booted))) =
     ex_server_workers \<and>
   snd (serve ex_http_env (ex_http_request (Api_Drain ''gpu%2F1'')) ex_booted) =
     Api_Response (snd (api_run ex_server_call (Api_Drain ''gpu/1'') (app_async ex_booted)))"
proof -
  have "body_fits (he_lib ex_http_env) (ex_http_request (Api_Register ex_register_request)) (Api_Register ex_register_request)"
    by (simp add: ex_http_env_def ex_lib_def)
  then have "st_workers (app_async (fst (serve ex_http_env (ex_http_request (Api_Register ex_register_request)) ex_booted))) =
      ex_server_workers"
    using requests_reach_handlers [OF ex_http_simps(1), of "Api_Register ex_register_request" id
        "ex_http_request (Api_Register ex_register_request)" ex_booted] ex_register_call by simp
  moreover have "serve ex_http_env (ex_http_request (Api_Drain ''gpu%2F1'')) ex_booted =
      (case api_run (he_call ex_http_env) (Api_Drain ''gpu/1'') (app_async ex_booted) of
         (st, answer) \<Rightarrow> (ex_booted\<lparr>app_async := st\<rparr>, Api_Response answer))"
    by (rule requests_reach_handlers [OF ex_http_simps(1), where esc = "\<lambda>_. ''gpu%2F1''"])
      (simp_all add: ex_http_env_def ex_lib_def ex_escaped ex_http_request_def plain_id_def del: percent_decode.simps)
  ultimately show ?thesis by (simp add: case_prod_unfold del: api_run.simps)
qed


theorem every_request_answered_witness:
  "is_answered (snd (serve ex_http_env (ex_http_request (Api_Claim ''w1'')) ex_booted))"
  by (rule every_request_answered) (simp add: ex_penv_ok)

end
