(* ===== verification/Proxy_Steps.thy ===== *)
theory Proxy_Steps
  imports Systems Proxy_Props
begin

text \<open>
  Concurrent requests, \<open>forward\<close> of \<open>src/src/proxy/mod.rs\<close> with \<open>src/src/priority.rs\<close>. Any number of
  requests run at once and share the state with each other, with the health probe of every backend
  and with the reports of the nodes. \<open>forward\<close> is cut at every access to something shared: the
  semaphore and the counter of its priority, one breaker, the affinity map, the metrics, a post. What a
  request reads of the affinity map, of the reports and of the clocks is left open here, and so is
  the order in which it probes breakers; a client that goes away ends its request at any of these
  points, and a streamed answer keeps its permit until the stream is dropped.
\<close>

section \<open>The system\<close>

text \<open>Where a request is: it has a permit that is not counted yet; it looks for a backend, with the
  backends it found refusing and letting through and the server error it would pass on; it has posted
  to a backend; the answer of the backend is good, then also its thread is bound; it is answered; it
  is no longer counted.\<close>

datatype request_phase =
    Taking
  | Choosing "nat list" "nat list" "upstream option"
  | Posting nat
  | Accepted nat upstream
  | Bound nat upstream
  | Answered proxy_response
  | Dropping

record request_task =
  rt_ctx :: forward_ctx
  rt_attempted :: "nat list"
  rt_phase :: request_phase

record 's proxy_system =
  ps_state :: "'s proxy_state"
  ps_tasks :: "nat \<Rightarrow> request_task option"
  ps_next :: nat

datatype proxy_event =
    Pe_Refused nat
  | Pe_Admitted nat forward_ctx
  | Pe_Probed nat nat nat
  | Pe_Posted nat nat upstream_request
  | Pe_Failed nat nat nat "upstream option"
  | Pe_Succeeded nat nat upstream
  | Pe_Answered nat proxy_response
  | Pe_Moved nat
  | Pe_Health nat nat bool
  | Pe_Other

definition context_ok ::
  "'s proxy_env \<Rightarrow> header_map \<Rightarrow> string \<Rightarrow> backend_state list \<Rightarrow> forward_ctx \<Rightarrow> bool" where
  "context_ok env headers body bs ctx \<longleftrightarrow>
     parse_priority (pe_to_str env) headers = Inr (fc_priority ctx) \<and>
     fc_affinity_key ctx =
       map_option (affinity_key (route_kind (fc_route ctx))) (header_str env headers ''x-fairlead-thread-id'') \<and>
     fc_origin ctx = header_str env headers ''x-fairlead-origin-node'' \<and>
     fc_route_ineligible ctx = route_ineligible_backends bs (fc_route ctx) (pe_pools env) \<and>
     fc_headers ctx = headers \<and> fc_body ctx = body"

text \<open>The backends a request may take are those of \<open>may_take\<close>. A failed post is one that is not
  connected, or is answered by a server error that the route retries.\<close>

definition failed_post :: "forward_ctx \<Rightarrow> upstream option \<Rightarrow> bool" where
  "failed_post ctx answer \<longleftrightarrow>
     (case answer of None \<Rightarrow> True | Some reply \<Rightarrow> retry_server_errors (fc_route ctx) \<and> is_server_error (up_status reply))"

definition give_up ::
  "(string \<Rightarrow> string option) \<Rightarrow> request_task \<Rightarrow> upstream option \<Rightarrow> nat \<Rightarrow> proxy_response" where
  "give_up to_str task refused n =
     (if rt_attempted task = [] then
        Plain 503 (unavailable_message (fc_route_ineligible (rt_ctx task)) (fc_ineligible (rt_ctx task)) n)
      else (case refused of None \<Rightarrow> Plain 502 [] | Some reply \<Rightarrow> upstream_response to_str reply (up_status reply)))"

definition on_bucket ::
  "priority \<Rightarrow> ('s priority_bucket \<Rightarrow> 's priority_bucket) \<Rightarrow> 's proxy_state \<Rightarrow> 's proxy_state" where
  "on_bucket p f st = st\<lparr>px_limiter := set_bucket p (f (bucket p (px_limiter st))) (px_limiter st)\<rparr>"

text \<open>The permit of a request: taken, counted, or counted no more.\<close>

datatype permit_use = Uncounted | Counted | Leaving

fun permit_of :: "request_phase \<Rightarrow> permit_use" where
  "permit_of Taking = Uncounted"
| "permit_of Dropping = Leaving"
| "permit_of _ = Counted"

inductive proxy_step ::
  "'s proxy_env \<Rightarrow> 's proxy_system \<Rightarrow> proxy_event \<Rightarrow> 's proxy_system \<Rightarrow> bool" for env where
  px_refuse:
    "parse_priority (pe_to_str env) headers = Inr p \<Longrightarrow>
     px_backends (ps_state s) = [] \<and> status = 503 \<or>
       px_backends (ps_state s) \<noteq> [] \<and> status = 429 \<and>
       take_permit (pe_sem env) (bucket p (px_limiter (ps_state s))) = None \<Longrightarrow>
     proxy_step env s (Pe_Refused status)
       (s\<lparr>ps_state := proxy_record_request (env\<lparr>pe_elapsed := d\<rparr>) r p None
           (header_str env headers ''x-fairlead-origin-node'') status outcome (ps_state s)\<rparr>)"
| px_take:
    "context_ok env headers body (px_backends (ps_state s)) ctx \<Longrightarrow> px_backends (ps_state s) \<noteq> [] \<Longrightarrow>
     take_permit (pe_sem env) (bucket (fc_priority ctx) (px_limiter (ps_state s))) = Some b \<Longrightarrow>
     proxy_step env s (Pe_Admitted (ps_next s) ctx)
       (s\<lparr>ps_state := on_bucket (fc_priority ctx) (\<lambda>_. b) (ps_state s),
          ps_tasks := (ps_tasks s)(ps_next s \<mapsto> \<lparr>rt_ctx = ctx, rt_attempted = [], rt_phase = Taking\<rparr>),
          ps_next := ps_next s + 1\<rparr>)"
| px_count:
    "ps_tasks s k = Some task \<Longrightarrow> rt_phase task = Taking \<Longrightarrow>
     proxy_step env s (Pe_Moved k)
       (s\<lparr>ps_state := on_bucket (fc_priority (rt_ctx task)) count_up (ps_state s),
          ps_tasks := (ps_tasks s)(k \<mapsto> task\<lparr>rt_phase := Choosing [] [] None\<rparr>)\<rparr>)"
| px_probe:
    "ps_tasks s k = Some task \<Longrightarrow> rt_phase task = Choosing refusing found refused \<Longrightarrow>
     may_take env (rt_ctx task) (rt_attempted task) (px_backends (ps_state s)) i \<Longrightarrow>
     probe (\<lambda>_. now) i (px_backends (ps_state s)) = (bs, ok) \<Longrightarrow>
     proxy_step env s (Pe_Probed k i now)
       (s\<lparr>ps_state := (ps_state s)\<lparr>px_backends := bs\<rparr>,
          ps_tasks := (ps_tasks s)(k \<mapsto> task\<lparr>rt_phase := if ok then Choosing refusing (i # found) refused
            else Choosing (i # refusing) found refused\<rparr>)\<rparr>)"
| px_post:
    "ps_tasks s k = Some task \<Longrightarrow> rt_phase task = Choosing refusing found refused \<Longrightarrow> i \<in> set found \<Longrightarrow>
     proxy_step env s (Pe_Posted k i (request_to (rt_ctx task) (px_backends (ps_state s) ! i)))
       (s\<lparr>ps_tasks := (ps_tasks s)(k \<mapsto> task\<lparr>rt_phase := Posting i\<rparr>)\<rparr>)"
| px_fail:
    "ps_tasks s k = Some task \<Longrightarrow> rt_phase task = Posting i \<Longrightarrow> failed_post (rt_ctx task) answer \<Longrightarrow>
     proxy_step env s (Pe_Failed k i now answer)
       (s\<lparr>ps_state := set_circuit i (Circuit.record_failure now) (ps_state s),
          ps_tasks := (ps_tasks s)(k \<mapsto> task\<lparr>rt_attempted := rt_attempted task @ [i],
            rt_phase := Choosing [] [] answer\<rparr>)\<rparr>)"
| px_succeed:
    "ps_tasks s k = Some task \<Longrightarrow> rt_phase task = Posting i \<Longrightarrow> \<not> failed_post (rt_ctx task) (Some reply) \<Longrightarrow>
     proxy_step env s (Pe_Succeeded k i reply)
       (s\<lparr>ps_state := set_circuit i Circuit.record_success (ps_state s),
          ps_tasks := (ps_tasks s)(k \<mapsto> task\<lparr>rt_phase := Accepted i reply\<rparr>)\<rparr>)"
| px_bind:
    "ps_tasks s k = Some task \<Longrightarrow> rt_phase task = Accepted i reply \<Longrightarrow>
     proxy_step env s (Pe_Moved k)
       (s\<lparr>ps_state := (case fc_affinity_key (rt_ctx task) of
            None \<Rightarrow> ps_state s
          | Some key \<Rightarrow> (ps_state s)\<lparr>px_affinity := affinity_record key i (px_affinity (ps_state s))\<rparr>),
          ps_tasks := (ps_tasks s)(k \<mapsto> task\<lparr>rt_phase := Bound i reply\<rparr>)\<rparr>)"
| px_answer:
    "ps_tasks s k = Some task \<Longrightarrow>
     rt_phase task = Bound i reply \<and> resp = upstream_response (pe_to_str env) reply (up_status reply) \<or>
       (\<exists>refusing refused. rt_phase task = Choosing refusing [] refused \<and>
          (\<forall>j. may_take env (rt_ctx task) (rt_attempted task) (px_backends (ps_state s)) j \<longrightarrow> j \<in> set refusing) \<and>
          resp = give_up (pe_to_str env) task refused (length (px_backends (ps_state s)))) \<Longrightarrow>
     proxy_step env s (Pe_Answered k resp)
       (s\<lparr>ps_state := proxy_record_request (env\<lparr>pe_elapsed := d\<rparr>) (fc_route (rt_ctx task))
            (fc_priority (rt_ctx task)) backend (fc_origin (rt_ctx task)) status outcome (ps_state s),
          ps_tasks := (ps_tasks s)(k \<mapsto> task\<lparr>rt_phase := Answered resp\<rparr>)\<rparr>)"
| px_uncount:
    "ps_tasks s k = Some task \<Longrightarrow> permit_of (rt_phase task) = Counted \<Longrightarrow>
     proxy_step env s (Pe_Moved k)
       (s\<lparr>ps_state := on_bucket (fc_priority (rt_ctx task)) count_down (ps_state s),
          ps_tasks := (ps_tasks s)(k \<mapsto> task\<lparr>rt_phase := Dropping\<rparr>)\<rparr>)"
| px_give:
    "ps_tasks s k = Some task \<Longrightarrow> rt_phase task = Dropping \<Longrightarrow>
     proxy_step env s (Pe_Moved k)
       (s\<lparr>ps_state := on_bucket (fc_priority (rt_ctx task)) (give_permit (pe_sem env)) (ps_state s),
          ps_tasks := (ps_tasks s)(k := None)\<rparr>)"
| px_health:
    "i < length (px_backends (ps_state s)) \<Longrightarrow>
     proxy_step env s (Pe_Health i now ok)
       (s\<lparr>ps_state := set_circuit i (health_probe_turn now ok) (ps_state s)\<rparr>)"
| px_report:
    "report_resources clk request (px_resources (ps_state s)) = (reg, status, answer) \<Longrightarrow>
     proxy_step env s Pe_Other (s\<lparr>ps_state := (ps_state s)\<lparr>px_resources := reg\<rparr>\<rparr>)"
| px_note:
    "requests m = requests (px_metrics (ps_state s)) \<Longrightarrow>
     proxy_step env s Pe_Other (s\<lparr>ps_state := (ps_state s)\<lparr>px_metrics := m\<rparr>\<rparr>)"

text \<open>A gateway just started: no request, no thread bound, all permits there, all breakers as built.\<close>

definition proxy_start :: "'s proxy_env \<Rightarrow> (priority \<Rightarrow> nat) \<Rightarrow> 's proxy_system \<Rightarrow> bool" where
  "proxy_start env lims s \<longleftrightarrow> ps_tasks s = Map.empty \<and> px_affinity (ps_state s) = affinity_new \<and>
     px_limiter (ps_state s) = limiter_new (pe_sem env) (lims Realtime) (lims Batch) (lims Background) \<and>
     px_metrics (ps_state s) = metrics_default"

section \<open>Each request\<close>

lemma may_take_statics:
  assumes "statics bs' = statics bs"
  shows "may_take env ctx att bs' i = may_take env ctx att bs i"
  using statics_length [OF assms] statics_nth(1) [OF assms, of i] by (cases "i < length bs") (simp_all add: may_take_def)

lemma may_take_less: "may_take env ctx (att @ xs) bs i \<Longrightarrow> may_take env ctx att bs i"
  by (simp add: may_take_def)

lemma route_ineligible_statics:
  assumes "statics bs' = statics bs"
  shows "route_ineligible_backends bs' r pools = route_ineligible_backends bs r pools"
proof -
  have "route_allows_backend (bs' ! i) r pools = route_allows_backend (bs ! i) r pools" if "i < length bs" for i
    using statics_nth [OF assms that] by (simp add: route_allows_backend_def)
  then show ?thesis
    unfolding route_ineligible_backends_def statics_length [OF assms] by (intro filter_cong) simp_all
qed

definition phase_ok :: "'s proxy_env \<Rightarrow> backend_state list \<Rightarrow> request_task \<Rightarrow> bool" where
  "phase_ok env bs task \<longleftrightarrow>
     (case rt_phase task of
        Choosing refusing found refused \<Rightarrow> \<forall>i \<in> set found. may_take env (rt_ctx task) (rt_attempted task) bs i
      | Posting i \<Rightarrow> may_take env (rt_ctx task) (rt_attempted task) bs i
      | Accepted i reply \<Rightarrow> may_take env (rt_ctx task) (rt_attempted task) bs i
      | Bound i reply \<Rightarrow> may_take env (rt_ctx task) (rt_attempted task) bs i
      | _ \<Rightarrow> True)"

definition task_ok :: "'s proxy_env \<Rightarrow> backend_state list \<Rightarrow> request_task \<Rightarrow> bool" where
  "task_ok env bs task \<longleftrightarrow>
     fc_route_ineligible (rt_ctx task) = route_ineligible_backends bs (fc_route (rt_ctx task)) (pe_pools env) \<and>
     (\<forall>key. fc_affinity_key (rt_ctx task) = Some key \<longrightarrow>
        (\<exists>thread. key = affinity_key (route_kind (fc_route (rt_ctx task))) thread)) \<and>
     distinct (rt_attempted task) \<and> (\<forall>i \<in> set (rt_attempted task). may_take env (rt_ctx task) [] bs i) \<and>
     phase_ok env bs task"

definition bindings_ok :: "backend_state list \<Rightarrow> session_affinity \<Rightarrow> bool" where
  "bindings_ok bs aff \<longleftrightarrow>
     (\<forall>key i. aff key = Some i \<longrightarrow>
        i < length bs \<and> (\<exists>kind thread. key = affinity_key kind thread \<and> kind \<in> set (bk_workloads (bs ! i))))"

definition proxy_inv :: "'s proxy_env \<Rightarrow> 's proxy_system \<Rightarrow> bool" where
  "proxy_inv env s \<longleftrightarrow>
     (\<forall>k task. ps_tasks s k = Some task \<longrightarrow> k < ps_next s \<and> task_ok env (px_backends (ps_state s)) task) \<and>
     bindings_ok (px_backends (ps_state s)) (px_affinity (ps_state s))"

lemma phase_ok_statics:
  assumes "statics bs' = statics bs"
  shows "phase_ok env bs' task = phase_ok env bs task"
  by (simp add: phase_ok_def may_take_statics [OF assms] split: request_phase.split)

lemma task_ok_statics:
  assumes "statics bs' = statics bs"
  shows "task_ok env bs' task = task_ok env bs task"
  by (simp add: task_ok_def phase_ok_statics [OF assms] may_take_statics [OF assms] route_ineligible_statics [OF assms])

lemma bindings_ok_statics: "statics bs' = statics bs \<Longrightarrow> bindings_ok bs' aff = bindings_ok bs aff"
  using statics_length [of bs' bs] statics_nth(2) [of bs' bs] unfolding bindings_ok_def by metis

lemma on_bucket_frame [simp]:
  "px_backends (on_bucket p f st) = px_backends st" "px_affinity (on_bucket p f st) = px_affinity st"
  "px_metrics (on_bucket p f st) = px_metrics st" "px_resources (on_bucket p f st) = px_resources st"
  "px_limiter (on_bucket p f st) = set_bucket p (f (bucket p (px_limiter st))) (px_limiter st)"
  by (simp_all add: on_bucket_def)

lemma proxy_record_frame [simp]:
  "px_affinity (proxy_record_request env r p b o1 s out st) = px_affinity st"
  by (simp add: proxy_record_request_def)

lemma set_circuit_frame [simp]:
  "px_affinity (set_circuit i f st) = px_affinity st" "px_limiter (set_circuit i f st) = px_limiter st"
  by (simp_all add: set_circuit_def)

lemma step_statics:
  assumes "proxy_step env s e t"
  shows "statics (px_backends (ps_state t)) = statics (px_backends (ps_state s))"
  using assms
proof cases
  case (px_probe k task refusing found refused i now bs ok)
  then have "bs = probed (\<lambda>_. now) {i} (px_backends (ps_state s))"
    using probe_eq [of i "px_backends (ps_state s)"] by (simp add: may_take_def)
  with px_probe show ?thesis by simp
qed (simp_all split: option.split)

text \<open>The invariant under a change of one request.\<close>

lemma inv_frame:
  assumes "proxy_inv env s" "statics (px_backends st) = statics (px_backends (ps_state s))"
    and "bindings_ok (px_backends (ps_state s)) (px_affinity st)"
    and "\<And>k task. tasks k = Some task \<Longrightarrow> ps_tasks s k \<noteq> Some task \<Longrightarrow>
      k < n \<and> task_ok env (px_backends (ps_state s)) task" "ps_next s \<le> n"
  shows "proxy_inv env \<lparr>ps_state = st, ps_tasks = tasks, ps_next = n\<rparr>"
  unfolding proxy_inv_def
proof (intro conjI allI impI; simp only: proxy_system.simps task_ok_statics [OF assms(2)] bindings_ok_statics [OF assms(2)])
  fix k task assume "tasks k = Some task"
  then show "k < n" "task_ok env (px_backends (ps_state s)) task"
    using assms(1,5) assms(4) [of k task] by (cases "ps_tasks s k = Some task"; force simp: proxy_inv_def)+
qed (rule assms(3))

lemma proxy_inv_step:
  assumes inv: "proxy_inv env s" and step: "proxy_step env s e t"
  shows "proxy_inv env t"
proof -
  have old: "ps_tasks s k = Some task \<Longrightarrow> k < ps_next s \<and> task_ok env (px_backends (ps_state s)) task" for k task
    using inv by (simp add: proxy_inv_def)
  have bind: "bindings_ok (px_backends (ps_state s)) (px_affinity (ps_state s))"
    using inv by (simp add: proxy_inv_def)
  have fresh: "task_ok env bs \<lparr>rt_ctx = ctx, rt_attempted = [], rt_phase = Taking\<rparr>"
    if "context_ok env headers body bs ctx" for bs ctx headers body
    using that by (auto simp: task_ok_def phase_ok_def context_ok_def)
  have t: "t = \<lparr>ps_state = ps_state t, ps_tasks = ps_tasks t, ps_next = ps_next t\<rparr>" by simp
  show ?thesis
  proof (subst t, rule inv_frame [OF inv step_statics [OF step]])
    show "ps_next s \<le> ps_next t" using step by cases simp_all
    show "bindings_ok (px_backends (ps_state s)) (px_affinity (ps_state t))"
      using step
    proof cases
      case (px_bind k task i reply)
      then have ok: "task_ok env (px_backends (ps_state s)) task" using old by blast
      then have i: "may_take env (rt_ctx task) (rt_attempted task) (px_backends (ps_state s)) i"
        using px_bind by (simp add: task_ok_def phase_ok_def)
      then have "route_kind (fc_route (rt_ctx task)) \<in> set (bk_workloads (px_backends (ps_state s) ! i))"
        using ok by (auto simp: may_take_def task_ok_def route_allows_backend_def)
      then show ?thesis
        using bind i ok px_bind
        by (fastforce simp: bindings_ok_def affinity_record_def task_ok_def may_take_def split: option.split)
    qed (use bind in simp_all)
  next
    fix k task assume new: "ps_tasks t k = Some task" "ps_tasks s k \<noteq> Some task"
    have upd: "k < ps_next t \<and> task_ok env (px_backends (ps_state s)) task"
      if "ps_tasks s k' = Some task0" "\<And>j. j \<noteq> k' \<Longrightarrow> ps_tasks t j = ps_tasks s j" "ps_next t = ps_next s"
        "task_ok env (px_backends (ps_state s)) task0 \<Longrightarrow> Some task = ps_tasks t k' \<Longrightarrow>
          task_ok env (px_backends (ps_state s)) task" for k' task0
      using that new old [of k' task0] by (cases "k = k'") auto
    note ok = task_ok_def phase_ok_def
    show "k < ps_next t \<and> task_ok env (px_backends (ps_state s)) task"
      using step
    proof cases
      case (px_take headers body ctx b)
      then have "k = ps_next s" "task = \<lparr>rt_ctx = ctx, rt_attempted = [], rt_phase = Taking\<rparr>"
        using new by (auto split: if_splits)
      then show ?thesis using fresh px_take by simp
    next
      case (px_count k' task')
      show ?thesis by (rule upd [OF px_count(3)]) (simp_all add: px_count ok)
    next
      case (px_probe k' task' refusing found refused i now bs open_to)
      show ?thesis by (rule upd [OF px_probe(3)]) (use px_probe in \<open>simp_all add: ok\<close>)
    next
      case (px_post k' task' refusing found refused i)
      show ?thesis by (rule upd [OF px_post(3)]) (use px_post in \<open>simp_all add: ok\<close>)
    next
      case (px_fail k' task' i answer now)
      show ?thesis by (rule upd [OF px_fail(3)]) (use px_fail in \<open>auto simp: ok may_take_def\<close>)
    next
      case (px_succeed k' task' i reply)
      show ?thesis by (rule upd [OF px_succeed(3)]) (use px_succeed in \<open>simp_all add: ok\<close>)
    next
      case (px_bind k' task' i reply)
      show ?thesis by (rule upd [OF px_bind(3)]) (use px_bind in \<open>simp_all add: ok\<close>)
    next
      case (px_answer k' task' i reply resp)
      show ?thesis by (rule upd [OF px_answer(3)]) (simp_all add: px_answer(2) ok)
    next
      case (px_uncount k' task')
      show ?thesis by (rule upd [OF px_uncount(3)]) (simp_all add: px_uncount ok)
    qed (use new in \<open>simp_all split: if_splits\<close>)
  qed
qed

lemma proxy_start_inv: "proxy_start env lims s \<Longrightarrow> proxy_inv env s"
  by (simp add: proxy_start_def proxy_inv_def bindings_ok_def affinity_new_def)

interpretation px: invariant_system "proxy_start env lims" "proxy_step env" "proxy_inv env" for env lims
  by unfold_locales (fact proxy_start_inv, fact proxy_inv_step)

lemma run_statics:
  assumes "run (proxy_step env) s es t" "proxy_inv env s"
  shows "statics (px_backends (ps_state t)) = statics (px_backends (ps_state s))"
  by (rule px.run_constant [OF step_statics assms])

section \<open>Permits\<close>

text \<open>The requests that hold a permit of a priority, by its use. Numbers are given in order, so all
  requests are below \<open>ps_next\<close>.\<close>

definition uses_permit :: "permit_use \<Rightarrow> priority \<Rightarrow> request_task option \<Rightarrow> bool" where
  "uses_permit c p x \<longleftrightarrow> (case x of None \<Rightarrow> False
     | Some task \<Rightarrow> permit_of (rt_phase task) = c \<and> fc_priority (rt_ctx task) = p)"

definition permits_held :: "'s proxy_system \<Rightarrow> permit_use \<Rightarrow> priority \<Rightarrow> nat" where
  "permits_held s c p = length (filter (\<lambda>k. uses_permit c p (ps_tasks s k)) [0..<ps_next s])"

definition limiter_use_of :: "'s proxy_system \<Rightarrow> 's limiter_use" where
  "limiter_use_of s = \<lparr>lu_limiter = px_limiter (ps_state s), taking = permits_held s Uncounted, holding = permits_held s Counted,
     dropping = permits_held s Leaving\<rparr>"

lemma uses_permit_simps [simp]:
  "\<not> uses_permit c p None"
  "uses_permit c p (Some task) \<longleftrightarrow> permit_of (rt_phase task) = c \<and> fc_priority (rt_ctx task) = p"
  by (simp_all add: uses_permit_def)

lemma count_upd:
  "k < n \<Longrightarrow> length (filter (\<lambda>j. P ((m(k := x)) j)) [0..<n]) + of_bool (P (m k)) =
     length (filter (\<lambda>j. P (m j)) [0..<n]) + of_bool (P x)"
proof (induction n)
  case (Suc n)
  have "filter (\<lambda>j. P ((m(n := x)) j)) [0..<n] = filter (\<lambda>j. P (m j)) [0..<n]" by (intro filter_cong) simp_all
  then show ?case using Suc by (cases "k = n") simp_all
qed simp

lemma permits_held_upd:
  assumes "k < ps_next s" "ps_tasks t = (ps_tasks s)(k := x)" "ps_next t = ps_next s"
  shows "permits_held t c p + of_bool (uses_permit c p (ps_tasks s k)) = permits_held s c p + of_bool (uses_permit c p x)"
  using count_upd [OF assms(1), of "uses_permit c p" "ps_tasks s" x] by (simp add: permits_held_def assms(2,3))

lemma permits_held_new:
  assumes "ps_tasks t = (ps_tasks s)(ps_next s \<mapsto> task)" "ps_next t = Suc (ps_next s)"
  shows "permits_held t c p = permits_held s c p + of_bool (uses_permit c p (Some task))"
proof -
  have "filter (\<lambda>k. uses_permit c p (ps_tasks t k)) [0..<ps_next s] = filter (\<lambda>k. uses_permit c p (ps_tasks s k)) [0..<ps_next s]"
    by (intro filter_cong) (simp_all add: assms)
  then show ?thesis by (simp add: permits_held_def assms)
qed

text \<open>A step of a request moves at most one permit from one use to another.\<close>

lemma permits_held_same:
  assumes "k < ps_next s" "ps_tasks s k = Some task" "ps_tasks t = (ps_tasks s)(k \<mapsto> task')" "ps_next t = ps_next s"
    "rt_ctx task' = rt_ctx task" "permit_of (rt_phase task') = permit_of (rt_phase task)"
  shows "permits_held t = permits_held s"
  using permits_held_upd [OF assms(1,3,4)] assms(2,5,6) by (intro ext) simp

lemma permits_held_moves:
  assumes "k < ps_next s" "ps_tasks s k = Some task" "ps_tasks t = (ps_tasks s)(k := x)" "ps_next t = ps_next s"
    "uses_permit a p (Some task)" "\<And>c q. uses_permit c q x \<longleftrightarrow> Some c = b \<and> q = p" "Some a \<noteq> b"
  shows "0 < permits_held s a p" "permits_held t a = (permits_held s a)(p := permits_held s a p - 1)"
    "b = Some c \<Longrightarrow> permits_held t c = (permits_held s c)(p := permits_held s c p + 1)"
    "c \<noteq> a \<Longrightarrow> b \<noteq> Some c \<Longrightarrow> permits_held t c = permits_held s c"
proof -
  note upd = permits_held_upd [OF assms(1,3,4)]
  have eq: "permits_held t c q + of_bool (c = a \<and> q = p) = permits_held s c q + of_bool (Some c = b \<and> q = p)" for c q
    using upd [of c q] assms(2,5,6) by (auto simp: of_bool_def)
  show "0 < permits_held s a p" using eq [of a p] assms(7) by simp
  show "permits_held t a = (permits_held s a)(p := permits_held s a p - 1)"
  proof
    fix q show "permits_held t a q = ((permits_held s a)(p := permits_held s a p - 1)) q" using eq [of a q] assms(7) by (cases "q = p") simp_all
  qed
  show "permits_held t c = (permits_held s c)(p := permits_held s c p + 1)" if "b = Some c"
  proof
    fix q show "permits_held t c q = ((permits_held s c)(p := permits_held s c p + 1)) q"
      using eq [of c q] assms(7) that by (cases "q = p") auto
  qed
  show "permits_held t c = permits_held s c" if "c \<noteq> a" "b \<noteq> Some c" using eq [of c] that by (intro ext) simp
qed

lemma inv_task:
  "proxy_inv env s \<Longrightarrow> ps_tasks s k = Some task \<Longrightarrow>
     k < ps_next s \<and> task_ok env (px_backends (ps_state s)) task"
  by (simp add: proxy_inv_def)

lemma limiter_sim:
  assumes inv: "proxy_inv env s" and step: "proxy_step env s e t"
  shows "limiter_use_of t = limiter_use_of s \<or> limiter_step (pe_sem env) (limiter_use_of s) (limiter_use_of t)"
proof -
  have same: "limiter_use_of t = limiter_use_of s"
    if "ps_tasks s k = Some task" "ps_tasks t = (ps_tasks s)(k := ps_tasks t k)" "ps_next t = ps_next s"
      "map_option (\<lambda>x. (rt_ctx x, permit_of (rt_phase x))) (ps_tasks t k) = Some (rt_ctx task, permit_of (rt_phase task))"
      "px_limiter (ps_state t) = px_limiter (ps_state s)" for k task
  proof -
    note h = that
    obtain task' where "ps_tasks t k = Some task'" "rt_ctx task' = rt_ctx task"
      "permit_of (rt_phase task') = permit_of (rt_phase task)" using h(4) by auto
    then have "permits_held t = permits_held s" using permits_held_same [of k s task t task'] h(1-3) inv_task [OF inv h(1)] by simp
    then show ?thesis by (simp add: limiter_use_of_def h(5))
  qed
  have rest: "limiter_use_of t = limiter_use_of s"
    if "ps_tasks t = ps_tasks s" "ps_next t = ps_next s" "px_limiter (ps_state t) = px_limiter (ps_state s)"
    using that by (simp add: limiter_use_of_def permits_held_def fun_eq_iff)
  show ?thesis
    using step
  proof cases
    case px_refuse
    then show ?thesis using rest by simp
  next
    case (px_take headers body ctx b)
    have "permits_held t Uncounted = (permits_held s Uncounted)(fc_priority ctx := permits_held s Uncounted (fc_priority ctx) + 1)"
      "permits_held t Counted = permits_held s Counted" "permits_held t Leaving = permits_held s Leaving"
      using permits_held_new [of t s "\<lparr>rt_ctx = ctx, rt_attempted = [], rt_phase = Taking\<rparr>"] px_take(2) by (auto simp: fun_eq_iff)
    moreover have "limiter_step (pe_sem env) (limiter_use_of s) ((limiter_use_of s)
        \<lparr>lu_limiter := set_bucket (fc_priority ctx) b (lu_limiter (limiter_use_of s)),
          taking := (taking (limiter_use_of s))(fc_priority ctx := taking (limiter_use_of s) (fc_priority ctx) + 1)\<rparr>)"
      using px_take(5) by (intro ls_take) (simp add: limiter_use_of_def)
    ultimately show ?thesis by (simp add: limiter_use_of_def px_take(2))
  next
    case (px_count k task)
    let ?p = "fc_priority (rt_ctx task)"
    have t: "ps_tasks t = (ps_tasks s)(k := Some (task\<lparr>rt_phase := Choosing [] [] None\<rparr>))" "ps_next t = ps_next s"
      "px_limiter (ps_state t) = set_bucket ?p (count_up (bucket ?p (px_limiter (ps_state s)))) (px_limiter (ps_state s))"
      using px_count by simp_all
    note m = permits_held_moves [OF conjunct1 [OF inv_task [OF inv px_count(3)]] px_count(3) t(1,2), of Uncounted ?p "Some Counted"]
    have "0 < permits_held s Uncounted ?p" "limiter_use_of t = (limiter_use_of s)\<lparr>lu_limiter := px_limiter (ps_state t), taking := (taking (limiter_use_of s))(?p := taking (limiter_use_of s) ?p - 1),
      holding := (holding (limiter_use_of s))(?p := holding (limiter_use_of s) ?p + 1)\<rparr>"
      using m px_count(4) by (auto simp: limiter_use_of_def)
    then show ?thesis using t(3) limiter_step.ls_count [of "limiter_use_of s" ?p "pe_sem env"] by (simp add: limiter_use_of_def)
  next
    case (px_uncount k task)
    let ?p = "fc_priority (rt_ctx task)"
    have t: "ps_tasks t = (ps_tasks s)(k := Some (task\<lparr>rt_phase := Dropping\<rparr>))" "ps_next t = ps_next s"
      "px_limiter (ps_state t) = set_bucket ?p (count_down (bucket ?p (px_limiter (ps_state s)))) (px_limiter (ps_state s))"
      using px_uncount by simp_all
    note m = permits_held_moves [OF conjunct1 [OF inv_task [OF inv px_uncount(3)]] px_uncount(3) t(1,2), of Counted ?p "Some Leaving"]
    have "0 < permits_held s Counted ?p" "limiter_use_of t = (limiter_use_of s)\<lparr>lu_limiter := px_limiter (ps_state t), holding := (holding (limiter_use_of s))(?p := holding (limiter_use_of s) ?p - 1),
      dropping := (dropping (limiter_use_of s))(?p := dropping (limiter_use_of s) ?p + 1)\<rparr>"
      using m px_uncount(4) by (auto simp: limiter_use_of_def)
    then show ?thesis using t(3) limiter_step.ls_uncount [of "limiter_use_of s" ?p "pe_sem env"] by (simp add: limiter_use_of_def)
  next
    case (px_give k task)
    let ?p = "fc_priority (rt_ctx task)"
    have t: "ps_tasks t = (ps_tasks s)(k := None)" "ps_next t = ps_next s"
      "px_limiter (ps_state t) = set_bucket ?p (give_permit (pe_sem env) (bucket ?p (px_limiter (ps_state s)))) (px_limiter (ps_state s))"
      using px_give by simp_all
    note m = permits_held_moves [OF conjunct1 [OF inv_task [OF inv px_give(3)]] px_give(3) t(1,2), of Leaving ?p "None"]
    have "0 < permits_held s Leaving ?p" "limiter_use_of t = (limiter_use_of s)\<lparr>lu_limiter := px_limiter (ps_state t), dropping := (dropping (limiter_use_of s))(?p := dropping (limiter_use_of s) ?p - 1)\<rparr>"
      using m px_give(4) by (auto simp: limiter_use_of_def)
    then show ?thesis using t(3) limiter_step.ls_give [of "limiter_use_of s" ?p "pe_sem env"] by (simp add: limiter_use_of_def)
  next
    case (px_probe k task refusing found refused i now bs open_to)
    show ?thesis by (rule disjI1, rule same [OF px_probe(3)]) (use px_probe in simp_all)
  next
    case (px_post k task refusing found refused i)
    show ?thesis by (rule disjI1, rule same [OF px_post(3)]) (use px_post in simp_all)
  next
    case (px_fail k task i answer now)
    show ?thesis by (rule disjI1, rule same [OF px_fail(3)]) (use px_fail in simp_all)
  next
    case (px_succeed k task i reply)
    show ?thesis by (rule disjI1, rule same [OF px_succeed(3)]) (use px_succeed in simp_all)
  next
    case (px_bind k task i reply)
    show ?thesis by (rule disjI1, rule same [OF px_bind(3)]) (use px_bind in \<open>simp_all split: option.split\<close>)
  next
    case (px_answer k task i reply resp)
    show ?thesis by (rule disjI1, rule same [OF px_answer(3)]) (use px_answer in auto)
  qed (use rest in simp_all)
qed

interpretation pl: simulation "proxy_start env lims" "proxy_step env" "proxy_inv env"
    "\<lambda>u _ u'. limiter_step (pe_sem env) u u'" limiter_use_of "\<lambda>_. None" for env lims
  using limiter_sim by unfold_locales blast

end
