(* ===== verification/Proxy_Runs.thy ===== *)
theory Proxy_Runs
  imports Proxy_Steps
begin

text \<open>
  \<open>forward\<close> as a run of the concurrent system of \<open>Proxy_Steps\<close>: one request taken from its headers to
  its response, while other requests, health probes and reports run whenever it awaits a post.
\<close>

section \<open>Other requests\<close>

abbreviation sys :: "'s proxy_state \<Rightarrow> (nat \<Rightarrow> request_task option) \<Rightarrow> nat \<Rightarrow> 's proxy_system" where
  "sys st tasks n \<equiv> \<lparr>ps_state = st, ps_tasks = tasks, ps_next = n\<rparr>"

text \<open>\<open>pe_other env j\<close> is some run of the system without the request itself. \<open>R j tasks n\<close> says which
  other requests there may be at the \<open>j\<close>-th post, and the next free number.\<close>

definition others_run ::
  "'s proxy_env \<Rightarrow> (nat \<Rightarrow> (nat \<Rightarrow> request_task option) \<Rightarrow> nat \<Rightarrow> bool) \<Rightarrow> bool" where
  "others_run env R \<longleftrightarrow>
     (\<forall>j st tasks n. R j tasks n \<longrightarrow>
        (\<exists>es tasks' n'. run (proxy_step env) (sys st tasks n) es (sys (pe_other env j st) tasks' n') \<and> R (Suc j) tasks' n'))"

definition with_task :: "nat \<Rightarrow> request_task \<Rightarrow> 's proxy_system \<Rightarrow> 's proxy_system" where
  "with_task k task s = sys (ps_state s) ((ps_tasks s)(k \<mapsto> task)) (ps_next s)"

text \<open>The number of the request an event belongs to.\<close>

fun event_owner :: "proxy_event \<Rightarrow> nat option" where
  "event_owner (Pe_Admitted k ctx) = Some k"
| "event_owner (Pe_Probed k i now) = Some k"
| "event_owner (Pe_Posted k i rq) = Some k"
| "event_owner (Pe_Failed k i now a) = Some k"
| "event_owner (Pe_Succeeded k i reply) = Some k"
| "event_owner (Pe_Answered k resp) = Some k"
| "event_owner (Pe_Moved k) = Some k"
| "event_owner _ = None"

lemma step_with_task:
  assumes "proxy_step env s e t" "k < ps_next s" "ps_tasks s k = None"
  shows "proxy_step env (with_task k task s) e (with_task k task t) \<and> k < ps_next t \<and> ps_tasks t k = None \<and>
    event_owner e \<noteq> Some k"
proof -
  have twist: "(ps_tasks s)(k \<mapsto> task, j := x) = (ps_tasks s)(j := x, k \<mapsto> task)" if "j \<noteq> k" for j x
    using that by (rule fun_upd_twist [symmetric])
  have ne: "j \<noteq> k" if "ps_tasks s j = Some x" for j x using that assms(3) by auto
  show ?thesis
    using assms(1)
  proof cases
    case (px_take headers body ctx b)
    then show ?thesis using assms(2,3) proxy_step.px_take [of env headers body "with_task k task s" ctx b] twist [of "ps_next s"]
      by (simp add: with_task_def)
  next
    case (px_refuse headers p status d r outcome)
    then show ?thesis using assms(2,3) proxy_step.px_refuse [of env headers p "with_task k task s" status d r outcome]
      by (simp add: with_task_def)
  next
    case (px_health i now ok)
    then show ?thesis using assms(2,3) proxy_step.px_health [of i "with_task k task s" env now ok] by (simp add: with_task_def)
  next
    case (px_report clk request reg status answer)
    then show ?thesis using assms(2,3) proxy_step.px_report [of clk request "with_task k task s" reg status answer env]
      by (simp add: with_task_def)
  next
    case (px_note m)
    then show ?thesis using assms(2,3) proxy_step.px_note [of m "with_task k task s" env] by (simp add: with_task_def)
  next
    case (px_count j task')
    then show ?thesis
      using px_count ne [OF px_count(3)] assms(2,3) twist proxy_step.px_count [of "with_task k task s" j task' env]
      by (simp add: with_task_def)
  next
    case (px_probe j task' refusing found refused i now bs ok)
    then show ?thesis
      using px_probe ne [OF px_probe(3)] assms(2,3) twist proxy_step.px_probe [of "with_task k task s" j task' refusing found refused env i now bs ok]
      by (simp add: with_task_def)
  next
    case (px_post j task' refusing found refused i)
    then show ?thesis
      using px_post ne [OF px_post(3)] assms(2,3) twist proxy_step.px_post [of "with_task k task s" j task' refusing found refused i env]
      by (simp add: with_task_def)
  next
    case (px_fail j task' i answer now)
    then show ?thesis
      using px_fail ne [OF px_fail(3)] assms(2,3) twist proxy_step.px_fail [of "with_task k task s" j task' i answer env now]
      by (simp add: with_task_def)
  next
    case (px_succeed j task' i reply)
    then show ?thesis
      using px_succeed ne [OF px_succeed(3)] assms(2,3) twist proxy_step.px_succeed [of "with_task k task s" j task' i reply env]
      by (simp add: with_task_def)
  next
    case (px_bind j task' i reply)
    then show ?thesis
      using px_bind ne [OF px_bind(3)] assms(2,3) twist proxy_step.px_bind [of "with_task k task s" j task' i reply env]
      by (simp add: with_task_def cong: option.case_cong)
  next
    case (px_answer j task' i reply resp d backend status outcome)
    then show ?thesis
      using px_answer ne [OF px_answer(3)] assms(2,3) twist
        proxy_step.px_answer [of "with_task k task s" j task' i reply resp env d backend status outcome]
      by (simp add: with_task_def)
  next
    case (px_uncount j task')
    then show ?thesis
      using px_uncount ne [OF px_uncount(3)] assms(2,3) twist proxy_step.px_uncount [of "with_task k task s" j task' env]
      by (simp add: with_task_def)
  next
    case (px_give j task')
    then show ?thesis
      using px_give ne [OF px_give(3)] assms(2,3) twist proxy_step.px_give [of "with_task k task s" j task' env]
      by (simp add: with_task_def)
  qed
qed

lemma run_with_task:
  assumes "run (proxy_step env) s es t" "k < ps_next s" "ps_tasks s k = None"
  shows "run (proxy_step env) (with_task k task s) es (with_task k task t) \<and> k < ps_next t \<and> ps_tasks t k = None \<and>
    (\<forall>e \<in> set es. event_owner e \<noteq> Some k)"
  using assms
proof (induction rule: run.induct)
  case (run_nil s)
  then show ?case using run.run_nil [of "proxy_step env"] by simp
next
  case (run_snoc s es t e u)
  then have IH: "run (proxy_step env) (with_task k task s) es (with_task k task t)" "k < ps_next t" "ps_tasks t k = None"
    "\<forall>e \<in> set es. event_owner e \<noteq> Some k" by blast+
  note step = step_with_task [OF run_snoc.hyps(2) IH(2,3), of task]
  show ?case using run.run_snoc [OF IH(1) conjunct1 [OF step]] step IH(4) by auto
qed

section \<open>A selection\<close>

text \<open>The breakers a selection probes, one after the other.\<close>

definition choosing :: "forward_ctx \<Rightarrow> nat list \<Rightarrow> nat list \<Rightarrow> nat list \<Rightarrow> upstream option \<Rightarrow> request_task" where
  "choosing ctx attempted refusing found refused =
     \<lparr>rt_ctx = ctx, rt_attempted = attempted, rt_phase = Choosing refusing found refused\<rparr>"

lemma choosing_simps [simp]:
  "rt_ctx (choosing ctx att ref fnd a) = ctx" "rt_attempted (choosing ctx att ref fnd a) = att"
  "rt_phase (choosing ctx att ref fnd a) = Choosing ref fnd a"
  "(choosing ctx att ref fnd a)\<lparr>rt_phase := Choosing ref' fnd' a'\<rparr> = choosing ctx att ref' fnd' a'"
  by (simp_all add: choosing_def)

text \<open>The events of a selection of request \<open>k\<close>.\<close>

definition selecting :: "nat \<Rightarrow> proxy_event list \<Rightarrow> bool" where
  "selecting k es \<longleftrightarrow> (\<forall>e \<in> set es. e = Pe_Other \<or> (\<exists>i now. e = Pe_Probed k i now))"

lemma selecting_simps [simp]:
  "selecting k []" "selecting k (es @ fs) \<longleftrightarrow> selecting k es \<and> selecting k fs"
  "selecting k [Pe_Probed k i now]" "selecting k [Pe_Other]"
  by (auto simp: selecting_def)

lemma probes_run:
  assumes "distinct cs" "\<forall>i \<in> set cs. may_take env ctx att (px_backends st) i"
  shows "\<exists>es. selecting k es \<and>
    run (proxy_step env) (sys st (o1(k \<mapsto> choosing ctx att ref fnd a)) n) es
      (sys (st\<lparr>px_backends := probed nw (set cs) (px_backends st)\<rparr>)
        (o1(k \<mapsto> choosing ctx att (rev (filter (\<lambda>i. \<not> up nw (px_backends st) i) cs) @ ref)
          (rev (filter (up nw (px_backends st)) cs) @ fnd) a)) n)"
  using assms
proof (induction cs rule: rev_induct)
  case Nil
  show ?case by (rule exI [of _ "[]"]) (simp add: run_nil)
next
  case (snoc c cs)
  let ?bs = "px_backends st" and ?mid = "probed nw (set cs) (px_backends st)"
  let ?ref = "rev (filter (\<lambda>i. \<not> up nw ?bs i) cs) @ ref" and ?fnd = "rev (filter (up nw ?bs) cs) @ fnd"
  let ?s = "sys (st\<lparr>px_backends := ?mid\<rparr>) (o1(k \<mapsto> choosing ctx att ?ref ?fnd a)) n"
  obtain es where es: "selecting k es"
    "run (proxy_step env) (sys st (o1(k \<mapsto> choosing ctx att ref fnd a)) n) es ?s"
    using snoc.IH snoc.prems by (auto simp del: fun_upd_apply)
  have c: "c < length ?bs" "c \<notin> set cs" "may_take env ctx att ?bs c" using snoc.prems by (auto simp: may_take_def)
  have "probe (\<lambda>_. nw c) c ?mid = probe nw c ?mid" by (simp add: probe_def)
  also have "\<dots> = (probed nw (set (cs @ [c])) ?bs, up nw ?bs c)"
    using c(1,2) by (simp add: probe_eq probed_probed insert_commute Un_commute)
  finally have p: "probe (\<lambda>_. nw c) c ?mid = (probed nw (set (cs @ [c])) ?bs, up nw ?bs c)" .
  have m: "may_take env ctx att ?mid c" using c(3) by (simp add: may_take_statics [OF statics_probed])
  have "proxy_step env ?s (Pe_Probed k c (nw c)) (sys (st\<lparr>px_backends := probed nw (set (cs @ [c])) ?bs\<rparr>)
      (o1(k \<mapsto> choosing ctx att (rev (filter (\<lambda>i. \<not> up nw ?bs i) (cs @ [c])) @ ref)
          (rev (filter (up nw ?bs) (cs @ [c])) @ fnd) a)) n)"
    using px_probe [of ?s k "choosing ctx att ?ref ?fnd a" ?ref ?fnd a env c "nw c" "probed nw (set (cs @ [c])) ?bs" "up nw ?bs c"]
      m p by (cases "up nw ?bs c") simp_all
  note run = run_snoc [where step = "proxy_step env", OF es(2) this]
  show ?case by (rule exI, rule conjI [OF _ run]) (simp add: es(1))
qed

lemma pick_run:
  assumes p: "pick env ctx j attempted inel st = (st', x)"
    and sub: "\<And>i. i < length (px_backends st) \<Longrightarrow> i \<notin> set attempted \<Longrightarrow> i \<notin> set inel \<Longrightarrow>
      may_take env ctx attempted (px_backends st) i"
  shows "\<exists>es ref' fnd'. selecting k es \<and>
    run (proxy_step env) (sys st (o1(k \<mapsto> choosing ctx attempted ref [] a)) n) es
      (sys st' (o1(k \<mapsto> choosing ctx attempted ref' fnd' a)) n) \<and> set ref \<subseteq> set ref' \<and>
    (case x of
       Some i \<Rightarrow> i \<in> set fnd'
     | None \<Rightarrow> fnd' = [] \<and> (\<forall>i < length (px_backends st). i \<notin> set attempted \<longrightarrow> i \<notin> set inel \<longrightarrow> i \<in> set ref'))"
proof -
  let ?nw = "pe_probe env (length attempted) j" and ?bs = "px_backends st"
  let ?sel = "select_backend_excluding_resource ?nw ?bs (fc_preferred ctx) (fc_origin ctx) attempted inel (fc_ranks ctx)"
  have st': "st' = st\<lparr>px_backends := fst ?sel\<rparr>" and x: "x = snd ?sel"
    using p by (simp_all add: pick_def case_prod_unfold)
  have main: ?thesis
    if S: "fst ?sel = probed ?nw S ?bs" "S \<subseteq> {i. i < length ?bs \<and> i \<notin> set attempted \<and> i \<notin> set inel}"
      and some: "\<And>i. x = Some i \<Longrightarrow> i \<in> S \<and> up ?nw ?bs i"
      and none: "x = None \<Longrightarrow> S = {i. i < length ?bs \<and> i \<notin> set attempted \<and> i \<notin> set inel} \<and> (\<forall>i \<in> S. \<not> up ?nw ?bs i)"
    for S
  proof -
    let ?cs = "sorted_list_of_set S"
    have fin: "finite S" using S(2) by (rule finite_subset) simp
    have cs: "set ?cs = S" "distinct ?cs" using fin by simp_all
    have "\<forall>i \<in> set ?cs. may_take env ctx attempted ?bs i" using S(2) sub unfolding cs(1) by auto
    from probes_run [OF cs(2) this, of k o1 ref "[]" a n ?nw]
    obtain es where es: "selecting k es" "run (proxy_step env) (sys st (o1(k \<mapsto> choosing ctx attempted ref [] a)) n) es
        (sys st' (o1(k \<mapsto> choosing ctx attempted (rev (filter (\<lambda>i. \<not> up ?nw ?bs i) ?cs) @ ref)
          (rev (filter (up ?nw ?bs) ?cs)) a)) n)"
      unfolding st' S(1) cs(1) append_Nil2 by blast
    show ?thesis
    proof (intro exI conjI, rule es(1), rule es(2))
      show "case x of Some i \<Rightarrow> i \<in> set (rev (filter (up ?nw ?bs) ?cs))
        | None \<Rightarrow> rev (filter (up ?nw ?bs) ?cs) = [] \<and> (\<forall>i < length ?bs. i \<notin> set attempted \<longrightarrow> i \<notin> set inel \<longrightarrow>
            i \<in> set (rev (filter (\<lambda>i. \<not> up ?nw ?bs i) ?cs) @ ref))"
        using some none fin by (cases x) (auto simp: filter_empty_conv)
    qed simp
  qed
  show ?thesis
  proof (cases x)
    case None
    then have "snd ?sel = None" using x by simp
    from select_none [OF this] show ?thesis
      using None by (intro main) (auto simp: eligible_def)
  next
    case (Some i)
    then have "snd ?sel = Some i" using x by simp
    from select_some [OF this] obtain S where S: "fst ?sel = probed ?nw S ?bs"
      "S \<subseteq> {i. i < length ?bs \<and> i \<notin> set attempted \<and> i \<notin> set inel}" "i \<in> S" by blast
    have "up ?nw ?bs i" using pick_some [OF p [unfolded Some]] by (simp add: eligible_def)
    then show ?thesis using main [OF S(1,2)] S(3) Some by simp
  qed
qed

text \<open>The other counters do not count requests.\<close>

lemma note_step:
  assumes "st' = st\<lparr>px_metrics := m\<rparr>" "requests m = requests (px_metrics st)"
  shows "proxy_step env (sys st tasks n) Pe_Other (sys st' tasks n)"
  using px_note [of m "sys st tasks n" env] assms by simp

lemma pool_note_step:
  "proxy_step env (sys st tasks n) Pe_Other (sys (proxy_record_pool_decision r p pool b o1 out cs st) tasks n)"
  by (rule note_step [OF proxy_record_pool_decision_def]) (simp add: record_pool_decision_def)

lemma retry_note_step:
  "proxy_step env (sys st tasks n) Pe_Other (sys (proxy_record_retry r p b o1 why st) tasks n)"
  by (rule note_step [OF proxy_record_retry_def]) (simp add: record_retry_def)

lemma fallback_note_step:
  "proxy_step env (sys st tasks n) Pe_Other (sys (note_fallback ctx i st) tasks n)"
proof (cases "fallback_reason (px_backends st) i (fc_preferred ctx) (fc_origin ctx) (fc_route_ineligible ctx) (fc_ineligible ctx)")
  case None
  then show ?thesis by (intro note_step [where m = "px_metrics st"]) (simp_all add: note_fallback_def)
next
  case (Some why)
  then have "note_fallback ctx i st =
      proxy_record_fallback (fc_route ctx) (fc_priority ctx) (px_backends st ! i) (fc_origin ctx) why st"
    by (simp add: note_fallback_def)
  from note_step [OF this [unfolded proxy_record_fallback_def]] show ?thesis by (simp add: record_fallback_def)
qed

text \<open>What a selection of request \<open>k\<close> does, from nothing found to its result \<open>x\<close>: it probes backends,
  and when it finds none, all those of \<open>P\<close> refuse.\<close>

definition result_ok :: "(nat \<Rightarrow> bool) \<Rightarrow> nat option \<Rightarrow> nat list \<Rightarrow> nat list \<Rightarrow> bool" where
  "result_ok P x ref fnd \<longleftrightarrow> (case x of Some i \<Rightarrow> i \<in> set fnd | None \<Rightarrow> fnd = [] \<and> Collect P \<subseteq> set ref)"

definition selects ::
  "'s proxy_env \<Rightarrow> forward_ctx \<Rightarrow> nat list \<Rightarrow> (nat \<Rightarrow> bool) \<Rightarrow> 's proxy_state \<Rightarrow> 's proxy_state \<Rightarrow> nat option \<Rightarrow> bool" where
  "selects env ctx attempted P st st' x \<longleftrightarrow>
     (\<forall>k tasks n ref a. \<exists>es ref' fnd'. selecting k es \<and> set ref \<subseteq> set ref' \<and> result_ok P x ref' fnd' \<and>
        run (proxy_step env) (sys st (tasks(k \<mapsto> choosing ctx attempted ref [] a)) n) es
          (sys st' (tasks(k \<mapsto> choosing ctx attempted ref' fnd' a)) n))"

lemma selectsI:
  assumes "\<And>k tasks n ref a. \<exists>es ref' fnd'. selecting k es \<and> set ref \<subseteq> set ref' \<and> result_ok P x ref' fnd' \<and>
    run (proxy_step env) (sys st (tasks(k \<mapsto> choosing ctx attempted ref [] a)) n) es
      (sys st' (tasks(k \<mapsto> choosing ctx attempted ref' fnd' a)) n)"
  shows "selects env ctx attempted P st st' x"
  unfolding selects_def by (intro allI) (rule assms)

lemma selectsE:
  assumes "selects env ctx attempted P st st' x"
  obtains es ref' fnd' where "selecting k es" "set ref \<subseteq> set ref'" "result_ok P x ref' fnd'"
    "run (proxy_step env) (sys st (tasks(k \<mapsto> choosing ctx attempted ref [] a)) n) es
      (sys st' (tasks(k \<mapsto> choosing ctx attempted ref' fnd' a)) n)"
  using assms unfolding selects_def by metis

lemma selects_pick:
  assumes "pick env ctx j attempted inel st = (st', x)"
    and "\<And>i. i < length (px_backends st) \<Longrightarrow> i \<notin> set attempted \<Longrightarrow> i \<notin> set inel \<Longrightarrow>
      may_take env ctx attempted (px_backends st) i"
    and P: "\<And>i. P i \<Longrightarrow> i < length (px_backends st) \<and> i \<notin> set attempted \<and> i \<notin> set inel"
  shows "selects env ctx attempted P st st' x"
proof (rule selectsI)
  fix k tasks n ref a
  obtain es ref' fnd' where es: "selecting k es" "set ref \<subseteq> set ref'"
    "run (proxy_step env) (sys st (tasks(k \<mapsto> choosing ctx attempted ref [] a)) n) es
      (sys st' (tasks(k \<mapsto> choosing ctx attempted ref' fnd' a)) n)"
    "case x of Some i \<Rightarrow> i \<in> set fnd'
      | None \<Rightarrow> fnd' = [] \<and> (\<forall>i < length (px_backends st). i \<notin> set attempted \<longrightarrow> i \<notin> set inel \<longrightarrow> i \<in> set ref')"
    using pick_run [OF assms(1,2)] by blast
  moreover from es(4) P have "result_ok P x ref' fnd'" by (auto simp: result_ok_def split: option.splits)
  ultimately show "\<exists>es ref' fnd'. selecting k es \<and> set ref \<subseteq> set ref' \<and> result_ok P x ref' fnd' \<and>
      run (proxy_step env) (sys st (tasks(k \<mapsto> choosing ctx attempted ref [] a)) n) es
        (sys st' (tasks(k \<mapsto> choosing ctx attempted ref' fnd' a)) n)" by blast
qed

lemma selects_note:
  assumes "selects env ctx attempted P st st' x"
  shows "selects env ctx attempted P st (proxy_record_pool_decision r p pool b o1 out cs st') x"
proof (rule selectsI)
  fix k tasks n ref a
  obtain es ref' fnd' where es: "selecting k es" "set ref \<subseteq> set ref'" "result_ok P x ref' fnd'"
    "run (proxy_step env) (sys st (tasks(k \<mapsto> choosing ctx attempted ref [] a)) n) es
      (sys st' (tasks(k \<mapsto> choosing ctx attempted ref' fnd' a)) n)"
    using assms by (rule selectsE)
  have "selecting k (es @ [Pe_Other])" using es(1) by simp
  with es(2,3) run_snoc [where step = "proxy_step env", OF es(4) pool_note_step [of env st' _ n r p pool b o1 out cs]]
  show "\<exists>es ref' fnd'. selecting k es \<and> set ref \<subseteq> set ref' \<and> result_ok P x ref' fnd' \<and>
      run (proxy_step env) (sys st (tasks(k \<mapsto> choosing ctx attempted ref [] a)) n) es
        (sys (proxy_record_pool_decision r p pool b o1 out cs st') (tasks(k \<mapsto> choosing ctx attempted ref' fnd' a)) n)"
    by blast
qed

lemma selects_seq:
  assumes "selects env ctx attempted P st st1 None" "selects env ctx attempted Q st1 st' x"
  shows "selects env ctx attempted (\<lambda>i. P i \<or> Q i) st st' x"
proof (rule selectsI)
  fix k tasks n ref a
  obtain es ref1 fnd1 where es: "selecting k es" "set ref \<subseteq> set ref1" "result_ok P None ref1 fnd1"
    "run (proxy_step env) (sys st (tasks(k \<mapsto> choosing ctx attempted ref [] a)) n) es
      (sys st1 (tasks(k \<mapsto> choosing ctx attempted ref1 fnd1 a)) n)"
    using assms(1) by (rule selectsE)
  obtain fs ref2 fnd where fs: "selecting k fs" "set ref1 \<subseteq> set ref2" "result_ok Q x ref2 fnd"
    "run (proxy_step env) (sys st1 (tasks(k \<mapsto> choosing ctx attempted ref1 [] a)) n) fs
      (sys st' (tasks(k \<mapsto> choosing ctx attempted ref2 fnd a)) n)"
    using assms(2) by (rule selectsE)
  have fnd1: "fnd1 = []" "Collect P \<subseteq> set ref1" using es(3) by (simp_all add: result_ok_def)
  have "selecting k (es @ fs)" "set ref \<subseteq> set ref2" using es fs by auto
  moreover have "result_ok (\<lambda>i. P i \<or> Q i) x ref2 fnd"
    using fnd1 fs(2,3) by (auto simp: result_ok_def split: option.splits)
  ultimately show "\<exists>es ref' fnd'. selecting k es \<and> set ref \<subseteq> set ref' \<and> result_ok (\<lambda>i. P i \<or> Q i) x ref' fnd' \<and>
      run (proxy_step env) (sys st (tasks(k \<mapsto> choosing ctx attempted ref [] a)) n) es
        (sys st' (tasks(k \<mapsto> choosing ctx attempted ref' fnd' a)) n)"
    using run_trans [OF fs(4) es(4) [unfolded fnd1(1)]] by blast
qed

lemma selects_weaken:
  assumes "selects env ctx att P st st' x" "\<And>i. Q i \<Longrightarrow> P i"
  shows "selects env ctx att Q st st' x"
proof (rule selectsI)
  fix k tasks n ref a
  obtain es ref' fnd' where es: "selecting k es" "set ref \<subseteq> set ref'" "result_ok P x ref' fnd'"
    "run (proxy_step env) (sys st (tasks(k \<mapsto> choosing ctx att ref [] a)) n) es
      (sys st' (tasks(k \<mapsto> choosing ctx att ref' fnd' a)) n)"
    using assms(1) by (rule selectsE)
  moreover have "result_ok Q x ref' fnd'" using es(3) assms(2) by (auto simp: result_ok_def split: option.splits)
  ultimately show "\<exists>es ref' fnd'. selecting k es \<and> set ref \<subseteq> set ref' \<and> result_ok Q x ref' fnd' \<and>
      run (proxy_step env) (sys st (tasks(k \<mapsto> choosing ctx att ref [] a)) n) es
        (sys st' (tasks(k \<mapsto> choosing ctx att ref' fnd' a)) n)" by blast
qed

lemma selects_nothing: "selects env ctx attempted (\<lambda>i. False) st st None"
  by (rule selectsI) (use run_nil in \<open>fastforce simp: result_ok_def intro: exI [of _ "[]"]\<close>)

lemma selects_pools:
  assumes "select_in_pools env ctx attempted j pools st = (st', x)"
    and "pools_for (pe_pools env) (workload_as_str (route_kind (fc_route ctx))) = Some all" "set pools \<subseteq> set all"
  shows "selects env ctx attempted
    (\<lambda>i. may_take env ctx attempted (px_backends st) i \<and> bk_pool (px_backends st ! i) \<in> set pools) st st' x"
  using assms(1,3)
proof (induction pools arbitrary: j st)
  case Nil
  show ?case using Nil selects_nothing by simp
next
  case (Cons pool pools)
  let ?inel = "selection_ineligible_with_pool (fc_route_ineligible ctx) (fc_ineligible ctx)
      (pool_ineligible_backends (px_backends st) pool)"
  let ?P = "\<lambda>i. may_take env ctx attempted (px_backends st) i \<and> bk_pool (px_backends st ! i) = pool"
  obtain st1 r where p: "pick env ctx j attempted ?inel st = (st1, r)" by fastforce
  have sel: "selects env ctx attempted ?P st st1 r"
    using Cons.prems(2) assms(2) by (intro selects_pick [OF p]) (auto simp: may_take_def)
  show ?case
  proof (cases r)
    case (Some i)
    then have "x = Some i" "st' = proxy_record_pool_decision (fc_route ctx) (fc_priority ctx) pool
        (Some (px_backends st1 ! i)) (fc_origin ctx) ''selected'' (pool_candidate_counts (px_backends st) pool attempted
          (fc_route_ineligible ctx) (fc_ineligible ctx)) st1"
      using Cons.prems(1) p by (auto simp: Let_def)
    moreover have "selects env ctx attempted
        (\<lambda>i. may_take env ctx attempted (px_backends st) i \<and> bk_pool (px_backends st ! i) \<in> set (pool # pools)) st st1 (Some i)"
      using sel [unfolded Some] by (auto simp: selects_def result_ok_def)
    ultimately show ?thesis using selects_note by simp
  next
    case None
    let ?counts = "pool_candidate_counts (px_backends st) pool attempted (fc_route_ineligible ctx) (fc_ineligible ctx)"
    let ?st = "proxy_record_pool_decision (fc_route ctx) (fc_priority ctx) pool None (fc_origin ctx) ''unavailable'' ?counts st1"
    have st: "statics (px_backends ?st) = statics (px_backends st)"
      using pick_only [of st env ctx j attempted ?inel] p by (simp add: only_circuits_def)
    have "select_in_pools env ctx attempted (j + 1) pools ?st = (st', x)"
      using Cons.prems(1) p None by (simp add: Let_def)
    from Cons.IH [OF this] Cons.prems(2)
    have "selects env ctx attempted (\<lambda>i. may_take env ctx attempted (px_backends ?st) i \<and>
        bk_pool (px_backends ?st ! i) \<in> set pools) ?st st' x" by simp
    from selects_seq [OF selects_note [OF sel [unfolded None]] this] show ?thesis
    proof (rule selects_weaken)
      fix i assume i: "may_take env ctx attempted (px_backends st) i \<and> bk_pool (px_backends st ! i) \<in> set (pool # pools)"
      then have "i < length (px_backends st)" by (simp add: may_take_def)
      from statics_nth(1) [OF st this] i show "?P i \<or> may_take env ctx attempted (px_backends ?st) i \<and>
          bk_pool (px_backends ?st ! i) \<in> set pools"
        using may_take_statics [OF st, of env ctx attempted i] by auto
    qed
  qed
qed

lemma selects_route:
  assumes "select_backend_for_route env ctx attempted st = (st', x)"
  shows "selects env ctx attempted (may_take env ctx attempted (px_backends st)) st st' x"
proof (cases "pools_for (pe_pools env) (workload_as_str (route_kind (fc_route ctx)))")
  case None
  obtain st1 r where p: "pick env ctx 0 attempted (selection_ineligible (fc_route_ineligible ctx) (fc_ineligible ctx)) st = (st1, r)"
    by fastforce
  have "selects env ctx attempted (may_take env ctx attempted (px_backends st)) st st1 r"
    using None by (intro selects_pick [OF p]) (auto simp: may_take_def)
  moreover have "x = r" "st' = proxy_record_pool_decision (fc_route ctx) (fc_priority ctx) []
      (case r of None \<Rightarrow> None | Some idx \<Rightarrow> get_at (px_backends st1) idx) (fc_origin ctx)
      (if r \<noteq> None then ''selected'' else ''unavailable'')
      (any_pool_candidate_counts (px_backends st) attempted (fc_route_ineligible ctx) (fc_ineligible ctx)) st1"
    using assms p None by (auto simp: select_backend_for_route_def Let_def)
  ultimately show ?thesis by (simp only: selects_note)
next
  case (Some pools)
  then have "select_in_pools env ctx attempted 0 pools st = (st', x)"
    using assms by (simp add: select_backend_for_route_def)
  from selects_pools [OF this Some subset_refl] show ?thesis
    by (rule selects_weaken) (simp add: may_take_def Some)
qed

section \<open>The loop\<close>

text \<open>The answers that request \<open>k\<close> gives.\<close>

fun answer_of_event :: "nat \<Rightarrow> proxy_event \<Rightarrow> proxy_response option" where
  "answer_of_event k (Pe_Answered j resp) = (if j = k then Some resp else None)"
| "answer_of_event k _ = None"

abbreviation answers_of :: "nat \<Rightarrow> proxy_event list \<Rightarrow> proxy_response list" where
  "answers_of k \<equiv> observed (answer_of_event k)"

lemma selecting_answers: "selecting k es \<Longrightarrow> answers_of k es = []"
  by (induction es) (auto simp: selecting_def)

lemma others_answers: "\<forall>e \<in> set es. event_owner e \<noteq> Some k \<Longrightarrow> answers_of k es = []"
proof (induction es)
  case (Cons e es)
  then show ?case by (cases e) auto
qed simp

text \<open>What holds between the steps of request \<open>k\<close>: its number is used and not by another request, and
  the others are as \<open>R\<close> says.\<close>

definition apart ::
  "(nat \<Rightarrow> (nat \<Rightarrow> request_task option) \<Rightarrow> nat \<Rightarrow> bool) \<Rightarrow> nat \<Rightarrow> nat \<Rightarrow> (nat \<Rightarrow> request_task option) \<Rightarrow> nat \<Rightarrow> bool" where
  "apart R k j tasks n \<longleftrightarrow> tasks k = None \<and> k < n \<and> R j tasks n"

lemma post_run:
  assumes others: "others_run env R" and apart: "apart R k (length attempted) tasks n" and idx: "idx \<in> set fnd"
  obtains es tasks' n' where "answers_of k es = []" "apart R k (Suc (length attempted)) tasks' n'"
    "run (proxy_step env) (sys st (tasks(k \<mapsto> choosing ctx attempted ref fnd a)) n) es
      (sys (pe_other env (length attempted) (note_fallback ctx idx st))
        (tasks'(k \<mapsto> \<lparr>rt_ctx = ctx, rt_attempted = attempted, rt_phase = Posting idx\<rparr>)) n')"
proof -
  let ?st = "note_fallback ctx idx st" and ?task = "choosing ctx attempted ref fnd a"
    and ?task' = "\<lparr>rt_ctx = ctx, rt_attempted = attempted, rt_phase = Posting idx\<rparr>"
  have R: "R (length attempted) tasks n" "tasks k = None" "k < n" using apart by (simp_all add: apart_def)
  obtain es tasks' n' where es: "run (proxy_step env) (sys ?st tasks n) es (sys (pe_other env (length attempted) ?st) tasks' n')"
    "R (Suc (length attempted)) tasks' n'"
    using others R(1) unfolding others_run_def by blast
  have frame: "run (proxy_step env) (sys ?st (tasks(k \<mapsto> ?task')) n) es
      (sys (pe_other env (length attempted) ?st) (tasks'(k \<mapsto> ?task')) n')"
    "apart R k (Suc (length attempted)) tasks' n'" "answers_of k es = []"
    using run_with_task [OF es(1), of k ?task'] R(2,3) es(2) others_answers [of es k]
    by (simp_all add: with_task_def apart_def)
  let ?s = "sys ?st (tasks(k \<mapsto> ?task)) n"
  have "run (proxy_step env) (sys st (tasks(k \<mapsto> ?task)) n) [Pe_Other] ?s"
    by (rule run_one) (rule fallback_note_step)
  moreover have "proxy_step env ?s (Pe_Posted k idx (request_to ctx (px_backends ?st ! idx))) (sys ?st (tasks(k \<mapsto> ?task')) n)"
    using px_post [of ?s k ?task ref fnd a idx env] idx by (simp add: choosing_def)
  ultimately have "run (proxy_step env) (sys st (tasks(k \<mapsto> ?task)) n)
      ([Pe_Other] @ [Pe_Posted k idx (request_to ctx (px_backends ?st ! idx))]) (sys ?st (tasks(k \<mapsto> ?task')) n)"
    by (rule run_snoc)
  from that [OF _ frame(2) run_trans [OF frame(1) this]] show thesis using frame(3) by simp
qed

lemma failure_run:
  assumes "failed_post ctx answer" "select_backend_for_route env ctx (attempted @ [idx])
      (note_failure env ctx j idx reason st) = (st', x)"
  obtains es ref fnd where "answers_of k es = []" "result_ok (may_take env ctx (attempted @ [idx]) (px_backends st')) x ref fnd"
    "run (proxy_step env) (sys st (tasks(k \<mapsto> \<lparr>rt_ctx = ctx, rt_attempted = attempted, rt_phase = Posting idx\<rparr>)) n) es
      (sys st' (tasks(k \<mapsto> choosing ctx (attempted @ [idx]) ref fnd answer)) n)"
proof -
  let ?task = "\<lparr>rt_ctx = ctx, rt_attempted = attempted, rt_phase = Posting idx\<rparr>"
    and ?st1 = "set_circuit idx (record_failure (pe_now env j)) st" and ?st2 = "note_failure env ctx j idx reason st"
    and ?task1 = "choosing ctx (attempted @ [idx]) [] [] answer"
  have "proxy_step env (sys st (tasks(k \<mapsto> ?task)) n) (Pe_Failed k idx (pe_now env j) answer)
      (sys ?st1 (tasks(k \<mapsto> ?task1)) n)"
    using px_fail [of "sys st (tasks(k \<mapsto> ?task)) n" k ?task idx answer env "pe_now env j"] assms(1)
    by (simp add: choosing_def)
  then have "run (proxy_step env) (sys st (tasks(k \<mapsto> ?task)) n) [Pe_Failed k idx (pe_now env j) answer]
      (sys ?st1 (tasks(k \<mapsto> ?task1)) n)" by (rule run_one)
  moreover have "proxy_step env (sys ?st1 (tasks(k \<mapsto> ?task1)) n) Pe_Other (sys ?st2 (tasks(k \<mapsto> ?task1)) n)"
    unfolding note_failure_def by (rule retry_note_step)
  ultimately have fail: "run (proxy_step env) (sys st (tasks(k \<mapsto> ?task)) n)
      ([Pe_Failed k idx (pe_now env j) answer] @ [Pe_Other]) (sys ?st2 (tasks(k \<mapsto> ?task1)) n)" by (rule run_snoc)
  obtain es ref fnd where es: "selecting k es" "result_ok (may_take env ctx (attempted @ [idx]) (px_backends ?st2)) x ref fnd"
    "run (proxy_step env) (sys ?st2 (tasks(k \<mapsto> ?task1)) n) es
      (sys st' (tasks(k \<mapsto> choosing ctx (attempted @ [idx]) ref fnd answer)) n)"
    using selects_route [OF assms(2)] by (rule selectsE)
  have "statics (px_backends st') = statics (px_backends ?st2)"
    using route_statics [of env ctx "attempted @ [idx]" ?st2] assms(2) by simp
  then have "may_take env ctx (attempted @ [idx]) (px_backends st') = may_take env ctx (attempted @ [idx]) (px_backends ?st2)"
    by (intro ext) (rule may_take_statics)
  with that [OF _ _ run_trans [OF es(3) fail]] es(1,2) show thesis by (simp add: selecting_answers)
qed

lemma record_answer_step:
  assumes "tasks k = Some task"
    "rt_phase task = Bound i reply \<and> resp = upstream_response (pe_to_str env) reply (up_status reply) \<or>
     (\<exists>refusing a. rt_phase task = Choosing refusing [] a \<and>
        (\<forall>j. may_take env (rt_ctx task) (rt_attempted task) (px_backends st) j \<longrightarrow> j \<in> set refusing) \<and>
        resp = give_up (pe_to_str env) task a (length (px_backends st)))"
  shows "proxy_step env (sys st tasks n) (Pe_Answered k resp)
    (sys (proxy_record_request env (fc_route (rt_ctx task)) (fc_priority (rt_ctx task)) b (fc_origin (rt_ctx task)) status outcome st)
      (tasks(k \<mapsto> task\<lparr>rt_phase := Answered resp\<rparr>)) n)"
  using px_answer [of "sys st tasks n" k task i reply resp env "pe_elapsed env" b status outcome] assms by simp

text \<open>A request that is answered: its permit and the others are still there.\<close>

definition ends ::
  "'s proxy_env \<Rightarrow> (nat \<Rightarrow> (nat \<Rightarrow> request_task option) \<Rightarrow> nat \<Rightarrow> bool) \<Rightarrow> nat \<Rightarrow> forward_ctx \<Rightarrow> 's proxy_system
     \<Rightarrow> 's proxy_state \<times> proxy_response \<Rightarrow> bool" where
  "ends env R k ctx s out \<longleftrightarrow>
     (\<exists>es tasks n task j. run (proxy_step env) s es (sys (fst out) (tasks(k \<mapsto> task)) n) \<and> apart R k j tasks n \<and>
        answers_of k es = [snd out] \<and> rt_ctx task = ctx \<and> rt_phase task = Answered (snd out))"

lemma ends_after:
  assumes "run (proxy_step env) s es t" "answers_of k es = []" "ends env R k ctx t out"
  shows "ends env R k ctx s out"
proof -
  obtain fs tasks n task j where fs: "run (proxy_step env) t fs (sys (fst out) (tasks(k \<mapsto> task)) n)"
    "apart R k j tasks n" "answers_of k fs = [snd out]" "rt_ctx task = ctx" "rt_phase task = Answered (snd out)"
    using assms(3) unfolding ends_def by blast
  have "answers_of k (es @ fs) = [snd out]" using assms(2) fs(3) by simp
  with run_trans [OF fs(1) assms(1)] fs show ?thesis unfolding ends_def by blast
qed

lemma gives_up:
  assumes "result_ok (may_take env ctx attempted (px_backends st)) None ref fnd" "apart R k j tasks n"
    "resp = give_up (pe_to_str env) (choosing ctx attempted ref fnd a) a (length (px_backends st))"
  shows "ends env R k ctx (sys st (tasks(k \<mapsto> choosing ctx attempted ref fnd a)) n)
    (proxy_record_request env (fc_route ctx) (fc_priority ctx) b (fc_origin ctx) status outcome st, resp)"
proof -
  let ?task = "choosing ctx attempted ref fnd a"
  have r: "fnd = []" "Collect (may_take env ctx attempted (px_backends st)) \<subseteq> set ref"
    using assms(1) by (simp_all add: result_ok_def)
  have "proxy_step env (sys st (tasks(k \<mapsto> ?task)) n) (Pe_Answered k resp)
    (sys (proxy_record_request env (fc_route (rt_ctx ?task)) (fc_priority (rt_ctx ?task)) b (fc_origin (rt_ctx ?task)) status outcome st)
      ((tasks(k \<mapsto> ?task))(k \<mapsto> ?task\<lparr>rt_phase := Answered resp\<rparr>)) n)"
    by (rule record_answer_step) (use r assms(3) in auto)
  then have "run (proxy_step env) (sys st (tasks(k \<mapsto> ?task)) n) [Pe_Answered k resp]
    (sys (proxy_record_request env (fc_route ctx) (fc_priority ctx) b (fc_origin ctx) status outcome st)
      (tasks(k \<mapsto> ?task\<lparr>rt_phase := Answered resp\<rparr>)) n)"
    by (intro run_one) simp
  then show ?thesis unfolding ends_def fst_conv snd_conv
    by (intro exI [of _ "[Pe_Answered k resp]"] exI [of _ tasks] exI [of _ n] exI [of _ j]
        exI [of _ "?task\<lparr>rt_phase := Answered resp\<rparr>"]) (simp add: assms(2))
qed

lemma success_run:
  assumes "\<not> failed_post ctx (Some reply)" "apart R k j tasks n"
  shows "ends env R k ctx
    (sys st (tasks(k \<mapsto> \<lparr>rt_ctx = ctx, rt_attempted = attempted, rt_phase = Posting idx\<rparr>)) n)
    (note_success env ctx attempted idx (up_status reply) st, upstream_response (pe_to_str env) reply (up_status reply))"
proof -
  let ?task = "\<lambda>ph. \<lparr>rt_ctx = ctx, rt_attempted = attempted, rt_phase = ph\<rparr>"
    and ?resp = "upstream_response (pe_to_str env) reply (up_status reply)"
  let ?s = "sys st (tasks(k \<mapsto> ?task (Posting idx))) n" and ?st1 = "set_circuit idx record_success st"
  let ?st2 = "case fc_affinity_key ctx of None \<Rightarrow> ?st1
      | Some key \<Rightarrow> ?st1\<lparr>px_affinity := affinity_record key idx (px_affinity ?st1)\<rparr>"
  let ?s1 = "sys ?st1 (tasks(k \<mapsto> ?task (Accepted idx reply))) n" and ?s2 = "sys ?st2 (tasks(k \<mapsto> ?task (Bound idx reply))) n"
    and ?s3 = "sys (note_success env ctx attempted idx (up_status reply) st) (tasks(k \<mapsto> ?task (Answered ?resp))) n"
  have "proxy_step env ?s (Pe_Succeeded k idx reply) ?s1"
    using px_succeed [of ?s k "?task (Posting idx)" idx reply env] assms(1) by simp
  then have "run (proxy_step env) ?s [Pe_Succeeded k idx reply] ?s1" by (rule run_one)
  moreover have "proxy_step env ?s1 (Pe_Moved k) ?s2"
    using px_bind [of ?s1 k "?task (Accepted idx reply)" idx reply env] by (simp cong: option.case_cong)
  ultimately have "run (proxy_step env) ?s ([Pe_Succeeded k idx reply] @ [Pe_Moved k]) ?s2" by (rule run_snoc)
  moreover have "proxy_step env ?s2 (Pe_Answered k ?resp) ?s3"
    using record_answer_step [of "tasks(k \<mapsto> ?task (Bound idx reply))" k "?task (Bound idx reply)" idx reply ?resp env ?st2 n
        "Some (px_backends st ! idx)" "up_status reply" "if attempted = [] then ''completed'' else ''retried_success''"]
    by (simp add: note_success_def Let_def)
  ultimately have "run (proxy_step env) ?s (([Pe_Succeeded k idx reply] @ [Pe_Moved k]) @ [Pe_Answered k ?resp]) ?s3"
    by (rule run_snoc)
  then show ?thesis unfolding ends_def fst_conv snd_conv
    by (intro exI [of _ "([Pe_Succeeded k idx reply] @ [Pe_Moved k]) @ [Pe_Answered k ?resp]"] exI [of _ tasks] exI [of _ n]
        exI [of _ j] exI [of _ "?task (Answered ?resp)"]) (simp add: assms(2))
qed

text \<open>One turn of the loop.\<close>

definition turns ::
  "'s proxy_env \<Rightarrow> (nat \<Rightarrow> (nat \<Rightarrow> request_task option) \<Rightarrow> nat \<Rightarrow> bool) \<Rightarrow> nat \<Rightarrow> forward_ctx \<Rightarrow> nat list
     \<Rightarrow> 's proxy_system \<Rightarrow> 's proxy_state \<Rightarrow> nat \<Rightarrow> bool" where
  "turns env R k ctx attempted s st i \<longleftrightarrow>
     (\<exists>es tasks n ref fnd a. answers_of k es = [] \<and> apart R k (length attempted) tasks n \<and> i \<in> set fnd \<and>
        run (proxy_step env) s es (sys st (tasks(k \<mapsto> choosing ctx attempted ref fnd a)) n))"

lemma turns_after:
  assumes "run (proxy_step env) s es t" "answers_of k es = []" "turns env R k ctx attempted t st i"
  shows "turns env R k ctx attempted s st i"
proof -
  obtain fs tasks n ref fnd a where fs: "answers_of k fs = []" "apart R k (length attempted) tasks n" "i \<in> set fnd"
    "run (proxy_step env) t fs (sys st (tasks(k \<mapsto> choosing ctx attempted ref fnd a)) n)"
    using assms(3) unfolding turns_def by blast
  have "answers_of k (es @ fs) = []" using assms(2) fs(1) by simp
  with run_trans [OF fs(4) assms(1)] fs show ?thesis unfolding turns_def by blast
qed

definition turn_ok ::
  "'s proxy_env \<Rightarrow> (nat \<Rightarrow> (nat \<Rightarrow> request_task option) \<Rightarrow> nat \<Rightarrow> bool) \<Rightarrow> nat \<Rightarrow> forward_ctx \<Rightarrow> nat list
     \<Rightarrow> 's proxy_system \<Rightarrow> nat \<times> 's proxy_state + 's proxy_state \<times> proxy_response \<Rightarrow> bool" where
  "turn_ok env R k ctx attempted s res \<longleftrightarrow>
     (case res of Inl (i, st) \<Rightarrow> turns env R k ctx attempted s st i | Inr out \<Rightarrow> ends env R k ctx s out)"

lemma turn_ok_after:
  assumes "run (proxy_step env) s es t" "answers_of k es = []" "turn_ok env R k ctx attempted t res"
  shows "turn_ok env R k ctx attempted s res"
  using assms(3) turns_after [OF assms(1,2)] ends_after [OF assms(1,2)]
  by (cases res) (simp_all add: turn_ok_def case_prod_unfold)

lemma after_failure_run:
  assumes "failed_post ctx answer" "apart R k (Suc (length attempted)) tasks n"
    and "response = (case answer of None \<Rightarrow> Plain 502 [] | Some reply \<Rightarrow> upstream_response (pe_to_str env) reply (up_status reply))"
  shows "turn_ok env R k ctx (attempted @ [idx])
    (sys st (tasks(k \<mapsto> \<lparr>rt_ctx = ctx, rt_attempted = attempted, rt_phase = Posting idx\<rparr>)) n)
    (after_failure env ctx attempted idx reason status outcome response st)"
proof -
  let ?s = "sys st (tasks(k \<mapsto> \<lparr>rt_ctx = ctx, rt_attempted = attempted, rt_phase = Posting idx\<rparr>)) n"
  obtain st' x where sel: "select_backend_for_route env ctx (attempted @ [idx])
      (note_failure env ctx (length attempted) idx reason st) = (st', x)" by fastforce
  obtain es ref fnd where es: "answers_of k es = []" "result_ok (may_take env ctx (attempted @ [idx]) (px_backends st')) x ref fnd"
    "run (proxy_step env) ?s es (sys st' (tasks(k \<mapsto> choosing ctx (attempted @ [idx]) ref fnd answer)) n)"
    using failure_run [OF assms(1) sel] by blast
  show ?thesis
  proof (cases x)
    case (Some i)
    have "i \<in> set fnd" using es(2) Some by (simp add: result_ok_def)
    moreover have "apart R k (length (attempted @ [idx])) tasks n" using assms(2) by simp
    ultimately have "turns env R k ctx (attempted @ [idx]) ?s st' i" using es(1,3) unfolding turns_def by blast
    then show ?thesis by (simp add: turn_ok_def after_failure_def sel Some)
  next
    case None
    have "response = give_up (pe_to_str env) (choosing ctx (attempted @ [idx]) ref fnd answer) answer (length (px_backends st'))"
      by (simp add: give_up_def assms(3))
    from ends_after [OF es(3,1) gives_up [OF es(2) [unfolded None] assms(2) this]] show ?thesis
      by (simp add: turn_ok_def after_failure_def sel None)
  qed
qed

lemma attempt_run:
  assumes "others_run env R" "apart R k (length attempted) tasks n" "idx \<in> set fnd"
  shows "turn_ok env R k ctx (attempted @ [idx]) (sys st (tasks(k \<mapsto> choosing ctx attempted ref fnd a)) n)
    (attempt_backend env ctx attempted idx st)"
proof -
  let ?s = "sys st (tasks(k \<mapsto> choosing ctx attempted ref fnd a)) n"
    and ?st = "pe_other env (length attempted) (note_fallback ctx idx st)"
  obtain es tasks' n' where es: "answers_of k es = []" "apart R k (Suc (length attempted)) tasks' n'"
    "run (proxy_step env) ?s es (sys ?st (tasks'(k \<mapsto> \<lparr>rt_ctx = ctx, rt_attempted = attempted, rt_phase = Posting idx\<rparr>)) n')"
    using post_run [OF assms] by blast
  note after = turn_ok_after [OF es(3,1)]
  show ?thesis
  proof (cases "snd (post env ctx (length attempted) idx (note_fallback ctx idx st))")
    case None
    then have "attempt_backend env ctx attempted idx st =
        after_failure env ctx attempted idx ''connection_error'' 502 ''upstream_error'' (Plain 502 []) ?st"
      by (auto simp: attempt_backend_def post_def)
    moreover have "failed_post ctx None" by (simp add: failed_post_def)
    ultimately show ?thesis by (simp only:) (rule after, rule after_failure_run [where answer = None, OF _ es(2)], simp_all)
  next
    case (Some reply)
    show ?thesis
    proof (cases "failed_post ctx (Some reply)")
      case True
      then have "attempt_backend env ctx attempted idx st = after_failure env ctx attempted idx ''server_error'' (up_status reply)
          ''upstream_5xx'' (upstream_response (pe_to_str env) reply (up_status reply)) ?st"
        using Some by (auto simp: attempt_backend_def post_def failed_post_def)
      then show ?thesis by (simp only:) (rule after, rule after_failure_run [OF True es(2)], simp)
    next
      case False
      then have "attempt_backend env ctx attempted idx st =
          Inr (note_success env ctx attempted idx (up_status reply) ?st, upstream_response (pe_to_str env) reply (up_status reply))"
        using Some by (auto simp: attempt_backend_def post_def failed_post_def)
      then show ?thesis
        using success_run [OF False es(2)] by (simp only:) (rule after, simp add: turn_ok_def)
    qed
  qed
qed

lemma loop_run:
  assumes "others_run env R" "forward_loop fuel env ctx attempted nxt st = Some out"
    and "apart R k (length attempted) tasks n"
    and "case nxt of Some i \<Rightarrow> i \<in> set fnd | None \<Rightarrow> attempted = [] \<and> fnd = []"
  shows "ends env R k ctx (sys st (tasks(k \<mapsto> choosing ctx attempted ref fnd a)) n) out"
  using assms(2-4)
proof (induction fuel arbitrary: attempted nxt st tasks n ref fnd a)
  case (Suc fuel)
  have go: "ends env R k ctx (sys st1 (tasks(k \<mapsto> choosing ctx attempted ref fnd a)) n) out"
    if idx: "idx \<in> set fnd"
      and loop: "(case attempt_backend env ctx attempted idx st1 of
          Inl (i, st3) \<Rightarrow> forward_loop fuel env ctx (attempted @ [idx]) (Some i) st3 | Inr out \<Rightarrow> Some out) = Some out"
    for idx st1 ref fnd
  proof -
    let ?s = "sys st1 (tasks(k \<mapsto> choosing ctx attempted ref fnd a)) n"
    note turn = attempt_run [OF assms(1) Suc.prems(2) idx, where ctx = ctx and ref = ref and a = a and st = st1]
    show ?thesis
    proof (cases "attempt_backend env ctx attempted idx st1")
      case (Inr q)
      then show ?thesis using turn loop by (simp add: turn_ok_def)
    next
      case (Inl q)
      obtain i st3 where q: "q = (i, st3)" by (cases q)
      then have "turns env R k ctx (attempted @ [idx]) ?s st3 i" using turn Inl by (simp add: turn_ok_def)
      then obtain es tasks' n' ref' fnd' a' where t: "answers_of k es = []" "apart R k (length (attempted @ [idx])) tasks' n'"
        "i \<in> set fnd'" "run (proxy_step env) ?s es (sys st3 (tasks'(k \<mapsto> choosing ctx (attempted @ [idx]) ref' fnd' a')) n')"
        unfolding turns_def by blast
      have "forward_loop fuel env ctx (attempted @ [idx]) (Some i) st3 = Some out" using loop Inl q by simp
      then have "ends env R k ctx (sys st3 (tasks'(k \<mapsto> choosing ctx (attempted @ [idx]) ref' fnd' a')) n') out"
        by (rule Suc.IH [OF _ t(2)]) (simp add: t(3))
      then show ?thesis by (rule ends_after [OF t(4,1)])
    qed
  qed
  show ?case
  proof (cases nxt)
    case (Some idx)
    then show ?thesis using Suc.prems(1,3) by (intro go [of idx]) simp_all
  next
    case None
    then have first: "attempted = []" "fnd = []" using Suc.prems(3) by simp_all
    obtain st1 x where sel: "select_backend_for_route env ctx attempted st = (st1, x)" by fastforce
    obtain es ref' fnd' where es: "selecting k es" "result_ok (may_take env ctx attempted (px_backends st)) x ref' fnd'"
      "run (proxy_step env) (sys st (tasks(k \<mapsto> choosing ctx attempted ref [] a)) n) es
        (sys st1 (tasks(k \<mapsto> choosing ctx attempted ref' fnd' a)) n)"
      using selects_route [OF sel] by (rule selectsE)
    have "ends env R k ctx (sys st1 (tasks(k \<mapsto> choosing ctx attempted ref' fnd' a)) n) out"
    proof (cases x)
      case (Some idx)
      then show ?thesis using Suc.prems(1) es(2) None sel by (intro go [of idx]) (simp_all add: result_ok_def)
    next
      case x: None
      have "statics (px_backends st1) = statics (px_backends st)" using route_statics [of env ctx attempted st] sel by simp
      then have "may_take env ctx attempted (px_backends st1) = may_take env ctx attempted (px_backends st)"
        by (intro ext) (rule may_take_statics)
      then have res: "result_ok (may_take env ctx attempted (px_backends st1)) None ref' fnd'" using es(2) x by simp
      have "out = no_backend env ctx [] st1" using Suc.prems(1) None sel x first by simp
      then show ?thesis
        using gives_up [OF res Suc.prems(2) refl, of a] by (simp add: no_backend_def give_up_def first)
    qed
    then have "ends env R k ctx (sys st (tasks(k \<mapsto> choosing ctx attempted ref [] a)) n) out"
      by (rule ends_after [OF es(3) selecting_answers [OF es(1)]])
    then show ?thesis by (simp only: first)
  qed
qed simp

lemma set_bucket_twice [simp]: "set_bucket p b (set_bucket p c limiter) = set_bucket p b limiter"
  by (cases p) simp_all

lemma forward_ctx_ok:
  assumes "parse_priority (pe_to_str env) headers = Inr p"
  shows "context_ok env headers body (px_backends st) (forward_ctx_of env r p headers body st)"
  using assms by (simp add: context_ok_def forward_ctx_of_def Let_def)

lemma admit_run:
  assumes ctx: "context_ok env headers body (px_backends (ps_state s)) ctx" and bs: "px_backends (ps_state s) \<noteq> []"
    and l: "try_acquire (pe_sem env) (fc_priority ctx) (px_limiter (ps_state s)) = Some limiter"
  shows "run (proxy_step env) s ([Pe_Admitted (ps_next s) ctx] @ [Pe_Moved (ps_next s)])
    (sys ((ps_state s)\<lparr>px_limiter := limiter\<rparr>)
      ((ps_tasks s)(ps_next s \<mapsto> choosing ctx [] [] [] None)) (ps_next s + 1))"
proof -
  let ?p = "fc_priority ctx" and ?k = "ps_next s" and ?task = "\<lparr>rt_ctx = ctx, rt_attempted = [], rt_phase = Taking\<rparr>"
  obtain b where b: "take_permit (pe_sem env) (bucket ?p (px_limiter (ps_state s))) = Some b"
    "limiter = set_bucket ?p (count_up b) (px_limiter (ps_state s))"
    using l by (auto simp: try_acquire_def bucket_try_acquire_def)
  let ?s1 = "sys (on_bucket ?p (\<lambda>_. b) (ps_state s)) ((ps_tasks s)(?k \<mapsto> ?task)) (?k + 1)"
  have "proxy_step env s (Pe_Admitted ?k ctx) ?s1" using px_take [OF ctx bs b(1)] by (cases s) simp
  then have "run (proxy_step env) s [Pe_Admitted ?k ctx] ?s1" by (rule run_one)
  moreover have "proxy_step env ?s1 (Pe_Moved ?k) (sys ((ps_state s)\<lparr>px_limiter := limiter\<rparr>)
      ((ps_tasks s)(?k \<mapsto> choosing ctx [] [] [] None)) (?k + 1))"
    using px_count [of ?s1 ?k ?task env] by (simp add: b(2) on_bucket_def choosing_def)
  ultimately show ?thesis by (rule run_snoc)
qed

lemma leave_run:
  assumes "permit_of (rt_phase task) = Counted" "tasks k = None"
  shows "run (proxy_step env) (sys st (tasks(k \<mapsto> task)) n) ([Pe_Moved k] @ [Pe_Moved k])
    (sys (st\<lparr>px_limiter := drop_permit (pe_sem env) (fc_priority (rt_ctx task)) (px_limiter st)\<rparr>) tasks n)"
proof -
  let ?p = "fc_priority (rt_ctx task)"
  let ?s1 = "sys (on_bucket ?p count_down st) (tasks(k \<mapsto> task\<lparr>rt_phase := Dropping\<rparr>)) n"
  have "proxy_step env (sys st (tasks(k \<mapsto> task)) n) (Pe_Moved k) ?s1"
    using px_uncount [of "sys st (tasks(k \<mapsto> task)) n" k task env] assms(1) by simp
  then have "run (proxy_step env) (sys st (tasks(k \<mapsto> task)) n) [Pe_Moved k] ?s1" by (rule run_one)
  moreover have "tasks(k := None) = tasks" using assms(2) by (simp add: fun_upd_idem)
  then have "proxy_step env ?s1 (Pe_Moved k)
      (sys (st\<lparr>px_limiter := drop_permit (pe_sem env) ?p (px_limiter st)\<rparr>) tasks n)"
    using px_give [of ?s1 k "task\<lparr>rt_phase := Dropping\<rparr>" env] by (simp add: on_bucket_def drop_permit_def)
  ultimately show ?thesis by (rule run_snoc)
qed

section \<open>The request\<close>

lemma forward_run:
  assumes others: "others_run env R" "R 0 (ps_tasks s) (Suc (ps_next s))" and inv: "proxy_inv env s"
    and out: "forward env r headers body (ps_state s) = Some (st', resp)"
  shows "\<exists>es tasks n. run (proxy_step env) s es \<lparr>ps_state = st', ps_tasks = tasks, ps_next = n\<rparr> \<and>
    (case parse_priority (pe_to_str env) headers of
       Inl msg \<Rightarrow> es = [] \<and> resp = Plain 400 msg
     | Inr p \<Rightarrow>
         (\<exists>status msg. es = [Pe_Refused status] \<and> resp = Plain status msg) \<or>
         answers_of (ps_next s) es = [resp] \<and>
         (case resp of
            Plain status msg \<Rightarrow> tasks (ps_next s) = None
          | Streamed status hs chunks \<Rightarrow>
              \<exists>task. tasks (ps_next s) = Some task \<and> rt_phase task = Answered resp \<and> fc_priority (rt_ctx task) = p))"
proof (cases "parse_priority (pe_to_str env) headers")
  case (Inl msg)
  then have "st' = ps_state s" "resp = Plain 400 msg" using out by (simp_all add: forward_def)
  then have "run (proxy_step env) s [] (sys st' (ps_tasks s) (ps_next s))" using run_nil by (cases s) simp
  then show ?thesis using Inl \<open>resp = Plain 400 msg\<close> by auto
next
  case (Inr p)
  let ?k = "ps_next s"
  have refused: ?thesis
    if "st' = proxy_record_request env r p None (header_str env headers ''x-fairlead-origin-node'') status outcome (ps_state s)"
      "resp = Plain status msg"
      "px_backends (ps_state s) = [] \<and> status = 503 \<or> px_backends (ps_state s) \<noteq> [] \<and> status = 429 \<and>
        take_permit (pe_sem env) (bucket p (px_limiter (ps_state s))) = None" for status outcome msg
  proof -
    have "proxy_step env s (Pe_Refused status) (sys st' (ps_tasks s) ?k)"
      using px_refuse [OF Inr that(3), of "pe_elapsed env" r outcome] that(1) by (cases s) simp
    then have "run (proxy_step env) s [Pe_Refused status] (sys st' (ps_tasks s) ?k)" by (rule run_one)
    then show ?thesis using Inr that(2) by auto
  qed
  consider "px_backends (ps_state s) = []"
    | "px_backends (ps_state s) \<noteq> []" "try_acquire (pe_sem env) p (px_limiter (ps_state s)) = None"
    | l where "px_backends (ps_state s) \<noteq> []" "try_acquire (pe_sem env) p (px_limiter (ps_state s)) = Some l" by blast
  then show ?thesis
  proof cases
    case 1
    then show ?thesis using refused out Inr by (auto simp: forward_def Let_def)
  next
    case 2
    then have "take_permit (pe_sem env) (bucket p (px_limiter (ps_state s))) = None"
      by (simp add: try_acquire_def bucket_try_acquire_def)
    with 2 show ?thesis using refused out Inr by (auto simp: forward_def Let_def)
  next
    case (3 l)
    let ?st = "(ps_state s)\<lparr>px_limiter := l\<rparr>"
    let ?ctx = "forward_ctx_of env r p headers body ?st"
    have prio: "fc_priority ?ctx = p" by (simp add: forward_ctx_of_def Let_def)
    obtain st1 resp1 where loop: "forward_loop (length (px_backends ?st) + 1) env ?ctx [] None ?st = Some (st1, resp1)"
      "settle_permit env p (st1, resp1) = (st', resp)"
      using out Inr 3 by (auto simp: forward_def Let_def simp del: forward_loop.simps)
    have free: "ps_tasks s ?k = None" using inv_task [OF inv, of ?k] by (cases "ps_tasks s ?k") auto
    have "context_ok env headers body (px_backends (ps_state s)) ?ctx" using forward_ctx_ok [OF Inr, of body ?st r] by simp
    from admit_run [OF this 3(1)] 3(2)
    have admit: "run (proxy_step env) s ([Pe_Admitted ?k ?ctx] @ [Pe_Moved ?k])
        (sys ?st ((ps_tasks s)(?k \<mapsto> choosing ?ctx [] [] [] None)) (Suc ?k))" by (simp add: prio)
    have "apart R ?k (length ([] :: nat list)) (ps_tasks s) (Suc ?k)" using free others(2) by (simp add: apart_def)
    from loop_run [OF others(1) loop(1) this, of "[]" "[]" None]
    have "ends env R ?k ?ctx s (st1, resp1)" by (intro ends_after [OF admit]) simp_all
    then obtain es tasks n task j where es: "run (proxy_step env) s es (sys st1 (tasks(?k \<mapsto> task)) n)"
      "apart R ?k j tasks n" "answers_of ?k es = [resp1]" "rt_ctx task = ?ctx" "rt_phase task = Answered resp1"
      unfolding ends_def fst_conv snd_conv by blast
    show ?thesis
    proof (cases resp1)
      case (Streamed status hs chunks)
      then have "st' = st1" "resp = resp1" using loop(2) by (simp_all add: settle_permit_def)
      then show ?thesis using es Streamed Inr prio
        by (intro exI [of _ es] exI [of _ "tasks(?k \<mapsto> task)"] exI [of _ n]) simp
    next
      case (Plain status msg)
      then have st': "st' = st1\<lparr>px_limiter := drop_permit (pe_sem env) (fc_priority (rt_ctx task)) (px_limiter st1)\<rparr>"
        and resp: "resp = resp1"
        using loop(2) es(4) prio by (simp_all add: settle_permit_def)
      have gone: "tasks ?k = None" using es(2) by (simp add: apart_def)
      then have "run (proxy_step env) (sys st1 (tasks(?k \<mapsto> task)) n) ([Pe_Moved ?k] @ [Pe_Moved ?k]) (sys st' tasks n)"
        unfolding st' by (intro leave_run) (simp_all add: es(5))
      from run_trans [OF this es(1)]
      have "run (proxy_step env) s (es @ [Pe_Moved ?k] @ [Pe_Moved ?k]) (sys st' tasks n)" by simp
      then show ?thesis using es(3) Plain Inr resp gone
        by (intro exI [of _ "es @ [Pe_Moved ?k] @ [Pe_Moved ?k]"] exI [of _ tasks] exI [of _ n]) simp
    qed
  qed
qed

text \<open>C13: Whatever other requests, health probes and reports do while it awaits its posts, what \<open>forward\<close> does to
  the shared state is a run of the concurrent system, of one request from its admission to its end;
  and exactly one answer of that request is given: it is refused with status 400 before it is counted, or
  with 429 or 503 without a permit, or it is admitted, and then a plain answer has dropped the permit
  and a streamed one still holds it.\<close>

theorem forward_is_run:
  assumes others: "others_run env R" "R 0 (ps_tasks s) (Suc (ps_next s))" and inv: "proxy_inv env s"
    and out: "forward env r headers body (ps_state s) = Some (st', resp)"
  shows "\<exists>es tasks n. run (proxy_step env) s es \<lparr>ps_state = st', ps_tasks = tasks, ps_next = n\<rparr> \<and>
    (case parse_priority (pe_to_str env) headers of
       Inl msg \<Rightarrow> es = [] \<and> resp = Plain 400 msg
     | Inr p \<Rightarrow>
         (\<exists>status msg. es = [Pe_Refused status] \<and> resp = Plain status msg) \<or>
         answers_of (ps_next s) es = [resp] \<and>
         (case resp of
            Plain status msg \<Rightarrow> tasks (ps_next s) = None
          | Streamed status hs chunks \<Rightarrow>
              \<exists>task. tasks (ps_next s) = Some task \<and> rt_phase task = Answered resp \<and> fc_priority (rt_ctx task) = p))"
  by (rule forward_run [OF assms])

text \<open>An example: while the request awaits a post, the health probe of the first backend fails.\<close>

definition ex_busy :: "nat proxy_env" where
  "ex_busy = ex_penv\<lparr>pe_other := \<lambda>_ st. set_circuit 0 (health_probe_turn 5 False) st\<rparr>"

lemma ex_busy_others: "others_run ex_busy (\<lambda>_ _ _. True)"
  unfolding others_run_def
proof (intro allI impI)
  fix j st tasks n
  show "\<exists>es tasks' n'. run (proxy_step ex_busy) (sys st tasks n) es (sys (pe_other ex_busy j st) tasks' n') \<and> True"
  proof (cases "0 < length (px_backends st)")
    case True
    have "proxy_step ex_busy (sys st tasks n) (Pe_Health 0 5 False) (sys (pe_other ex_busy j st) tasks n)"
      using px_health [of 0 "sys st tasks n" ex_busy 5 False] True by (simp add: ex_busy_def)
    then have "run (proxy_step ex_busy) (sys st tasks n) [Pe_Health 0 5 False] (sys (pe_other ex_busy j st) tasks n)"
      by (rule run_one)
    then show ?thesis by blast
  next
    case False
    then have "pe_other ex_busy j st = st" by (cases st) (simp add: ex_busy_def set_circuit_def)
    then show ?thesis using run_nil [of "proxy_step ex_busy" "sys st tasks n"] by auto
  qed
qed

lemma ex_px_start: "proxy_start ex_busy (\<lambda>_. 1) (sys ex_px Map.empty 0)"
  by (simp add: proxy_start_def ex_px_def ex_busy_def ex_penv_def)

lemma forward_is_run_witness:
  "\<exists>st' resp es tasks n. forward ex_busy (route Embeddings) (\<lambda>_. None) ''{}'' ex_px = Some (st', resp) \<and>
     run (proxy_step ex_busy) (sys ex_px Map.empty 0) es (sys st' tasks n) \<and> es \<noteq> []"
proof -
  have "others_keep ex_busy" by (simp add: others_keep_def ex_busy_def)
  then obtain st' resp where f: "forward ex_busy (route Embeddings) (\<lambda>_. None) ''{}'' ex_px = Some (st', resp)"
    using forward_total [of ex_busy "route Embeddings" "\<lambda>_. None" "''{}''" ex_px] by (metis old.prod.exhaust)
  have p: "parse_priority (pe_to_str ex_busy) (\<lambda>_. None) = Inr Realtime"
    by (simp add: ex_busy_def ex_penv_ok ex_priority)
  note run = forward_is_run [OF ex_busy_others, of "sys ex_px Map.empty 0" "route Embeddings" "\<lambda>_. None" "''{}''" st' resp,
      unfolded p]
  show ?thesis using run f proxy_start_inv [OF ex_px_start] by fastforce
qed

end
