(* ===== verification/Proxy_Concurrent.thy ===== *)
theory Proxy_Concurrent
  imports Proxy_Runs
begin

text \<open>
  Properties of the concurrent proxy: the permits and counters of all requests, the breaker of every
  backend as a function of what happened to it, what one request does, and the bound threads.
\<close>

section \<open>Permits and counters\<close>

lemma limiter_run:
  "run (\<lambda>u _ u'. limiter_step ops u u') u os u' \<Longrightarrow> limiter_reachable ops lims u \<Longrightarrow> limiter_reachable ops lims u'"
  by (induction rule: run.induct) (auto intro: lu_step)

lemma start_use:
  assumes "proxy_start env lims s"
  shows "limiter_reachable (pe_sem env) lims (limiter_use_of s)"
proof -
  have "permits_held s c = (\<lambda>_. 0)" for c using assms by (auto simp: proxy_start_def permits_held_def)
  then show ?thesis using lu_start [of "pe_sem env" lims] assms by (simp add: limiter_use_of_def proxy_start_def)
qed

definition counts_request :: "proxy_event \<Rightarrow> bool" where
  "counts_request e \<longleftrightarrow> (case e of Pe_Refused _ \<Rightarrow> True | Pe_Answered _ _ \<Rightarrow> True | _ \<Rightarrow> False)"

lemma step_total:
  assumes "proxy_step env s e t"
  shows "total_requests (px_metrics (ps_state t)) = total_requests (px_metrics (ps_state s)) + of_bool (counts_request e)"
  using assms
proof cases
  case (px_note m)
  then show ?thesis by (simp add: counts_request_def total_requests_def)
qed (simp_all add: counts_request_def split: option.split)

lemma run_total:
  assumes "run (proxy_step env) s es t" "proxy_inv env s"
  shows "total_requests (px_metrics (ps_state t)) =
    total_requests (px_metrics (ps_state s)) + length (filter counts_request es)"
proof -
  have "fold (\<lambda>e n. n + of_bool (counts_request e)) es n = n + length (filter counts_request es)" for n
    by (induction es arbitrary: n) simp_all
  with px.run_fold [where f = "\<lambda>s. total_requests (px_metrics (ps_state s))"
      and g = "\<lambda>e n. n + of_bool (counts_request e)", OF step_total assms] show ?thesis by simp
qed

text \<open>However requests, refusals, streams and clients that go away interleave, the gauge of each
  priority is the number of its requests and open streams that are counted, never above the
  configured limit; a request is refused a permit exactly when all permits of its own priority are
  out; and the request counters add up to the refused and the answered requests.\<close>

lemma requests_accounted:
  assumes "semaphore_laws (pe_sem env) permits" "proxy_start env lims s" "run (proxy_step env) s es t"
  shows "bucket_in_flight (bucket p (px_limiter (ps_state t))) = permits_held t Counted p \<and> permits_held t Counted p \<le> lims p \<and>
    (take_permit (pe_sem env) (bucket p (px_limiter (ps_state t))) = None \<longleftrightarrow>
       permits_held t Uncounted p + permits_held t Counted p + permits_held t Leaving p = lims p) \<and>
    total_requests (px_metrics (ps_state t)) = length (filter counts_request es)"
proof -
  have "\<exists>os :: unit option list. run (\<lambda>u _ u'. limiter_step (pe_sem env) u u') (limiter_use_of s) os (limiter_use_of t)"
    using pl.sim_run [OF assms(3) proxy_start_inv [OF assms(2)]] by blast
  then have "limiter_reachable (pe_sem env) lims (limiter_use_of t)" using limiter_run start_use [OF assms(2)] by blast
  from limiter_exact [OF assms(1) this, of p] run_total [OF assms(3) proxy_start_inv [OF assms(2)]] assms(2)
  show ?thesis by (simp add: limiter_use_of_def proxy_start_def total_requests_def metrics_default_def)
qed

text \<open>The example: the request is taken and counted, so another one of its priority is refused.\<close>

definition ex_headers :: header_map where
  "ex_headers name = (if name = ''x-fairlead-thread-id'' then Some ''t1'' else None)"

definition ex_context :: forward_ctx where
  "ex_context = forward_ctx_of ex_busy (route Embeddings) Realtime ex_headers ''{}'' ex_px"

definition ex_admitted :: "nat proxy_system" where
  "ex_admitted = sys (ex_px\<lparr>px_limiter := set_bucket Realtime \<lparr>bucket_limit = 1, bucket_semaphore = 0,
     bucket_in_flight = 1\<rparr> (px_limiter ex_px)\<rparr>) [0 \<mapsto> choosing ex_context [] [] [] None] 1"

lemma ex_admitted_run:
  "run (proxy_step ex_busy) (sys ex_px Map.empty 0) ([Pe_Admitted 0 ex_context] @ [Pe_Moved 0]) ex_admitted"
proof -
  have p: "parse_priority (pe_to_str ex_busy) ex_headers = Inr Realtime"
    by (simp add: ex_headers_def parse_priority_def priority_default_def)
  have ctx: "context_ok ex_busy ex_headers ''{}'' (px_backends (ps_state (sys ex_px Map.empty 0))) ex_context"
    using forward_ctx_ok [OF p, of "''{}''" ex_px "route Embeddings"] by (simp add: ex_context_def)
  have prio: "fc_priority ex_context = Realtime" by (simp add: ex_context_def forward_ctx_of_def Let_def)
  show ?thesis
    using admit_run [OF ctx]
    by (simp add: prio ex_admitted_def ex_px_def try_acquire_def bucket_try_acquire_def take_permit_def
        ex_busy_def ex_penv_def ex_sem_def bucket_new_def limiter_new_def count_up_def)
qed

section \<open>Breakers\<close>

text \<open>What an event does to the breaker of backend \<open>i\<close>.\<close>

fun breaker_event :: "nat \<Rightarrow> proxy_event \<Rightarrow> circuit_event option" where
  "breaker_event i (Pe_Probed k j now) = (if j = i then Some (Probe now) else None)"
| "breaker_event i (Pe_Failed k j now a) = (if j = i then Some (Failure now) else None)"
| "breaker_event i (Pe_Succeeded k j reply) = (if j = i then Some Success else None)"
| "breaker_event i (Pe_Health j now ok) = (if j = i then Some (if ok then Success else Failure now) else None)"
| "breaker_event i _ = None"

lemma set_circuit_circuit:
  "j < length (px_backends st) \<Longrightarrow>
     circuit (px_backends (set_circuit j f st) ! i) =
       (if i = j then f (circuit (px_backends st ! i)) else circuit (px_backends st ! i))"
  by (auto simp: set_circuit_def nth_list_update)

lemma step_breaker:
  assumes inv: "proxy_inv env s" and step: "proxy_step env s e t"
  shows "circuit (px_backends (ps_state t) ! i) =
    (case breaker_event i e of None \<Rightarrow> circuit (px_backends (ps_state s) ! i)
     | Some x \<Rightarrow> circuit_step x (circuit (px_backends (ps_state s) ! i)))"
  using step
proof cases
  case (px_probe k task refusing found refused j now bs ok)
  then have j: "j < length (px_backends (ps_state s))" by (simp add: may_take_def)
  then have "bs = (px_backends (ps_state s))[j := (px_backends (ps_state s) ! j)
      \<lparr>circuit := fst (is_available now (circuit (px_backends (ps_state s) ! j)))\<rparr>]"
    using px_probe(6) by (simp add: probe_def get_at_def case_prod_unfold)
  then show ?thesis using j px_probe(1,2) by (simp add: nth_list_update)
next
  case (px_fail k task j answer now)
  then have "j < length (px_backends (ps_state s))"
    using inv_task [OF inv px_fail(3)] by (simp add: task_ok_def phase_ok_def may_take_def)
  then show ?thesis using px_fail by (simp add: set_circuit_circuit)
next
  case (px_succeed k task j reply)
  then have "j < length (px_backends (ps_state s))"
    using inv_task [OF inv px_succeed(3)] by (simp add: task_ok_def phase_ok_def may_take_def)
  then show ?thesis using px_succeed by (simp add: set_circuit_circuit)
next
  case (px_health j now ok)
  then show ?thesis by (simp add: set_circuit_circuit health_probe_turn_def)
qed (simp_all split: option.split)

lemma run_breaker:
  assumes "run (proxy_step env) s es t" "proxy_inv env s"
  shows "circuit (px_backends (ps_state t) ! i) =
    circuit_run (observed (breaker_event i) es) (circuit (px_backends (ps_state s) ! i))"
proof -
  have "fold (\<lambda>e c. case breaker_event i e of None \<Rightarrow> c | Some x \<Rightarrow> circuit_step x c) es c =
      circuit_run (observed (breaker_event i) es) c" for c
    by (induction es arbitrary: c) (simp_all add: circuit_run_def split: option.split)
  with px.run_fold [where f = "\<lambda>s. circuit (px_backends (ps_state s) ! i)"
      and g = "\<lambda>e c. case breaker_event i e of None \<Rightarrow> c | Some x \<Rightarrow> circuit_step x c", OF step_breaker assms]
  show ?thesis by simp
qed

text \<open>C36: However requests and health probes interleave, the breaker of a backend is a function of the
  probes, failures and successes of that backend, in their order. While fewer than
  \<open>failure_threshold\<close> failures were recorded since the last success it is closed; the failure that
  reaches the threshold (before the counter wraps at 2^32) opens it, and then it refuses requests for
  the cooldown and lets them through afterwards.\<close>

theorem breaker_follows_requests:
  assumes "proxy_start env lims s" "run (proxy_step env) s es t"
    and "circuit (px_backends (ps_state s) ! i) = circuit_new th cool" "history = observed (breaker_event i) es"
  shows "circuit (px_backends (ps_state t) ! i) = circuit_run history (circuit_new th cool) \<and>
    (if failure_count history < unat th then cb_state (circuit (px_backends (ps_state t) ! i)) = Closed
     else \<forall>now earlier. history = earlier @ [Failure now] \<longrightarrow> failure_count history < 2 ^ 32 \<longrightarrow>
       cb_state (circuit (px_backends (ps_state t) ! i)) = Open now \<and>
       (\<forall>u. snd (is_available u (circuit (px_backends (ps_state t) ! i))) \<longleftrightarrow> cool \<le> u - now))"
proof -
  have c: "circuit (px_backends (ps_state t) ! i) = circuit_run history (circuit_new th cool)"
    using run_breaker [OF assms(2) proxy_start_inv [OF assms(1)], of i] assms(3,4) by simp
  show ?thesis unfolding c
    using breaker_opens_at_threshold [of history th cool] by (auto split: if_splits)
qed

lemma breaker_follows_requests_witness:
  "cb_state (circuit (px_backends (set_circuit 0 (health_probe_turn 5 False) ex_px) ! 0)) = Open 5"
proof -
  let ?t = "sys (set_circuit 0 (health_probe_turn 5 False) ex_px) Map.empty 0"
  have "proxy_step ex_busy (sys ex_px Map.empty 0) (Pe_Health 0 5 False) ?t"
    using px_health [of 0 "sys ex_px Map.empty 0" ex_busy 5 False] by (simp add: ex_px_def)
  then have run: "run (proxy_step ex_busy) (sys ex_px Map.empty 0) [Pe_Health 0 5 False] ?t" by (rule run_one)
  have "circuit (px_backends (ps_state (sys ex_px Map.empty 0)) ! 0) = circuit_new 1 100"
    by (simp add: ex_px_def ex_backend_def)
  from conjunct2 [OF breaker_follows_requests [OF ex_px_start run this refl]]
  show ?thesis by (simp add: failure_count_def failure_step_def)
qed

section \<open>Where a request is posted\<close>

lemma step_other_task:
  assumes "proxy_step env s e t" "event_owner e \<noteq> Some k"
  shows "ps_tasks t k = ps_tasks s k"
  using assms by cases auto

lemma step_context:
  assumes "proxy_step env s e t" "ps_tasks t k = Some task"
  shows "(\<exists>task'. ps_tasks s k = Some task' \<and> rt_ctx task' = rt_ctx task) \<or> e = Pe_Admitted k (rt_ctx task)"
  using assms by cases (auto split: if_splits)

lemma context_admitted:
  assumes "run (proxy_step env) s es t" "ps_tasks s = Map.empty" "ps_tasks t k = Some task"
  shows "Pe_Admitted k (rt_ctx task) \<in> set es"
  using assms
proof (induction arbitrary: task rule: run.induct)
  case (run_snoc s es t e u)
  then show ?case using step_context [OF run_snoc.hyps(2) run_snoc.prems(2)] by fastforce
qed simp

text \<open>A backend that a request has found was probed by it, and its breaker let it through.\<close>

definition let_through ::
  "'s proxy_system \<Rightarrow> nat \<Rightarrow> nat \<Rightarrow> proxy_event list \<Rightarrow> bool" where
  "let_through s k i es \<longleftrightarrow>
     (\<exists>earlier now later. es = earlier @ Pe_Probed k i now # later \<and>
        lets_through now (circuit_run (observed (breaker_event i) earlier) (circuit (px_backends (ps_state s) ! i))))"

lemma let_through_snoc: "let_through s k i es \<Longrightarrow> let_through s k i (es @ [e])"
  unfolding let_through_def by (metis append_Cons append_assoc)

definition has_found :: "'s proxy_system \<Rightarrow> nat \<Rightarrow> nat \<Rightarrow> bool" where
  "has_found s k i \<longleftrightarrow>
     (\<exists>task ref fnd a. ps_tasks s k = Some task \<and> rt_phase task = Choosing ref fnd a \<and> i \<in> set fnd)"

lemma step_found:
  assumes "proxy_step env s e t" "has_found t k i"
  shows "has_found s k i \<or>
    (\<exists>now. e = Pe_Probed k i now \<and> lets_through now (circuit (px_backends (ps_state s) ! i)))"
proof (cases "event_owner e = Some k")
  case False
  then show ?thesis using assms step_other_task [OF assms(1), of k] by (simp add: has_found_def)
next
  case True
  show ?thesis
    using assms(1)
  proof cases
    case (px_probe k' task refusing found refused j now bs ok)
    have k: "k' = k" using True px_probe(1) by simp
    have j: "j < length (px_backends (ps_state s))" using px_probe(5) by (simp add: may_take_def)
    have "ok = lets_through now (circuit (px_backends (ps_state s) ! j))"
      using px_probe(6) j is_available_iff by (auto simp: probe_def get_at_def case_prod_unfold)
    then show ?thesis
      using assms(2) px_probe(1-4) k by (cases ok) (auto simp: has_found_def)
  qed (use True assms(2) in \<open>auto simp: has_found_def\<close>)
qed

lemma found_let_through:
  assumes "run (proxy_step env) s es t" "proxy_inv env s" "ps_tasks s = Map.empty" "has_found t k i"
  shows "let_through s k i es"
  using assms
proof (induction rule: run.induct)
  case (run_nil s)
  then show ?case by (simp add: has_found_def)
next
  case (run_snoc s es t e u)
  from step_found [OF run_snoc.hyps(2) run_snoc.prems(3)] show ?case
  proof
    assume "has_found t k i"
    then show ?thesis using run_snoc let_through_snoc by blast
  next
    assume "\<exists>now. e = Pe_Probed k i now \<and> lets_through now (circuit (px_backends (ps_state t) ! i))"
    then show ?thesis
      using run_breaker [OF run_snoc.hyps(1) run_snoc.prems(1), of i] unfolding let_through_def by metis
  qed
qed

text \<open>C35: However requests interleave, a request is posted only to a backend that it has probed
  before and whose breaker, as the earlier events had left it, let it through at that moment; the backend serves the workload of the request and is of a pool that the
  route and the pool policy allow; and what is posted is the URL of that backend with the path of
  the route, the forwarded headers of the client and its unchanged body.\<close>

theorem posts_pass_breaker:
  assumes "proxy_start env lims s" "run (proxy_step env) s (es @ [Pe_Posted k i rq]) t"
  shows "let_through s k i es \<and>
    (\<exists>ctx. Pe_Admitted k ctx \<in> set es \<and> rq = request_to ctx (px_backends (ps_state s) ! i) \<and>
       i < length (px_backends (ps_state s)) \<and>
       route_allows_backend (px_backends (ps_state s) ! i) (fc_route ctx) (pe_pools env))"
proof -
  obtain u where u: "run (proxy_step env) s es u" "proxy_step env u (Pe_Posted k i rq) t"
    using assms(2) by (cases rule: run.cases) auto
  from u(2) obtain task ref fnd a where task: "ps_tasks u k = Some task" "rt_phase task = Choosing ref fnd a" "i \<in> set fnd"
    "rq = request_to (rt_ctx task) (px_backends (ps_state u) ! i)" by cases auto
  note inv = proxy_start_inv [OF assms(1)] and st = run_statics [OF u(1) proxy_start_inv [OF assms(1)]]
  have empty: "ps_tasks s = Map.empty" using assms(1) by (simp add: proxy_start_def)
  have ok: "task_ok env (px_backends (ps_state s)) task"
    using inv_task [OF px.inv_run [OF u(1) inv] task(1)] by (simp add: task_ok_statics [OF st])
  then have i: "may_take env (rt_ctx task) (rt_attempted task) (px_backends (ps_state s)) i"
    using task(2,3) by (simp add: task_ok_def phase_ok_def)
  then have len: "i < length (px_backends (ps_state s))" by (simp add: may_take_def)
  have "route_allows_backend (px_backends (ps_state s) ! i) (fc_route (rt_ctx task)) (pe_pools env)"
    using ok i by (auto simp: task_ok_def may_take_def)
  moreover have "rq = request_to (rt_ctx task) (px_backends (ps_state s) ! i)"
    unfolding task(4) by (rule upstream_url_static) (rule statics_nth(5) [OF st len])
  moreover have "let_through s k i es" using found_let_through [OF u(1) inv empty] task by (auto simp: has_found_def)
  ultimately show ?thesis using len context_admitted [OF u(1) empty task(1)] by blast
qed

definition ex_found :: "nat proxy_system" where
  "ex_found = sys (ps_state ex_admitted) [0 \<mapsto> choosing ex_context [] [] [0] None] 1"

definition ex_posting :: "nat proxy_system" where
  "ex_posting = sys (ps_state ex_admitted)
     [0 \<mapsto> \<lparr>rt_ctx = ex_context, rt_attempted = [], rt_phase = Posting 0\<rparr>] 1"

lemma ex_context_simps [simp]:
  "fc_route ex_context = route Embeddings" "fc_priority ex_context = Realtime" "fc_affinity_key ex_context = Some (affinity_key Embeddings ''t1'')"
  "fc_route_ineligible ex_context = []" "fc_ineligible ex_context = []"
  by (simp_all add: ex_context_def ex_headers_def forward_ctx_of_def Let_def header_str_def resource_selection_state_def ex_busy_def
      ex_penv_def resource_policy_default_def ex_px_def route_ineligible_backends_def route_allows_backend_def
      ex_backend_def policy_default_def allows_def pools_for_def)

lemma ex_posting_run:
  "run (proxy_step ex_busy) (sys ex_px Map.empty 0)
     (([Pe_Admitted 0 ex_context, Pe_Moved 0, Pe_Probed 0 0 7]) @ [Pe_Posted 0 0 (request_to ex_context (px_backends ex_px ! 0))])
     ex_posting"
proof -
  have bs: "px_backends (ps_state ex_admitted) = px_backends ex_px" by (simp add: ex_admitted_def)
  have "may_take ex_busy ex_context [] (px_backends ex_px) 0"
    by (simp add: may_take_def ex_px_def ex_busy_def ex_penv_def policy_default_def pools_for_def)
  moreover have "probe (\<lambda>_. 7) 0 (px_backends ex_px) = (px_backends ex_px, True)"
    by (simp add: probe_def get_at_def ex_px_def ex_backend_def is_available_def circuit_new_def)
  ultimately have "proxy_step ex_busy ex_admitted (Pe_Probed 0 0 7) ex_found"
    using px_probe [of ex_admitted 0 "choosing ex_context [] [] [] None" "[]" "[]" None ex_busy 0 7 "px_backends ex_px" True] bs
    by (simp add: ex_admitted_def ex_found_def)
  with ex_admitted_run have found: "run (proxy_step ex_busy) (sys ex_px Map.empty 0)
      (([Pe_Admitted 0 ex_context] @ [Pe_Moved 0]) @ [Pe_Probed 0 0 7]) ex_found" by (rule run_snoc)
  have "proxy_step ex_busy ex_found (Pe_Posted 0 0 (request_to ex_context (px_backends ex_px ! 0))) ex_posting"
    using px_post [of ex_found 0 "choosing ex_context [] [] [0] None" "[]" "[0]" None 0 ex_busy] bs
    by (simp add: ex_found_def ex_posting_def choosing_def)
  with found have "run (proxy_step ex_busy) (sys ex_px Map.empty 0)
      ((([Pe_Admitted 0 ex_context] @ [Pe_Moved 0]) @ [Pe_Probed 0 0 7]) @
       [Pe_Posted 0 0 (request_to ex_context (px_backends ex_px ! 0))]) ex_posting" by (rule run_snoc)
  then show ?thesis by simp
qed

lemma posts_pass_breaker_witness:
  "let_through (sys ex_px Map.empty 0) 0 0 [Pe_Admitted 0 ex_context, Pe_Moved 0, Pe_Probed 0 0 7]"
  using posts_pass_breaker [OF ex_px_start ex_posting_run] by blast

section \<open>The life of a request\<close>

text \<open>What happens to request \<open>k\<close>: its admission, its posts, and how they end.\<close>

fun context_event :: "nat \<Rightarrow> proxy_event \<Rightarrow> forward_ctx option" where
  "context_event k (Pe_Admitted j ctx) = (if j = k then Some ctx else None)"
| "context_event k _ = None"

fun post_event :: "nat \<Rightarrow> proxy_event \<Rightarrow> nat option" where
  "post_event k (Pe_Posted j i rq) = (if j = k then Some i else None)"
| "post_event k _ = None"

fun outcome_event :: "nat \<Rightarrow> proxy_event \<Rightarrow> (nat \<times> upstream option) option" where
  "outcome_event k (Pe_Failed j i now a) = (if j = k then Some (i, a) else None)"
| "outcome_event k (Pe_Succeeded j i reply) = (if j = k then Some (i, Some reply) else None)"
| "outcome_event k _ = None"

record request_log =
  lg_contexts :: "forward_ctx list"
  lg_posts :: "nat list"
  lg_outcomes :: "(nat \<times> upstream option) list"
  lg_answers :: "proxy_response list"

definition log_of :: "nat \<Rightarrow> proxy_event list \<Rightarrow> request_log" where
  "log_of k es = \<lparr>lg_contexts = observed (context_event k) es, lg_posts = observed (post_event k) es,
     lg_outcomes = observed (outcome_event k) es, lg_answers = answers_of k es\<rparr>"

text \<open>The answer that belongs to the outcomes of the posts: of none, the refusal of a request that no
  backend can take; otherwise the last outcome decides.\<close>

definition answer_due ::
  "(string \<Rightarrow> string option) \<Rightarrow> nat \<Rightarrow> forward_ctx \<Rightarrow> (nat \<times> upstream option) list \<Rightarrow> proxy_response" where
  "answer_due to_str n ctx outcomes =
     (if outcomes = [] then Plain 503 (unavailable_message (fc_route_ineligible ctx) (fc_ineligible ctx) n)
      else case snd (last outcomes) of
          None \<Rightarrow> Plain 502 []
        | Some reply \<Rightarrow> upstream_response to_str reply (up_status reply))"

definition log_ok :: "'s proxy_env \<Rightarrow> nat \<Rightarrow> request_log \<Rightarrow> bool" where
  "log_ok env n l \<longleftrightarrow>
     distinct (lg_posts l) \<and> (\<forall>i \<in> set (lg_posts l). i < n) \<and>
     (\<exists>pending. lg_posts l = map fst (lg_outcomes l) @ pending \<and> length pending \<le> 1 \<and>
        (lg_answers l = [] \<or>
         (\<exists>ctx. lg_contexts l = [ctx] \<and> pending = [] \<and> lg_answers l = [answer_due (pe_to_str env) n ctx (lg_outcomes l)]))) \<and>
     (\<forall>ctx \<in> set (lg_contexts l). \<forall>x \<in> set (butlast (lg_outcomes l)). failed_post ctx (snd x))"

text \<open>How the log of a request that lives fits where the request is.\<close>

definition log_fits :: "'s proxy_env \<Rightarrow> nat \<Rightarrow> request_task \<Rightarrow> request_log \<Rightarrow> bool" where
  "log_fits env n task l \<longleftrightarrow> lg_contexts l = [rt_ctx task] \<and>
     (let failed = (\<forall>x \<in> set (lg_outcomes l). failed_post (rt_ctx task) (snd x));
          tried = rt_attempted task
      in case rt_phase task of
        Taking \<Rightarrow> tried = [] \<and> lg_posts l = [] \<and> lg_outcomes l = [] \<and> lg_answers l = []
      | Choosing refusing found a \<Rightarrow> lg_posts l = tried \<and> map fst (lg_outcomes l) = tried \<and> lg_answers l = [] \<and> failed \<and>
          (tried \<noteq> [] \<longrightarrow> snd (last (lg_outcomes l)) = a)
      | Posting i \<Rightarrow> lg_posts l = tried @ [i] \<and> map fst (lg_outcomes l) = tried \<and> lg_answers l = [] \<and> failed
      | Accepted i reply \<Rightarrow> lg_posts l = tried @ [i] \<and> lg_answers l = [] \<and>
          (\<exists>os. lg_outcomes l = os @ [(i, Some reply)] \<and> map fst os = tried \<and> (\<forall>x \<in> set os. failed_post (rt_ctx task) (snd x)))
      | Bound i reply \<Rightarrow> lg_posts l = tried @ [i] \<and> lg_answers l = [] \<and>
          (\<exists>os. lg_outcomes l = os @ [(i, Some reply)] \<and> map fst os = tried \<and> (\<forall>x \<in> set os. failed_post (rt_ctx task) (snd x)))
      | _ \<Rightarrow> log_ok env n l)"

lemma log_of_Nil [simp]: "log_of k [] = \<lparr>lg_contexts = [], lg_posts = [], lg_outcomes = [], lg_answers = []\<rparr>"
  by (simp add: log_of_def)

lemma log_fields [simp]:
  "lg_contexts (log_of k es) = observed (context_event k) es" "lg_posts (log_of k es) = observed (post_event k) es"
  "lg_outcomes (log_of k es) = observed (outcome_event k) es" "lg_answers (log_of k es) = answers_of k es"
  by (simp_all add: log_of_def)

lemma log_of_other: "event_owner e \<noteq> Some k \<Longrightarrow> log_of k (es @ [e]) = log_of k es"
  by (cases e) (auto simp: log_of_def)

lemma log_fits_ok:
  assumes "task_ok env bs task" "log_fits env (length bs) task l"
  shows "log_ok env (length bs) l"
proof -
  have tried: "distinct (rt_attempted task)" "\<forall>i \<in> set (rt_attempted task). i < length bs"
    using assms(1) by (auto simp: task_ok_def may_take_def)
  have phase: "i < length bs \<and> i \<notin> set (rt_attempted task)"
    if "rt_phase task = Posting i \<or> rt_phase task = Accepted i reply \<or> rt_phase task = Bound i reply" for i reply
    using assms(1) that by (auto simp: task_ok_def phase_ok_def may_take_def)
  show ?thesis
    using assms(2) tried phase
    by (cases "rt_phase task") (fastforce simp: log_fits_def log_ok_def Let_def dest: in_set_butlastD)+
qed

definition log_placed :: "'s proxy_env \<Rightarrow> nat \<Rightarrow> 's proxy_system \<Rightarrow> nat \<Rightarrow> request_log \<Rightarrow> bool" where
  "log_placed env n s k l \<longleftrightarrow>
     (case ps_tasks s k of
        None \<Rightarrow> log_ok env n l \<and> (ps_next s \<le> k \<longrightarrow> l = log_of k [])
      | Some task \<Rightarrow> log_fits env n task l)"

lemma log_placed_own:
  assumes inv: "proxy_inv env s" and step: "proxy_step env s e t" and k: "event_owner e = Some k"
    and old: "log_placed env (length (px_backends (ps_state s))) s k (log_of k es)"
  shows "log_placed env (length (px_backends (ps_state s))) t k (log_of k (es @ [e]))"
proof -
  let ?n = "length (px_backends (ps_state s))"
  have fits: "log_fits env ?n task (log_of k es)" "log_ok env ?n (log_of k es)" "k < ps_next s" if "ps_tasks s k = Some task" for task
    using that old inv_task [OF inv that] log_fits_ok [of env "px_backends (ps_state s)" task] by (simp_all add: log_placed_def)
  have moved: "log_of k (es @ [Pe_Moved j]) = log_of k es" for j by (simp add: log_of_def)
  show ?thesis
    using step
  proof cases
    case (px_take headers body ctx b)
    then have "k = ps_next s" using k by simp
    moreover have "ps_tasks s (ps_next s) = None" using inv_task [OF inv] by (cases "ps_tasks s (ps_next s)") auto
    ultimately have "log_of k es = log_of k []" using old by (simp add: log_placed_def)
    then show ?thesis
      using px_take \<open>k = ps_next s\<close> by (simp add: log_placed_def log_fits_def log_of_def)
  next
    case (px_count k' task)
    then show ?thesis using k fits(1) by (simp add: log_placed_def log_fits_def Let_def)
  next
    case (px_probe k' task refusing found refused i now bs ok)
    then show ?thesis using k fits(1) by (simp add: log_placed_def log_fits_def Let_def)
  next
    case (px_post k' task refusing found refused i)
    then show ?thesis using k fits(1) by (simp add: log_placed_def log_fits_def Let_def)
  next
    case (px_fail k' task i answer now)
    then show ?thesis using k fits(1) by (auto simp: log_placed_def log_fits_def Let_def)
  next
    case (px_succeed k' task i reply)
    then show ?thesis using k fits(1) by (auto simp: log_placed_def log_fits_def Let_def)
  next
    case (px_bind k' task i reply)
    then show ?thesis using k fits(1) by (simp add: log_placed_def log_fits_def Let_def)
  next
    case (px_answer k' task i reply resp)
    then have k': "k' = k" "ps_tasks s k = Some task" using k by simp_all
    have tried: "distinct (rt_attempted task)" "\<forall>i \<in> set (rt_attempted task). i < ?n"
      using inv_task [OF inv k'(2)] by (auto simp: task_ok_def may_take_def)
    have bound: "i < ?n \<and> i \<notin> set (rt_attempted task)" if "rt_phase task = Bound i reply"
      using inv_task [OF inv k'(2)] that by (auto simp: task_ok_def phase_ok_def may_take_def)
    have "log_ok env ?n (log_of k (es @ [e]))"
      using px_answer(4)
    proof (elim disjE exE conjE)
      assume "rt_phase task = Bound i reply" "resp = upstream_response (pe_to_str env) reply (up_status reply)"
      then show ?thesis using fits(1) [OF k'(2)] bound tried px_answer(1) k'
        by (auto simp: log_fits_def log_ok_def Let_def answer_due_def butlast_append)
    next
      fix refusing refused
      assume "rt_phase task = Choosing refusing [] refused" "resp = give_up (pe_to_str env) task refused ?n"
      then show ?thesis using fits(1) [OF k'(2)] tried px_answer(1) k'
        by (fastforce simp: log_fits_def log_ok_def Let_def answer_due_def give_up_def dest: in_set_butlastD)
    qed
    moreover have "lg_contexts (log_of k (es @ [e])) = [rt_ctx task]"
      using fits(1) [OF k'(2)] px_answer(1) by (simp add: log_fits_def)
    ultimately show ?thesis using px_answer(2) k' by (simp add: log_placed_def log_fits_def)
  next
    case (px_uncount k' task)
    then show ?thesis using k fits(1,2) by (auto simp: log_placed_def log_fits_def moved simp del: log_fields)
  next
    case (px_give k' task)
    then show ?thesis using k fits(2,3) by (simp add: log_placed_def moved)
  qed (use k in simp_all)
qed

lemma log_placed_run:
  assumes "run (proxy_step env) s es t" "proxy_inv env s" "ps_tasks s = Map.empty"
  shows "log_placed env (length (px_backends (ps_state s))) t k (log_of k es)"
  using assms
proof (induction rule: run.induct)
  case (run_nil s)
  then show ?case by (simp add: log_placed_def log_ok_def)
next
  case (run_snoc s es t e u)
  note IH = run_snoc.IH [OF run_snoc.prems] and inv = px.inv_run [OF run_snoc.hyps(1) run_snoc.prems(1)]
  have len: "length (px_backends (ps_state t)) = length (px_backends (ps_state s))"
    using statics_length [OF run_statics [OF run_snoc.hyps(1) run_snoc.prems(1)]] .
  show ?case
  proof (cases "event_owner e = Some k")
    case True
    show ?thesis using log_placed_own [OF inv run_snoc.hyps(2) True] IH by (simp add: len)
  next
    case False
    have "ps_next t \<le> ps_next u" using run_snoc.hyps(2) by cases simp_all
    then show ?thesis
      using IH step_other_task [OF run_snoc.hyps(2) False] log_of_other [OF False, of es]
      by (auto simp: log_placed_def split: option.split)
  qed
qed

text \<open>C31: The life of a request, however it interleaves with others. It is posted to pairwise different
  backends, one at a time, and to the next one only after the one before failed to connect or
  answered with a server error; it is answered at most once, and only after the last post has ended; and the
  answer is the 503 of a request without a backend if nothing was posted, 502 if the last post did
  not connect, and otherwise exactly what the last backend answered.\<close>

theorem request_life:
  assumes "proxy_start env lims s" "run (proxy_step env) s es t"
  shows "log_ok env (length (px_backends (ps_state s))) (log_of k es)"
proof -
  note inv = proxy_start_inv [OF assms(1)]
  have "log_placed env (length (px_backends (ps_state s))) t k (log_of k es)"
    using log_placed_run [OF assms(2) inv] assms(1) by (simp add: proxy_start_def)
  moreover have "task_ok env (px_backends (ps_state s)) task" if "ps_tasks t k = Some task" for task
    using inv_task [OF px.inv_run [OF assms(2) inv] that]
    by (simp add: task_ok_statics [OF run_statics [OF assms(2) inv]])
  ultimately show ?thesis using log_fits_ok by (auto simp: log_placed_def split: option.splits)
qed

lemma request_life_witness:
  "log_ok ex_busy 2 (log_of 0 ([Pe_Admitted 0 ex_context, Pe_Moved 0, Pe_Probed 0 0 7] @
     [Pe_Posted 0 0 (request_to ex_context (px_backends ex_px ! 0))]))"
proof -
  have "length (px_backends (ps_state (sys ex_px Map.empty 0))) = 2" by (simp add: ex_px_def)
  with request_life [OF ex_px_start ex_posting_run, of 0] show ?thesis by (simp only:)
qed

section \<open>Bound threads\<close>

lemma affinity_key_inj: "affinity_key kind thread = affinity_key kind' thread' \<Longrightarrow> kind = kind' \<and> thread = thread'"
  by (cases kind; cases kind') (simp_all add: affinity_key_def)

text \<open>Where a request has its good answer from.\<close>

definition holds_reply :: "'s proxy_system \<Rightarrow> nat \<Rightarrow> forward_ctx \<Rightarrow> nat \<Rightarrow> bool" where
  "holds_reply s k ctx i \<longleftrightarrow>
     (\<exists>task reply. ps_tasks s k = Some task \<and> rt_ctx task = ctx \<and>
        (rt_phase task = Accepted i reply \<or> rt_phase task = Bound i reply))"

lemma step_reply:
  assumes "proxy_step env s e t" "holds_reply t k ctx i"
  shows "holds_reply s k ctx i \<or> (\<exists>reply. e = Pe_Succeeded k i reply)"
  using assms by cases (auto simp: holds_reply_def split: if_splits)

lemma step_binding:
  assumes "proxy_step env s e t" "px_affinity (ps_state t) key = Some i" "px_affinity (ps_state s) key \<noteq> Some i"
  shows "\<exists>k ctx. fc_affinity_key ctx = Some key \<and> holds_reply s k ctx i"
  using assms
proof cases
  case (px_bind k task j reply)
  then show ?thesis
    using assms(2,3) by (auto simp: holds_reply_def affinity_record_def split: option.splits if_splits)
qed (use assms(2,3) in auto)

lemma reply_logged:
  assumes "run (proxy_step env) s es t" "ps_tasks s = Map.empty" "holds_reply t k ctx i"
  shows "Pe_Admitted k ctx \<in> set es \<and> (\<exists>reply. Pe_Succeeded k i reply \<in> set es)"
proof
  show "Pe_Admitted k ctx \<in> set es"
    using assms context_admitted [OF assms(1,2)] by (auto simp: holds_reply_def)
  show "\<exists>reply. Pe_Succeeded k i reply \<in> set es"
    using assms
  proof (induction rule: run.induct)
    case (run_nil s)
    then show ?case by (simp add: holds_reply_def)
  next
    case (run_snoc s es t e u)
    then show ?case using step_reply [OF run_snoc.hyps(2) run_snoc.prems(2)] by auto
  qed
qed

lemma binding_logged:
  assumes "run (proxy_step env) s es t" "ps_tasks s = Map.empty" "px_affinity (ps_state s) = Map.empty"
    and "px_affinity (ps_state t) key = Some i"
  shows "\<exists>k ctx reply. fc_affinity_key ctx = Some key \<and> Pe_Admitted k ctx \<in> set es \<and> Pe_Succeeded k i reply \<in> set es"
  using assms
proof (induction rule: run.induct)
  case (run_snoc s es t e u)
  show ?case
  proof (cases "px_affinity (ps_state t) key = Some i")
    case True
    then show ?thesis using run_snoc.IH [OF run_snoc.prems(1,2)] by auto
  next
    case False
    then show ?thesis
      using step_binding [OF run_snoc.hyps(2) run_snoc.prems(3)] reply_logged [OF run_snoc.hyps(1) run_snoc.prems(1)]
      by fastforce
  qed
qed simp

text \<open>C39: A thread is bound to a backend only by its own requests: when the affinity map sends a workload
  and a thread to backend \<open>i\<close>, then \<open>i\<close> is one of the configured backends, it serves this workload, and
  an earlier request of this workload and thread was answered by it. So the workloads of one thread
  never share a binding.\<close>

theorem bindings_earned:
  assumes "proxy_start env lims s" "run (proxy_step env) s es t"
    and "affinity_preferred (affinity_key kind thread) (px_affinity (ps_state t)) = Some i"
  shows "i < length (px_backends (ps_state s)) \<and> kind \<in> set (bk_workloads (px_backends (ps_state s) ! i)) \<and>
    (\<exists>k ctx reply. Pe_Admitted k ctx \<in> set es \<and> Pe_Succeeded k i reply \<in> set es \<and>
       fc_affinity_key ctx = Some (affinity_key kind thread))"
proof -
  note inv = proxy_start_inv [OF assms(1)] and b = assms(3) [unfolded affinity_preferred_def]
  have "bindings_ok (px_backends (ps_state s)) (px_affinity (ps_state t))"
    using px.inv_run [OF assms(2) inv] by (simp add: proxy_inv_def bindings_ok_statics [OF run_statics [OF assms(2) inv]])
  then obtain kind' thread' where "i < length (px_backends (ps_state s))" "affinity_key kind thread = affinity_key kind' thread'"
    "kind' \<in> set (bk_workloads (px_backends (ps_state s) ! i))" using b unfolding bindings_ok_def by blast
  moreover have "\<exists>k ctx reply. fc_affinity_key ctx = Some (affinity_key kind thread) \<and> Pe_Admitted k ctx \<in> set es \<and>
      Pe_Succeeded k i reply \<in> set es"
    by (rule binding_logged [OF assms(2) _ _ b]) (use assms(1) in \<open>simp_all add: proxy_start_def affinity_new_def\<close>)
  ultimately show ?thesis using affinity_key_inj by blast
qed

definition ex_reply :: upstream where
  "ex_reply = \<lparr>up_status = 200, up_content_type = None, up_body = []\<rparr>"

definition ex_bound :: "nat proxy_system" where
  "ex_bound = sys ((set_circuit 0 record_success (ps_state ex_admitted))
       \<lparr>px_affinity := affinity_record (affinity_key Embeddings ''t1'') 0 affinity_new\<rparr>)
     [0 \<mapsto> \<lparr>rt_ctx = ex_context, rt_attempted = [], rt_phase = Bound 0 ex_reply\<rparr>] 1"

lemma ex_bound_run: "\<exists>es. run (proxy_step ex_busy) (sys ex_px Map.empty 0) es ex_bound"
proof -
  let ?task = "\<lambda>ph. \<lparr>rt_ctx = ex_context, rt_attempted = [], rt_phase = ph\<rparr>"
  let ?mid = "sys (set_circuit 0 record_success (ps_state ex_admitted)) [0 \<mapsto> ?task (Accepted 0 ex_reply)] 1"
  have ok: "\<not> failed_post ex_context (Some ex_reply)"
    by (simp add: failed_post_def ex_reply_def is_server_error_def)
  have "proxy_step ex_busy ex_posting (Pe_Succeeded 0 0 ex_reply) ?mid"
    using px_succeed [of ex_posting 0 "?task (Posting 0)" 0 ex_reply ex_busy] ok by (simp add: ex_posting_def)
  with ex_posting_run have mid: "run (proxy_step ex_busy) (sys ex_px Map.empty 0)
      ((([Pe_Admitted 0 ex_context, Pe_Moved 0, Pe_Probed 0 0 7]) @
         [Pe_Posted 0 0 (request_to ex_context (px_backends ex_px ! 0))]) @ [Pe_Succeeded 0 0 ex_reply]) ?mid"
    by (rule run_snoc)
  have "px_affinity (ps_state ex_admitted) = affinity_new" by (simp add: ex_admitted_def ex_px_def)
  then have "proxy_step ex_busy ?mid (Pe_Moved 0) ex_bound"
    using px_bind [of ?mid 0 "?task (Accepted 0 ex_reply)" 0 ex_reply ex_busy] by (simp add: ex_bound_def)
  with mid have "run (proxy_step ex_busy) (sys ex_px Map.empty 0)
      (((([Pe_Admitted 0 ex_context, Pe_Moved 0, Pe_Probed 0 0 7]) @
         [Pe_Posted 0 0 (request_to ex_context (px_backends ex_px ! 0))]) @ [Pe_Succeeded 0 0 ex_reply]) @ [Pe_Moved 0]) ex_bound"
    by (rule run_snoc)
  then show ?thesis by blast
qed

lemma bindings_earned_witness:
  "affinity_preferred (affinity_key Embeddings ''t1'') (px_affinity (ps_state ex_bound)) = Some 0 \<and>
   Embeddings \<in> set (bk_workloads (px_backends ex_px ! 0))"
proof -
  obtain es where es: "run (proxy_step ex_busy) (sys ex_px Map.empty 0) es ex_bound" using ex_bound_run by blast
  have b: "affinity_preferred (affinity_key Embeddings ''t1'') (px_affinity (ps_state ex_bound)) = Some 0"
    by (simp add: affinity_preferred_def ex_bound_def affinity_record_def)
  from bindings_earned [OF ex_px_start es b] b show ?thesis by simp
qed

end
