(* ===== verification/Gateway.thy ===== *)
theory Gateway
  imports Http_Props Proxy_Concurrent
begin

text \<open>
  The whole process: the server of jobs and workers (\<open>Server_Steps\<close>) and the concurrent proxy
  (\<open>Proxy_Steps\<close>) side by side, as \<open>main\<close> starts them. What a request does is a run of the two, and what
  the metrics page says of the proxy is what runs there.
\<close>

abbreviation gateway_step ::
  "bool \<Rightarrow> nat \<Rightarrow> 's proxy_env \<Rightarrow> ('v, job_db) server \<times> 's proxy_system
     \<Rightarrow> 'v server_event + proxy_event \<Rightarrow> ('v, job_db) server \<times> 's proxy_system \<Rightarrow> bool" where
  "gateway_step strict quota penv \<equiv> beside (server_step strict quota) (proxy_step penv)"

definition main_gateway :: "('v, 's) app_state \<Rightarrow> ('v, job_db) server \<times> 's proxy_system" where
  "main_gateway app = (main_server app, \<lparr>ps_state = app_proxy app, ps_tasks = Map.empty, ps_next = 0\<rparr>)"

section \<open>The gauges of the priorities\<close>

definition configured_limit :: "('v, 's) app_state \<Rightarrow> priority \<Rightarrow> nat" where
  "configured_limit app p = bucket_limit (bucket p (px_limiter (app_proxy app)))"

lemma boot_proxy_start:
  assumes "main_boot env get = Inr app" "pe_sem penv = be_sem env"
  shows "proxy_start penv (configured_limit app) (snd (main_gateway app))"
proof -
  obtain cfg reg where "app = app_state_of env cfg reg" using assms(1) by (rule main_boot_cases)
  then show ?thesis
    by (simp add: proxy_start_def main_gateway_def configured_limit_def app_state_of_def proxy_of_def assms(2)
        bucket_new_def)
qed

lemma priority_line_in_page:
  "sublist (metric_line ''fairlead_priority_in_flight'' [(''priority'', priority_as_str p)]
     (nat_to_string (bucket_in_flight (bucket p limiter)))) (render_priority_metrics limiter)"
proof -
  let ?snap = "\<lparr>sn_priority = p, sn_limit = bucket_limit (bucket p limiter), sn_in_flight = bucket_in_flight (bucket p limiter)\<rparr>"
  have snap: "?snap \<in> set (limiter_snapshots limiter)" by (cases p) (simp_all add: limiter_snapshots_def)
  have "sublist (metric_line ''fairlead_priority_in_flight'' [(''priority'', priority_as_str (sn_priority ?snap))]
      (nat_to_string (sn_in_flight ?snap)))
    (concat (map (\<lambda>s.
       metric_line ''fairlead_priority_in_flight'' [(''priority'', priority_as_str (sn_priority s))]
         (nat_to_string (sn_in_flight s)) @
       metric_line ''fairlead_priority_limit'' [(''priority'', priority_as_str (sn_priority s))]
         (nat_to_string (sn_limit s))) (limiter_snapshots limiter)))"
    by (rule sublist_concat_map [OF snap]) (rule sublist_append_rightI)
  then show ?thesis
    unfolding render_priority_metrics_def append_assoc [symmetric] priority_snapshot.select_convs
    by (rule sublist_order.order_trans) (rule sublist_append_leftI)
qed

text \<open>C30: From start-up, however requests, refusals, streams, clients that go away, API calls, loops and
  deliveries interleave: the metrics page has for each priority a line with exactly the number of its
  requests and open streams, which is never above the configured limit; a request is refused a
  permit exactly when all permits of its own priority are out; and the request counters add up to
  the refused and the answered requests.\<close>

theorem priority_gauges_exact:
  assumes "main_boot env get = Inr app" "pe_sem penv = be_sem env" "semaphore_laws (be_sem env) permits"
    and "run (gateway_step strict quota penv) (main_gateway app) es (s, px)"
    and "mv_limiter v = px_limiter (ps_state px)"
  shows "sublist (metric_line ''fairlead_priority_in_flight'' [(''priority'', priority_as_str p)]
      (nat_to_string (permits_held px Counted p))) (snd (snd (metrics_page v))) \<and>
    permits_held px Counted p \<le> configured_limit app p \<and>
    (take_permit (be_sem env) (bucket p (px_limiter (ps_state px))) = None \<longleftrightarrow>
       permits_held px Uncounted p + permits_held px Counted p + permits_held px Leaving p = configured_limit app p) \<and>
    total_requests (px_metrics (ps_state px)) = length (filter counts_request (observed right_of es))"
proof -
  have "run (proxy_step penv) (snd (main_gateway app)) (observed right_of es) px"
    using run_parts [OF assms(4)] by simp
  note acc = requests_accounted [OF assms(3) [folded assms(2)] boot_proxy_start [OF assms(1,2)] this, of p]
  have "sublist (render_priority_metrics (px_limiter (ps_state px))) (snd (snd (metrics_page v)))"
    unfolding metrics_page_def assms(5) snd_conv
    by (subst append_assoc [symmetric]) (rule sublist_appendI)
  from sublist_order.order_trans [OF priority_line_in_page [of p] this] acc show ?thesis
    unfolding assms(2) by metis
qed

lemma ex_gateway_run:
  "run (gateway_step True 3 ex_busy) (main_gateway ex_booted) [Inr Pe_Other] (main_gateway ex_booted)"
proof -
  have "proxy_step ex_busy (snd (main_gateway ex_booted)) Pe_Other (snd (main_gateway ex_booted))"
    using px_note [of "px_metrics (ps_state (snd (main_gateway ex_booted)))" "snd (main_gateway ex_booted)" ex_busy] by (simp add: main_gateway_def)
  then have "gateway_step True 3 ex_busy (main_gateway ex_booted) (Inr Pe_Other) (main_gateway ex_booted)"
    using beside_right by (metis prod.collapse)
  then show ?thesis by (rule run_one)
qed

lemma priority_gauges_exact_witness:
  "sublist (metric_line ''fairlead_priority_in_flight'' [(''priority'', priority_as_str Batch)] (nat_to_string 0))
     (snd (snd (metrics_page (ex_view\<lparr>mv_limiter := px_limiter (app_proxy ex_booted)\<rparr>))))"
proof -
  have boot: "main_boot (ex_boot empty_db) (ex_get None None) = Inr ex_booted" unfolding ex_booted_def by (rule ex_main_boot)
  have sem: "pe_sem ex_busy = be_sem (ex_boot empty_db)" "semaphore_laws (be_sem (ex_boot empty_db)) (\<lambda>n. n)"
    by (simp_all add: ex_busy_def ex_penv_ok ex_boot_def ex_sem_laws)
  have run: "run (gateway_step True 3 ex_busy) (main_gateway ex_booted) [Inr Pe_Other]
      (main_server ex_booted, snd (main_gateway ex_booted))"
    using ex_gateway_run by (simp add: main_gateway_def)
  have v: "mv_limiter (ex_view\<lparr>mv_limiter := px_limiter (app_proxy ex_booted)\<rparr>) = px_limiter (ps_state (snd (main_gateway ex_booted)))"
    by (simp add: main_gateway_def)
  have "permits_held (snd (main_gateway ex_booted)) Counted Batch = 0" by (simp add: permits_held_def main_gateway_def)
  with priority_gauges_exact [OF boot sem run v, of Batch] show ?thesis by (simp only:)
qed

section \<open>What a request does\<close>

text \<open>The part of the process a request changes, and how its answer is seen there: nothing; one call of
  the job and worker API; one resource report; or a forwarded request, from its admission to its
  answer, or refused.\<close>

definition request_trace ::
  "nat \<Rightarrow> 'v http_response \<Rightarrow> ('v server_event + proxy_event) list \<Rightarrow> bool" where
  "request_trace k answer es \<longleftrightarrow>
     es = [] \<or>
     (\<exists>call response. es = [Inl (Se_Api call response)] \<and> answer = Api_Response response) \<or>
     (\<exists>status body. es = [Inr Pe_Other] \<and> answer = Resource_Answer status body) \<or>
     (\<exists>response fs. es = map Inr fs \<and> answer = Forwarded response \<and>
        (answers_of k fs = [response] \<or> (\<exists>status msg. fs = [Pe_Refused status] \<and> response = Plain status msg)))"

lemma forwarded_run:
  assumes "forwarded app (forward env r headers body (app_proxy app)) = (app', answer)"
    and others: "others_run env R" "R 0 (ps_tasks px) (Suc (ps_next px))" "proxy_inv env px"
    and px: "ps_state px = app_proxy app"
  shows "\<exists>es px'. run (gateway_step strict quota env) (s, px) es (s, px') \<and> app_async app' = app_async app \<and>
    ps_state px' = app_proxy app' \<and> request_trace (ps_next px) answer es"
proof (cases "forward env r headers body (app_proxy app)")
  case None
  then show ?thesis using assms(1) px run_nil [of "gateway_step strict quota env" "(s, px)"]
    by (auto simp: forwarded_def request_trace_def)
next
  case (Some out)
  obtain st resp where out: "out = (st, resp)" by (cases out)
  with assms(1) Some have app': "app' = app\<lparr>app_proxy := st\<rparr>" "answer = Forwarded resp" by (simp_all add: forwarded_def)
  obtain fs tasks n where run: "run (proxy_step env) px fs \<lparr>ps_state = st, ps_tasks = tasks, ps_next = n\<rparr>"
    and trace: "case parse_priority (pe_to_str env) headers of
       Inl msg \<Rightarrow> fs = [] \<and> resp = Plain 400 msg
     | Inr p \<Rightarrow>
         (\<exists>status msg. fs = [Pe_Refused status] \<and> resp = Plain status msg) \<or>
         answers_of (ps_next px) fs = [resp] \<and>
         (case resp of
            Plain status msg \<Rightarrow> tasks (ps_next px) = None
          | Streamed status hs chunks \<Rightarrow>
              \<exists>task. tasks (ps_next px) = Some task \<and> rt_phase task = Answered resp \<and> fc_priority (rt_ctx task) = p)"
    using forward_run [OF others, of r headers body st resp] Some out px by auto
  have "request_trace (ps_next px) answer (map Inr fs)"
    using trace app'(2) unfolding request_trace_def by (auto split: sum.splits)
  with run_right [OF run] app' show ?thesis by fastforce
qed

lemma other_run:
  assumes "serve_other env rq e caps app = (app', answer)"
    and others: "others_run (he_proxy env) R" "R 0 (ps_tasks px) (Suc (ps_next px))" "proxy_inv (he_proxy env) px"
    and px: "ps_state px = app_proxy app"
  shows "\<exists>es px'. run (gateway_step strict quota (he_proxy env)) (s, px) es (s, px') \<and>
    app_async app' = app_async app \<and> ps_state px' = app_proxy app' \<and> request_trace (ps_next px) answer es"
proof -
  have idle: ?thesis if "app' = app"
    using that px run_nil [of "gateway_step strict quota (he_proxy env)" "(s, px)"] by (fastforce simp: request_trace_def)
  show ?thesis
  proof (cases e)
    case Ep_Chat
    then show ?thesis
      using forwarded_run [OF _ others px] assms(1) by (simp add: serve_other_def chat_completions_def)
  next
    case Ep_Embeddings
    then show ?thesis
      using forwarded_run [OF _ others px] assms(1) by (simp add: serve_other_def embeddings_def)
  next
    case Ep_Report_Resources
    show ?thesis
    proof (cases "hl_report (he_lib env) (hr_headers rq) (hr_body rq)")
      case (Inl x)
      then show ?thesis using assms(1) Ep_Report_Resources idle by (auto simp: serve_other_def split: prod.splits)
    next
      case (Inr request)
      obtain reg status body where r: "report_resources (he_clock env) request (px_resources (app_proxy app)) = (reg, status, body)"
        by (cases "report_resources (he_clock env) request (px_resources (app_proxy app))")
      then have app': "app' = app\<lparr>app_proxy := (app_proxy app)\<lparr>px_resources := reg\<rparr>\<rparr>" "answer = Resource_Answer status body"
        using assms(1) Ep_Report_Resources Inr by (auto simp: serve_other_def)
      have "proxy_step (he_proxy env) px Pe_Other (px\<lparr>ps_state := (ps_state px)\<lparr>px_resources := reg\<rparr>\<rparr>)"
        using r px by (intro px_report) simp
      then have "gateway_step strict quota (he_proxy env) (s, px) (Inr Pe_Other)
          (s, px\<lparr>ps_state := (ps_state px)\<lparr>px_resources := reg\<rparr>\<rparr>)" by (rule beside_right)
      then have "run (gateway_step strict quota (he_proxy env)) (s, px) [Inr Pe_Other]
          (s, px\<lparr>ps_state := (ps_state px)\<lparr>px_resources := reg\<rparr>\<rparr>)" by (rule run_one)
      then show ?thesis using app' px by (fastforce simp: request_trace_def)
    qed
  qed (use assms(1) idle in \<open>auto simp: serve_other_def split: prod.splits sum.splits\<close>)
qed

text \<open>C21: Serving a request is a run of the process: of the server part at most one API call, whose
  response is the answer, or of the proxy part a resource report or one forwarded request, whose
  answer is the one given there, while other requests, probes and reports run between its posts. So
  what holds along the runs of the process holds of any sequence of HTTP requests, loop turns and
  deliveries.\<close>

theorem request_is_run:
  assumes "serve env rq app = (app', answer)" "allowed strict (he_call env)"
    and "others_run (he_proxy env) R" "R 0 (ps_tasks px) (Suc (ps_next px))" "proxy_inv (he_proxy env) px"
    and "sv_async s = app_async app" "ps_state px = app_proxy app"
  shows "\<exists>es s' px'. run (gateway_step strict quota (he_proxy env)) (s, px) es (s', px') \<and>
    sv_async s' = app_async app' \<and> ps_state px' = app_proxy app' \<and> request_trace (ps_next px) answer es"
proof -
  have idle: ?thesis if "app' = app"
    using that assms(6,7) run_nil [of "gateway_step strict quota (he_proxy env)" "(s, px)"]
    by (fastforce simp: request_trace_def)
  show ?thesis
  proof (cases "hl_router (he_lib env) build_router (hr_method rq) (hr_path rq)")
    case (Routed e caps)
    show ?thesis
    proof (cases "call_of (he_lib env) rq e caps")
      case None
      then have "serve_other env rq e caps app = (app', answer)" using assms(1) Routed by (simp add: serve_def)
      from other_run [OF this assms(3-5,7), of strict quota s] show ?thesis
        using assms(6) by metis
    next
      case (Some x)
      show ?thesis
      proof (cases x)
        case (Inl r)
        then show ?thesis using assms(1) Routed Some idle by (auto simp: serve_def split: prod.splits)
      next
        case (Inr call)
        obtain st r where r: "api_run (he_call env) call (sv_async s) = (st, r)" by fastforce
        have app': "app' = app\<lparr>app_async := st\<rparr>" "answer = Api_Response r"
          using assms(1,6) Routed Some Inr r by (simp_all add: serve_def)
        have "gateway_step strict quota (he_proxy env) (s, px) (Inl (Se_Api call r)) (moved quota s st, px)"
          using sv_api [OF assms(2) r] by (rule beside_left)
        then have "run (gateway_step strict quota (he_proxy env)) (s, px) [Inl (Se_Api call r)] (moved quota s st, px)"
          by (rule run_one)
        then show ?thesis using app' assms(7) by (fastforce simp: request_trace_def)
      qed
    qed
  qed (use assms(1) idle in \<open>simp_all add: serve_def\<close>)
qed

lemma request_is_run_witness:
  "\<exists>es s' px'. run (gateway_step True 3 ex_penv) (main_gateway ex_booted) es (s', px') \<and>
     st_workers (sv_async s') = ex_server_workers"
proof -
  let ?rq = "ex_http_request (Api_Register ex_register_request)"
  obtain app' answer where s: "serve ex_http_env ?rq ex_booted = (app', answer)" by fastforce
  have "hl_router (he_lib ex_http_env) build_router (hr_method ?rq) (hr_path ?rq) = Routed Ep_Register []"
    using request_routed [OF ex_http_simps(1), of "Api_Register ex_register_request"]
    by (simp add: ex_http_request_def del: request_line.simps)
  then have w: "st_workers (app_async app') = ex_server_workers"
    using s ex_register_call by (auto simp: serve_def call_of_def with_body_def ex_http_env_def ex_lib_def)
  have ok: "allowed True (he_call ex_http_env)"
    by (simp add: allowed_def env_store_ok_def store_ok_def persists_def ex_server_call_def split: option.split)
  have others: "others_run (he_proxy ex_http_env) (\<lambda>_ _ _. True)"
    unfolding others_run_def using run_nil by (fastforce simp: ex_penv_def)
  have boot: "main_boot (ex_boot empty_db) (ex_get None None) = Inr ex_booted" unfolding ex_booted_def by (rule ex_main_boot)
  have inv: "proxy_inv (he_proxy ex_http_env) (snd (main_gateway ex_booted))"
    by (rule proxy_start_inv [OF boot_proxy_start [OF boot]]) (simp add: ex_penv_ok ex_boot_def)
  have "\<exists>es s' px'. run (gateway_step True 3 (he_proxy ex_http_env)) (main_server ex_booted, snd (main_gateway ex_booted)) es
      (s', px') \<and> sv_async s' = app_async app' \<and> ps_state px' = app_proxy app' \<and>
      request_trace (ps_next (snd (main_gateway ex_booted))) answer es"
    by (rule request_is_run [OF s ok others TrueI inv]) (simp_all add: main_gateway_def main_server_def)
  moreover have "(main_server ex_booted, snd (main_gateway ex_booted)) = main_gateway ex_booted"
    by (simp add: main_gateway_def)
  ultimately show ?thesis using w unfolding ex_http_simps by metis
qed

end
