(* ===== verification/Conformance.thy ===== *)
theory Conformance
  imports "HOL-Library.Monad_Syntax" Prelude
begin

text \<open>
  The vocabulary in which the unit tests of the repository are transcribed. A test is a value
  of type \<open>unit option\<close>, written in the option monad: \<open>ensure\<close> is an assertion, binding an
  option is \<open>unwrap\<close>, and a panic is \<open>None\<close>. \<open>Some ()\<close> is a test that passes.
\<close>

definition ensure :: "bool \<Rightarrow> unit option" where
  "ensure b = (if b then Some () else None)"

definition passes :: "unit option \<Rightarrow> bool" where
  "passes t \<longleftrightarrow> t = Some ()"

text \<open>\<open>Result::unwrap\<close>, \<open>Result::ok\<close> and \<open>Result::unwrap_err\<close>.\<close>

fun unwrap :: "'e + 'a \<Rightarrow> 'a option" where
  "unwrap (Inl _) = None"
| "unwrap (Inr x) = Some x"

fun unwrap_err :: "'e + 'a \<Rightarrow> 'e option" where
  "unwrap_err (Inl e) = Some e"
| "unwrap_err (Inr _) = None"

lemma ensure_bind [simp]: "Option.bind (ensure b) f = (if b then f () else None)"
  by (simp add: ensure_def)

lemma passes_ensure [simp]: "passes (ensure b) \<longleftrightarrow> b"
  by (simp add: passes_def ensure_def)

lemma passes_if [simp]: "passes (if b then t else None) \<longleftrightarrow> b \<and> passes t"
  by (simp add: passes_def)

lemma passes_Some [simp]: "passes (Some ())" "\<not> passes None"
  by (simp_all add: passes_def)

text \<open>A test is evaluated in the order it runs: what is bound first, its continuation after that.\<close>

lemma bind_weak_cong [cong]: "x = y \<Longrightarrow> Option.bind x f = Option.bind y f"
  by simp

declare let_weak_cong [cong]

text \<open>The decimal digits as \<open>nat_to_string\<close> has them.\<close>

lemma char_digits:
  "(char_of (48 :: nat) :: char) = CHR ''0''" "(char_of (49 :: nat) :: char) = CHR ''1''"
  "(char_of (50 :: nat) :: char) = CHR ''2''" "(char_of (51 :: nat) :: char) = CHR ''3''"
  "(char_of (52 :: nat) :: char) = CHR ''4''" "(char_of (53 :: nat) :: char) = CHR ''5''"
  "(char_of (54 :: nat) :: char) = CHR ''6''" "(char_of (55 :: nat) :: char) = CHR ''7''"
  "(char_of (56 :: nat) :: char) = CHR ''8''" "(char_of (57 :: nat) :: char) = CHR ''9''"
  by code_simp+

named_theorems test_defs \<open>the fixtures of the transcribed tests\<close>

end
