(* ===== verification/Router_Tests.thy ===== *)
theory Router_Tests
  imports Conformance Router Priority_Limiter Http
begin

text \<open>
  The unit tests of \<open>src/src/router/circuit.rs\<close>, \<open>affinity.rs\<close>, \<open>fallback.rs\<close> and
  \<open>backend.rs\<close>, of \<open>src/src/priority.rs\<close> and of \<open>src/src/error.rs\<close>, run on the model. A test that
  reads the clock is given one reading of it, \<open>now\<close>, and sleeping adds to it; what the tests do not
  depend on, the URL library among it, is a parameter, so each test passes for all of its values.
\<close>

lemmas circuit_eval = circuit_new_def record_failure_def record_success_def is_available_def Let_def

lemmas selection_eval = from_config_def backend_new_def from_legacy_url_def select_backend_excluding_resource_def
  probe_def probe_step_def best_available_backend_def get_at_def min_by_def min_step_def compare_resource_rank_def
  rank_at_def compare_rank_values_def f64_partial_cmp_def cmp_def

lemmas backend_eval = from_config_def backend_new_def from_legacy_url_def derive_health_url_def append_url_path_def
  join_origin_path_def trim_start_matches_def trim_end_matches_def starts_with_def trim_eval nat_to_string.simps
  digit_char_def Let_def

lemmas limiter_eval = limiter_new_def bucket_new_def try_acquire_def bucket_try_acquire_def take_permit_def
  count_up_def count_down_def give_permit_def drop_permit_def ex_sem_def

definition from_millis :: "nat \<Rightarrow> nat" where [test_defs]:
  "from_millis ms = ms * 10 ^ 6"

declare from_secs_def [test_defs]

lemma thresholds:
  "\<not> (3 :: 32 word) \<le> 1" "\<not> (3 :: 32 word) \<le> 2"
  by (simp_all add: word_le_nat_alt)

section \<open>Circuit breaker\<close>

definition is_closed :: "circuit_breaker \<Rightarrow> bool" where [test_defs]:
  "is_closed cb \<longleftrightarrow> (case cb_state cb of Closed \<Rightarrow> True | Open _ \<Rightarrow> False | HalfOpen \<Rightarrow> False)"

definition is_open :: "circuit_breaker \<Rightarrow> bool" where [test_defs]:
  "is_open cb \<longleftrightarrow> (case cb_state cb of Closed \<Rightarrow> False | Open _ \<Rightarrow> True | HalfOpen \<Rightarrow> False)"

definition is_half_open :: "circuit_breaker \<Rightarrow> bool" where [test_defs]:
  "is_half_open cb \<longleftrightarrow> (case cb_state cb of Closed \<Rightarrow> False | Open _ \<Rightarrow> False | HalfOpen \<Rightarrow> True)"

definition cb :: "32 word \<Rightarrow> nat \<Rightarrow> circuit_breaker" where [test_defs]:
  "cb threshold cooldown_ms = circuit_new threshold (from_millis cooldown_ms)"

definition starts_closed_and_available :: "nat \<Rightarrow> unit option" where [test_defs]:
  "starts_closed_and_available now = do {
     let c = cb 3 30000;
     let (c, available) = is_available now c;
     ensure available;
     ensure (is_closed c)
   }"

definition opens_after_threshold_consecutive_failures :: "nat \<Rightarrow> unit option" where [test_defs]:
  "opens_after_threshold_consecutive_failures now = do {
     let c = cb 3 30000;
     let c = record_failure now c;
     let c = record_failure now c;
     let (c, available) = is_available now c;
     ensure available;
     let c = record_failure now c;
     let (c, available) = is_available now c;
     ensure (\<not> available);
     ensure (is_open c)
   }"

definition success_resets_failure_counter :: "nat \<Rightarrow> unit option" where [test_defs]:
  "success_resets_failure_counter now = do {
     let c = cb 3 30000;
     let c = record_failure now c;
     let c = record_failure now c;
     let c = record_success c;
     let c = record_failure now c;
     let c = record_failure now c;
     let (c, available) = is_available now c;
     ensure available
   }"

definition open_circuit_blocks_immediately :: "nat \<Rightarrow> unit option" where [test_defs]:
  "open_circuit_blocks_immediately now = do {
     let c = cb 1 30000;
     let c = record_failure now c;
     let (c, available) = is_available now c;
     ensure (\<not> available);
     let (c, available) = is_available now c;
     ensure (\<not> available)
   }"

definition transitions_to_half_open_after_cooldown :: "nat \<Rightarrow> unit option" where [test_defs]:
  "transitions_to_half_open_after_cooldown now = do {
     let c = cb 1 10;
     let c = record_failure now c;
     let (c, available) = is_available now c;
     ensure (\<not> available);
     let now = now + from_millis 20;
     let (c, available) = is_available now c;
     ensure available;
     ensure (is_half_open c)
   }"

definition success_in_half_open_closes_circuit :: "nat \<Rightarrow> unit option" where [test_defs]:
  "success_in_half_open_closes_circuit now = do {
     let c = cb 1 10;
     let c = record_failure now c;
     let now = now + from_millis 20;
     let (c, available) = is_available now c;
     ensure available;
     let c = record_success c;
     ensure (is_closed c);
     let (c, available) = is_available now c;
     ensure available
   }"

definition failure_in_half_open_reopens_circuit :: "nat \<Rightarrow> unit option" where [test_defs]:
  "failure_in_half_open_reopens_circuit now = do {
     let c = cb 1 10;
     let c = record_failure now c;
     let now = now + from_millis 20;
     let (c, available) = is_available now c;
     ensure available;
     let c = record_failure now c;
     let (c, available) = is_available now c;
     ensure (\<not> available);
     ensure (is_open c)
   }"

lemma circuit_tests_pass:
  "passes (starts_closed_and_available now)"
  "passes (opens_after_threshold_consecutive_failures now)"
  "passes (success_resets_failure_counter now)"
  "passes (open_circuit_blocks_immediately now)"
  "passes (transitions_to_half_open_after_cooldown now)"
  "passes (success_in_half_open_closes_circuit now)"
  "passes (failure_in_half_open_reopens_circuit now)"
  by (simp_all add: test_defs circuit_eval thresholds)

section \<open>Session affinity\<close>

definition no_preference_by_default :: "unit option" where [test_defs]:
  "no_preference_by_default = do {
     let a = affinity_new;
     ensure (affinity_preferred ''thread-1'' a = None)
   }"

definition records_and_retrieves_preference :: "unit option" where [test_defs]:
  "records_and_retrieves_preference = do {
     let a = affinity_new;
     let a = affinity_record ''thread-1'' 2 a;
     ensure (affinity_preferred ''thread-1'' a = Some 2)
   }"

definition different_threads_are_independent :: "unit option" where [test_defs]:
  "different_threads_are_independent = do {
     let a = affinity_new;
     let a = affinity_record ''thread-a'' 0 a;
     let a = affinity_record ''thread-b'' 1 a;
     ensure (affinity_preferred ''thread-a'' a = Some 0);
     ensure (affinity_preferred ''thread-b'' a = Some 1)
   }"

definition record_updates_existing_preference :: "unit option" where [test_defs]:
  "record_updates_existing_preference = do {
     let a = affinity_new;
     let a = affinity_record ''thread-1'' 0 a;
     let a = affinity_record ''thread-1'' 1 a;
     ensure (affinity_preferred ''thread-1'' a = Some 1)
   }"

lemma affinity_tests_pass:
  "passes no_preference_by_default" "passes records_and_retrieves_preference"
  "passes different_threads_are_independent" "passes record_updates_existing_preference"
  by (simp_all add: test_defs affinity_new_def affinity_preferred_def affinity_record_def)

section \<open>Selection\<close>

definition select_backend_excluding ::
  "(nat \<Rightarrow> nat) \<Rightarrow> backend_state list \<Rightarrow> nat option \<Rightarrow> string option \<Rightarrow> nat list \<Rightarrow> backend_state list \<times> nat option" where [test_defs]:
  "select_backend_excluding nw backends preferred origin_node excluded =
     select_backend_excluding_resource nw backends preferred origin_node excluded [] []"

definition select_backend ::
  "(nat \<Rightarrow> nat) \<Rightarrow> backend_state list \<Rightarrow> nat option \<Rightarrow> string option \<Rightarrow> backend_state list \<times> nat option" where [test_defs]:
  "select_backend nw backends preferred origin_node = select_backend_excluding nw backends preferred origin_node []"

type_synonym set_url_path = "string \<Rightarrow> string \<Rightarrow> string option"

definition healthy :: "set_url_path \<Rightarrow> string \<Rightarrow> backend_state" where [test_defs]:
  "healthy su url = backend_new su url 1 (from_secs 60)"

definition healthy_on_node :: "set_url_path \<Rightarrow> string \<Rightarrow> string \<Rightarrow> backend_state" where [test_defs]:
  "healthy_on_node su url node_id =
     from_config su
       \<lparr>bc_id = node_id @ ''-vllm'', bc_url = url, bc_node_id = Some node_id, bc_pool = ''local-llm'',
        bc_workloads = default_proxy_workloads, bc_health_path = None\<rparr> 1 (from_secs 60)"

definition trip :: "nat \<Rightarrow> backend_state \<Rightarrow> backend_state" where [test_defs]:
  "trip now b = b\<lparr>circuit := record_failure now (circuit b)\<rparr>"

definition tripped :: "nat \<Rightarrow> set_url_path \<Rightarrow> string \<Rightarrow> backend_state" where [test_defs]:
  "tripped now su url = trip now (healthy su url)"

definition empty_backends_returns_none :: "nat \<Rightarrow> unit option" where [test_defs]:
  "empty_backends_returns_none now = ensure (snd (select_backend (\<lambda>_. now) [] None None) = None)"

definition all_circuits_open_returns_none :: "nat \<Rightarrow> set_url_path \<Rightarrow> unit option" where [test_defs]:
  "all_circuits_open_returns_none now su = do {
     let backends = [tripped now su ''http://a:8000/v1'', tripped now su ''http://b:8000/v1''];
     ensure (snd (select_backend (\<lambda>_. now) backends None None) = None)
   }"

definition returns_first_healthy_backend :: "nat \<Rightarrow> set_url_path \<Rightarrow> unit option" where [test_defs]:
  "returns_first_healthy_backend now su = do {
     let backends = [healthy su ''http://a:8000/v1'', healthy su ''http://b:8000/v1''];
     ensure (snd (select_backend (\<lambda>_. now) backends None None) = Some 0)
   }"

definition skips_open_circuits_in_chain :: "nat \<Rightarrow> set_url_path \<Rightarrow> unit option" where [test_defs]:
  "skips_open_circuits_in_chain now su = do {
     let backends =
       [tripped now su ''http://a:8000/v1'', tripped now su ''http://b:8000/v1'',
        healthy su ''http://c:8000/v1''];
     ensure (snd (select_backend (\<lambda>_. now) backends None None) = Some 2)
   }"

definition preferred_used_when_available :: "nat \<Rightarrow> set_url_path \<Rightarrow> unit option" where [test_defs]:
  "preferred_used_when_available now su = do {
     let backends = [healthy su ''http://a:8000/v1'', healthy su ''http://b:8000/v1''];
     ensure (snd (select_backend (\<lambda>_. now) backends (Some 1) None) = Some 1)
   }"

definition falls_back_when_preferred_circuit_open :: "nat \<Rightarrow> set_url_path \<Rightarrow> unit option" where [test_defs]:
  "falls_back_when_preferred_circuit_open now su = do {
     let backends = [healthy su ''http://a:8000/v1'', tripped now su ''http://b:8000/v1''];
     ensure (snd (select_backend (\<lambda>_. now) backends (Some 1) None) = Some 0)
   }"

definition preferred_at_index_zero_falls_back_when_open :: "nat \<Rightarrow> set_url_path \<Rightarrow> unit option" where [test_defs]:
  "preferred_at_index_zero_falls_back_when_open now su = do {
     let backends = [tripped now su ''http://a:8000/v1'', healthy su ''http://b:8000/v1''];
     ensure (snd (select_backend (\<lambda>_. now) backends (Some 0) None) = Some 1)
   }"

definition preferred_out_of_bounds_uses_chain :: "nat \<Rightarrow> set_url_path \<Rightarrow> unit option" where [test_defs]:
  "preferred_out_of_bounds_uses_chain now su = do {
     let backends = [healthy su ''http://a:8000/v1''];
     ensure (snd (select_backend (\<lambda>_. now) backends (Some 99) None) = Some 0)
   }"

text \<open>The two backends most of the remaining tests use.\<close>

definition two_nodes :: "set_url_path \<Rightarrow> backend_state list" where [test_defs]:
  "two_nodes su =
     [healthy_on_node su ''http://node-a:8000/v1'' ''node-a'',
      healthy_on_node su ''http://node-b:8000/v1'' ''node-b'']"

definition origin_node_preferred_when_available :: "nat \<Rightarrow> set_url_path \<Rightarrow> unit option" where [test_defs]:
  "origin_node_preferred_when_available now su = do {
     let backends = two_nodes su;
     ensure (snd (select_backend (\<lambda>_. now) backends None (Some ''node-b'')) = Some 1)
   }"

definition origin_node_precedence_over_affinity :: "nat \<Rightarrow> set_url_path \<Rightarrow> unit option" where [test_defs]:
  "origin_node_precedence_over_affinity now su = do {
     let backends = two_nodes su;
     ensure (snd (select_backend (\<lambda>_. now) backends (Some 1) (Some ''node-a'')) = Some 0)
   }"

definition origin_node_falls_back_when_local_circuit_open :: "nat \<Rightarrow> set_url_path \<Rightarrow> unit option" where [test_defs]:
  "origin_node_falls_back_when_local_circuit_open now su = do {
     let loc = trip now (healthy_on_node su ''http://node-a:8000/v1'' ''node-a'');
     let backends = [loc, healthy_on_node su ''http://node-b:8000/v1'' ''node-b''];
     ensure (snd (select_backend (\<lambda>_. now) backends None (Some ''node-a'')) = Some 1)
   }"

definition unknown_origin_node_uses_affinity_then_chain :: "nat \<Rightarrow> set_url_path \<Rightarrow> unit option" where [test_defs]:
  "unknown_origin_node_uses_affinity_then_chain now su = do {
     let backends = two_nodes su;
     ensure (snd (select_backend (\<lambda>_. now) backends (Some 1) (Some ''odin'')) = Some 1)
   }"

definition excluded_origin_backend_uses_next_candidate :: "nat \<Rightarrow> set_url_path \<Rightarrow> unit option" where [test_defs]:
  "excluded_origin_backend_uses_next_candidate now su = do {
     let backends = two_nodes su;
     ensure (snd (select_backend_excluding (\<lambda>_. now) backends None (Some ''node-a'') [0]) = Some 1)
   }"

definition excluded_preferred_backend_uses_chain :: "nat \<Rightarrow> set_url_path \<Rightarrow> unit option" where [test_defs]:
  "excluded_preferred_backend_uses_chain now su = do {
     let backends =
       [healthy su ''http://a:8000/v1'', healthy su ''http://b:8000/v1'', healthy su ''http://c:8000/v1''];
     ensure (snd (select_backend_excluding (\<lambda>_. now) backends (Some 1) None [1]) = Some 0)
   }"

definition resource_ineligible_origin_backend_uses_peer :: "nat \<Rightarrow> set_url_path \<Rightarrow> unit option" where [test_defs]:
  "resource_ineligible_origin_backend_uses_peer now su = do {
     let backends = two_nodes su;
     ensure (snd (select_backend_excluding_resource (\<lambda>_. now) backends None (Some ''node-a'') [] [0] [])
             = Some 1)
   }"

definition all_resource_ineligible_returns_none :: "nat \<Rightarrow> set_url_path \<Rightarrow> unit option" where [test_defs]:
  "all_resource_ineligible_returns_none now su = do {
     let backends = two_nodes su;
     ensure (snd (select_backend_excluding_resource (\<lambda>_. now) backends None (Some ''node-a'') [] [0, 1] [])
             = None)
   }"

definition lower_load_backend_wins_among_remaining_candidates :: "nat \<Rightarrow> set_url_path \<Rightarrow> unit option" where [test_defs]:
  "lower_load_backend_wins_among_remaining_candidates now su = do {
     let backends = two_nodes su;
     let ranks =
       [Some \<lparr>rk_current_load = Some (Num 0.8), rk_available_vram_mb = 60000\<rparr>,
        Some \<lparr>rk_current_load = Some (Num 0.2), rk_available_vram_mb = 20000\<rparr>];
     ensure (snd (select_backend_excluding_resource (\<lambda>_. now) backends None None [] [] ranks) = Some 1)
   }"

definition higher_headroom_breaks_equal_load_tie :: "nat \<Rightarrow> set_url_path \<Rightarrow> unit option" where [test_defs]:
  "higher_headroom_breaks_equal_load_tie now su = do {
     let backends = two_nodes su;
     let ranks =
       [Some \<lparr>rk_current_load = Some (Num 0.2), rk_available_vram_mb = 20000\<rparr>,
        Some \<lparr>rk_current_load = Some (Num 0.2), rk_available_vram_mb = 60000\<rparr>];
     ensure (snd (select_backend_excluding_resource (\<lambda>_. now) backends None None [] [] ranks) = Some 1)
   }"

definition origin_node_precedence_over_load_ranking :: "nat \<Rightarrow> set_url_path \<Rightarrow> unit option" where [test_defs]:
  "origin_node_precedence_over_load_ranking now su = do {
     let backends = two_nodes su;
     let ranks =
       [Some \<lparr>rk_current_load = Some (Num 0.8), rk_available_vram_mb = 20000\<rparr>,
        Some \<lparr>rk_current_load = Some (Num 0.1), rk_available_vram_mb = 60000\<rparr>];
     ensure (snd (select_backend_excluding_resource (\<lambda>_. now) backends None (Some ''node-a'') [] [] ranks)
             = Some 0)
   }"

definition affinity_precedence_over_load_ranking :: "nat \<Rightarrow> set_url_path \<Rightarrow> unit option" where [test_defs]:
  "affinity_precedence_over_load_ranking now su = do {
     let backends = two_nodes su;
     let ranks =
       [Some \<lparr>rk_current_load = Some (Num 0.1), rk_available_vram_mb = 60000\<rparr>,
        Some \<lparr>rk_current_load = Some (Num 0.8), rk_available_vram_mb = 20000\<rparr>];
     ensure (snd (select_backend_excluding_resource (\<lambda>_. now) backends (Some 1) None [] [] ranks) = Some 1)
   }"

lemma selection_tests_pass:
  "passes (empty_backends_returns_none now)"
  "passes (all_circuits_open_returns_none now su)"
  "passes (returns_first_healthy_backend now su)"
  "passes (skips_open_circuits_in_chain now su)"
  "passes (preferred_used_when_available now su)"
  "passes (falls_back_when_preferred_circuit_open now su)"
  "passes (preferred_at_index_zero_falls_back_when_open now su)"
  "passes (preferred_out_of_bounds_uses_chain now su)"
  "passes (origin_node_preferred_when_available now su)"
  "passes (origin_node_precedence_over_affinity now su)"
  "passes (origin_node_falls_back_when_local_circuit_open now su)"
  "passes (unknown_origin_node_uses_affinity_then_chain now su)"
  "passes (excluded_origin_backend_uses_next_candidate now su)"
  "passes (excluded_preferred_backend_uses_chain now su)"
  "passes (resource_ineligible_origin_backend_uses_peer now su)"
  "passes (all_resource_ineligible_returns_none now su)"
  "passes (lower_load_backend_wins_among_remaining_candidates now su)"
  "passes (higher_headroom_breaks_equal_load_tie now su)"
  "passes (origin_node_precedence_over_load_ranking now su)"
  "passes (affinity_precedence_over_load_ranking now su)"
  by (simp_all add: test_defs circuit_eval thresholds selection_eval)


section \<open>Backend states\<close>

text \<open>The configuration most of the tests share, with a health path.\<close>

definition node_a :: "workload_kind list \<Rightarrow> string option \<Rightarrow> backend_config" where [test_defs]:
  "node_a workloads health_path =
     \<lparr>bc_id = ''node-a-vllm'', bc_url = ''http://node-a:8000/v1'', bc_node_id = Some ''node-a'',
      bc_pool = ''local-llm'', bc_workloads = workloads, bc_health_path = health_path\<rparr>"

definition from_config_preserves_node_aware_metadata :: "set_url_path \<Rightarrow> unit option" where [test_defs]:
  "from_config_preserves_node_aware_metadata su = do {
     let backend = from_config su (node_a [ChatCompletions] None) 3 (from_secs 30);
     ensure (bk_id backend = ''node-a-vllm'');
     ensure (bk_url backend = ''http://node-a:8000/v1'');
     ensure (bk_node_id backend = Some ''node-a'');
     ensure (bk_pool backend = ''local-llm'');
     ensure (bk_workloads backend = [ChatCompletions]);
     ensure (bk_health_url backend = ''http://node-a:8000/v1/models'')
   }"

definition legacy_constructor_uses_default_metadata :: "set_url_path \<Rightarrow> unit option" where [test_defs]:
  "legacy_constructor_uses_default_metadata su = do {
     let backend = backend_new su ''http://node-a:8000/v1'' 3 (from_secs 30);
     ensure (bk_id backend = ''backend-0'');
     ensure (bk_node_id backend = None);
     ensure (bk_pool backend = DEFAULT_BACKEND_POOL);
     ensure (bk_workloads backend = default_proxy_workloads);
     ensure (bk_health_url backend = ''http://node-a:8000/v1/models'')
   }"

definition configured_absolute_health_path_uses_backend_origin :: "set_url_path \<Rightarrow> unit option" where [test_defs]:
  "configured_absolute_health_path_uses_backend_origin su = do {
     let backend = from_config su (node_a default_proxy_workloads (Some ''/health'')) 3 (from_secs 30);
     ensure (bk_health_url backend = ''http://node-a:8000/health'')
   }"

definition configured_relative_health_path_uses_backend_base_url :: "set_url_path \<Rightarrow> unit option" where [test_defs]:
  "configured_relative_health_path_uses_backend_base_url su = do {
     let backend = from_config su (node_a default_proxy_workloads (Some ''ready'')) 3 (from_secs 30);
     ensure (bk_health_url backend = ''http://node-a:8000/v1/ready'')
   }"

definition configured_health_url_can_be_absolute :: "set_url_path \<Rightarrow> unit option" where [test_defs]:
  "configured_health_url_can_be_absolute su = do {
     let backend =
       from_config su (node_a default_proxy_workloads (Some ''http://node-a:9000/ready'')) 3 (from_secs 30);
     ensure (bk_health_url backend = ''http://node-a:9000/ready'')
   }"

text \<open>The one test that calls the URL library has what the library answers as its hypothesis.\<close>

lemma backend_tests_pass:
  "passes (from_config_preserves_node_aware_metadata su)"
  "passes (legacy_constructor_uses_default_metadata su)"
  "su ''http://node-a:8000/v1'' ''/health'' = Some ''http://node-a:8000/health'' \<Longrightarrow>
     passes (configured_absolute_health_path_uses_backend_origin su)"
  "passes (configured_relative_health_path_uses_backend_base_url su)"
  "passes (configured_health_url_can_be_absolute su)"
  by (simp_all add: test_defs backend_eval char_digits)

section \<open>Priority limiter\<close>

text \<open>The tests hold or drop a permit; the semaphore is one that counts.\<close>

definition limit_blocks_when_priority_bucket_full :: "unit option" where [test_defs]:
  "limit_blocks_when_priority_bucket_full = do {
     let limiter = limiter_new ex_sem 1 1 1;
     limiter \<leftarrow> try_acquire ex_sem Realtime limiter;
     ensure (try_acquire ex_sem Realtime limiter = None)
   }"

definition dropping_permit_releases_capacity :: "unit option" where [test_defs]:
  "dropping_permit_releases_capacity = do {
     let limiter = limiter_new ex_sem 1 1 1;
     limiter \<leftarrow> try_acquire ex_sem Batch limiter;
     ensure (try_acquire ex_sem Batch limiter = None);
     let limiter = drop_permit ex_sem Batch limiter;
     ensure (try_acquire ex_sem Batch limiter \<noteq> None)
   }"

definition priority_buckets_are_independent :: "unit option" where [test_defs]:
  "priority_buckets_are_independent = do {
     let limiter = limiter_new ex_sem 1 1 1;
     limiter \<leftarrow> try_acquire ex_sem Realtime limiter;
     ensure (try_acquire ex_sem Batch limiter \<noteq> None);
     ensure (try_acquire ex_sem Background limiter \<noteq> None)
   }"

lemma priority_tests_pass:
  "passes limit_blocks_when_priority_bucket_full"
  "passes dropping_permit_releases_capacity"
  "passes priority_buckets_are_independent"
  by (simp_all add: test_defs limiter_eval)

section \<open>Errors\<close>

definition no_backend_maps_to_503 :: "unit option" where [test_defs]:
  "no_backend_maps_to_503 = ensure (fst (error_response No_Backend) = 503)"

definition no_worker_maps_to_400 :: "unit option" where [test_defs]:
  "no_worker_maps_to_400 = ensure (fst (error_response (No_Worker ''vision_analysis'')) = 400)"

definition backend_error_maps_to_502 :: "unit option" where [test_defs]:
  "backend_error_maps_to_502 = ensure (fst (error_response (Backend_Error ''connection refused'')) = 502)"

definition config_error_maps_to_500 :: "unit option" where [test_defs]:
  "config_error_maps_to_500 = ensure (fst (error_response (Config_Error ''missing key'')) = 500)"

definition error_message_appears_in_body :: "unit option" where [test_defs]:
  "error_message_appears_in_body = ensure (contains (snd (error_response (No_Worker ''embed_batch''))) ''embed_batch'')"

lemma error_tests_pass:
  "passes no_backend_maps_to_503" "passes no_worker_maps_to_400" "passes backend_error_maps_to_502"
  "passes config_error_maps_to_500" "passes error_message_appears_in_body"
  by (simp_all add: test_defs error_response_def starts_with_def quoted_def)

end
