(* ===== verification/Json.thy ===== *)
theory Json
  imports Prelude "HOL-Library.Monad_Syntax"
begin

text \<open>
  JSON values, and what the derived \<open>Deserialize\<close> of a type accepts. A value is what the parser of
  \<open>serde_json\<close> makes of a text: a number is an integer or has a fraction or an exponent, an object
  keeps the order of its keys. A decoder is \<open>None\<close> where \<open>serde\<close> reports an error; the messages are
  the library's. The field decoders are the attributes that the types of the program carry:
  a required field, an \<open>Option\<close>, and \<open>#[serde(default)]\<close> with its value.
\<close>

datatype json =
    J_Null
  | J_Bool bool
  | J_Int int
  | J_Float rat
  | J_String string
  | J_Array "json list"
  | J_Object "(string \<times> json) list"

type_synonym 'a decoder = "json \<Rightarrow> 'a option"

section \<open>Values\<close>

fun json_string :: "string decoder" where
  "json_string (J_String s) = Some s"
| "json_string _ = None"

fun json_bool :: "bool decoder" where
  "json_bool (J_Bool b) = Some b"
| "json_bool _ = None"

text \<open>An unsigned integer below a bound. A number with a fraction is refused, whatever its value.\<close>

fun json_uint :: "nat \<Rightarrow> nat decoder" where
  "json_uint bound (J_Int n) = (if 0 \<le> n \<and> nat n < bound then Some (nat n) else None)"
| "json_uint bound _ = None"

fun json_number :: "rat decoder" where
  "json_number (J_Int n) = Some (of_int n)"
| "json_number (J_Float q) = Some q"
| "json_number _ = None"

fun json_option :: "'a decoder \<Rightarrow> 'a option decoder" where
  "json_option d J_Null = Some None"
| "json_option d v = map_option Some (d v)"

fun json_list :: "'a decoder \<Rightarrow> 'a list decoder" where
  "json_list d (J_Array vs) = those (map d vs)"
| "json_list d _ = None"

text \<open>A variant without data, by its name or as an object with its name as the one key.\<close>

fun json_variant :: "(string \<times> 'a) list \<Rightarrow> 'a decoder" where
  "json_variant names (J_String s) = map_of names s"
| "json_variant names (J_Object [(s, J_Null)]) = map_of names s"
| "json_variant names _ = None"

section \<open>Structs\<close>

text \<open>A struct is read from an object, with keys it does not know ignored and a key it knows at most
  once, or from an array with the fields in their order.\<close>

datatype struct_source = By_Name "(string \<times> json) list" | By_Position "(string \<times> json) list"

fun source_of :: "string list \<Rightarrow> json \<Rightarrow> struct_source option" where
  "source_of names (J_Object kvs) =
     (if distinct (filter (\<lambda>k. k \<in> set names) (map fst kvs)) then Some (By_Name kvs) else None)"
| "source_of names (J_Array vs) =
     (if length vs \<le> length names then Some (By_Position (zip names vs)) else None)"
| "source_of names _ = None"

fun source_lookup :: "struct_source \<Rightarrow> string \<Rightarrow> json option" where
  "source_lookup (By_Name kvs) k = map_of kvs k"
| "source_lookup (By_Position kvs) k = map_of kvs k"

fun by_name :: "struct_source \<Rightarrow> bool" where
  "by_name (By_Name kvs) = True"
| "by_name (By_Position kvs) = False"

definition required :: "'a decoder \<Rightarrow> struct_source \<Rightarrow> string \<Rightarrow> 'a option" where
  "required d src k = Option.bind (source_lookup src k) d"

text \<open>An \<open>Option\<close> without \<open>default\<close> may be absent from an object only.\<close>

definition optional_field :: "'a decoder \<Rightarrow> struct_source \<Rightarrow> string \<Rightarrow> 'a option option" where
  "optional_field d src k =
     (case source_lookup src k of
        None \<Rightarrow> if by_name src then Some None else None
      | Some v \<Rightarrow> json_option d v)"

definition defaulted :: "'a decoder \<Rightarrow> 'a \<Rightarrow> struct_source \<Rightarrow> string \<Rightarrow> 'a option" where
  "defaulted d dflt src k = (case source_lookup src k of None \<Rightarrow> Some dflt | Some v \<Rightarrow> d v)"

lemmas field_eval = required_def optional_field_def defaulted_def

section \<open>Encoding\<close>

fun encode_option :: "('a \<Rightarrow> json) \<Rightarrow> 'a option \<Rightarrow> json" where
  "encode_option e None = J_Null"
| "encode_option e (Some x) = e x"

definition encode_list :: "('a \<Rightarrow> json) \<Rightarrow> 'a list \<Rightarrow> json" where
  "encode_list e xs = J_Array (map e xs)"

text \<open>\<open>#[serde(skip_serializing_if = "Option::is_none")]\<close>\<close>

definition encode_present :: "string \<Rightarrow> ('a \<Rightarrow> json) \<Rightarrow> 'a option \<Rightarrow> (string \<times> json) list" where
  "encode_present k e x = (case x of None \<Rightarrow> [] | Some y \<Rightarrow> [(k, e y)])"

text \<open>A decoder reads back what an encoder wrote, and an encoded value is never \<open>null\<close>.\<close>

definition reads_back :: "('a \<Rightarrow> json) \<Rightarrow> 'a decoder \<Rightarrow> 'a set \<Rightarrow> bool" where
  "reads_back e d A \<longleftrightarrow> (\<forall>x \<in> A. d (e x) = Some x \<and> e x \<noteq> J_Null)"

lemma reads_backD: "reads_back e d A \<Longrightarrow> x \<in> A \<Longrightarrow> d (e x) = Some x"
  by (simp add: reads_back_def)

lemma json_option_other: "v \<noteq> J_Null \<Longrightarrow> json_option d v = map_option Some (d v)"
  by (cases v) simp_all

lemma option_reads_back:
  assumes "reads_back e d A" "set_option x \<subseteq> A"
  shows "json_option d (encode_option e x) = Some x"
  using assms by (cases x) (auto simp: reads_back_def json_option_other)

lemma those_map_reads_back:
  assumes "\<And>x. x \<in> set xs \<Longrightarrow> d (e x) = Some x"
  shows "those (map (d \<circ> e) xs) = Some xs"
  using assms by (induction xs) simp_all

lemma list_reads_back:
  assumes "reads_back e d A" "set xs \<subseteq> A"
  shows "json_list d (encode_list e xs) = Some xs"
proof -
  have "those (map (d \<circ> e) xs) = Some xs"
    using assms by (intro those_map_reads_back) (auto simp: reads_back_def)
  then show ?thesis by (simp add: encode_list_def)
qed

lemma string_reads_back: "reads_back J_String json_string UNIV"
  by (simp add: reads_back_def)

end
