(* ===== verification/Wire_Types.thy ===== *)
theory Wire_Types
  imports Json Conformance
begin

text \<open>
  The OpenAI-compatible wire types, \<open>src/src/proxy/types.rs\<close>, with the JSON that their derived
  \<open>Serialize\<close> writes and their derived \<open>Deserialize\<close> accepts. An \<open>f32\<close> is a value of any type \<open>'f\<close>
  with the library's writer and reader as the parameter \<open>float_json\<close>.
\<close>

section \<open>Types\<close>

record chat_message =
  cm_role :: string
  cm_content :: string

record chat_completion_request =
  cr_model :: string
  cr_messages :: "chat_message list"
  cr_stream :: bool

record completion_choice =
  cc_index :: "32 word"
  cc_message :: chat_message
  cc_finish_reason :: "string option"

record chat_completion_response =
  cs_id :: string
  cs_object :: string
  cs_model :: string
  cs_choices :: "completion_choice list"

record delta =
  dt_role :: "string option"
  dt_content :: "string option"

record chunk_choice =
  kc_index :: "32 word"
  kc_delta :: delta
  kc_finish_reason :: "string option"

record chat_completion_chunk =
  ck_id :: string
  ck_object :: string
  ck_model :: string
  ck_choices :: "chunk_choice list"

datatype embedding_input = Single string | Multiple "string list"

record embedding_request =
  er_model :: string
  er_input :: embedding_input

record 'f embedding_data =
  ed_object :: string
  ed_index :: "32 word"
  ed_embedding :: "'f list"

record 'f embedding_response =
  es_object :: string
  es_data :: "'f embedding_data list"
  es_model :: string

record 'f float_json =
  fj_write :: "'f \<Rightarrow> json"
  fj_read :: "json \<Rightarrow> 'f option"

section \<open>Serialisation\<close>

definition encode_u32 :: "32 word \<Rightarrow> json" where
  "encode_u32 w = J_Int (uint w)"

definition encode_message :: "chat_message \<Rightarrow> json" where
  "encode_message m = J_Object [(''role'', J_String (cm_role m)), (''content'', J_String (cm_content m))]"

definition encode_chat_request :: "chat_completion_request \<Rightarrow> json" where
  "encode_chat_request r =
     J_Object [(''model'', J_String (cr_model r)), (''messages'', encode_list encode_message (cr_messages r)),
       (''stream'', J_Bool (cr_stream r))]"

definition encode_choice :: "completion_choice \<Rightarrow> json" where
  "encode_choice c =
     J_Object [(''index'', encode_u32 (cc_index c)), (''message'', encode_message (cc_message c)),
       (''finish_reason'', encode_option J_String (cc_finish_reason c))]"

definition encode_chat_response :: "chat_completion_response \<Rightarrow> json" where
  "encode_chat_response r =
     J_Object [(''id'', J_String (cs_id r)), (''object'', J_String (cs_object r)),
       (''model'', J_String (cs_model r)), (''choices'', encode_list encode_choice (cs_choices r))]"

definition encode_delta :: "delta \<Rightarrow> json" where
  "encode_delta d =
     J_Object (encode_present ''role'' J_String (dt_role d) @ encode_present ''content'' J_String (dt_content d))"

definition encode_chunk_choice :: "chunk_choice \<Rightarrow> json" where
  "encode_chunk_choice c =
     J_Object [(''index'', encode_u32 (kc_index c)), (''delta'', encode_delta (kc_delta c)),
       (''finish_reason'', encode_option J_String (kc_finish_reason c))]"

definition encode_chunk :: "chat_completion_chunk \<Rightarrow> json" where
  "encode_chunk c =
     J_Object [(''id'', J_String (ck_id c)), (''object'', J_String (ck_object c)),
       (''model'', J_String (ck_model c)), (''choices'', encode_list encode_chunk_choice (ck_choices c))]"

fun encode_input :: "embedding_input \<Rightarrow> json" where
  "encode_input (Single s) = J_String s"
| "encode_input (Multiple ss) = encode_list J_String ss"

definition encode_embedding_request :: "embedding_request \<Rightarrow> json" where
  "encode_embedding_request r = J_Object [(''model'', J_String (er_model r)), (''input'', encode_input (er_input r))]"

definition encode_embedding_data :: "'f float_json \<Rightarrow> 'f embedding_data \<Rightarrow> json" where
  "encode_embedding_data fj d =
     J_Object [(''object'', J_String (ed_object d)), (''index'', encode_u32 (ed_index d)),
       (''embedding'', encode_list (fj_write fj) (ed_embedding d))]"

definition encode_embedding_response :: "'f float_json \<Rightarrow> 'f embedding_response \<Rightarrow> json" where
  "encode_embedding_response fj r =
     J_Object [(''object'', J_String (es_object r)), (''data'', encode_list (encode_embedding_data fj) (es_data r)),
       (''model'', J_String (es_model r))]"

section \<open>Deserialisation\<close>

definition decode_u32 :: "(32 word) decoder" where
  "decode_u32 v = map_option word_of_nat (json_uint (2 ^ 32) v)"

definition decode_message :: "chat_message decoder" where
  "decode_message v = do {
     src \<leftarrow> source_of [''role'', ''content''] v;
     role \<leftarrow> required json_string src ''role'';
     content \<leftarrow> required json_string src ''content'';
     Some \<lparr>cm_role = role, cm_content = content\<rparr>
   }"

definition decode_chat_request :: "chat_completion_request decoder" where
  "decode_chat_request v = do {
     src \<leftarrow> source_of [''model'', ''messages'', ''stream''] v;
     model \<leftarrow> required json_string src ''model'';
     messages \<leftarrow> required (json_list decode_message) src ''messages'';
     stream \<leftarrow> defaulted json_bool False src ''stream'';
     Some \<lparr>cr_model = model, cr_messages = messages, cr_stream = stream\<rparr>
   }"

definition decode_choice :: "completion_choice decoder" where
  "decode_choice v = do {
     src \<leftarrow> source_of [''index'', ''message'', ''finish_reason''] v;
     index \<leftarrow> required decode_u32 src ''index'';
     msg \<leftarrow> required decode_message src ''message'';
     reason \<leftarrow> optional_field json_string src ''finish_reason'';
     Some \<lparr>cc_index = index, cc_message = msg, cc_finish_reason = reason\<rparr>
   }"

definition decode_chat_response :: "chat_completion_response decoder" where
  "decode_chat_response v = do {
     src \<leftarrow> source_of [''id'', ''object'', ''model'', ''choices''] v;
     i \<leftarrow> required json_string src ''id'';
     obj \<leftarrow> required json_string src ''object'';
     model \<leftarrow> required json_string src ''model'';
     choices \<leftarrow> required (json_list decode_choice) src ''choices'';
     Some \<lparr>cs_id = i, cs_object = obj, cs_model = model, cs_choices = choices\<rparr>
   }"

definition decode_delta :: "delta decoder" where
  "decode_delta v = do {
     src \<leftarrow> source_of [''role'', ''content''] v;
     role \<leftarrow> optional_field json_string src ''role'';
     content \<leftarrow> optional_field json_string src ''content'';
     Some \<lparr>dt_role = role, dt_content = content\<rparr>
   }"

definition decode_chunk_choice :: "chunk_choice decoder" where
  "decode_chunk_choice v = do {
     src \<leftarrow> source_of [''index'', ''delta'', ''finish_reason''] v;
     index \<leftarrow> required decode_u32 src ''index'';
     d \<leftarrow> required decode_delta src ''delta'';
     reason \<leftarrow> optional_field json_string src ''finish_reason'';
     Some \<lparr>kc_index = index, kc_delta = d, kc_finish_reason = reason\<rparr>
   }"

definition decode_chunk :: "chat_completion_chunk decoder" where
  "decode_chunk v = do {
     src \<leftarrow> source_of [''id'', ''object'', ''model'', ''choices''] v;
     i \<leftarrow> required json_string src ''id'';
     obj \<leftarrow> required json_string src ''object'';
     model \<leftarrow> required json_string src ''model'';
     choices \<leftarrow> required (json_list decode_chunk_choice) src ''choices'';
     Some \<lparr>ck_id = i, ck_object = obj, ck_model = model, ck_choices = choices\<rparr>
   }"

text \<open>An untagged enum: the first variant that fits.\<close>

definition decode_input :: "embedding_input decoder" where
  "decode_input v =
     (case json_string v of
        Some s \<Rightarrow> Some (Single s)
      | None \<Rightarrow> map_option Multiple (json_list json_string v))"

definition decode_embedding_request :: "embedding_request decoder" where
  "decode_embedding_request v = do {
     src \<leftarrow> source_of [''model'', ''input''] v;
     model \<leftarrow> required json_string src ''model'';
     input \<leftarrow> required decode_input src ''input'';
     Some \<lparr>er_model = model, er_input = input\<rparr>
   }"

definition decode_embedding_data :: "'f float_json \<Rightarrow> 'f embedding_data decoder" where
  "decode_embedding_data fj v = do {
     src \<leftarrow> source_of [''object'', ''index'', ''embedding''] v;
     obj \<leftarrow> required json_string src ''object'';
     index \<leftarrow> required decode_u32 src ''index'';
     xs \<leftarrow> required (json_list (fj_read fj)) src ''embedding'';
     Some \<lparr>ed_object = obj, ed_index = index, ed_embedding = xs\<rparr>
   }"

definition decode_embedding_response :: "'f float_json \<Rightarrow> 'f embedding_response decoder" where
  "decode_embedding_response fj v = do {
     src \<leftarrow> source_of [''object'', ''data'', ''model''] v;
     obj \<leftarrow> required json_string src ''object'';
     ds \<leftarrow> required (json_list (decode_embedding_data fj)) src ''data'';
     model \<leftarrow> required json_string src ''model'';
     Some \<lparr>es_object = obj, es_data = ds, es_model = model\<rparr>
   }"

section \<open>Round trips\<close>

lemma u32_reads_back [simp]: "decode_u32 (encode_u32 w) = Some w"
proof -
  have u: "encode_u32 w = J_Int (int (unat w))" by (simp add: encode_u32_def)
  have "unat w < 2 ^ 32" using unsigned_less [of w] by simp
  then have "json_uint (2 ^ 32) (J_Int (int (unat w))) = Some (unat w)" by (simp only: json_uint.simps nat_int of_nat_0_le_iff if_True simp_thms)
  then show ?thesis unfolding decode_u32_def u by simp
qed

lemma message_reads_back: "reads_back encode_message decode_message UNIV"
  by (simp add: reads_back_def encode_message_def decode_message_def field_eval)

lemma chat_request_roundtrip: "decode_chat_request (encode_chat_request r) = Some r"
  by (simp add: encode_chat_request_def decode_chat_request_def field_eval list_reads_back [OF message_reads_back])

lemma choice_reads_back: "reads_back encode_choice decode_choice UNIV"
  by (simp add: reads_back_def encode_choice_def decode_choice_def field_eval
      reads_backD [OF message_reads_back] option_reads_back [OF string_reads_back])

lemma chat_response_roundtrip: "decode_chat_response (encode_chat_response r) = Some r"
  by (simp add: encode_chat_response_def decode_chat_response_def field_eval list_reads_back [OF choice_reads_back])

lemma delta_reads_back: "reads_back encode_delta decode_delta UNIV"
  by (auto simp: reads_back_def encode_delta_def decode_delta_def encode_present_def field_eval split: option.splits)

lemma chunk_choice_reads_back: "reads_back encode_chunk_choice decode_chunk_choice UNIV"
  by (simp add: reads_back_def encode_chunk_choice_def decode_chunk_choice_def field_eval
      reads_backD [OF delta_reads_back] option_reads_back [OF string_reads_back])

lemma chunk_roundtrip: "decode_chunk (encode_chunk c) = Some c"
  by (simp add: encode_chunk_def decode_chunk_def field_eval list_reads_back [OF chunk_choice_reads_back])

lemma embedding_request_roundtrip: "decode_embedding_request (encode_embedding_request r) = Some r"
proof -
  have "decode_input (encode_input i) = Some i" for i
    using list_reads_back [OF string_reads_back] by (cases i) (simp_all add: decode_input_def encode_list_def)
  then show ?thesis by (simp add: encode_embedding_request_def decode_embedding_request_def field_eval)
qed

lemma embedding_response_roundtrip:
  assumes "\<And>d. d \<in> set (es_data r) \<Longrightarrow> reads_back (fj_write fj) (fj_read fj) (set (ed_embedding d))"
  shows "decode_embedding_response fj (encode_embedding_response fj r) = Some r"
proof -
  have "reads_back (encode_embedding_data fj) (decode_embedding_data fj) (set (es_data r))"
    unfolding reads_back_def [of _ _ "set (es_data r)"]
  proof (intro ballI conjI)
    fix d assume "d \<in> set (es_data r)"
    then have "json_list (fj_read fj) (encode_list (fj_write fj) (ed_embedding d)) = Some (ed_embedding d)"
      by (rule list_reads_back [OF assms order_refl])
    then show "decode_embedding_data fj (encode_embedding_data fj d) = Some d"
      by (simp add: encode_embedding_data_def decode_embedding_data_def field_eval)
  qed (simp add: encode_embedding_data_def)
  then show ?thesis
    by (simp add: encode_embedding_response_def decode_embedding_response_def field_eval list_reads_back)
qed


section \<open>The unit tests\<close>

text \<open>The JSON texts of the tests stand as the values they are parsed to.\<close>

definition chat_request_stream_defaults_false :: "unit option" where [test_defs]:
  "chat_request_stream_defaults_false = do {
     let v = J_Object [(''model'', J_String ''m''),
       (''messages'', J_Array [J_Object [(''role'', J_String ''user''), (''content'', J_String ''hi'')]])];
     req \<leftarrow> decode_chat_request v;
     ensure (\<not> cr_stream req)
   }"

definition chat_request_stream_true :: "unit option" where [test_defs]:
  "chat_request_stream_true = do {
     let v = J_Object [(''model'', J_String ''m''), (''messages'', J_Array []), (''stream'', J_Bool True)];
     req \<leftarrow> decode_chat_request v;
     ensure (cr_stream req)
   }"

definition embedding_input_single :: "unit option" where [test_defs]:
  "embedding_input_single = do {
     let v = J_Object [(''model'', J_String ''m''), (''input'', J_String ''hello'')];
     req \<leftarrow> decode_embedding_request v;
     ensure (case er_input req of Single _ \<Rightarrow> True | Multiple _ \<Rightarrow> False)
   }"

definition embedding_input_multiple :: "unit option" where [test_defs]:
  "embedding_input_multiple = do {
     let v = J_Object [(''model'', J_String ''m''), (''input'', J_Array [J_String ''a'', J_String ''b''])];
     req \<leftarrow> decode_embedding_request v;
     ensure (case er_input req of Single _ \<Rightarrow> False | Multiple _ \<Rightarrow> True)
   }"

text \<open>Whether a key stands in the serialised object.\<close>

definition has_key :: "string \<Rightarrow> json \<Rightarrow> bool" where [test_defs]:
  "has_key k v = (case v of J_Object kvs \<Rightarrow> k \<in> set (map fst kvs) | _ \<Rightarrow> False)"

definition delta_skips_none_fields_in_serialization :: "unit option" where [test_defs]:
  "delta_skips_none_fields_in_serialization = do {
     let v = encode_delta \<lparr>dt_role = None, dt_content = Some ''hi''\<rparr>;
     ensure (\<not> has_key ''role'' v);
     ensure (has_key ''content'' v)
   }"

definition chat_completion_response_roundtrip :: "unit option" where [test_defs]:
  "chat_completion_response_roundtrip = do {
     let resp =
       \<lparr>cs_id = ''chatcmpl-1'', cs_object = ''chat.completion'', cs_model = ''gpt-4'',
        cs_choices =
          [\<lparr>cc_index = 0, cc_message = \<lparr>cm_role = ''assistant'', cm_content = ''Hello!''\<rparr>,
            cc_finish_reason = Some ''stop''\<rparr>]\<rparr>;
     parsed \<leftarrow> decode_chat_response (encode_chat_response resp);
     choice \<leftarrow> get_at (cs_choices parsed) 0;
     ensure (cm_content (cc_message choice) = ''Hello!'')
   }"

lemma wire_tests_pass:
  "passes chat_request_stream_defaults_false" "passes chat_request_stream_true"
  "passes embedding_input_single" "passes embedding_input_multiple"
  "passes delta_skips_none_fields_in_serialization" "passes chat_completion_response_roundtrip"
  by (simp_all add: test_defs decode_chat_request_def decode_message_def decode_embedding_request_def
      decode_input_def encode_delta_def encode_present_def field_eval chat_response_roundtrip get_at_def)

end
