(* ===== verification/Request_Bodies.thy ===== *)
theory Request_Bodies
  imports Json Http
begin

text \<open>
  The JSON bodies of the API: what the derived \<open>Deserialize\<close> of the request types of
  \<open>src/src/jobs.rs\<close>, \<open>src/src/workers.rs\<close> and \<open>src/src/resources.rs\<close> accepts, with the attributes
  of their fields, and of the JSON that \<open>src/src/config.rs\<close> reads. \<open>json_bodies\<close> is the documented behaviour of axum's
  \<open>Json\<close> extractor that connects them with the extractors of the theory \<open>Http\<close>.
\<close>

section \<open>Enumerations\<close>

definition decode_kind :: "job_kind decoder" where
  "decode_kind = json_variant
     [(''vision_analysis'', VisionAnalysis), (''embed_batch'', EmbedBatch), (''index_build'', IndexBuild),
      (''cluster'', Cluster)]"

definition decode_priority :: "priority decoder" where
  "decode_priority = json_variant [(''realtime'', Realtime), (''batch'', Batch), (''background'', Background)]"

definition decode_workload :: "workload_kind decoder" where
  "decode_workload = json_variant [(''chat_completions'', ChatCompletions), (''embeddings'', Embeddings)]"

text \<open>The names are those of \<open>as_str\<close>.\<close>

lemma decode_as_str [simp]:
  "decode_kind (J_String (kind_as_str k)) = Some k"
  "decode_priority (J_String (priority_as_str p)) = Some p"
  "decode_workload (J_String (workload_as_str w)) = Some w"
proof -
  show "decode_kind (J_String (kind_as_str k)) = Some k" by (cases k) (simp_all add: decode_kind_def)
  show "decode_priority (J_String (priority_as_str p)) = Some p" by (cases p) (simp_all add: decode_priority_def)
  show "decode_workload (J_String (workload_as_str w)) = Some w" by (cases w) (simp_all add: decode_workload_def)
qed

section \<open>Requests\<close>

definition decode_submit :: "json submit_job_request decoder" where
  "decode_submit v = do {
     src \<leftarrow> source_of [''type'', ''priority'', ''payload'', ''callback_url'', ''idempotency_key''] v;
     kind \<leftarrow> required decode_kind src ''type'';
     prio \<leftarrow> defaulted decode_priority priority_default src ''priority'';
     body \<leftarrow> defaulted Some J_Null src ''payload'';
     url \<leftarrow> defaulted (json_option json_string) None src ''callback_url'';
     key \<leftarrow> defaulted (json_option json_string) None src ''idempotency_key'';
     Some \<lparr>req_kind = kind, req_priority = prio, req_payload = body, req_callback_url = url,
           req_idempotency_key = key\<rparr>
   }"

definition decode_complete :: "(json \<times> nat option) decoder" where
  "decode_complete v = do {
     src \<leftarrow> source_of [''result'', ''attempt''] v;
     result \<leftarrow> defaulted Some J_Null src ''result'';
     att \<leftarrow> defaulted (json_option (json_uint (2 ^ 32))) None src ''attempt'';
     Some (result, att)
   }"

definition default_retryable_failure :: bool where
  "default_retryable_failure = True"

definition decode_fail :: "(string \<times> bool \<times> nat option) decoder" where
  "decode_fail v = do {
     src \<leftarrow> source_of [''error'', ''retryable'', ''attempt''] v;
     err \<leftarrow> required json_string src ''error'';
     retry \<leftarrow> defaulted json_bool default_retryable_failure src ''retryable'';
     att \<leftarrow> defaulted (json_option (json_uint (2 ^ 32))) None src ''attempt'';
     Some (err, retry, att)
   }"

definition decode_register :: "register_worker_request decoder" where
  "decode_register v = do {
     src \<leftarrow> source_of [''id'', ''endpoint_url'', ''node_id'', ''pool'', ''job_types'', ''max_concurrent_jobs'',
       ''available_vram_mb''] v;
     i \<leftarrow> required json_string src ''id'';
     url \<leftarrow> required json_string src ''endpoint_url'';
     node \<leftarrow> defaulted (json_option json_string) None src ''node_id'';
     pool \<leftarrow> defaulted json_string default_worker_pool src ''pool'';
     kinds \<leftarrow> required (json_list decode_kind) src ''job_types'';
     slots \<leftarrow> defaulted (json_option (json_uint (2 ^ 64))) None src ''max_concurrent_jobs'';
     vram \<leftarrow> defaulted (json_option (json_uint (2 ^ 64))) None src ''available_vram_mb'';
     Some \<lparr>rw_id = i, rw_endpoint_url = url, rw_node_id = node, rw_pool = pool, rw_job_types = kinds,
           rw_max_concurrent_jobs = slots, rw_available_vram_mb = vram\<rparr>
   }"

definition decode_report :: "resource_report_request decoder" where
  "decode_report v = do {
     src \<leftarrow> source_of [''node_id'', ''backend_id'', ''total_vram_mb'', ''reserved_vram_mb'', ''current_load''] v;
     node \<leftarrow> required json_string src ''node_id'';
     backend \<leftarrow> defaulted (json_option json_string) None src ''backend_id'';
     total \<leftarrow> required (json_uint (2 ^ 64)) src ''total_vram_mb'';
     reserved \<leftarrow> required (json_uint (2 ^ 64)) src ''reserved_vram_mb'';
     load \<leftarrow> defaulted (json_option (\<lambda>v. map_option Num (json_number v))) None src ''current_load'';
     Some \<lparr>rq_node_id = node, rq_backend_id = backend, rq_total_vram_mb = total,
           rq_reserved_vram_mb = reserved, rq_current_load = load\<rparr>
   }"

section \<open>The extractor\<close>

text \<open>
  \<open>Json\<close> on a request with the content type of JSON: 400 for a text that is no JSON, 422 for JSON that does
  not fit the type, else the decoded body. \<open>parse\<close> is the parser of \<open>serde_json\<close>, which refuses nesting
  of 128 levels, and \<open>text_of\<close> a writer of JSON whose texts it reads.
\<close>

definition extracted :: "'a decoder \<Rightarrow> json option \<Rightarrow> ((nat \<times> string) + 'a) \<Rightarrow> bool" where
  "extracted d parsed answer \<longleftrightarrow>
     (case parsed of
        None \<Rightarrow> (case answer of Inl (status, msg) \<Rightarrow> status = 400 | Inr x \<Rightarrow> False)
      | Some v \<Rightarrow>
          (case d v of
             None \<Rightarrow> (case answer of Inl (status, msg) \<Rightarrow> status = 422 | Inr x \<Rightarrow> False)
           | Some x \<Rightarrow> answer = Inr x))"

definition json_bodies :: "(string \<Rightarrow> json option) \<Rightarrow> header_map \<Rightarrow> json http_lib \<Rightarrow> bool" where
  "json_bodies parse headers lib \<longleftrightarrow>
     (\<forall>body. extracted decode_submit (parse body) (hl_submit lib headers body) \<and>
       extracted decode_complete (parse body) (hl_complete lib headers body) \<and>
       extracted decode_fail (parse body) (hl_fail lib headers body) \<and>
       extracted decode_register (parse body) (hl_register lib headers body) \<and>
       extracted decode_report (parse body) (hl_report lib headers body))"

fun json_depth :: "json \<Rightarrow> nat" where
  "json_depth (J_Array vs) = Suc (foldr (max \<circ> json_depth) vs 0)"
| "json_depth (J_Object kvs) = Suc (foldr (max \<circ> json_depth \<circ> snd) kvs 0)"
| "json_depth _ = 0"

definition reads_texts :: "(string \<Rightarrow> json option) \<Rightarrow> (json \<Rightarrow> string) \<Rightarrow> bool" where
  "reads_texts parse text_of \<longleftrightarrow> (\<forall>v. json_depth v < 128 \<longrightarrow> parse (text_of v) = Some v)"

lemma extracted_Some: "extracted d (Some v) answer \<Longrightarrow> d v = Some x \<Longrightarrow> answer = Inr x"
  by (simp add: extracted_def)

lemma extracted_None: "extracted d (Some v) answer \<Longrightarrow> d v = None \<Longrightarrow> \<exists>msg. answer = Inl (422, msg)"
  by (auto simp: extracted_def split: sum.splits)

end
