(* ===== verification/Test_App.thy ===== *)
theory Test_App
  imports Conformance Request_Bodies Http_Props
begin

text \<open>
  The application the HTTP tests of the repository drive: \<open>build_router(test_state(..))\<close> and requests
  to it, answered one after the other by \<open>serve\<close>. A \<open>test_world\<close> is what stands outside the program
  while a test runs: the HTTP library, a writer of JSON, the clocks, the stores. The clocks stand still
  unless the test sleeps.
\<close>

section \<open>The world of a test\<close>

record test_world =
  tw_env :: "(json, nat) http_env"
  tw_text :: "json \<Rightarrow> string"
  tw_now :: nat
  tw_clock :: clock
  tw_db :: "(json, job_db) persist"

definition json_headers :: header_map where
  "json_headers = [''content-type'' \<mapsto> ''application/json'']"

text \<open>A router, extractors and a parser of JSON that behave as documented.\<close>

definition world_ok :: "(string \<Rightarrow> json option) \<Rightarrow> test_world \<Rightarrow> bool" where
  "world_ok parse w \<longleftrightarrow>
     router_ok (hl_router (he_lib (tw_env w))) \<and> percent_ok (hl_percent (he_lib (tw_env w))) \<and>
     json_bodies parse json_headers (he_lib (tw_env w)) \<and> reads_texts parse (tw_text w)"

definition sleep_ms :: "nat \<Rightarrow> test_world \<Rightarrow> test_world" where
  "sleep_ms ms w =
     w\<lparr>tw_now := tw_now w + ms,
       tw_clock := \<lparr>wall = wall (tw_clock w) + int (ms * 10 ^ 6), mono = mono (tw_clock w) + ms * 10 ^ 6\<rparr>\<rparr>"

lemma sleep_ms_simps:
  "tw_env (sleep_ms ms w) = tw_env w" "tw_text (sleep_ms ms w) = tw_text w" "tw_db (sleep_ms ms w) = tw_db w"
  "tw_now (sleep_ms ms w) = tw_now w + ms"
  "wall (tw_clock (sleep_ms ms w)) = wall (tw_clock w) + int (ms * 10 ^ 6)"
  "mono (tw_clock (sleep_ms ms w)) = mono (tw_clock w) + ms * 10 ^ 6"
  by (simp_all add: sleep_ms_def)

lemma world_ok_sleep: "world_ok parse w \<Longrightarrow> world_ok parse (sleep_ms ms w)"
  by (simp add: world_ok_def sleep_ms_simps)

definition world_env :: "test_world \<Rightarrow> (json, nat) http_env" where
  "world_env w =
     (tw_env w)\<lparr>he_call := \<lparr>ce_now = (\<lambda>_. tw_now w), ce_clock = (\<lambda>_. tw_clock w), ce_db = (\<lambda>_. tw_db w)\<rparr>,
       he_clock := tw_clock w\<rparr>"

section \<open>State\<close>

text \<open>\<open>AppState\<close> without backends, with the given jobs, workers and resources.\<close>

definition test_state ::
  "(json, job_db) job_registry \<Rightarrow> worker_registry \<Rightarrow> resource_registry \<Rightarrow> (json, nat) app_state" where
  "test_state js ws rs =
     \<lparr>app_async =
        \<lparr>st_jobs = js, st_workers = ws, st_metrics = metrics_default, st_dispatcher = dispatcher_default,
         st_workload_pools = policy_default, st_worker_pool_ids = [], st_strict_worker_pools = False,
         st_lease_duration_ms = DEFAULT_JOB_LEASE_DURATION_MS\<rparr>,
      app_proxy =
        \<lparr>px_backends = [], px_affinity = affinity_new, px_limiter = limiter_default ex_sem, px_resources = rs,
         px_metrics = metrics_default\<rparr>,
      app_workload_pools = policy_default, app_resource_policy = resource_policy_default,
      app_callback_policy = callback_policy_default\<rparr>"

definition jobs_default :: "(json, job_db) job_registry" where
  "jobs_default = registry_new retention_default"

text \<open>The registries of a state, which the tests share with the application.\<close>

definition app_jobs :: "('v, 's) app_state \<Rightarrow> ('v, job_db) job_registry" where
  "app_jobs app = st_jobs (app_async app)"

definition app_workers :: "('v, 's) app_state \<Rightarrow> worker_registry" where
  "app_workers app = st_workers (app_async app)"

definition set_jobs :: "('v, job_db) job_registry \<Rightarrow> ('v, 's) app_state \<Rightarrow> ('v, 's) app_state" where
  "set_jobs js app = app\<lparr>app_async := (app_async app)\<lparr>st_jobs := js\<rparr>\<rparr>"

definition set_workers :: "worker_registry \<Rightarrow> ('v, 's) app_state \<Rightarrow> ('v, 's) app_state" where
  "set_workers ws app = app\<lparr>app_async := (app_async app)\<lparr>st_workers := ws\<rparr>\<rparr>"

section \<open>Requests and responses\<close>

definition bare :: "http_method \<Rightarrow> string \<Rightarrow> http_request" where
  "bare m path = \<lparr>hr_method = m, hr_path = path, hr_headers = (\<lambda>_. None), hr_body = []\<rparr>"

definition oneshot :: "test_world \<Rightarrow> http_request \<Rightarrow> (json, nat) app_state \<Rightarrow> (json, nat) app_state \<times> json http_response" where
  "oneshot w request app = serve (world_env w) request app"

definition post_json ::
  "test_world \<Rightarrow> string \<Rightarrow> json \<Rightarrow> (json, nat) app_state \<Rightarrow> (json, nat) app_state \<times> json http_response" where
  "post_json w path v =
     oneshot w \<lparr>hr_method = POST, hr_path = path, hr_headers = json_headers, hr_body = tw_text w v\<rparr>"

definition post_empty :: "test_world \<Rightarrow> string \<Rightarrow> (json, nat) app_state \<Rightarrow> (json, nat) app_state \<times> json http_response" where
  "post_empty w path = oneshot w (bare POST path)"

definition fetch :: "test_world \<Rightarrow> string \<Rightarrow> (json, nat) app_state \<Rightarrow> (json, nat) app_state \<times> json http_response" where
  "fetch w path = oneshot w (bare GET path)"

definition delete :: "test_world \<Rightarrow> string \<Rightarrow> (json, nat) app_state \<Rightarrow> (json, nat) app_state \<times> json http_response" where
  "delete w path = oneshot w (bare DELETE path)"

fun http_status :: "'v http_response \<Rightarrow> nat option" where
  "http_status (Api_Response (Resp status body)) = Some status"
| "http_status (Rejected status msg) = Some status"
| "http_status (Status_Only status) = Some status"
| "http_status (Resource_List snapshots) = Some 200"
| "http_status (Resource_Answer status answer) = Some status"
| "http_status (Page status kind t) = Some status"
| "http_status _ = None"

fun job_of :: "'v http_response \<Rightarrow> 'v job_record option" where
  "job_of (Api_Response (Resp status (Job_Body job))) = Some job"
| "job_of _ = None"

fun jobs_of :: "'v http_response \<Rightarrow> 'v job_record list option" where
  "jobs_of (Api_Response (Resp status (Jobs_Body js))) = Some js"
| "jobs_of _ = None"

fun worker_of :: "'v http_response \<Rightarrow> worker_snapshot option" where
  "worker_of (Api_Response (Resp status (Worker_Body worker))) = Some worker"
| "worker_of _ = None"

fun workers_of :: "'v http_response \<Rightarrow> worker_snapshot list option" where
  "workers_of (Api_Response (Resp status (Workers_Body ws))) = Some ws"
| "workers_of _ = None"

fun assignment_of :: "'v http_response \<Rightarrow> ('v job_record \<times> worker_snapshot) option" where
  "assignment_of (Api_Response (Resp status (Assignment_Body job worker))) = Some (job, worker)"
| "assignment_of _ = None"

fun pruned_of :: "'v http_response \<Rightarrow> job_prune_report option" where
  "pruned_of (Api_Response (Resp status (Pruned_Body r))) = Some r"
| "pruned_of _ = None"

fun text_of :: "'v http_response \<Rightarrow> string option" where
  "text_of (Api_Response (Resp status (Text text))) = Some text"
| "text_of (Rejected status msg) = Some msg"
| "text_of (Resource_Answer status (Inl e)) = Some e"
| "text_of _ = None"

section \<open>Evaluation\<close>

text \<open>The message of a rejected body, which is the library's.\<close>

definition rejection :: "(nat \<times> string) + 'a \<Rightarrow> string" where
  "rejection answer = (case answer of Inl (status, msg) \<Rightarrow> msg | Inr _ \<Rightarrow> [])"

definition submit_rejection :: "test_world \<Rightarrow> json \<Rightarrow> string" where
  "submit_rejection w v = rejection (hl_submit (he_lib (tw_env w)) json_headers (tw_text w v))"

definition read_body :: "'a decoder \<Rightarrow> string \<Rightarrow> json \<Rightarrow> (nat \<times> string) + 'a" where
  "read_body d msg v = (case d v of None \<Rightarrow> Inl (422, msg) | Some x \<Rightarrow> Inr x)"

lemma extracted_read_body:
  assumes "extracted d (Some v) answer"
  shows "answer = read_body d (rejection answer) v"
  using assms by (auto simp: extracted_def read_body_def rejection_def split: option.splits sum.splits)

lemma body_rules:
  assumes ok: "world_ok parse w" and d: "json_depth v < 128"
  shows "hl_submit (he_lib (tw_env w)) json_headers (tw_text w v) = read_body decode_submit (submit_rejection w v) v"
    "decode_complete v = Some c \<Longrightarrow> hl_complete (he_lib (tw_env w)) json_headers (tw_text w v) = Inr c"
    "decode_fail v = Some f \<Longrightarrow> hl_fail (he_lib (tw_env w)) json_headers (tw_text w v) = Inr f"
    "decode_register v = Some r \<Longrightarrow> hl_register (he_lib (tw_env w)) json_headers (tw_text w v) = Inr r"
    "decode_report v = Some p \<Longrightarrow> hl_report (he_lib (tw_env w)) json_headers (tw_text w v) = Inr p"
proof -
  have p: "parse (tw_text w v) = Some v" using ok d by (simp add: world_ok_def reads_texts_def)
  have b: "json_bodies parse json_headers (he_lib (tw_env w))" using ok by (simp add: world_ok_def)
  note e = b [unfolded json_bodies_def, rule_format, of "tw_text w v", unfolded p]
  show "hl_submit (he_lib (tw_env w)) json_headers (tw_text w v) = read_body decode_submit (submit_rejection w v) v"
    unfolding submit_rejection_def by (rule extracted_read_body) (use e in blast)
  show "hl_complete (he_lib (tw_env w)) json_headers (tw_text w v) = Inr c" if "decode_complete v = Some c"
    by (rule extracted_Some [where d = decode_complete and v = v]) (use e that in blast)+
  show "hl_fail (he_lib (tw_env w)) json_headers (tw_text w v) = Inr f" if "decode_fail v = Some f"
    by (rule extracted_Some [where d = decode_fail and v = v]) (use e that in blast)+
  show "hl_register (he_lib (tw_env w)) json_headers (tw_text w v) = Inr r" if "decode_register v = Some r"
    by (rule extracted_Some [where d = decode_register and v = v]) (use e that in blast)+
  show "hl_report (he_lib (tw_env w)) json_headers (tw_text w v) = Inr p" if "decode_report v = Some p"
    by (rule extracted_Some [where d = decode_report and v = v]) (use e that in blast)+
qed

section \<open>Routes\<close>

lemma job_route:
  assumes ok: "router_ok router" and j: "plain_id j" and "j \<noteq> ''prune''"
  shows "router build_router GET (''/v1/jobs/'' @ j) = Routed Ep_Get_Job [j]"
  by (rule routed_via [OF ok, where entry = "(''/v1/jobs/:id'', [(GET, Ep_Get_Job), (DELETE, Ep_Cancel_Job)])"
        and segs = "['''', ''v1'', ''jobs'', j]"])
    (use assms(3) in \<open>simp_all add: plain_segments [OF j] plain_nonempty [OF j] route_eval\<close>)

text \<open>The paths that the tests use.\<close>

lemma test_routes:
  assumes "world_ok parse w"
  shows "hl_router (he_lib (tw_env w)) build_router GET ''/metrics'' = Routed Ep_Metrics []"
    "hl_router (he_lib (tw_env w)) build_router GET ''/v1/jobs'' = Routed Ep_List_Jobs []"
    "hl_router (he_lib (tw_env w)) build_router POST ''/v1/jobs'' = Routed Ep_Submit_Job []"
    "hl_router (he_lib (tw_env w)) build_router DELETE ''/v1/jobs/job-1'' = Routed Ep_Cancel_Job [''job-1'']"
    "hl_router (he_lib (tw_env w)) build_router GET ''/v1/jobs/job-1'' = Routed Ep_Get_Job [''job-1'']"
    "hl_router (he_lib (tw_env w)) build_router GET ''/v1/jobs/missing'' = Routed Ep_Get_Job [''missing'']"
    "hl_router (he_lib (tw_env w)) build_router POST ''/v1/jobs/prune'' = Routed Ep_Prune_Jobs []"
    "hl_router (he_lib (tw_env w)) build_router GET ''/v1/models'' = Routed Ep_List_Models []"
    "hl_router (he_lib (tw_env w)) build_router GET ''/v1/resources'' = Routed Ep_List_Resources []"
    "hl_router (he_lib (tw_env w)) build_router POST ''/v1/resources/report'' = Routed Ep_Report_Resources []"
    "hl_router (he_lib (tw_env w)) build_router GET ''/v1/scheduler/preview'' = Routed Ep_Preview []"
    "hl_router (he_lib (tw_env w)) build_router GET ''/v1/workers'' = Routed Ep_List_Workers []"
    "hl_router (he_lib (tw_env w)) build_router POST ''/v1/workers/backup-worker/claim'' = Routed Ep_Claim [''backup-worker'']"
    "hl_router (he_lib (tw_env w)) build_router POST ''/v1/workers/cluster-worker/claim'' = Routed Ep_Claim [''cluster-worker'']"
    "hl_router (he_lib (tw_env w)) build_router POST ''/v1/workers/cluster-worker/jobs/job-1/fail'' = Routed Ep_Fail [''cluster-worker'', ''job-1'']"
    "hl_router (he_lib (tw_env w)) build_router POST ''/v1/workers/default-worker/claim'' = Routed Ep_Claim [''default-worker'']"
    "hl_router (he_lib (tw_env w)) build_router POST ''/v1/workers/draining-worker/claim'' = Routed Ep_Claim [''draining-worker'']"
    "hl_router (he_lib (tw_env w)) build_router POST ''/v1/workers/embed-worker/claim'' = Routed Ep_Claim [''embed-worker'']"
    "hl_router (he_lib (tw_env w)) build_router POST ''/v1/workers/embed-worker/jobs/job-1/complete'' = Routed Ep_Complete [''embed-worker'', ''job-1'']"
    "hl_router (he_lib (tw_env w)) build_router POST ''/v1/workers/embed-worker/jobs/job-1/fail'' = Routed Ep_Fail [''embed-worker'', ''job-1'']"
    "hl_router (he_lib (tw_env w)) build_router POST ''/v1/workers/embed-worker/jobs/job-1/renew'' = Routed Ep_Renew [''embed-worker'', ''job-1'']"
    "hl_router (he_lib (tw_env w)) build_router POST ''/v1/workers/embed-worker/jobs/job-2/fail'' = Routed Ep_Fail [''embed-worker'', ''job-2'']"
    "hl_router (he_lib (tw_env w)) build_router POST ''/v1/workers/index-worker/jobs/job-1/fail'' = Routed Ep_Fail [''index-worker'', ''job-1'']"
    "hl_router (he_lib (tw_env w)) build_router DELETE ''/v1/workers/missing'' = Routed Ep_Deregister [''missing'']"
    "hl_router (he_lib (tw_env w)) build_router POST ''/v1/workers/missing/claim'' = Routed Ep_Claim [''missing'']"
    "hl_router (he_lib (tw_env w)) build_router POST ''/v1/workers/missing/drain'' = Routed Ep_Drain [''missing'']"
    "hl_router (he_lib (tw_env w)) build_router POST ''/v1/workers/missing/heartbeat'' = Routed Ep_Heartbeat [''missing'']"
    "hl_router (he_lib (tw_env w)) build_router POST ''/v1/workers/missing/reactivate'' = Routed Ep_Reactivate [''missing'']"
    "hl_router (he_lib (tw_env w)) build_router POST ''/v1/workers/new-worker/claim'' = Routed Ep_Claim [''new-worker'']"
    "hl_router (he_lib (tw_env w)) build_router POST ''/v1/workers/peer-worker/claim'' = Routed Ep_Claim [''peer-worker'']"
    "hl_router (he_lib (tw_env w)) build_router POST ''/v1/workers/register'' = Routed Ep_Register []"
    "hl_router (he_lib (tw_env w)) build_router DELETE ''/v1/workers/vision-worker'' = Routed Ep_Deregister [''vision-worker'']"
    "hl_router (he_lib (tw_env w)) build_router POST ''/v1/workers/vision-worker/claim'' = Routed Ep_Claim [''vision-worker'']"
    "hl_router (he_lib (tw_env w)) build_router POST ''/v1/workers/vision-worker/jobs/job-1/complete'' = Routed Ep_Complete [''vision-worker'', ''job-1'']"
    "hl_router (he_lib (tw_env w)) build_router POST ''/v1/workers/vision-worker/jobs/job-1/fail'' = Routed Ep_Fail [''vision-worker'', ''job-1'']"
    "hl_router (he_lib (tw_env w)) build_router POST ''/v1/workers/vision-worker/jobs/job-1/renew'' = Routed Ep_Renew [''vision-worker'', ''job-1'']"
    "hl_router (he_lib (tw_env w)) build_router DELETE ''/v1/workers/worker-a'' = Routed Ep_Deregister [''worker-a'']"
    "hl_router (he_lib (tw_env w)) build_router POST ''/v1/workers/worker-a/drain'' = Routed Ep_Drain [''worker-a'']"
    "hl_router (he_lib (tw_env w)) build_router POST ''/v1/workers/worker-a/heartbeat'' = Routed Ep_Heartbeat [''worker-a'']"
    "hl_router (he_lib (tw_env w)) build_router POST ''/v1/workers/worker-a/jobs/job-1/complete'' = Routed Ep_Complete [''worker-a'', ''job-1'']"
    "hl_router (he_lib (tw_env w)) build_router POST ''/v1/workers/worker-a/jobs/job-1/fail'' = Routed Ep_Fail [''worker-a'', ''job-1'']"
    "hl_router (he_lib (tw_env w)) build_router POST ''/v1/workers/worker-a/jobs/missing/renew'' = Routed Ep_Renew [''worker-a'', ''missing'']"
    "hl_router (he_lib (tw_env w)) build_router POST ''/v1/workers/worker-a/reactivate'' = Routed Ep_Reactivate [''worker-a'']"
    "hl_router (he_lib (tw_env w)) build_router POST ''/v1/workers/worker-b/jobs/job-1/complete'' = Routed Ep_Complete [''worker-b'', ''job-1'']"
    "hl_router (he_lib (tw_env w)) build_router POST ''/v1/workers/worker-b/jobs/job-1/renew'' = Routed Ep_Renew [''worker-b'', ''job-1'']"
proof -
  have r: "router_ok (hl_router (he_lib (tw_env w)))" using assms by (simp add: world_ok_def)
  show "hl_router (he_lib (tw_env w)) build_router GET ''/metrics'' = Routed Ep_Metrics []"
    by (rule routed_via [OF r, where entry = "(''/metrics'', [(GET, Ep_Metrics)])"
          and segs = "['''', ''metrics'']"]) (simp_all add: route_eval)
  show "hl_router (he_lib (tw_env w)) build_router GET ''/v1/jobs'' = Routed Ep_List_Jobs []"
    by (rule routed_via [OF r, where entry = "(''/v1/jobs'', [(GET, Ep_List_Jobs), (POST, Ep_Submit_Job)])"
          and segs = "['''', ''v1'', ''jobs'']"]) (simp_all add: route_eval)
  show "hl_router (he_lib (tw_env w)) build_router POST ''/v1/jobs'' = Routed Ep_Submit_Job []"
    using fixed_routes(1) [OF r] by (simp add: plain_id_def)
  show "hl_router (he_lib (tw_env w)) build_router DELETE ''/v1/jobs/job-1'' = Routed Ep_Cancel_Job [''job-1'']"
    using delete_routes(1) [OF r, of "''job-1''"] by (simp add: plain_id_def)
  show "hl_router (he_lib (tw_env w)) build_router GET ''/v1/jobs/job-1'' = Routed Ep_Get_Job [''job-1'']"
    using job_route [OF r, of "''job-1''"] by (simp add: plain_id_def)
  show "hl_router (he_lib (tw_env w)) build_router GET ''/v1/jobs/missing'' = Routed Ep_Get_Job [''missing'']"
    using job_route [OF r, of "''missing''"] by (simp add: plain_id_def)
  show "hl_router (he_lib (tw_env w)) build_router POST ''/v1/jobs/prune'' = Routed Ep_Prune_Jobs []"
    using fixed_routes(2) [OF r] by (simp add: plain_id_def)
  show "hl_router (he_lib (tw_env w)) build_router GET ''/v1/models'' = Routed Ep_List_Models []"
    by (rule routed_via [OF r, where entry = "(''/v1/models'', [(GET, Ep_List_Models)])"
          and segs = "['''', ''v1'', ''models'']"]) (simp_all add: route_eval)
  show "hl_router (he_lib (tw_env w)) build_router GET ''/v1/resources'' = Routed Ep_List_Resources []"
    by (rule routed_via [OF r, where entry = "(''/v1/resources'', [(GET, Ep_List_Resources)])"
          and segs = "['''', ''v1'', ''resources'']"]) (simp_all add: route_eval)
  show "hl_router (he_lib (tw_env w)) build_router POST ''/v1/resources/report'' = Routed Ep_Report_Resources []"
    by (rule routed_via [OF r, where entry = "(''/v1/resources/report'', [(POST, Ep_Report_Resources)])"
          and segs = "['''', ''v1'', ''resources'', ''report'']"]) (simp_all add: route_eval)
  show "hl_router (he_lib (tw_env w)) build_router GET ''/v1/scheduler/preview'' = Routed Ep_Preview []"
    by (rule routed_via [OF r, where entry = "(''/v1/scheduler/preview'', [(GET, Ep_Preview)])"
          and segs = "['''', ''v1'', ''scheduler'', ''preview'']"]) (simp_all add: route_eval)
  show "hl_router (he_lib (tw_env w)) build_router GET ''/v1/workers'' = Routed Ep_List_Workers []"
    by (rule routed_via [OF r, where entry = "(''/v1/workers'', [(GET, Ep_List_Workers)])"
          and segs = "['''', ''v1'', ''workers'']"]) (simp_all add: route_eval)
  show "hl_router (he_lib (tw_env w)) build_router POST ''/v1/workers/backup-worker/claim'' = Routed Ep_Claim [''backup-worker'']"
    using worker_routes(1) [OF r, of "''backup-worker''"] by (simp add: plain_id_def)
  show "hl_router (he_lib (tw_env w)) build_router POST ''/v1/workers/cluster-worker/claim'' = Routed Ep_Claim [''cluster-worker'']"
    using worker_routes(1) [OF r, of "''cluster-worker''"] by (simp add: plain_id_def)
  show "hl_router (he_lib (tw_env w)) build_router POST ''/v1/workers/cluster-worker/jobs/job-1/fail'' = Routed Ep_Fail [''cluster-worker'', ''job-1'']"
    using report_routes(3) [OF r, of "''cluster-worker''" "''job-1''"] by (simp add: plain_id_def)
  show "hl_router (he_lib (tw_env w)) build_router POST ''/v1/workers/default-worker/claim'' = Routed Ep_Claim [''default-worker'']"
    using worker_routes(1) [OF r, of "''default-worker''"] by (simp add: plain_id_def)
  show "hl_router (he_lib (tw_env w)) build_router POST ''/v1/workers/draining-worker/claim'' = Routed Ep_Claim [''draining-worker'']"
    using worker_routes(1) [OF r, of "''draining-worker''"] by (simp add: plain_id_def)
  show "hl_router (he_lib (tw_env w)) build_router POST ''/v1/workers/embed-worker/claim'' = Routed Ep_Claim [''embed-worker'']"
    using worker_routes(1) [OF r, of "''embed-worker''"] by (simp add: plain_id_def)
  show "hl_router (he_lib (tw_env w)) build_router POST ''/v1/workers/embed-worker/jobs/job-1/complete'' = Routed Ep_Complete [''embed-worker'', ''job-1'']"
    using report_routes(2) [OF r, of "''embed-worker''" "''job-1''"] by (simp add: plain_id_def)
  show "hl_router (he_lib (tw_env w)) build_router POST ''/v1/workers/embed-worker/jobs/job-1/fail'' = Routed Ep_Fail [''embed-worker'', ''job-1'']"
    using report_routes(3) [OF r, of "''embed-worker''" "''job-1''"] by (simp add: plain_id_def)
  show "hl_router (he_lib (tw_env w)) build_router POST ''/v1/workers/embed-worker/jobs/job-1/renew'' = Routed Ep_Renew [''embed-worker'', ''job-1'']"
    using report_routes(1) [OF r, of "''embed-worker''" "''job-1''"] by (simp add: plain_id_def)
  show "hl_router (he_lib (tw_env w)) build_router POST ''/v1/workers/embed-worker/jobs/job-2/fail'' = Routed Ep_Fail [''embed-worker'', ''job-2'']"
    using report_routes(3) [OF r, of "''embed-worker''" "''job-2''"] by (simp add: plain_id_def)
  show "hl_router (he_lib (tw_env w)) build_router POST ''/v1/workers/index-worker/jobs/job-1/fail'' = Routed Ep_Fail [''index-worker'', ''job-1'']"
    using report_routes(3) [OF r, of "''index-worker''" "''job-1''"] by (simp add: plain_id_def)
  show "hl_router (he_lib (tw_env w)) build_router DELETE ''/v1/workers/missing'' = Routed Ep_Deregister [''missing'']"
    using delete_routes(2) [OF r, of "''missing''"] by (simp add: plain_id_def)
  show "hl_router (he_lib (tw_env w)) build_router POST ''/v1/workers/missing/claim'' = Routed Ep_Claim [''missing'']"
    using worker_routes(1) [OF r, of "''missing''"] by (simp add: plain_id_def)
  show "hl_router (he_lib (tw_env w)) build_router POST ''/v1/workers/missing/drain'' = Routed Ep_Drain [''missing'']"
    using worker_routes(2) [OF r, of "''missing''"] by (simp add: plain_id_def)
  show "hl_router (he_lib (tw_env w)) build_router POST ''/v1/workers/missing/heartbeat'' = Routed Ep_Heartbeat [''missing'']"
    using worker_routes(4) [OF r, of "''missing''"] by (simp add: plain_id_def)
  show "hl_router (he_lib (tw_env w)) build_router POST ''/v1/workers/missing/reactivate'' = Routed Ep_Reactivate [''missing'']"
    using worker_routes(3) [OF r, of "''missing''"] by (simp add: plain_id_def)
  show "hl_router (he_lib (tw_env w)) build_router POST ''/v1/workers/new-worker/claim'' = Routed Ep_Claim [''new-worker'']"
    using worker_routes(1) [OF r, of "''new-worker''"] by (simp add: plain_id_def)
  show "hl_router (he_lib (tw_env w)) build_router POST ''/v1/workers/peer-worker/claim'' = Routed Ep_Claim [''peer-worker'']"
    using worker_routes(1) [OF r, of "''peer-worker''"] by (simp add: plain_id_def)
  show "hl_router (he_lib (tw_env w)) build_router POST ''/v1/workers/register'' = Routed Ep_Register []"
    using fixed_routes(3) [OF r] by (simp add: plain_id_def)
  show "hl_router (he_lib (tw_env w)) build_router DELETE ''/v1/workers/vision-worker'' = Routed Ep_Deregister [''vision-worker'']"
    using delete_routes(2) [OF r, of "''vision-worker''"] by (simp add: plain_id_def)
  show "hl_router (he_lib (tw_env w)) build_router POST ''/v1/workers/vision-worker/claim'' = Routed Ep_Claim [''vision-worker'']"
    using worker_routes(1) [OF r, of "''vision-worker''"] by (simp add: plain_id_def)
  show "hl_router (he_lib (tw_env w)) build_router POST ''/v1/workers/vision-worker/jobs/job-1/complete'' = Routed Ep_Complete [''vision-worker'', ''job-1'']"
    using report_routes(2) [OF r, of "''vision-worker''" "''job-1''"] by (simp add: plain_id_def)
  show "hl_router (he_lib (tw_env w)) build_router POST ''/v1/workers/vision-worker/jobs/job-1/fail'' = Routed Ep_Fail [''vision-worker'', ''job-1'']"
    using report_routes(3) [OF r, of "''vision-worker''" "''job-1''"] by (simp add: plain_id_def)
  show "hl_router (he_lib (tw_env w)) build_router POST ''/v1/workers/vision-worker/jobs/job-1/renew'' = Routed Ep_Renew [''vision-worker'', ''job-1'']"
    using report_routes(1) [OF r, of "''vision-worker''" "''job-1''"] by (simp add: plain_id_def)
  show "hl_router (he_lib (tw_env w)) build_router DELETE ''/v1/workers/worker-a'' = Routed Ep_Deregister [''worker-a'']"
    using delete_routes(2) [OF r, of "''worker-a''"] by (simp add: plain_id_def)
  show "hl_router (he_lib (tw_env w)) build_router POST ''/v1/workers/worker-a/drain'' = Routed Ep_Drain [''worker-a'']"
    using worker_routes(2) [OF r, of "''worker-a''"] by (simp add: plain_id_def)
  show "hl_router (he_lib (tw_env w)) build_router POST ''/v1/workers/worker-a/heartbeat'' = Routed Ep_Heartbeat [''worker-a'']"
    using worker_routes(4) [OF r, of "''worker-a''"] by (simp add: plain_id_def)
  show "hl_router (he_lib (tw_env w)) build_router POST ''/v1/workers/worker-a/jobs/job-1/complete'' = Routed Ep_Complete [''worker-a'', ''job-1'']"
    using report_routes(2) [OF r, of "''worker-a''" "''job-1''"] by (simp add: plain_id_def)
  show "hl_router (he_lib (tw_env w)) build_router POST ''/v1/workers/worker-a/jobs/job-1/fail'' = Routed Ep_Fail [''worker-a'', ''job-1'']"
    using report_routes(3) [OF r, of "''worker-a''" "''job-1''"] by (simp add: plain_id_def)
  show "hl_router (he_lib (tw_env w)) build_router POST ''/v1/workers/worker-a/jobs/missing/renew'' = Routed Ep_Renew [''worker-a'', ''missing'']"
    using report_routes(1) [OF r, of "''worker-a''" "''missing''"] by (simp add: plain_id_def)
  show "hl_router (he_lib (tw_env w)) build_router POST ''/v1/workers/worker-a/reactivate'' = Routed Ep_Reactivate [''worker-a'']"
    using worker_routes(3) [OF r, of "''worker-a''"] by (simp add: plain_id_def)
  show "hl_router (he_lib (tw_env w)) build_router POST ''/v1/workers/worker-b/jobs/job-1/complete'' = Routed Ep_Complete [''worker-b'', ''job-1'']"
    using report_routes(2) [OF r, of "''worker-b''" "''job-1''"] by (simp add: plain_id_def)
  show "hl_router (he_lib (tw_env w)) build_router POST ''/v1/workers/worker-b/jobs/job-1/renew'' = Routed Ep_Renew [''worker-b'', ''job-1'']"
    using report_routes(1) [OF r, of "''worker-b''" "''job-1''"] by (simp add: plain_id_def)
qed

text \<open>A request to the application: its route, its ids, its body.\<close>

lemma percent_rule: "world_ok parse w \<Longrightarrow> CHR ''%'' \<notin> set s \<Longrightarrow> hl_percent (he_lib (tw_env w)) s = Inr s"
  by (simp add: world_ok_def percent_ok_def)

lemma route_step:
  assumes r: "hl_router (he_lib (tw_env w)) build_router m path = Routed e caps"
  shows "oneshot w \<lparr>hr_method = m, hr_path = path, hr_headers = h, hr_body = b\<rparr> app =
    (let rq = \<lparr>hr_method = m, hr_path = path, hr_headers = h, hr_body = b\<rparr> in
     case call_of (he_lib (tw_env w)) rq e caps of
       None \<Rightarrow> serve_other (world_env w) rq e caps app
     | Some (Inl (status, msg)) \<Rightarrow> (app, Rejected status msg)
     | Some (Inr call) \<Rightarrow>
         (case api_run (he_call (world_env w)) call (app_async app) of
            (st, answer) \<Rightarrow> (app\<lparr>app_async := st\<rparr>, Api_Response answer)))"
proof -
  have "he_lib (world_env w) = he_lib (tw_env w)" by (simp add: world_env_def)
  with r show ?thesis by (simp add: oneshot_def serve_def Let_def)
qed

text \<open>What the tests unfold to evaluate a request.\<close>

lemmas app_eval = test_state_def jobs_default_def app_jobs_def app_workers_def set_jobs_def set_workers_def
  post_json_def post_empty_def fetch_def delete_def bare_def call_of_def with_id_def with_ids_def with_body_def
  world_env_def serve_other_def

lemmas handlers_eval = register_worker_def worker_call_def heartbeat_worker_def drain_worker_def
  reactivate_worker_def deregister_worker_def list_workers_handler_def

lemmas bodies_eval = decode_submit_def decode_complete_def decode_fail_def decode_register_def decode_report_def
  decode_kind_def decode_priority_def field_eval priority_default_def default_worker_pool_def
  default_retryable_failure_def read_body_def

end
