(* ===== verification/Resources_Tests.thy ===== *)
theory Resources_Tests
  imports Test_App
begin

text \<open>
  The unit tests of \<open>src/src/resources.rs\<close>: those of the registry and those of its two endpoints.
\<close>

section \<open>The registry\<close>

definition report_of :: "string \<Rightarrow> string option \<Rightarrow> resource_report_request" where [test_defs]:
  "report_of node_id backend_id =
     \<lparr>rq_node_id = node_id, rq_backend_id = backend_id, rq_total_vram_mb = 64000,
      rq_reserved_vram_mb = 16000, rq_current_load = Some (Num 0.25)\<rparr>"

definition report_ok_or_panic ::
  "clock \<Rightarrow> resource_report_request \<Rightarrow> resource_registry \<Rightarrow> (resource_registry \<times> resource_snapshot) option" where [test_defs]:
  "report_ok_or_panic clk request rs =
     (case report clk request rs of (rs, result) \<Rightarrow> map_option (Pair rs) (unwrap result))"

definition later_clock :: "nat \<Rightarrow> clock \<Rightarrow> clock" where [test_defs]:
  "later_clock ms clk = \<lparr>wall = wall clk + int (ms * 10 ^ 6), mono = mono clk + ms * 10 ^ 6\<rparr>"

definition report_registers_resource_snapshot :: "clock \<Rightarrow> unit option" where [test_defs]:
  "report_registers_resource_snapshot clk = do {
     let rs = resource_registry_new (from_secs 30);
     (rs, snapshot) \<leftarrow> report_ok_or_panic clk (report_of ''spark-a'' (Some ''spark-a-vllm'')) rs;
     ensure (rp_node_id (rs_report snapshot) = ''spark-a'');
     ensure (rp_backend_id (rs_report snapshot) = Some ''spark-a-vllm'');
     ensure (rp_total_vram_mb (rs_report snapshot) = 64000);
     ensure (rp_reserved_vram_mb (rs_report snapshot) = 16000);
     ensure (rp_available_vram_mb (rs_report snapshot) = 48000);
     ensure (rp_current_load (rs_report snapshot) = Some (Num 0.25));
     ensure (\<not> rs_stale snapshot)
   }"

definition report_updates_existing_node_backend_pair :: "clock \<Rightarrow> unit option" where [test_defs]:
  "report_updates_existing_node_backend_pair clk = do {
     let rs = resource_registry_new (from_secs 30);
     (rs, _) \<leftarrow> report_ok_or_panic clk (report_of ''spark-a'' (Some ''spark-a-vllm'')) rs;
     (rs, _) \<leftarrow> report_ok_or_panic clk
       \<lparr>rq_node_id = ''spark-a'', rq_backend_id = Some ''spark-a-vllm'', rq_total_vram_mb = 64000,
        rq_reserved_vram_mb = 60000, rq_current_load = Some (Num 0.9)\<rparr> rs;
     let snapshots = resource_snapshots clk rs;
     ensure (length snapshots = 1);
     ensure (rp_available_vram_mb (rs_report (snapshots ! 0)) = 4000);
     ensure (rp_current_load (rs_report (snapshots ! 0)) = Some (Num 0.9))
   }"

definition fresh_report_returns_none_after_stale_timeout :: "clock \<Rightarrow> unit option" where [test_defs]:
  "fresh_report_returns_none_after_stale_timeout clk = do {
     let rs = resource_registry_new (10 * 10 ^ 6);
     (rs, _) \<leftarrow> report_ok_or_panic clk (report_of ''spark-a'' (Some ''spark-a-vllm'')) rs;
     ensure (fresh_report (mono clk) ''spark-a'' (Some ''spark-a-vllm'') rs \<noteq> None);
     let clk = later_clock 20 clk;
     ensure (fresh_report (mono clk) ''spark-a'' (Some ''spark-a-vllm'') rs = None);
     ensure (rs_stale (resource_snapshots clk rs ! 0))
   }"

definition fresh_backend_report_falls_back_to_node_level_report :: "clock \<Rightarrow> unit option" where [test_defs]:
  "fresh_backend_report_falls_back_to_node_level_report clk = do {
     let rs = resource_registry_default;
     (rs, _) \<leftarrow> report_ok_or_panic clk (report_of ''spark-a'' None) rs;
     r \<leftarrow> fresh_backend_report (mono clk) ''spark-a'' ''spark-a-vllm'' rs;
     ensure (rp_node_id r = ''spark-a'');
     ensure (rp_backend_id r = None);
     ensure (rp_available_vram_mb r = 48000)
   }"

definition invalid_report_rejects_reserved_vram_above_total :: "clock \<Rightarrow> unit option" where [test_defs]:
  "invalid_report_rejects_reserved_vram_above_total clk = do {
     let rs = resource_registry_default;
     let (rs, result) = report clk
       \<lparr>rq_node_id = ''spark-a'', rq_backend_id = None, rq_total_vram_mb = 10, rq_reserved_vram_mb = 11,
        rq_current_load = None\<rparr> rs;
     ensure (unwrap_err result = Some ''reserved_vram_mb cannot exceed total_vram_mb'')
   }"

definition invalid_report_rejects_load_outside_zero_to_one :: "clock \<Rightarrow> unit option" where [test_defs]:
  "invalid_report_rejects_load_outside_zero_to_one clk = do {
     let rs = resource_registry_default;
     let (rs, result) = report clk
       \<lparr>rq_node_id = ''spark-a'', rq_backend_id = None, rq_total_vram_mb = 10, rq_reserved_vram_mb = 1,
        rq_current_load = Some (Num 1.1)\<rparr> rs;
     ensure (unwrap_err result = Some ''current_load must be between 0.0 and 1.0'')
   }"

lemmas resources_eval = resource_registry_default_def resource_registry_new_def report_def validate_report_def
  trim_eval resource_snapshot_from_entry_def resource_snapshots_def fresh_report_def fresh_backend_report_def
  from_secs_def report_resources_def list_resources_def Let_def

lemma resource_registry_tests_pass:
  "passes (report_registers_resource_snapshot clk)"
  "passes (report_updates_existing_node_backend_pair clk)"
  "passes (fresh_report_returns_none_after_stale_timeout clk)"
  "passes (fresh_backend_report_falls_back_to_node_level_report clk)"
  "passes (invalid_report_rejects_reserved_vram_above_total clk)"
  "passes (invalid_report_rejects_load_outside_zero_to_one clk)"
  by (simp_all add: test_defs resources_eval)

section \<open>The endpoints\<close>

definition resources_app :: "resource_registry \<Rightarrow> (json, nat) app_state" where [test_defs]:
  "resources_app rs = test_state jobs_default worker_registry_default rs"

text \<open>The members of a snapshot as its JSON has them.\<close>

fun snapshots_of :: "'v http_response \<Rightarrow> resource_snapshot list option" where
  "snapshots_of (Resource_List snapshots) = Some snapshots"
| "snapshots_of (Resource_Answer status (Inr snapshot)) = Some [snapshot]"
| "snapshots_of _ = None"

definition post_report_endpoint_registers_resources :: "test_world \<Rightarrow> unit option" where [test_defs]:
  "post_report_endpoint_registers_resources w = do {
     let app = resources_app resource_registry_default;
     let (app, response) = post_json w ''/v1/resources/report''
       (J_Object [(''node_id'', J_String ''spark-a''), (''backend_id'', J_String ''spark-a-vllm''),
          (''total_vram_mb'', J_Int 64000), (''reserved_vram_mb'', J_Int 16000),
          (''current_load'', J_Float 0.25)]) app;
     ensure (http_status response = Some 200);
     answered \<leftarrow> snapshots_of response;
     ensure (rp_node_id (rs_report (answered ! 0)) = ''spark-a'');
     ensure (rp_backend_id (rs_report (answered ! 0)) = Some ''spark-a-vllm'');
     ensure (rp_available_vram_mb (rs_report (answered ! 0)) = 48000);
     let snapshots = resource_snapshots (tw_clock w) (px_resources (app_proxy app));
     ensure (length snapshots = 1);
     ensure (rp_node_id (rs_report (snapshots ! 0)) = ''spark-a'')
   }"

definition get_resources_endpoint_lists_snapshots :: "test_world \<Rightarrow> unit option" where [test_defs]:
  "get_resources_endpoint_lists_snapshots w = do {
     let rs = resource_registry_default;
     (rs, _) \<leftarrow> report_ok_or_panic (tw_clock w) (report_of ''spark-a'' (Some ''spark-a-vllm'')) rs;
     let app = resources_app rs;
     let (app, response) = fetch w ''/v1/resources'' app;
     ensure (http_status response = Some 200);
     listed \<leftarrow> snapshots_of response;
     ensure (rp_node_id (rs_report (listed ! 0)) = ''spark-a'');
     ensure (rp_backend_id (rs_report (listed ! 0)) = Some ''spark-a-vllm'');
     ensure (rp_available_vram_mb (rs_report (listed ! 0)) = 48000)
   }"

definition post_report_endpoint_rejects_invalid_payload :: "test_world \<Rightarrow> unit option" where [test_defs]:
  "post_report_endpoint_rejects_invalid_payload w = do {
     let app = resources_app resource_registry_default;
     let (app, response) = post_json w ''/v1/resources/report''
       (J_Object [(''node_id'', J_String []), (''total_vram_mb'', J_Int 10), (''reserved_vram_mb'', J_Int 1)]) app;
     ensure (http_status response = Some 400);
     body \<leftarrow> text_of response;
     ensure (contains body ''node_id cannot be empty'')
   }"

lemma resource_endpoint_tests_pass:
  assumes ok: "world_ok parse w"
  shows "passes (post_report_endpoint_registers_resources w)"
    "passes (get_resources_endpoint_lists_snapshots w)"
    "passes (post_report_endpoint_rejects_invalid_payload w)"
  by (simp_all add: test_defs resources_eval app_eval route_step test_routes [OF ok] percent_rule [OF ok]
      body_rules [OF ok] bodies_eval starts_with_def)

end
