(* ===== verification/Jobs_Tests.thy ===== *)
theory Jobs_Tests
  imports Conformance Json Jobs_Snapshots
begin

text \<open>
  The unit tests of \<open>src/src/jobs.rs\<close> that call the in-memory registry, run on the model.
  \<open>now\<close> is the wall clock in milliseconds; a test that sleeps adds to it. The store is never
  called, so \<open>db\<close> is any store.
\<close>

section \<open>Fixtures\<close>

definition registry_default :: "(json, 's) job_registry" where [test_defs]:
  "registry_default = registry_new retention_default"

text \<open>The request most tests submit: no payload, no callback and no key.\<close>

definition plain_request :: "job_kind \<Rightarrow> priority \<Rightarrow> json submit_job_request" where [test_defs]:
  "plain_request kind prio =
     \<lparr>req_kind = kind, req_priority = prio, req_payload = J_Null, req_callback_url = None,
      req_idempotency_key = None\<rparr>"

text \<open>\<open>submit(..).await.unwrap()\<close> and \<open>claim_next_for_worker(..).await.unwrap()\<close>.\<close>

definition submit_ok ::
  "(json, 's) persist \<Rightarrow> nat \<Rightarrow> json submit_job_request \<Rightarrow> (json, 's) job_registry
     \<Rightarrow> ((json, 's) job_registry \<times> json job_record) option" where [test_defs]:
  "submit_ok db now request reg =
     (case submit db now request reg of (reg, result) \<Rightarrow> map_option (Pair reg) (unwrap result))"

definition claim_ok ::
  "(json, 's) persist \<Rightarrow> nat \<Rightarrow> string \<Rightarrow> job_kind list \<Rightarrow> nat \<Rightarrow> (json, 's) job_registry
     \<Rightarrow> ((json, 's) job_registry \<times> json job_record) option" where [test_defs]:
  "claim_ok db now worker_id kinds lease_ms reg =
     (case claim_next_for_worker db now worker_id kinds lease_ms reg of
        (reg, claimed) \<Rightarrow> map_option (Pair reg) claimed)"

text \<open>\<open>queued_jobs_by_priority\<close>, as the ids of the jobs.\<close>

definition queued_ids :: "('v, 's) job_registry \<Rightarrow> string list" where [test_defs]:
  "queued_ids reg = map job_id (queued_jobs_by_priority reg)"

definition status_of :: "string \<Rightarrow> ('v, 's) job_registry \<Rightarrow> job_status option" where [test_defs]:
  "status_of jid reg = map_option job_status (get_job_record jid reg)"

definition age_job_updated_at :: "nat \<Rightarrow> string \<Rightarrow> nat \<Rightarrow> ('v, 's) job_registry \<Rightarrow> ('v, 's) job_registry option" where [test_defs]:
  "age_job_updated_at now jid age_ms reg =
     map_option (\<lambda>job. reg\<lparr>inner := put_job jid
         (job\<lparr>updated_at := now - age_ms, created_at := now - age_ms - 1\<rparr>) (inner reg)\<rparr>)
       (jobs (inner reg) jid)"

lemmas jobs_eval = registry_new_def retention_default_def inner_default_def submit_def normalize_callback_url_def
  normalize_idempotency_key_def insert_new_job_def new_job_def job_id_of_def nat_to_string.simps digit_char_def
  char_digits same_request_def commit_def persist_locked_def put_job_def queues_default_def push_back_def
  queues_remove_def position_def remove_at_def queues_iter_def claim_next_for_worker_def
  claim_next_for_worker_in_pool_def next_claimable_def claimable_def claim_job_def policy_default_def allows_def
  get_job_record_def list_jobs_def queued_jobs_by_priority_def map_filter_simps Let_def

lemmas snapshots_eval = queue_snapshots_def queue_snapshot_step_def queued_entries_def priority_str_rank_def
  kind_rank_def status_rank_def queue_wait_snapshots_def queue_wait_step_def terminal_duration_snapshots_def
  terminal_duration_step_def seconds_of_def

lemmas leases_eval = renew_lease_def complete_lease_def attempt_differs_def completed_job_def prepare_callback_def
  callback_delivered_def fresh_callback_def terminal_attempt_matches_def failed_attempt_def fail_lease_def
  requeue_job_def fail_job_def cancel_def cancelled_job_def

lemmas sweep_eval = requeue_expired_leases_def requeue_expired_leases_locked_def expire_step_def
  expired_attempt_def expiry_report_default_def requeue_push_def

section \<open>Submission\<close>

definition with_key :: "string \<Rightarrow> json \<Rightarrow> json submit_job_request" where [test_defs]:
  "with_key key v =
     \<lparr>req_kind = VisionAnalysis, req_priority = Batch, req_payload = v, req_callback_url = None,
      req_idempotency_key = Some key\<rparr>"

definition submit_job_rejects_idempotency_key_reused_for_different_request ::
  "(json, 's) persist \<Rightarrow> nat \<Rightarrow> unit option" where [test_defs]:
  "submit_job_rejects_idempotency_key_reused_for_different_request db now = do {
     let reg = registry_default;
     (reg, first) \<leftarrow> submit_ok db now
       (with_key ''image-1'' (J_Object [(''image_id'', J_String ''image-1'')])) reg;
     let (reg, duplicate) = submit db now
       (with_key ''image-1'' (J_Object [(''image_id'', J_String ''image-2'')])) reg;
     ensure (job_id first = ''job-1'');
     ensure (unwrap_err duplicate = Some ''idempotency_key already used for a different job request'');
     ensure (length (list_jobs reg) = 1)
   }"

definition submit_job_rejects_overlong_idempotency_key ::
  "(json, 's) persist \<Rightarrow> nat \<Rightarrow> unit option" where [test_defs]:
  "submit_job_rejects_overlong_idempotency_key db now = do {
     let reg = registry_default;
     let (reg, result) = submit db now (with_key (replicate 257 CHR ''x'') J_Null) reg;
     ensure (unwrap_err result = Some ''idempotency_key cannot exceed 256 bytes'');
     ensure (list_jobs reg = [])
   }"

definition submit_job_reuses_retained_terminal_job_for_idempotency_key ::
  "(json, 's) persist \<Rightarrow> nat \<Rightarrow> unit option" where [test_defs]:
  "submit_job_reuses_retained_terminal_job_for_idempotency_key db now = do {
     let reg = registry_default;
     (reg, first) \<leftarrow> submit_ok db now
       (with_key ''rose-image'' (J_Object [(''image'', J_String ''rose.jpg'')])) reg;
     (reg, _) \<leftarrow> claim_ok db now ''worker-a'' [VisionAnalysis] 30000 reg;
     let (reg, _) = complete_lease db now (job_id first) ''worker-a'' None
       (J_Object [(''ok'', J_Bool True)]) reg;
     (reg, duplicate) \<leftarrow> submit_ok db now
       (with_key ''rose-image'' (J_Object [(''image'', J_String ''rose.jpg'')])) reg;
     ensure (job_id duplicate = job_id first);
     ensure (job_status duplicate = Complete);
     ensure (job_result duplicate = Some (J_Object [(''ok'', J_Bool True)]));
     ensure (length (list_jobs reg) = 1)
   }"

text \<open>The key of 257 letters is as long as it looks: trimming leaves it alone.\<close>

lemma trim_long_key: "trim (replicate 257 CHR ''x'') = replicate 257 CHR ''x''"
proof -
  have r: "replicate 257 CHR ''x'' = CHR ''x'' # CHR ''x'' # CHR ''x'' # replicate 254 CHR ''x''"
    by (simp add: numeral_eq_Suc)
  have "ws_prefix (replicate 257 CHR ''x'') = 0" "ws_suffix_rev (replicate 257 CHR ''x'') = 0"
    unfolding r by (simp_all add: ws1_def ws2_def ws3_def)
  then show ?thesis
    unfolding trim_def trim_end_def by (simp add: trim_start_fixed trim_rev_fixed)
qed

lemma overlong_key_test_passes:
  "passes (submit_job_rejects_overlong_idempotency_key db now)"
proof -
  have "replicate 257 CHR ''x'' \<noteq> []" by (simp add: numeral_eq_Suc)
  then show ?thesis
    by (simp add: submit_job_rejects_overlong_idempotency_key_def with_key_def registry_default_def submit_def
        normalize_callback_url_def normalize_idempotency_key_def trim_long_key Let_def list_jobs_def
        registry_new_def inner_default_def map_filter_simps)
qed

lemma submission_tests_pass:
  "passes (submit_job_rejects_idempotency_key_reused_for_different_request db now)"
  "passes (submit_job_reuses_retained_terminal_job_for_idempotency_key db now)"
  by (simp_all add: test_defs jobs_eval leases_eval eval_defs)

section \<open>Claims\<close>

definition queue_snapshots_count_queued_jobs_by_priority_and_type ::
  "(json, 's) persist \<Rightarrow> nat \<Rightarrow> unit option" where [test_defs]:
  "queue_snapshots_count_queued_jobs_by_priority_and_type db now = do {
     let reg = registry_default;
     (reg, _) \<leftarrow> submit_ok db now (plain_request VisionAnalysis Realtime) reg;
     (reg, _) \<leftarrow> submit_ok db now (plain_request VisionAnalysis Realtime) reg;
     (reg, _) \<leftarrow> submit_ok db now (plain_request EmbedBatch Batch) reg;
     ensure (queue_snapshots (inner reg) =
       [\<lparr>qs_priority = ''realtime'', qs_kind = ''vision_analysis'', qs_depth = 2\<rparr>,
        \<lparr>qs_priority = ''batch'', qs_kind = ''embed_batch'', qs_depth = 1\<rparr>])
   }"

definition cancelling_job_removes_it_from_queue_depth ::
  "(json, 's) persist \<Rightarrow> nat \<Rightarrow> unit option" where [test_defs]:
  "cancelling_job_removes_it_from_queue_depth db now = do {
     let reg = registry_default;
     (reg, _) \<leftarrow> submit_ok db now (plain_request IndexBuild Background) reg;
     (reg, _) \<leftarrow> submit_ok db now (plain_request IndexBuild Background) reg;
     let (reg, _) = cancel db now ''job-1'' reg;
     ensure (queue_snapshots (inner reg) =
       [\<lparr>qs_priority = ''background'', qs_kind = ''index_build'', qs_depth = 1\<rparr>])
   }"

definition queued_jobs_by_priority_returns_priority_order_and_skips_cancelled_jobs ::
  "(json, 's) persist \<Rightarrow> nat \<Rightarrow> unit option" where [test_defs]:
  "queued_jobs_by_priority_returns_priority_order_and_skips_cancelled_jobs db now = do {
     let reg = registry_default;
     (reg, _) \<leftarrow> submit_ok db now (plain_request IndexBuild Background) reg;
     (reg, _) \<leftarrow> submit_ok db now (plain_request EmbedBatch Realtime) reg;
     (reg, _) \<leftarrow> submit_ok db now (plain_request VisionAnalysis Batch) reg;
     let (reg, _) = cancel db now ''job-2'' reg;
     ensure (queued_ids reg = [''job-3'', ''job-1''])
   }"

definition claim_next_for_worker_marks_job_running_and_removes_it_from_queue ::
  "(json, 's) persist \<Rightarrow> nat \<Rightarrow> unit option" where [test_defs]:
  "claim_next_for_worker_marks_job_running_and_removes_it_from_queue db now = do {
     let reg = registry_default;
     (reg, _) \<leftarrow> submit_ok db now (plain_request VisionAnalysis Batch) reg;
     (reg, claimed) \<leftarrow> claim_ok db now ''worker-a'' [VisionAnalysis] 30000 reg;
     ensure (job_id claimed = ''job-1'');
     ensure (job_status claimed = Running);
     ensure (attempts claimed = 1);
     lease \<leftarrow> job_lease claimed;
     ensure (lease_worker_id lease = ''worker-a'');
     ensure (lease_attempt lease = 1);
     ensure (lease_expires_at lease \<ge> lease_claimed_at lease + 30000);
     ensure (queue_snapshots (inner reg) = []);
     ensure (queued_jobs_by_priority reg = [])
   }"

definition claim_next_for_worker_uses_priority_then_fifo_order ::
  "(json, 's) persist \<Rightarrow> nat \<Rightarrow> unit option" where [test_defs]:
  "claim_next_for_worker_uses_priority_then_fifo_order db now = do {
     let reg = registry_default;
     (reg, _) \<leftarrow> submit_ok db now (plain_request VisionAnalysis Background) reg;
     (reg, _) \<leftarrow> submit_ok db now (plain_request VisionAnalysis Batch) reg;
     (reg, _) \<leftarrow> submit_ok db now (plain_request VisionAnalysis Batch) reg;
     (reg, first) \<leftarrow> claim_ok db now ''worker-a'' [VisionAnalysis] 30000 reg;
     (reg, second) \<leftarrow> claim_ok db now ''worker-a'' [VisionAnalysis] 30000 reg;
     ensure (job_id first = ''job-2'');
     ensure (job_id second = ''job-3'')
   }"

definition cancelling_running_job_marks_it_cancelled ::
  "(json, 's) persist \<Rightarrow> nat \<Rightarrow> unit option" where [test_defs]:
  "cancelling_running_job_marks_it_cancelled db now = do {
     let reg = registry_default;
     (reg, _) \<leftarrow> submit_ok db now (plain_request EmbedBatch Realtime) reg;
     (reg, _) \<leftarrow> claim_ok db now ''worker-a'' [EmbedBatch] 30000 reg;
     let (reg, result) = cancel db now ''job-1'' reg;
     job \<leftarrow> (case result of Cancel_Cancelled job \<Rightarrow> Some job | _ \<Rightarrow> None);
     ensure (job_status job = Cancelled);
     ensure (job_lease job \<noteq> None)
   }"

definition cancelling_running_job_prevents_later_lease_renewal ::
  "(json, 's) persist \<Rightarrow> nat \<Rightarrow> unit option" where [test_defs]:
  "cancelling_running_job_prevents_later_lease_renewal db now = do {
     let reg = registry_default;
     (reg, _) \<leftarrow> submit_ok db now (plain_request VisionAnalysis Batch) reg;
     (reg, _) \<leftarrow> claim_ok db now ''worker-a'' [VisionAnalysis] 30000 reg;
     let (reg, _) = cancel db now ''job-1'' reg;
     let (reg, result) = renew_lease db now ''job-1'' ''worker-a'' 30000 reg;
     job \<leftarrow> (case result of Renew_NotRunning job \<Rightarrow> Some job | _ \<Rightarrow> None);
     ensure (job_status job = Cancelled);
     ensure (job_lease job \<noteq> None)
   }"

lemma claim_tests_pass:
  "passes (queue_snapshots_count_queued_jobs_by_priority_and_type db now)"
  "passes (cancelling_job_removes_it_from_queue_depth db now)"
  "passes (queued_jobs_by_priority_returns_priority_order_and_skips_cancelled_jobs db now)"
  "passes (claim_next_for_worker_marks_job_running_and_removes_it_from_queue db now)"
  "passes (claim_next_for_worker_uses_priority_then_fifo_order db now)"
  "passes (cancelling_running_job_marks_it_cancelled db now)"
  "passes (cancelling_running_job_prevents_later_lease_renewal db now)"
  by (simp_all add: test_defs jobs_eval leases_eval snapshots_eval)


section \<open>Expired leases\<close>

definition attempt_timed_out :: "bool \<Rightarrow> job_failure" where [test_defs]:
  "attempt_timed_out retry = \<lparr>message = ATTEMPT_TIMEOUT_ERROR, retryable = retry\<rparr>"

definition requeue_expired_leases_requeues_running_job_when_attempts_remain ::
  "(json, 's) persist \<Rightarrow> nat \<Rightarrow> unit option" where [test_defs]:
  "requeue_expired_leases_requeues_running_job_when_attempts_remain db now = do {
     let reg = registry_default;
     (reg, _) \<leftarrow> submit_ok db now (plain_request VisionAnalysis Batch) reg;
     (reg, _) \<leftarrow> claim_ok db now ''worker-a'' [VisionAnalysis] 0 reg;
     let (reg, report) = requeue_expired_leases db now reg;
     ensure (requeued report = 1);
     ensure (failed report = 0);
     ensure (released_workers report = [''worker-a'']);
     ensure (failed_jobs report = []);
     job \<leftarrow> get_job_record ''job-1'' reg;
     ensure (job_status job = Queued);
     ensure (attempts job = 1);
     ensure (job_error job = Some (attempt_timed_out True));
     ensure (job_lease job = None);
     ensure (queued_ids reg = [''job-1'']);
     (reg, reclaimed) \<leftarrow> claim_ok db now ''worker-b'' [VisionAnalysis] 30000 reg;
     ensure (job_status reclaimed = Running);
     ensure (attempts reclaimed = 2);
     lease \<leftarrow> job_lease reclaimed;
     ensure (lease_worker_id lease = ''worker-b'')
   }"

text \<open>One turn of the loop of the next test.\<close>

definition claim_and_expire ::
  "(json, 's) persist \<Rightarrow> nat \<Rightarrow> (json, 's) job_registry \<Rightarrow> (json, 's) job_registry option" where [test_defs]:
  "claim_and_expire db now reg = do {
     (reg, _) \<leftarrow> claim_ok db now ''worker-a'' [Cluster] 0 reg;
     let (reg, report) = requeue_expired_leases db now reg;
     ensure (requeued report = 1);
     ensure (failed report = 0);
     Some reg
   }"

definition requeue_expired_leases_fails_job_when_attempts_are_exhausted ::
  "(json, 's) persist \<Rightarrow> nat \<Rightarrow> unit option" where [test_defs]:
  "requeue_expired_leases_fails_job_when_attempts_are_exhausted db now = do {
     let reg = registry_default;
     (reg, _) \<leftarrow> submit_ok db now (plain_request Cluster Background) reg;
     reg \<leftarrow> claim_and_expire db now reg;
     reg \<leftarrow> claim_and_expire db now reg;
     (reg, _) \<leftarrow> claim_ok db now ''worker-a'' [Cluster] 0 reg;
     let (reg, report) = requeue_expired_leases db now reg;
     ensure (requeued report = 0);
     ensure (failed report = 1);
     ensure (released_workers report = [''worker-a'']);
     ensure (map job_id (failed_jobs report) = [''job-1'']);
     job \<leftarrow> get_job_record ''job-1'' reg;
     ensure (job_status job = Failed);
     ensure (attempts job = max_attempts job);
     ensure (job_error job = Some (attempt_timed_out False));
     ensure (job_lease job = None);
     ensure (queued_jobs_by_priority reg = [])
   }"

definition requeue_expired_leases_ignores_fresh_and_terminal_jobs ::
  "(json, 's) persist \<Rightarrow> nat \<Rightarrow> unit option" where [test_defs]:
  "requeue_expired_leases_ignores_fresh_and_terminal_jobs db now = do {
     let reg = registry_default;
     (reg, _) \<leftarrow> submit_ok db now (plain_request EmbedBatch Realtime) reg;
     (reg, _) \<leftarrow> submit_ok db now (plain_request IndexBuild Background) reg;
     (reg, _) \<leftarrow> claim_ok db now ''worker-a'' [EmbedBatch] 30000 reg;
     (reg, _) \<leftarrow> claim_ok db now ''worker-a'' [IndexBuild] 0 reg;
     let (reg, _) = cancel db now ''job-2'' reg;
     let (reg, report) = requeue_expired_leases db now reg;
     ensure (requeued report = 0);
     ensure (failed report = 0);
     ensure (released_workers report = []);
     ensure (failed_jobs report = []);
     ensure (status_of ''job-1'' reg = Some Running);
     ensure (status_of ''job-2'' reg = Some Cancelled);
     ensure (queued_jobs_by_priority reg = [])
   }"

definition cancelling_requeued_expired_job_prevents_future_claim ::
  "(json, 's) persist \<Rightarrow> nat \<Rightarrow> unit option" where [test_defs]:
  "cancelling_requeued_expired_job_prevents_future_claim db now = do {
     let reg = registry_default;
     (reg, _) \<leftarrow> submit_ok db now (plain_request Cluster Background) reg;
     (reg, _) \<leftarrow> claim_ok db now ''worker-a'' [Cluster] 0 reg;
     let (reg, report) = requeue_expired_leases db now reg;
     ensure (requeued report = 1);
     let (reg, _) = cancel db now ''job-1'' reg;
     let (reg, claimed) = claim_next_for_worker db now ''worker-b'' [Cluster] 30000 reg;
     ensure (claimed = None);
     ensure (queue_snapshots (inner reg) = []);
     ensure (status_of ''job-1'' reg = Some Cancelled)
   }"

lemma expiry_tests_pass:
  "passes (requeue_expired_leases_requeues_running_job_when_attempts_remain db now)"
  "passes (requeue_expired_leases_fails_job_when_attempts_are_exhausted db now)"
  "passes (requeue_expired_leases_ignores_fresh_and_terminal_jobs db now)"
  "passes (cancelling_requeued_expired_job_prevents_future_claim db now)"
  by (simp_all add: test_defs jobs_eval leases_eval snapshots_eval sweep_eval)

section \<open>Renewal\<close>

definition renew_lease_extends_current_workers_running_job ::
  "(json, 's) persist \<Rightarrow> nat \<Rightarrow> unit option" where [test_defs]:
  "renew_lease_extends_current_workers_running_job db now = do {
     let reg = registry_default;
     (reg, _) \<leftarrow> submit_ok db now (plain_request VisionAnalysis Batch) reg;
     (reg, claimed) \<leftarrow> claim_ok db now ''worker-a'' [VisionAnalysis] 30000 reg;
     original_lease \<leftarrow> job_lease claimed;
     let now = now + 5;
     let (reg, result) = renew_lease db now ''job-1'' ''worker-a'' 30000 reg;
     job \<leftarrow> (case result of Renew_Renewed job \<Rightarrow> Some job | _ \<Rightarrow> None);
     renewed_lease \<leftarrow> job_lease job;
     ensure (job_status job = Running);
     ensure (attempts job = 1);
     ensure (lease_worker_id renewed_lease = ''worker-a'');
     ensure (lease_attempt renewed_lease = 1);
     ensure (lease_claimed_at renewed_lease = lease_claimed_at original_lease);
     ensure (lease_expires_at renewed_lease > lease_expires_at original_lease)
   }"

definition renew_lease_rejects_expired_lease ::
  "(json, 's) persist \<Rightarrow> nat \<Rightarrow> unit option" where [test_defs]:
  "renew_lease_rejects_expired_lease db now = do {
     let reg = registry_default;
     (reg, _) \<leftarrow> submit_ok db now (plain_request VisionAnalysis Batch) reg;
     (reg, _) \<leftarrow> claim_ok db now ''worker-a'' [VisionAnalysis] 0 reg;
     let (reg, result) = renew_lease db now ''job-1'' ''worker-a'' 30000 reg;
     job \<leftarrow> (case result of Renew_Expired job \<Rightarrow> Some job | _ \<Rightarrow> None);
     ensure (job_status job = Running);
     lease \<leftarrow> job_lease job;
     ensure (lease_worker_id lease = ''worker-a'')
   }"

definition renew_lease_rejects_worker_that_does_not_hold_lease ::
  "(json, 's) persist \<Rightarrow> nat \<Rightarrow> unit option" where [test_defs]:
  "renew_lease_rejects_worker_that_does_not_hold_lease db now = do {
     let reg = registry_default;
     (reg, _) \<leftarrow> submit_ok db now (plain_request EmbedBatch Realtime) reg;
     (reg, _) \<leftarrow> claim_ok db now ''worker-a'' [EmbedBatch] 30000 reg;
     let (reg, result) = renew_lease db now ''job-1'' ''worker-b'' 30000 reg;
     job \<leftarrow> (case result of Renew_LeaseNotHeld job \<Rightarrow> Some job | _ \<Rightarrow> None);
     ensure (job_status job = Running);
     lease \<leftarrow> job_lease job;
     ensure (lease_worker_id lease = ''worker-a'')
   }"

definition renew_lease_rejects_non_running_job ::
  "(json, 's) persist \<Rightarrow> nat \<Rightarrow> unit option" where [test_defs]:
  "renew_lease_rejects_non_running_job db now = do {
     let reg = registry_default;
     (reg, _) \<leftarrow> submit_ok db now (plain_request IndexBuild Background) reg;
     let (reg, queued_result) = renew_lease db now ''job-1'' ''worker-a'' 30000 reg;
     queued_job \<leftarrow> (case queued_result of Renew_NotRunning job \<Rightarrow> Some job | _ \<Rightarrow> None);
     ensure (job_status queued_job = Queued);
     let (reg, _) = cancel db now ''job-1'' reg;
     let (reg, cancelled_result) = renew_lease db now ''job-1'' ''worker-a'' 30000 reg;
     cancelled \<leftarrow> (case cancelled_result of Renew_NotRunning job \<Rightarrow> Some job | _ \<Rightarrow> None);
     ensure (job_status cancelled = Cancelled)
   }"

definition renew_lease_reports_missing_job ::
  "(json, 's) persist \<Rightarrow> nat \<Rightarrow> unit option" where [test_defs]:
  "renew_lease_reports_missing_job db now = do {
     let reg = registry_default;
     let (reg, result) = renew_lease db now ''missing'' ''worker-a'' 30000 reg;
     ensure (result = Renew_NotFound)
   }"

lemma renewal_tests_pass:
  "passes (renew_lease_extends_current_workers_running_job db now)"
  "passes (renew_lease_rejects_expired_lease db now)"
  "passes (renew_lease_rejects_worker_that_does_not_hold_lease db now)"
  "passes (renew_lease_rejects_non_running_job db now)"
  "passes (renew_lease_reports_missing_job db now)"
  by (simp_all add: test_defs jobs_eval leases_eval)


section \<open>Completion and failure\<close>

definition ok_result :: json where [test_defs]:
  "ok_result = J_Object [(''ok'', J_Bool True)]"

definition complete_lease_marks_held_running_job_complete ::
  "(json, 's) persist \<Rightarrow> nat \<Rightarrow> unit option" where [test_defs]:
  "complete_lease_marks_held_running_job_complete db now = do {
     let reg = registry_default;
     (reg, _) \<leftarrow> submit_ok db now (plain_request VisionAnalysis Batch) reg;
     (reg, _) \<leftarrow> claim_ok db now ''worker-a'' [VisionAnalysis] 30000 reg;
     let (reg, result) = complete_lease db now ''job-1'' ''worker-a'' None ok_result reg;
     job \<leftarrow> (case result of Finish_Completed job \<Rightarrow> Some job | _ \<Rightarrow> None);
     ensure (job_status job = Complete);
     ensure (job_result job = Some ok_result);
     ensure (job_error job = None);
     ensure (job_lease job = None);
     ensure (queue_snapshots (inner reg) = [])
   }"

definition lease_not_held :: "'v finish_job_result \<Rightarrow> bool" where [test_defs]:
  "lease_not_held result = (case result of Finish_LeaseNotHeld _ \<Rightarrow> True | _ \<Rightarrow> False)"

definition complete_lease_rejects_wrong_worker_and_expired_lease ::
  "(json, 's) persist \<Rightarrow> nat \<Rightarrow> unit option" where [test_defs]:
  "complete_lease_rejects_wrong_worker_and_expired_lease db now = do {
     let reg = registry_default;
     (reg, _) \<leftarrow> submit_ok db now (plain_request EmbedBatch Realtime) reg;
     (reg, _) \<leftarrow> claim_ok db now ''worker-a'' [EmbedBatch] 30000 reg;
     let (reg, wrong_worker) = complete_lease db now ''job-1'' ''worker-b'' None J_Null reg;
     ensure (lease_not_held wrong_worker);
     let (reg, wrong_attempt) = complete_lease db now ''job-1'' ''worker-a'' (Some 2) J_Null reg;
     ensure (lease_not_held wrong_attempt);
     (reg, _) \<leftarrow> submit_ok db now (plain_request Cluster Batch) reg;
     (reg, _) \<leftarrow> claim_ok db now ''worker-a'' [Cluster] 0 reg;
     let (reg, expired) = complete_lease db now ''job-2'' ''worker-a'' None J_Null reg;
     ensure (case expired of Finish_Expired _ \<Rightarrow> True | _ \<Rightarrow> False)
   }"

definition fail_lease_requeues_retryable_failure_when_attempts_remain ::
  "(json, 's) persist \<Rightarrow> nat \<Rightarrow> unit option" where [test_defs]:
  "fail_lease_requeues_retryable_failure_when_attempts_remain db now = do {
     let reg = registry_default;
     (reg, _) \<leftarrow> submit_ok db now (plain_request IndexBuild Background) reg;
     (reg, _) \<leftarrow> claim_ok db now ''worker-a'' [IndexBuild] 30000 reg;
     let failure = \<lparr>message = ''transient oom'', retryable = True\<rparr>;
     let (reg, result) = fail_lease db now ''job-1'' ''worker-a'' None failure reg;
     job \<leftarrow> (case result of Finish_Requeued job \<Rightarrow> Some job | _ \<Rightarrow> None);
     ensure (job_status job = Queued);
     ensure (attempts job = 1);
     ensure (job_lease job = None);
     ensure (job_error job = Some failure);
     ensure (queued_ids reg = [''job-1''])
   }"

definition fail_lease_rejects_mismatched_running_attempt ::
  "(json, 's) persist \<Rightarrow> nat \<Rightarrow> unit option" where [test_defs]:
  "fail_lease_rejects_mismatched_running_attempt db now = do {
     let reg = registry_default;
     (reg, _) \<leftarrow> submit_ok db now (plain_request IndexBuild Background) reg;
     (reg, _) \<leftarrow> claim_ok db now ''worker-a'' [IndexBuild] 30000 reg;
     let (reg, result) = fail_lease db now ''job-1'' ''worker-a'' (Some 2)
       \<lparr>message = ''wrong attempt'', retryable = False\<rparr> reg;
     ensure (lease_not_held result);
     job \<leftarrow> get_job_record ''job-1'' reg;
     ensure (job_status job = Running);
     ensure (job_error job = None);
     ensure (job_lease job \<noteq> None)
   }"

definition bad_input :: job_failure where [test_defs]:
  "bad_input = \<lparr>message = ''bad input'', retryable = False\<rparr>"

text \<open>One turn of the loop of the next test, and what follows it.\<close>

definition claim_and_fail ::
  "(json, 's) persist \<Rightarrow> nat \<Rightarrow> (json, 's) job_registry
     \<Rightarrow> ((json, 's) job_registry \<times> json finish_job_result) option" where [test_defs]:
  "claim_and_fail db now reg = do {
     (reg, _) \<leftarrow> claim_ok db now ''worker-a'' [EmbedBatch] 30000 reg;
     Some (fail_lease db now ''job-2'' ''worker-a'' None
       \<lparr>message = ''temporary failure'', retryable = True\<rparr> reg)
   }"

definition was_requeued :: "'v finish_job_result \<Rightarrow> bool" where [test_defs]:
  "was_requeued result = (case result of Finish_Requeued _ \<Rightarrow> True | _ \<Rightarrow> False)"

definition fail_lease_marks_non_retryable_or_exhausted_failure_failed ::
  "(json, 's) persist \<Rightarrow> nat \<Rightarrow> unit option" where [test_defs]:
  "fail_lease_marks_non_retryable_or_exhausted_failure_failed db now = do {
     let reg = registry_default;
     (reg, _) \<leftarrow> submit_ok db now (plain_request Cluster Batch) reg;
     (reg, _) \<leftarrow> claim_ok db now ''worker-a'' [Cluster] 30000 reg;
     let (reg, non_retryable) = fail_lease db now ''job-1'' ''worker-a'' None bad_input reg;
     job \<leftarrow> (case non_retryable of Finish_Failed job \<Rightarrow> Some job | _ \<Rightarrow> None);
     ensure (job_status job = Failed);
     ensure (job_lease job = None);
     (reg, _) \<leftarrow> submit_ok db now (plain_request EmbedBatch Realtime) reg;
     (reg, result) \<leftarrow> claim_and_fail db now reg;
     ensure (was_requeued result);
     (reg, result) \<leftarrow> claim_and_fail db now reg;
     ensure (was_requeued result);
     (reg, exhausted) \<leftarrow> claim_and_fail db now reg;
     job \<leftarrow> (case exhausted of Finish_Failed job \<Rightarrow> Some job | _ \<Rightarrow> None);
     ensure (job_status job = Failed);
     ensure (attempts job = max_attempts job);
     ensure (queued_jobs_by_priority reg = [])
   }"

lemma finish_tests_pass:
  "passes (complete_lease_marks_held_running_job_complete db now)"
  "passes (complete_lease_rejects_wrong_worker_and_expired_lease db now)"
  "passes (fail_lease_requeues_retryable_failure_when_attempts_remain db now)"
  "passes (fail_lease_rejects_mismatched_running_attempt db now)"
  "passes (fail_lease_marks_non_retryable_or_exhausted_failure_failed db now)"
  by (simp_all add: test_defs jobs_eval leases_eval snapshots_eval)

section \<open>Metric snapshots\<close>

definition queue_wait_snapshots_measure_queued_job_age_by_priority_and_type ::
  "(json, 's) persist \<Rightarrow> nat \<Rightarrow> unit option" where [test_defs]:
  "queue_wait_snapshots_measure_queued_job_age_by_priority_and_type db now = do {
     let reg = registry_default;
     (reg, _) \<leftarrow> submit_ok db now (plain_request VisionAnalysis Batch) reg;
     (reg, _) \<leftarrow> submit_ok db now (plain_request VisionAnalysis Batch) reg;
     let now = now + 10;
     let snapshots = queue_wait_snapshots now (inner reg);
     ensure (length snapshots = 1);
     ensure (qw_priority (snapshots ! 0) = ''batch'');
     ensure (qw_kind (snapshots ! 0) = ''vision_analysis'');
     ensure (qw_count (snapshots ! 0) = 2);
     ensure (qw_wait_sum (snapshots ! 0) > 0);
     ensure (qw_wait_max (snapshots ! 0) > 0)
   }"

definition terminal_duration_snapshots_group_terminal_jobs ::
  "(json, 's) persist \<Rightarrow> nat \<Rightarrow> unit option" where [test_defs]:
  "terminal_duration_snapshots_group_terminal_jobs db now = do {
     let reg = registry_default;
     (reg, _) \<leftarrow> submit_ok db now (plain_request VisionAnalysis Batch) reg;
     (reg, _) \<leftarrow> submit_ok db now (plain_request EmbedBatch Realtime) reg;
     (reg, _) \<leftarrow> submit_ok db now (plain_request Cluster Background) reg;
     let now = now + 5;
     (reg, _) \<leftarrow> claim_ok db now ''worker-a'' [VisionAnalysis] 30000 reg;
     let (reg, _) = complete_lease db now ''job-1'' ''worker-a'' None ok_result reg;
     let (reg, _) = cancel db now ''job-2'' reg;
     let snapshots = terminal_duration_snapshots (inner reg);
     ensure (length snapshots = 2);
     ensure (jd_priority (snapshots ! 0) = ''realtime'');
     ensure (jd_kind (snapshots ! 0) = ''embed_batch'');
     ensure (jd_status (snapshots ! 0) = ''cancelled'');
     ensure (jd_count (snapshots ! 0) = 1);
     ensure (jd_priority (snapshots ! 1) = ''batch'');
     ensure (jd_kind (snapshots ! 1) = ''vision_analysis'');
     ensure (jd_status (snapshots ! 1) = ''complete'');
     ensure (jd_count (snapshots ! 1) = 1);
     ensure (jd_duration_sum (snapshots ! 1) > 0);
     ensure (jd_duration_max (snapshots ! 1) > 0)
   }"

definition cancelling_job_removes_it_from_queue_wait_snapshots ::
  "(json, 's) persist \<Rightarrow> nat \<Rightarrow> unit option" where [test_defs]:
  "cancelling_job_removes_it_from_queue_wait_snapshots db now = do {
     let reg = registry_default;
     (reg, _) \<leftarrow> submit_ok db now (plain_request IndexBuild Background) reg;
     (reg, _) \<leftarrow> submit_ok db now (plain_request IndexBuild Background) reg;
     let (reg, _) = cancel db now ''job-1'' reg;
     let snapshots = queue_wait_snapshots now (inner reg);
     ensure (length snapshots = 1);
     ensure (qw_priority (snapshots ! 0) = ''background'');
     ensure (qw_kind (snapshots ! 0) = ''index_build'');
     ensure (qw_count (snapshots ! 0) = 1)
   }"

lemma snapshot_tests_pass:
  "passes (queue_wait_snapshots_measure_queued_job_age_by_priority_and_type db now)"
  "passes (terminal_duration_snapshots_group_terminal_jobs db now)"
  "passes (cancelling_job_removes_it_from_queue_wait_snapshots db now)"
  by (simp_all add: test_defs jobs_eval leases_eval snapshots_eval less_prod_def less_eq_prod_def)

section \<open>Pruning\<close>

text \<open>A claim by \<open>worker-a\<close> followed by the completion of the job with the given id.\<close>

definition run_to_completion ::
  "(json, 's) persist \<Rightarrow> nat \<Rightarrow> job_kind \<Rightarrow> string \<Rightarrow> (json, 's) job_registry
     \<Rightarrow> (json, 's) job_registry option" where [test_defs]:
  "run_to_completion db now kind jid reg = do {
     (reg, _) \<leftarrow> claim_ok db now ''worker-a'' [kind] 30000 reg;
     let (reg, _) = complete_lease db now jid ''worker-a'' None ok_result reg;
     Some reg
   }"

definition call_me :: "string \<Rightarrow> job_kind \<Rightarrow> json submit_job_request" where [test_defs]:
  "call_me url kind =
     \<lparr>req_kind = kind, req_priority = Batch, req_payload = J_Null, req_callback_url = Some url,
      req_idempotency_key = None\<rparr>"

definition prune_terminal_jobs_removes_only_eligible_terminal_jobs ::
  "(json, 's) persist \<Rightarrow> nat \<Rightarrow> unit option" where [test_defs]:
  "prune_terminal_jobs_removes_only_eligible_terminal_jobs db now = do {
     let reg = registry_new \<lparr>terminal_retention_ms = 60000, max_pruned_jobs = 10\<rparr>;
     (reg, _) \<leftarrow> submit_ok db now (plain_request VisionAnalysis Batch) reg;
     (reg, _) \<leftarrow> submit_ok db now (plain_request Cluster Batch) reg;
     (reg, _) \<leftarrow> submit_ok db now (plain_request EmbedBatch Batch) reg;
     (reg, _) \<leftarrow> submit_ok db now (plain_request IndexBuild Batch) reg;
     (reg, _) \<leftarrow> submit_ok db now (plain_request VisionAnalysis Batch) reg;
     (reg, _) \<leftarrow> submit_ok db now (plain_request Cluster Batch) reg;
     (reg, _) \<leftarrow> submit_ok db now (call_me ''http://rhizome/jobs/job-7'' EmbedBatch) reg;
     reg \<leftarrow> run_to_completion db now VisionAnalysis ''job-1'' reg;
     (reg, _) \<leftarrow> claim_ok db now ''worker-a'' [Cluster] 30000 reg;
     let (reg, _) = fail_lease db now ''job-2'' ''worker-a'' None bad_input reg;
     let (reg, _) = cancel db now ''job-3'' reg;
     reg \<leftarrow> run_to_completion db now IndexBuild ''job-4'' reg;
     reg \<leftarrow> run_to_completion db now VisionAnalysis ''job-5'' reg;
     reg \<leftarrow> run_to_completion db now EmbedBatch ''job-7'' reg;
     reg \<leftarrow> age_job_updated_at now ''job-1'' 120000 reg;
     reg \<leftarrow> age_job_updated_at now ''job-2'' 120000 reg;
     reg \<leftarrow> age_job_updated_at now ''job-3'' 120000 reg;
     reg \<leftarrow> age_job_updated_at now ''job-4'' 30000 reg;
     reg \<leftarrow> age_job_updated_at now ''job-7'' 120000 reg;
     let (reg, report) = prune_terminal_jobs db now reg;
     ensure (removed report = 3);
     ensure (retained_pending_callbacks report = 1);
     ensure (by_status report =
       [\<lparr>ps_status = ''complete'', ps_removed = 1\<rparr>, \<lparr>ps_status = ''failed'', ps_removed = 1\<rparr>,
        \<lparr>ps_status = ''cancelled'', ps_removed = 1\<rparr>]);
     ensure (get_job_record ''job-1'' reg = None);
     ensure (get_job_record ''job-2'' reg = None);
     ensure (get_job_record ''job-3'' reg = None);
     ensure (get_job_record ''job-4'' reg \<noteq> None);
     ensure (get_job_record ''job-5'' reg \<noteq> None);
     ensure (get_job_record ''job-6'' reg \<noteq> None);
     ensure (get_job_record ''job-7'' reg \<noteq> None)
   }"

definition prune_terminal_jobs_respects_max_prune_limit ::
  "(json, 's) persist \<Rightarrow> nat \<Rightarrow> unit option" where [test_defs]:
  "prune_terminal_jobs_respects_max_prune_limit db now = do {
     let reg = registry_new \<lparr>terminal_retention_ms = 0, max_pruned_jobs = 2\<rparr>;
     (reg, _) \<leftarrow> submit_ok db now (plain_request VisionAnalysis Batch) reg;
     (reg, _) \<leftarrow> submit_ok db now (plain_request VisionAnalysis Batch) reg;
     (reg, _) \<leftarrow> submit_ok db now (plain_request VisionAnalysis Batch) reg;
     reg \<leftarrow> run_to_completion db now VisionAnalysis ''job-1'' reg;
     reg \<leftarrow> run_to_completion db now VisionAnalysis ''job-2'' reg;
     reg \<leftarrow> run_to_completion db now VisionAnalysis ''job-3'' reg;
     let (reg, report) = prune_terminal_jobs db now reg;
     ensure (removed report = 2);
     ensure (get_job_record ''job-1'' reg = None);
     ensure (get_job_record ''job-2'' reg = None);
     ensure (get_job_record ''job-3'' reg \<noteq> None)
   }"

definition prune_terminal_jobs_removes_delivered_callback_jobs ::
  "(json, 's) persist \<Rightarrow> nat \<Rightarrow> unit option" where [test_defs]:
  "prune_terminal_jobs_removes_delivered_callback_jobs db now = do {
     let reg = registry_new \<lparr>terminal_retention_ms = 0, max_pruned_jobs = 10\<rparr>;
     (reg, _) \<leftarrow> submit_ok db now (call_me ''http://rhizome/jobs/job-1'' VisionAnalysis) reg;
     reg \<leftarrow> run_to_completion db now VisionAnalysis ''job-1'' reg;
     let (reg, pending) = prune_terminal_jobs db now reg;
     ensure (removed pending = 0);
     ensure (retained_pending_callbacks pending = 1);
     ensure (get_job_record ''job-1'' reg \<noteq> None);
     let (reg, recorded) = record_callback_success db now ''job-1'' 200 reg;
     _ \<leftarrow> recorded;
     let (reg, delivered) = prune_terminal_jobs db now reg;
     ensure (removed delivered = 1);
     ensure (retained_pending_callbacks delivered = 0);
     ensure (get_job_record ''job-1'' reg = None)
   }"

definition delivered_callback_jobs_are_not_dispatched_again ::
  "(json, 's) persist \<Rightarrow> nat \<Rightarrow> unit option" where [test_defs]:
  "delivered_callback_jobs_are_not_dispatched_again db now = do {
     let reg = registry_default;
     (reg, _) \<leftarrow> submit_ok db now (call_me ''http://rhizome/jobs/job-1'' VisionAnalysis) reg;
     reg \<leftarrow> run_to_completion db now VisionAnalysis ''job-1'' reg;
     ensure (length (pending_callback_jobs reg) = 1);
     let (reg, recorded) = record_callback_success db now ''job-1'' 200 reg;
     _ \<leftarrow> recorded;
     ensure (pending_callback_jobs reg = []);
     let (reg, begun) = begin_callback_attempt db now ''job-1'' reg;
     ensure (begun = None)
   }"

definition prune_terminal_jobs_releases_submit_idempotency_key ::
  "(json, 's) persist \<Rightarrow> nat \<Rightarrow> unit option" where [test_defs]:
  "prune_terminal_jobs_releases_submit_idempotency_key db now = do {
     let reg = registry_new \<lparr>terminal_retention_ms = 0, max_pruned_jobs = 10\<rparr>;
     (reg, _) \<leftarrow> submit_ok db now
       (with_key ''rose-image'' (J_Object [(''image'', J_String ''rose.jpg'')])) reg;
     reg \<leftarrow> run_to_completion db now VisionAnalysis ''job-1'' reg;
     let (reg, report) = prune_terminal_jobs db now reg;
     ensure (removed report = 1);
     (reg, job2) \<leftarrow> submit_ok db now
       (with_key ''rose-image'' (J_Object [(''image'', J_String ''rose-again.jpg'')])) reg;
     ensure (job_id job2 = ''job-2'');
     ensure (length (list_jobs reg) = 1)
   }"

definition prune_terminal_jobs_preserves_queued_and_running_jobs ::
  "(json, 's) persist \<Rightarrow> nat \<Rightarrow> unit option" where [test_defs]:
  "prune_terminal_jobs_preserves_queued_and_running_jobs db now = do {
     let reg = registry_new \<lparr>terminal_retention_ms = 0, max_pruned_jobs = 10\<rparr>;
     (reg, _) \<leftarrow> submit_ok db now (plain_request VisionAnalysis Batch) reg;
     (reg, _) \<leftarrow> submit_ok db now (plain_request EmbedBatch Batch) reg;
     (reg, _) \<leftarrow> submit_ok db now (plain_request Cluster Batch) reg;
     reg \<leftarrow> run_to_completion db now VisionAnalysis ''job-1'' reg;
     (reg, _) \<leftarrow> claim_ok db now ''worker-b'' [EmbedBatch] 30000 reg;
     let (reg, report) = prune_terminal_jobs db now reg;
     ensure (removed report = 1);
     ensure (get_job_record ''job-1'' reg = None);
     ensure (status_of ''job-2'' reg = Some Running);
     ensure (status_of ''job-3'' reg = Some Queued);
     (reg, claimed) \<leftarrow> claim_ok db now ''worker-c'' [Cluster] 30000 reg;
     ensure (job_id claimed = ''job-3'');
     ensure (job_status claimed = Running)
   }"

lemmas prune_eval = prune_terminal_jobs_def prune_terminal_jobs_locked_def prune_remove_def has_pending_callback_def
  prune_report_default_def record_removed_def status_rank_def record_callback_success_def begin_callback_attempt_def
  pending_callback_jobs_def callback_pending_def

text \<open>The clock of the first test is later than two minutes after the epoch.\<close>

lemma prune_tests_pass:
  "120000 \<le> now \<Longrightarrow> passes (prune_terminal_jobs_removes_only_eligible_terminal_jobs db now)"
  "passes (prune_terminal_jobs_respects_max_prune_limit db now)"
  "passes (prune_terminal_jobs_removes_delivered_callback_jobs db now)"
  "passes (delivered_callback_jobs_are_not_dispatched_again db now)"
  "passes (prune_terminal_jobs_releases_submit_idempotency_key db now)"
  "passes (prune_terminal_jobs_preserves_queued_and_running_jobs db now)"
  by (simp_all add: test_defs jobs_eval leases_eval prune_eval eval_defs)

end
