(* ===== verification/Test_Page.thy ===== *)
theory Test_Page
  imports Test_App
begin

text \<open>
  The metrics page as the tests read it: \<open>GET /metrics\<close> on the application of a test, and the search for
  a series in its text. Every part of the page is read from the application as it is at that moment.
\<close>

definition app_view :: "test_world \<Rightarrow> (json, nat) app_state \<Rightarrow> (json, nat) metrics_view" where
  "app_view w app =
     \<lparr>mv_backends = px_backends (app_proxy app), mv_counters = st_metrics (app_async app),
      mv_limiter = px_limiter (app_proxy app), mv_resources = (tw_clock w, px_resources (app_proxy app)),
      mv_queued = inner (app_jobs app), mv_waiting = (tw_now w, inner (app_jobs app)),
      mv_terminal = inner (app_jobs app), mv_available = (tw_clock w, app_workers app),
      mv_utilized = (tw_clock w, app_workers app)\<rparr>"

definition page_text :: "('v, 's) metrics_view \<Rightarrow> string" where
  "page_text v = snd (snd (metrics_page v))"

definition fetch_metrics :: "test_world \<Rightarrow> (json, nat) app_state \<Rightarrow> json http_response" where
  "fetch_metrics w app = snd (serve ((world_env w)\<lparr>he_view := app_view w app\<rparr>) (bare GET ''/metrics'') app)"

fun page_of :: "'v http_response \<Rightarrow> string option" where
  "page_of (Page status kind t) = Some t"
| "page_of _ = None"

text \<open>A series of the exposition format with its value, as the tests spell it.\<close>

definition series :: "string \<Rightarrow> (string \<times> string) list \<Rightarrow> string \<Rightarrow> string" where
  "series name labels value =
     name @ ''{'' @ join_with '','' (map (\<lambda>(k, v). k @ ''='' @ [qt] @ v @ [qt]) labels) @ ''} '' @ value"

section \<open>Search\<close>

lemma starts_with_iff: "starts_with t s \<longleftrightarrow> (\<exists>b. t = s @ b)"
  by (metis append_take_drop_id starts_with_append starts_with_def)

lemma contains_iff: "contains t s \<longleftrightarrow> (\<exists>a b. t = a @ s @ b)"
proof (induction t)
  case (Cons c t)
  have "(\<exists>a b. c # t = a @ s @ b) \<longleftrightarrow> (\<exists>b. c # t = s @ b) \<or> (\<exists>a b. t = a @ s @ b)"
    by (metis append_Cons append_Nil list.exhaust list.inject)
  with Cons show ?case by (simp only: contains.simps starts_with_iff)
qed simp

lemma contains_append_left: "contains a s \<Longrightarrow> contains (a @ b) s"
  by (auto simp: contains_iff) (metis append.assoc)

lemma contains_append_right: "contains b s \<Longrightarrow> contains (a @ b) s"
  by (auto simp: contains_iff) (metis append.assoc)

lemma contains_concat: "x \<in> set xs \<Longrightarrow> contains (f x) s \<Longrightarrow> contains (concat (map f xs)) s"
  by (induction xs) (auto intro: contains_append_left contains_append_right)

lemma contains_line: "contains (metric_line name labels value) (series name labels value)"
  unfolding contains_iff metric_line_def series_def by (rule exI [of _ "[]"]) simp

text \<open>Where the series of the counters are on the page.\<close>

lemma page_render: "contains (render (mv_counters v)) s \<Longrightarrow> contains (page_text v) s"
  unfolding page_text_def metrics_page_def snd_conv
  by (rule contains_append_right, rule contains_append_left)

lemma page_decisions: "contains (render_decisions (mv_counters v)) s \<Longrightarrow> contains (page_text v) s"
  unfolding render_def by (rule page_render, unfold render_def, rule contains_append_right)

text \<open>A label value that stands on the page as it is.\<close>

definition plain_label :: "string \<Rightarrow> bool" where
  "plain_label s \<longleftrightarrow> qt \<notin> set s \<and> bslash \<notin> set s"

lemma escape_plain: "plain_label s \<Longrightarrow> prometheus_escape s = s"
  by (induction s) (auto simp: plain_label_def prometheus_escape_Cons)

lemmas on_page = contains_append_left contains_append_right contains_line

lemma async_pool_on_page:
  assumes "case map_of (async_pool_decisions (mv_counters v))
      \<lparr>al_kind = k, al_priority = p, al_pool = o', al_worker = i, al_node = n, al_outcome = u\<rparr> of
      None \<Rightarrow> False | Some a \<Rightarrow> nat_to_string (f a) = value"
    and "(name, f) \<in> {(''fairlead_async_pool_selections_total'', aa_decisions),
      (''fairlead_async_pool_candidate_workers_total'', aa_candidate_workers),
      (''fairlead_async_pool_no_compatible_jobs_total'', aa_no_compatible_jobs)}"
    and "list_all plain_label [k, p, o', i, n, u]"
  shows "contains (page_text v) (series name [(''type'', k), (''priority'', p), (''pool'', o'), (''worker'', i),
    (''node'', n), (''outcome'', u)] value)"
proof -
  let ?l = "\<lparr>al_kind = k, al_priority = p, al_pool = o', al_worker = i, al_node = n, al_outcome = u\<rparr>"
  obtain a where a: "(?l, a) \<in> set (async_pool_decisions (mv_counters v))" and v: "nat_to_string (f a) = value"
    using assms(1) by (auto split: option.splits dest: map_of_SomeD)
  have "contains (render_decisions (mv_counters v)) (series name (async_pool_label_list ?l) (nat_to_string (f a)))"
    using assms(2) unfolding render_decisions_def
    by (elim insertE emptyE; simp only: prod.inject; elim conjE; hypsubst; fast intro: contains_concat [OF a] on_page)
  with assms(3) v show ?thesis by (auto intro: page_decisions simp: async_pool_label_list_def escape_plain)
qed

lemma job_prune_rendered_counters:
  assumes "case map_of (job_prunes m) \<lparr>jl_status = st\<rparr> of None \<Rightarrow> False | Some n \<Rightarrow> nat_to_string n = value"
    and "plain_label st"
  shows "contains (render m) (series ''fairlead_job_prunes_total'' [(''status'', st)] value)"
proof -
  obtain n where n: "(\<lparr>jl_status = st\<rparr>, n) \<in> set (job_prunes m)" and v: "nat_to_string n = value"
    using assms(1) by (auto split: option.splits dest: map_of_SomeD)
  have "contains (render_decisions m)
      (series ''fairlead_job_prunes_total'' [(''status'', prometheus_escape (jl_status \<lparr>jl_status = st\<rparr>))] (nat_to_string n))"
    unfolding render_decisions_def by (fast intro: contains_concat [OF n] on_page)
  with assms(2) v show ?thesis
    unfolding render_def by (intro contains_append_right) (simp add: escape_plain)
qed

lemmas job_prune_on_page = page_render [OF job_prune_rendered_counters]

text \<open>Where the gauges are.\<close>

lemma circuit_on_page:
  assumes "list_ex (\<lambda>b. bk_id b = i \<and> bk_url b = u \<and> opt_str (bk_node_id b) = n \<and> bk_pool b = p \<and>
      nat_to_string (circuit_value (cb_state (circuit b))) = value) (mv_backends v)"
    and "list_all plain_label [i, u, n, p]"
  shows "contains (page_text v) (series ''fairlead_circuit_state'' [(''backend'', i), (''url'', u), (''node'', n), (''pool'', p)] value)"
proof -
  obtain b where b: "b \<in> set (mv_backends v)" and eq: "bk_id b = i" "bk_url b = u" "opt_str (bk_node_id b) = n" "bk_pool b = p"
      "nat_to_string (circuit_value (cb_state (circuit b))) = value"
    using assms(1) by (auto simp: list_ex_iff)
  have "contains (render_circuits (mv_backends v)) (series ''fairlead_circuit_state''
      [(''backend'', prometheus_escape (bk_id b)), (''url'', prometheus_escape (bk_url b)),
       (''node'', prometheus_escape (opt_str (bk_node_id b))), (''pool'', prometheus_escape (bk_pool b))]
      (nat_to_string (circuit_value (cb_state (circuit b)))))"
    unfolding render_circuits_def by (fast intro: contains_concat [OF b] on_page)
  then have "contains (page_text v) (series ''fairlead_circuit_state''
      [(''backend'', prometheus_escape (bk_id b)), (''url'', prometheus_escape (bk_url b)),
       (''node'', prometheus_escape (opt_str (bk_node_id b))), (''pool'', prometheus_escape (bk_pool b))]
      (nat_to_string (circuit_value (cb_state (circuit b)))))"
    unfolding page_text_def metrics_page_def snd_conv by (rule contains_append_left)
  with assms(2) eq show ?thesis by (simp add: escape_plain)
qed

lemma after_render:
  assumes "contains (render_priority_metrics (mv_limiter v) @
      (case mv_resources v of (clk, reg) \<Rightarrow> render_resource_metrics clk reg) @
      (case mv_waiting v of (now, i) \<Rightarrow> render_job_queue_metrics now (mv_queued v) i) @
      render_job_duration_metrics (mv_terminal v) @
      (case (mv_available v, mv_utilized v) of ((clk1, reg1), (clk2, reg2)) \<Rightarrow>
         render_worker_metrics clk1 clk2 reg1 reg2)) s"
  shows "contains (page_text v) s"
  using assms unfolding page_text_def metrics_page_def snd_conv by (rule contains_append_right [OF contains_append_right])

lemma priority_on_page:
  assumes "list_ex (\<lambda>s. priority_as_str (sn_priority s) = p \<and> nat_to_string (f s) = value)
      (limiter_snapshots (mv_limiter v))"
    and "(name, f) \<in> {(''fairlead_priority_in_flight'', sn_in_flight), (''fairlead_priority_limit'', sn_limit)}"
  shows "contains (page_text v) (series name [(''priority'', p)] value)"
proof -
  obtain s where s: "s \<in> set (limiter_snapshots (mv_limiter v))" and eq: "priority_as_str (sn_priority s) = p" "nat_to_string (f s) = value"
    using assms(1) by (auto simp: list_ex_iff)
  have "contains (render_priority_metrics (mv_limiter v)) (series name [(''priority'', priority_as_str (sn_priority s))] (nat_to_string (f s)))"
    using assms(2) unfolding render_priority_metrics_def
    by (elim insertE emptyE; simp only: prod.inject; elim conjE; hypsubst; fast intro: contains_concat [OF s] on_page)
  with eq show ?thesis by (intro after_render contains_append_left) simp
qed

lemma resource_lines_have:
  shows "contains (resource_lines s) (series ''fairlead_resource_vram_total_mb'' [(''node'', prometheus_escape (rp_node_id (rs_report s))),
      (''backend'', prometheus_escape (opt_str (rp_backend_id (rs_report s))))] (nat_to_string (rp_total_vram_mb (rs_report s))))"
    "contains (resource_lines s) (series ''fairlead_resource_vram_reserved_mb'' [(''node'', prometheus_escape (rp_node_id (rs_report s))),
      (''backend'', prometheus_escape (opt_str (rp_backend_id (rs_report s))))] (nat_to_string (rp_reserved_vram_mb (rs_report s))))"
    "contains (resource_lines s) (series ''fairlead_resource_vram_available_mb'' [(''node'', prometheus_escape (rp_node_id (rs_report s))),
      (''backend'', prometheus_escape (opt_str (rp_backend_id (rs_report s))))] (nat_to_string (rp_available_vram_mb (rs_report s))))"
    "contains (resource_lines s) (series ''fairlead_resource_report_stale'' [(''node'', prometheus_escape (rp_node_id (rs_report s))),
      (''backend'', prometheus_escape (opt_str (rp_backend_id (rs_report s))))] (nat_to_string (if rs_stale s then 1 else 0)))"
  unfolding resource_lines_def Let_def by (fast intro: on_page)+

lemma resource_on_page:
  assumes "mv_resources v = (clk, reg)"
    and "list_ex (\<lambda>s. rp_node_id (rs_report s) = n \<and> opt_str (rp_backend_id (rs_report s)) = b \<and> f s = value)
      (resource_snapshots clk reg)"
    and "(name, f) \<in> {(''fairlead_resource_vram_total_mb'', \<lambda>s. nat_to_string (rp_total_vram_mb (rs_report s))),
      (''fairlead_resource_vram_reserved_mb'', \<lambda>s. nat_to_string (rp_reserved_vram_mb (rs_report s))),
      (''fairlead_resource_vram_available_mb'', \<lambda>s. nat_to_string (rp_available_vram_mb (rs_report s))),
      (''fairlead_resource_report_stale'', \<lambda>s. nat_to_string (if rs_stale s then 1 else 0))}"
    and "list_all plain_label [n, b]"
  shows "contains (page_text v) (series name [(''node'', n), (''backend'', b)] value)"
proof -
  obtain s where s: "s \<in> set (resource_snapshots clk reg)" and eq: "rp_node_id (rs_report s) = n"
      "opt_str (rp_backend_id (rs_report s)) = b" "f s = value"
    using assms(2) by (auto simp: list_ex_iff)
  have "contains (resource_lines s) (series name
      [(''node'', prometheus_escape (rp_node_id (rs_report s))),
       (''backend'', prometheus_escape (opt_str (rp_backend_id (rs_report s))))] (f s))"
    using assms(3) resource_lines_have [of s] by auto
  then have "contains (render_resource_metrics clk reg) (series name
      [(''node'', prometheus_escape (rp_node_id (rs_report s))),
       (''backend'', prometheus_escape (opt_str (rp_backend_id (rs_report s))))] (f s))"
    unfolding render_resource_metrics_def by (fast intro: contains_concat [OF s] on_page)
  with eq assms(1,4) show ?thesis
    by (intro after_render contains_append_right [OF contains_append_left]) (simp add: escape_plain)
qed

lemma load_on_page:
  assumes "mv_resources v = (clk, reg)"
    and "list_ex (\<lambda>s. rp_node_id (rs_report s) = n \<and> opt_str (rp_backend_id (rs_report s)) = b \<and>
      map_option format_f64 (rp_current_load (rs_report s)) = Some value) (resource_snapshots clk reg)"
    and "list_all plain_label [n, b]"
  shows "contains (page_text v) (series ''fairlead_resource_load'' [(''node'', n), (''backend'', b)] value)"
proof -
  obtain s where s: "s \<in> set (resource_snapshots clk reg)" and eq: "rp_node_id (rs_report s) = n"
      "opt_str (rp_backend_id (rs_report s)) = b" "map_option format_f64 (rp_current_load (rs_report s)) = Some value"
    using assms(2) by (auto simp: list_ex_iff)
  have "contains (resource_lines s) (series ''fairlead_resource_load''
      [(''node'', prometheus_escape (rp_node_id (rs_report s))),
       (''backend'', prometheus_escape (opt_str (rp_backend_id (rs_report s))))] value)"
    unfolding resource_lines_def Let_def eq optional_line_def option.case by (fast intro: on_page)
  then have "contains (render_resource_metrics clk reg) (series ''fairlead_resource_load''
      [(''node'', prometheus_escape (rp_node_id (rs_report s))),
       (''backend'', prometheus_escape (opt_str (rp_backend_id (rs_report s))))] value)"
    unfolding render_resource_metrics_def by (fast intro: contains_concat [OF s] on_page)
  with eq assms(1,3) show ?thesis
    by (intro after_render contains_append_right [OF contains_append_left]) (simp add: escape_plain)
qed

lemma workers_on_page:
  assumes "mv_available v = (clk, reg)"
    and "list_ex (\<lambda>s. wa_job_type s = k \<and> wa_status s = u \<and> nat_to_string (wa_count s) = value)
      (availability_snapshots clk reg)"
    and "list_all plain_label [k, u]"
  shows "contains (page_text v) (series ''fairlead_workers'' [(''type'', k), (''status'', u)] value)"
proof -
  obtain s where s: "s \<in> set (availability_snapshots clk reg)" and eq: "wa_job_type s = k" "wa_status s = u"
      "nat_to_string (wa_count s) = value"
    using assms(2) by (auto simp: list_ex_iff)
  have "contains (render_worker_metrics clk clk2 reg reg2) (series ''fairlead_workers''
      [(''type'', prometheus_escape (wa_job_type s)), (''status'', prometheus_escape (wa_status s))]
      (nat_to_string (wa_count s)))" for clk2 reg2
    unfolding render_worker_metrics_def by (fast intro: contains_concat [OF s] on_page)
  with eq assms(1,3) show ?thesis
    by (intro after_render contains_append_right) (simp add: escape_plain split: prod.split)
qed

lemma worker_lines_have:
  shows "contains (worker_lines s) (series ''fairlead_worker_in_flight_jobs'' (worker_labels s) (nat_to_string (wu_in_flight_jobs s)))"
    "map_option nat_to_string (wu_max_concurrent_jobs s) = Some value \<Longrightarrow>
      contains (worker_lines s) (series ''fairlead_worker_max_concurrent_jobs'' (worker_labels s) value)"
    "map_option nat_to_string (wu_available_job_slots s) = Some value \<Longrightarrow>
      contains (worker_lines s) (series ''fairlead_worker_available_job_slots'' (worker_labels s) value)"
  unfolding worker_lines_def optional_line_def
  by (fast intro: on_page, (simp only: option.case, fast intro: on_page)+)

lemma utilization_on_page:
  assumes "mv_utilized v = (clk, reg)"
    and "list_ex (\<lambda>s. wu_worker_id s = i \<and> opt_str (wu_node_id s) = n \<and> f s = Some value) (utilization_snapshots clk reg)"
    and "(name, f) \<in> {(''fairlead_worker_in_flight_jobs'', \<lambda>s. Some (nat_to_string (wu_in_flight_jobs s))),
      (''fairlead_worker_max_concurrent_jobs'', \<lambda>s. map_option nat_to_string (wu_max_concurrent_jobs s)),
      (''fairlead_worker_available_job_slots'', \<lambda>s. map_option nat_to_string (wu_available_job_slots s))}"
    and "list_all plain_label [i, n]"
  shows "contains (page_text v) (series name [(''worker'', i), (''node'', n)] value)"
proof -
  obtain s where s: "s \<in> set (utilization_snapshots clk reg)" and eq: "wu_worker_id s = i" "opt_str (wu_node_id s) = n"
      "f s = Some value"
    using assms(2) by (auto simp: list_ex_iff)
  have "contains (worker_lines s) (series name (worker_labels s) value)"
    using assms(3) eq(3) worker_lines_have [of s] by auto
  then have "contains (render_worker_metrics clk1 clk reg1 reg) (series name (worker_labels s) value)" for clk1 reg1
    unfolding render_worker_metrics_def by (fast intro: contains_concat [OF s] on_page)
  with eq assms(1,4) show ?thesis
    by (intro after_render contains_append_right) (simp add: worker_labels_def escape_plain split: prod.split)
qed

section \<open>The request\<close>

lemma metrics_rule:
  assumes "world_ok parse w"
  shows "fetch_metrics w app = Page 200 ''text/plain; version=0.0.4; charset=utf-8'' (page_text (app_view w app))"
  using test_routes [OF assms]
  by (simp add: fetch_metrics_def serve_def bare_def world_env_def call_of_def serve_other_def page_text_def metrics_page_def)

lemmas page_series =
  async_pool_on_page [where f = aa_decisions and name = "''fairlead_async_pool_selections_total''", simplified]
  async_pool_on_page [where f = aa_candidate_workers and name = "''fairlead_async_pool_candidate_workers_total''", simplified]
  async_pool_on_page [where f = aa_no_compatible_jobs and name = "''fairlead_async_pool_no_compatible_jobs_total''", simplified]
  priority_on_page [where f = sn_in_flight and name = "''fairlead_priority_in_flight''", simplified]
  priority_on_page [where f = sn_limit and name = "''fairlead_priority_limit''", simplified]
  resource_on_page [where f = "\<lambda>s. nat_to_string (rp_total_vram_mb (rs_report s))"
      and name = "''fairlead_resource_vram_total_mb''", simplified]
  resource_on_page [where f = "\<lambda>s. nat_to_string (rp_reserved_vram_mb (rs_report s))"
      and name = "''fairlead_resource_vram_reserved_mb''", simplified]
  resource_on_page [where f = "\<lambda>s. nat_to_string (rp_available_vram_mb (rs_report s))"
      and name = "''fairlead_resource_vram_available_mb''", simplified]
  resource_on_page [where f = "\<lambda>s. nat_to_string (if rs_stale s then 1 else 0)"
      and name = "''fairlead_resource_report_stale''", simplified]
  utilization_on_page [where f = "\<lambda>s. Some (nat_to_string (wu_in_flight_jobs s))"
      and name = "''fairlead_worker_in_flight_jobs''", simplified]
  utilization_on_page [where f = "\<lambda>s. map_option nat_to_string (wu_max_concurrent_jobs s)"
      and name = "''fairlead_worker_max_concurrent_jobs''", simplified]
  utilization_on_page [where f = "\<lambda>s. map_option nat_to_string (wu_available_job_slots s)"
      and name = "''fairlead_worker_available_job_slots''", simplified]
  job_prune_on_page circuit_on_page load_on_page workers_on_page

lemmas page_eval = page_series app_view_def plain_label_def qt_def bslash_def opt_str_def circuit_value_def

end
