(* ===== verification/Jobs_Http_Tests.thy ===== *)
theory Jobs_Http_Tests
  imports Jobs_Tests Test_Page
begin

text \<open>
  The unit tests of \<open>src/src/jobs.rs\<close> that send requests to the application.
\<close>

section \<open>Fixtures\<close>

definition test_state_with_jobs :: "(json, job_db) job_registry \<Rightarrow> (json, nat) app_state" where [test_defs]:
  "test_state_with_jobs js = test_state js worker_registry_default resource_registry_default"

definition fresh_jobs_app :: "(json, nat) app_state" where [test_defs]:
  "fresh_jobs_app = test_state_with_jobs jobs_default"

definition of_type :: "string \<Rightarrow> json" where [test_defs]:
  "of_type kind = J_Object [(''type'', J_String kind)]"

definition client_error :: "'v http_response \<Rightarrow> bool" where [test_defs]:
  "client_error response = (case http_status response of None \<Rightarrow> False | Some s \<Rightarrow> 400 \<le> s \<and> s < 500)"

definition submit_json :: "test_world \<Rightarrow> json \<Rightarrow> (json, nat) app_state \<Rightarrow> (json, nat) app_state \<times> json http_response" where [test_defs]:
  "submit_json w v app = post_json w ''/v1/jobs'' v app"

section \<open>Submission\<close>

definition submit_job_returns_accepted_queued_job :: "test_world \<Rightarrow> unit option" where [test_defs]:
  "submit_job_returns_accepted_queued_job w = do {
     let app = fresh_jobs_app;
     let (app, response) = submit_json w
       (J_Object [(''type'', J_String ''vision_analysis''), (''priority'', J_String ''batch''),
          (''payload'', J_Object [(''image_id'', J_String ''image-1'')]),
          (''callback_url'', J_String '' http://rhizome/jobs/job-1 '')]) app;
     ensure (http_status response = Some 202);
     job \<leftarrow> job_of response;
     ensure (job_id job = ''job-1'');
     ensure (job_kind job = VisionAnalysis);
     ensure (job_priority job = Batch);
     ensure (job_status job = Queued);
     ensure (payload job = J_Object [(''image_id'', J_String ''image-1'')]);
     ensure (callback_url job = Some ''http://rhizome/jobs/job-1'');
     ensure (attempts job = 0);
     ensure (max_attempts job = 3)
   }"

definition submit_job_reuses_existing_job_for_matching_idempotency_key :: "test_world \<Rightarrow> unit option" where [test_defs]:
  "submit_job_reuses_existing_job_for_matching_idempotency_key w = do {
     let app = fresh_jobs_app;
     let body = J_Object [(''type'', J_String ''vision_analysis''), (''priority'', J_String ''batch''),
          (''payload'', J_Object [(''image_id'', J_String ''image-1'')]),
          (''callback_url'', J_String ''http://rhizome/jobs/image-1''), (''idempotency_key'', J_String '' image-1 '')];
     let (app, first) = submit_json w body app;
     ensure (http_status first = Some 202);
     first_job \<leftarrow> job_of first;
     let (app, second) = submit_json w body app;
     ensure (http_status second = Some 202);
     second_job \<leftarrow> job_of second;
     ensure (job_id first_job = ''job-1'');
     ensure (job_id second_job = ''job-1'');
     ensure (idempotency_key second_job = Some ''image-1'');
     let (app, listed) = fetch w ''/v1/jobs'' app;
     js \<leftarrow> jobs_of listed;
     ensure (length js = 1)
   }"

definition submitted_job_can_be_fetched :: "test_world \<Rightarrow> unit option" where [test_defs]:
  "submitted_job_can_be_fetched w = do {
     let app = fresh_jobs_app;
     let (app, submit) = submit_json w
       (J_Object [(''type'', J_String ''embed_batch''),
          (''payload'', J_Object [(''texts'', J_Array [J_String ''a'', J_String ''b''])])]) app;
     ensure (http_status submit = Some 202);
     let (app, response) = fetch w ''/v1/jobs/job-1'' app;
     ensure (http_status response = Some 200);
     job \<leftarrow> job_of response;
     ensure (job_id job = ''job-1'');
     ensure (job_kind job = EmbedBatch);
     ensure (job_priority job = Realtime)
   }"

definition list_jobs_returns_jobs_in_submission_order :: "test_world \<Rightarrow> unit option" where [test_defs]:
  "list_jobs_returns_jobs_in_submission_order w = do {
     let app = fresh_jobs_app;
     let (app, _) = submit_json w (of_type ''vision_analysis'') app;
     let (app, _) = submit_json w (of_type ''embed_batch'') app;
     let (app, response) = fetch w ''/v1/jobs'' app;
     ensure (http_status response = Some 200);
     js \<leftarrow> jobs_of response;
     ensure (job_id (js ! 0) = ''job-1'');
     ensure (job_kind (js ! 0) = VisionAnalysis);
     ensure (job_id (js ! 1) = ''job-2'');
     ensure (job_kind (js ! 1) = EmbedBatch)
   }"

definition empty_callback_url_returns_400 :: "test_world \<Rightarrow> unit option" where [test_defs]:
  "empty_callback_url_returns_400 w = do {
     let app = fresh_jobs_app;
     let (app, response) = submit_json w
       (J_Object [(''type'', J_String ''vision_analysis''), (''callback_url'', J_String ''   '')]) app;
     ensure (http_status response = Some 400)
   }"

text \<open>The bodies of the next test: four JSON values and a text that is not JSON.\<close>

definition invalid_submissions :: "json list" where [test_defs]:
  "invalid_submissions =
     [J_Object [(''priority'', J_String ''batch'')],
      of_type ''unknown'',
      J_Object [(''type'', J_String ''vision_analysis''), (''priority'', J_String ''urgent'')],
      J_Object [(''type'', J_String ''vision_analysis''), (''idempotency_key'', J_String ''   '')]]"

definition invalid_submit_job_payloads_return_client_errors :: "test_world \<Rightarrow> unit option" where [test_defs]:
  "invalid_submit_job_payloads_return_client_errors w = do {
     let app = fresh_jobs_app;
     ensure (list_all (\<lambda>body. client_error (snd (submit_json w body app))) invalid_submissions);
     ensure (client_error (snd (oneshot w
       \<lparr>hr_method = POST, hr_path = ''/v1/jobs'', hr_headers = json_headers, hr_body = ''{not-json''\<rparr> app)))
   }"

section \<open>Cancellation\<close>

definition cancel_job_marks_queued_job_cancelled :: "test_world \<Rightarrow> unit option" where [test_defs]:
  "cancel_job_marks_queued_job_cancelled w = do {
     let app = fresh_jobs_app;
     let (app, submit) = submit_json w (of_type ''index_build'') app;
     ensure (http_status submit = Some 202);
     let (app, response) = delete w ''/v1/jobs/job-1'' app;
     ensure (http_status response = Some 200);
     job \<leftarrow> job_of response;
     ensure (job_status job = Cancelled);
     let (app, response) = fetch w ''/v1/jobs/job-1'' app;
     job \<leftarrow> job_of response;
     ensure (job_status job = Cancelled)
   }"

definition cancel_already_cancelled_job_returns_existing_job :: "test_world \<Rightarrow> unit option" where [test_defs]:
  "cancel_already_cancelled_job_returns_existing_job w = do {
     let app = fresh_jobs_app;
     let (app, _) = submit_json w (of_type ''cluster'') app;
     let (app, _) = delete w ''/v1/jobs/job-1'' app;
     let (app, response) = delete w ''/v1/jobs/job-1'' app;
     ensure (http_status response = Some 200);
     job \<leftarrow> job_of response;
     ensure (job_status job = Cancelled)
   }"

definition cancel_completed_job_returns_conflict :: "test_world \<Rightarrow> unit option" where [test_defs]:
  "cancel_completed_job_returns_conflict w = do {
     let js = jobs_default;
     (js, _) \<leftarrow> submit_ok (tw_db w) (tw_now w) (plain_request Cluster Batch) js;
     (js, _) \<leftarrow> claim_ok (tw_db w) (tw_now w) ''worker-a'' [Cluster] 30000 js;
     let (js, _) = complete_lease (tw_db w) (tw_now w) ''job-1'' ''worker-a'' None ok_result js;
     let app = test_state_with_jobs js;
     let (app, response) = delete w ''/v1/jobs/job-1'' app;
     ensure (http_status response = Some 409);
     job \<leftarrow> job_of response;
     ensure (job_status job = Complete)
   }"

definition get_unknown_job_returns_404 :: "test_world \<Rightarrow> unit option" where [test_defs]:
  "get_unknown_job_returns_404 w = do {
     let app = fresh_jobs_app;
     let (app, response) = fetch w ''/v1/jobs/missing'' app;
     ensure (http_status response = Some 404)
   }"

section \<open>Pruning\<close>

definition prune_endpoint_returns_report_and_records_metrics :: "test_world \<Rightarrow> unit option" where [test_defs]:
  "prune_endpoint_returns_report_and_records_metrics w = do {
     let js = registry_new \<lparr>terminal_retention_ms = 0, max_pruned_jobs = 1\<rparr>;
     (js, _) \<leftarrow> submit_ok (tw_db w) (tw_now w) (plain_request VisionAnalysis Batch) js;
     (js, _) \<leftarrow> submit_ok (tw_db w) (tw_now w) (plain_request Cluster Batch) js;
     (js, _) \<leftarrow> claim_ok (tw_db w) (tw_now w) ''worker-a'' [VisionAnalysis] 30000 js;
     let (js, _) = complete_lease (tw_db w) (tw_now w) ''job-1'' ''worker-a'' None ok_result js;
     (js, _) \<leftarrow> claim_ok (tw_db w) (tw_now w) ''worker-a'' [Cluster] 30000 js;
     let (js, _) = fail_lease (tw_db w) (tw_now w) ''job-2'' ''worker-a'' None bad_input js;
     let app = test_state_with_jobs js;
     let (app, response) = post_empty w ''/v1/jobs/prune'' app;
     ensure (http_status response = Some 200);
     pruned \<leftarrow> pruned_of response;
     ensure (removed pruned = 1);
     ensure (ps_status (by_status pruned ! 0) = ''complete'');
     ensure (ps_removed (by_status pruned ! 0) = 1);
     let (app, response) = post_empty w ''/v1/jobs/prune'' app;
     ensure (http_status response = Some 200);
     pruned \<leftarrow> pruned_of response;
     ensure (removed pruned = 1);
     ensure (ps_status (by_status pruned ! 0) = ''failed'');
     ensure (ps_removed (by_status pruned ! 0) = 1);
     metrics \<leftarrow> page_of (fetch_metrics w app);
     ensure (contains metrics (series ''fairlead_job_prunes_total'' [(''status'', ''complete'')] ''1''));
     ensure (contains metrics (series ''fairlead_job_prunes_total'' [(''status'', ''failed'')] ''1''))
   }"

lemmas job_handlers_eval = submit_job_def list_jobs_handler_def get_job_def cancel_job_def prune_jobs_def
  prune_jobs_of_def dispatch_job_def release_worker_def record_job_prune_def bump_def metrics_default_def

lemma submit_not_json:
  assumes ok: "world_ok parse w" and not_json: "parse t = None"
  shows "\<exists>msg. hl_submit (he_lib (tw_env w)) json_headers t = Inl (400, msg)"
proof -
  have "json_bodies parse json_headers (he_lib (tw_env w))" using ok by (simp add: world_ok_def)
  then have "extracted decode_submit None (hl_submit (he_lib (tw_env w)) json_headers t)"
    unfolding json_bodies_def not_json [symmetric] by blast
  then show ?thesis by (auto simp: extracted_def split: sum.splits)
qed

lemma job_endpoint_tests_pass:
  assumes ok: "world_ok parse w"
  shows "passes (submit_job_returns_accepted_queued_job w)"
    "passes (submit_job_reuses_existing_job_for_matching_idempotency_key w)"
    "passes (submitted_job_can_be_fetched w)"
    "passes (list_jobs_returns_jobs_in_submission_order w)"
    "passes (empty_callback_url_returns_400 w)"
    "passes (cancel_job_marks_queued_job_cancelled w)"
    "passes (cancel_already_cancelled_job_returns_existing_job w)"
    "passes (cancel_completed_job_returns_conflict w)"
    "passes (get_unknown_job_returns_404 w)"
    "passes (prune_endpoint_returns_report_and_records_metrics w)"
  by (simp_all add: test_defs jobs_eval leases_eval prune_eval trim_eval app_eval route_step test_routes [OF ok]
      percent_rule [OF ok] body_rules [OF ok] bodies_eval job_handlers_eval page_eval metrics_rule [OF ok])

text \<open>The parser refuses the last body.\<close>

lemma invalid_submission_test_passes:
  assumes ok: "world_ok parse w" and not_json: "parse ''{not-json'' = None"
  shows "passes (invalid_submit_job_payloads_return_client_errors w)"
proof -
  obtain msg where "hl_submit (he_lib (tw_env w)) json_headers ''{not-json'' = Inl (400, msg)"
    using submit_not_json [OF ok not_json] by blast
  then show ?thesis
    by (simp add: test_defs jobs_eval trim_eval app_eval route_step test_routes [OF ok] percent_rule [OF ok]
        body_rules [OF ok] bodies_eval job_handlers_eval)
qed

end
