(* ===== verification/Workers_Tests.thy ===== *)
theory Workers_Tests
  imports Test_App
begin

text \<open>
  The unit tests of \<open>src/src/workers.rs\<close>: those that call the registry, at one reading of the clocks, and
  those that send requests to the application.
\<close>

section \<open>The registry\<close>

definition worker_request :: "string option \<Rightarrow> job_kind list \<Rightarrow> nat option \<Rightarrow> register_worker_request" where [test_defs]:
  "worker_request node_id kinds slots =
     \<lparr>rw_id = ''worker-a'', rw_endpoint_url = ''http://worker-a:9000'', rw_node_id = node_id,
      rw_pool = ''default'', rw_job_types = kinds, rw_max_concurrent_jobs = slots, rw_available_vram_mb = None\<rparr>"

text \<open>\<open>register(..).await.unwrap()\<close>\<close>

definition register_ok ::
  "clock \<Rightarrow> register_worker_request \<Rightarrow> worker_registry \<Rightarrow> (worker_registry \<times> worker_snapshot) option" where [test_defs]:
  "register_ok clk request ws =
     (case register clk request ws of (ws, result) \<Rightarrow> map_option (Pair ws) (unwrap result))"

definition is_draining :: "acquire_worker_slot_result \<Rightarrow> bool" where [test_defs]:
  "is_draining result = (case result of Acquire_Draining _ \<Rightarrow> True | _ \<Rightarrow> False)"

definition acquired :: "acquire_worker_slot_result \<Rightarrow> worker_snapshot option" where [test_defs]:
  "acquired result = (case result of Acquired w \<Rightarrow> Some w | _ \<Rightarrow> None)"

definition worker_slots_track_capacity_and_release :: "clock \<Rightarrow> unit option" where [test_defs]:
  "worker_slots_track_capacity_and_release clk = do {
     let ws = worker_registry_default;
     (ws, _) \<leftarrow> register_ok clk (worker_request (Some ''node-a'') [VisionAnalysis] (Some 1)) ws;
     let (ws, result) = try_acquire_slot clk ''worker-a'' ws;
     worker \<leftarrow> acquired result;
     ensure (ws_in_flight_jobs worker = 1);
     ensure (ws_available_job_slots worker = Some 0);
     let (ws, again) = try_acquire_slot clk ''worker-a'' ws;
     ensure (case again of AtCapacity _ \<Rightarrow> True | _ \<Rightarrow> False);
     let (ws, released) = release_slot clk ''worker-a'' ws;
     worker \<leftarrow> released;
     ensure (ws_in_flight_jobs worker = 0);
     ensure (ws_available_job_slots worker = Some 1)
   }"

definition worker_registration_preserves_in_flight_count_on_upsert :: "clock \<Rightarrow> unit option" where [test_defs]:
  "worker_registration_preserves_in_flight_count_on_upsert clk = do {
     let ws = worker_registry_default;
     (ws, _) \<leftarrow> register_ok clk (worker_request None [EmbedBatch] (Some 2)) ws;
     let (ws, _) = try_acquire_slot clk ''worker-a'' ws;
     (ws, updated) \<leftarrow> register_ok clk ((worker_request None [EmbedBatch] (Some 3))
       \<lparr>rw_endpoint_url := ''http://worker-a:9001'', rw_pool := ''vision''\<rparr>) ws;
     ensure (ws_endpoint_url updated = ''http://worker-a:9001'');
     ensure (ws_pool updated = ''vision'');
     ensure (ws_in_flight_jobs updated = 1);
     ensure (ws_available_job_slots updated = Some 2)
   }"

definition worker_registration_and_heartbeat_preserve_draining_state :: "clock \<Rightarrow> unit option" where [test_defs]:
  "worker_registration_and_heartbeat_preserve_draining_state clk = do {
     let ws = worker_registry_default;
     (ws, _) \<leftarrow> register_ok clk (worker_request None [EmbedBatch] (Some 2)) ws;
     let (ws, drained) = drain clk ''worker-a'' ws;
     _ \<leftarrow> drained;
     (ws, updated) \<leftarrow> register_ok clk ((worker_request (Some ''node-a'') [EmbedBatch, Cluster] (Some 3))
       \<lparr>rw_endpoint_url := ''http://worker-a:9001'', rw_pool := ''vision'', rw_available_vram_mb := Some 8192\<rparr>) ws;
     ensure (ws_endpoint_url updated = ''http://worker-a:9001'');
     ensure (ws_pool updated = ''vision'');
     ensure (ws_draining updated);
     ensure (ws_available_job_slots updated = Some 0);
     let (ws, beat) = heartbeat clk ''worker-a'' ws;
     worker \<leftarrow> beat;
     ensure (ws_draining worker);
     ensure (ws_available_job_slots worker = Some 0);
     let (ws, result) = try_acquire_slot clk ''worker-a'' ws;
     ensure (is_draining result)
   }"

definition drain_and_reactivate_toggle_worker_claim_eligibility :: "clock \<Rightarrow> unit option" where [test_defs]:
  "drain_and_reactivate_toggle_worker_claim_eligibility clk = do {
     let ws = worker_registry_default;
     (ws, _) \<leftarrow> register_ok clk (worker_request None [VisionAnalysis] (Some 1)) ws;
     let (ws, drained) = drain clk ''worker-a'' ws;
     worker \<leftarrow> drained;
     ensure (ws_draining worker);
     ensure (ws_available_job_slots worker = Some 0);
     let (ws, result) = try_acquire_slot clk ''worker-a'' ws;
     ensure (is_draining result);
     let (ws, reactivated) = reactivate clk ''worker-a'' ws;
     worker \<leftarrow> reactivated;
     ensure (\<not> ws_draining worker);
     ensure (ws_available_job_slots worker = Some 1);
     let (ws, result) = try_acquire_slot clk ''worker-a'' ws;
     ensure (acquired result \<noteq> None)
   }"

definition stale_draining_worker_is_treated_as_stale_first :: "clock \<Rightarrow> unit option" where [test_defs]:
  "stale_draining_worker_is_treated_as_stale_first clk = do {
     let ws = worker_registry_new 0;
     (ws, _) \<leftarrow> register_ok clk (worker_request None [VisionAnalysis] (Some 1)) ws;
     let (ws, drained) = drain clk ''worker-a'' ws;
     worker \<leftarrow> drained;
     ensure (ws_draining worker);
     ensure (ws_stale worker);
     ensure (\<not> can_accept_work worker);
     let (ws, result) = try_acquire_slot clk ''worker-a'' ws;
     ensure (case result of Acquire_Stale _ \<Rightarrow> True | _ \<Rightarrow> False);
     ensure (availability_snapshots clk ws =
       [\<lparr>wa_job_type = ''vision_analysis'', wa_status = ''stale'', wa_count = 1\<rparr>])
   }"

definition deregister_removes_idle_worker :: "clock \<Rightarrow> unit option" where [test_defs]:
  "deregister_removes_idle_worker clk = do {
     let ws = worker_registry_default;
     (ws, _) \<leftarrow> register_ok clk (worker_request None [Cluster] None) ws;
     let (ws, result) = deregister clk ''worker-a'' ws;
     ensure (result = Dereg_Removed);
     ensure (get_worker clk ''worker-a'' ws = None)
   }"

definition deregister_drains_busy_worker_without_removing_it :: "clock \<Rightarrow> unit option" where [test_defs]:
  "deregister_drains_busy_worker_without_removing_it clk = do {
     let ws = worker_registry_default;
     (ws, _) \<leftarrow> register_ok clk (worker_request None [Cluster] (Some 1)) ws;
     let (ws, result) = try_acquire_slot clk ''worker-a'' ws;
     ensure (acquired result \<noteq> None);
     let (ws, result) = deregister clk ''worker-a'' ws;
     worker \<leftarrow> (case result of Dereg_Draining w \<Rightarrow> Some w | _ \<Rightarrow> None);
     ensure (ws_draining worker);
     ensure (ws_in_flight_jobs worker = 1);
     found \<leftarrow> get_worker clk ''worker-a'' ws;
     ensure (ws_draining found)
   }"

definition availability_snapshots_count_workers_by_job_type_and_status :: "clock \<Rightarrow> unit option" where [test_defs]:
  "availability_snapshots_count_workers_by_job_type_and_status clk = do {
     let ws = worker_registry_new 0;
     (ws, _) \<leftarrow> register_ok clk (worker_request None [VisionAnalysis, EmbedBatch] None) ws;
     ensure (availability_snapshots clk ws =
       [\<lparr>wa_job_type = ''vision_analysis'', wa_status = ''stale'', wa_count = 1\<rparr>,
        \<lparr>wa_job_type = ''embed_batch'', wa_status = ''stale'', wa_count = 1\<rparr>])
   }"

lemmas workers_eval = worker_registry_default_def worker_registry_new_def register_def validate_worker_def
  trim_eval starts_with_def get_entry_def put_entry_def snapshot_from_entry_def try_acquire_slot_def
  release_slot_def drain_def reactivate_def heartbeat_def modify_worker_def deregister_def get_worker_def
  availability_snapshots_def availability_step_def availability_status_def list_workers_def can_accept_work_def
  job_type_rank_def worker_status_rank_def Let_def

lemma worker_registry_tests_pass:
  "passes (worker_slots_track_capacity_and_release clk)"
  "passes (worker_registration_preserves_in_flight_count_on_upsert clk)"
  "passes (worker_registration_and_heartbeat_preserve_draining_state clk)"
  "passes (drain_and_reactivate_toggle_worker_claim_eligibility clk)"
  "passes (stale_draining_worker_is_treated_as_stale_first clk)"
  "passes (deregister_removes_idle_worker clk)"
  "passes (deregister_drains_busy_worker_without_removing_it clk)"
  "passes (availability_snapshots_count_workers_by_job_type_and_status clk)"
  by (simp_all add: test_defs workers_eval less_prod_def less_eq_prod_def)

section \<open>The endpoints\<close>

definition workers_app :: "worker_registry \<Rightarrow> (json, nat) app_state" where [test_defs]:
  "workers_app ws = test_state jobs_default ws resource_registry_default"

definition strict_workers_app :: "worker_registry \<Rightarrow> string list \<Rightarrow> (json, nat) app_state" where [test_defs]:
  "strict_workers_app ws pool_ids =
     (let app = workers_app ws in
      app\<lparr>app_async := (app_async app)\<lparr>st_worker_pool_ids := pool_ids, st_strict_worker_pools := True\<rparr>\<rparr>)"

definition register_worker_returns_worker_metadata :: "test_world \<Rightarrow> unit option" where [test_defs]:
  "register_worker_returns_worker_metadata w = do {
     let app = workers_app worker_registry_default;
     let (app, response) = post_json w ''/v1/workers/register''
       (J_Object [(''id'', J_String ''vision-a''), (''endpoint_url'', J_String '' http://vision-a:9000 ''),
          (''node_id'', J_String '' node-a ''),
          (''job_types'', J_Array [J_String ''vision_analysis'', J_String ''embed_batch'']),
          (''max_concurrent_jobs'', J_Int 2), (''available_vram_mb'', J_Int 24576)]) app;
     ensure (http_status response = Some 200);
     worker \<leftarrow> worker_of response;
     ensure (ws_id worker = ''vision-a'');
     ensure (ws_endpoint_url worker = ''http://vision-a:9000'');
     ensure (ws_node_id worker = Some ''node-a'');
     ensure (ws_pool worker = ''default'');
     ensure (ws_job_types worker = [VisionAnalysis, EmbedBatch]);
     ensure (ws_max_concurrent_jobs worker = Some 2);
     ensure (ws_available_vram_mb worker = Some 24576);
     ensure (ws_in_flight_jobs worker = 0);
     ensure (ws_available_job_slots worker = Some 2);
     ensure (\<not> ws_stale worker)
   }"

text \<open>A registration with the fields the next tests give; \<open>pool\<close> is absent or has a value.\<close>

definition register_json :: "string \<Rightarrow> string \<Rightarrow> string option \<Rightarrow> string \<Rightarrow> json" where [test_defs]:
  "register_json i url pool kind =
     J_Object ([(''id'', J_String i), (''endpoint_url'', J_String url)] @
       (case pool of None \<Rightarrow> [] | Some p \<Rightarrow> [(''pool'', J_String p)]) @ [(''job_types'', J_Array [J_String kind])])"

definition register_worker_accepts_explicit_pool_metadata :: "test_world \<Rightarrow> unit option" where [test_defs]:
  "register_worker_accepts_explicit_pool_metadata w = do {
     let app = workers_app worker_registry_default;
     let (app, response) = post_json w ''/v1/workers/register''
       (register_json ''vision-a'' ''http://vision-a:9000'' (Some '' vision '') ''vision_analysis'') app;
     ensure (http_status response = Some 200);
     worker \<leftarrow> worker_of response;
     ensure (ws_pool worker = ''vision'')
   }"

definition register_worker_rejects_unknown_pool_when_strict :: "test_world \<Rightarrow> unit option" where [test_defs]:
  "register_worker_rejects_unknown_pool_when_strict w = do {
     let app = strict_workers_app worker_registry_default [''vision''];
     let (app, response) = post_json w ''/v1/workers/register''
       (register_json ''worker-a'' ''http://worker-a:9000'' (Some ''peer'') ''vision_analysis'') app;
     ensure (http_status response = Some 400);
     body \<leftarrow> text_of response;
     ensure (contains body (''worker pool '' @ quoted ''peer'' @ '' is not configured''));
     ensure (list_workers (tw_clock w) (app_workers app) = [])
   }"

definition register_worker_accepts_configured_pool_when_strict :: "test_world \<Rightarrow> unit option" where [test_defs]:
  "register_worker_accepts_configured_pool_when_strict w = do {
     let app = strict_workers_app worker_registry_default [''vision''];
     let (app, response) = post_json w ''/v1/workers/register''
       (register_json ''worker-a'' ''http://worker-a:9000'' (Some '' vision '') ''vision_analysis'') app;
     ensure (http_status response = Some 200);
     worker \<leftarrow> worker_of response;
     ensure (ws_pool worker = ''vision'')
   }"

definition register_worker_accepts_omitted_default_pool_when_strict_and_default_configured ::
  "test_world \<Rightarrow> unit option" where [test_defs]:
  "register_worker_accepts_omitted_default_pool_when_strict_and_default_configured w = do {
     let app = strict_workers_app worker_registry_default [''default''];
     let (app, response) = post_json w ''/v1/workers/register''
       (register_json ''worker-a'' ''http://worker-a:9000'' None ''vision_analysis'') app;
     ensure (http_status response = Some 200);
     worker \<leftarrow> worker_of response;
     ensure (ws_pool worker = ''default'')
   }"

definition register_worker_rejects_omitted_default_pool_when_strict_and_default_not_configured ::
  "test_world \<Rightarrow> unit option" where [test_defs]:
  "register_worker_rejects_omitted_default_pool_when_strict_and_default_not_configured w = do {
     let app = strict_workers_app worker_registry_default [''vision''];
     let (app, response) = post_json w ''/v1/workers/register''
       (register_json ''worker-a'' ''http://worker-a:9000'' None ''vision_analysis'') app;
     ensure (http_status response = Some 400);
     body \<leftarrow> text_of response;
     ensure (contains body (''worker pool '' @ quoted ''default'' @ '' is not configured''))
   }"

definition register_worker_remains_permissive_by_default :: "test_world \<Rightarrow> unit option" where [test_defs]:
  "register_worker_remains_permissive_by_default w = do {
     let app = workers_app worker_registry_default;
     let (app, response) = post_json w ''/v1/workers/register''
       (register_json ''worker-a'' ''http://worker-a:9000'' (Some ''ad-hoc'') ''vision_analysis'') app;
     ensure (http_status response = Some 200);
     worker \<leftarrow> worker_of response;
     ensure (ws_pool worker = ''ad-hoc'')
   }"

definition register_worker_upserts_existing_worker :: "test_world \<Rightarrow> unit option" where [test_defs]:
  "register_worker_upserts_existing_worker w = do {
     let app = workers_app worker_registry_default;
     let (app, _) = post_json w ''/v1/workers/register''
       (register_json ''worker-a'' ''http://worker-a:9000'' (Some ''default'') ''index_build'') app;
     let (app, _) = post_json w ''/v1/workers/register''
       (register_json ''worker-a'' ''http://worker-a:9001'' (Some ''vision'') ''index_build'') app;
     let (app, response) = fetch w ''/v1/workers'' app;
     ensure (http_status response = Some 200);
     ws \<leftarrow> workers_of response;
     ensure (length ws = 1);
     ensure (ws_endpoint_url (ws ! 0) = ''http://worker-a:9001'');
     ensure (ws_pool (ws ! 0) = ''vision'')
   }"

definition worker_lifecycle_endpoints_drain_reactivate_and_deregister :: "test_world \<Rightarrow> unit option" where [test_defs]:
  "worker_lifecycle_endpoints_drain_reactivate_and_deregister w = do {
     let ws = worker_registry_default;
     (ws, _) \<leftarrow> register_ok (tw_clock w) (worker_request None [VisionAnalysis] (Some 1)) ws;
     let app = workers_app ws;
     let (app, response) = post_empty w ''/v1/workers/worker-a/drain'' app;
     ensure (http_status response = Some 200);
     worker \<leftarrow> worker_of response;
     ensure (ws_draining worker);
     let (app, response) = post_empty w ''/v1/workers/worker-a/reactivate'' app;
     ensure (http_status response = Some 200);
     worker \<leftarrow> worker_of response;
     ensure (\<not> ws_draining worker);
     let (app, response) = delete w ''/v1/workers/worker-a'' app;
     ensure (http_status response = Some 204);
     ensure (get_worker (tw_clock w) ''worker-a'' (app_workers app) = None)
   }"

definition worker_lifecycle_endpoints_return_not_found_for_unknown_worker :: "test_world \<Rightarrow> unit option" where [test_defs]:
  "worker_lifecycle_endpoints_return_not_found_for_unknown_worker w = do {
     let app = workers_app worker_registry_default;
     let (app, response) = post_empty w ''/v1/workers/missing/drain'' app;
     ensure (http_status response = Some 404);
     ensure (text_of response = Some ''worker not found'');
     let (app, response) = post_empty w ''/v1/workers/missing/reactivate'' app;
     ensure (http_status response = Some 404);
     ensure (text_of response = Some ''worker not found'');
     let (app, response) = delete w ''/v1/workers/missing'' app;
     ensure (http_status response = Some 404);
     ensure (text_of response = Some ''worker not found'')
   }"

definition heartbeat_refreshes_registered_worker :: "test_world \<Rightarrow> unit option" where [test_defs]:
  "heartbeat_refreshes_registered_worker w = do {
     let ws = worker_registry_new 0;
     (ws, _) \<leftarrow> register_ok (tw_clock w) (worker_request None [Cluster] None) ws;
     let app = workers_app ws;
     let (app, response) = post_empty w ''/v1/workers/worker-a/heartbeat'' app;
     ensure (http_status response = Some 200);
     worker \<leftarrow> worker_of response;
     ensure (ws_id worker = ''worker-a'');
     ensure (ws_stale worker)
   }"

definition heartbeat_unknown_worker_returns_404 :: "test_world \<Rightarrow> unit option" where [test_defs]:
  "heartbeat_unknown_worker_returns_404 w = do {
     let app = workers_app worker_registry_default;
     let (app, response) = post_empty w ''/v1/workers/missing/heartbeat'' app;
     ensure (http_status response = Some 404)
   }"

definition list_workers_sorts_by_id_and_marks_stale :: "test_world \<Rightarrow> unit option" where [test_defs]:
  "list_workers_sorts_by_id_and_marks_stale w = do {
     let ws = worker_registry_new 0;
     (ws, _) \<leftarrow> register_ok (tw_clock w) ((worker_request None [VisionAnalysis] None)
       \<lparr>rw_id := ''worker-b'', rw_endpoint_url := ''http://worker-b:9000''\<rparr>) ws;
     (ws, _) \<leftarrow> register_ok (tw_clock w) (worker_request None [EmbedBatch] None) ws;
     let app = workers_app ws;
     let (app, response) = fetch w ''/v1/workers'' app;
     ensure (http_status response = Some 200);
     ws \<leftarrow> workers_of response;
     ensure (ws_id (ws ! 0) = ''worker-a'');
     ensure (ws_stale (ws ! 0));
     ensure (ws_id (ws ! 1) = ''worker-b'')
   }"

text \<open>The bodies of the next test, each on a fresh application.\<close>

definition cluster_json :: "string \<Rightarrow> string \<Rightarrow> (string \<times> json) list \<Rightarrow> json" where [test_defs]:
  "cluster_json i url more_fields =
     J_Object ([(''id'', J_String i), (''endpoint_url'', J_String url)] @ more_fields)"

definition invalid_registrations :: "json list" where [test_defs]:
  "invalid_registrations =
     [cluster_json '' '' ''http://worker:9000'' [(''job_types'', J_Array [J_String ''cluster''])],
      cluster_json ''worker'' '' '' [(''job_types'', J_Array [J_String ''cluster''])],
      cluster_json ''worker'' ''worker:9000'' [(''job_types'', J_Array [J_String ''cluster''])],
      cluster_json ''worker'' ''http://worker:9000''
        [(''pool'', J_String '' ''), (''job_types'', J_Array [J_String ''cluster''])],
      cluster_json ''worker'' ''http://worker:9000'' [(''job_types'', J_Array [])],
      cluster_json ''worker'' ''http://worker:9000''
        [(''job_types'', J_Array [J_String ''cluster'']), (''max_concurrent_jobs'', J_Int 0)]]"

definition invalid_worker_registration_returns_400 :: "test_world \<Rightarrow> unit option" where [test_defs]:
  "invalid_worker_registration_returns_400 w = do {
     let app = workers_app worker_registry_default;
     ensure (list_all (\<lambda>body. http_status (snd (post_json w ''/v1/workers/register'' body app)) = Some 400)
       invalid_registrations)
   }"

lemma worker_endpoint_tests_pass:
  assumes ok: "world_ok parse w"
  shows "passes (register_worker_returns_worker_metadata w)"
    "passes (register_worker_accepts_explicit_pool_metadata w)"
    "passes (register_worker_rejects_unknown_pool_when_strict w)"
    "passes (register_worker_accepts_configured_pool_when_strict w)"
    "passes (register_worker_accepts_omitted_default_pool_when_strict_and_default_configured w)"
    "passes (register_worker_rejects_omitted_default_pool_when_strict_and_default_not_configured w)"
    "passes (register_worker_remains_permissive_by_default w)"
    "passes (register_worker_upserts_existing_worker w)"
    "passes (worker_lifecycle_endpoints_drain_reactivate_and_deregister w)"
    "passes (worker_lifecycle_endpoints_return_not_found_for_unknown_worker w)"
    "passes (heartbeat_refreshes_registered_worker w)"
    "passes (heartbeat_unknown_worker_returns_404 w)"
    "passes (list_workers_sorts_by_id_and_marks_stale w)"
    "passes (invalid_worker_registration_returns_400 w)"
  by (simp_all add: test_defs workers_eval app_eval route_step test_routes [OF ok] percent_rule [OF ok] body_rules [OF ok]
      bodies_eval handlers_eval quoted_def)

end
