(* ===== verification/Scheduler_Tests.thy ===== *)
theory Scheduler_Tests
  imports Jobs_Tests Workers_Tests
begin

text \<open>
  The unit tests of \<open>src/src/scheduler.rs\<close> on the preview and on claims. A test builds the registries,
  hands them to the application and sends requests to it; the registries it keeps a handle of are
  those of the application afterwards. The tests that read the metrics page check what is on it.
\<close>

section \<open>Fixtures\<close>

definition scheduler_app ::
  "(json, job_db) job_registry \<Rightarrow> worker_registry \<Rightarrow> (json, nat) app_state" where [test_defs]:
  "scheduler_app js ws = test_state js ws resource_registry_default"

definition test_state_with_workload_pools ::
  "(json, job_db) job_registry \<Rightarrow> worker_registry \<Rightarrow> workload_pool_policy \<Rightarrow> (json, nat) app_state" where [test_defs]:
  "test_state_with_workload_pools js ws workload_pools =
     (let app = scheduler_app js ws in
      app\<lparr>app_workload_pools := workload_pools,
          app_async := (app_async app)\<lparr>st_workload_pools := workload_pools\<rparr>\<rparr>)"

definition preview_next_assignment ::
  "clock \<Rightarrow> ('v, 's) job_registry \<Rightarrow> worker_registry \<Rightarrow> ('v job_record \<times> worker_snapshot) option" where [test_defs]:
  "preview_next_assignment clk js ws = preview_next_assignment_with_policy clk js ws policy_default"

text \<open>What most tests do first: a job without payload and callback, a worker at its own host.\<close>

definition submit_plain ::
  "test_world \<Rightarrow> job_kind \<Rightarrow> priority \<Rightarrow> (json, job_db) job_registry \<Rightarrow> (json, job_db) job_registry option" where [test_defs]:
  "submit_plain w kind prio js = map_option fst (submit_ok (tw_db w) (tw_now w) (plain_request kind prio) js)"

definition lease_to ::
  "test_world \<Rightarrow> string \<Rightarrow> job_kind \<Rightarrow> nat \<Rightarrow> (json, job_db) job_registry \<Rightarrow> (json, job_db) job_registry option" where [test_defs]:
  "lease_to w wid kind lease_ms js = map_option fst (claim_ok (tw_db w) (tw_now w) wid [kind] lease_ms js)"

definition named_worker :: "string \<Rightarrow> string option \<Rightarrow> string \<Rightarrow> job_kind list \<Rightarrow> nat option \<Rightarrow> register_worker_request" where [test_defs]:
  "named_worker wid node_id pool kinds slots =
     \<lparr>rw_id = wid, rw_endpoint_url = ''http://'' @ wid @ '':9000'', rw_node_id = node_id, rw_pool = pool,
      rw_job_types = kinds, rw_max_concurrent_jobs = slots, rw_available_vram_mb = None\<rparr>"

definition join :: "test_world \<Rightarrow> register_worker_request \<Rightarrow> worker_registry \<Rightarrow> worker_registry option" where [test_defs]:
  "join w request ws = map_option fst (register_ok (tw_clock w) request ws)"

definition job_in :: "string \<Rightarrow> ('v, 's) app_state \<Rightarrow> 'v job_record option" where [test_defs]:
  "job_in jid app = get_job_record jid (app_jobs app)"

definition worker_in :: "test_world \<Rightarrow> string \<Rightarrow> ('v, 's) app_state \<Rightarrow> worker_snapshot option" where [test_defs]:
  "worker_in w wid app = get_worker (tw_clock w) wid (app_workers app)"

definition lease_holder :: "'v job_record \<Rightarrow> string option" where [test_defs]:
  "lease_holder job = map_option lease_worker_id (job_lease job)"

section \<open>Preview\<close>

definition preview_selects_realtime_job_before_earlier_lower_priority_job :: "test_world \<Rightarrow> unit option" where [test_defs]:
  "preview_selects_realtime_job_before_earlier_lower_priority_job w = do {
     let js = jobs_default;
     let ws = worker_registry_default;
     js \<leftarrow> submit_plain w IndexBuild Background js;
     js \<leftarrow> submit_plain w EmbedBatch Realtime js;
     ws \<leftarrow> join w (named_worker ''worker-a'' None ''default'' [IndexBuild, EmbedBatch] None) ws;
     (job, worker) \<leftarrow> preview_next_assignment (tw_clock w) js ws;
     ensure (job_id job = ''job-2'');
     ensure (job_kind job = EmbedBatch);
     ensure (ws_id worker = ''worker-a'')
   }"

definition preview_preserves_fifo_order_within_same_priority :: "test_world \<Rightarrow> unit option" where [test_defs]:
  "preview_preserves_fifo_order_within_same_priority w = do {
     let js = jobs_default;
     let ws = worker_registry_default;
     js \<leftarrow> submit_plain w VisionAnalysis Batch js;
     js \<leftarrow> submit_plain w VisionAnalysis Batch js;
     ws \<leftarrow> join w (named_worker ''vision-worker'' None ''default'' [VisionAnalysis] None) ws;
     (job, worker) \<leftarrow> preview_next_assignment (tw_clock w) js ws;
     ensure (job_id job = ''job-1'')
   }"

definition preview_skips_jobs_without_matching_available_workers :: "test_world \<Rightarrow> unit option" where [test_defs]:
  "preview_skips_jobs_without_matching_available_workers w = do {
     let js = jobs_default;
     let ws = worker_registry_default;
     js \<leftarrow> submit_plain w VisionAnalysis Realtime js;
     js \<leftarrow> submit_plain w EmbedBatch Batch js;
     ws \<leftarrow> join w (named_worker ''embed-worker'' None ''default'' [EmbedBatch] None) ws;
     (job, worker) \<leftarrow> preview_next_assignment (tw_clock w) js ws;
     ensure (job_id job = ''job-2'');
     ensure (ws_id worker = ''embed-worker'')
   }"

definition preview_skips_workers_outside_workload_pool_policy :: "test_world \<Rightarrow> unit option" where [test_defs]:
  "preview_skips_workers_outside_workload_pool_policy w = do {
     let js = jobs_default;
     let ws = worker_registry_default;
     let workload_pools = policy_new [(''vision_analysis'', [''vision''])];
     js \<leftarrow> submit_plain w VisionAnalysis Batch js;
     ws \<leftarrow> join w (named_worker ''peer-worker'' None ''peer'' [VisionAnalysis] None) ws;
     ensure (preview_next_assignment_with_policy (tw_clock w) js ws workload_pools = None)
   }"

definition preview_selects_worker_from_allowed_pool :: "test_world \<Rightarrow> unit option" where [test_defs]:
  "preview_selects_worker_from_allowed_pool w = do {
     let js = jobs_default;
     let ws = worker_registry_default;
     let workload_pools = policy_new [(''vision_analysis'', [''vision''])];
     js \<leftarrow> submit_plain w VisionAnalysis Batch js;
     ws \<leftarrow> join w (named_worker ''peer-worker'' None ''peer'' [VisionAnalysis] None) ws;
     ws \<leftarrow> join w (named_worker ''vision-worker'' None ''vision'' [VisionAnalysis] None) ws;
     (job, worker) \<leftarrow> preview_next_assignment_with_policy (tw_clock w) js ws workload_pools;
     ensure (ws_id worker = ''vision-worker'');
     ensure (ws_pool worker = ''vision'')
   }"

definition preview_ignores_stale_workers :: "test_world \<Rightarrow> unit option" where [test_defs]:
  "preview_ignores_stale_workers w = do {
     let js = jobs_default;
     let ws = worker_registry_new 0;
     js \<leftarrow> submit_plain w Cluster Batch js;
     ws \<leftarrow> join w (named_worker ''stale-worker'' None ''default'' [Cluster] None) ws;
     ensure (preview_next_assignment (tw_clock w) js ws = None)
   }"

definition preview_ignores_draining_workers :: "test_world \<Rightarrow> unit option" where [test_defs]:
  "preview_ignores_draining_workers w = do {
     let js = jobs_default;
     let ws = worker_registry_default;
     js \<leftarrow> submit_plain w Cluster Batch js;
     ws \<leftarrow> join w (named_worker ''draining-worker'' None ''default'' [Cluster] None) ws;
     ws \<leftarrow> join w (named_worker ''available-worker'' None ''default'' [Cluster] None) ws;
     let (ws, _) = drain (tw_clock w) ''draining-worker'' ws;
     (job, worker) \<leftarrow> preview_next_assignment (tw_clock w) js ws;
     ensure (ws_id worker = ''available-worker'')
   }"

definition preview_is_none_when_queue_is_empty :: "test_world \<Rightarrow> unit option" where [test_defs]:
  "preview_is_none_when_queue_is_empty w = do {
     let js = jobs_default;
     let ws = worker_registry_default;
     ws \<leftarrow> join w (named_worker ''worker-a'' None ''default'' [VisionAnalysis] None) ws;
     ensure (preview_next_assignment (tw_clock w) js ws = None)
   }"

lemmas scheduler_eval = preview_next_assignment_with_policy_def preview_from_snapshots_def find_map.simps
  compatible_def policy_new_def pools_for_def

lemma preview_tests_pass:
  "passes (preview_selects_realtime_job_before_earlier_lower_priority_job w)"
  "passes (preview_preserves_fifo_order_within_same_priority w)"
  "passes (preview_skips_jobs_without_matching_available_workers w)"
  "passes (preview_skips_workers_outside_workload_pool_policy w)"
  "passes (preview_selects_worker_from_allowed_pool w)"
  "passes (preview_ignores_stale_workers w)"
  "passes (preview_ignores_draining_workers w)"
  "passes (preview_is_none_when_queue_is_empty w)"
  by (simp_all add: test_defs jobs_default_def jobs_eval workers_eval scheduler_eval)

end
