(* ===== verification/Scheduler_Worker_Tests.thy ===== *)
theory Scheduler_Worker_Tests
  imports Scheduler_Tests
begin

text \<open>
  The unit tests of \<open>src/src/scheduler.rs\<close> on the endpoints of the workers: claims, drained workers, and
  the reports of a worker on its job.
\<close>

section \<open>Previews and claims over HTTP\<close>

definition preview_endpoint_reports_next_assignment_without_mutating_job :: "test_world \<Rightarrow> unit option" where [test_defs]:
  "preview_endpoint_reports_next_assignment_without_mutating_job w = do {
     let js = jobs_default;
     let ws = worker_registry_default;
     js \<leftarrow> submit_plain w VisionAnalysis Batch js;
     ws \<leftarrow> join w (named_worker ''vision-worker'' (Some ''node-a'') ''default'' [VisionAnalysis] None) ws;
     let app = scheduler_app js ws;
     let (app, response) = fetch w ''/v1/scheduler/preview'' app;
     ensure (http_status response = Some 200);
     (job, worker) \<leftarrow> assignment_of response;
     ensure (job_id job = ''job-1'');
     ensure (ws_id worker = ''vision-worker'');
     found \<leftarrow> job_in ''job-1'' app;
     ensure (job_status found = Queued)
   }"

definition preview_endpoint_returns_no_content_when_no_assignment_exists :: "test_world \<Rightarrow> unit option" where [test_defs]:
  "preview_endpoint_returns_no_content_when_no_assignment_exists w = do {
     let app = scheduler_app jobs_default worker_registry_default;
     let (app, response) = fetch w ''/v1/scheduler/preview'' app;
     ensure (http_status response = Some 204)
   }"

definition worker_claim_endpoint_skips_jobs_outside_worker_pool :: "test_world \<Rightarrow> unit option" where [test_defs]:
  "worker_claim_endpoint_skips_jobs_outside_worker_pool w = do {
     let js = jobs_default;
     let ws = worker_registry_default;
     let workload_pools = policy_new [(''vision_analysis'', [''vision'']), (''embed_batch'', [''default''])];
     js \<leftarrow> submit_plain w VisionAnalysis Realtime js;
     js \<leftarrow> submit_plain w EmbedBatch Batch js;
     ws \<leftarrow> join w (named_worker ''default-worker'' None ''default'' [VisionAnalysis, EmbedBatch] None) ws;
     let app = test_state_with_workload_pools js ws workload_pools;
     let (app, response) = post_empty w ''/v1/workers/default-worker/claim'' app;
     ensure (http_status response = Some 200);
     job \<leftarrow> job_of response;
     ensure (job_id job = ''job-2'');
     ensure (job_kind job = EmbedBatch);
     skipped \<leftarrow> job_in ''job-1'' app;
     ensure (job_status skipped = Queued);
     worker \<leftarrow> worker_in w ''default-worker'' app;
     ensure (ws_in_flight_jobs worker = 1)
   }"

definition worker_claim_endpoint_keeps_omitted_workload_pool_policy_permissive :: "test_world \<Rightarrow> unit option" where [test_defs]:
  "worker_claim_endpoint_keeps_omitted_workload_pool_policy_permissive w = do {
     let js = jobs_default;
     let ws = worker_registry_default;
     let workload_pools = policy_new [(''vision_analysis'', [''vision''])];
     js \<leftarrow> submit_plain w EmbedBatch Batch js;
     ws \<leftarrow> join w (named_worker ''embed-worker'' None ''peer'' [EmbedBatch] None) ws;
     (job, worker) \<leftarrow> preview_next_assignment_with_policy (tw_clock w) js ws workload_pools;
     ensure (job_kind job = EmbedBatch);
     ensure (ws_id worker = ''embed-worker'');
     let app = test_state_with_workload_pools js ws workload_pools;
     let (app, response) = post_empty w ''/v1/workers/embed-worker/claim'' app;
     ensure (http_status response = Some 200);
     job \<leftarrow> job_of response;
     ensure (job_id job = ''job-1'');
     ensure (job_kind job = EmbedBatch)
   }"

definition worker_claim_endpoint_prevents_duplicate_claims :: "test_world \<Rightarrow> unit option" where [test_defs]:
  "worker_claim_endpoint_prevents_duplicate_claims w = do {
     let js = jobs_default;
     let ws = worker_registry_default;
     js \<leftarrow> submit_plain w EmbedBatch Realtime js;
     ws \<leftarrow> join w (named_worker ''embed-worker'' None ''default'' [EmbedBatch] None) ws;
     let app = scheduler_app js ws;
     let (app, first) = post_empty w ''/v1/workers/embed-worker/claim'' app;
     let (app, second) = post_empty w ''/v1/workers/embed-worker/claim'' app;
     ensure (http_status first = Some 200);
     ensure (http_status second = Some 204)
   }"

definition worker_claim_endpoint_rejects_worker_at_capacity :: "test_world \<Rightarrow> unit option" where [test_defs]:
  "worker_claim_endpoint_rejects_worker_at_capacity w = do {
     let js = jobs_default;
     let ws = worker_registry_default;
     js \<leftarrow> submit_plain w VisionAnalysis Batch js;
     js \<leftarrow> submit_plain w VisionAnalysis Batch js;
     ws \<leftarrow> join w (named_worker ''vision-worker'' None ''default'' [VisionAnalysis] (Some 1)) ws;
     let app = scheduler_app js ws;
     let (app, first) = post_empty w ''/v1/workers/vision-worker/claim'' app;
     let (app, second) = post_empty w ''/v1/workers/vision-worker/claim'' app;
     ensure (http_status first = Some 200);
     ensure (http_status second = Some 409);
     worker \<leftarrow> worker_in w ''vision-worker'' app;
     ensure (ws_in_flight_jobs worker = 1);
     ensure (ws_available_job_slots worker = Some 0)
   }"

definition worker_claim_endpoint_rejects_draining_worker :: "test_world \<Rightarrow> unit option" where [test_defs]:
  "worker_claim_endpoint_rejects_draining_worker w = do {
     let js = jobs_default;
     let ws = worker_registry_default;
     js \<leftarrow> submit_plain w VisionAnalysis Batch js;
     ws \<leftarrow> join w (named_worker ''draining-worker'' None ''default'' [VisionAnalysis] (Some 1)) ws;
     let (ws, _) = drain (tw_clock w) ''draining-worker'' ws;
     let app = scheduler_app js ws;
     let (app, response) = post_empty w ''/v1/workers/draining-worker/claim'' app;
     ensure (http_status response = Some 409);
     ensure (text_of response = Some ''worker is draining'');
     job \<leftarrow> job_in ''job-1'' app;
     ensure (job_status job = Queued);
     worker \<leftarrow> worker_in w ''draining-worker'' app;
     ensure (ws_in_flight_jobs worker = 0)
   }"

definition worker_claim_endpoint_requeues_expired_leases_before_claiming :: "test_world \<Rightarrow> unit option" where [test_defs]:
  "worker_claim_endpoint_requeues_expired_leases_before_claiming w = do {
     let js = jobs_default;
     let ws = worker_registry_default;
     js \<leftarrow> submit_plain w VisionAnalysis Batch js;
     js \<leftarrow> lease_to w ''old-worker'' VisionAnalysis 0 js;
     ws \<leftarrow> join w (named_worker ''vision-worker'' None ''default'' [VisionAnalysis] None) ws;
     let app = scheduler_app js ws;
     let (app, response) = post_empty w ''/v1/workers/vision-worker/claim'' app;
     ensure (http_status response = Some 200);
     job \<leftarrow> job_of response;
     ensure (job_id job = ''job-1'');
     ensure (attempts job = 2);
     ensure (map_option message (job_error job) = Some ''attempt timed out'');
     ensure (map_option retryable (job_error job) = Some True);
     ensure (lease_holder job = Some ''vision-worker'');
     found \<leftarrow> job_in ''job-1'' app;
     ensure (job_status found = Running)
   }"

definition worker_claim_endpoint_skips_cancelled_requeued_job :: "test_world \<Rightarrow> unit option" where [test_defs]:
  "worker_claim_endpoint_skips_cancelled_requeued_job w = do {
     let js = jobs_default;
     let ws = worker_registry_default;
     js \<leftarrow> submit_plain w Cluster Background js;
     js \<leftarrow> lease_to w ''old-worker'' Cluster 0 js;
     let (js, _) = requeue_expired_leases (tw_db w) (tw_now w) js;
     let (js, _) = cancel (tw_db w) (tw_now w) ''job-1'' js;
     ws \<leftarrow> join w (named_worker ''cluster-worker'' None ''default'' [Cluster] None) ws;
     let app = scheduler_app js ws;
     let (app, response) = post_empty w ''/v1/workers/cluster-worker/claim'' app;
     ensure (http_status response = Some 204);
     job \<leftarrow> job_in ''job-1'' app;
     ensure (job_status job = Cancelled);
     ensure (queue_snapshots (inner (app_jobs app)) = [])
   }"

definition worker_claim_endpoint_rejects_unknown_worker :: "test_world \<Rightarrow> unit option" where [test_defs]:
  "worker_claim_endpoint_rejects_unknown_worker w = do {
     let app = scheduler_app jobs_default worker_registry_default;
     let (app, response) = post_empty w ''/v1/workers/missing/claim'' app;
     ensure (http_status response = Some 404)
   }"

definition worker_claim_endpoint_rejects_stale_worker :: "test_world \<Rightarrow> unit option" where [test_defs]:
  "worker_claim_endpoint_rejects_stale_worker w = do {
     let js = jobs_default;
     let ws = worker_registry_new 0;
     js \<leftarrow> submit_plain w Cluster Batch js;
     ws \<leftarrow> join w (named_worker ''cluster-worker'' None ''default'' [Cluster] None) ws;
     let app = scheduler_app js ws;
     let (app, response) = post_empty w ''/v1/workers/cluster-worker/claim'' app;
     ensure (http_status response = Some 409)
   }"

definition worker_claim_endpoint_returns_no_content_without_compatible_job :: "test_world \<Rightarrow> unit option" where [test_defs]:
  "worker_claim_endpoint_returns_no_content_without_compatible_job w = do {
     let js = jobs_default;
     let ws = worker_registry_default;
     js \<leftarrow> submit_plain w VisionAnalysis Realtime js;
     ws \<leftarrow> join w (named_worker ''embed-worker'' None ''default'' [EmbedBatch] None) ws;
     let app = scheduler_app js ws;
     let (app, response) = post_empty w ''/v1/workers/embed-worker/claim'' app;
     ensure (http_status response = Some 204)
   }"

text \<open>Placement is counted in the metrics and nowhere else.\<close>

lemma record_settings:
  "st_workload_pools (record_async_pool_selected clk w job st) = st_workload_pools st"
  "st_lease_duration_ms (record_async_pool_selected clk w job st) = st_lease_duration_ms st"
  "st_workload_pools (record_async_pool_no_compatible_job w st) = st_workload_pools st"
  "st_lease_duration_ms (record_async_pool_no_compatible_job w st) = st_lease_duration_ms st"
  by (simp_all add: record_async_pool_selected_def record_async_pool_no_compatible_job_def Let_def)

lemmas worker_protocol_eval = preview_next_assignment_handler_def claim_worker_job_handler_def live_worker_def
  renew_worker_job_lease_handler_def complete_worker_job_handler_def fail_worker_job_handler_def
  sweep_expired_leases_def release_worker_def dispatch_job_def record_frame record_settings cancel_job_def
  ATTEMPT_TIMEOUT_ERROR_def DEFAULT_JOB_LEASE_DURATION_MS_def

lemmas claims_eval = jobs_eval snapshots_eval workers_eval scheduler_eval sweep_eval leases_eval app_eval worker_protocol_eval

lemma claim_endpoint_tests_pass:
  assumes ok: "world_ok parse w"
  shows "passes (preview_endpoint_reports_next_assignment_without_mutating_job w)"
    "passes (preview_endpoint_returns_no_content_when_no_assignment_exists w)"
    "passes (worker_claim_endpoint_skips_jobs_outside_worker_pool w)"
    "passes (worker_claim_endpoint_keeps_omitted_workload_pool_policy_permissive w)"
    "passes (worker_claim_endpoint_prevents_duplicate_claims w)"
    "passes (worker_claim_endpoint_rejects_worker_at_capacity w)"
    "passes (worker_claim_endpoint_rejects_draining_worker w)"
    "passes (worker_claim_endpoint_requeues_expired_leases_before_claiming w)"
    "passes (worker_claim_endpoint_skips_cancelled_requeued_job w)"
    "passes (worker_claim_endpoint_rejects_unknown_worker w)"
    "passes (worker_claim_endpoint_rejects_stale_worker w)"
    "passes (worker_claim_endpoint_returns_no_content_without_compatible_job w)"
  by (simp_all add: test_defs claims_eval route_step test_routes [OF ok] percent_rule [OF ok])

end
