(* ===== verification/Scheduler_Report_Tests.thy ===== *)
theory Scheduler_Report_Tests
  imports Scheduler_Worker_Tests
begin

text \<open>
  The unit tests of \<open>src/src/scheduler.rs\<close> on what a worker reports about its job: renewals, results and
  failures, with the slots of the worker that go with them.
\<close>

section \<open>Slots\<close>

definition ok_body :: json where [test_defs]:
  "ok_body = J_Object [(''result'', J_Object [(''ok'', J_Bool True)])]"

definition fail_body :: "(string \<times> json) list \<Rightarrow> string \<Rightarrow> bool \<Rightarrow> json" where [test_defs]:
  "fail_body before err retry =
     J_Object (before @ [(''error'', J_String err), (''retryable'', J_Bool retry)])"

definition in_flight :: "test_world \<Rightarrow> string \<Rightarrow> ('v, 's) app_state \<Rightarrow> nat option" where [test_defs]:
  "in_flight w wid app = map_option ws_in_flight_jobs (worker_in w wid app)"

definition busy_deregistered_worker_can_complete_held_job_while_draining :: "test_world \<Rightarrow> unit option" where [test_defs]:
  "busy_deregistered_worker_can_complete_held_job_while_draining w = do {
     let js = jobs_default;
     let ws = worker_registry_default;
     js \<leftarrow> submit_plain w VisionAnalysis Batch js;
     ws \<leftarrow> join w (named_worker ''vision-worker'' None ''default'' [VisionAnalysis] (Some 1)) ws;
     let app = scheduler_app js ws;
     let (app, claim) = post_empty w ''/v1/workers/vision-worker/claim'' app;
     ensure (http_status claim = Some 200);
     let (app, deregister) = delete w ''/v1/workers/vision-worker'' app;
     ensure (http_status deregister = Some 202);
     worker \<leftarrow> worker_of deregister;
     ensure (ws_draining worker);
     let (app, complete) = post_json w ''/v1/workers/vision-worker/jobs/job-1/complete'' ok_body app;
     ensure (http_status complete = Some 200);
     job \<leftarrow> job_in ''job-1'' app;
     ensure (job_status job = Complete);
     worker \<leftarrow> worker_in w ''vision-worker'' app;
     ensure (ws_draining worker);
     ensure (ws_in_flight_jobs worker = 0);
     let (app, remove) = delete w ''/v1/workers/vision-worker'' app;
     ensure (http_status remove = Some 204);
     ensure (worker_in w ''vision-worker'' app = None)
   }"

definition busy_deregistered_worker_can_renew_held_job_while_draining :: "test_world \<Rightarrow> unit option" where [test_defs]:
  "busy_deregistered_worker_can_renew_held_job_while_draining w = do {
     let js = jobs_default;
     let ws = worker_registry_default;
     js \<leftarrow> submit_plain w VisionAnalysis Batch js;
     ws \<leftarrow> join w (named_worker ''vision-worker'' None ''default'' [VisionAnalysis] (Some 1)) ws;
     let app = scheduler_app js ws;
     let (app, claim) = post_empty w ''/v1/workers/vision-worker/claim'' app;
     ensure (http_status claim = Some 200);
     let (app, deregister) = delete w ''/v1/workers/vision-worker'' app;
     ensure (http_status deregister = Some 202);
     let (app, renew) = post_empty w ''/v1/workers/vision-worker/jobs/job-1/renew'' app;
     ensure (http_status renew = Some 200);
     job \<leftarrow> job_of renew;
     ensure (lease_holder job = Some ''vision-worker'');
     worker \<leftarrow> worker_in w ''vision-worker'' app;
     ensure (ws_draining worker);
     ensure (ws_in_flight_jobs worker = 1);
     job \<leftarrow> job_in ''job-1'' app;
     ensure (job_status job = Running)
   }"

definition busy_deregistered_worker_can_fail_retryable_job_while_draining :: "test_world \<Rightarrow> unit option" where [test_defs]:
  "busy_deregistered_worker_can_fail_retryable_job_while_draining w = do {
     let js = jobs_default;
     let ws = worker_registry_default;
     js \<leftarrow> submit_plain w VisionAnalysis Batch js;
     ws \<leftarrow> join w (named_worker ''vision-worker'' None ''default'' [VisionAnalysis] (Some 1)) ws;
     ws \<leftarrow> join w (named_worker ''backup-worker'' None ''default'' [VisionAnalysis] (Some 1)) ws;
     let app = scheduler_app js ws;
     let (app, claim) = post_empty w ''/v1/workers/vision-worker/claim'' app;
     ensure (http_status claim = Some 200);
     let (app, deregister) = delete w ''/v1/workers/vision-worker'' app;
     ensure (http_status deregister = Some 202);
     let (app, failed) = post_json w ''/v1/workers/vision-worker/jobs/job-1/fail''
       (fail_body [] ''temporary failure'' True) app;
     ensure (http_status failed = Some 200);
     job \<leftarrow> job_in ''job-1'' app;
     ensure (job_status job = Queued);
     drained \<leftarrow> worker_in w ''vision-worker'' app;
     ensure (ws_draining drained);
     ensure (ws_in_flight_jobs drained = 0);
     let (app, draining_claim) = post_empty w ''/v1/workers/vision-worker/claim'' app;
     ensure (http_status draining_claim = Some 409);
     ensure (text_of draining_claim = Some ''worker is draining'');
     let (app, backup_claim) = post_empty w ''/v1/workers/backup-worker/claim'' app;
     ensure (http_status backup_claim = Some 200);
     job \<leftarrow> job_of backup_claim;
     ensure (job_id job = ''job-1'');
     ensure (lease_holder job = Some ''backup-worker'')
   }"

definition worker_result_endpoints_release_worker_capacity :: "test_world \<Rightarrow> unit option" where [test_defs]:
  "worker_result_endpoints_release_worker_capacity w = do {
     let js = jobs_default;
     let ws = worker_registry_default;
     js \<leftarrow> submit_plain w EmbedBatch Realtime js;
     js \<leftarrow> submit_plain w EmbedBatch Realtime js;
     ws \<leftarrow> join w (named_worker ''embed-worker'' None ''default'' [EmbedBatch] (Some 1)) ws;
     let app = scheduler_app js ws;
     let (app, claim) = post_empty w ''/v1/workers/embed-worker/claim'' app;
     ensure (http_status claim = Some 200);
     ensure (in_flight w ''embed-worker'' app = Some 1);
     let (app, complete) = post_json w ''/v1/workers/embed-worker/jobs/job-1/complete'' ok_body app;
     ensure (http_status complete = Some 200);
     ensure (in_flight w ''embed-worker'' app = Some 0);
     let (app, second_claim) = post_empty w ''/v1/workers/embed-worker/claim'' app;
     ensure (http_status second_claim = Some 200);
     let (app, failed) = post_json w ''/v1/workers/embed-worker/jobs/job-2/fail''
       (fail_body [] ''temporary failure'' True) app;
     ensure (http_status failed = Some 200);
     ensure (in_flight w ''embed-worker'' app = Some 0)
   }"

definition cancelling_leased_job_releases_worker_capacity :: "test_world \<Rightarrow> unit option" where [test_defs]:
  "cancelling_leased_job_releases_worker_capacity w = do {
     let js = jobs_default;
     let ws = worker_registry_default;
     js \<leftarrow> submit_plain w VisionAnalysis Batch js;
     ws \<leftarrow> join w (named_worker ''vision-worker'' None ''default'' [VisionAnalysis] (Some 1)) ws;
     let app = scheduler_app js ws;
     let (app, claim) = post_empty w ''/v1/workers/vision-worker/claim'' app;
     ensure (http_status claim = Some 200);
     ensure (in_flight w ''vision-worker'' app = Some 1);
     let (app, cancelled) = delete w ''/v1/jobs/job-1'' app;
     ensure (http_status cancelled = Some 200);
     ensure (in_flight w ''vision-worker'' app = Some 0)
   }"

definition expired_lease_sweep_releases_worker_capacity_before_claim :: "test_world \<Rightarrow> unit option" where [test_defs]:
  "expired_lease_sweep_releases_worker_capacity_before_claim w = do {
     let js = jobs_default;
     let ws = worker_registry_default;
     js \<leftarrow> submit_plain w VisionAnalysis Batch js;
     js \<leftarrow> submit_plain w VisionAnalysis Batch js;
     ws \<leftarrow> join w (named_worker ''old-worker'' None ''default'' [VisionAnalysis] (Some 1)) ws;
     ws \<leftarrow> join w (named_worker ''new-worker'' None ''default'' [VisionAnalysis] (Some 1)) ws;
     let (ws, _) = try_acquire_slot (tw_clock w) ''old-worker'' ws;
     js \<leftarrow> lease_to w ''old-worker'' VisionAnalysis 0 js;
     let app = scheduler_app js ws;
     let (app, claim) = post_empty w ''/v1/workers/new-worker/claim'' app;
     ensure (http_status claim = Some 200);
     ensure (in_flight w ''old-worker'' app = Some 0);
     ensure (in_flight w ''new-worker'' app = Some 1)
   }"

text \<open>
  A test that waits for a background loop: the loop sleeps \<open>interval\<close> and takes a turn, and the test
  looks after each turn, as often as its timeout allows.
\<close>

fun after_turns ::
  "nat \<Rightarrow> nat \<Rightarrow> (test_world \<Rightarrow> ('v, 's) app_state \<Rightarrow> ('v, 's) app_state)
     \<Rightarrow> (test_world \<Rightarrow> ('v, 's) app_state \<Rightarrow> bool) \<Rightarrow> test_world \<Rightarrow> ('v, 's) app_state \<Rightarrow> ('v, 's) app_state option" where
  "after_turns 0 interval turn seen w app = None"
| "after_turns (Suc n) interval turn seen w app =
     (let w = sleep_ms interval w; app = turn w app
      in if seen w app then Some app else after_turns n interval turn seen w app)"

lemma after_turns_numeral:
  "after_turns (numeral k) interval turn seen w app =
     (let w = sleep_ms interval w; app = turn w app
      in if seen w app then Some app else after_turns (pred_numeral k) interval turn seen w app)"
  by (simp add: numeral_eq_Suc Let_def)

definition recovery_loop_turn :: "test_world \<Rightarrow> (json, nat) app_state \<Rightarrow> (json, nat) app_state" where [test_defs]:
  "recovery_loop_turn w app =
     app\<lparr>app_async := sweep_expired_leases (he_call (world_env w)) 0 (app_async app)\<rparr>"

definition lease_recovery_loop_requeues_expired_lease_and_releases_capacity :: "test_world \<Rightarrow> unit option" where [test_defs]:
  "lease_recovery_loop_requeues_expired_lease_and_releases_capacity w = do {
     let js = jobs_default;
     let ws = worker_registry_default;
     js \<leftarrow> submit_plain w VisionAnalysis Batch js;
     ws \<leftarrow> join w (named_worker ''vision-worker'' None ''default'' [VisionAnalysis] (Some 1)) ws;
     let (ws, _) = try_acquire_slot (tw_clock w) ''vision-worker'' ws;
     js \<leftarrow> lease_to w ''vision-worker'' VisionAnalysis 0 js;
     let state = scheduler_app js ws;
     _ \<leftarrow> after_turns 100 10 recovery_loop_turn (\<lambda>w state.
       (case (job_in ''job-1'' state, worker_in w ''vision-worker'' state) of
          (Some job, Some worker) \<Rightarrow>
            job_status job = Queued \<and> job_lease job = None \<and> ws_in_flight_jobs worker = 0
        | _ \<Rightarrow> False)) w state;
     Some ()
   }"

lemmas reports_eval = claims_eval bodies_eval handlers_eval

lemma worker_slot_tests_pass:
  assumes ok: "world_ok parse w"
  shows "passes (busy_deregistered_worker_can_complete_held_job_while_draining w)"
    "passes (busy_deregistered_worker_can_renew_held_job_while_draining w)"
    "passes (busy_deregistered_worker_can_fail_retryable_job_while_draining w)"
    "passes (worker_result_endpoints_release_worker_capacity w)"
    "passes (cancelling_leased_job_releases_worker_capacity w)"
    "passes (expired_lease_sweep_releases_worker_capacity_before_claim w)"
    "passes (lease_recovery_loop_requeues_expired_lease_and_releases_capacity w)"
  by (simp_all add: test_defs reports_eval route_step test_routes [OF ok] percent_rule [OF ok] body_rules [OF ok]
      sleep_ms_def after_turns_numeral)

section \<open>Renewal\<close>

text \<open>The worker of these tests, which may have any number of jobs.\<close>

definition plain_worker :: "string \<Rightarrow> job_kind \<Rightarrow> register_worker_request" where [test_defs]:
  "plain_worker wid kind = named_worker wid None ''default'' [kind] None"

definition worker_renew_endpoint_extends_held_lease :: "test_world \<Rightarrow> unit option" where [test_defs]:
  "worker_renew_endpoint_extends_held_lease w = do {
     let js = jobs_default;
     let ws = worker_registry_default;
     js \<leftarrow> submit_plain w VisionAnalysis Batch js;
     (js, claimed) \<leftarrow> claim_ok (tw_db w) (tw_now w) ''vision-worker'' [VisionAnalysis] 30000 js;
     original_expires_at \<leftarrow> map_option lease_expires_at (job_lease claimed);
     let w = sleep_ms 5 w;
     ws \<leftarrow> join w (plain_worker ''vision-worker'' VisionAnalysis) ws;
     let app = scheduler_app js ws;
     let (app, response) = post_empty w ''/v1/workers/vision-worker/jobs/job-1/renew'' app;
     ensure (http_status response = Some 200);
     job \<leftarrow> job_of response;
     ensure (job_id job = ''job-1'');
     ensure (job_status job = Running);
     ensure (lease_holder job = Some ''vision-worker'');
     lease \<leftarrow> job_lease job;
     ensure (lease_expires_at lease > original_expires_at)
   }"

definition worker_renew_endpoint_rejects_unknown_or_stale_worker :: "test_world \<Rightarrow> unit option" where [test_defs]:
  "worker_renew_endpoint_rejects_unknown_or_stale_worker w = do {
     let js = jobs_default;
     js \<leftarrow> submit_plain w EmbedBatch Realtime js;
     js \<leftarrow> lease_to w ''embed-worker'' EmbedBatch 30000 js;
     let unknown_app = scheduler_app js worker_registry_default;
     let (unknown_app, unknown) = post_empty w ''/v1/workers/embed-worker/jobs/job-1/renew'' unknown_app;
     ensure (http_status unknown = Some 404);
     stale_workers \<leftarrow> join w (plain_worker ''embed-worker'' EmbedBatch) (worker_registry_new 0);
     let stale_app = scheduler_app (app_jobs unknown_app) stale_workers;
     let (_, stale) = post_empty w ''/v1/workers/embed-worker/jobs/job-1/renew'' stale_app;
     ensure (http_status stale = Some 409)
   }"

definition worker_renew_endpoint_rejects_worker_that_does_not_hold_lease :: "test_world \<Rightarrow> unit option" where [test_defs]:
  "worker_renew_endpoint_rejects_worker_that_does_not_hold_lease w = do {
     let js = jobs_default;
     let ws = worker_registry_default;
     js \<leftarrow> submit_plain w Cluster Background js;
     js \<leftarrow> lease_to w ''worker-a'' Cluster 30000 js;
     ws \<leftarrow> join w (plain_worker ''worker-b'' Cluster) ws;
     let app = scheduler_app js ws;
     let (app, response) = post_empty w ''/v1/workers/worker-b/jobs/job-1/renew'' app;
     ensure (http_status response = Some 409);
     job \<leftarrow> job_of response;
     ensure (lease_holder job = Some ''worker-a'')
   }"

definition worker_renew_endpoint_requeues_expired_lease_before_renewal :: "test_world \<Rightarrow> unit option" where [test_defs]:
  "worker_renew_endpoint_requeues_expired_lease_before_renewal w = do {
     let js = jobs_default;
     let ws = worker_registry_default;
     js \<leftarrow> submit_plain w VisionAnalysis Batch js;
     js \<leftarrow> lease_to w ''vision-worker'' VisionAnalysis 0 js;
     ws \<leftarrow> join w (plain_worker ''vision-worker'' VisionAnalysis) ws;
     let app = scheduler_app js ws;
     let (app, response) = post_empty w ''/v1/workers/vision-worker/jobs/job-1/renew'' app;
     ensure (http_status response = Some 409);
     job \<leftarrow> job_of response;
     ensure (job_status job = Queued);
     ensure (map_option message (job_error job) = Some ''attempt timed out'');
     ensure (map_option retryable (job_error job) = Some True);
     ensure (job_lease job = None);
     ensure (queued_ids (app_jobs app) = [''job-1''])
   }"

definition worker_renew_endpoint_rejects_cancelled_running_job :: "test_world \<Rightarrow> unit option" where [test_defs]:
  "worker_renew_endpoint_rejects_cancelled_running_job w = do {
     let js = jobs_default;
     let ws = worker_registry_default;
     js \<leftarrow> submit_plain w VisionAnalysis Batch js;
     js \<leftarrow> lease_to w ''vision-worker'' VisionAnalysis 30000 js;
     let (js, _) = cancel (tw_db w) (tw_now w) ''job-1'' js;
     ws \<leftarrow> join w (plain_worker ''vision-worker'' VisionAnalysis) ws;
     let app = scheduler_app js ws;
     let (app, response) = post_empty w ''/v1/workers/vision-worker/jobs/job-1/renew'' app;
     ensure (http_status response = Some 409);
     job \<leftarrow> job_of response;
     ensure (job_status job = Cancelled);
     ensure (lease_holder job = Some ''vision-worker'')
   }"

definition worker_renew_endpoint_returns_not_found_for_missing_job :: "test_world \<Rightarrow> unit option" where [test_defs]:
  "worker_renew_endpoint_returns_not_found_for_missing_job w = do {
     let ws = worker_registry_default;
     ws \<leftarrow> join w (plain_worker ''worker-a'' EmbedBatch) ws;
     let app = scheduler_app jobs_default ws;
     let (app, response) = post_empty w ''/v1/workers/worker-a/jobs/missing/renew'' app;
     ensure (http_status response = Some 404)
   }"

lemma renew_endpoint_tests_pass:
  assumes ok: "world_ok parse w"
  shows "passes (worker_renew_endpoint_extends_held_lease w)"
    "passes (worker_renew_endpoint_rejects_unknown_or_stale_worker w)"
    "passes (worker_renew_endpoint_rejects_worker_that_does_not_hold_lease w)"
    "passes (worker_renew_endpoint_requeues_expired_lease_before_renewal w)"
    "passes (worker_renew_endpoint_rejects_cancelled_running_job w)"
    "passes (worker_renew_endpoint_returns_not_found_for_missing_job w)"
  by (simp_all add: test_defs reports_eval route_step test_routes [OF ok] percent_rule [OF ok] sleep_ms_def)

section \<open>Results\<close>

definition result_body :: "json \<Rightarrow> json" where [test_defs]:
  "result_body v = J_Object [(''result'', v)]"

definition label :: "string \<Rightarrow> json" where [test_defs]:
  "label s = J_Object [(''label'', J_String s)]"

definition first_attempt :: "(string \<times> json) list" where [test_defs]:
  "first_attempt = [(''attempt'', J_Int 1)]"

definition worker_complete_endpoint_marks_held_job_complete :: "test_world \<Rightarrow> unit option" where [test_defs]:
  "worker_complete_endpoint_marks_held_job_complete w = do {
     let js = jobs_default;
     let ws = worker_registry_default;
     js \<leftarrow> submit_plain w VisionAnalysis Batch js;
     js \<leftarrow> lease_to w ''vision-worker'' VisionAnalysis 30000 js;
     ws \<leftarrow> join w (plain_worker ''vision-worker'' VisionAnalysis) ws;
     let app = scheduler_app js ws;
     let (app, response) = post_json w ''/v1/workers/vision-worker/jobs/job-1/complete''
       (result_body (label ''healthy'')) app;
     ensure (http_status response = Some 200);
     job \<leftarrow> job_of response;
     ensure (job_status job = Complete);
     ensure (job_result job = Some (label ''healthy''));
     ensure (job_error job = None);
     ensure (job_lease job = None);
     found \<leftarrow> job_in ''job-1'' app;
     ensure (job_status found = Complete)
   }"

definition worker_complete_endpoint_rejects_worker_that_does_not_hold_lease :: "test_world \<Rightarrow> unit option" where [test_defs]:
  "worker_complete_endpoint_rejects_worker_that_does_not_hold_lease w = do {
     let js = jobs_default;
     let ws = worker_registry_default;
     js \<leftarrow> submit_plain w EmbedBatch Realtime js;
     js \<leftarrow> lease_to w ''worker-a'' EmbedBatch 30000 js;
     ws \<leftarrow> join w (plain_worker ''worker-b'' EmbedBatch) ws;
     let app = scheduler_app js ws;
     let (app, response) = post_json w ''/v1/workers/worker-b/jobs/job-1/complete'' (result_body J_Null) app;
     ensure (http_status response = Some 409);
     job \<leftarrow> job_of response;
     ensure (job_status job = Running);
     ensure (lease_holder job = Some ''worker-a'')
   }"

definition worker_complete_endpoint_rejects_unknown_and_stale_workers :: "test_world \<Rightarrow> unit option" where [test_defs]:
  "worker_complete_endpoint_rejects_unknown_and_stale_workers w = do {
     let js = jobs_default;
     let stale_workers = worker_registry_new 0;
     js \<leftarrow> submit_plain w VisionAnalysis Batch js;
     js \<leftarrow> lease_to w ''worker-a'' VisionAnalysis 30000 js;
     stale_workers \<leftarrow> join w (plain_worker ''worker-a'' VisionAnalysis) stale_workers;
     let unknown_app = scheduler_app js worker_registry_default;
     let (unknown_app, unknown) = post_json w ''/v1/workers/worker-a/jobs/job-1/complete''
       (result_body J_Null) unknown_app;
     ensure (http_status unknown = Some 404);
     let stale_app = scheduler_app (app_jobs unknown_app) stale_workers;
     let (_, stale) = post_json w ''/v1/workers/worker-a/jobs/job-1/complete'' (result_body J_Null) stale_app;
     ensure (http_status stale = Some 409)
   }"

definition duplicate_worker_result_reports_do_not_change_terminal_job :: "test_world \<Rightarrow> unit option" where [test_defs]:
  "duplicate_worker_result_reports_do_not_change_terminal_job w = do {
     let js = jobs_default;
     let ws = worker_registry_default;
     js \<leftarrow> submit_plain w VisionAnalysis Batch js;
     ws \<leftarrow> join w (named_worker ''vision-worker'' None ''default'' [VisionAnalysis] (Some 1)) ws;
     let app = scheduler_app js ws;
     let (app, claim) = post_empty w ''/v1/workers/vision-worker/claim'' app;
     ensure (http_status claim = Some 200);
     let healthy_result = J_Object (first_attempt @ [(''result'', label ''healthy'')]);
     let (app, complete) = post_json w ''/v1/workers/vision-worker/jobs/job-1/complete'' healthy_result app;
     ensure (http_status complete = Some 200);
     let (app, duplicate_complete) = post_json w ''/v1/workers/vision-worker/jobs/job-1/complete''
       healthy_result app;
     ensure (http_status duplicate_complete = Some 200);
     let (app, changed_complete) = post_json w ''/v1/workers/vision-worker/jobs/job-1/complete''
       (J_Object (first_attempt @ [(''result'', label ''changed'')])) app;
     ensure (http_status changed_complete = Some 409);
     let (app, late_fail) = post_json w ''/v1/workers/vision-worker/jobs/job-1/fail''
       (fail_body first_attempt ''late failure'' True) app;
     ensure (http_status late_fail = Some 409);
     job \<leftarrow> job_in ''job-1'' app;
     ensure (job_status job = Complete);
     ensure (job_result job = Some (label ''healthy''));
     ensure (job_error job = None);
     ensure (in_flight w ''vision-worker'' app = Some 0)
   }"

lemma complete_endpoint_tests_pass:
  assumes ok: "world_ok parse w"
  shows "passes (worker_complete_endpoint_marks_held_job_complete w)"
    "passes (worker_complete_endpoint_rejects_worker_that_does_not_hold_lease w)"
    "passes (worker_complete_endpoint_rejects_unknown_and_stale_workers w)"
    "passes (duplicate_worker_result_reports_do_not_change_terminal_job w)"
  by (simp_all add: test_defs reports_eval route_step test_routes [OF ok] percent_rule [OF ok] body_rules [OF ok])

section \<open>Failures\<close>

definition duplicate_terminal_failure_returns_existing_job_without_releasing_new_slot :: "test_world \<Rightarrow> unit option" where [test_defs]:
  "duplicate_terminal_failure_returns_existing_job_without_releasing_new_slot w = do {
     let js = jobs_default;
     let ws = worker_registry_default;
     js \<leftarrow> submit_plain w VisionAnalysis Batch js;
     js \<leftarrow> submit_plain w VisionAnalysis Batch js;
     ws \<leftarrow> join w (named_worker ''vision-worker'' None ''default'' [VisionAnalysis] (Some 1)) ws;
     let app = scheduler_app js ws;
     let (app, claim) = post_empty w ''/v1/workers/vision-worker/claim'' app;
     ensure (http_status claim = Some 200);
     let (app, failed) = post_json w ''/v1/workers/vision-worker/jobs/job-1/fail''
       (fail_body first_attempt ''bad input'' False) app;
     ensure (http_status failed = Some 200);
     ensure (in_flight w ''vision-worker'' app = Some 0);
     let (app, next_claim) = post_empty w ''/v1/workers/vision-worker/claim'' app;
     ensure (http_status next_claim = Some 200);
     ensure (in_flight w ''vision-worker'' app = Some 1);
     let (app, duplicate_fail) = post_json w ''/v1/workers/vision-worker/jobs/job-1/fail''
       (fail_body first_attempt ''bad input'' False) app;
     ensure (http_status duplicate_fail = Some 200);
     ensure (in_flight w ''vision-worker'' app = Some 1);
     let (app, changed_fail) = post_json w ''/v1/workers/vision-worker/jobs/job-1/fail''
       (fail_body first_attempt ''different'' False) app;
     ensure (http_status changed_fail = Some 409);
     failed \<leftarrow> job_in ''job-1'' app;
     ensure (job_status failed = Failed);
     ensure (job_error failed = Some bad_input)
   }"

definition worker_fail_endpoint_requeues_retryable_failure :: "test_world \<Rightarrow> unit option" where [test_defs]:
  "worker_fail_endpoint_requeues_retryable_failure w = do {
     let js = jobs_default;
     let ws = worker_registry_default;
     js \<leftarrow> submit_plain w IndexBuild Background js;
     js \<leftarrow> lease_to w ''index-worker'' IndexBuild 30000 js;
     ws \<leftarrow> join w (plain_worker ''index-worker'' IndexBuild) ws;
     let app = scheduler_app js ws;
     let (app, response) = post_json w ''/v1/workers/index-worker/jobs/job-1/fail''
       (fail_body [] ''temporary worker failure'' True) app;
     ensure (http_status response = Some 200);
     job \<leftarrow> job_of response;
     ensure (job_status job = Queued);
     ensure (map_option message (job_error job) = Some ''temporary worker failure'');
     ensure (map_option retryable (job_error job) = Some True);
     ensure (job_lease job = None);
     ensure (queued_ids (app_jobs app) = [''job-1''])
   }"

definition worker_fail_endpoint_marks_non_retryable_failure_failed :: "test_world \<Rightarrow> unit option" where [test_defs]:
  "worker_fail_endpoint_marks_non_retryable_failure_failed w = do {
     let js = jobs_default;
     let ws = worker_registry_default;
     js \<leftarrow> submit_plain w Cluster Batch js;
     js \<leftarrow> lease_to w ''cluster-worker'' Cluster 30000 js;
     ws \<leftarrow> join w (plain_worker ''cluster-worker'' Cluster) ws;
     let app = scheduler_app js ws;
     let (app, response) = post_json w ''/v1/workers/cluster-worker/jobs/job-1/fail''
       (fail_body [] ''invalid request'' False) app;
     ensure (http_status response = Some 200);
     job \<leftarrow> job_of response;
     ensure (job_status job = Failed);
     ensure (map_option message (job_error job) = Some ''invalid request'');
     ensure (map_option retryable (job_error job) = Some False);
     ensure (job_lease job = None)
   }"

definition worker_fail_endpoint_rejects_empty_error :: "test_world \<Rightarrow> unit option" where [test_defs]:
  "worker_fail_endpoint_rejects_empty_error w = do {
     let js = jobs_default;
     let ws = worker_registry_default;
     ws \<leftarrow> join w (plain_worker ''worker-a'' Cluster) ws;
     let app = scheduler_app js ws;
     let (app, response) = post_json w ''/v1/workers/worker-a/jobs/job-1/fail''
       (J_Object [(''error'', J_String ''   '')]) app;
     ensure (http_status response = Some 400)
   }"

definition worker_fail_endpoint_rejects_unknown_and_stale_workers :: "test_world \<Rightarrow> unit option" where [test_defs]:
  "worker_fail_endpoint_rejects_unknown_and_stale_workers w = do {
     let js = jobs_default;
     let stale_workers = worker_registry_new 0;
     js \<leftarrow> submit_plain w Cluster Background js;
     js \<leftarrow> lease_to w ''worker-a'' Cluster 30000 js;
     stale_workers \<leftarrow> join w (plain_worker ''worker-a'' Cluster) stale_workers;
     let unknown_app = scheduler_app js worker_registry_default;
     let (unknown_app, unknown) = post_json w ''/v1/workers/worker-a/jobs/job-1/fail''
       (fail_body [] ''worker failed'' True) unknown_app;
     ensure (http_status unknown = Some 404);
     let stale_app = scheduler_app (app_jobs unknown_app) stale_workers;
     let (_, stale) = post_json w ''/v1/workers/worker-a/jobs/job-1/fail''
       (fail_body [] ''worker failed'' True) stale_app;
     ensure (http_status stale = Some 409)
   }"

lemma fail_endpoint_tests_pass:
  assumes ok: "world_ok parse w"
  shows "passes (duplicate_terminal_failure_returns_existing_job_without_releasing_new_slot w)"
    "passes (worker_fail_endpoint_requeues_retryable_failure w)"
    "passes (worker_fail_endpoint_marks_non_retryable_failure_failed w)"
    "passes (worker_fail_endpoint_rejects_empty_error w)"
    "passes (worker_fail_endpoint_rejects_unknown_and_stale_workers w)"
  by (simp_all add: test_defs reports_eval route_step test_routes [OF ok] percent_rule [OF ok] body_rules [OF ok])

end
