(* ===== verification/Spec2Isabelle.thy ===== *)
theory Spec2Isabelle
  imports
    Jobs_Props
    Jobs_Snapshots
    Storage_Props
    Scheduler_Props
    Callbacks
    Metrics
    Router_Props
    Priority_Limiter
    Proxy_Props
    Config_Props
    Server_Props
    Callback_Props
    Gateway
    Router_Tests
    Wire_Types
    Resources_Tests
    Jobs_Http_Tests
    Scheduler_Report_Tests
begin

text \<open>
  A verification library for fairlead, a gateway in front of inference servers. The program
  (\<open>src/src/\<close>) has two halves that share one process. The proxy half forwards chat and embedding
  requests to configured backends, with circuit breakers, session affinity, pools, resource reports
  and a limit per priority. The async half keeps a registry of jobs that workers claim, renew,
  complete and fail over HTTP, with leases, retries, idempotency keys, callbacks, pruning and an
  optional SQLite store. \<open>main\<close> reads the configuration from the environment and builds the state
  that all handlers share.

  How the code is modelled. A struct is a record, an enum a datatype with the source's
  constructors, a fallible call a sum with the error on the left, a panic a value of its own. A
  method that holds its lock for its whole body is one function on the state; a handler is a
  composition of such functions, in the order of the code, and what other tasks do between its
  calls is an interleaving of steps (the ledger of slots, the callback deliveries, the server, the
  priority limiter, the requests of the proxy). The sequential \<open>forward\<close> and \<open>deliver_callback\<close> take
  what others do as a parameter, and are shown to be runs of the interleaved systems. Strings are lists of UTF-8 bytes. Clocks,
  the HTTP client, serde_json, SQLite's file access, the URL parser, axum's matching and decoding of
  paths and tokio's semaphore are parameters; what the proofs need of them are hypotheses with an
  instance in the witnesses. The circuit breaker's
  counter is a 32-bit word; the other counters are natural numbers, and the casts of the store are
  written out.

  Theories and sources.

  \<^item> \<open>Prelude\<close>: the parts of the Rust library that are used (\<open>min_by\<close>, \<open>trim\<close>, number parsing,
    casts, \<open>BTreeMap\<close>) and lemmas on lists, maps and results.
  \<^item> \<open>Config_Types\<close>, \<open>Config\<close>, \<open>Config_Props\<close>: \<open>config.rs\<close>, every parser and validator of
    \<open>Config::from_lookup\<close>. An accepted configuration is well formed; which backends the policies
    let requests reach.
  \<^item> \<open>Job_Types\<close>, \<open>Job_Queues\<close>, \<open>Jobs\<close>, \<open>Jobs_Snapshots\<close>: \<open>jobs.rs\<close>, records, queues and every
    method of \<open>JobRegistry\<close>. \<open>Jobs_Inv\<close>, \<open>Jobs_Sweep\<close> and \<open>Jobs_Finish\<close> have the invariant and the
    effect of each operation, \<open>Jobs_Steps\<close> and \<open>Jobs_History\<close> the step relation over all
    operations, its invariant and its histories of claims, \<open>Jobs_Props\<close> the properties,
    \<open>Jobs_Example\<close> a run for the witnesses.
  \<^item> \<open>Storage\<close>, \<open>Storage_Props\<close>: \<open>storage.rs\<close> and \<open>with_store_and_retention\<close>. Rows, schema,
    saving, loading, restart.
  \<^item> \<open>Workers\<close>: \<open>workers.rs\<close>, the registry and its invariant.
  \<^item> \<open>Scheduler\<close>: the handlers of \<open>scheduler.rs\<close>, \<open>jobs.rs\<close> and \<open>workers.rs\<close>. \<open>Accounting\<close> relates
    the slots of the workers to the leases of the jobs over arbitrary interleavings of the single
    calls, \<open>Api_Ledger\<close> shows that every handler is a run of that relation, \<open>Scheduler_Props\<close> has the
    properties.
  \<^item> \<open>Callbacks\<close>: \<open>callbacks.rs\<close>, the dispatcher and the delivery loop. \<open>Callback_Steps\<close> cuts
    \<open>deliver_with_retries\<close> at its awaits and interleaves any number of deliveries with the calls of
    the registry; \<open>Callback_Props\<close> has what the receiver of the notices observes.
  \<^item> \<open>Systems\<close>: runs, invariants and simulations of step relations.
  \<^item> \<open>Metrics\<close>, \<open>Metrics_Render\<close>: \<open>metrics.rs\<close>, the counters and the text of the metrics page.
  \<^item> \<open>Circuit\<close>, \<open>Router\<close>, \<open>Router_Props\<close>: \<open>router/\<close>, breakers, affinity, health URLs and probes, the
    order of backend selection. \<open>Resources\<close>: \<open>resources.rs\<close>. \<open>Priority_Limiter\<close>: \<open>priority.rs\<close>.
  \<^item> \<open>Proxy\<close>, \<open>Proxy_Forward\<close>, \<open>Proxy_Props\<close>: \<open>proxy/mod.rs\<close>, a request from its headers to its
    response. \<open>Proxy_Steps\<close> cuts \<open>forward\<close> at every access to shared state and interleaves any number of
    requests with health probes, reports and clients that go away; \<open>Proxy_Runs\<close> shows that \<open>forward\<close> is
    a run of that system, \<open>Proxy_Concurrent\<close> what holds of all its runs: permits and counters, the
    breakers, the life of a request, the bound threads.
  \<^item> \<open>Server\<close>: \<open>main.rs\<close> up to the shared state and \<open>models.rs\<close>. \<open>Server_Steps\<close>: the handlers, the
    three background loops of \<open>main.rs\<close> and the deliveries as one step relation. \<open>Server_Props\<close>:
    properties of the composition of configuration, store, registries, loops and metrics page.
  \<^item> \<open>Http\<close>, \<open>Http_Props\<close>: \<open>build_router\<close> of \<open>main.rs\<close>, the extractors of the handlers, \<open>health.rs\<close>
    and \<open>error.rs\<close>. Requests reach their handlers and every request is answered.
  \<^item> \<open>Gateway\<close>: the server and the proxy side by side, as \<open>main\<close> starts them. What a request does is a
    run of the two, and the metrics page shows what runs there.

  \<^item> \<open>Wire_Types\<close>: \<open>proxy/types.rs\<close>, the types of the OpenAI API with the JSON that serde derives for
    them, both ways; what is written is read back. \<open>Json\<close> has JSON values and the decoders of the serde
    attributes, \<open>Request_Bodies\<close> the bodies that the handlers take.
  \<^item> \<open>Conformance\<close>, \<open>Test_App\<close>, \<open>Test_Page\<close> and the theories \<open>*_Tests\<close>: the unit tests of the source
    files, each an executable definition with the name of the test function, and the proof that it
    passes for every clock, HTTP library and writer of JSON that behave as documented.

  Interfaces. \<open>Job_Queues\<close> states what the registry needs of its queues as the locale
  \<open>keyed_queues\<close>, interpreted on the queues of the code; \<open>Accounting\<close> states what the accounting
  needs of the worker registry as \<open>slot_registry\<close>, interpreted on \<open>try_acquire_slot\<close> and
  \<open>release_slot\<close>. \<open>Systems\<close> has \<open>invariant_system\<close>, a step relation that keeps an invariant
  (interpreted as \<open>cb\<close> on the deliveries, as \<open>sv\<close> on the server and as \<open>px\<close> on the proxy), and its
  extension \<open>simulation\<close>, a step relation that refines a smaller one (\<open>nt\<close>: the deliveries refine the
  life of one notice; \<open>pl\<close>: the proxy refines the use of the priority limiter).

  Bounds and fuel. \<open>forward_loop\<close> has as fuel one more than the number of backends: every turn
  tries a backend that was not tried before, so it is enough, and that forwarding returns is a
  theorem. The delivery loop and the claims of a job are bounded by the numbers in the code.

  Where the code and its intent part. Some theorems describe behaviour that the code probably does
  not want: reports and claims whose write to the store fails, ids after a restart, slots after a
  restart, the half-open breaker, pool names with white space, line feeds in metric labels, the path
  of a worker whose id is \<open>register\<close>, which only an escaped spelling reaches.

  Scopes. The registry's invariant, its life cycle and its histories hold for every outcome of the
  store's writes. That slots equal leases, and that the preview foretells a claim, is stated for
  sessions in which every write succeeds (the in-memory store has no other), since a failed write is
  shown to break it. What is said of a saved registry is said of values that the codec reads back as
  they were written: \<open>serde_json\<close>, as it is configured, does not promise that of every float, so it is
  a hypothesis on the payloads and results of the jobs at hand, not a law of the codec.

  Not modelled. The inside of axum (its router and extractors are parameters with what the code
  relies on as hypotheses) and of serde_json (the parser of texts and the coders of the store's columns are
  parameters); logging and \<open>init_tracing\<close>; the process harness, \<open>axum::serve\<close> and the listener; the timers of the
  background loops, whose turns are the modelled operations; of the unit tests those that start
  servers or tasks, open a database file, or check that a series is absent from the metrics page. The rounding of sums of \<open>f64\<close> seconds is
  not modelled, and case conversion is that of ASCII.
\<close>

end
